(* ===== verification/Js_Prelude.thy ===== *)
theory Js_Prelude
  imports Main "HOL-Library.Sublist"
begin

text \<open>
  Shared vocabulary of the development: the JavaScript string, option and array operations the
  modelled TypeScript uses, and the generic lemmas about them.

  A JavaScript string is modelled as a \<open>string\<close> (a list of \<open>char\<close>), one \<open>char\<close> per UTF-16 code
  unit, so the model covers strings over the code units 0 to 255 (Latin-1). On that range
  \<open>toLowerCase\<close> maps the letters A to Z and the code units C0 to DE other than D7 to the code unit
  32 above, and \<open>trim\<close> strips the code units 9 to 13, 32 and 160; both are written out below.
  \<open>null\<close> and \<open>undefined\<close> are \<open>None\<close>. A \<open>Map\<close> or a plain object used as a dictionary is a partial
  function; an array is a list.
\<close>

named_theorems js_simps \<open>unfolding rules for the JavaScript helpers\<close>

type_synonym id = string

section \<open>Strings\<close>

definition js_lower_char :: "char \<Rightarrow> char" where
  "js_lower_char c =
     (let n = of_char c :: nat in
      if (65 \<le> n \<and> n \<le> 90) \<or> (192 \<le> n \<and> n \<le> 222 \<and> n \<noteq> 215) then char_of (n + 32) else c)"

definition toLowerCase :: "string \<Rightarrow> string" where
  "toLowerCase s = map js_lower_char s"

definition js_is_space :: "char \<Rightarrow> bool" where
  "js_is_space c = (let n = of_char c :: nat in (9 \<le> n \<and> n \<le> 13) \<or> n = 32 \<or> n = 160)"

definition trim :: "string \<Rightarrow> string" where
  "trim s = rev (dropWhile js_is_space (rev (dropWhile js_is_space s)))"

definition startsWith :: "string \<Rightarrow> string \<Rightarrow> bool" where
  "startsWith s p = (take (length p) s = p)"

fun str_includes :: "string \<Rightarrow> string \<Rightarrow> bool" where
  "str_includes [] p = (p = [])"
| "str_includes (c # cs) p = (startsWith (c # cs) p \<or> str_includes cs p)"

fun split_on :: "char \<Rightarrow> string \<Rightarrow> string list" where
  "split_on c [] = [[]]"
| "split_on c (x # xs) =
     (if x = c then [] # split_on c xs
      else (case split_on c xs of [] \<Rightarrow> [[x]] | y # ys \<Rightarrow> (x # y) # ys))"

fun join :: "string \<Rightarrow> string list \<Rightarrow> string" where
  "join sep [] = []"
| "join sep [x] = x"
| "join sep (x # y # zs) = x @ sep @ join sep (y # zs)"

section \<open>Nullish values\<close>

text \<open>\<open>a ?? b\<close>, and the truthiness test of an optional string (\<open>if (s)\<close>).\<close>

definition nullish :: "'a option \<Rightarrow> 'a option \<Rightarrow> 'a option" where
  "nullish a b = (case a of None \<Rightarrow> b | Some x \<Rightarrow> Some x)"

definition truthy_str :: "string option \<Rightarrow> bool" where
  "truthy_str s = (case s of None \<Rightarrow> False | Some x \<Rightarrow> x \<noteq> [])"

text \<open>\<open>s || undefined\<close> and \<open>s || null\<close> on an optional string: the empty string becomes nullish.\<close>

definition str_or_none :: "string option \<Rightarrow> string option" where
  "str_or_none s = (if truthy_str s then s else None)"

section \<open>JSON values\<close>

text \<open>
  A value of a \<open>jsonb\<close> column. Numbers are the integers the settings use; an object is its list of
  entries, with distinct keys. \<open>asRecord\<close> and the property reads of the sources see nothing of a
  value that is not an object.
\<close>

datatype json = JNull | JBool bool | JNum int | JStr string | JArr "json list"
  | JObj "(string \<times> json) list"

definition json_prop :: "json option \<Rightarrow> string \<Rightarrow> json option" where
  "json_prop v f = (case v of Some (JObj kvs) \<Rightarrow> map_of kvs f | _ \<Rightarrow> None)"

section \<open>Arrays\<close>

text \<open>
  \<open>xs.sort(cmp)\<close> for a comparator that is a total preorder: the stable sort. \<open>le a b\<close> stands for
  \<open>cmp(a, b) <= 0\<close>; insertion puts an element in front of the elements it is not greater than, so
  elements that compare equal keep their order.
\<close>

fun js_insort :: "('a \<Rightarrow> 'a \<Rightarrow> bool) \<Rightarrow> 'a \<Rightarrow> 'a list \<Rightarrow> 'a list" where
  "js_insort le x [] = [x]"
| "js_insort le x (y # ys) = (if le x y then x # y # ys else y # js_insort le x ys)"

definition js_sort :: "('a \<Rightarrow> 'a \<Rightarrow> bool) \<Rightarrow> 'a list \<Rightarrow> 'a list" where
  "js_sort le xs = foldr (js_insort le) xs []"

text \<open>The members every plain object inherits; reading one of them is never undefined.\<close>

definition OBJECT_PROTOTYPE_KEYS :: "string list" where
  "OBJECT_PROTOTYPE_KEYS =
     [''constructor'', ''__defineGetter__'', ''__defineSetter__'', ''hasOwnProperty'',
      ''__lookupGetter__'', ''__lookupSetter__'', ''isPrototypeOf'', ''propertyIsEnumerable'',
      ''toString'', ''valueOf'', ''__proto__'', ''toLocaleString'']"

text \<open>\<open>[...new Set(xs)]\<close>: the distinct elements in the order of their first occurrence.\<close>

fun js_dedup_from :: "'a list \<Rightarrow> 'a list \<Rightarrow> 'a list" where
  "js_dedup_from seen [] = []"
| "js_dedup_from seen (x # xs) =
     (if x \<in> set seen then js_dedup_from seen xs else x # js_dedup_from (x # seen) xs)"

definition js_dedup :: "'a list \<Rightarrow> 'a list" where
  "js_dedup xs = js_dedup_from [] xs"

text \<open>The order of strings by code units, as \<open><\<close> on strings has it.\<close>

fun str_le :: "string \<Rightarrow> string \<Rightarrow> bool" where
  "str_le [] t = True"
| "str_le (c # s) [] = False"
| "str_le (c # s) (d # t) =
     (of_char c < (of_char d :: nat) \<or> (c = d \<and> str_le s t))"

lemma str_le_refl: "str_le s s"
  by (induction s) auto

section \<open>Lemmas\<close>

lemma js_lower_char_idem [simp]: "js_lower_char (js_lower_char c) = js_lower_char c"
  by (auto simp: js_lower_char_def Let_def)

lemma toLowerCase_idem [simp]: "toLowerCase (toLowerCase s) = toLowerCase s"
  by (simp add: toLowerCase_def)

lemma toLowerCase_Nil [simp]: "toLowerCase [] = []"
  by (simp add: toLowerCase_def)

lemma toLowerCase_eq_Nil [simp]: "toLowerCase s = [] \<longleftrightarrow> s = []"
  by (simp add: toLowerCase_def)

lemma toLowerCase_append [simp]: "toLowerCase (s @ t) = toLowerCase s @ toLowerCase t"
  by (simp add: toLowerCase_def)

lemma length_toLowerCase [simp]: "length (toLowerCase s) = length s"
  by (simp add: toLowerCase_def)

lemma startsWith_iff_prefix: "startsWith s p \<longleftrightarrow> prefix p s"
  by (auto simp: startsWith_def prefix_def) (metis append_take_drop_id)

lemma startsWith_append [simp]: "startsWith (p @ s) p"
  by (simp add: startsWith_def)

lemma str_includes_iff_sublist: "str_includes s p \<longleftrightarrow> sublist p s"
  by (induction s) (auto simp: startsWith_iff_prefix sublist_Cons_right)

lemma split_on_neq_Nil [simp]: "split_on c s \<noteq> []"
  by (cases s) (auto split: list.splits)

lemma split_on_no_sep: "c \<notin> set s \<Longrightarrow> split_on c s = [s]"
  by (induction s) auto

lemma split_on_append_sep:
  "c \<notin> set s \<Longrightarrow> split_on c (s @ c # t) = s # split_on c t"
  by (induction s) auto

lemma append_sep_inject:
  "c \<notin> set a \<Longrightarrow> c \<notin> set b \<Longrightarrow> a @ c # x = b @ c # y \<longleftrightarrow> a = b \<and> x = y"
proof (induction a arbitrary: b)
  case Nil
  then show ?case by (cases b) auto
next
  case (Cons z a)
  then show ?case by (cases b) auto
qed

lemma split_on_join:
  assumes "xs \<noteq> []" and "\<forall>x \<in> set xs. c \<notin> set x"
  shows "split_on c (join [c] xs) = xs"
  using assms by (induction "[c]" xs rule: join.induct) (auto simp: split_on_no_sep split_on_append_sep)

lemma nullish_simps [simp]: "nullish None b = b" "nullish (Some x) b = Some x"
  by (simp_all add: nullish_def)

lemma nullish_None_iff [simp]: "nullish a b = None \<longleftrightarrow> a = None \<and> b = None"
  by (cases a) auto

lemma truthy_str_simps [simp]: "truthy_str None = False" "truthy_str (Some x) = (x \<noteq> [])"
  by (simp_all add: truthy_str_def)

lemma truthy_strE: "truthy_str s \<Longrightarrow> (\<And>x. s = Some x \<Longrightarrow> x \<noteq> [] \<Longrightarrow> P) \<Longrightarrow> P"
  by (cases s) auto

lemma str_or_none_Some: "str_or_none s = Some x \<longleftrightarrow> s = Some x \<and> x \<noteq> []"
  by (cases s) (auto simp: str_or_none_def)

lemma str_or_none_idem [simp]: "str_or_none (str_or_none s) = str_or_none s"
  by (simp add: str_or_none_def)

lemma set_js_insort [simp]: "set (js_insort le x xs) = insert x (set xs)"
  by (induction xs) auto

lemma set_js_sort [simp]: "set (js_sort le xs) = set xs"
  by (induction xs) (auto simp: js_sort_def)

lemma sorted_wrt_js_insort:
  assumes "\<And>a b. le a b \<or> le b a" and "\<And>a b c. le a b \<Longrightarrow> le b c \<Longrightarrow> le a c"
  shows "sorted_wrt le xs \<Longrightarrow> sorted_wrt le (js_insort le x xs)"
proof (induction xs)
  case (Cons y ys)
  show ?case
  proof (cases "le x y")
    case True
    with Cons.prems show ?thesis by (auto intro: assms(2))
  next
    case False
    with assms(1) have "le y x" by blast
    with False Cons show ?thesis by simp
  qed
qed simp

lemma sorted_wrt_js_sort:
  assumes "\<And>a b. le a b \<or> le b a" and "\<And>a b c. le a b \<Longrightarrow> le b c \<Longrightarrow> le a c"
  shows "sorted_wrt le (js_sort le xs)"
  by (induction xs) (simp_all add: js_sort_def sorted_wrt_js_insort [OF assms])

lemma set_js_dedup_from: "set (js_dedup_from seen xs) = set xs - set seen"
  by (induction seen xs rule: js_dedup_from.induct) auto

lemma set_js_dedup [simp]: "set (js_dedup xs) = set xs"
  by (simp add: js_dedup_def set_js_dedup_from)

lemma distinct_js_dedup_from: "distinct (js_dedup_from seen xs)"
  by (induction seen xs rule: js_dedup_from.induct) (auto simp: set_js_dedup_from)

lemma distinct_js_dedup [simp]: "distinct (js_dedup xs)"
  by (simp add: js_dedup_def distinct_js_dedup_from)

lemma js_dedup_from_distinct:
  "distinct xs \<Longrightarrow> set xs \<inter> set seen = {} \<Longrightarrow> js_dedup_from seen xs = xs"
  by (induction seen xs rule: js_dedup_from.induct) auto

lemma js_dedup_distinct [simp]: "distinct xs \<Longrightarrow> js_dedup xs = xs"
  by (simp add: js_dedup_def js_dedup_from_distinct)

lemma find_filter: "find P (filter Q xs) = find (\<lambda>x. Q x \<and> P x) xs"
  by (induction xs) auto

lemma find_cong_set: "(\<And>x. x \<in> set xs \<Longrightarrow> P x = Q x) \<Longrightarrow> find P xs = find Q xs"
  by (induction xs) auto

lemma find_SomeD: "find P xs = Some x \<Longrightarrow> x \<in> set xs \<and> P x"
  by (auto simp: find_Some_iff)

section \<open>Step invariants\<close>

locale step_invariant =
  fixes step :: "'s \<Rightarrow> 's \<Rightarrow> bool" and I :: "'s \<Rightarrow> bool"
  assumes keeps: "step a b \<Longrightarrow> I a \<Longrightarrow> I b"
begin

lemma reachable_keeps: "step\<^sup>*\<^sup>* a b \<Longrightarrow> I a \<Longrightarrow> I b"
  by (induction rule: rtranclp_induct) (auto intro: keeps)

end

end
