(* ===== verification/Db_Context.thy ===== *)
theory Db_Context
  imports Js_Prelude
begin

text \<open>
  The database access contexts of apps/api/src/db/index.ts and the row-level-security (RLS)
  predicates the migrations install. A request runs under at most one ambient context (the
  AsyncLocalStorage of the code); a context is turned into session settings (the \<open>breeze.*\<close>
  configuration variables), and the SQL policy helpers read only those settings. The tables the
  authorization code reads are lists of rows; \<open>select\<close> under a policy is the filter of the rows the
  policy admits, and \<open>... limit 1\<close> is the first remaining row.

  Ids are UUIDs in canonical text form (36 characters, lower case). The SQL helper matches the
  setting against a pattern of comma-separated UUIDs of either case before the cast \<open>::uuid[]\<close>,
  which folds the case; a setting outside the pattern gives the empty array.
\<close>

section \<open>Access contexts\<close>

datatype db_scope = SystemScope | PartnerScope | OrgScope

fun scope_text :: "db_scope \<Rightarrow> string" where
  "scope_text SystemScope = ''system''"
| "scope_text PartnerScope = ''partner''"
| "scope_text OrgScope = ''organization''"

record db_access_context =
  ctx_scope :: db_scope
  ctx_orgId :: "id option"
  ctx_accessibleOrgIds :: "id list option"
  ctx_accessiblePartnerIds :: "id list option"
  ctx_userId :: "id option"
  ctx_currentPartnerId :: "id option"

definition SYSTEM_DB_ACCESS_CONTEXT :: db_access_context where
  "SYSTEM_DB_ACCESS_CONTEXT =
     \<lparr>ctx_scope = SystemScope, ctx_orgId = None, ctx_accessibleOrgIds = None,
      ctx_accessiblePartnerIds = None, ctx_userId = None, ctx_currentPartnerId = None\<rparr>"

text \<open>A computation that reads the ambient context.\<close>

type_synonym 'a dbm = "db_access_context option \<Rightarrow> 'a"

definition serializeAccessibleIds :: "db_scope \<Rightarrow> id list option \<Rightarrow> string" where
  "serializeAccessibleIds scope accessibleIds =
     (if scope = SystemScope then ''*''
      else (case accessibleIds of
              None \<Rightarrow> []
            | Some ids \<Rightarrow> if ids = [] then [] else join '','' ids))"

record gucs =
  guc_scope :: string
  guc_org_id :: string
  guc_accessible_org_ids :: string
  guc_accessible_partner_ids :: string
  guc_user_id :: string
  guc_current_partner_id :: string

definition set_gucs :: "db_access_context \<Rightarrow> gucs" where
  "set_gucs c =
     \<lparr>guc_scope = scope_text (ctx_scope c),
      guc_org_id = (case ctx_orgId c of None \<Rightarrow> [] | Some x \<Rightarrow> x),
      guc_accessible_org_ids = serializeAccessibleIds (ctx_scope c) (ctx_accessibleOrgIds c),
      guc_accessible_partner_ids = serializeAccessibleIds (ctx_scope c) (ctx_accessiblePartnerIds c),
      guc_user_id = (case ctx_userId c of None \<Rightarrow> [] | Some x \<Rightarrow> x),
      guc_current_partner_id = (case ctx_currentPartnerId c of None \<Rightarrow> [] | Some x \<Rightarrow> x)\<rparr>"

text \<open>The settings a query sees: those of the ambient transaction, or the unset ones of the pool.\<close>

definition current_gucs :: "db_access_context option \<Rightarrow> gucs" where
  "current_gucs amb =
     (case amb of
        None \<Rightarrow> \<lparr>guc_scope = [], guc_org_id = [], guc_accessible_org_ids = [],
                 guc_accessible_partner_ids = [], guc_user_id = [], guc_current_partner_id = []\<rparr>
      | Some c \<Rightarrow> set_gucs c)"

definition withDbAccessContext :: "db_access_context \<Rightarrow> 'a dbm \<Rightarrow> 'a dbm" where
  "withDbAccessContext context fn amb =
     (case amb of Some c \<Rightarrow> fn (Some c) | None \<Rightarrow> fn (Some context))"

definition withSystemDbAccessContext :: "'a dbm \<Rightarrow> 'a dbm" where
  "withSystemDbAccessContext fn = withDbAccessContext SYSTEM_DB_ACCESS_CONTEXT fn"

definition hasDbAccessContext :: "bool dbm" where
  "hasDbAccessContext amb = (amb \<noteq> None)"

definition getCurrentDbAccessContext :: "(db_access_context option) dbm" where
  "getCurrentDbAccessContext amb = amb"

definition runOutsideDbContext :: "'a dbm \<Rightarrow> 'a dbm" where
  "runOutsideDbContext fn amb = fn None"

definition readWithPartnerAxisVisibility :: "'a dbm \<Rightarrow> 'a dbm" where
  "readWithPartnerAxisVisibility fn amb =
     (case getCurrentDbAccessContext amb of
        Some c \<Rightarrow>
          if ctx_scope c = SystemScope then fn amb
          else runOutsideDbContext (withSystemDbAccessContext fn) amb
      | None \<Rightarrow> runOutsideDbContext (withSystemDbAccessContext fn) amb)"

section \<open>The SQL policy helpers\<close>

definition breeze_current_scope :: "gucs \<Rightarrow> string" where
  "breeze_current_scope g = (if guc_scope g = [] then ''none'' else guc_scope g)"

definition uuid_text :: "id \<Rightarrow> bool" where
  "uuid_text s =
     (length s = 36 \<and>
      list_all (\<lambda>(i, c). if i \<in> {8, 13, 18, 23} then c = CHR ''-''
                         else c \<in> set ''0123456789abcdef'') (zip [0..<36] s))"

definition breeze_accessible_ids :: "string \<Rightarrow> id list option" where
  "breeze_accessible_ids raw =
     (if raw = ''*'' then None
      else if raw = [] then Some []
      else (let parts = map toLowerCase (split_on (CHR '','') raw)
            in if list_all uuid_text parts then Some parts else Some []))"

text \<open>\<open>x = ANY(NULL)\<close> is NULL, which the helper coalesces to false.\<close>

definition breeze_has_access :: "gucs \<Rightarrow> string \<Rightarrow> id option \<Rightarrow> bool" where
  "breeze_has_access g raw target =
     (if breeze_current_scope g = ''system'' then True
      else (case target of
              None \<Rightarrow> False
            | Some t \<Rightarrow> (case breeze_accessible_ids raw of None \<Rightarrow> False | Some ids \<Rightarrow> t \<in> set ids)))"

definition breeze_has_org_access :: "gucs \<Rightarrow> id option \<Rightarrow> bool" where
  "breeze_has_org_access g target = breeze_has_access g (guc_accessible_org_ids g) target"

definition breeze_has_partner_access :: "gucs \<Rightarrow> id option \<Rightarrow> bool" where
  "breeze_has_partner_access g target = breeze_has_access g (guc_accessible_partner_ids g) target"

section \<open>Tables\<close>

datatype partner_status = PPending | PActive | PSuspended | PChurned | POffboarding
datatype org_status = OActive | OSuspended | OTrial | OChurned | OOffboarding
datatype org_access = OrgAccessAll | OrgAccessSelected | OrgAccessNone

record partner_row =
  pa_id :: id
  pa_status :: partner_status
  pa_deletedAt :: "int option"
  pa_settings :: "json option"

record org_row =
  og_id :: id
  og_partnerId :: id
  og_status :: org_status
  og_deletedAt :: "int option"
  og_settings :: "json option"

record role_row =
  ro_id :: id
  ro_scope :: db_scope
  ro_isSystem :: bool
  ro_parentRoleId :: "id option"
  ro_partnerId :: "id option"
  ro_orgId :: "id option"
  ro_forceMfa :: bool

record permission_row =
  pe_id :: id
  pe_resource :: string
  pe_action :: string

record role_permission_row =
  rp_roleId :: id
  rp_permissionId :: id

record organization_user_row =
  ou_userId :: id
  ou_orgId :: id
  ou_roleId :: id
  ou_siteIds :: "id list option"

record partner_user_row =
  pu_userId :: id
  pu_partnerId :: id
  pu_roleId :: id
  pu_orgAccess :: org_access
  pu_orgIds :: "id list option"

text \<open>The budget columns of a row of \<open>ai_budgets\<close>, by column name.\<close>

record ai_budget_row =
  ab_orgId :: id
  ab_columns :: "(string \<times> json) list"

datatype user_status = UActive | UInvited | UDisabled

record user_row =
  us_id :: id
  us_partnerId :: id
  us_orgId :: "id option"
  us_status :: user_status
  us_isPlatformAdmin :: bool

record database =
  users :: "user_row list"
  partners :: "partner_row list"
  organizations :: "org_row list"
  roles :: "role_row list"
  permissions_table :: "permission_row list"
  role_permissions :: "role_permission_row list"
  organization_users :: "organization_user_row list"
  partner_users :: "partner_user_row list"
  ai_budgets :: "ai_budget_row list"

section \<open>Policies of the tables\<close>

definition role_visible :: "gucs \<Rightarrow> role_row \<Rightarrow> bool" where
  "role_visible g r =
     (breeze_has_partner_access g (ro_partnerId r)
      \<or> breeze_has_org_access g (ro_orgId r)
      \<or> (ro_isSystem r \<and> ro_partnerId r = None \<and> ro_orgId r = None
         \<and> breeze_current_scope g \<noteq> ''none''))"

definition select_users :: "gucs \<Rightarrow> database \<Rightarrow> user_row list" where
  "select_users g d =
     filter (\<lambda>u. breeze_has_partner_access g (Some (us_partnerId u))
       \<or> (us_orgId u \<noteq> None \<and> breeze_has_org_access g (us_orgId u))
       \<or> (guc_user_id g \<noteq> [] \<and> us_id u = guc_user_id g)) (users d)"

definition select_partners :: "gucs \<Rightarrow> database \<Rightarrow> partner_row list" where
  "select_partners g d = filter (\<lambda>p. breeze_has_partner_access g (Some (pa_id p))) (partners d)"

definition select_organizations :: "gucs \<Rightarrow> database \<Rightarrow> org_row list" where
  "select_organizations g d = filter (\<lambda>p. breeze_has_org_access g (Some (og_id p))) (organizations d)"

definition select_ai_budgets :: "gucs \<Rightarrow> database \<Rightarrow> ai_budget_row list" where
  "select_ai_budgets g d = filter (\<lambda>b. breeze_has_org_access g (Some (ab_orgId b))) (ai_budgets d)"

definition select_organization_users :: "gucs \<Rightarrow> database \<Rightarrow> organization_user_row list" where
  "select_organization_users g d =
     filter (\<lambda>u. breeze_has_org_access g (Some (ou_orgId u))) (organization_users d)"

definition select_partner_users :: "gucs \<Rightarrow> database \<Rightarrow> partner_user_row list" where
  "select_partner_users g d =
     filter (\<lambda>u. breeze_has_partner_access g (Some (pu_partnerId u))) (partner_users d)"

definition select_roles :: "gucs \<Rightarrow> database \<Rightarrow> role_row list" where
  "select_roles g d = filter (role_visible g) (roles d)"

definition select_role_permissions :: "gucs \<Rightarrow> database \<Rightarrow> role_permission_row list" where
  "select_role_permissions g d =
     filter (\<lambda>rp. list_ex (\<lambda>r. ro_id r = rp_roleId rp \<and> role_visible g r) (select_roles g d))
       (role_permissions d)"

text \<open>The allowlists of a context hold canonical UUIDs.\<close>

definition wf_ctx :: "db_access_context \<Rightarrow> bool" where
  "wf_ctx c =
     (list_all uuid_text (case ctx_accessibleOrgIds c of None \<Rightarrow> [] | Some xs \<Rightarrow> xs)
      \<and> list_all uuid_text (case ctx_accessiblePartnerIds c of None \<Rightarrow> [] | Some xs \<Rightarrow> xs))"

section \<open>Lemmas\<close>

lemmas rls_defs = breeze_has_org_access_def breeze_has_partner_access_def breeze_has_access_def

lemma uuid_text_chars: "uuid_text s \<Longrightarrow> c \<in> set s \<Longrightarrow> c \<in> set ''-0123456789abcdef''"
  unfolding uuid_text_def
proof (elim conjE)
  assume len: "length s = 36" and c: "c \<in> set s"
    and all: "list_all (\<lambda>(i, c). if i \<in> {8, 13, 18, 23} then c = CHR ''-''
                         else c \<in> set ''0123456789abcdef'') (zip [0..<36] s)"
  from c obtain i where i: "i < length s" "s ! i = c" by (auto simp: in_set_conv_nth)
  with len have "(i, c) \<in> set (zip [0..<36] s)"
    by (force simp: set_zip)
  with all have "if i \<in> {8, 13, 18, 23} then c = CHR ''-'' else c \<in> set ''0123456789abcdef''"
    unfolding list_all_iff by blast
  then show ?thesis by (auto split: if_splits)
qed

lemma uuid_text_no_comma: "uuid_text s \<Longrightarrow> CHR '','' \<notin> set s"
  using uuid_text_chars by force

lemma uuid_text_lower: "uuid_text s \<Longrightarrow> toLowerCase s = s"
proof -
  assume s: "uuid_text s"
  have "js_lower_char c = c" if "c \<in> set ''-0123456789abcdef''" for c
    using that by (auto simp: js_lower_char_def)
  with uuid_text_chars [OF s] show ?thesis
    unfolding toLowerCase_def by (intro map_idI) blast
qed

lemma uuid_text_no_star: "uuid_text s \<Longrightarrow> CHR ''*'' \<notin> set s"
  using uuid_text_chars by force

lemma uuid_text_nonempty: "uuid_text s \<Longrightarrow> s \<noteq> []"
  by (auto simp: uuid_text_def)

lemma join_uuid_not_special:
  assumes "list_all uuid_text (x # xs)"
  shows "join '','' (x # xs) \<noteq> []" and "join '','' (x # xs) \<noteq> ''*''"
proof -
  from assms have x: "uuid_text x" by simp
  from uuid_text_nonempty [OF x] obtain c cs where "x = c # cs" by (cases x) auto
  moreover from uuid_text_no_star [OF x] this have "c \<noteq> CHR ''*''" by auto
  ultimately show "join '','' (x # xs) \<noteq> []" "join '','' (x # xs) \<noteq> ''*''"
    by (cases xs; simp)+
qed

lemma accessible_ids_serialize:
  assumes "scope \<noteq> SystemScope" and "list_all uuid_text (case ids of None \<Rightarrow> [] | Some xs \<Rightarrow> xs)"
  shows "breeze_accessible_ids (serializeAccessibleIds scope ids)
           = Some (case ids of None \<Rightarrow> [] | Some xs \<Rightarrow> xs)"
proof (cases "case ids of None \<Rightarrow> [] | Some xs \<Rightarrow> xs")
  case Nil
  with assms show ?thesis
    by (auto simp: serializeAccessibleIds_def breeze_accessible_ids_def split: option.splits)
next
  case (Cons x xs)
  with assms(2) have all: "list_all uuid_text (x # xs)" by simp
  then have "\<forall>y \<in> set (x # xs). CHR '','' \<notin> set y"
    by (auto simp: list_all_iff dest: uuid_text_no_comma)
  then have "split_on (CHR '','') (join '','' (x # xs)) = x # xs"
    by (intro split_on_join) auto
  moreover from all have "map toLowerCase (x # xs) = x # xs"
    by (intro map_idI) (auto simp: list_all_iff uuid_text_lower)
  ultimately show ?thesis
    using Cons all assms(1) join_uuid_not_special [OF all]
    by (auto simp: serializeAccessibleIds_def breeze_accessible_ids_def Let_def
        split: option.splits)
qed

lemma scope_text_inj [simp]: "scope_text a = scope_text b \<longleftrightarrow> a = b"
  by (cases a; cases b; simp)

lemma current_scope_set_gucs [simp]: "breeze_current_scope (set_gucs c) = scope_text (ctx_scope c)"
  by (cases "ctx_scope c") (simp_all add: breeze_current_scope_def set_gucs_def)

lemma scope_text_system_iff [simp]: "scope_text s = ''system'' \<longleftrightarrow> s = SystemScope"
  by (cases s) simp_all

lemma scope_text_not_none [simp]: "scope_text s \<noteq> ''none''"
  by (cases s) simp_all

lemma current_gucs_simps [simp]:
  "current_gucs (Some c) = set_gucs c"
  by (simp add: current_gucs_def)

lemma contextless_scope [simp]: "breeze_current_scope (current_gucs None) = ''none''"
  by (simp add: current_gucs_def breeze_current_scope_def)

lemma system_access [simp]:
  "ctx_scope c = SystemScope \<Longrightarrow> breeze_has_org_access (set_gucs c) x"
  "ctx_scope c = SystemScope \<Longrightarrow> breeze_has_partner_access (set_gucs c) x"
  by (simp_all add: rls_defs)

lemma system_ctx_scope [simp]: "ctx_scope SYSTEM_DB_ACCESS_CONTEXT = SystemScope"
  by (simp add: SYSTEM_DB_ACCESS_CONTEXT_def)

lemma org_access_iff:
  assumes "wf_ctx c" and "ctx_scope c \<noteq> SystemScope"
  shows "breeze_has_org_access (set_gucs c) (Some i)
           \<longleftrightarrow> (\<exists>xs. ctx_accessibleOrgIds c = Some xs \<and> i \<in> set xs)"
proof -
  have "breeze_accessible_ids (guc_accessible_org_ids (set_gucs c))
          = Some (case ctx_accessibleOrgIds c of None \<Rightarrow> [] | Some xs \<Rightarrow> xs)"
    using accessible_ids_serialize [OF assms(2)] assms(1) by (simp add: set_gucs_def wf_ctx_def)
  with assms(2) show ?thesis by (auto simp: rls_defs split: option.splits)
qed

lemma partner_access_iff:
  assumes "wf_ctx c" and "ctx_scope c \<noteq> SystemScope"
  shows "breeze_has_partner_access (set_gucs c) (Some i)
           \<longleftrightarrow> (\<exists>xs. ctx_accessiblePartnerIds c = Some xs \<and> i \<in> set xs)"
proof -
  have "breeze_accessible_ids (guc_accessible_partner_ids (set_gucs c))
          = Some (case ctx_accessiblePartnerIds c of None \<Rightarrow> [] | Some xs \<Rightarrow> xs)"
    using accessible_ids_serialize [OF assms(2)] assms(1) by (simp add: set_gucs_def wf_ctx_def)
  with assms(2) show ?thesis by (auto simp: rls_defs split: option.splits)
qed

lemma contextless_access [simp]:
  "\<not> breeze_has_org_access (current_gucs None) x"
  "\<not> breeze_has_partner_access (current_gucs None) x"
  by (auto simp: rls_defs breeze_accessible_ids_def current_gucs_def breeze_current_scope_def
      split: option.splits)

lemma role_visible_system [simp]: "ctx_scope c = SystemScope \<Longrightarrow> role_visible (set_gucs c) r"
  by (simp add: role_visible_def)

lemma select_system [simp]:
  assumes "ctx_scope c = SystemScope"
  shows "select_users (set_gucs c) d = users d"
    and "select_partners (set_gucs c) d = partners d"
    and "select_organizations (set_gucs c) d = organizations d"
    and "select_organization_users (set_gucs c) d = organization_users d"
    and "select_partner_users (set_gucs c) d = partner_users d"
    and "select_roles (set_gucs c) d = roles d"
  using assms
  by (simp_all add: select_users_def select_partners_def select_organizations_def select_organization_users_def
      select_partner_users_def select_roles_def)

lemma runOutside_system [simp]:
  "runOutsideDbContext (withSystemDbAccessContext fn) amb = fn (Some SYSTEM_DB_ACCESS_CONTEXT)"
  by (simp add: runOutsideDbContext_def withSystemDbAccessContext_def withDbAccessContext_def)

section \<open>Readers that escape the ambient context\<close>

text \<open>
  The contract of the helpers that run a read with system visibility: whatever the ambient context,
  the read sees a context of system scope. A read that gives the same value in all of them is then
  independent of the caller.
\<close>

locale system_reader =
  fixes run :: "'a dbm \<Rightarrow> 'a dbm"
  assumes runs_as_system: "\<exists>c. ctx_scope c = SystemScope \<and> run fn amb = fn (Some c)"
begin

lemma run_eq: "(\<And>c. ctx_scope c = SystemScope \<Longrightarrow> fn (Some c) = v) \<Longrightarrow> run fn amb = v"
  using runs_as_system [of fn amb] by auto

lemma run_system: "(\<And>c. ctx_scope c = SystemScope \<Longrightarrow> fn (Some c) = fn (Some SYSTEM_DB_ACCESS_CONTEXT))
    \<Longrightarrow> run fn amb = fn (Some SYSTEM_DB_ACCESS_CONTEXT)"
  by (rule run_eq)

end

interpretation partner_axis_read: system_reader readWithPartnerAxisVisibility
proof unfold_locales
  show "\<exists>c. ctx_scope c = SystemScope \<and> readWithPartnerAxisVisibility fn amb = fn (Some c)"
    for fn :: "'a dbm" and amb
    by (cases amb) (auto simp: readWithPartnerAxisVisibility_def getCurrentDbAccessContext_def
        intro: exI [of _ SYSTEM_DB_ACCESS_CONTEXT])
qed

end
