(* ===== verification/Permissions.thy ===== *)
theory Permissions
  imports Db_Context
begin

text \<open>
  Role-based permissions: packages/shared/src/constants/permissions.ts (the registry),
  apps/api/src/services/permissionMatching.ts and apps/api/src/services/permissions.ts.

  \<open>getUserPermissions\<close> resolves the permissions of a user in an organization or partner from the
  membership and role tables, under row-level security, and caches the result in a process-local
  map whose entries carry the version counters that were read before the resolution. The counters
  live in Redis; only \<open>GET\<close>/\<open>MGET\<close> and \<open>INCR\<close> on them are used, so the shared store is a partial
  function from keys to counters and a client is null, failing or up.
\<close>

section \<open>Permissions and grants\<close>

record permission =
  perm_resource :: string
  perm_action :: string

definition mk_perm :: "string \<times> string \<Rightarrow> permission" where
  "mk_perm ra = \<lparr>perm_resource = fst ra, perm_action = snd ra\<rparr>"

definition PERMISSION_GRANTS :: "(string \<times> string) list" where
  "PERMISSION_GRANTS =
     [(''backup'', ''read''),
      (''backup'', ''write''),
      (''devices'', ''read''),
      (''devices'', ''write''),
      (''devices'', ''delete''),
      (''devices'', ''execute''),
      (''topology'', ''read''),
      (''topology'', ''write''),
      (''scripts'', ''read''),
      (''scripts'', ''write''),
      (''scripts'', ''delete''),
      (''scripts'', ''execute''),
      (''alerts'', ''read''),
      (''alerts'', ''write''),
      (''alerts'', ''acknowledge''),
      (''tickets'', ''read''),
      (''tickets'', ''write''),
      (''tickets'', ''manage''),
      (''ticket_mailbox'', ''read''),
      (''ticket_mailbox'', ''admin''),
      (''catalog'', ''read''),
      (''catalog'', ''write''),
      (''catalog'', ''delete''),
      (''invoices'', ''read''),
      (''invoices'', ''write''),
      (''invoices'', ''send''),
      (''invoices'', ''export''),
      (''contracts'', ''read''),
      (''contracts'', ''write''),
      (''contracts'', ''manage''),
      (''quotes'', ''read''),
      (''quotes'', ''write''),
      (''quotes'', ''send''),
      (''time_entries'', ''read''),
      (''time_entries'', ''write''),
      (''users'', ''read''),
      (''users'', ''write''),
      (''users'', ''delete''),
      (''users'', ''invite''),
      (''organizations'', ''read''),
      (''organizations'', ''write''),
      (''organizations'', ''delete''),
      (''sso'', ''admin''),
      (''sites'', ''read''),
      (''sites'', ''write''),
      (''sites'', ''delete''),
      (''automations'', ''read''),
      (''automations'', ''write''),
      (''automations'', ''delete''),
      (''remote'', ''access''),
      (''audit'', ''read''),
      (''audit'', ''export''),
      (''reports'', ''read''),
      (''reports'', ''write''),
      (''reports'', ''delete''),
      (''reports'', ''export''),
      (''billing'', ''manage''),
      (''vulnerabilities'', ''accept_risk''),
      (''ai_sessions'', ''read_all''),
      (''approvals'', ''decide''),
      (''*'', ''*'')]"

definition permissionGrantMatches :: "permission \<Rightarrow> string \<Rightarrow> string \<Rightarrow> bool" where
  "permissionGrantMatches grant resource action =
     ((perm_resource grant = resource \<or> perm_resource grant = ''*'')
      \<and> (perm_action grant = action \<or> perm_action grant = ''*''))"

record user_permissions =
  up_permissions :: "permission list"
  up_partnerId :: "id option"
  up_orgId :: "id option"
  up_roleId :: id
  up_scope :: db_scope
  up_orgAccess :: "org_access option"
  up_allowedOrgIds :: "id list option"
  up_allowedSiteIds :: "id list option"

definition hasPermission :: "user_permissions \<Rightarrow> string \<Rightarrow> string \<Rightarrow> bool" where
  "hasPermission userPerms resource action =
     list_ex (\<lambda>p. permissionGrantMatches p resource action) (up_permissions userPerms)"

definition userCanDecideApprovals :: "user_permissions \<Rightarrow> bool" where
  "userCanDecideApprovals userPerms = hasPermission userPerms ''approvals'' ''decide''"

definition canAccessOrg :: "user_permissions \<Rightarrow> id \<Rightarrow> bool" where
  "canAccessOrg userPerms orgId =
     (if up_scope userPerms = OrgScope then up_orgId userPerms = Some orgId
      else if up_scope userPerms = PartnerScope then
        (case up_orgAccess userPerms of
           Some OrgAccessAll \<Rightarrow> True
         | Some OrgAccessNone \<Rightarrow> False
         | Some OrgAccessSelected \<Rightarrow>
             (case up_allowedOrgIds userPerms of None \<Rightarrow> False | Some ids \<Rightarrow> orgId \<in> set ids)
         | None \<Rightarrow> True)
      else True)"

definition canAccessSite :: "user_permissions \<Rightarrow> id \<Rightarrow> bool" where
  "canAccessSite userPerms siteId =
     (case up_allowedSiteIds userPerms of None \<Rightarrow> True | Some ids \<Rightarrow> siteId \<in> set ids)"

definition permissionKey :: "permission \<Rightarrow> string" where
  "permissionKey p = perm_resource p @ '':'' @ perm_action p"

definition KNOWN_PERMISSIONS :: "permission list" where
  "KNOWN_PERMISSIONS = map mk_perm PERMISSION_GRANTS"

definition ASSIGNABLE_PERMISSIONS :: "permission list" where
  "ASSIGNABLE_PERMISSIONS =
     filter (\<lambda>p. perm_resource p \<noteq> ''*'' \<and> perm_action p \<noteq> ''*'') KNOWN_PERMISSIONS"

definition isKnownPermission :: "permission \<Rightarrow> bool" where
  "isKnownPermission p = (permissionKey p \<in> set (map permissionKey KNOWN_PERMISSIONS))"

definition isAssignablePermission :: "permission \<Rightarrow> bool" where
  "isAssignablePermission p = (permissionKey p \<in> set (map permissionKey ASSIGNABLE_PERMISSIONS))"

section \<open>Resolution from the membership tables\<close>

record perm_context =
  pc_partnerId :: "id option"
  pc_orgId :: "id option"

datatype axis = OrgAxis | PartnerAxis

definition canSee :: "axis \<Rightarrow> id \<Rightarrow> bool dbm" where
  "canSee axis i amb =
     (case amb of
        None \<Rightarrow> False
      | Some c \<Rightarrow>
          if ctx_scope c = SystemScope then True
          else (case (if axis = OrgAxis then ctx_accessibleOrgIds c else ctx_accessiblePartnerIds c) of
                  None \<Rightarrow> False | Some ids \<Rightarrow> i \<in> set ids))"

definition runForAxis :: "bool \<Rightarrow> 'a dbm \<Rightarrow> 'a dbm" where
  "runForAxis visible fn amb =
     (if visible then fn amb else runOutsideDbContext (withSystemDbAccessContext fn) amb)"

text \<open>\<open>role_permissions\<close> inner-joined with \<open>permissions\<close>, for one role.\<close>

definition role_perm_rows :: "database \<Rightarrow> id \<Rightarrow> permission list dbm" where
  "role_perm_rows d roleId amb =
     concat (map (\<lambda>rp. map (\<lambda>p. \<lparr>perm_resource = pe_resource p, perm_action = pe_action p\<rparr>)
                         (filter (\<lambda>p. pe_id p = rp_permissionId rp) (permissions_table d)))
       (filter (\<lambda>rp. rp_roleId rp = roleId) (select_role_permissions (current_gucs amb) d)))"

definition buildPerms ::
  "database \<Rightarrow> perm_context \<Rightarrow> id \<Rightarrow> db_scope \<Rightarrow> org_access option \<Rightarrow> id list option
     \<Rightarrow> id list option \<Rightarrow> user_permissions dbm" where
  "buildPerms d context roleId scope orgAccess allowedOrgIds allowedSiteIds amb =
     \<lparr>up_permissions = role_perm_rows d roleId amb,
      up_partnerId = str_or_none (pc_partnerId context),
      up_orgId = str_or_none (pc_orgId context),
      up_roleId = roleId,
      up_scope = scope,
      up_orgAccess = orgAccess,
      up_allowedOrgIds = allowedOrgIds,
      up_allowedSiteIds = allowedSiteIds\<rparr>"

definition resolveOrgAxis ::
  "database \<Rightarrow> id \<Rightarrow> perm_context \<Rightarrow> id \<Rightarrow> user_permissions option dbm" where
  "resolveOrgAxis d userId context orgId amb =
     (case find (\<lambda>u. ou_userId u = userId \<and> ou_orgId u = orgId)
             (select_organization_users (current_gucs amb) d) of
        None \<Rightarrow> None
      | Some orgUser \<Rightarrow>
          if ou_roleId orgUser = [] then None
          else Some (buildPerms d context (ou_roleId orgUser) OrgScope None None
                       (ou_siteIds orgUser) amb))"

definition resolvePartnerAxis ::
  "database \<Rightarrow> id \<Rightarrow> perm_context \<Rightarrow> id \<Rightarrow> user_permissions option dbm" where
  "resolvePartnerAxis d userId context partnerId amb =
     (case find (\<lambda>u. pu_userId u = userId \<and> pu_partnerId u = partnerId)
             (select_partner_users (current_gucs amb) d) of
        None \<Rightarrow> None
      | Some partnerUser \<Rightarrow>
          if pu_roleId partnerUser = [] then None
          else Some (buildPerms d context (pu_roleId partnerUser) PartnerScope
                       (Some (pu_orgAccess partnerUser)) (pu_orgIds partnerUser) None amb))"

definition resolveUserPermissions ::
  "database \<Rightarrow> id \<Rightarrow> perm_context \<Rightarrow> user_permissions option dbm" where
  "resolveUserPermissions d userId context amb =
     (let orgPerms =
            (case str_or_none (pc_orgId context) of
               None \<Rightarrow> None
             | Some orgId \<Rightarrow>
                 runForAxis (canSee OrgAxis orgId amb) (resolveOrgAxis d userId context orgId) amb)
      in case orgPerms of
           Some p \<Rightarrow> Some p
         | None \<Rightarrow>
             (case str_or_none (pc_partnerId context) of
                None \<Rightarrow> None
              | Some partnerId \<Rightarrow>
                  runForAxis (canSee PartnerAxis partnerId amb)
                    (resolvePartnerAxis d userId context partnerId) amb))"

section \<open>The versioned cache\<close>

record cache_versions =
  cv_global :: nat
  cv_user :: nat

record cache_entry =
  ce_userPerms :: user_permissions
  ce_expiresAt :: int
  ce_versions :: "cache_versions option"

type_synonym perm_cache = "string \<rightharpoonup> cache_entry"
type_synonym version_store = "string \<rightharpoonup> nat"

datatype redis_client = RedisNull | RedisFailing | RedisUp

definition CACHE_TTL :: int where
  "CACHE_TTL = 5 * 60 * 1000"

definition PERMISSION_CACHE_GLOBAL_VERSION_KEY :: string where
  "PERMISSION_CACHE_GLOBAL_VERSION_KEY = ''permission-cache:version''"

definition userPermissionVersionKey :: "id \<Rightarrow> string" where
  "userPermissionVersionKey userId = ''permission-cache:user-version:'' @ userId"

definition getPermissionCacheVersions ::
  "redis_client \<Rightarrow> version_store \<Rightarrow> id \<Rightarrow> cache_versions option" where
  "getPermissionCacheVersions redis store userId =
     (if redis = RedisUp then
        Some \<lparr>cv_global = (case store PERMISSION_CACHE_GLOBAL_VERSION_KEY of None \<Rightarrow> 0 | Some n \<Rightarrow> n),
              cv_user = (case store (userPermissionVersionKey userId) of None \<Rightarrow> 0 | Some n \<Rightarrow> n)\<rparr>
      else None)"

definition cacheVersionsMatch :: "cache_versions option \<Rightarrow> cache_versions option \<Rightarrow> bool" where
  "cacheVersionsMatch cached current =
     (case (cached, current) of
        (Some a, Some b) \<Rightarrow> cv_global a = cv_global b \<and> cv_user a = cv_user b
      | (None, None) \<Rightarrow> True
      | _ \<Rightarrow> False)"

definition bumpSharedPermissionCacheVersion ::
  "redis_client \<Rightarrow> version_store \<Rightarrow> id option \<Rightarrow> version_store" where
  "bumpSharedPermissionCacheVersion redis store userId =
     (if redis = RedisUp then
        (let key = (case str_or_none userId of
                      Some u \<Rightarrow> userPermissionVersionKey u
                    | None \<Rightarrow> PERMISSION_CACHE_GLOBAL_VERSION_KEY)
         in store(key \<mapsto> (case store key of None \<Rightarrow> 1 | Some n \<Rightarrow> Suc n)))
      else store)"

definition permissionCacheKey :: "id \<Rightarrow> perm_context \<Rightarrow> string" where
  "permissionCacheKey userId context =
     userId @ '':'' @ (case pc_partnerId context of None \<Rightarrow> [] | Some x \<Rightarrow> x)
       @ '':'' @ (case pc_orgId context of None \<Rightarrow> [] | Some x \<Rightarrow> x)"

text \<open>The three stages of \<open>getUserPermissions\<close>: cache check, resolution, cache write.\<close>

definition permissionCacheHit ::
  "perm_cache \<Rightarrow> string \<Rightarrow> int \<Rightarrow> cache_versions option \<Rightarrow> user_permissions option" where
  "permissionCacheHit cache key now versions =
     (case cache key of
        None \<Rightarrow> None
      | Some e \<Rightarrow>
          if ce_expiresAt e > now \<and> cacheVersionsMatch (ce_versions e) versions
          then Some (ce_userPerms e) else None)"

definition permissionCacheStore ::
  "perm_cache \<Rightarrow> string \<Rightarrow> int \<Rightarrow> cache_versions option \<Rightarrow> user_permissions \<Rightarrow> perm_cache" where
  "permissionCacheStore cache key now versions p =
     cache(key \<mapsto> \<lparr>ce_userPerms = p, ce_expiresAt = now + CACHE_TTL, ce_versions = versions\<rparr>)"

definition getUserPermissions ::
  "redis_client \<Rightarrow> version_store \<Rightarrow> int \<Rightarrow> database \<Rightarrow> perm_cache \<Rightarrow> id \<Rightarrow> perm_context
     \<Rightarrow> (user_permissions option \<times> perm_cache) dbm" where
  "getUserPermissions redis store now d cache userId context amb =
     (let key = permissionCacheKey userId context;
          versions = getPermissionCacheVersions redis store userId
      in case permissionCacheHit cache key now versions of
           Some p \<Rightarrow> (Some p, cache)
         | None \<Rightarrow>
             (case resolveUserPermissions d userId context amb of
                None \<Rightarrow> (None, cache)
              | Some p \<Rightarrow> (Some p, permissionCacheStore cache key now versions p)))"

definition clearLocalPermissionCache :: "perm_cache \<Rightarrow> id option \<Rightarrow> perm_cache" where
  "clearLocalPermissionCache cache userId =
     (case str_or_none userId of
        Some u \<Rightarrow> (\<lambda>k. if startsWith k (u @ '':'') then None else cache k)
      | None \<Rightarrow> Map.empty)"

definition clearPermissionCache ::
  "redis_client \<Rightarrow> version_store \<Rightarrow> perm_cache \<Rightarrow> id option \<Rightarrow> perm_cache \<times> version_store" where
  "clearPermissionCache redis store cache userId =
     (clearLocalPermissionCache cache userId,
      bumpSharedPermissionCacheVersion redis store userId)"

section \<open>Specification of the resolution\<close>

text \<open>
  What the code means to compute: the same look-ups on the whole tables, with no row-level
  security in the way. Organization membership takes precedence over partner membership.
\<close>

definition role_grants :: "database \<Rightarrow> id \<Rightarrow> permission list" where
  "role_grants d roleId =
     concat (map (\<lambda>rp. map (\<lambda>p. \<lparr>perm_resource = pe_resource p, perm_action = pe_action p\<rparr>)
                         (filter (\<lambda>p. pe_id p = rp_permissionId rp) (permissions_table d)))
       (filter (\<lambda>rp. rp_roleId rp = roleId) (role_permissions d)))"

definition org_membership :: "database \<Rightarrow> id \<Rightarrow> id \<Rightarrow> organization_user_row option" where
  "org_membership d userId orgId =
     find (\<lambda>u. ou_userId u = userId \<and> ou_orgId u = orgId) (organization_users d)"

definition partner_membership :: "database \<Rightarrow> id \<Rightarrow> id \<Rightarrow> partner_user_row option" where
  "partner_membership d userId partnerId =
     find (\<lambda>u. pu_userId u = userId \<and> pu_partnerId u = partnerId) (partner_users d)"

definition mk_user_perms ::
  "database \<Rightarrow> perm_context \<Rightarrow> id \<Rightarrow> db_scope \<Rightarrow> org_access option \<Rightarrow> id list option
     \<Rightarrow> id list option \<Rightarrow> user_permissions" where
  "mk_user_perms d context roleId scope orgAccess allowedOrgIds allowedSiteIds =
     \<lparr>up_permissions = role_grants d roleId,
      up_partnerId = str_or_none (pc_partnerId context),
      up_orgId = str_or_none (pc_orgId context),
      up_roleId = roleId, up_scope = scope, up_orgAccess = orgAccess,
      up_allowedOrgIds = allowedOrgIds, up_allowedSiteIds = allowedSiteIds\<rparr>"

definition org_spec :: "database \<Rightarrow> id \<Rightarrow> perm_context \<Rightarrow> id \<Rightarrow> user_permissions option" where
  "org_spec d userId context orgId =
     (case org_membership d userId orgId of
        None \<Rightarrow> None
      | Some u \<Rightarrow> if ou_roleId u = [] then None
                  else Some (mk_user_perms d context (ou_roleId u) OrgScope None None (ou_siteIds u)))"

definition partner_spec :: "database \<Rightarrow> id \<Rightarrow> perm_context \<Rightarrow> id \<Rightarrow> user_permissions option" where
  "partner_spec d userId context partnerId =
     (case partner_membership d userId partnerId of
        None \<Rightarrow> None
      | Some u \<Rightarrow> if pu_roleId u = [] then None
                  else Some (mk_user_perms d context (pu_roleId u) PartnerScope
                               (Some (pu_orgAccess u)) (pu_orgIds u) None))"

definition resolveSpec :: "database \<Rightarrow> id \<Rightarrow> perm_context \<Rightarrow> user_permissions option" where
  "resolveSpec d userId context =
     nullish (Option.bind (str_or_none (pc_orgId context)) (org_spec d userId context))
             (Option.bind (str_or_none (pc_partnerId context)) (partner_spec d userId context))"

text \<open>
  A membership's role belongs to the membership's own tenant or is a built-in template; this is
  what \<open>getScopedRole\<close> (services/roleAssignment.ts) accepts for an assignment, with the seed's
  convention that built-in roles carry neither an organization nor a partner.
\<close>

definition role_fits :: "database \<Rightarrow> id \<Rightarrow> (role_row \<Rightarrow> bool) \<Rightarrow> bool" where
  "role_fits d roleId own =
     list_ex (\<lambda>r. ro_id r = roleId
       \<and> (own r \<or> (ro_isSystem r \<and> ro_partnerId r = None \<and> ro_orgId r = None))) (roles d)"

definition wf_memberships :: "database \<Rightarrow> bool" where
  "wf_memberships d =
     (list_all (\<lambda>u. role_fits d (ou_roleId u) (\<lambda>r. ro_orgId r = Some (ou_orgId u)))
        (organization_users d)
      \<and> list_all (\<lambda>u. role_fits d (pu_roleId u) (\<lambda>r. ro_partnerId r = Some (pu_partnerId u)))
        (partner_users d))"

definition wf_ambient :: "db_access_context option \<Rightarrow> bool" where
  "wf_ambient amb = (case amb of None \<Rightarrow> True | Some c \<Rightarrow> wf_ctx c)"

section \<open>A sample tenant\<close>

text \<open>
  A small tenant on which the properties are evaluated: partner \<open>a\<close> with organization \<open>b\<close>; user
  \<open>1\<close> a member of the organization through its own role \<open>c\<close> (with a site allowlist), user \<open>2\<close> a
  partner member with the partner's role \<open>d\<close>, which inherits from the built-in role \<open>e\<close>.
\<close>

definition sample_id :: "char \<Rightarrow> id" where
  "sample_id c = replicate 8 c @ ''-'' @ replicate 4 c @ ''-'' @ replicate 4 c @ ''-''
     @ replicate 4 c @ ''-'' @ replicate 12 c"

definition sample_role :: "char \<Rightarrow> db_scope \<Rightarrow> bool \<Rightarrow> id option \<Rightarrow> id option \<Rightarrow> id option \<Rightarrow> role_row" where
  "sample_role c sc sys parent pid oid =
     \<lparr>ro_id = sample_id c, ro_scope = sc, ro_isSystem = sys, ro_parentRoleId = parent,
      ro_partnerId = pid, ro_orgId = oid, ro_forceMfa = False\<rparr>"

definition sample_db :: database where
  "sample_db =
     \<lparr>users = [\<lparr>us_id = sample_id CHR ''1'', us_partnerId = sample_id CHR ''a'',
                us_orgId = Some (sample_id CHR ''b''), us_status = UActive, us_isPlatformAdmin = False\<rparr>,
              \<lparr>us_id = sample_id CHR ''2'', us_partnerId = sample_id CHR ''a'', us_orgId = None,
                us_status = UActive, us_isPlatformAdmin = False\<rparr>],
      partners = [\<lparr>pa_id = sample_id CHR ''a'', pa_status = PActive, pa_deletedAt = None,
                   pa_settings = None\<rparr>],
      organizations = [\<lparr>og_id = sample_id CHR ''b'', og_partnerId = sample_id CHR ''a'',
                        og_status = OActive, og_deletedAt = None, og_settings = None\<rparr>],
      roles = [sample_role CHR ''c'' OrgScope False None None (Some (sample_id CHR ''b'')),
               sample_role CHR ''d'' PartnerScope False (Some (sample_id CHR ''e''))
                 (Some (sample_id CHR ''a'')) None,
               sample_role CHR ''e'' PartnerScope True None None None],
      permissions_table = [\<lparr>pe_id = ''p1'', pe_resource = ''devices'', pe_action = ''read''\<rparr>,
                           \<lparr>pe_id = ''p2'', pe_resource = ''alerts'', pe_action = ''*''\<rparr>],
      role_permissions = [\<lparr>rp_roleId = sample_id CHR ''c'', rp_permissionId = ''p1''\<rparr>,
                          \<lparr>rp_roleId = sample_id CHR ''d'', rp_permissionId = ''p1''\<rparr>,
                          \<lparr>rp_roleId = sample_id CHR ''e'', rp_permissionId = ''p2''\<rparr>],
      organization_users = [\<lparr>ou_userId = sample_id CHR ''1'', ou_orgId = sample_id CHR ''b'',
                             ou_roleId = sample_id CHR ''c'', ou_siteIds = Some [''site'']\<rparr>],
      partner_users = [\<lparr>pu_userId = sample_id CHR ''2'', pu_partnerId = sample_id CHR ''a'',
                        pu_roleId = sample_id CHR ''d'', pu_orgAccess = OrgAccessSelected,
                        pu_orgIds = Some [sample_id CHR ''b'']\<rparr>],
      ai_budgets = []\<rparr>"

definition sample_context :: perm_context where
  "sample_context = \<lparr>pc_partnerId = Some (sample_id CHR ''a''), pc_orgId = Some (sample_id CHR ''b'')\<rparr>"

text \<open>The context of an organization-scoped request, which is blind on the partner axis.\<close>

definition sample_org_ctx :: db_access_context where
  "sample_org_ctx =
     \<lparr>ctx_scope = OrgScope, ctx_orgId = Some (sample_id CHR ''b''),
      ctx_accessibleOrgIds = Some [sample_id CHR ''b''], ctx_accessiblePartnerIds = Some [],
      ctx_userId = None, ctx_currentPartnerId = None\<rparr>"

definition sample_partner_perms :: user_permissions where
  "sample_partner_perms =
     \<lparr>up_permissions = [\<lparr>perm_resource = ''devices'', perm_action = ''read''\<rparr>],
      up_partnerId = Some (sample_id CHR ''a''), up_orgId = Some (sample_id CHR ''b''),
      up_roleId = sample_id CHR ''d'', up_scope = PartnerScope,
      up_orgAccess = Some OrgAccessSelected, up_allowedOrgIds = Some [sample_id CHR ''b''],
      up_allowedSiteIds = None\<rparr>"

section \<open>Grant matching\<close>

lemma grant_wildcard_covers:
  assumes "permissionGrantMatches g (perm_resource p) (perm_action p)"
    and "permissionGrantMatches p r a"
  shows "permissionGrantMatches g r a"
  using assms by (auto simp: permissionGrantMatches_def)

lemma hasPermission_iff:
  "hasPermission u r a \<longleftrightarrow> (\<exists>p \<in> set (up_permissions u). permissionGrantMatches p r a)"
  by (auto simp: hasPermission_def list_ex_iff)

section \<open>One axis of row-level security\<close>

text \<open>
  The contract between the resolver and the database for one tenant axis: the select policy keeps
  the rows whose key is accessible, and \<open>canSee\<close> never overestimates the access of the ambient
  context. The client lemma is that a keyed look-up run through \<open>runForAxis\<close> returns what the
  whole table holds.
\<close>

locale rls_axis =
  fixes axis :: axis
    and access :: "gucs \<Rightarrow> id option \<Rightarrow> bool"
    and select :: "gucs \<Rightarrow> database \<Rightarrow> 'row list"
    and rows :: "database \<Rightarrow> 'row list"
    and key :: "'row \<Rightarrow> id"
  assumes select_policy: "select g d = filter (\<lambda>r. access g (Some (key r))) (rows d)"
    and can_see_sound:
      "wf_ambient amb \<Longrightarrow> canSee axis i amb \<Longrightarrow> access (current_gucs amb) (Some i)"
begin

lemma find_visible:
  assumes "wf_ambient amb" and "canSee axis i amb"
  shows "find (\<lambda>r. P r \<and> key r = i) (select (current_gucs amb) d)
           = find (\<lambda>r. P r \<and> key r = i) (rows d)"
  unfolding select_policy find_filter
  by (rule find_cong_set) (use can_see_sound [OF assms] in auto)

lemma run_for_axis:
  assumes "wf_ambient amb"
    and "\<And>amb'. wf_ambient amb' \<Longrightarrow> canSee axis i amb' \<Longrightarrow> fn amb' = v"
  shows "runForAxis (canSee axis i amb) fn amb = v"
proof (cases "canSee axis i amb")
  case True
  with assms show ?thesis by (simp add: runForAxis_def)
next
  case False
  have "fn (Some SYSTEM_DB_ACCESS_CONTEXT) = v"
    by (rule assms(2)) (simp_all add: wf_ambient_def wf_ctx_def canSee_def SYSTEM_DB_ACCESS_CONTEXT_def)
  with False show ?thesis by (simp add: runForAxis_def)
qed

end

lemma canSee_iff_org_access:
  "wf_ambient amb \<Longrightarrow> canSee OrgAxis i amb = breeze_has_org_access (current_gucs amb) (Some i)"
  by (cases amb) (auto simp: canSee_def wf_ambient_def org_access_iff split: if_splits option.splits)

lemma canSee_iff_partner_access:
  "wf_ambient amb \<Longrightarrow> canSee PartnerAxis i amb = breeze_has_partner_access (current_gucs amb) (Some i)"
  by (cases amb) (auto simp: canSee_def wf_ambient_def partner_access_iff split: if_splits option.splits)

interpretation org_axis: rls_axis OrgAxis breeze_has_org_access select_organization_users
  organization_users ou_orgId
  by unfold_locales (simp_all add: select_organization_users_def canSee_iff_org_access)

interpretation partner_axis: rls_axis PartnerAxis breeze_has_partner_access select_partner_users
  partner_users pu_partnerId
  by unfold_locales (simp_all add: select_partner_users_def canSee_iff_partner_access)

section \<open>The resolution does not depend on the ambient context\<close>

lemma canSee_scope: "canSee ax i amb \<Longrightarrow> breeze_current_scope (current_gucs amb) \<noteq> ''none''"
  by (cases amb) (auto simp: canSee_def)

lemma role_perm_rows_visible:
  assumes "r \<in> set (roles d)" and "ro_id r = roleId" and "role_visible (current_gucs amb) r"
  shows "role_perm_rows d roleId amb = role_grants d roleId"
proof -
  have "list_ex (\<lambda>r. ro_id r = roleId \<and> role_visible (current_gucs amb) r)
          (select_roles (current_gucs amb) d)"
    using assms by (auto simp: list_ex_iff select_roles_def)
  then have "filter (\<lambda>rp. rp_roleId rp = roleId) (select_role_permissions (current_gucs amb) d)
               = filter (\<lambda>rp. rp_roleId rp = roleId) (role_permissions d)"
    by (auto simp: select_role_permissions_def intro!: filter_cong)
  then show ?thesis by (simp add: role_perm_rows_def role_grants_def)
qed

lemma role_fits_org:
  assumes "role_fits d roleId (\<lambda>r. ro_orgId r = Some i)"
    and "wf_ambient amb" and "canSee OrgAxis i amb"
  shows "role_perm_rows d roleId amb = role_grants d roleId"
proof -
  from assms(1) obtain r where r: "r \<in> set (roles d)" "ro_id r = roleId"
    "ro_orgId r = Some i \<or> (ro_isSystem r \<and> ro_partnerId r = None \<and> ro_orgId r = None)"
    by (auto simp: role_fits_def list_ex_iff)
  from r(3) have "role_visible (current_gucs amb) r"
    using org_axis.can_see_sound [OF assms(2,3)] canSee_scope [OF assms(3)]
    by (auto simp: role_visible_def)
  with r(1,2) show ?thesis by (rule role_perm_rows_visible)
qed

lemma role_fits_partner:
  assumes "role_fits d roleId (\<lambda>r. ro_partnerId r = Some i)"
    and "wf_ambient amb" and "canSee PartnerAxis i amb"
  shows "role_perm_rows d roleId amb = role_grants d roleId"
proof -
  from assms(1) obtain r where r: "r \<in> set (roles d)" "ro_id r = roleId"
    "ro_partnerId r = Some i \<or> (ro_isSystem r \<and> ro_partnerId r = None \<and> ro_orgId r = None)"
    by (auto simp: role_fits_def list_ex_iff)
  from r(3) have "role_visible (current_gucs amb) r"
    using partner_axis.can_see_sound [OF assms(2,3)] canSee_scope [OF assms(3)]
    by (auto simp: role_visible_def)
  with r(1,2) show ?thesis by (rule role_perm_rows_visible)
qed

lemma buildPerms_eq:
  "role_perm_rows d roleId amb = role_grants d roleId
     \<Longrightarrow> buildPerms d context roleId sc oa ao asi amb = mk_user_perms d context roleId sc oa ao asi"
  by (simp add: buildPerms_def mk_user_perms_def)

lemma resolveOrgAxis_spec:
  assumes "wf_memberships d" and "wf_ambient amb" and "canSee OrgAxis i amb"
  shows "resolveOrgAxis d userId context i amb = org_spec d userId context i"
proof -
  have eq: "find (\<lambda>u. ou_userId u = userId \<and> ou_orgId u = i)
              (select_organization_users (current_gucs amb) d) = org_membership d userId i"
    unfolding org_membership_def by (rule org_axis.find_visible [OF assms(2,3)])
  have "role_perm_rows d (ou_roleId u) amb = role_grants d (ou_roleId u)"
    if "org_membership d userId i = Some u" for u
  proof -
    from that have "u \<in> set (organization_users d)" "ou_orgId u = i"
      by (auto simp: org_membership_def dest: find_SomeD)
    with assms(1) have "role_fits d (ou_roleId u) (\<lambda>r. ro_orgId r = Some i)"
      by (auto simp: wf_memberships_def list_all_iff)
    then show ?thesis by (rule role_fits_org [OF _ assms(2,3)])
  qed
  then show ?thesis
    by (auto simp: resolveOrgAxis_def org_spec_def eq buildPerms_eq split: option.splits)
qed

lemma resolvePartnerAxis_spec:
  assumes "wf_memberships d" and "wf_ambient amb" and "canSee PartnerAxis i amb"
  shows "resolvePartnerAxis d userId context i amb = partner_spec d userId context i"
proof -
  have eq: "find (\<lambda>u. pu_userId u = userId \<and> pu_partnerId u = i)
              (select_partner_users (current_gucs amb) d) = partner_membership d userId i"
    unfolding partner_membership_def by (rule partner_axis.find_visible [OF assms(2,3)])
  have "role_perm_rows d (pu_roleId u) amb = role_grants d (pu_roleId u)"
    if "partner_membership d userId i = Some u" for u
  proof -
    from that have "u \<in> set (partner_users d)" "pu_partnerId u = i"
      by (auto simp: partner_membership_def dest: find_SomeD)
    with assms(1) have "role_fits d (pu_roleId u) (\<lambda>r. ro_partnerId r = Some i)"
      by (auto simp: wf_memberships_def list_all_iff)
    then show ?thesis by (rule role_fits_partner [OF _ assms(2,3)])
  qed
  then show ?thesis
    by (auto simp: resolvePartnerAxis_def partner_spec_def eq buildPerms_eq split: option.splits)
qed

lemma resolve_refines_spec:
  assumes "wf_memberships d" and "wf_ambient amb"
  shows "resolveUserPermissions d userId context amb = resolveSpec d userId context"
proof -
  have org: "runForAxis (canSee OrgAxis i amb) (resolveOrgAxis d userId context i) amb
               = org_spec d userId context i" for i
    by (rule org_axis.run_for_axis [OF assms(2)]) (rule resolveOrgAxis_spec [OF assms(1)])
  have par: "runForAxis (canSee PartnerAxis i amb) (resolvePartnerAxis d userId context i) amb
               = partner_spec d userId context i" for i
    by (rule partner_axis.run_for_axis [OF assms(2)]) (rule resolvePartnerAxis_spec [OF assms(1)])
  show ?thesis
    by (cases "str_or_none (pc_orgId context)"; cases "str_or_none (pc_partnerId context)")
       (simp_all add: resolveUserPermissions_def resolveSpec_def Let_def org par nullish_def
          split: option.split)
qed

lemma sample_facts:
  "wf_memberships sample_db" "wf_ambient (Some sample_org_ctx)"
  "resolveSpec sample_db (sample_id CHR ''2'') sample_context = Some sample_partner_perms"
  "uuid_text (sample_id CHR ''2'')" "uuid_text (sample_id CHR ''a'')" "uuid_text (sample_id CHR ''b'')"
  by code_simp+

section \<open>Properties\<close>

text \<open>C33: The permissions a user is resolved to do not depend on the database context the request
  runs in. Whatever the ambient context can see (nothing, a tenant's allowlist, everything), the
  resolution returns what the unrestricted tables say: the role of the organization membership,
  else that of the partner membership, else none.\<close>

theorem resolution_ambient_independent:
  assumes "wf_memberships d" and "wf_ambient amb"
  shows "resolveUserPermissions d userId context amb = resolveSpec d userId context"
  using assms by (rule resolve_refines_spec)

theorem resolution_ambient_independent_witness:
  "resolveUserPermissions sample_db (sample_id CHR ''2'') sample_context (Some sample_org_ctx)
     = Some sample_partner_perms"
  using resolution_ambient_independent [OF sample_facts(1,2), of "sample_id CHR ''2''" sample_context]
  by (simp only: sample_facts(3))

text \<open>The resolver's \<open>canSee\<close> predicts row-level security exactly. Serializing a context's
  allowlists into the session settings and reading them back in the policy helpers admits a tenant
  id precisely when the context lists it (or is the system context), on both axes; without a
  context nothing is admitted.\<close>

theorem canSee_mirrors_rls:
  assumes "wf_ambient amb"
  shows "canSee OrgAxis i amb = breeze_has_org_access (current_gucs amb) (Some i)
         \<and> canSee PartnerAxis i amb = breeze_has_partner_access (current_gucs amb) (Some i)"
  using assms by (simp add: canSee_iff_org_access canSee_iff_partner_access)

theorem canSee_mirrors_rls_witness:
  "breeze_has_org_access (current_gucs (Some sample_org_ctx)) (Some (sample_id CHR ''b''))
   \<and> \<not> breeze_has_partner_access (current_gucs (Some sample_org_ctx)) (Some (sample_id CHR ''a''))"
proof -
  have "canSee OrgAxis (sample_id CHR ''b'') (Some sample_org_ctx)"
    "\<not> canSee PartnerAxis (sample_id CHR ''a'') (Some sample_org_ctx)" by code_simp+
  with canSee_mirrors_rls [OF sample_facts(2)] show ?thesis by blast
qed

text \<open>Organization access of resolved permissions fails closed. A user resolved through an
  organization membership reaches that organization only; one resolved through a partner membership
  reaches exactly the organizations the membership row admits. The open fall-through of
  \<open>canAccessOrg\<close> is never taken by a resolved permission set.\<close>

theorem resolved_org_access:
  assumes "wf_memberships d" and "wf_ambient amb"
    and "resolveUserPermissions d userId context amb = Some p" and "canAccessOrg p i"
  shows "(pc_orgId context = Some i \<and> org_membership d userId i \<noteq> None)
         \<or> (\<exists>pid m. pc_partnerId context = Some pid \<and> partner_membership d userId pid = Some m
              \<and> (pu_orgAccess m = OrgAccessAll
                  \<or> pu_orgAccess m = OrgAccessSelected \<and> (\<exists>ids. pu_orgIds m = Some ids \<and> i \<in> set ids)))"
  using assms(3,4) unfolding resolve_refines_spec [OF assms(1,2)]
  by (auto simp: resolveSpec_def nullish_def org_spec_def partner_spec_def mk_user_perms_def
      canAccessOrg_def str_or_none_Some bind_eq_Some_conv
      split: option.splits if_splits org_access.splits)

theorem resolved_org_access_witness:
  "\<exists>pid m. pc_partnerId sample_context = Some pid
     \<and> partner_membership sample_db (sample_id CHR ''2'') pid = Some m
     \<and> pu_orgIds m = Some [sample_id CHR ''b'']"
proof -
  have "resolveUserPermissions sample_db (sample_id CHR ''2'') sample_context (Some sample_org_ctx)
          = Some sample_partner_perms" by code_simp
  moreover have "canAccessOrg sample_partner_perms (sample_id CHR ''b'')" by code_simp
  moreover have "org_membership sample_db (sample_id CHR ''2'') (sample_id CHR ''b'') = None"
    by code_simp
  ultimately obtain pid m where "pc_partnerId sample_context = Some pid"
      "partner_membership sample_db (sample_id CHR ''2'') pid = Some m"
    using resolved_org_access [OF sample_facts(1,2)] by blast
  moreover have "partner_membership sample_db (sample_id CHR ''2'') pid = Some m
      \<Longrightarrow> pu_orgIds m = Some [sample_id CHR ''b'']"
    by (auto simp: partner_membership_def sample_db_def split: if_splits)
  ultimately show ?thesis by blast
qed

end
