(* ===== verification/Permission_Cache.thy ===== *)
theory Permission_Cache
  imports Permissions
begin

text \<open>
  The permission cache of services/permissions.ts across API processes. Each process has its own
  map; the version counters in Redis are shared. A call of \<open>getUserPermissions\<close> suspends at each
  \<open>await\<close>: after it asked Redis for the counters (the map is consulted when the answer is back),
  while the database resolves a miss, and before it writes the map. \<open>clearPermissionCache\<close> clears
  the map of its own process and then, after another suspension, increments the shared counter.
  Between those points other requests of the same or another process run, so the calls in flight
  are part of the state and every interleaving of the stages is a run of the step relation. Every
  read of the counters and every increment may find Redis absent or failing: such a request goes on
  without counters, and such an increment is lost. The tables may change at any time. A resolution
  reads one snapshot.
\<close>

section \<open>State and steps\<close>

record in_flight =
  if_process :: nat
  if_userId :: id
  if_context :: perm_context
  if_versions :: "cache_versions option"
  if_missed :: bool
  if_result :: "user_permissions option option"

record perm_world =
  pw_db :: database
  pw_versions :: version_store
  pw_now :: int
  pw_caches :: "nat \<Rightarrow> perm_cache"
  pw_flights :: "in_flight list"

definition init_world :: "database \<Rightarrow> perm_world" where
  "init_world d = \<lparr>pw_db = d, pw_versions = Map.empty, pw_now = 0, pw_caches = (\<lambda>_. Map.empty),
                   pw_flights = []\<rparr>"

text \<open>The ids a request carries: canonical UUIDs, or an absent partner or organization.\<close>

definition wf_request :: "id \<Rightarrow> perm_context \<Rightarrow> bool" where
  "wf_request userId context =
     (uuid_text userId
      \<and> (case pc_partnerId context of None \<Rightarrow> True | Some x \<Rightarrow> uuid_text x)
      \<and> (case pc_orgId context of None \<Rightarrow> True | Some x \<Rightarrow> uuid_text x))"

definition cur_versions :: "perm_world \<Rightarrow> id \<Rightarrow> cache_versions option" where
  "cur_versions w userId = getPermissionCacheVersions RedisUp (pw_versions w) userId"

text \<open>What a request of process \<open>p\<close> that was told the counters \<open>v\<close> finds in the map of \<open>p\<close>.\<close>

definition world_hit ::
  "perm_world \<Rightarrow> nat \<Rightarrow> id \<Rightarrow> perm_context \<Rightarrow> cache_versions option \<Rightarrow> user_permissions option" where
  "world_hit w p userId context v =
     permissionCacheHit (pw_caches w p) (permissionCacheKey userId context) (pw_now w) v"

text \<open>The two stages of \<open>clearPermissionCache\<close>: the map of its process, then the shared counter.\<close>

definition clear_local :: "perm_world \<Rightarrow> nat \<Rightarrow> id option \<Rightarrow> perm_world" where
  "clear_local w p target =
     w\<lparr>pw_caches := (pw_caches w)(p := clearLocalPermissionCache (pw_caches w p) target)\<rparr>"

definition bump_shared :: "perm_world \<Rightarrow> id option \<Rightarrow> perm_world" where
  "bump_shared w target =
     w\<lparr>pw_versions := bumpSharedPermissionCacheVersion RedisUp (pw_versions w) target\<rparr>"

inductive world_step :: "perm_world \<Rightarrow> perm_world \<Rightarrow> bool" where
  read_versions:
    "wf_request u c \<Longrightarrow>
     world_step w (w\<lparr>pw_flights := \<lparr>if_process = p, if_userId = u, if_context = c,
        if_versions = getPermissionCacheVersions redis (pw_versions w) u, if_missed = False, if_result = None\<rparr> # pw_flights w\<rparr>)"
| cache_hit:
    "pw_flights w = xs @ f # ys \<Longrightarrow> \<not> if_missed f \<Longrightarrow>
     world_hit w (if_process f) (if_userId f) (if_context f) (if_versions f) \<noteq> None \<Longrightarrow>
     world_step w (w\<lparr>pw_flights := xs @ ys\<rparr>)"
| cache_miss:
    "pw_flights w = xs @ f # ys \<Longrightarrow> \<not> if_missed f \<Longrightarrow>
     world_hit w (if_process f) (if_userId f) (if_context f) (if_versions f) = None \<Longrightarrow>
     world_step w (w\<lparr>pw_flights := xs @ f\<lparr>if_missed := True\<rparr> # ys\<rparr>)"
| read_database:
    "pw_flights w = xs @ f # ys \<Longrightarrow> if_missed f \<Longrightarrow> if_result f = None \<Longrightarrow> wf_ambient amb \<Longrightarrow>
     world_step w (w\<lparr>pw_flights := xs @ f\<lparr>if_result :=
        Some (resolveUserPermissions (pw_db w) (if_userId f) (if_context f) amb)\<rparr> # ys\<rparr>)"
| write_cache:
    "pw_flights w = xs @ f # ys \<Longrightarrow> if_result f = Some (Some perms) \<Longrightarrow>
     world_step w (w\<lparr>pw_flights := xs @ ys,
       pw_caches := (pw_caches w)(if_process f :=
         permissionCacheStore (pw_caches w (if_process f))
           (permissionCacheKey (if_userId f) (if_context f)) (pw_now w) (if_versions f) perms)\<rparr>)"
| no_permissions:
    "pw_flights w = xs @ f # ys \<Longrightarrow> if_result f = Some None \<Longrightarrow>
     world_step w (w\<lparr>pw_flights := xs @ ys\<rparr>)"
| clear: "world_step w (clear_local w p target)"
| bump: "world_step w (bump_shared w target)"
| bump_lost:
    "redis \<noteq> RedisUp \<Longrightarrow>
     world_step w (w\<lparr>pw_versions := bumpSharedPermissionCacheVersion redis (pw_versions w) target\<rparr>)"
| clock: "t \<ge> 0 \<Longrightarrow> world_step w (w\<lparr>pw_now := pw_now w + t\<rparr>)"

inductive_cases world_stepE: "world_step w w'"

text \<open>A change of the membership and role tables, by any request of any process.\<close>

inductive db_change :: "perm_world \<Rightarrow> perm_world \<Rightarrow> bool" where
  db_change: "wf_memberships d \<Longrightarrow> db_change w (w\<lparr>pw_db := d\<rparr>)"

inductive reachable_world :: "perm_world \<Rightarrow> bool" where
  start: "wf_memberships d \<Longrightarrow> reachable_world (init_world d)"
| step: "reachable_world w \<Longrightarrow> world_step w w' \<Longrightarrow> reachable_world w'"
| change: "reachable_world w \<Longrightarrow> db_change w w' \<Longrightarrow> reachable_world w'"

text \<open>A run with all the states of the tables it saw, the first one included.\<close>

inductive world_run :: "perm_world \<Rightarrow> database set \<Rightarrow> perm_world \<Rightarrow> bool" where
  here: "world_run w {pw_db w} w"
| step: "world_run w D w1 \<Longrightarrow> world_step w1 w2 \<Longrightarrow> world_run w D w2"
| change: "world_run w D w1 \<Longrightarrow> db_change w1 w2 \<Longrightarrow> world_run w (insert (pw_db w2) D) w2"

section \<open>Invariant and freshness\<close>

definition versions_le :: "cache_versions option \<Rightarrow> cache_versions option \<Rightarrow> bool" where
  "versions_le a b =
     (case (a, b) of
        (Some x, Some y) \<Rightarrow> cv_global x \<le> cv_global y \<and> cv_user x \<le> cv_user y
      | _ \<Rightarrow> False)"

text \<open>
  A predicate on the stored and pending resolutions of a state: \<open>E u c v p\<close> of every entry (user,
  context, counters, permissions) and \<open>F f\<close> of every call in flight. Both invariants below have
  this shape.
\<close>

definition all_entries ::
  "(id \<Rightarrow> perm_context \<Rightarrow> cache_versions option \<Rightarrow> user_permissions \<Rightarrow> bool) \<Rightarrow> perm_world \<Rightarrow> bool" where
  "all_entries E w =
     (\<forall>p u c e. wf_request u c \<longrightarrow> pw_caches w p (permissionCacheKey u c) = Some e
        \<longrightarrow> E u c (ce_versions e) (ce_userPerms e))"

text \<open>No entry and no call in flight carries counters ahead of the shared ones; it may carry none.\<close>

definition versions_within :: "cache_versions option \<Rightarrow> cache_versions option \<Rightarrow> bool" where
  "versions_within a b = (a = None \<or> versions_le a b)"

definition versions_bounded :: "perm_world \<Rightarrow> bool" where
  "versions_bounded w =
     (wf_memberships (pw_db w)
      \<and> all_entries (\<lambda>u c v p. versions_within v (cur_versions w u)) w
      \<and> (\<forall>f \<in> set (pw_flights w). wf_request (if_userId f) (if_context f)
           \<and> versions_within (if_versions f) (cur_versions w (if_userId f))))"

text \<open>
  Every entry of user \<open>u\<close> with counters from \<open>b\<close> on, and every pending answer that will be stored
  under such counters, is the resolution of one of the tables \<open>D\<close>.
\<close>

definition fresh_from :: "cache_versions option \<Rightarrow> id \<Rightarrow> database set \<Rightarrow> perm_world \<Rightarrow> bool" where
  "fresh_from b u D w =
     (all_entries (\<lambda>u' c v p. u' = u \<longrightarrow> versions_le b v \<longrightarrow> (\<exists>d\<in>D. Some p = resolveSpec d u c)) w
      \<and> (\<forall>f \<in> set (pw_flights w). if_userId f = u \<longrightarrow> versions_le b (if_versions f)
           \<longrightarrow> (\<forall>r. if_result f = Some r \<longrightarrow> (\<exists>d\<in>D. r = resolveSpec d u (if_context f)))))"

text \<open>A string or its absence, as the cache key spells it.\<close>

definition opt_str :: "string option \<Rightarrow> string" where
  "opt_str x = (case x of None \<Rightarrow> [] | Some y \<Rightarrow> y)"

text \<open>
  A run after an invalidation: a request of process 0 misses, resolves and fills the map.
\<close>

definition sample_flight :: in_flight where
  "sample_flight = \<lparr>if_process = 0, if_userId = sample_id CHR ''2'', if_context = sample_context,
     if_versions = Some \<lparr>cv_global = 1, cv_user = 0\<rparr>, if_missed = False, if_result = None\<rparr>"

definition sample_resolved :: perm_world where
  "sample_resolved = (bump_shared (init_world sample_db) None)
     \<lparr>pw_flights := [sample_flight\<lparr>if_missed := True, if_result := Some (Some sample_partner_perms)\<rparr>]\<rparr>"

definition sample_filled :: perm_world where
  "sample_filled = sample_resolved\<lparr>pw_flights := [], pw_caches := (pw_caches sample_resolved)(0 :=
     permissionCacheStore (pw_caches sample_resolved 0)
       (permissionCacheKey (sample_id CHR ''2'') sample_context) (pw_now sample_resolved)
       (Some \<lparr>cv_global = 1, cv_user = 0\<rparr>) sample_partner_perms)\<rparr>"

section \<open>Lemmas\<close>

lemma uuid_text_no_colon: "uuid_text s \<Longrightarrow> CHR '':'' \<notin> set s"
  using uuid_text_chars by force

lemma opt_str_no_colon:
  assumes "wf_request u c"
  shows "CHR '':'' \<notin> set u" and "CHR '':'' \<notin> set (opt_str (pc_partnerId c))"
  using assms by (auto simp: wf_request_def opt_str_def split: option.splits dest: uuid_text_no_colon)

lemma opt_str_uuid_inject:
  assumes "opt_str a = opt_str b"
    and "case a of None \<Rightarrow> True | Some x \<Rightarrow> uuid_text x"
    and "case b of None \<Rightarrow> True | Some x \<Rightarrow> uuid_text x"
  shows "a = b"
  using assms by (cases a; cases b) (auto simp: opt_str_def dest: uuid_text_nonempty)

lemma permissionCacheKey_opt_str:
  "permissionCacheKey u c = u @ CHR '':'' # (opt_str (pc_partnerId c) @ CHR '':'' # opt_str (pc_orgId c))"
  by (simp add: permissionCacheKey_def opt_str_def)

lemma permissionCacheKey_inject:
  assumes "wf_request u c" and "wf_request u' c'"
    and "permissionCacheKey u c = permissionCacheKey u' c'"
  shows "u = u' \<and> c = c'"
proof -
  note nc = opt_str_no_colon [OF assms(1)] opt_str_no_colon [OF assms(2)]
  from assms(3) have "u = u' \<and> opt_str (pc_partnerId c) @ CHR '':'' # opt_str (pc_orgId c)
      = opt_str (pc_partnerId c') @ CHR '':'' # opt_str (pc_orgId c')"
    unfolding permissionCacheKey_opt_str append_sep_inject [OF nc(1) nc(3)] .
  then have eqs: "u = u'" "opt_str (pc_partnerId c) = opt_str (pc_partnerId c')"
      "opt_str (pc_orgId c) = opt_str (pc_orgId c')"
    unfolding append_sep_inject [OF nc(2) nc(4)] by blast+
  from assms(1,2) have "pc_partnerId c = pc_partnerId c'" "pc_orgId c = pc_orgId c'"
    unfolding wf_request_def by (blast intro: opt_str_uuid_inject eqs)+
  with eqs(1) show ?thesis by simp
qed

lemma version_keys_distinct [simp]:
  "userPermissionVersionKey u \<noteq> PERMISSION_CACHE_GLOBAL_VERSION_KEY"
  "PERMISSION_CACHE_GLOBAL_VERSION_KEY \<noteq> userPermissionVersionKey u"
  by (simp_all add: userPermissionVersionKey_def PERMISSION_CACHE_GLOBAL_VERSION_KEY_def)

lemma user_version_key_inject [simp]:
  "userPermissionVersionKey u = userPermissionVersionKey v \<longleftrightarrow> u = v"
  by (simp add: userPermissionVersionKey_def)

lemma versions_after_bump:
  "getPermissionCacheVersions RedisUp (bumpSharedPermissionCacheVersion RedisUp store t) u =
     (let v = the (getPermissionCacheVersions RedisUp store u)
      in Some \<lparr>cv_global = (if str_or_none t = None then Suc (cv_global v) else cv_global v),
               cv_user = (if str_or_none t = Some u then Suc (cv_user v) else cv_user v)\<rparr>)"
proof (cases "str_or_none t")
  case None
  then show ?thesis
    by (cases "store PERMISSION_CACHE_GLOBAL_VERSION_KEY")
       (simp_all add: getPermissionCacheVersions_def bumpSharedPermissionCacheVersion_def)
next
  case (Some v)
  then show ?thesis
    by (cases "v = u"; cases "store (userPermissionVersionKey u)")
       (simp_all add: getPermissionCacheVersions_def bumpSharedPermissionCacheVersion_def Let_def)
qed

lemma cur_versions_Some: "\<exists>v. cur_versions w u = Some v"
  by (simp add: cur_versions_def getPermissionCacheVersions_def)


lemma cur_versions_bump:
  "cur_versions (bump_shared w t) u =
     (let v = the (cur_versions w u)
      in Some \<lparr>cv_global = (if str_or_none t = None then Suc (cv_global v) else cv_global v),
               cv_user = (if str_or_none t = Some u then Suc (cv_user v) else cv_user v)\<rparr>)"
  by (simp add: cur_versions_def bump_shared_def versions_after_bump)

lemma cur_versions_update [simp]:
  "cur_versions (w\<lparr>pw_flights := fl\<rparr>) u = cur_versions w u"
  "cur_versions (w\<lparr>pw_caches := cs\<rparr>) u = cur_versions w u"
  "cur_versions (w\<lparr>pw_now := n\<rparr>) u = cur_versions w u"
  "cur_versions (w\<lparr>pw_db := d\<rparr>) u = cur_versions w u"
  "cur_versions (clear_local w p t) u = cur_versions w u"
  by (simp_all add: cur_versions_def clear_local_def)

lemma versions_le_cur [simp]: "versions_le (cur_versions w u) (cur_versions w u)"
  using cur_versions_Some [of w u] by (auto simp: versions_le_def)

lemma versions_le_trans: "versions_le a b \<Longrightarrow> versions_le b c \<Longrightarrow> versions_le a c"
  by (auto simp: versions_le_def split: option.splits)

lemma versions_le_match: "versions_le a b \<Longrightarrow> cacheVersionsMatch c b \<Longrightarrow> versions_le a c"
  by (auto simp: versions_le_def cacheVersionsMatch_def split: option.splits)

lemma versions_within_trans: "versions_within a b \<Longrightarrow> versions_le b c \<Longrightarrow> versions_within a c"
  by (auto simp: versions_within_def intro: versions_le_trans)

lemma told_versions: "getPermissionCacheVersions redis (pw_versions w) u = (if redis = RedisUp then cur_versions w u else None)"
  by (simp add: cur_versions_def getPermissionCacheVersions_def)

lemma told_versions_within [simp]: "versions_within (getPermissionCacheVersions redis (pw_versions w) u) (cur_versions w u)"
  by (simp add: told_versions versions_within_def)

lemma lost_bump [simp]: "redis \<noteq> RedisUp \<Longrightarrow> bumpSharedPermissionCacheVersion redis store target = store"
  by (simp add: bumpSharedPermissionCacheVersion_def)

lemma cur_versions_bump_mono: "versions_le (cur_versions w u) (cur_versions (bump_shared w t) u)"
  using cur_versions_Some [of w u] by (auto simp: cur_versions_bump versions_le_def Let_def)

lemma bump_outdates:
  assumes "versions_within v (cur_versions w u)" and "str_or_none t = None \<or> str_or_none t = Some u"
  shows "\<not> versions_le (cur_versions (bump_shared w t) u) v"
  using assms cur_versions_Some [of w u]
  by (auto simp: cur_versions_bump versions_within_def versions_le_def Let_def split: option.splits)

lemma clear_local_cache:
  "pw_caches (clear_local w p t) q k = Some e \<Longrightarrow> pw_caches w q k = Some e"
  by (auto simp: clear_local_def clearLocalPermissionCache_def split: option.splits if_splits)

lemma clear_local_frame [simp]:
  "pw_flights (clear_local w p t) = pw_flights w" "pw_db (clear_local w p t) = pw_db w"
  by (simp_all add: clear_local_def)

lemma bump_shared_frame [simp]:
  "pw_flights (bump_shared w t) = pw_flights w" "pw_db (bump_shared w t) = pw_db w"
  "pw_caches (bump_shared w t) = pw_caches w"
  by (simp_all add: bump_shared_def)


text \<open>What the entries of the maps keep under the steps that touch them.\<close>

lemma all_entries_mono:
  "all_entries E w \<Longrightarrow> (\<And>u c v p. E u c v p \<Longrightarrow> E' u c v p) \<Longrightarrow> all_entries E' w"
  unfolding all_entries_def by blast

lemma all_entries_same [simp]:
  "all_entries E (w\<lparr>pw_flights := fl\<rparr>) = all_entries E w"
  "all_entries E (w\<lparr>pw_now := n\<rparr>) = all_entries E w"
  "all_entries E (w\<lparr>pw_db := d\<rparr>) = all_entries E w"
  "all_entries E (bump_shared w t) = all_entries E w"
  by (simp_all add: all_entries_def)

lemma all_entries_clear_local: "all_entries E w \<Longrightarrow> all_entries E (clear_local w p t)"
  unfolding all_entries_def by (blast dest: clear_local_cache)

lemma all_entries_store:
  assumes "all_entries E w" and "wf_request u c" and "E u c v perms"
  shows "all_entries E (w\<lparr>pw_flights := fl, pw_caches := (pw_caches w)(p :=
           permissionCacheStore (pw_caches w p) (permissionCacheKey u c) n v perms)\<rparr>)"
  unfolding all_entries_def
proof (intro allI impI)
  fix q u' c' e
  assume wf: "wf_request u' c'"
    and e: "pw_caches (w\<lparr>pw_flights := fl, pw_caches := (pw_caches w)(p :=
           permissionCacheStore (pw_caches w p) (permissionCacheKey u c) n v perms)\<rparr>) q
           (permissionCacheKey u' c') = Some e"
  show "E u' c' (ce_versions e) (ce_userPerms e)"
  proof (cases "q = p \<and> permissionCacheKey u' c' = permissionCacheKey u c")
    case True
    with wf assms(2) have "u' = u \<and> c' = c" by (blast dest: permissionCacheKey_inject)
    with True e assms(3) show ?thesis by (auto simp: permissionCacheStore_def)
  next
    case False
    with e have "pw_caches w q (permissionCacheKey u' c') = Some e"
      by (auto simp: permissionCacheStore_def split: if_splits)
    with assms(1) wf show ?thesis by (simp add: all_entries_def)
  qed
qed

lemma world_step_db: "world_step w w' \<Longrightarrow> pw_db w' = pw_db w"
  by (cases rule: world_step.cases) auto

lemma versions_bounded_bump: "versions_bounded w \<Longrightarrow> versions_bounded (bump_shared w t)"
  by (auto simp: versions_bounded_def elim!: all_entries_mono
      intro: versions_within_trans cur_versions_bump_mono)

lemma versions_bounded_step: "world_step w w' \<Longrightarrow> versions_bounded w \<Longrightarrow> versions_bounded w'"
proof (induction rule: world_step.induct)
  case (write_cache w xs f ys perms)
  then have f: "wf_request (if_userId f) (if_context f)"
    "versions_within (if_versions f) (cur_versions w (if_userId f))"
    by (auto simp: versions_bounded_def)
  from write_cache show ?case
    unfolding versions_bounded_def
    by (auto intro!: all_entries_store [OF _ f(1)] simp: f(2))
next
  case (bump w target)
  then show ?case by (rule versions_bounded_bump)
qed (auto simp: versions_bounded_def all_entries_clear_local)

lemma versions_bounded_change: "db_change w w' \<Longrightarrow> versions_bounded w \<Longrightarrow> versions_bounded w'"
  by (auto elim!: db_change.cases simp: versions_bounded_def)

lemma reachable_bounded: "reachable_world w \<Longrightarrow> versions_bounded w"
proof (induction rule: reachable_world.induct)
  case (start d)
  then show ?case by (simp add: versions_bounded_def all_entries_def init_world_def)
next
  case (step w w')
  then show ?case by (blast intro: versions_bounded_step)
next
  case (change w w')
  then show ?case by (blast intro: versions_bounded_change)
qed

lemma versions_mono_step: "world_step w w' \<Longrightarrow> versions_le (cur_versions w u) (cur_versions w' u)"
  by (cases rule: world_step.cases) (auto simp: cur_versions_bump_mono)


lemma versions_bounded_run: "world_run w D w' \<Longrightarrow> versions_bounded w \<Longrightarrow> versions_bounded w'"
  by (induction rule: world_run.induct) (auto intro: versions_bounded_step versions_bounded_change)

lemma versions_mono_run: "world_run w D w' \<Longrightarrow> versions_le (cur_versions w u) (cur_versions w' u)"
  by (induction rule: world_run.induct)
     (auto elim!: db_change.cases intro: versions_le_trans versions_mono_step)

lemma run_tables: "world_run w D w' \<Longrightarrow> pw_db w \<in> D \<and> pw_db w' \<in> D"
  by (induction rule: world_run.induct) (auto simp: world_step_db)

lemma fresh_from_bump:
  assumes "versions_bounded w" and "str_or_none t = None \<or> str_or_none t = Some u"
  shows "fresh_from (cur_versions (bump_shared w t) u) u D (bump_shared w t)"
  using assms bump_outdates [OF _ assms(2)]
  by (auto simp: fresh_from_def versions_bounded_def elim!: all_entries_mono)

lemma fresh_from_step:
  assumes "world_step w w'" and "versions_bounded w" and "fresh_from b u D w" and "pw_db w \<in> D"
  shows "fresh_from b u D w'"
  using assms
proof (induction rule: world_step.induct)
  case (read_database w xs f ys amb)
  then have "resolveUserPermissions (pw_db w) (if_userId f) (if_context f) amb
      = resolveSpec (pw_db w) (if_userId f) (if_context f)"
    by (intro resolve_refines_spec) (simp_all add: versions_bounded_def)
  with read_database show ?case by (auto simp: fresh_from_def)
next
  case (write_cache w xs f ys perms)
  then have f: "wf_request (if_userId f) (if_context f)"
    "if_userId f = u \<longrightarrow> versions_le b (if_versions f)
       \<longrightarrow> (\<exists>d\<in>D. Some perms = resolveSpec d u (if_context f))"
    by (auto simp: versions_bounded_def fresh_from_def)
  from write_cache show ?case
    unfolding fresh_from_def using f(2) by (auto intro!: all_entries_store [OF _ f(1)])
qed (auto simp: fresh_from_def all_entries_clear_local)

lemma fresh_from_change: "db_change w w' \<Longrightarrow> fresh_from b u D w \<Longrightarrow> fresh_from b u (insert d D) w'"
  by (auto elim!: db_change.cases all_entries_mono simp: fresh_from_def)

lemma fresh_from_run:
  assumes "world_run w D w'" and "versions_bounded w" and "fresh_from b u D0 w" and "pw_db w \<in> D0"
  shows "fresh_from b u (D0 \<union> D) w'"
  using assms
proof (induction rule: world_run.induct)
  case (here w)
  then show ?case by (simp add: insert_absorb)
next
  case (step w D w1 w2)
  then show ?case using run_tables [OF step.hyps(1)] by (auto intro: fresh_from_step versions_bounded_run)
next
  case (change w D w1 w2)
  then show ?case using fresh_from_change [of w1 w2 b u "D0 \<union> D" "pw_db w2"] by simp
qed

lemma fresh_from_hit:
  assumes "fresh_from b u D w" and "wf_request u c" and "versions_le b v"
    and "world_hit w p u c v = Some perms"
  shows "\<exists>d\<in>D. resolveSpec d u c = Some perms"
proof -
  from assms(4) obtain e where e: "pw_caches w p (permissionCacheKey u c) = Some e"
    "cacheVersionsMatch (ce_versions e) v" "perms = ce_userPerms e"
    by (auto simp: world_hit_def permissionCacheHit_def split: option.splits if_splits)
  from versions_le_match [OF assms(3) e(2)] e(1,3) assms(1,2) show ?thesis
    by (fastforce simp: fresh_from_def all_entries_def)
qed

lemma no_stale_hit_after_clear:
  assumes "reachable_world w" and "t = None \<or> t = Some u" and "wf_request u c"
    and "world_run (bump_shared w t) D1 w1" and "world_run w1 D2 w2"
    and "world_hit w2 p u c (cur_versions w1 u) = Some perms"
  shows "\<exists>d\<in>D1 \<union> D2. resolveSpec d u c = Some perms"
proof -
  have t: "str_or_none t = None \<or> str_or_none t = Some u"
    using assms(2) by (auto simp: str_or_none_def)
  let ?b = "cur_versions (bump_shared w t) u"
  have b: "versions_bounded (bump_shared w t)"
    by (intro versions_bounded_bump reachable_bounded assms(1))
  have "fresh_from ?b u D1 (bump_shared w t)" by (rule fresh_from_bump [OF reachable_bounded [OF assms(1)] t])
  from fresh_from_run [OF assms(4) b this] run_tables [OF assms(4)] have "fresh_from ?b u D1 w1" by simp
  from fresh_from_run [OF assms(5) versions_bounded_run [OF assms(4) b] this] run_tables [OF assms(4)]
  have "fresh_from ?b u (D1 \<union> D2) w2" by simp
  from fresh_from_hit [OF this assms(3) versions_mono_run [OF assms(4)] assms(6)]
  show ?thesis .
qed

lemma cur_versions_first_bump:
  "cur_versions (bump_shared (init_world d) None) u = Some \<lparr>cv_global = 1, cv_user = 0\<rparr>"
  by (simp add: cur_versions_def getPermissionCacheVersions_def bump_shared_def init_world_def
      bumpSharedPermissionCacheVersion_def str_or_none_def)

lemma init_world_sel [simp]:
  "pw_flights (init_world d) = []" "pw_caches (init_world d) p = Map.empty"
  "pw_db (init_world d) = d"
  by (simp_all add: init_world_def)

lemma sample_run: "world_run (bump_shared (init_world sample_db) None) {sample_db} sample_filled"
proof -
  let ?w0 = "bump_shared (init_world sample_db) None"
  let ?w1 = "?w0\<lparr>pw_flights := [sample_flight]\<rparr>"
  let ?w2 = "?w0\<lparr>pw_flights := [sample_flight\<lparr>if_missed := True\<rparr>]\<rparr>"
  have wf: "wf_request (sample_id CHR ''2'') sample_context"
    by (simp add: wf_request_def sample_context_def sample_facts)
  have v: "cur_versions ?w0 (sample_id CHR ''2'') = Some \<lparr>cv_global = 1, cv_user = 0\<rparr>"
    by (rule cur_versions_first_bump)
  have 1: "world_step ?w0 ?w1"
    using world_step.read_versions [OF wf, of ?w0 0 RedisUp] by (simp add: sample_flight_def told_versions v)
  have 2: "world_step ?w1 ?w2"
    using world_step.cache_miss [of ?w1 "[]" sample_flight "[]"]
    by (simp add: sample_flight_def world_hit_def permissionCacheHit_def)
  have 3: "world_step ?w2 sample_resolved"
    using world_step.read_database [of ?w2 "[]" "sample_flight\<lparr>if_missed := True\<rparr>" "[]" "Some sample_org_ctx"]
      resolve_refines_spec [OF sample_facts(1,2)] sample_facts
    by (simp add: sample_flight_def sample_resolved_def)
  have 4: "world_step sample_resolved sample_filled"
    using world_step.write_cache [of sample_resolved "[]" _ "[]" sample_partner_perms]
    by (simp add: sample_resolved_def sample_filled_def sample_flight_def)
  have "world_run ?w0 {sample_db} ?w0" using world_run.here [of ?w0] by simp
  with 1 2 3 4 show ?thesis by (blast intro: world_run.step)
qed

section \<open>Properties\<close>

text \<open>C13: An increment of the shared counter ends the life of every older answer. Once \<open>clearPermissionCache\<close> has
  incremented the counter in Redis (for the user, or for all users), a request of that user in any process
  that Redis tells the counters after it and that is answered from a cache gets the permissions that some
  state of the tables since the increment grants, whatever requests were in flight when the cache was
  cleared, however they interleave, which of their own reads and increments Redis refused, and however
  the tables go on changing. While the tables stay as they were at the increment, that is the answer of
  the current tables.\<close>

theorem no_stale_permissions:
  assumes "reachable_world w" and "target = None \<or> target = Some u" and "wf_request u c"
    and "world_run (bump_shared w target) D1 w1" and "world_run w1 D2 w2"
    and "world_hit w2 p u c (getPermissionCacheVersions RedisUp (pw_versions w1) u) = Some perms"
  shows "\<exists>d\<in>D1 \<union> D2. resolveSpec d u c = Some perms"
  using assms by (intro no_stale_hit_after_clear) (simp_all add: told_versions)

theorem no_stale_permissions_witness:
  "world_hit sample_filled 0 (sample_id CHR ''2'') sample_context
       (cur_versions sample_filled (sample_id CHR ''2'')) = Some sample_partner_perms
   \<and> resolveSpec (pw_db sample_filled) (sample_id CHR ''2'') sample_context = Some sample_partner_perms"
proof -
  have wf: "wf_request (sample_id CHR ''2'') sample_context"
    by (simp add: wf_request_def sample_context_def sample_facts)
  have v: "cur_versions sample_filled (sample_id CHR ''2'') = Some \<lparr>cv_global = 1, cv_user = 0\<rparr>"
    by (simp add: sample_filled_def sample_resolved_def cur_versions_first_bump)
  have hit: "world_hit sample_filled 0 (sample_id CHR ''2'') sample_context
       (cur_versions sample_filled (sample_id CHR ''2'')) = Some sample_partner_perms"
    unfolding v by (simp add: sample_filled_def sample_resolved_def world_hit_def permissionCacheHit_def
        permissionCacheStore_def cacheVersionsMatch_def CACHE_TTL_def bump_shared_def init_world_def)
  have "pw_db sample_filled = sample_db" using run_tables [OF sample_run] by simp
  with no_stale_permissions [OF reachable_world.start [OF sample_facts(1)] _ wf sample_run world_run.here hit [folded told_versions [of RedisUp, simplified]]]
  show ?thesis using hit by simp
qed

end
