(* ===== verification/Role_Assignment.thy ===== *)
theory Role_Assignment
  imports Permissions "HOL-Library.AList"
begin

text \<open>
  apps/api/src/services/roleAssignment.ts: which roles may be assigned to whom. A role is looked up
  under the request's database context (\<open>getScopedRole\<close>, \<open>getProviderAxisRole\<close>), its effective
  permissions are collected along the chain of parent roles (\<open>getEffectiveRolePermissions\<close>, with a
  set of visited roles against cyclic chains), and the permission ceiling refuses a role that
  grants what the caller does not hold.

  A JavaScript \<open>Map\<close> filled in a loop is an association list updated with \<open>AList.update\<close>, which
  like \<open>Map.prototype.set\<close> overwrites in place or appends. An \<open>HTTPException\<close> is the left side of a
  sum.
\<close>

section \<open>Scopes\<close>

datatype http_exception = HTTPException nat string

datatype scope_context = PartnerContext id | OrganizationContext id

record auth_like =
  au_userId :: id
  au_scope :: string
  au_partnerId :: "id option"
  au_orgId :: "id option"

definition getScopeContext :: "auth_like \<Rightarrow> http_exception + scope_context" where
  "getScopeContext auth =
     (case (au_scope auth = ''partner'', str_or_none (au_partnerId auth)) of
        (True, Some pid) \<Rightarrow> Inr (PartnerContext pid)
      | _ \<Rightarrow>
        (case (au_scope auth = ''organization'', str_or_none (au_orgId auth)) of
           (True, Some oid) \<Rightarrow> Inr (OrganizationContext oid)
         | _ \<Rightarrow> Inl (HTTPException 403 ''Partner or organization context required'')))"

fun context_scope :: "scope_context \<Rightarrow> db_scope" where
  "context_scope (PartnerContext _) = PartnerScope"
| "context_scope (OrganizationContext _) = OrgScope"

fun on_axis :: "scope_context \<Rightarrow> role_row \<Rightarrow> bool" where
  "on_axis (PartnerContext pid) role = (ro_partnerId role = Some pid)"
| "on_axis (OrganizationContext oid) role = (ro_orgId role = Some oid)"

definition role_by_id :: "database \<Rightarrow> id \<Rightarrow> role_row option dbm" where
  "role_by_id d roleId amb = find (\<lambda>r. ro_id r = roleId) (select_roles (current_gucs amb) d)"

definition getScopedRole :: "database \<Rightarrow> id \<Rightarrow> scope_context \<Rightarrow> role_row option dbm" where
  "getScopedRole d roleId scopeContext amb =
     (case role_by_id d roleId amb of
        None \<Rightarrow> None
      | Some role \<Rightarrow>
          if ro_scope role \<noteq> context_scope scopeContext then None
          else if ro_isSystem role then Some role
          else if on_axis scopeContext role then Some role
          else None)"

definition getProviderAxisRole :: "database \<Rightarrow> id \<Rightarrow> scope_context \<Rightarrow> role_row option dbm" where
  "getProviderAxisRole d roleId scopeContext amb =
     (case role_by_id d roleId amb of
        None \<Rightarrow> None
      | Some role \<Rightarrow>
          if ro_scope role \<noteq> context_scope scopeContext then None
          else if on_axis scopeContext role then Some role
          else None)"

section \<open>Effective permissions\<close>

lemma role_by_id_SomeD:
  "role_by_id d roleId amb = Some r
     \<Longrightarrow> r \<in> set (roles d) \<and> ro_id r = roleId \<and> role_visible (current_gucs amb) r"
  by (auto simp: role_by_id_def select_roles_def dest!: find_SomeD)

definition mergePermissions :: "permission list \<Rightarrow> permission list" where
  "mergePermissions ps = map snd (fold (\<lambda>p m. AList.update (permissionKey p) p m) ps [])"

function getEffectiveRolePermissions ::
  "database \<Rightarrow> db_access_context option \<Rightarrow> id \<Rightarrow> id list \<Rightarrow> permission list" where
  "getEffectiveRolePermissions d amb roleId visited =
     (if roleId \<in> set visited then []
      else
        (let role = role_by_id d roleId amb;
             directPermissions = role_perm_rows d roleId amb
         in case Option.bind role (\<lambda>r. str_or_none (ro_parentRoleId r)) of
              None \<Rightarrow> directPermissions
            | Some parent \<Rightarrow>
                mergePermissions
                  (directPermissions @ getEffectiveRolePermissions d amb parent (roleId # visited))))"
  by pat_completeness auto

termination
proof (relation "measure (\<lambda>(d, amb, roleId, visited). card (ro_id ` set (roles d) - set visited))")
  fix d amb roleId and visited :: "id list" and role direct parent
  assume new: "roleId \<notin> set visited" and role: "role = role_by_id d roleId amb"
    and par: "Option.bind role (\<lambda>r. str_or_none (ro_parentRoleId r)) = Some parent"
  from par role obtain r where "role_by_id d roleId amb = Some r" by (auto simp: bind_eq_Some_conv)
  from role_by_id_SomeD [OF this] new
  have "ro_id ` set (roles d) - set (roleId # visited) \<subset> ro_id ` set (roles d) - set visited"
    by auto
  then show "((d, amb, parent, roleId # visited), d, amb, roleId, visited)
      \<in> measure (\<lambda>(d, amb, roleId, visited). card (ro_id ` set (roles d) - set visited))"
    by (auto intro: psubset_card_mono)
qed auto

declare getEffectiveRolePermissions.simps [simp del]

section \<open>The ceiling\<close>

definition getCallerPermissions ::
  "user_permissions option \<Rightarrow> redis_client \<Rightarrow> version_store \<Rightarrow> int \<Rightarrow> database \<Rightarrow> perm_cache
     \<Rightarrow> auth_like \<Rightarrow> (user_permissions option \<times> perm_cache) dbm" where
  "getCallerPermissions existing redis store now d cache auth amb =
     (case existing of
        Some p \<Rightarrow> (Some p, cache)
      | None \<Rightarrow>
          getUserPermissions redis store now d cache (au_userId auth)
            \<lparr>pc_partnerId = str_or_none (au_partnerId auth), pc_orgId = str_or_none (au_orgId auth)\<rparr> amb)"

fun ceiling_loop :: "user_permissions \<Rightarrow> bool \<Rightarrow> permission list \<Rightarrow> string option" where
  "ceiling_loop caller isSystem [] = None"
| "ceiling_loop caller isSystem (p # ps) =
     (if perm_resource p = ''*'' \<or> perm_action p = ''*'' then
        (if \<not> isSystem then Some ''Custom roles with wildcard permissions cannot be assigned''
         else if \<not> hasPermission caller (perm_resource p) (perm_action p)
           then Some ''Cannot assign a role broader than caller permissions''
         else ceiling_loop caller isSystem ps)
      else if \<not> isAssignablePermission p then
        Some (''Role contains unknown permission: '' @ permissionKey p)
      else if \<not> hasPermission caller (perm_resource p) (perm_action p) then
        Some (''Cannot assign a role with permission not held by caller: '' @ permissionKey p)
      else ceiling_loop caller isSystem ps)"

definition applyCeiling ::
  "user_permissions option \<Rightarrow> bool \<Rightarrow> permission list \<Rightarrow> string option" where
  "applyCeiling callerPermissions isSystem rolePermissions =
     (if rolePermissions = [] then None
      else (case callerPermissions of
              None \<Rightarrow> Some ''No permissions found''
            | Some caller \<Rightarrow> ceiling_loop caller isSystem rolePermissions))"

definition checkRolePermissionCeiling ::
  "database \<Rightarrow> user_permissions option \<Rightarrow> role_row \<Rightarrow> string option dbm" where
  "checkRolePermissionCeiling d callerPermissions role amb =
     applyCeiling callerPermissions (ro_isSystem role)
       (getEffectiveRolePermissions d amb (ro_id role) [])"

definition validateAssignableRole ::
  "user_permissions option \<Rightarrow> redis_client \<Rightarrow> version_store \<Rightarrow> int \<Rightarrow> database \<Rightarrow> perm_cache
     \<Rightarrow> auth_like \<Rightarrow> role_row \<Rightarrow> (string option \<times> perm_cache) dbm" where
  "validateAssignableRole existing redis store now d cache auth role amb =
     (let rolePermissionsForAssignment = getEffectiveRolePermissions d amb (ro_id role) []
      in if rolePermissionsForAssignment = [] then (None, cache)
         else (let (caller, cache') = getCallerPermissions existing redis store now d cache auth amb
               in (applyCeiling caller (ro_isSystem role) rolePermissionsForAssignment, cache')))"

section \<open>Specification\<close>

text \<open>The parent of a role, as the ambient context sees it, and the grants of all ancestors.\<close>

definition parent_of :: "database \<Rightarrow> db_access_context option \<Rightarrow> id \<Rightarrow> id \<Rightarrow> bool" where
  "parent_of d amb r r' =
     (Option.bind (role_by_id d r amb) (\<lambda>x. str_or_none (ro_parentRoleId x)) = Some r')"

definition inherited_grants :: "database \<Rightarrow> db_access_context option \<Rightarrow> id \<Rightarrow> permission set" where
  "inherited_grants d amb r = (\<Union>r' \<in> {r'. (parent_of d amb)\<^sup>*\<^sup>* r r'}. set (role_perm_rows d r' amb))"

text \<open>Resource names hold no colon, as those of the registry.\<close>

definition colon_free :: "permission \<Rightarrow> bool" where
  "colon_free p = (CHR '':'' \<notin> set (perm_resource p))"

definition wf_permission_names :: "database \<Rightarrow> bool" where
  "wf_permission_names d = list_all (\<lambda>p. CHR '':'' \<notin> set (pe_resource p)) (permissions_table d)"

section \<open>Merging\<close>

lemma permissionKey_inject:
  "colon_free p \<Longrightarrow> colon_free q \<Longrightarrow> permissionKey p = permissionKey q \<longleftrightarrow> p = q"
  by (auto simp: colon_free_def permissionKey_def append_sep_inject
      intro!: permission.equality)

lemma set_alist_update:
  "distinct (map fst m) \<Longrightarrow> set (AList.update k v m) = insert (k, v) {x \<in> set m. fst x \<noteq> k}"
  by (induction m) (auto split: if_splits intro: rev_image_eqI)

lemma merge_invariant:
  assumes "\<forall>p \<in> set ps. colon_free p"
    and "distinct (map fst m)" and "\<forall>(k, p) \<in> set m. colon_free p \<and> k = permissionKey p"
  shows "snd ` set (fold (\<lambda>p m. AList.update (permissionKey p) p m) ps m) = snd ` set m \<union> set ps"
  using assms
proof (induction ps arbitrary: m)
  case (Cons p ps)
  let ?m = "AList.update (permissionKey p) p m"
  have mp: "(k, q) \<in> set ?m \<longleftrightarrow> (k, q) = (permissionKey p, p) \<or> (k \<noteq> permissionKey p \<and> (k, q) \<in> set m)"
    for k q
    using Cons.prems(2) by (auto simp: set_alist_update)
  have "snd ` set ?m = snd ` set m \<union> {p}"
  proof (intro equalityI subsetI)
    fix q assume "q \<in> snd ` set m \<union> {p}"
    then consider "q = p" | k where "(k, q) \<in> set m" by auto
    then show "q \<in> snd ` set ?m"
    proof cases
      case 1
      then show ?thesis using mp [of "permissionKey p" p] by force
    next
      case 2
      with Cons.prems have "k = permissionKey q" "colon_free q" "colon_free p" by auto
      then have "(k, q) \<in> set ?m" using mp [of k q] 2 by (auto simp: permissionKey_inject)
      then show ?thesis by force
    qed
  next
    fix q assume "q \<in> snd ` set ?m"
    then obtain k where "(k, q) \<in> set ?m" by auto
    with mp [of k q] show "q \<in> snd ` set m \<union> {p}" by force
  qed
  moreover have "\<forall>(k, q) \<in> set ?m. colon_free q \<and> k = permissionKey q"
    using Cons.prems(1,3) mp by auto
  ultimately show ?case
    using Cons.IH [of ?m] Cons.prems by (simp add: distinct_update)
qed simp

lemma set_mergePermissions: "\<forall>p \<in> set ps. colon_free p \<Longrightarrow> set (mergePermissions ps) = set ps"
  using merge_invariant [of ps "[]"] by (simp add: mergePermissions_def)


section \<open>The walk along the parent chain\<close>

lemma role_perm_rows_colon_free:
  "wf_permission_names d \<Longrightarrow> p \<in> set (role_perm_rows d r amb) \<Longrightarrow> colon_free p"
  by (auto simp: wf_permission_names_def role_perm_rows_def colon_free_def list_all_iff)

lemma effective_step:
  "roleId \<notin> set visited \<Longrightarrow> getEffectiveRolePermissions d amb roleId visited =
     (case Option.bind (role_by_id d roleId amb) (\<lambda>r. str_or_none (ro_parentRoleId r)) of
        None \<Rightarrow> role_perm_rows d roleId amb
      | Some parent \<Rightarrow> mergePermissions (role_perm_rows d roleId amb
          @ getEffectiveRolePermissions d amb parent (roleId # visited)))"
  by (subst getEffectiveRolePermissions.simps) (simp add: Let_def)

lemma effective_visited: "roleId \<in> set visited \<Longrightarrow> getEffectiveRolePermissions d amb roleId visited = []"
  by (subst getEffectiveRolePermissions.simps) simp

lemma inherited_grants_step:
  "parent_of d amb r r' \<Longrightarrow> inherited_grants d amb r = set (role_perm_rows d r amb) \<union> inherited_grants d amb r'"
proof -
  assume p: "parent_of d amb r r'"
  then have "(parent_of d amb)\<^sup>*\<^sup>* r x \<longleftrightarrow> x = r \<or> (parent_of d amb)\<^sup>*\<^sup>* r' x" for x
    by (auto simp: parent_of_def elim: converse_rtranclpE intro: converse_rtranclp_into_rtranclp)
  then have "{x. (parent_of d amb)\<^sup>*\<^sup>* r x} = insert r {x. (parent_of d amb)\<^sup>*\<^sup>* r' x}" by auto
  then show ?thesis by (simp add: inherited_grants_def)
qed

lemma inherited_grants_root:
  "\<nexists>r'. parent_of d amb r r' \<Longrightarrow> inherited_grants d amb r = set (role_perm_rows d r amb)"
proof -
  assume "\<nexists>r'. parent_of d amb r r'"
  then have "{x. (parent_of d amb)\<^sup>*\<^sup>* r x} = {r}" by (auto elim: converse_rtranclpE)
  then show ?thesis by (simp add: inherited_grants_def)
qed

lemma effective_subset:
  assumes "wf_permission_names d"
  shows "set (getEffectiveRolePermissions d amb roleId visited) \<subseteq> inherited_grants d amb roleId
         \<and> (\<forall>p \<in> set (getEffectiveRolePermissions d amb roleId visited). colon_free p)"
  using assms
proof (induction d amb roleId visited rule: getEffectiveRolePermissions.induct)
  case (1 d amb roleId visited)
  show ?case
  proof (cases "roleId \<in> set visited")
    case True
    then show ?thesis by (simp add: effective_visited)
  next
    case False
    show ?thesis
    proof (cases "Option.bind (role_by_id d roleId amb) (\<lambda>r. str_or_none (ro_parentRoleId r))")
      case None
      with False 1(2) show ?thesis
        by (auto simp: effective_step inherited_grants_def dest: role_perm_rows_colon_free)
    next
      case (Some parent)
      then have par: "parent_of d amb roleId parent" by (simp add: parent_of_def)
      note ih = 1(1) [OF False refl refl Some 1(2)]
      then have cf: "\<forall>p \<in> set (role_perm_rows d roleId amb
          @ getEffectiveRolePermissions d amb parent (roleId # visited)). colon_free p"
        using role_perm_rows_colon_free [OF 1(2)] by auto
      from ih cf False Some show ?thesis
        by (auto simp: effective_step set_mergePermissions [OF cf] inherited_grants_step [OF par])
    qed
  qed
qed

text \<open>Whenever the visited roles lead only to each other or to the current one, nothing is missed.\<close>

lemma effective_complete:
  assumes "wf_permission_names d"
    and "\<forall>v \<in> set visited. \<forall>y. parent_of d amb v y \<longrightarrow> y \<in> set (roleId # visited)"
  shows "inherited_grants d amb roleId
           \<subseteq> set (getEffectiveRolePermissions d amb roleId visited)
             \<union> (\<Union>v \<in> set visited. set (role_perm_rows d v amb))"
  using assms
proof (induction d amb roleId visited rule: getEffectiveRolePermissions.induct)
  case (1 d amb roleId visited)
  show ?case
  proof (cases "roleId \<in> set visited")
    case True
    have "x \<in> set visited" if "(parent_of d amb)\<^sup>*\<^sup>* roleId x" for x
      using that by (induction rule: rtranclp_induct) (use True 1(3) in auto)
    then show ?thesis by (auto simp: inherited_grants_def)
  next
    case False
    show ?thesis
    proof (cases "Option.bind (role_by_id d roleId amb) (\<lambda>r. str_or_none (ro_parentRoleId r))")
      case None
      then have "inherited_grants d amb roleId = set (role_perm_rows d roleId amb)"
        by (intro inherited_grants_root) (simp add: parent_of_def)
      with None False show ?thesis by (simp add: effective_step)
    next
      case (Some parent)
      then have par: "parent_of d amb roleId parent" by (simp add: parent_of_def)
      have cf: "\<forall>p \<in> set (role_perm_rows d roleId amb
          @ getEffectiveRolePermissions d amb parent (roleId # visited)). colon_free p"
        using role_perm_rows_colon_free [OF 1(2)] effective_subset [OF 1(2)] by auto
      have "\<forall>v \<in> set (roleId # visited). \<forall>y. parent_of d amb v y \<longrightarrow> y \<in> set (parent # roleId # visited)"
        using 1(3) par by (auto simp: parent_of_def)
      from 1(1) [OF False refl refl Some 1(2) this] False Some show ?thesis
        by (auto simp: effective_step set_mergePermissions [OF cf] inherited_grants_step [OF par])
    qed
  qed
qed

lemma effective_eq_inherited:
  "wf_permission_names d
     \<Longrightarrow> set (getEffectiveRolePermissions d amb roleId []) = inherited_grants d amb roleId"
  using effective_subset [of d amb roleId "[]"] effective_complete [of d "[]" amb roleId] by auto

section \<open>The ceiling is sound\<close>

lemma ceiling_loop_None:
  "ceiling_loop caller isSystem ps = None
     \<longleftrightarrow> (\<forall>p \<in> set ps. hasPermission caller (perm_resource p) (perm_action p)
            \<and> (if perm_resource p = ''*'' \<or> perm_action p = ''*'' then isSystem
               else isAssignablePermission p))"
proof (induction ps)
  case (Cons p ps)
  then show ?case
    by (cases "perm_resource p = ''*'' \<or> perm_action p = ''*''"; cases isSystem;
        cases "isAssignablePermission p"; cases "hasPermission caller (perm_resource p) (perm_action p)")
       simp_all
qed simp

lemma hasPermission_covers:
  "hasPermission caller (perm_resource p) (perm_action p) \<Longrightarrow> permissionGrantMatches p r a
     \<Longrightarrow> hasPermission caller r a"
  by (auto simp: hasPermission_iff intro: grant_wildcard_covers)

lemma applyCeiling_None:
  assumes "applyCeiling caller isSystem ps = None" and "p \<in> set ps" and "permissionGrantMatches p r a"
  shows "\<exists>c. caller = Some c \<and> hasPermission c r a"
proof -
  from assms(1,2) obtain c where c: "caller = Some c" "ceiling_loop c isSystem ps = None"
    by (cases caller) (auto simp: applyCeiling_def split: if_splits)
  from c(2) assms(2) have "hasPermission c (perm_resource p) (perm_action p)"
    unfolding ceiling_loop_None by blast
  with assms(3) c(1) show ?thesis by (blast intro: hasPermission_covers)
qed

lemma validate_None:
  assumes "validateAssignableRole existing redis store now d cache auth role amb = (None, cache')"
    and "p \<in> set (getEffectiveRolePermissions d amb (ro_id role) [])"
    and "permissionGrantMatches p r a"
  shows "\<exists>c. fst (getCallerPermissions existing redis store now d cache auth amb) = Some c
             \<and> hasPermission c r a"
  using assms applyCeiling_None [OF _ assms(2,3)]
  by (auto simp: validateAssignableRole_def Let_def split: if_splits prod.splits)

lemma scoped_role_grants:
  assumes "getScopedRole d roleId sc amb = Some role"
  shows "ro_id role = roleId \<and> role_perm_rows d roleId amb = role_grants d roleId"
proof -
  from assms have "role_by_id d roleId amb = Some role"
    by (auto simp: getScopedRole_def split: option.splits if_splits)
  from role_by_id_SomeD [OF this] show ?thesis by (blast intro: role_perm_rows_visible)
qed

lemma direct_in_inherited: "set (role_perm_rows d r amb) \<subseteq> inherited_grants d amb r"
  by (auto simp: inherited_grants_def)

lemma resolveSpec_grants: "resolveSpec d u context = Some p \<Longrightarrow> up_permissions p = role_grants d (up_roleId p)"
  by (auto simp: resolveSpec_def nullish_def org_spec_def partner_spec_def mk_user_perms_def
      bind_eq_Some_conv split: option.splits if_splits)

lemma role_grants_cong:
  "role_permissions d = role_permissions d' \<Longrightarrow> permissions_table d = permissions_table d'
     \<Longrightarrow> role_grants d = role_grants d'"
  by (rule ext) (simp add: role_grants_def)

definition sample_admin :: user_permissions where
  "sample_admin = sample_partner_perms\<lparr>up_permissions := [\<lparr>perm_resource = ''*'', perm_action = ''*''\<rparr>]\<rparr>"

definition sample_auth :: auth_like where
  "sample_auth = \<lparr>au_userId = sample_id CHR ''9'', au_scope = ''organization'', au_partnerId = None,
     au_orgId = Some (sample_id CHR ''b'')\<rparr>"

definition sample_org_role :: role_row where
  "sample_org_role = sample_role CHR ''c'' OrgScope False None None (Some (sample_id CHR ''b''))"

section \<open>Properties\<close>

text \<open>C1: Assigning a role never escalates privilege. When a role was found by \<open>getScopedRole\<close> and
  accepted by \<open>validateAssignableRole\<close>, then whoever is later resolved to that role, by whatever
  membership and in whatever database context, holds only permissions that the caller who assigned
  it holds, wildcards included.\<close>

theorem assignment_no_escalation:
  assumes "wf_permission_names d"
    and "getScopedRole d roleId scopeContext amb = Some role"
    and "validateAssignableRole existing redis store now d cache auth role amb = (None, cache')"
    and "role_permissions d' = role_permissions d" and "permissions_table d' = permissions_table d"
    and "wf_memberships d'" and "wf_ambient amb'"
    and "resolveUserPermissions d' userId context amb' = Some p" and "up_roleId p = roleId"
    and "hasPermission p r a"
  shows "\<exists>c. fst (getCallerPermissions existing redis store now d cache auth amb) = Some c
             \<and> hasPermission c r a"
proof -
  note role = scoped_role_grants [OF assms(2)]
  from assms(8) have "resolveSpec d' userId context = Some p"
    unfolding resolve_refines_spec [OF assms(6,7)] .
  from resolveSpec_grants [OF this] assms(9) have "up_permissions p = role_grants d roleId"
    by (simp add: role_grants_cong [OF assms(4,5)])
  with assms(10) obtain q where q: "q \<in> set (role_grants d roleId)" "permissionGrantMatches q r a"
    by (auto simp: hasPermission_iff)
  from q(1) role direct_in_inherited [of d roleId amb]
  have "q \<in> set (getEffectiveRolePermissions d amb (ro_id role) [])"
    by (auto simp: effective_eq_inherited [OF assms(1)])
  from validate_None [OF assms(3) this q(2)] show ?thesis .
qed

theorem assignment_no_escalation_witness:
  "\<exists>c. fst (getCallerPermissions (Some sample_admin) RedisNull Map.empty 0 sample_db Map.empty
         sample_auth (Some sample_org_ctx)) = Some c \<and> hasPermission c ''devices'' ''read''"
proof -
  let ?p = "the (resolveSpec sample_db (sample_id CHR ''1'') sample_context)"
  have a: "wf_permission_names sample_db" by code_simp
  have b: "getScopedRole sample_db (sample_id CHR ''c'') (OrganizationContext (sample_id CHR ''b''))
      (Some sample_org_ctx) = Some sample_org_role" by code_simp
  have c: "validateAssignableRole (Some sample_admin) RedisNull Map.empty 0 sample_db Map.empty
      sample_auth sample_org_role (Some sample_org_ctx) = (None, Map.empty)"
    by (simp add: validateAssignableRole_def getCallerPermissions_def Let_def) code_simp
  have d: "resolveUserPermissions sample_db (sample_id CHR ''1'') sample_context None = Some ?p"
    by code_simp
  have e: "up_roleId ?p = sample_id CHR ''c''" "hasPermission ?p ''devices'' ''read''" by code_simp+
  have f: "wf_ambient None" by code_simp
  from assignment_no_escalation [OF a b c refl refl sample_facts(1) f d e] show ?thesis .
qed

text \<open>The effective permissions of a role are exactly the direct grants of the role and of all
  its ancestors, as the request's database context sees them, also when the parent chain is cyclic:
  the walk ends and neither loses nor invents a grant.\<close>

theorem effective_permissions_exact:
  assumes "wf_permission_names d"
  shows "set (getEffectiveRolePermissions d amb roleId []) = inherited_grants d amb roleId"
  using assms by (rule effective_eq_inherited)

theorem effective_permissions_exact_witness:
  "\<lparr>perm_resource = ''alerts'', perm_action = ''*''\<rparr>
     \<in> inherited_grants sample_db (Some SYSTEM_DB_ACCESS_CONTEXT) (sample_id CHR ''d'')"
proof -
  have "wf_permission_names sample_db" by code_simp
  moreover have "\<lparr>perm_resource = ''alerts'', perm_action = ''*''\<rparr>
      \<in> set (getEffectiveRolePermissions sample_db (Some SYSTEM_DB_ACCESS_CONTEXT) (sample_id CHR ''d'') [])"
    by code_simp
  ultimately show ?thesis by (simp only: effective_permissions_exact)
qed

text \<open>The strict resolver used for single sign-on returns a role exactly when the permissive one
  does and the role carries the provider's own organization or partner; a built-in role without
  tenant columns is never returned, so it cannot become a standing delegation.\<close>

theorem provider_axis_role_strict:
  "getProviderAxisRole d roleId sc amb = Some role
     \<longleftrightarrow> getScopedRole d roleId sc amb = Some role \<and> on_axis sc role"
  by (auto simp: getProviderAxisRole_def getScopedRole_def split: option.splits if_splits)

end
