(* ===== verification/Tenant_Status.thy ===== *)
theory Tenant_Status
  imports Permissions
begin

text \<open>
  apps/api/src/services/tenantStatus.ts: the gates that decide whether a partner or an organization
  may be used. User, API-key and OAuth requests go through \<open>assertActiveTenantContext\<close>; agents go
  through \<open>getAgentTenantState\<close>, which also knows a draining state and caches positive answers in
  Redis for 60 seconds. All reads run with system visibility (\<open>readAsSystem\<close>).

  A Redis connection is absent, or its reads and its writes each succeed or fail; its store maps a
  key to a value and the time it expires. A thrown \<open>TenantInactiveError\<close> is the left side of a sum.
\<close>

section \<open>User-facing gates\<close>

datatype tenant_error = TenantInactiveError string

definition isUsableOrgStatus :: "org_status \<Rightarrow> bool" where
  "isUsableOrgStatus status = (status = OActive \<or> status = OTrial)"

definition readAsSystem :: "'a dbm \<Rightarrow> 'a dbm" where
  "readAsSystem fn amb =
     (case getCurrentDbAccessContext amb of
        Some c \<Rightarrow>
          if ctx_scope c \<noteq> SystemScope then runOutsideDbContext (withSystemDbAccessContext fn) amb
          else withSystemDbAccessContext fn amb
      | None \<Rightarrow> withSystemDbAccessContext fn amb)"

definition undeleted_partner :: "database \<Rightarrow> id \<Rightarrow> partner_row option dbm" where
  "undeleted_partner d partnerId amb =
     find (\<lambda>p. pa_id p = partnerId \<and> pa_deletedAt p = None) (select_partners (current_gucs amb) d)"

definition getActivePartner :: "database \<Rightarrow> id \<Rightarrow> id option dbm" where
  "getActivePartner d partnerId =
     readAsSystem (\<lambda>amb.
       case undeleted_partner d partnerId amb of
         None \<Rightarrow> None
       | Some partner \<Rightarrow> if pa_status partner \<noteq> PActive then None else Some (pa_id partner))"

definition PARTNER_SESSION_ALLOWED_STATUSES :: "partner_status list" where
  "PARTNER_SESSION_ALLOWED_STATUSES = [PActive, PPending]"

definition getSessionAllowedPartner :: "database \<Rightarrow> id \<Rightarrow> id option dbm" where
  "getSessionAllowedPartner d partnerId =
     readAsSystem (\<lambda>amb.
       case undeleted_partner d partnerId amb of
         None \<Rightarrow> None
       | Some partner \<Rightarrow>
           if pa_status partner \<notin> set PARTNER_SESSION_ALLOWED_STATUSES then None
           else Some (pa_id partner))"

record org_tenant =
  ot_orgId :: id
  ot_partnerId :: id

definition getActiveOrgTenant :: "database \<Rightarrow> id \<Rightarrow> org_tenant option dbm" where
  "getActiveOrgTenant d orgId =
     readAsSystem (\<lambda>amb.
       case find (\<lambda>o'. og_id o' = orgId \<and> og_deletedAt o' = None)
              (select_organizations (current_gucs amb) d) of
         None \<Rightarrow> None
       | Some org \<Rightarrow>
           if \<not> isUsableOrgStatus (og_status org) \<or> og_deletedAt org \<noteq> None then None
           else (case getActivePartner d (og_partnerId org) amb of
                   None \<Rightarrow> None
                 | Some _ \<Rightarrow> Some \<lparr>ot_orgId = og_id org, ot_partnerId = og_partnerId org\<rparr>))"

record tenant_context =
  tc_scope :: db_scope
  tc_partnerId :: "id option"
  tc_orgId :: "id option"

definition assertActiveTenantContext ::
  "database \<Rightarrow> tenant_context \<Rightarrow> bool \<Rightarrow> (tenant_error + unit) dbm" where
  "assertActiveTenantContext d context strictForOauth amb =
     (case tc_scope context of
        SystemScope \<Rightarrow> Inr ()
      | PartnerScope \<Rightarrow>
          (case str_or_none (tc_partnerId context) of
             None \<Rightarrow> Inl (TenantInactiveError ''Partner is not active'')
           | Some partnerId \<Rightarrow>
               if strictForOauth then
                 (if getActivePartner d partnerId amb = None
                  then Inl (TenantInactiveError ''Partner is not active'') else Inr ())
               else
                 (if getSessionAllowedPartner d partnerId amb = None
                  then Inl (TenantInactiveError ''Partner is not active'') else Inr ()))
      | OrgScope \<Rightarrow>
          (case str_or_none (tc_orgId context) of
             None \<Rightarrow> Inl (TenantInactiveError ''Organization context required'')
           | Some orgId \<Rightarrow>
               (case getActiveOrgTenant d orgId amb of
                  None \<Rightarrow> Inl (TenantInactiveError ''Organization is not active'')
                | Some org \<Rightarrow>
                    if truthy_str (tc_partnerId context) \<and> Some (ot_partnerId org) \<noteq> tc_partnerId context
                    then Inl (TenantInactiveError ''Organization is not active'')
                    else Inr ())))"

section \<open>The agent gate\<close>

datatype agent_tenant_state = AgentActive | AgentDraining

record redis_link =
  rl_get_ok :: bool
  rl_set_ok :: bool

type_synonym ttl_store = "string \<rightharpoonup> (string \<times> int)"

definition redis_get :: "ttl_store \<Rightarrow> int \<Rightarrow> string \<Rightarrow> string option" where
  "redis_get store now key =
     (case store key of None \<Rightarrow> None | Some (v, expires) \<Rightarrow> if now < expires then Some v else None)"

definition AGENT_TENANT_OK_CACHE_PREFIX :: string where
  "AGENT_TENANT_OK_CACHE_PREFIX = ''agent_tenant_ok:''"

definition AGENT_TENANT_OK_CACHE_SECONDS :: int where
  "AGENT_TENANT_OK_CACHE_SECONDS = 60"

definition agentTenantCacheKey :: "id \<Rightarrow> string" where
  "agentTenantCacheKey orgId = AGENT_TENANT_OK_CACHE_PREFIX @ orgId"

definition classify_agent_tenant :: "org_status \<Rightarrow> partner_status \<Rightarrow> agent_tenant_state option" where
  "classify_agent_tenant orgStatus partnerStatus =
     (let orgUsable = isUsableOrgStatus orgStatus
      in if orgUsable \<and> partnerStatus = PActive then Some AgentActive
         else
           (let orgDraining = (orgStatus = OOffboarding
                               \<and> (partnerStatus = PActive \<or> partnerStatus = POffboarding));
                partnerDraining = (partnerStatus = POffboarding \<and> orgUsable)
            in if orgDraining \<or> partnerDraining then Some AgentDraining else None))"

definition agentTenantRow :: "database \<Rightarrow> id \<Rightarrow> (org_row \<times> partner_row) option dbm" where
  "agentTenantRow d orgId amb =
     (case concat (map (\<lambda>o'. map (Pair o')
                           (filter (\<lambda>p. pa_id p = og_partnerId o') (select_partners (current_gucs amb) d)))
                 (filter (\<lambda>o'. og_id o' = orgId \<and> og_deletedAt o' = None)
                    (select_organizations (current_gucs amb) d))) of
        [] \<Rightarrow> None | r # _ \<Rightarrow> Some r)"

definition readAgentTenantState :: "database \<Rightarrow> id \<Rightarrow> agent_tenant_state option dbm" where
  "readAgentTenantState d orgId =
     readAsSystem (\<lambda>amb.
       case agentTenantRow d orgId amb of
         None \<Rightarrow> None
       | Some (org, partner) \<Rightarrow>
           if pa_deletedAt partner \<noteq> None then None
           else classify_agent_tenant (og_status org) (pa_status partner))"

fun agent_state_text :: "agent_tenant_state \<Rightarrow> string" where
  "agent_state_text AgentActive = ''1''"
| "agent_state_text AgentDraining = ''drain''"

definition cachedAgentTenantState ::
  "redis_link option \<Rightarrow> ttl_store \<Rightarrow> int \<Rightarrow> id \<Rightarrow> agent_tenant_state option" where
  "cachedAgentTenantState redis store now orgId =
     (case redis of
        None \<Rightarrow> None
      | Some link \<Rightarrow>
          if rl_get_ok link then
            (let cached = redis_get store now (agentTenantCacheKey orgId)
             in if cached = Some ''1'' then Some AgentActive
                else if cached = Some ''drain'' then Some AgentDraining
                else None)
          else None)"

definition getAgentTenantState ::
  "redis_link option \<Rightarrow> ttl_store \<Rightarrow> int \<Rightarrow> database \<Rightarrow> id
     \<Rightarrow> (agent_tenant_state option \<times> ttl_store) dbm" where
  "getAgentTenantState redis store now d orgId amb =
     (case cachedAgentTenantState redis store now orgId of
        Some s \<Rightarrow> (Some s, store)
      | None \<Rightarrow>
          (let state = readAgentTenantState d orgId amb
           in case (state, redis) of
                (Some s, Some link) \<Rightarrow>
                  (state,
                   if rl_set_ok link then
                     store(agentTenantCacheKey orgId \<mapsto>
                       (agent_state_text s, now + AGENT_TENANT_OK_CACHE_SECONDS * 1000))
                   else store)
              | _ \<Rightarrow> (state, store)))"

definition isAgentTenantActive ::
  "redis_link option \<Rightarrow> ttl_store \<Rightarrow> int \<Rightarrow> database \<Rightarrow> id \<Rightarrow> bool dbm" where
  "isAgentTenantActive redis store now d orgId amb =
     (fst (getAgentTenantState redis store now d orgId amb) \<noteq> None)"

definition invalidateAgentTenantCache ::
  "redis_link option \<Rightarrow> ttl_store \<Rightarrow> id list \<Rightarrow> ttl_store" where
  "invalidateAgentTenantCache redis store orgIds =
     (if orgIds = [] then store
      else (case redis of
              None \<Rightarrow> store
            | Some link \<Rightarrow>
                if rl_set_ok link then fold (\<lambda>i st. st(agentTenantCacheKey i := None)) orgIds store
                else store))"

section \<open>Specification\<close>

text \<open>Primary keys of the tenant tables.\<close>

definition unique_tenants :: "database \<Rightarrow> bool" where
  "unique_tenants d = (distinct (map pa_id (partners d)) \<and> distinct (map og_id (organizations d)))"

definition live_partner :: "database \<Rightarrow> id \<Rightarrow> partner_status set \<Rightarrow> bool" where
  "live_partner d i ok =
     (\<exists>p \<in> set (partners d). pa_id p = i \<and> pa_deletedAt p = None \<and> pa_status p \<in> ok)"

definition live_org :: "database \<Rightarrow> id \<Rightarrow> id \<Rightarrow> bool" where
  "live_org d i pid =
     (\<exists>o' \<in> set (organizations d). og_id o' = i \<and> og_deletedAt o' = None
        \<and> og_status o' \<in> {OActive, OTrial} \<and> og_partnerId o' = pid \<and> live_partner d pid {PActive})"

definition live_context :: "database \<Rightarrow> tenant_context \<Rightarrow> bool \<Rightarrow> bool" where
  "live_context d context strict =
     (case tc_scope context of
        SystemScope \<Rightarrow> True
      | PartnerScope \<Rightarrow>
          (\<exists>i. tc_partnerId context = Some i \<and> i \<noteq> []
             \<and> live_partner d i (if strict then {PActive} else {PActive, PPending}))
      | OrgScope \<Rightarrow>
          (\<exists>i pid. tc_orgId context = Some i \<and> i \<noteq> [] \<and> live_org d i pid
             \<and> tc_partnerId context \<in> {None, Some [], Some pid}))"

text \<open>
  Runs of the agent gate over time: \<open>db_at t\<close> are the tables at time \<open>t\<close> (milliseconds); checks of
  any organization, invalidations and the passing of time interleave.
\<close>

record agent_world =
  aw_store :: ttl_store
  aw_now :: int

inductive agent_run :: "(int \<Rightarrow> database) \<Rightarrow> agent_world \<Rightarrow> bool" for db_at where
  start: "agent_run db_at \<lparr>aw_store = Map.empty, aw_now = t\<rparr>"
| check: "agent_run db_at w \<Longrightarrow> agent_run db_at (w\<lparr>aw_store :=
     snd (getAgentTenantState redis (aw_store w) (aw_now w) (db_at (aw_now w)) orgId amb)\<rparr>)"
| invalidate: "agent_run db_at w \<Longrightarrow>
     agent_run db_at (w\<lparr>aw_store := invalidateAgentTenantCache redis (aw_store w) orgIds\<rparr>)"
| tick: "agent_run db_at w \<Longrightarrow> t \<ge> 0 \<Longrightarrow> agent_run db_at (w\<lparr>aw_now := aw_now w + t\<rparr>)"

text \<open>What the tables say of an organization's agents, with no context in the way.\<close>

definition agent_state_of :: "database \<Rightarrow> id \<Rightarrow> agent_tenant_state option" where
  "agent_state_of d orgId = readAgentTenantState d orgId None"

section \<open>Lemmas\<close>

interpretation as_system: system_reader readAsSystem
proof unfold_locales
  show "\<exists>c. ctx_scope c = SystemScope \<and> readAsSystem fn amb = fn (Some c)"
    for fn :: "'a dbm" and amb
    by (cases amb) (auto simp: readAsSystem_def getCurrentDbAccessContext_def
        withSystemDbAccessContext_def withDbAccessContext_def runOutsideDbContext_def
        intro: exI [of _ SYSTEM_DB_ACCESS_CONTEXT])
qed

lemma find_unique:
  assumes "distinct (map key xs)"
  shows "find (\<lambda>x. key x = k \<and> P x) xs = Some x \<longleftrightarrow> x \<in> set xs \<and> key x = k \<and> P x"
  using assms by (induction xs) auto

lemma unique_key: "distinct (map f xs) \<Longrightarrow> x \<in> set xs \<Longrightarrow> y \<in> set xs \<Longrightarrow> f x = f y \<Longrightarrow> x = y"
  by (auto simp: distinct_map dest: inj_onD)

lemma undeleted_partner_system:
  fixes c :: db_access_context
  assumes "unique_tenants d" and "ctx_scope c = SystemScope"
  shows "undeleted_partner d i (Some c) = Some p
           \<longleftrightarrow> p \<in> set (partners d) \<and> pa_id p = i \<and> pa_deletedAt p = None"
  using assms by (simp add: undeleted_partner_def unique_tenants_def find_unique)

text \<open>The shape both partner gates share, for the statuses they accept.\<close>

lemma partner_gate:
  fixes c :: db_access_context
  assumes "unique_tenants d" and "ctx_scope c = SystemScope"
  shows "(case undeleted_partner d i (Some c) of None \<Rightarrow> None
      | Some partner \<Rightarrow> if pa_status partner \<notin> ok then None else Some (pa_id partner))
      = (if live_partner d i ok then Some i else None)"
proof (cases "undeleted_partner d i (Some c)")
  case None
  have "\<not> live_partner d i ok"
  proof
    assume "live_partner d i ok"
    then obtain p where "p \<in> set (partners d)" "pa_id p = i" "pa_deletedAt p = None"
      by (auto simp: live_partner_def)
    with undeleted_partner_system [OF assms, of i p] None show False by simp
  qed
  with None show ?thesis by simp
next
  case (Some p)
  with undeleted_partner_system [OF assms] have p: "p \<in> set (partners d)" "pa_id p = i" "pa_deletedAt p = None"
    by auto
  have "q = p" if "q \<in> set (partners d)" "pa_id q = i" for q
    using assms(1) p that unique_key [of pa_id "partners d" q p] by (simp add: unique_tenants_def)
  with p have "live_partner d i ok \<longleftrightarrow> pa_status p \<in> ok"
    unfolding live_partner_def by blast
  with Some p show ?thesis by simp
qed

lemma getActivePartner_iff:
  assumes "unique_tenants d"
  shows "getActivePartner d i amb = (if live_partner d i {PActive} then Some i else None)"
  unfolding getActivePartner_def
proof (rule as_system.run_eq)
  fix c :: db_access_context
  assume "ctx_scope c = SystemScope"
  from partner_gate [OF assms this, where i = i and ok = "{PActive}"]
  show "(case undeleted_partner d i (Some c) of None \<Rightarrow> None
      | Some partner \<Rightarrow> if pa_status partner \<noteq> PActive then None else Some (pa_id partner))
      = (if live_partner d i {PActive} then Some i else None)"
    unfolding singleton_iff .
qed

lemma getSessionAllowedPartner_iff:
  assumes "unique_tenants d"
  shows "getSessionAllowedPartner d i amb = (if live_partner d i {PActive, PPending} then Some i else None)"
  unfolding getSessionAllowedPartner_def
  by (rule as_system.run_eq)
     (use partner_gate [OF assms, where i = i and ok = "set PARTNER_SESSION_ALLOWED_STATUSES"] in
       \<open>simp add: PARTNER_SESSION_ALLOWED_STATUSES_def\<close>)

lemma getActiveOrgTenant_iff:
  assumes "unique_tenants d"
  shows "getActiveOrgTenant d i amb = Some t \<longleftrightarrow> ot_orgId t = i \<and> live_org d i (ot_partnerId t)"
proof -
  let ?q = "\<lambda>o'. og_id o' = i \<and> og_deletedAt o' = None"
  have "getActiveOrgTenant d i amb =
     (case find ?q (organizations d) of
        None \<Rightarrow> None
      | Some org \<Rightarrow>
          if isUsableOrgStatus (og_status org) \<and> live_partner d (og_partnerId org) {PActive}
          then Some \<lparr>ot_orgId = og_id org, ot_partnerId = og_partnerId org\<rparr> else None)"
    unfolding getActiveOrgTenant_def
    by (rule as_system.run_eq)
       (auto simp: getActivePartner_iff [OF assms] split: option.splits dest!: find_SomeD)
  note eq = this
  have found: "find ?q (organizations d) = Some org
      \<longleftrightarrow> org \<in> set (organizations d) \<and> og_id org = i \<and> og_deletedAt org = None" for org
    using assms by (simp add: unique_tenants_def find_unique)
  show ?thesis
  proof (cases "find ?q (organizations d)")
    case None
    with found have "\<not> live_org d i pid" for pid by (auto simp: live_org_def)
    with None eq show ?thesis by simp
  next
    case (Some org)
    with found have org: "org \<in> set (organizations d)" "og_id org = i" "og_deletedAt org = None" by auto
    have "o' = org" if "o' \<in> set (organizations d)" "og_id o' = i" for o'
      using assms org that unique_key [of og_id "organizations d" o' org] by (simp add: unique_tenants_def)
    with org have live: "live_org d i pid \<longleftrightarrow> og_partnerId org = pid \<and> isUsableOrgStatus (og_status org)
        \<and> live_partner d pid {PActive}" for pid
      unfolding live_org_def isUsableOrgStatus_def by blast
    from eq Some org show ?thesis by (cases t) (auto simp: live)
  qed
qed

lemma case_list_unique:
  "(\<And>a b. a \<in> set xs \<Longrightarrow> b \<in> set xs \<Longrightarrow> a = b)
     \<Longrightarrow> (case xs of [] \<Rightarrow> None | x # _ \<Rightarrow> Some x) = Some r \<longleftrightarrow> r \<in> set xs"
  by (cases xs) auto

lemma agentTenantRow_system:
  fixes c :: db_access_context
  assumes "unique_tenants d" and "ctx_scope c = SystemScope"
  shows "agentTenantRow d i (Some c) = Some (org, p)
           \<longleftrightarrow> org \<in> set (organizations d) \<and> og_id org = i \<and> og_deletedAt org = None
             \<and> p \<in> set (partners d) \<and> pa_id p = og_partnerId org"
proof -
  let ?xs = "concat (map (\<lambda>o'. map (Pair o') (filter (\<lambda>p. pa_id p = og_partnerId o') (partners d)))
      (filter (\<lambda>o'. og_id o' = i \<and> og_deletedAt o' = None) (organizations d)))"
  have mem: "(o', q) \<in> set ?xs \<longleftrightarrow> o' \<in> set (organizations d) \<and> og_id o' = i \<and> og_deletedAt o' = None
      \<and> q \<in> set (partners d) \<and> pa_id q = og_partnerId o'" for o' q
    by auto
  have "a = b" if "a \<in> set ?xs" "b \<in> set ?xs" for a b
  proof (cases a; cases b)
    fix o1 p1 o2 p2 assume "a = (o1, p1)" "b = (o2, p2)"
    with that mem assms(1) show "a = b"
      using unique_key [of og_id "organizations d" o1 o2] unique_key [of pa_id "partners d" p1 p2]
      by (simp add: unique_tenants_def)
  qed
  from case_list_unique [of ?xs, OF this] show ?thesis
    using assms(2) by (simp add: agentTenantRow_def mem del: set_concat)
qed

lemma readAgentTenantState_eq:
  assumes "unique_tenants d"
  shows "readAgentTenantState d i amb = agent_state_of d i"
    and "agent_state_of d i = Some s
       \<longleftrightarrow> (\<exists>org p. org \<in> set (organizations d) \<and> og_id org = i \<and> og_deletedAt org = None
             \<and> p \<in> set (partners d) \<and> pa_id p = og_partnerId org \<and> pa_deletedAt p = None
             \<and> classify_agent_tenant (og_status org) (pa_status p) = Some s)"
proof -
  let ?f = "\<lambda>amb. case agentTenantRow d i amb of None \<Rightarrow> None
       | Some (org, partner) \<Rightarrow> if pa_deletedAt partner \<noteq> None then None
           else classify_agent_tenant (og_status org) (pa_status partner)"
  have row: "agentTenantRow d i (Some c) = agentTenantRow d i (Some SYSTEM_DB_ACCESS_CONTEXT)"
    if "ctx_scope c = SystemScope" for c :: db_access_context
    using that by (simp add: agentTenantRow_def)
  have run: "readAgentTenantState d i amb = ?f (Some SYSTEM_DB_ACCESS_CONTEXT)" for amb
    unfolding readAgentTenantState_def by (intro as_system.run_system) (drule row, simp)
  then show "readAgentTenantState d i amb = agent_state_of d i" by (simp add: agent_state_of_def)
  show "agent_state_of d i = Some s
       \<longleftrightarrow> (\<exists>org p. org \<in> set (organizations d) \<and> og_id org = i \<and> og_deletedAt org = None
             \<and> p \<in> set (partners d) \<and> pa_id p = og_partnerId org \<and> pa_deletedAt p = None
             \<and> classify_agent_tenant (og_status org) (pa_status p) = Some s)"
  proof -
    have "?f (Some SYSTEM_DB_ACCESS_CONTEXT) = Some s \<longleftrightarrow>
        (\<exists>org p. agentTenantRow d i (Some SYSTEM_DB_ACCESS_CONTEXT) = Some (org, p)
           \<and> pa_deletedAt p = None \<and> classify_agent_tenant (og_status org) (pa_status p) = Some s)"
      by (auto split: option.splits if_splits)
    then show ?thesis
      unfolding agent_state_of_def run agentTenantRow_system [OF assms system_ctx_scope] conj_assoc .
  qed
qed

lemma classify_active: "classify_agent_tenant os ps = Some AgentActive \<longleftrightarrow> os \<in> {OActive, OTrial} \<and> ps = PActive"
  by (auto simp: classify_agent_tenant_def isUsableOrgStatus_def Let_def)

lemma classify_draining:
  "classify_agent_tenant os ps = Some AgentDraining
     \<longleftrightarrow> (os = OOffboarding \<and> ps \<in> {PActive, POffboarding}) \<or> (os \<in> {OActive, OTrial} \<and> ps = POffboarding)"
  by (cases os; cases ps) (simp_all add: classify_agent_tenant_def isUsableOrgStatus_def Let_def)

lemma agent_active_live:
  assumes "unique_tenants d"
  shows "agent_state_of d i = Some AgentActive \<longleftrightarrow> (\<exists>pid. live_org d i pid)"
  unfolding readAgentTenantState_eq(2) [OF assms] classify_active live_org_def live_partner_def
  by blast

lemma assertActive_iff:
  assumes "unique_tenants d"
  shows "assertActiveTenantContext d context strict amb = Inr () \<longleftrightarrow> live_context d context strict"
proof (cases "tc_scope context")
  case SystemScope
  then show ?thesis by (simp add: assertActiveTenantContext_def live_context_def)
next
  case PartnerScope
  then show ?thesis
    by (cases "str_or_none (tc_partnerId context)")
       (auto simp: assertActiveTenantContext_def live_context_def getActivePartner_iff [OF assms]
          getSessionAllowedPartner_iff [OF assms] str_or_none_Some str_or_none_def split: if_splits)
next
  case OrgScope
  have eq: "getActiveOrgTenant d i amb = Some t \<longleftrightarrow> ot_orgId t = i \<and> live_org d i (ot_partnerId t)"
    for i t by (rule getActiveOrgTenant_iff [OF assms])
  have none: "getActiveOrgTenant d i amb = None \<longleftrightarrow> (\<forall>pid. \<not> live_org d i pid)" for i
    using eq [of i "\<lparr>ot_orgId = i, ot_partnerId = _\<rparr>"] eq [of i] by (cases "getActiveOrgTenant d i amb") auto
  show ?thesis
  proof (cases "str_or_none (tc_orgId context)")
    case None
    with OrgScope show ?thesis
      by (auto simp: assertActiveTenantContext_def live_context_def str_or_none_def split: if_splits)
  next
    case (Some i)
    then have i: "tc_orgId context = Some i" "i \<noteq> []" by (simp_all add: str_or_none_Some)
    show ?thesis
    proof (cases "getActiveOrgTenant d i amb")
      case None
      then have "\<not> live_org d i pid" for pid using none by blast
      with None OrgScope Some i show ?thesis
        by (simp add: assertActiveTenantContext_def live_context_def)
    next
      case t: (Some t)
      then have "live_org d i pid \<longleftrightarrow> pid = ot_partnerId t" for pid
        using eq [of i "\<lparr>ot_orgId = i, ot_partnerId = pid\<rparr>"] eq [of i t] by (cases t) auto
      with OrgScope Some i t show ?thesis
        by (cases "tc_partnerId context") (auto simp: assertActiveTenantContext_def live_context_def)
    qed
  qed
qed

text \<open>Entries of the agent cache are the table's answer of at most 60 seconds ago.\<close>

definition agent_cache_ok :: "(int \<Rightarrow> database) \<Rightarrow> agent_world \<Rightarrow> bool" where
  "agent_cache_ok db_at w =
     (\<forall>orgId v e. aw_store w (agentTenantCacheKey orgId) = Some (v, e)
        \<longrightarrow> e - 60000 \<le> aw_now w
          \<and> (\<exists>s. v = agent_state_text s \<and> agent_state_of (db_at (e - 60000)) orgId = Some s))"

lemma agent_key_inject [simp]: "agentTenantCacheKey a = agentTenantCacheKey b \<longleftrightarrow> a = b"
  by (simp add: agentTenantCacheKey_def)

lemma getAgentTenantState_store:
  "snd (getAgentTenantState redis store now d orgId amb) = store
   \<or> (\<exists>s. readAgentTenantState d orgId amb = Some s
        \<and> snd (getAgentTenantState redis store now d orgId amb)
            = store(agentTenantCacheKey orgId \<mapsto> (agent_state_text s, now + 60000)))"
  by (auto simp: getAgentTenantState_def AGENT_TENANT_OK_CACHE_SECONDS_def Let_def split: option.splits)

lemma fold_delete:
  "fold (\<lambda>i st. st(agentTenantCacheKey i := None)) ids st
     = (\<lambda>k. if k \<in> agentTenantCacheKey ` set ids then None else st k)"
  by (induction ids arbitrary: st) (auto simp: fun_eq_iff)

lemma invalidate_subset:
  "invalidateAgentTenantCache redis store ids k = Some v \<Longrightarrow> store k = Some v"
  by (auto simp: invalidateAgentTenantCache_def fold_delete split: if_splits option.splits)

lemma invalidate_uncached:
  "orgId \<in> set ids \<Longrightarrow> rl_set_ok link
     \<Longrightarrow> cachedAgentTenantState (Some link) (invalidateAgentTenantCache (Some link) store ids) now orgId = None"
  by (auto simp: invalidateAgentTenantCache_def fold_delete cachedAgentTenantState_def redis_get_def Let_def)

lemma cached_answer:
  assumes "agent_cache_ok db_at w"
    and "cachedAgentTenantState redis (aw_store w) (aw_now w) orgId = Some s"
  shows "\<exists>t. aw_now w - 60000 < t \<and> t \<le> aw_now w \<and> agent_state_of (db_at t) orgId = Some s"
proof -
  from assms(2) obtain e where e: "aw_store w (agentTenantCacheKey orgId) = Some (agent_state_text s, e)"
      "aw_now w < e"
    by (cases s) (auto simp: cachedAgentTenantState_def redis_get_def Let_def
        split: option.splits if_splits)
  from assms(1) [unfolded agent_cache_ok_def, rule_format, OF e(1)] obtain s' where s': "e - 60000 \<le> aw_now w" "agent_state_text s = agent_state_text s'"
      "agent_state_of (db_at (e - 60000)) orgId = Some s'"
    by blast
  from s'(2) have "s' = s" by (cases s; cases s') auto
  with s' e(2) show ?thesis by (intro exI [of _ "e - 60000"]) simp
qed

lemma agent_cache_ok_run:
  assumes "\<And>t. unique_tenants (db_at t)" and "agent_run db_at w"
  shows "agent_cache_ok db_at w"
  using assms(2)
proof (induction rule: agent_run.induct)
  case (start t)
  then show ?case by (simp add: agent_cache_ok_def)
next
  case (check w redis orgId amb)
  show ?case
    using getAgentTenantState_store [of redis "aw_store w" "aw_now w" "db_at (aw_now w)" orgId amb]
  proof (elim disjE exE conjE)
    fix s
    assume "readAgentTenantState (db_at (aw_now w)) orgId amb = Some s"
      and st: "snd (getAgentTenantState redis (aw_store w) (aw_now w) (db_at (aw_now w)) orgId amb)
        = (aw_store w)(agentTenantCacheKey orgId \<mapsto> (agent_state_text s, aw_now w + 60000))"
    then have "agent_state_of (db_at (aw_now w)) orgId = Some s"
      by (simp add: readAgentTenantState_eq(1) [OF assms(1)])
    with check.IH show ?thesis by (auto simp: st agent_cache_ok_def)
  qed (use check.IH in \<open>simp add: agent_cache_ok_def\<close>)
next
  case (invalidate w redis ids)
  then show ?case by (auto simp: agent_cache_ok_def dest!: invalidate_subset)
next
  case (tick w t)
  then show ?case unfolding agent_cache_ok_def by fastforce
qed


section \<open>Properties\<close>

text \<open>C37: The tenant gate of users, API keys and OAuth tokens accepts exactly the live tenants,
  whatever the caller's database context: a partner that is not deleted and active (or pending,
  for a first-party session only), an organization that is not deleted, active or on trial, under
  an active partner that is the one the token names. Everything else raises an error.\<close>

theorem tenant_gate_exact:
  assumes "unique_tenants d"
  shows "assertActiveTenantContext d context strict amb = Inr () \<longleftrightarrow> live_context d context strict"
  using assms by (rule assertActive_iff)

theorem tenant_gate_exact_witness:
  "assertActiveTenantContext sample_db
     \<lparr>tc_scope = OrgScope, tc_partnerId = Some (sample_id CHR ''a''), tc_orgId = Some (sample_id CHR ''b'')\<rparr>
     True (Some sample_org_ctx) = Inr ()"
proof -
  have "unique_tenants sample_db" by code_simp
  from tenant_gate_exact [OF this] show ?thesis
    by (simp add: live_context_def live_org_def live_partner_def sample_db_def sample_id_def)
qed

text \<open>The agent gate and the user gate agree: an organization's agents are fully active exactly
  when the organization passes the user gate. The draining state, open to agents only, is never
  one the user gate accepts.\<close>

theorem agent_and_user_gates_agree:
  assumes "unique_tenants d"
  shows "(readAgentTenantState d orgId amb = Some AgentActive) = (getActiveOrgTenant d orgId amb' \<noteq> None)"
    (is "?l = ?r")
proof -
  have "?l \<longleftrightarrow> (\<exists>pid. live_org d orgId pid)"
    by (simp add: readAgentTenantState_eq(1) [OF assms] agent_active_live [OF assms])
  also have "\<dots> \<longleftrightarrow> (\<exists>t. getActiveOrgTenant d orgId amb' = Some t)"
    unfolding getActiveOrgTenant_iff [OF assms] by (metis org_tenant.select_convs)
  finally show ?thesis by simp
qed

theorem agent_and_user_gates_agree_witness:
  "(readAgentTenantState sample_db (sample_id CHR ''b'') None = Some AgentActive)
     = (getActiveOrgTenant sample_db (sample_id CHR ''b'') (Some sample_org_ctx) \<noteq> None)"
proof -
  have "unique_tenants sample_db" by code_simp
  then show ?thesis by (rule agent_and_user_gates_agree)
qed

text \<open>The agent cache never fails open for longer than its 60 seconds. Over any run of checks,
  invalidations, Redis failures and status changes, an admitted agent's state is what the tables
  said at some moment of the last minute; when Redis cannot be read it is what they say now.\<close>

theorem agent_gate_staleness:
  assumes "\<And>t. unique_tenants (db_at t)" and "agent_run db_at w"
    and "fst (getAgentTenantState redis (aw_store w) (aw_now w) (db_at (aw_now w)) orgId amb) = Some s"
  shows "\<exists>t. aw_now w - 60000 < t \<and> t \<le> aw_now w \<and> agent_state_of (db_at t) orgId = Some s
           \<and> ((\<forall>link. redis = Some link \<longrightarrow> \<not> rl_get_ok link) \<longrightarrow> t = aw_now w)"
proof (cases "cachedAgentTenantState redis (aw_store w) (aw_now w) orgId")
  case None
  with assms(3) have "readAgentTenantState (db_at (aw_now w)) orgId amb = Some s"
    by (auto simp: getAgentTenantState_def Let_def split: option.splits)
  then show ?thesis
    by (intro exI [of _ "aw_now w"]) (simp add: readAgentTenantState_eq(1) [OF assms(1)])
next
  case (Some s')
  with assms(3) have "s' = s" by (simp add: getAgentTenantState_def)
  moreover from Some obtain link where "redis = Some link" "rl_get_ok link"
    by (auto simp: cachedAgentTenantState_def split: option.splits if_splits)
  ultimately show ?thesis
    using cached_answer [OF agent_cache_ok_run [OF assms(1,2)]] Some by auto
qed

theorem agent_gate_staleness_witness:
  "agent_state_of sample_db (sample_id CHR ''b'') = Some AgentActive"
proof -
  have u: "unique_tenants sample_db" by code_simp
  have "fst (getAgentTenantState None Map.empty 0 sample_db (sample_id CHR ''b'') None) = Some AgentActive"
    by code_simp
  with agent_gate_staleness [of "\<lambda>_. sample_db" "\<lparr>aw_store = Map.empty, aw_now = 0\<rparr>" None
      "sample_id CHR ''b''" None AgentActive] u agent_run.start [of "\<lambda>_. sample_db" 0]
  show ?thesis by auto
qed

text \<open>Invalidation is effective: after \<open>invalidateAgentTenantCache\<close> wrote to Redis, the next
  check of each listed organization reads the tables again.\<close>

theorem agent_invalidation_effective:
  assumes "unique_tenants d" and "orgId \<in> set orgIds" and "rl_set_ok link"
  shows "fst (getAgentTenantState (Some link) (invalidateAgentTenantCache (Some link) store orgIds) now d orgId amb)
           = agent_state_of d orgId"
  using invalidate_uncached [OF assms(2,3), of store now]
  by (auto simp: getAgentTenantState_def Let_def readAgentTenantState_eq(1) [OF assms(1)] split: option.splits)

theorem agent_invalidation_effective_witness:
  "fst (getAgentTenantState (Some \<lparr>rl_get_ok = True, rl_set_ok = True\<rparr>)
      (invalidateAgentTenantCache (Some \<lparr>rl_get_ok = True, rl_set_ok = True\<rparr>)
         [agentTenantCacheKey (sample_id CHR ''b'') \<mapsto> (''drain'', 9)] [sample_id CHR ''b''])
      0 sample_db (sample_id CHR ''b'') None) = agent_state_of sample_db (sample_id CHR ''b'')"
proof -
  have "unique_tenants sample_db" by code_simp
  then show ?thesis by (rule agent_invalidation_effective) simp_all
qed

end
