(* ===== verification/Effective_Settings.thy ===== *)
theory Effective_Settings
  imports Role_Assignment
begin

text \<open>
  apps/api/src/services/effectiveSettings.ts: the settings of an organization are its own merged
  under those of its partner. A field the partner sets wins and is locked; the organization fills
  the gaps; the AI budget merges defaults, the organization's row and the partner's object in that
  order. \<open>assertNotLocked\<close> guards the organization's writes.

  A settings object is the list of its entries, with distinct keys. The \<open>in\<close> operator also sees the
  properties every object inherits, so their names are listed. \<open>isDeepStrictEqual\<close> compares JSON
  values up to the order of object keys: both sides are normalized by sorting the keys.
\<close>

section \<open>Objects\<close>

definition js_in :: "string \<Rightarrow> (string \<times> json) list \<Rightarrow> bool" where
  "js_in f kvs = (map_of kvs f \<noteq> None \<or> f \<in> set OBJECT_PROTOTYPE_KEYS)"



definition asRecord :: "json option \<Rightarrow> (string \<times> json) list" where
  "asRecord v = (case v of Some (JObj kvs) \<Rightarrow> kvs | _ \<Rightarrow> [])"

section \<open>Merging\<close>

definition SETTING_CATEGORIES :: "string list" where
  "SETTING_CATEGORIES =
     [''security'', ''notifications'', ''eventLogs'', ''defaults'', ''branding'']"

record effective_settings =
  es_effective :: "(string \<times> (string \<times> json) list) list"
  es_locked :: "string list"

definition mergeCategory ::
  "string \<Rightarrow> (string \<times> json) list \<Rightarrow> (string \<times> json) list \<Rightarrow> string list
     \<Rightarrow> (string \<times> json) list \<times> string list" where
  "mergeCategory category partnerCat orgCat locked =
     (let (effective, locked') =
            fold (\<lambda>(field, value) (e, l). (AList.update field value e, l @ [category @ ''.'' @ field]))
              partnerCat ([], locked)
      in (fold (\<lambda>(field, value) e. if js_in field partnerCat then e else AList.update field value e)
            orgCat effective, locked'))"

definition AI_BUDGET_DEFAULTS :: "(string \<times> json) list" where
  "AI_BUDGET_DEFAULTS =
     [(''enabled'', JBool True), (''monthlyBudgetCents'', JNull), (''dailyBudgetCents'', JNull),
      (''maxTurnsPerSession'', JNum 50), (''messagesPerMinutePerUser'', JNum 20),
      (''messagesPerHourPerOrg'', JNum 200), (''approvalMode'', JStr ''per_step'')]"

definition AI_BUDGET_FIELDS :: "string list" where
  "AI_BUDGET_FIELDS =
     [''enabled'', ''monthlyBudgetCents'', ''dailyBudgetCents'', ''maxTurnsPerSession'',
      ''messagesPerMinutePerUser'', ''messagesPerHourPerOrg'', ''approvalMode'']"

text \<open>The organization's row over the defaults, then the partner's object over both.\<close>

definition applyOrgBudgetRow :: "ai_budget_row option \<Rightarrow> (string \<times> json) list \<Rightarrow> (string \<times> json) list" where
  "applyOrgBudgetRow row budget =
     (case row of
        None \<Rightarrow> budget
      | Some r \<Rightarrow>
          fold (\<lambda>field b.
                  case map_of (ab_columns r) field of
                    None \<Rightarrow> b
                  | Some val \<Rightarrow> if val = JNull then b else AList.update field val b)
            AI_BUDGET_FIELDS budget)"

definition applyPartnerBudget ::
  "(string \<times> json) list \<Rightarrow> (string \<times> json) list \<times> string list \<Rightarrow> (string \<times> json) list \<times> string list" where
  "applyPartnerBudget partnerBudget budget =
     fold (\<lambda>field (b, l).
             case map_of partnerBudget field of
               None \<Rightarrow> (b, l)
             | Some val \<Rightarrow> (AList.update field val b, l @ [''aiBudgets.'' @ field]))
       AI_BUDGET_FIELDS budget"

section \<open>Operations\<close>

text \<open>
  The reads the three operations share: the organization under the caller's own context, then its
  partner with system visibility.
\<close>

definition orgForSettings :: "database \<Rightarrow> id \<Rightarrow> org_row option dbm" where
  "orgForSettings d orgId amb =
     find (\<lambda>o'. og_id o' = orgId) (select_organizations (current_gucs amb) d)"

definition partnerForSettings :: "database \<Rightarrow> id \<Rightarrow> partner_row option dbm" where
  "partnerForSettings d partnerId =
     readWithPartnerAxisVisibility
       (\<lambda>amb. find (\<lambda>p. pa_id p = partnerId) (select_partners (current_gucs amb) d))"

definition orgBudgetRow :: "database \<Rightarrow> id \<Rightarrow> ai_budget_row option dbm" where
  "orgBudgetRow d orgId amb =
     find (\<lambda>b. ab_orgId b = orgId) (select_ai_budgets (current_gucs amb) d)"

definition merge_step ::
  "(string \<times> json) list \<Rightarrow> (string \<times> json) list \<Rightarrow> string
     \<Rightarrow> (string \<times> (string \<times> json) list) list \<times> string list
     \<Rightarrow> (string \<times> (string \<times> json) list) list \<times> string list" where
  "merge_step partnerSettings orgSettings category = (\<lambda>(effective, locked).
     let partnerCat = asRecord (map_of partnerSettings category);
         orgCat = asRecord (map_of orgSettings category)
     in if partnerCat \<noteq> [] \<or> orgCat \<noteq> [] then
          (let (merged, locked') = mergeCategory category partnerCat orgCat locked
           in (AList.update category merged effective, locked'))
        else (effective, locked))"

definition mergeCategories ::
  "(string \<times> json) list \<Rightarrow> (string \<times> json) list
     \<Rightarrow> (string \<times> (string \<times> json) list) list \<times> string list" where
  "mergeCategories partnerSettings orgSettings =
     fold (merge_step partnerSettings orgSettings) SETTING_CATEGORIES ([], [])"

definition getEffectiveOrgSettings ::
  "database \<Rightarrow> id \<Rightarrow> (http_exception + effective_settings) dbm" where
  "getEffectiveOrgSettings d orgId amb =
     (case orgForSettings d orgId amb of
        None \<Rightarrow> Inl (HTTPException 404 ''Organization not found'')
      | Some org \<Rightarrow>
          (case partnerForSettings d (og_partnerId org) amb of
             None \<Rightarrow> Inl (HTTPException 404 ''Partner not found'')
           | Some partner \<Rightarrow>
               (let partnerSettings = asRecord (pa_settings partner);
                    orgSettings = asRecord (og_settings org);
                    (effective, locked) = mergeCategories partnerSettings orgSettings;
                    partnerBudget = asRecord (map_of partnerSettings ''aiBudgets'');
                    budget = applyOrgBudgetRow (orgBudgetRow d orgId amb) AI_BUDGET_DEFAULTS;
                    (mergedBudget, locked') = applyPartnerBudget partnerBudget (budget, locked)
                in Inr \<lparr>es_effective = AList.update ''aiBudgets'' mergedBudget effective,
                        es_locked = locked'\<rparr>)))"


definition getEffectiveAiBudget ::
  "database \<Rightarrow> id \<Rightarrow> (http_exception + (string \<times> json) list) dbm" where
  "getEffectiveAiBudget d orgId amb =
     (case orgForSettings d orgId amb of
        None \<Rightarrow> Inl (HTTPException 404 ''Organization not found'')
      | Some org \<Rightarrow>
          (let partner = partnerForSettings d (og_partnerId org) amb;
               result = applyOrgBudgetRow (orgBudgetRow d orgId amb) AI_BUDGET_DEFAULTS
           in case partner of
                None \<Rightarrow> Inl (HTTPException 404 ''Partner not found'')
              | Some p \<Rightarrow>
                  (let partnerBudget = asRecord (map_of (asRecord (pa_settings p)) ''aiBudgets'')
                   in Inr (fold (\<lambda>field b. case map_of partnerBudget field of
                                   None \<Rightarrow> b | Some val \<Rightarrow> AList.update field val b)
                             AI_BUDGET_FIELDS result))))"

section \<open>Specification\<close>

text \<open>What a category of the partner locks, and a field's value in a merge.\<close>

definition cat_locks :: "(string \<times> json) list \<Rightarrow> string \<Rightarrow> string list" where
  "cat_locks ps cat = map (\<lambda>(field, value). cat @ ''.'' @ field) (asRecord (map_of ps cat))"

definition cat_value :: "(string \<times> (string \<times> json) list) list \<Rightarrow> string \<Rightarrow> string \<Rightarrow> json option" where
  "cat_value effective cat f = Option.bind (map_of effective cat) (\<lambda>c. map_of c f)"

text \<open>The sample tenant with settings on both sides.\<close>

definition sample_settings_db :: database where
  "sample_settings_db = sample_db
     \<lparr>partners := map (\<lambda>p. p\<lparr>pa_settings := Some (JObj [(''security'', JObj [(''requireMfa'', JBool True)])])\<rparr>)
        (partners sample_db),
      organizations := map (\<lambda>p. p\<lparr>og_settings := Some (JObj [(''security'',
          JObj [(''requireMfa'', JBool False), (''allowedMethods'', JObj [(''sms'', JBool False)])])])\<rparr>)
        (organizations sample_db)\<rparr>"

section \<open>Lemmas\<close>

text \<open>The value a merge gives a field: the partner's, else the organization's.\<close>

lemma partner_loop:
  "fold (\<lambda>(field, value) (e, l). (AList.update field value e, l @ [category @ ''.'' @ field])) kvs (e, l)
     = (fold (\<lambda>(field, value) e. AList.update field value e) kvs e,
        l @ map (\<lambda>(field, value). category @ ''.'' @ field) kvs)"
  by (induction kvs arbitrary: e l) auto

lemma map_of_fold_update:
  "distinct (map fst kvs)
     \<Longrightarrow> map_of (fold (\<lambda>(field, value) e. if P field then e else AList.update field value e) kvs e) f
         = (case map_of kvs f of None \<Rightarrow> map_of e f | Some v \<Rightarrow> if P f then map_of e f else Some v)"
proof (induction kvs arbitrary: e)
  case (Cons kv kvs)
  obtain k v where kv: "kv = (k, v)" by (cases kv)
  with Cons.prems have k: "map_of kvs k = None" by (auto simp: map_of_eq_None_iff)
  from Cons.IH Cons.prems k show ?case
    by (cases "f = k") (auto simp: kv update_conv split: option.split)
qed simp

lemma mergeCategory_eq:
  "mergeCategory category partnerCat orgCat locked =
     (fold (\<lambda>(field, value) e. if js_in field partnerCat then e else AList.update field value e) orgCat
        (fold (\<lambda>(field, value) e. if False then e else AList.update field value e) partnerCat []),
      locked @ map (\<lambda>(field, value). category @ ''.'' @ field) partnerCat)"
  unfolding mergeCategory_def partner_loop Let_def prod.case if_False ..

lemma mergeCategory_value:
  assumes "distinct (map fst partnerCat)" and "distinct (map fst orgCat)"
  shows "map_of (fst (mergeCategory category partnerCat orgCat locked)) f
           = (case map_of partnerCat f of
                Some v \<Rightarrow> Some v
              | None \<Rightarrow> if f \<in> set OBJECT_PROTOTYPE_KEYS then None else map_of orgCat f)"
  unfolding mergeCategory_eq fst_conv map_of_fold_update [OF assms(1)] map_of_fold_update [OF assms(2)]
  by (simp add: js_in_def split: option.split)

lemma mergeCategory_locked:
  "snd (mergeCategory category partnerCat orgCat locked)
     = locked @ map (\<lambda>(field, value). category @ ''.'' @ field) partnerCat"
  unfolding mergeCategory_eq snd_conv ..

lemma merge_step_eq:
  "merge_step ps os cat (e, l) =
     (if asRecord (map_of ps cat) \<noteq> [] \<or> asRecord (map_of os cat) \<noteq> [] then
        AList.update cat (fst (mergeCategory cat (asRecord (map_of ps cat)) (asRecord (map_of os cat)) l)) e
      else e, l @ cat_locks ps cat)"
  by (simp add: merge_step_def Let_def case_prod_beta mergeCategory_locked cat_locks_def)

lemma merge_steps_locked: "snd (fold (merge_step ps os) cats (e, l)) = l @ concat (map (cat_locks ps) cats)"
  by (induction cats arbitrary: e l) (simp_all add: merge_step_eq)

lemma merge_steps_frame:
  "cat \<notin> set cats \<Longrightarrow> map_of (fst (fold (merge_step ps os) cats (e, l))) cat = map_of e cat"
  by (induction cats arbitrary: e l) (auto simp: merge_step_eq update_conv)

lemma merge_steps_value:
  assumes "distinct cats" and "cat \<in> set cats" and "map_of e cat = None"
    and "distinct (map fst (asRecord (map_of ps cat)))" and "distinct (map fst (asRecord (map_of os cat)))"
  shows "cat_value (fst (fold (merge_step ps os) cats (e, l))) cat f
           = (case map_of (asRecord (map_of ps cat)) f of
                Some v \<Rightarrow> Some v
              | None \<Rightarrow> if f \<in> set OBJECT_PROTOTYPE_KEYS then None else map_of (asRecord (map_of os cat)) f)"
  using assms(1-3)
proof (induction cats arbitrary: e l)
  case (Cons c cats)
  show ?case
  proof (cases "c = cat")
    case True
    with Cons.prems have "cat \<notin> set cats" by simp
    with True Cons.prems(3) show ?thesis
      by (auto simp: merge_step_eq cat_value_def merge_steps_frame update_conv
          mergeCategory_value [OF assms(4,5)] split: option.splits)
  next
    case False
    with Cons.prems Cons.IH show ?thesis by (simp add: merge_step_eq update_conv)
  qed
qed simp

lemma applyPartnerBudget_eq:
  "applyPartnerBudget pb (b, l) =
     (fold (\<lambda>field b. case map_of pb field of None \<Rightarrow> b | Some val \<Rightarrow> AList.update field val b)
        AI_BUDGET_FIELDS b,
      l @ map (\<lambda>f. ''aiBudgets.'' @ f) (filter (\<lambda>f. map_of pb f \<noteq> None) AI_BUDGET_FIELDS))"
proof -
  have "fold (\<lambda>field (b, l). case map_of pb field of None \<Rightarrow> (b, l)
             | Some val \<Rightarrow> (AList.update field val b, l @ [''aiBudgets.'' @ field])) fs (b, l)
     = (fold (\<lambda>field b. case map_of pb field of None \<Rightarrow> b | Some val \<Rightarrow> AList.update field val b) fs b,
        l @ map (\<lambda>f. ''aiBudgets.'' @ f) (filter (\<lambda>f. map_of pb f \<noteq> None) fs))" for fs
    by (induction fs arbitrary: b l) (auto split: option.splits)
  then show ?thesis unfolding applyPartnerBudget_def .
qed

lemma partnerForSettings_eq: "partnerForSettings d pid amb = find (\<lambda>p. pa_id p = pid) (partners d)"
  unfolding partnerForSettings_def by (rule partner_axis_read.run_eq) simp

lemma categories_dotless: "c \<in> set SETTING_CATEGORIES \<Longrightarrow> CHR ''.'' \<notin> set c \<and> c \<noteq> ''aiBudgets''"
  by (auto simp: SETTING_CATEGORIES_def)

lemma distinct_categories: "distinct SETTING_CATEGORIES"
  by (simp add: SETTING_CATEGORIES_def)

lemma effective_unfold:
  assumes "orgForSettings d orgId amb = Some org"
    and "find (\<lambda>p. pa_id p = og_partnerId org) (partners d) = Some partner"
    and "getEffectiveOrgSettings d orgId amb = Inr r"
  shows "es_effective r = AList.update ''aiBudgets''
           (fst (applyPartnerBudget (asRecord (map_of (asRecord (pa_settings partner)) ''aiBudgets''))
             (applyOrgBudgetRow (orgBudgetRow d orgId amb) AI_BUDGET_DEFAULTS, [])))
           (fst (mergeCategories (asRecord (pa_settings partner)) (asRecord (og_settings org))))"
    and "es_locked r = concat (map (cat_locks (asRecord (pa_settings partner))) SETTING_CATEGORIES)
           @ map (\<lambda>f. ''aiBudgets.'' @ f)
               (filter (\<lambda>f. map_of (asRecord (map_of (asRecord (pa_settings partner)) ''aiBudgets'')) f \<noteq> None)
                 AI_BUDGET_FIELDS)"
proof -
  note r = assms(3) [symmetric, unfolded getEffectiveOrgSettings_def assms(1) option.case
    partnerForSettings_eq assms(2) Let_def case_prod_beta applyPartnerBudget_eq fst_conv snd_conv
    sum.inject]
  show "es_effective r = AList.update ''aiBudgets''
           (fst (applyPartnerBudget (asRecord (map_of (asRecord (pa_settings partner)) ''aiBudgets''))
             (applyOrgBudgetRow (orgBudgetRow d orgId amb) AI_BUDGET_DEFAULTS, [])))
           (fst (mergeCategories (asRecord (pa_settings partner)) (asRecord (og_settings org))))"
    unfolding r applyPartnerBudget_eq fst_conv effective_settings.select_convs ..
  show "es_locked r = concat (map (cat_locks (asRecord (pa_settings partner))) SETTING_CATEGORIES)
           @ map (\<lambda>f. ''aiBudgets.'' @ f)
               (filter (\<lambda>f. map_of (asRecord (map_of (asRecord (pa_settings partner)) ''aiBudgets'')) f \<noteq> None)
                 AI_BUDGET_FIELDS)"
    unfolding r effective_settings.select_convs mergeCategories_def merge_steps_locked append_Nil ..
qed

lemma locked_iff:
  assumes "cat \<in> set SETTING_CATEGORIES"
  shows "cat @ ''.'' @ f \<in> set (concat (map (cat_locks ps) SETTING_CATEGORIES)
            @ map (\<lambda>f. ''aiBudgets.'' @ f) fs)
         \<longleftrightarrow> map_of (asRecord (map_of ps cat)) f \<noteq> None"
proof -
  have cat: "cat @ ''.'' @ f = c @ ''.'' @ g \<longleftrightarrow> c = cat \<and> g = f"
    if "c \<in> set SETTING_CATEGORIES" for c g
    using append_sep_inject [of "CHR ''.''" cat c f g] that assms categories_dotless
    unfolding append_Cons append_Nil by blast
  have "CHR ''.'' \<notin> set ''aiBudgets''" by simp
  then have ai: "cat @ ''.'' @ f \<noteq> ''aiBudgets.'' @ g" for g
    using append_sep_inject [of "CHR ''.''" cat "''aiBudgets''" f g] categories_dotless [OF assms]
    unfolding append_Cons append_Nil by blast
  have locks: "set (cat_locks ps c) = (\<lambda>g. c @ ''.'' @ g) ` fst ` set (asRecord (map_of ps c))" for c
    unfolding cat_locks_def set_map image_image case_prod_beta ..
  have "cat @ ''.'' @ f \<in> set (cat_locks ps c) \<longleftrightarrow> c = cat \<and> f \<in> fst ` set (asRecord (map_of ps c))"
    if "c \<in> set SETTING_CATEGORIES" for c
    unfolding locks image_iff [of _ "\<lambda>g. c @ ''.'' @ g"] cat [OF that] by blast
  then have "cat @ ''.'' @ f \<in> set (concat (map (cat_locks ps) SETTING_CATEGORIES))
      \<longleftrightarrow> f \<in> fst ` set (asRecord (map_of ps cat))"
    unfolding set_concat set_map UN_iff bex_simps using assms by blast
  moreover have "map_of (asRecord (map_of ps cat)) f \<noteq> None \<longleftrightarrow> f \<in> fst ` set (asRecord (map_of ps cat))"
    by (metis map_of_eq_None_iff)
  ultimately show ?thesis using ai unfolding set_append Un_iff set_map image_iff by blast
qed

lemma effective_value:
  assumes "orgForSettings d orgId amb = Some org"
    and "find (\<lambda>p. pa_id p = og_partnerId org) (partners d) = Some partner"
    and "getEffectiveOrgSettings d orgId amb = Inr r" and "cat \<in> set SETTING_CATEGORIES"
    and "distinct (map fst (asRecord (map_of (asRecord (pa_settings partner)) cat)))"
    and "distinct (map fst (asRecord (map_of (asRecord (og_settings org)) cat)))"
  shows "cat_value (es_effective r) cat f
           = (case map_of (asRecord (map_of (asRecord (pa_settings partner)) cat)) f of
                Some v \<Rightarrow> Some v
              | None \<Rightarrow> if f \<in> set OBJECT_PROTOTYPE_KEYS then None
                        else map_of (asRecord (map_of (asRecord (og_settings org)) cat)) f)"
    and "cat @ ''.'' @ f \<in> set (es_locked r)
           \<longleftrightarrow> map_of (asRecord (map_of (asRecord (pa_settings partner)) cat)) f \<noteq> None"
proof -
  have "cat_value (es_effective r) cat f
      = cat_value (fst (mergeCategories (asRecord (pa_settings partner)) (asRecord (og_settings org)))) cat f"
    unfolding effective_unfold(1) [OF assms(1-3)] cat_value_def update_conv
    using categories_dotless [OF assms(4)] by simp
  then show "cat_value (es_effective r) cat f
           = (case map_of (asRecord (map_of (asRecord (pa_settings partner)) cat)) f of
                Some v \<Rightarrow> Some v
              | None \<Rightarrow> if f \<in> set OBJECT_PROTOTYPE_KEYS then None
                        else map_of (asRecord (map_of (asRecord (og_settings org)) cat)) f)"
    unfolding mergeCategories_def
      merge_steps_value [OF distinct_categories assms(4) fun_cong [OF map_of.simps(1)] assms(5,6)] .
  show "cat @ ''.'' @ f \<in> set (es_locked r)
           \<longleftrightarrow> map_of (asRecord (map_of (asRecord (pa_settings partner)) cat)) f \<noteq> None"
    unfolding effective_unfold(2) [OF assms(1-3)] by (rule locked_iff [OF assms(4)])
qed




section \<open>Properties\<close>

text \<open>In every settings category the partner wins: a field the partner sets has the partner's
  value in the effective settings and is reported as locked, and only such fields are; any other
  field has the organization's value (names every object inherits excepted). The partner's row is
  read whatever the caller's database context can see of partners.\<close>

theorem partner_settings_win:
  assumes "orgForSettings d orgId amb = Some org"
    and "find (\<lambda>p. pa_id p = og_partnerId org) (partners d) = Some partner"
    and "getEffectiveOrgSettings d orgId amb = Inr r" and "cat \<in> set SETTING_CATEGORIES"
    and "distinct (map fst (asRecord (map_of (asRecord (pa_settings partner)) cat)))"
    and "distinct (map fst (asRecord (map_of (asRecord (og_settings org)) cat)))"
  shows "cat_value (es_effective r) cat f
           = (case map_of (asRecord (map_of (asRecord (pa_settings partner)) cat)) f of
                Some v \<Rightarrow> Some v
              | None \<Rightarrow> if f \<in> set OBJECT_PROTOTYPE_KEYS then None
                        else map_of (asRecord (map_of (asRecord (og_settings org)) cat)) f)
         \<and> (cat @ ''.'' @ f \<in> set (es_locked r)
            \<longleftrightarrow> map_of (asRecord (map_of (asRecord (pa_settings partner)) cat)) f \<noteq> None)"
  using effective_value [OF assms] by blast

theorem partner_settings_win_witness:
  "\<exists>r. getEffectiveOrgSettings sample_settings_db (sample_id CHR ''b'') (Some sample_org_ctx) = Inr r
     \<and> ''security'' @ ''.'' @ ''requireMfa'' \<in> set (es_locked r)"
proof -
  let ?org = "hd (organizations sample_settings_db)" and ?p = "hd (partners sample_settings_db)"
  let ?e = "getEffectiveOrgSettings sample_settings_db (sample_id CHR ''b'') (Some sample_org_ctx)"
  have 1: "orgForSettings sample_settings_db (sample_id CHR ''b'') (Some sample_org_ctx) = Some ?org"
    by code_simp
  have 2: "find (\<lambda>p. pa_id p = og_partnerId ?org) (partners sample_settings_db) = Some ?p" by code_simp
  have 3: "?e = Inr (projr ?e)" by code_simp
  have 4: "''security'' \<in> set SETTING_CATEGORIES" by code_simp
  have 5: "distinct (map fst (asRecord (map_of (asRecord (pa_settings ?p)) ''security'')))" by code_simp
  have 6: "distinct (map fst (asRecord (map_of (asRecord (og_settings ?org)) ''security'')))" by code_simp
  have 7: "map_of (asRecord (map_of (asRecord (pa_settings ?p)) ''security'')) ''requireMfa'' \<noteq> None"
    by code_simp
  from partner_settings_win [OF 1 2 3 4 5 6, of "''requireMfa''"] 3 7 show ?thesis by blast
qed



text \<open>The two computations of an organization's AI budget agree: \<open>getEffectiveAiBudget\<close> returns
  the \<open>aiBudgets\<close> part of the effective settings, and fails with the same error when they fail.\<close>

theorem ai_budget_equivalence:
  "getEffectiveAiBudget d orgId amb =
     (case getEffectiveOrgSettings d orgId amb of
        Inl e \<Rightarrow> Inl e
      | Inr r \<Rightarrow> Inr (the (map_of (es_effective r) ''aiBudgets'')))"
  unfolding getEffectiveAiBudget_def getEffectiveOrgSettings_def Let_def case_prod_beta
    applyPartnerBudget_eq fst_conv snd_conv
  by (simp add: update_conv split: option.split)

end
