(* ===== verification/Mfa_Policy.thy ===== *)
theory Mfa_Policy
  imports Effective_Settings
begin

text \<open>
  apps/api/src/services/mfaPolicy.ts: does a user need a second factor, and which factors may be
  used. The role's \<open>force_mfa\<close> flag, behind an environment switch, is combined with the effective
  \<open>security\<close> settings. The environment switch \<open>mfaForcePartnerAdmin()\<close> and a fault of the settings
  read (a thrown database error) are arguments; a settings object is the JSON value it is.
\<close>

section \<open>Definitions\<close>

record mfa_policy_input =
  mi_scope :: db_scope
  mi_userId :: id
  mi_orgId :: "id option"
  mi_partnerId :: "id option"

record mfa_allowed_methods =
  am_totp :: bool
  am_sms :: bool
  am_passkey :: bool

record effective_mfa_policy =
  mp_required :: bool
  mp_allowedMethods :: mfa_allowed_methods
  mp_roleForceMfa :: bool
  mp_settingsRequireMfa :: bool
  mp_killSwitchOff :: bool

definition methodsFromSettings :: "json option \<Rightarrow> mfa_allowed_methods" where
  "methodsFromSettings security =
     (let am = json_prop security ''allowedMethods''
      in \<lparr>am_totp = (json_prop am ''totp'' \<noteq> Some (JBool False)),
          am_sms = (json_prop am ''sms'' \<noteq> Some (JBool False)),
          am_passkey = True\<rparr>)"

definition combineMfaPolicyFacts ::
  "bool \<Rightarrow> bool \<Rightarrow> json option \<Rightarrow> bool \<Rightarrow> bool \<Rightarrow> effective_mfa_policy" where
  "combineMfaPolicyFacts forceSwitch roleForceMfa security settingsUnavailable failClosed =
     (let killSwitchOff = (\<not> forceSwitch);
          settingsRequireMfa = (json_prop security ''requireMfa'' = Some (JBool True));
          roleForceApplies = (roleForceMfa \<and> \<not> killSwitchOff);
          required = (roleForceApplies \<or> settingsRequireMfa \<or> (settingsUnavailable \<and> failClosed))
      in \<lparr>mp_required = required,
          mp_allowedMethods = methodsFromSettings security,
          mp_roleForceMfa = roleForceMfa,
          mp_settingsRequireMfa = settingsRequireMfa,
          mp_killSwitchOff = killSwitchOff\<rparr>)"

text \<open>The first row of a membership table inner-joined with \<open>roles\<close>.\<close>

definition joinedForceMfa :: "database \<Rightarrow> id list \<Rightarrow> bool dbm" where
  "joinedForceMfa d roleIds amb =
     (case concat (map (\<lambda>i. filter (\<lambda>r. ro_id r = i) (select_roles (current_gucs amb) d)) roleIds) of
        [] \<Rightarrow> False | r # _ \<Rightarrow> ro_forceMfa r)"

definition readRoleForceMfa :: "database \<Rightarrow> mfa_policy_input \<Rightarrow> bool dbm" where
  "readRoleForceMfa d input amb =
     (case (mi_scope input, str_or_none (mi_orgId input), str_or_none (mi_partnerId input)) of
        (OrgScope, Some orgId, _) \<Rightarrow>
          joinedForceMfa d (map ou_roleId
            (filter (\<lambda>u. ou_userId u = mi_userId input \<and> ou_orgId u = orgId)
               (select_organization_users (current_gucs amb) d))) amb
      | (PartnerScope, _, Some partnerId) \<Rightarrow>
          joinedForceMfa d (map pu_roleId
            (filter (\<lambda>u. pu_userId u = mi_userId input \<and> pu_partnerId u = partnerId)
               (select_partner_users (current_gucs amb) d))) amb
      | _ \<Rightarrow> False)"

text \<open>\<open>None\<close> when the read throws.\<close>

definition readSecuritySettings :: "database \<Rightarrow> mfa_policy_input \<Rightarrow> bool \<Rightarrow> json option option dbm" where
  "readSecuritySettings d input fault amb =
     (case (mi_scope input, str_or_none (mi_orgId input), str_or_none (mi_partnerId input)) of
        (OrgScope, Some orgId, _) \<Rightarrow>
          if fault then None
          else (case getEffectiveOrgSettings d orgId amb of
                  Inl _ \<Rightarrow> None
                | Inr r \<Rightarrow> Some (map_option JObj (map_of (es_effective r) ''security'')))
      | (PartnerScope, _, Some partnerId) \<Rightarrow>
          if fault then None
          else (case find (\<lambda>p. pa_id p = partnerId) (select_partners (current_gucs amb) d) of
                  None \<Rightarrow> Some None
                | Some partner \<Rightarrow> Some (json_prop (pa_settings partner) ''security''))
      | _ \<Rightarrow> Some None)"

definition getEffectiveMfaPolicy ::
  "bool \<Rightarrow> database \<Rightarrow> mfa_policy_input \<Rightarrow> bool \<Rightarrow> bool \<Rightarrow> effective_mfa_policy dbm" where
  "getEffectiveMfaPolicy forceSwitch d input failClosed fault amb =
     (if mi_scope input = SystemScope then
        \<lparr>mp_required = False,
         mp_allowedMethods = \<lparr>am_totp = True, am_sms = True, am_passkey = True\<rparr>,
         mp_roleForceMfa = False, mp_settingsRequireMfa = False, mp_killSwitchOff = \<not> forceSwitch\<rparr>
      else
        runOutsideDbContext (withSystemDbAccessContext (\<lambda>sys.
          let roleForceMfa = readRoleForceMfa d input sys
          in case readSecuritySettings d input fault sys of
               None \<Rightarrow> combineMfaPolicyFacts forceSwitch roleForceMfa None True failClosed
             | Some security \<Rightarrow>
                 combineMfaPolicyFacts forceSwitch roleForceMfa security False failClosed)) amb)"

definition sample_mfa_input :: mfa_policy_input where
  "sample_mfa_input = \<lparr>mi_scope = OrgScope, mi_userId = sample_id CHR ''1'',
     mi_orgId = Some (sample_id CHR ''b''), mi_partnerId = None\<rparr>"

section \<open>Lemmas\<close>

lemma required_iff:
  "mp_required (combineMfaPolicyFacts sw rf sec un fc)
     \<longleftrightarrow> (rf \<and> sw) \<or> json_prop sec ''requireMfa'' = Some (JBool True) \<or> (un \<and> fc)"
  by (simp add: combineMfaPolicyFacts_def Let_def)

lemma policy_unfold:
  "mi_scope input \<noteq> SystemScope \<Longrightarrow> getEffectiveMfaPolicy sw d input fc fault amb =
     (case readSecuritySettings d input fault (Some SYSTEM_DB_ACCESS_CONTEXT) of
        None \<Rightarrow> combineMfaPolicyFacts sw (readRoleForceMfa d input (Some SYSTEM_DB_ACCESS_CONTEXT)) None True fc
      | Some sec \<Rightarrow> combineMfaPolicyFacts sw (readRoleForceMfa d input (Some SYSTEM_DB_ACCESS_CONTEXT)) sec False fc)"
  by (simp add: getEffectiveMfaPolicy_def Let_def)

lemma org_system: "orgForSettings d i (Some SYSTEM_DB_ACCESS_CONTEXT) = find (\<lambda>o'. og_id o' = i) (organizations d)"
  by (simp add: orgForSettings_def)

lemma getEffectiveOrgSettings_found:
  assumes "orgForSettings d i amb = Some org"
    and "find (\<lambda>p. pa_id p = og_partnerId org) (partners d) = Some partner"
  shows "\<exists>r. getEffectiveOrgSettings d i amb = Inr r"
  unfolding getEffectiveOrgSettings_def partnerForSettings_eq assms option.case Let_def case_prod_beta
  by blast

section \<open>Properties\<close>

text \<open>An organization cannot escape a second factor its partner requires. For a user of an
  organization whose partner sets \<open>security.requireMfa\<close>, a gate that fails closed always requires
  it: whatever the organization's own settings, the environment switch, the user's role and the
  ambient database context are, and also when the settings cannot be read.\<close>

theorem partner_mfa_inescapable:
  assumes "find (\<lambda>o'. og_id o' = orgId) (organizations d) = Some org"
    and "find (\<lambda>p. pa_id p = og_partnerId org) (partners d) = Some partner"
    and "map_of (asRecord (map_of (asRecord (pa_settings partner)) ''security'')) ''requireMfa''
           = Some (JBool True)"
    and "distinct (map fst (asRecord (map_of (asRecord (pa_settings partner)) ''security'')))"
    and "distinct (map fst (asRecord (map_of (asRecord (og_settings org)) ''security'')))"
    and "mi_scope input = OrgScope" and "mi_orgId input = Some orgId" and "orgId \<noteq> []"
  shows "mp_required (getEffectiveMfaPolicy forceSwitch d input True fault amb)"
proof (cases fault)
  case True
  with assms(6-8) show ?thesis
    by (simp add: policy_unfold readSecuritySettings_def str_or_none_def required_iff)
next
  case False
  have org: "orgForSettings d orgId (Some SYSTEM_DB_ACCESS_CONTEXT) = Some org"
    by (simp add: org_system assms(1))
  obtain r where r: "getEffectiveOrgSettings d orgId (Some SYSTEM_DB_ACCESS_CONTEXT) = Inr r"
    using getEffectiveOrgSettings_found [OF org assms(2)] by blast
  have "''security'' \<in> set SETTING_CATEGORIES" by (simp add: SETTING_CATEGORIES_def)
  from effective_value(1) [OF org assms(2) r this assms(4,5), of "''requireMfa''"] assms(3)
  have "cat_value (es_effective r) ''security'' ''requireMfa'' = Some (JBool True)" by simp
  then obtain c where "map_of (es_effective r) ''security'' = Some c"
      "map_of c ''requireMfa'' = Some (JBool True)"
    by (auto simp: cat_value_def bind_eq_Some_conv)
  with False r assms(6-8) show ?thesis
    by (simp add: policy_unfold readSecuritySettings_def str_or_none_def required_iff json_prop_def)
qed

theorem partner_mfa_inescapable_witness:
  "mp_required (getEffectiveMfaPolicy False sample_settings_db sample_mfa_input True False (Some sample_org_ctx))
   \<and> mp_required (getEffectiveMfaPolicy False sample_settings_db sample_mfa_input True True (Some sample_org_ctx))"
proof -
  let ?org = "hd (organizations sample_settings_db)" and ?p = "hd (partners sample_settings_db)"
  have 1: "find (\<lambda>o'. og_id o' = sample_id CHR ''b'') (organizations sample_settings_db) = Some ?org"
    by code_simp
  have 2: "find (\<lambda>p. pa_id p = og_partnerId ?org) (partners sample_settings_db) = Some ?p" by code_simp
  have 3: "map_of (asRecord (map_of (asRecord (pa_settings ?p)) ''security'')) ''requireMfa'' = Some (JBool True)"
    by code_simp
  have 4: "distinct (map fst (asRecord (map_of (asRecord (pa_settings ?p)) ''security'')))" by code_simp
  have 5: "distinct (map fst (asRecord (map_of (asRecord (og_settings ?org)) ''security'')))" by code_simp
  have 6: "mi_scope sample_mfa_input = OrgScope" "mi_orgId sample_mfa_input = Some (sample_id CHR ''b'')"
    "sample_id CHR ''b'' \<noteq> []" by code_simp+
  from partner_mfa_inescapable [OF 1 2 3 4 5 6] show ?thesis by blast
qed

text \<open>A fault of the settings read never relaxes a control gate: whenever the policy requires a
  second factor with readable settings, it does so when the read throws, provided the caller asks
  to fail closed; a caller that fails open is left with the role's requirement alone, and every
  factor allowed.\<close>

theorem mfa_fault_disposition:
  assumes "mi_scope input \<noteq> SystemScope"
  shows "(mp_required (getEffectiveMfaPolicy sw d input fc False amb)
           \<longrightarrow> mp_required (getEffectiveMfaPolicy sw d input True True amb))
         \<and> (readSecuritySettings d input True (Some SYSTEM_DB_ACCESS_CONTEXT) = None
           \<longrightarrow> mp_required (getEffectiveMfaPolicy sw d input False True amb)
                = (readRoleForceMfa d input (Some SYSTEM_DB_ACCESS_CONTEXT) \<and> sw)
             \<and> mp_allowedMethods (getEffectiveMfaPolicy sw d input False True amb)
                = \<lparr>am_totp = True, am_sms = True, am_passkey = True\<rparr>)"
proof (cases "readSecuritySettings d input True (Some SYSTEM_DB_ACCESS_CONTEXT)")
  case None
  with assms show ?thesis
    by (simp add: policy_unfold required_iff combineMfaPolicyFacts_def methodsFromSettings_def
        json_prop_def Let_def)
next
  case (Some sec)
  then have "readSecuritySettings d input False (Some SYSTEM_DB_ACCESS_CONTEXT) = Some sec"
    by (auto simp: readSecuritySettings_def split: db_scope.splits option.splits)
  with Some assms show ?thesis by (simp add: policy_unfold required_iff)
qed

theorem mfa_fault_disposition_witness:
  "mp_required (getEffectiveMfaPolicy True sample_settings_db sample_mfa_input False False None)
   \<and> mp_required (getEffectiveMfaPolicy True sample_settings_db sample_mfa_input True True None)"
proof -
  have "mi_scope sample_mfa_input \<noteq> SystemScope" by code_simp
  moreover have "mp_required (getEffectiveMfaPolicy True sample_settings_db sample_mfa_input False False None)"
    by code_simp
  ultimately show ?thesis using mfa_fault_disposition by blast
qed

end
