(* ===== verification/Pam_Bridge.thy ===== *)
theory Pam_Bridge
  imports Db_Context
begin

text \<open>
  apps/api/src/services/pamBridge.ts: the look-up that decides, for an executable a user tries to
  launch elevated, whether the device's software policy allows or blocks it. The path criterion is
  a glob matched by a bottom-up dynamic program over the tokens of the glob; it is modelled array
  by array and compared with the declarative meaning of a glob.

  The winning policy of a device is chosen by the configuration-policy resolver, which is an
  argument here, as are the software-policy rows the request's context can see.
\<close>

section \<open>Data\<close>

datatype matched_field = HashField | SignerField | PublisherField | PathField

datatype policy_mode = Allowlist | Blocklist | AuditMode

record pam_bridge_input =
  bi_targetExecutablePath :: string
  bi_targetExecutableHash :: "string option"
  bi_targetExecutableSigner :: "string option"
  bi_targetPublisher :: "string option"

record executable_rule =
  er_name :: string
  er_sha256 :: "string option"
  er_signer :: "string option"
  er_publisher :: "string option"
  er_pathGlob :: "string option"

record loaded_policy =
  lp_id :: id
  lp_mode :: policy_mode
  lp_priority :: int
  lp_executable :: "executable_rule option list option"

record bridge_hit =
  bh_policy :: loaded_policy
  bh_ruleIndex :: nat
  bh_rule :: executable_rule
  bh_field :: matched_field

record audit_match =
  at_policyId :: id
  at_ruleName :: string
  at_matchedField :: matched_field

record bridge_binding =
  bb_policyId :: id
  bb_ruleIndex :: nat
  bb_ruleName :: string
  bb_matchedField :: matched_field

record bridge_verdict =
  bv_match :: "policy_mode option"
  bv_binding :: "bridge_binding option"
  bv_auditMatches :: "audit_match list"

section \<open>The glob matcher\<close>

definition glob_norm :: "string \<Rightarrow> string" where
  "glob_norm s = toLowerCase (map (\<lambda>c. if of_char c = (92 :: nat) then CHR ''/'' else c) s)"

datatype glob_tok = Star bool | Lit char

function glob_tokens :: "string \<Rightarrow> glob_tok list" where
  "glob_tokens [] = []"
| "glob_tokens (c # cs) =
     (if c = CHR ''*'' then
        Star (2 \<le> length (takeWhile (\<lambda>x. x = CHR ''*'') (c # cs)))
          # glob_tokens (dropWhile (\<lambda>x. x = CHR ''*'') (c # cs))
      else Lit c # glob_tokens cs)"
  by pat_completeness auto
termination
  by (relation "measure length") (auto simp: le_imp_less_Suc length_dropWhile_le)

text \<open>One token of the program: the array of the remaining tokens gives the next one.\<close>

definition star_row :: "string \<Rightarrow> bool \<Rightarrow> bool list \<Rightarrow> bool list" where
  "star_row t crossesSlash dp =
     (let tn = length t
      in fold (\<lambda>ti nxt.
                 let v = dp ! ti;
                     v = (if \<not> v \<and> ti < tn \<and> (crossesSlash \<or> t ! ti \<noteq> CHR ''/'')
                          then nxt ! (ti + 1) else v)
                 in nxt[ti := v])
           (rev [0..<tn + 1]) (replicate (tn + 1) False))"

definition lit_row :: "string \<Rightarrow> char \<Rightarrow> bool list \<Rightarrow> bool list" where
  "lit_row t ch dp =
     (let tn = length t
      in fold (\<lambda>ti nxt. nxt[ti := (ch = t ! ti \<and> dp ! (ti + 1))]) [0..<tn] (replicate (tn + 1) False))"

fun tok_row :: "string \<Rightarrow> glob_tok \<Rightarrow> bool list \<Rightarrow> bool list" where
  "tok_row t (Star crossesSlash) dp = star_row t crossesSlash dp"
| "tok_row t (Lit ch) dp = lit_row t ch dp"

definition matchPathGlob :: "string \<Rightarrow> string \<Rightarrow> bool" where
  "matchPathGlob glob path =
     (let g = glob_norm glob;
          t = glob_norm path;
          toks = glob_tokens g;
          tn = length t;
          dp = (replicate (tn + 1) False)[tn := True]
      in (fold (tok_row t) (rev toks) dp) ! 0)"

section \<open>Rules and verdicts\<close>

definition both_truthy :: "string option \<Rightarrow> string option \<Rightarrow> (string \<Rightarrow> string \<Rightarrow> bool) \<Rightarrow> bool" where
  "both_truthy a b P =
     (case (str_or_none a, str_or_none b) of (Some x, Some y) \<Rightarrow> P x y | _ \<Rightarrow> False)"

definition matchRule :: "pam_bridge_input \<Rightarrow> executable_rule \<Rightarrow> matched_field option" where
  "matchRule input rule =
     (if both_truthy (er_sha256 rule) (bi_targetExecutableHash input)
           (\<lambda>r i. toLowerCase r = toLowerCase i) then Some HashField
      else if both_truthy (er_signer rule) (bi_targetExecutableSigner input)
           (\<lambda>r i. toLowerCase (trim r) = toLowerCase (trim i)) then Some SignerField
      else if both_truthy (er_publisher rule) (bi_targetPublisher input)
           (\<lambda>r i. toLowerCase (trim r) = toLowerCase (trim i)) then Some PublisherField
      else if both_truthy (er_pathGlob rule) (Some (bi_targetExecutablePath input)) matchPathGlob
        then Some PathField
      else None)"

fun FIELD_PRECEDENCE :: "matched_field \<Rightarrow> nat" where
  "FIELD_PRECEDENCE HashField = 0"
| "FIELD_PRECEDENCE SignerField = 1"
| "FIELD_PRECEDENCE PublisherField = 2"
| "FIELD_PRECEDENCE PathField = 3"

definition stronger_hit :: "bridge_hit \<Rightarrow> bridge_hit \<Rightarrow> bool" where
  "stronger_hit candidate best =
     (FIELD_PRECEDENCE (bh_field candidate) < FIELD_PRECEDENCE (bh_field best)
      \<or> (FIELD_PRECEDENCE (bh_field candidate) = FIELD_PRECEDENCE (bh_field best)
         \<and> lp_priority (bh_policy candidate) > lp_priority (bh_policy best)))"

fun pickStrongestHit :: "bridge_hit list \<Rightarrow> bridge_hit option" where
  "pickStrongestHit [] = None"
| "pickStrongestHit (h # hs) =
     Some (fold (\<lambda>candidate best. if stronger_hit candidate best then candidate else best) hs h)"

fun rule_hits ::
  "pam_bridge_input \<Rightarrow> loaded_policy \<Rightarrow> nat \<Rightarrow> executable_rule option list \<Rightarrow> bridge_hit list" where
  "rule_hits input policy i [] = []"
| "rule_hits input policy i (r # rs) =
     (case Option.bind r (matchRule input) of
        None \<Rightarrow> rule_hits input policy (i + 1) rs
      | Some field \<Rightarrow>
          \<lparr>bh_policy = policy, bh_ruleIndex = i, bh_rule = the r, bh_field = field\<rparr>
            # rule_hits input policy (i + 1) rs)"

definition policy_hits :: "pam_bridge_input \<Rightarrow> loaded_policy \<Rightarrow> bridge_hit list" where
  "policy_hits input policy =
     rule_hits input policy 0 (case lp_executable policy of None \<Rightarrow> [] | Some rs \<Rightarrow> rs)"

definition hits_in_mode :: "pam_bridge_input \<Rightarrow> loaded_policy list \<Rightarrow> policy_mode \<Rightarrow> bridge_hit list" where
  "hits_in_mode input policies mode =
     filter (\<lambda>h. lp_mode (bh_policy h) = mode) (concat (map (policy_hits input) policies))"

definition matchPoliciesAgainst :: "pam_bridge_input \<Rightarrow> loaded_policy list \<Rightarrow> bridge_verdict" where
  "matchPoliciesAgainst input policies =
     (let allowHits = hits_in_mode input policies Allowlist;
          blockHits = hits_in_mode input policies Blocklist;
          auditHits = hits_in_mode input policies AuditMode;
          auditMatches = map (\<lambda>h. \<lparr>at_policyId = lp_id (bh_policy h), at_ruleName = er_name (bh_rule h),
                                   at_matchedField = bh_field h\<rparr>) auditHits
      in case nullish (pickStrongestHit blockHits) (pickStrongestHit allowHits) of
           None \<Rightarrow> \<lparr>bv_match = None, bv_binding = None, bv_auditMatches = auditMatches\<rparr>
         | Some b \<Rightarrow>
             \<lparr>bv_match = Some (if lp_mode (bh_policy b) = Blocklist then Blocklist else Allowlist),
              bv_binding = Some \<lparr>bb_policyId = lp_id (bh_policy b), bb_ruleIndex = bh_ruleIndex b,
                                 bb_ruleName = er_name (bh_rule b), bb_matchedField = bh_field b\<rparr>,
              bv_auditMatches = auditMatches\<rparr>)"

record software_policy_row =
  sp_policy :: loaded_policy
  sp_isActive :: bool

definition loadActivePoliciesForDevice ::
  "id option \<Rightarrow> software_policy_row list \<Rightarrow> loaded_policy list" where
  "loadActivePoliciesForDevice winningPolicyId rows =
     (case str_or_none winningPolicyId of
        None \<Rightarrow> []
      | Some i \<Rightarrow>
          (case find (\<lambda>r. lp_id (sp_policy r) = i) rows of
             None \<Rightarrow> []
           | Some row \<Rightarrow> if sp_isActive row then [sp_policy row] else []))"

definition evaluatePamBridge ::
  "(id option) dbm \<Rightarrow> (software_policy_row list) dbm \<Rightarrow> pam_bridge_input
     \<Rightarrow> (string + bridge_verdict) dbm" where
  "evaluatePamBridge resolve rows input amb =
     (if \<not> hasDbAccessContext amb then
        Inl ''evaluatePamBridge: no active DB access context. Wrap the call in withDbAccessContext (request path) or evaluatePamBridgeWithContext / withSystemDbAccessContext (background path).''
      else Inr (matchPoliciesAgainst input (loadActivePoliciesForDevice (resolve amb) (rows amb))))"

definition evaluatePamBridgeWithContext ::
  "db_access_context \<Rightarrow> (id option) dbm \<Rightarrow> (software_policy_row list) dbm \<Rightarrow> pam_bridge_input
     \<Rightarrow> (string + bridge_verdict) dbm" where
  "evaluatePamBridgeWithContext context resolve rows input =
     withDbAccessContext context (evaluatePamBridge resolve rows input)"

section \<open>Specification\<close>

inductive glob_matches :: "glob_tok list \<Rightarrow> string \<Rightarrow> bool" where
  empty: "glob_matches [] []"
| lit: "glob_matches ts s \<Longrightarrow> glob_matches (Lit c # ts) (c # s)"
| star: "glob_matches ts s \<Longrightarrow> crosses \<or> CHR ''/'' \<notin> set u \<Longrightarrow> glob_matches (Star crosses # ts) (u @ s)"

inductive_simps glob_matches_Nil: "glob_matches [] s"
inductive_simps glob_matches_Lit: "glob_matches (Lit c # ts) s"
inductive_simps glob_matches_Star: "glob_matches (Star b # ts) s"

text \<open>
  The meaning of a glob on its own text: a lone star matches any text without a separator, a run of
  two or more stars any text, every other character itself.
\<close>

definition star_free_start :: "string \<Rightarrow> bool" where
  "star_free_start g = (case g of [] \<Rightarrow> True | c # _ \<Rightarrow> c \<noteq> CHR ''*'')"

inductive path_glob :: "string \<Rightarrow> string \<Rightarrow> bool" where
  glob_end: "path_glob [] []"
| glob_char: "path_glob g s \<Longrightarrow> c \<noteq> CHR ''*'' \<Longrightarrow> path_glob (c # g) (c # s)"
| glob_star: "path_glob g s \<Longrightarrow> star_free_start g \<Longrightarrow> CHR ''/'' \<notin> set u \<Longrightarrow>
    path_glob (''*'' @ g) (u @ s)"
| glob_stars: "path_glob g s \<Longrightarrow> star_free_start g \<Longrightarrow> 2 \<le> n \<Longrightarrow>
    path_glob (replicate n CHR ''*'' @ g) (u @ s)"

text \<open>All hits of a list of policies, by mode.\<close>

definition policy_matches :: "pam_bridge_input \<Rightarrow> loaded_policy \<Rightarrow> bool" where
  "policy_matches input policy =
     (\<exists>rs r. lp_executable policy = Some rs \<and> Some r \<in> set rs \<and> matchRule input r \<noteq> None)"

definition sample_policy :: "policy_mode \<Rightarrow> string \<Rightarrow> loaded_policy" where
  "sample_policy mode glob =
     \<lparr>lp_id = ''policy'', lp_mode = mode, lp_priority = 50, lp_executable = Some [None, Some
        \<lparr>er_name = ''tools'', er_sha256 = None, er_signer = None, er_publisher = None,
         er_pathGlob = Some glob\<rparr>]\<rparr>"

definition sample_bridge_input :: pam_bridge_input where
  "sample_bridge_input =
     \<lparr>bi_targetExecutablePath = ''c:/x'', bi_targetExecutableHash = None,
      bi_targetExecutableSigner = None, bi_targetPublisher = None\<rparr>"

section \<open>The dynamic program decides the relation\<close>

definition row_ok :: "string \<Rightarrow> glob_tok list \<Rightarrow> bool list \<Rightarrow> bool" where
  "row_ok t toks dp =
     (length dp = length t + 1 \<and> (\<forall>ti \<le> length t. dp ! ti = glob_matches toks (drop ti t)))"

lemma star_unfold:
  "glob_matches (Star b # ts) s \<longleftrightarrow> glob_matches ts s
     \<or> (\<exists>x s'. s = x # s' \<and> (b \<or> x \<noteq> CHR ''/'') \<and> glob_matches (Star b # ts) s')"
proof
  assume "glob_matches (Star b # ts) s"
  then obtain u s0 where s: "s = u @ s0" "glob_matches ts s0" "b \<or> CHR ''/'' \<notin> set u"
    by (auto simp: glob_matches_Star)
  then show "glob_matches ts s \<or> (\<exists>x s'. s = x # s' \<and> (b \<or> x \<noteq> CHR ''/'') \<and> glob_matches (Star b # ts) s')"
    by (cases u) (auto intro: glob_matches.star)
next
  assume "glob_matches ts s \<or> (\<exists>x s'. s = x # s' \<and> (b \<or> x \<noteq> CHR ''/'') \<and> glob_matches (Star b # ts) s')"
  then show "glob_matches (Star b # ts) s"
  proof
    assume "glob_matches ts s"
    from glob_matches.star [OF this, of b "[]"] show ?thesis by simp
  next
    assume "\<exists>x s'. s = x # s' \<and> (b \<or> x \<noteq> CHR ''/'') \<and> glob_matches (Star b # ts) s'"
    then obtain x u s0 where "s = x # u @ s0" "b \<or> x \<noteq> CHR ''/''" "glob_matches ts s0"
        "b \<or> CHR ''/'' \<notin> set u"
      by (auto simp: glob_matches_Star)
    with glob_matches.star [of ts s0 b "x # u"] show ?thesis by auto
  qed
qed

lemma row_ok_empty: "row_ok t [] ((replicate (length t + 1) False)[length t := True])"
  by (auto simp: row_ok_def glob_matches_Nil nth_list_update simp del: replicate_Suc)

lemma row_ok_lit:
  assumes "row_ok t ts dp"
  shows "row_ok t (Lit c # ts) (lit_row t c dp)"
proof -
  let ?f = "\<lambda>ti nxt. nxt[ti := (c = t ! ti \<and> dp ! (ti + 1))]"
  have "length (fold ?f [0..<k] (replicate (length t + 1) False)) = length t + 1
      \<and> (\<forall>ti \<le> length t. fold ?f [0..<k] (replicate (length t + 1) False) ! ti
            = (ti < k \<and> c = t ! ti \<and> dp ! (ti + 1)))" if "k \<le> length t" for k
    using that by (induction k) (auto simp: nth_list_update simp del: replicate_Suc)
  from this [of "length t"] have
    "length (lit_row t c dp) = length t + 1"
    "\<And>ti. ti \<le> length t \<Longrightarrow> lit_row t c dp ! ti = (ti < length t \<and> c = t ! ti \<and> dp ! (ti + 1))"
    by (simp_all add: lit_row_def Let_def)
  moreover have "glob_matches (Lit c # ts) (drop ti t)
      \<longleftrightarrow> ti < length t \<and> c = t ! ti \<and> glob_matches ts (drop (ti + 1) t)" if "ti \<le> length t" for ti
    using that by (cases "ti < length t") (auto simp: glob_matches_Lit Cons_nth_drop_Suc [symmetric])
  ultimately show ?thesis using assms by (auto simp: row_ok_def)
qed

lemma row_ok_star:
  assumes "row_ok t ts dp"
  shows "row_ok t (Star b # ts) (star_row t b dp)"
proof -
  let ?tn = "length t"
  define f where "f = (\<lambda>ti (nxt :: bool list). let v = dp ! ti;
                     v = (if \<not> v \<and> ti < ?tn \<and> (b \<or> t ! ti \<noteq> CHR ''/'') then nxt ! (ti + 1) else v)
                 in nxt[ti := v])"
  define A where "A k = foldr f [k..<?tn + 1] (replicate (?tn + 1) False)" for k
  have A_step: "A k = f k (A (Suc k))" if "k < ?tn + 1" for k
    unfolding A_def upt_conv_Cons [OF that] foldr.simps o_apply ..
  have A_end: "length (A (?tn + 1)) = ?tn + 1" unfolding A_def by (simp del: replicate_Suc)
  have "length (A k) = ?tn + 1
      \<and> (\<forall>ti. k \<le> ti \<longrightarrow> ti \<le> ?tn \<longrightarrow> A k ! ti = glob_matches (Star b # ts) (drop ti t))"
    if "k \<le> ?tn + 1" for k
    using that
  proof (induction rule: inc_induct)
    case base
    show ?case using A_end by simp
  next
    case (step k)
    note A = A_step [OF step.hyps(2), unfolded f_def Let_def]
    have here: "A k ! k = glob_matches (Star b # ts) (drop k t)"
    proof (cases "k < ?tn")
      case True
      then have "drop k t = t ! k # drop (Suc k) t" by (simp add: Cons_nth_drop_Suc)
      with True step.IH assms show ?thesis
        by (subst star_unfold) (auto simp: A row_ok_def)
    next
      case False
      with step.IH step.hyps have "A k ! k = dp ! k" by (simp add: A)
      moreover from False step.hyps have "k = ?tn" by simp
      ultimately show ?thesis using assms by (subst star_unfold) (auto simp: row_ok_def)
    qed
    have "A k ! ti = glob_matches (Star b # ts) (drop ti t)" if "k \<le> ti" "ti \<le> ?tn" for ti
      using here that step.IH by (cases "ti = k") (simp_all add: A)
    with step.IH show ?case by (simp add: A)
  qed
  from this [of 0] have "row_ok t (Star b # ts) (A 0)" by (simp add: row_ok_def)
  moreover have "star_row t b dp = A 0"
    unfolding star_row_def Let_def A_def f_def foldr_conv_fold ..
  ultimately show ?thesis by simp
qed

lemma row_ok_fold: "row_ok t toks (foldr (tok_row t) toks ((replicate (length t + 1) False)[length t := True]))"
proof (induction toks)
  case Nil
  show ?case using row_ok_empty by simp
next
  case (Cons tok toks)
  then show ?case by (cases tok) (auto intro: row_ok_star row_ok_lit)
qed

lemma matchPathGlob_iff: "matchPathGlob g p \<longleftrightarrow> glob_matches (glob_tokens (glob_norm g)) (glob_norm p)"
  using row_ok_fold [of "glob_norm p" "glob_tokens (glob_norm g)"]
  by (simp add: matchPathGlob_def Let_def row_ok_def foldr_conv_fold del: replicate_Suc)

lemma tokens_of_stars:
  assumes "0 < n" and "star_free_start g"
  shows "glob_tokens (replicate n CHR ''*'' @ g) = Star (2 \<le> n) # glob_tokens g"
proof -
  let ?st = "\<lambda>x. x = CHR ''*''"
  from assms(2) have g: "takeWhile ?st g = []" "dropWhile ?st g = g"
    by (cases g; simp add: star_free_start_def)+
  have "takeWhile ?st (replicate n CHR ''*'' @ g) = replicate n CHR ''*''"
    "dropWhile ?st (replicate n CHR ''*'' @ g) = g"
    using g by (induction n) auto
  with assms(1) show ?thesis by (cases n) simp_all
qed

lemma glob_split_stars:
  "\<exists>n g. CHR ''*'' # cs = replicate n CHR ''*'' @ g \<and> 0 < n \<and> star_free_start g
     \<and> glob_tokens (CHR ''*'' # cs) = Star (2 \<le> n) # glob_tokens g"
proof -
  let ?st = "\<lambda>x. x = CHR ''*''"
  let ?n = "length (takeWhile ?st (CHR ''*'' # cs))" and ?g = "dropWhile ?st (CHR ''*'' # cs)"
  have "takeWhile ?st xs = replicate (length (takeWhile ?st xs)) CHR ''*''" for xs
    by (induction xs) auto
  then have split: "CHR ''*'' # cs = replicate ?n CHR ''*'' @ ?g"
    by (metis takeWhile_dropWhile_id)
  have "star_free_start (dropWhile ?st xs)" for xs
    by (induction xs) (auto simp: star_free_start_def)
  moreover have "0 < ?n" by simp
  ultimately show ?thesis using split tokens_of_stars by metis
qed

lemma tokens_iff_path_glob: "glob_matches (glob_tokens g) s \<longleftrightarrow> path_glob g s"
proof
  assume "path_glob g s"
  then show "glob_matches (glob_tokens g) s"
  proof (induction rule: path_glob.induct)
    case (glob_star g s u)
    then show ?case using tokens_of_stars [of 1 g] by (auto intro: glob_matches.star)
  next
    case (glob_stars g s n u)
    then show ?case using tokens_of_stars [of n g] by (auto intro: glob_matches.star)
  qed (auto intro: glob_matches.intros)
next
  show "glob_matches (glob_tokens g) s \<Longrightarrow> path_glob g s"
  proof (induction "length g" arbitrary: g s rule: less_induct)
    case less
    show ?case
    proof (cases g)
      case Nil
      with less.prems show ?thesis by (simp add: glob_matches_Nil glob_end)
    next
      case (Cons c cs)
      show ?thesis
      proof (cases "c = CHR ''*''")
        case True
        obtain n g' where g: "g = replicate n CHR ''*'' @ g'" "0 < n"
          "star_free_start g'" "glob_tokens g = Star (2 \<le> n) # glob_tokens g'"
          using glob_split_stars [of cs] unfolding Cons True by blast
        from less.prems g(4) obtain u s' where s: "s = u @ s'" "glob_matches (glob_tokens g') s'"
          "2 \<le> n \<or> CHR ''/'' \<notin> set u" by (auto simp: glob_matches_Star)
        from less.hyps [OF _ s(2)] g(1,2) have "path_glob g' s'" by simp
        then show ?thesis
        proof (cases "2 \<le> n")
          case False
          with g(2) have "n = 1" by simp
          with \<open>path_glob g' s'\<close> g s False show ?thesis using glob_star [of g' s' u] by simp
        qed (use g s in \<open>auto intro: glob_stars\<close>)
      next
        case False
        with Cons less show ?thesis by (auto simp: glob_matches_Lit intro: glob_char)
      qed
    qed
  qed
qed

section \<open>The strongest hit\<close>

lemma not_stronger_trans: "\<not> stronger_hit a b \<Longrightarrow> \<not> stronger_hit b c \<Longrightarrow> \<not> stronger_hit a c"
  by (auto simp: stronger_hit_def)

lemma stronger_asym: "stronger_hit a b \<Longrightarrow> \<not> stronger_hit b a"
  by (auto simp: stronger_hit_def)

lemma pickStrongestHit_Some:
  "pickStrongestHit hs = Some h \<Longrightarrow> h \<in> set hs \<and> (\<forall>x \<in> set hs. \<not> stronger_hit x h)"
proof (cases hs)
  case (Cons x xs)
  let ?pick = "fold (\<lambda>candidate best. if stronger_hit candidate best then candidate else best)"
  have "?pick xs x \<in> set (x # xs) \<and> (\<forall>y \<in> set (x # xs). \<not> stronger_hit y (?pick xs x))"
  proof (induction xs arbitrary: x)
    case Nil
    show ?case by (simp add: stronger_hit_def)
  next
    case (Cons y ys)
    show ?case
    proof (cases "stronger_hit y x")
      case True
      then have "\<not> stronger_hit x y" by (rule stronger_asym)
      with True Cons [of y] show ?thesis by (auto dest: not_stronger_trans)
    next
      case False
      with Cons [of x] show ?thesis by (auto dest: not_stronger_trans)
    qed
  qed
  moreover assume "pickStrongestHit hs = Some h"
  ultimately show ?thesis using Cons by simp
qed simp

lemma pickStrongestHit_None: "pickStrongestHit hs = None \<longleftrightarrow> hs = []"
  by (cases hs) simp_all

lemma rule_hits_iff:
  "h \<in> set (rule_hits input policy i rs)
     \<longleftrightarrow> (\<exists>j r field. j < length rs \<and> rs ! j = Some r \<and> matchRule input r = Some field
           \<and> h = \<lparr>bh_policy = policy, bh_ruleIndex = i + j, bh_rule = r, bh_field = field\<rparr>)"
    (is "_ \<longleftrightarrow> ?R i rs")
proof (induction rs arbitrary: i)
  case (Cons r rs)
  have "?R i (r # rs) \<longleftrightarrow> (\<exists>x field. r = Some x \<and> matchRule input x = Some field
      \<and> h = \<lparr>bh_policy = policy, bh_ruleIndex = i, bh_rule = x, bh_field = field\<rparr>) \<or> ?R (i + 1) rs"
    (is "?L \<longleftrightarrow> ?H \<or> ?T")
  proof
    assume ?L
    then obtain j x field where j: "j < length (r # rs)" "(r # rs) ! j = Some x"
      "matchRule input x = Some field"
      "h = \<lparr>bh_policy = policy, bh_ruleIndex = i + j, bh_rule = x, bh_field = field\<rparr>" by blast
    then show "?H \<or> ?T" by (cases j) auto
  next
    assume "?H \<or> ?T"
    then show ?L
    proof
      assume ?H
      then show ?L by (intro exI [of _ 0]) auto
    next
      assume ?T
      then obtain j x field where "j < length rs" "rs ! j = Some x" "matchRule input x = Some field"
        "h = \<lparr>bh_policy = policy, bh_ruleIndex = i + 1 + j, bh_rule = x, bh_field = field\<rparr>" by blast
      then show ?L by (intro exI [of _ "Suc j"]) auto
    qed
  qed
  moreover have "h \<in> set (rule_hits input policy i (r # rs))
      \<longleftrightarrow> ?H \<or> h \<in> set (rule_hits input policy (i + 1) rs)"
    by (cases r; cases "matchRule input (the r)") auto
  ultimately show ?case unfolding Cons by blast
qed simp

lemma hits_in_mode_iff:
  "h \<in> set (hits_in_mode input policies mode)
     \<longleftrightarrow> bh_policy h \<in> set policies \<and> lp_mode (bh_policy h) = mode
       \<and> (\<exists>rs. lp_executable (bh_policy h) = Some rs \<and> bh_ruleIndex h < length rs
            \<and> rs ! bh_ruleIndex h = Some (bh_rule h) \<and> matchRule input (bh_rule h) = Some (bh_field h))"
  by (cases h) (auto simp: hits_in_mode_def policy_hits_def rule_hits_iff split: option.splits)

lemma hits_in_mode_empty:
  "hits_in_mode input policies mode = []
     \<longleftrightarrow> (\<forall>p \<in> set policies. lp_mode p = mode \<longrightarrow> \<not> policy_matches input p)"
proof -
  have "(\<exists>h. h \<in> set (hits_in_mode input policies mode))
      \<longleftrightarrow> (\<exists>p \<in> set policies. lp_mode p = mode \<and> policy_matches input p)"
  proof
    assume "\<exists>h. h \<in> set (hits_in_mode input policies mode)"
    then show "\<exists>p \<in> set policies. lp_mode p = mode \<and> policy_matches input p"
      unfolding hits_in_mode_iff policy_matches_def by (metis nth_mem option.discI)
  next
    assume "\<exists>p \<in> set policies. lp_mode p = mode \<and> policy_matches input p"
    then obtain p rs r field where "p \<in> set policies" "lp_mode p = mode" "lp_executable p = Some rs"
      "Some r \<in> set rs" "matchRule input r = Some field" by (auto simp: policy_matches_def)
    moreover from this obtain j where "j < length rs" "rs ! j = Some r" by (auto simp: in_set_conv_nth)
    ultimately show "\<exists>h. h \<in> set (hits_in_mode input policies mode)"
      by (intro exI [of _ "\<lparr>bh_policy = p, bh_ruleIndex = j, bh_rule = r, bh_field = field\<rparr>"])
         (simp add: hits_in_mode_iff)
  qed
  then show ?thesis by (metis empty_iff last_in_set list.set(1))
qed


section \<open>Properties\<close>

text \<open>C34: The glob matcher is correct. The dynamic program over the tokens of a glob, row by row,
  decides exactly the declarative meaning of the glob on the normalized path: a lone star stays
  within one path segment, a run of stars crosses separators, every other character is literal, and
  the match covers the whole path.\<close>

theorem matchPathGlob_correct: "matchPathGlob glob path \<longleftrightarrow> path_glob (glob_norm glob) (glob_norm path)"
  by (simp add: matchPathGlob_iff tokens_iff_path_glob)

text \<open>Blocking beats allowing. The verdict is a block exactly when some blocklist policy has a
  matching rule, an allow exactly when some allowlist policy has one and no blocklist policy does,
  and none otherwise; policies in audit mode never affect it.\<close>

theorem bridge_verdict_exact:
  "bv_match (matchPoliciesAgainst input policies) =
     (if \<exists>p \<in> set policies. lp_mode p = Blocklist \<and> policy_matches input p then Some Blocklist
      else if \<exists>p \<in> set policies. lp_mode p = Allowlist \<and> policy_matches input p then Some Allowlist
      else None)"
proof -
  let ?pick = "\<lambda>mode. pickStrongestHit (hits_in_mode input policies mode)"
  have mode: "lp_mode (bh_policy h) = mode" if "?pick mode = Some h" for mode h
    using pickStrongestHit_Some [OF that] by (simp add: hits_in_mode_iff)
  have none: "?pick mode = None \<longleftrightarrow> \<not> (\<exists>p \<in> set policies. lp_mode p = mode \<and> policy_matches input p)" for mode
    by (auto simp: pickStrongestHit_None hits_in_mode_empty)
  have "bv_match (matchPoliciesAgainst input policies) =
      (if ?pick Blocklist \<noteq> None then Some Blocklist else if ?pick Allowlist \<noteq> None then Some Allowlist else None)"
    by (cases "?pick Blocklist"; cases "?pick Allowlist")
       (simp_all add: matchPoliciesAgainst_def Let_def mode)
  then show ?thesis unfolding none by simp
qed

text \<open>The binding rule is the strongest one: it belongs to a policy of the verdict's mode, its
  reported field is how it matched, and no other matching rule of that mode matched on a stronger
  field, or on the same field in a policy of higher priority.\<close>

theorem bridge_binding_strongest:
  assumes "bv_binding (matchPoliciesAgainst input policies) = Some b"
  shows "\<exists>h mode. bv_match (matchPoliciesAgainst input policies) = Some mode
           \<and> h \<in> set (hits_in_mode input policies mode)
           \<and> bb_policyId b = lp_id (bh_policy h) \<and> bb_ruleIndex b = bh_ruleIndex h
           \<and> bb_ruleName b = er_name (bh_rule h) \<and> bb_matchedField b = bh_field h
           \<and> (\<forall>x \<in> set (hits_in_mode input policies mode). \<not> stronger_hit x h)"
proof -
  from assms obtain h where h: "nullish (pickStrongestHit (hits_in_mode input policies Blocklist))
      (pickStrongestHit (hits_in_mode input policies Allowlist)) = Some h"
    and b: "b = \<lparr>bb_policyId = lp_id (bh_policy h), bb_ruleIndex = bh_ruleIndex h,
                 bb_ruleName = er_name (bh_rule h), bb_matchedField = bh_field h\<rparr>"
    by (auto simp: matchPoliciesAgainst_def Let_def split: option.splits)
  from h obtain mode where m: "mode \<in> {Blocklist, Allowlist}"
      "pickStrongestHit (hits_in_mode input policies mode) = Some h"
    by (auto simp: nullish_def split: option.splits)
  from pickStrongestHit_Some [OF m(2)] have hit: "h \<in> set (hits_in_mode input policies mode)"
    "\<forall>x \<in> set (hits_in_mode input policies mode). \<not> stronger_hit x h" by auto
  then have "lp_mode (bh_policy h) = mode" by (simp add: hits_in_mode_iff)
  with h m(1) have "bv_match (matchPoliciesAgainst input policies) = Some mode"
    by (auto simp: matchPoliciesAgainst_def Let_def)
  with hit b show ?thesis by (intro exI [of _ h] exI [of _ mode]) simp
qed

theorem bridge_binding_strongest_witness:
  "\<exists>h mode. bv_match (matchPoliciesAgainst sample_bridge_input
        [sample_policy Allowlist ''c:**'', sample_policy Blocklist ''C:/*'']) = Some mode
     \<and> h \<in> set (hits_in_mode sample_bridge_input
        [sample_policy Allowlist ''c:**'', sample_policy Blocklist ''C:/*''] mode)
     \<and> bh_field h = PathField"
proof -
  have "bv_binding (matchPoliciesAgainst sample_bridge_input
        [sample_policy Allowlist ''c:**'', sample_policy Blocklist ''C:/*''])
      = Some \<lparr>bb_policyId = ''policy'', bb_ruleIndex = 1, bb_ruleName = ''tools'', bb_matchedField = PathField\<rparr>"
    by code_simp
  from bridge_binding_strongest [OF this] show ?thesis by (metis bridge_binding.select_convs(4))
qed

end
