(* ===== verification/Pam_Rule_Engine.thy ===== *)
theory Pam_Rule_Engine
  imports Pam_Bridge
begin

text \<open>
  apps/api/src/services/pamRuleEngine.ts, with normalizeSignerGroupEntries of db/schema/pam.ts: the
  matcher over an organization's elevation rules. Rules are ordered by priority, creation time and
  id; the first enabled rule whose criteria all hold decides.

  The time-zone database behind \<open>Intl.DateTimeFormat\<close> is the argument \<open>zoned\<close>: the parts of an
  instant in a zone, or \<open>None\<close> when the zone is rejected; \<open>Number\<close> is modelled on the digit strings
  it yields (and gives 0 on the empty string). The order \<open>localeCompare\<close> puts on ids is the argument
  \<open>id_le\<close>. Instants are milliseconds.
\<close>

section \<open>Data\<close>

datatype pam_verdict = AutoApprove | AutoDeny | RequireApproval | Ignore

datatype negate_key = NegSigner | NegSignerThumbprint | NegSignerGroup | NegHash | NegPathGlob
  | NegParentImage | NegCommandLine | NegUser | NegAdGroup | NegToolName | NegRiskTier

record time_window =
  tw_start :: string
  tw_end :: string
  tw_days :: "int list option"
  tw_timezone :: "string option"

record pam_rule =
  pr_id :: id
  pr_name :: string
  pr_enabled :: bool
  pr_priority :: int
  pr_matchSigner :: "string option"
  pr_matchSignerThumbprint :: "string option"
  pr_matchSignerGroupId :: "id option"
  pr_matchHash :: "string option"
  pr_matchPathGlob :: "string option"
  pr_matchParentImage :: "string option"
  pr_matchCommandLine :: "string option"
  pr_matchUser :: "string option"
  pr_matchAdGroup :: "string option"
  pr_matchToolName :: "string option"
  pr_matchRiskTier :: "int option"
  pr_matchNegate :: "negate_key list option"
  pr_timeWindow :: "time_window option"
  pr_verdict :: pam_verdict
  pr_approvalDurationMinutes :: "int option"
  pr_createdAt :: "int option"

record pam_candidate =
  ca_targetExecutablePath :: "string option"
  ca_targetExecutableHash :: "string option"
  ca_targetExecutableSigner :: "string option"
  ca_targetExecutableSignerThumbprint :: "string option"
  ca_subjectUsername :: string
  ca_parentImage :: "string option"
  ca_commandLine :: "string option"
  ca_subjectAdGroups :: "string list option"
  ca_toolName :: "string option"
  ca_riskTier :: "int option"
  ca_at :: "int option"

record pam_rule_match =
  pm_ruleId :: id
  pm_ruleName :: string
  pm_verdict :: pam_verdict
  pm_approvalDurationMinutes :: "int option"

record signer_entry =
  se_subjectCn :: "string option"
  se_thumbprint :: "string option"

type_synonym signer_groups = "id \<rightharpoonup> signer_entry list"

section \<open>Signers\<close>

definition eqCi :: "string \<Rightarrow> string \<Rightarrow> bool" where
  "eqCi a b = (toLowerCase a = toLowerCase b)"

definition thumbprint_re :: "string \<Rightarrow> bool" where
  "thumbprint_re s = (length s = 64 \<and> list_all (\<lambda>c. c \<in> set ''0123456789abcdef'') s)"

definition thumbprintEq :: "string option \<Rightarrow> string option \<Rightarrow> bool" where
  "thumbprintEq pinned candidate =
     both_truthy pinned candidate (\<lambda>p c.
       let a = toLowerCase p; b = toLowerCase c
       in if \<not> thumbprint_re a \<or> \<not> thumbprint_re b then False else a = b)"

definition signerEntryMatches :: "signer_entry \<Rightarrow> pam_candidate \<Rightarrow> bool" where
  "signerEntryMatches entry candidate =
     (let cn = se_subjectCn entry; thumbprint = se_thumbprint entry
      in if \<not> truthy_str cn \<and> \<not> truthy_str thumbprint then False
         else if truthy_str thumbprint
              \<and> \<not> thumbprintEq thumbprint (ca_targetExecutableSignerThumbprint candidate) then False
         else (case str_or_none cn of
                 None \<Rightarrow> True
               | Some c \<Rightarrow>
                   (case ca_targetExecutableSigner candidate of
                      None \<Rightarrow> False
                    | Some s \<Rightarrow> eqCi c s)))"

text \<open>The stored \<open>signers\<close> column, an arbitrary JSON value.\<close>

definition json_str :: "json option \<Rightarrow> string" where
  "json_str v = (case v of Some (JStr s) \<Rightarrow> s | _ \<Rightarrow> [])"

definition normalize_signer_element :: "json \<Rightarrow> signer_entry list" where
  "normalize_signer_element el =
     (case el of
        JStr s \<Rightarrow>
          (let cn = trim s in if cn = [] then [] else [\<lparr>se_subjectCn = Some cn, se_thumbprint = None\<rparr>])
      | JObj kvs \<Rightarrow>
          (let cn = trim (json_str (map_of kvs ''subjectCn''));
               tpRaw = toLowerCase (trim (json_str (map_of kvs ''thumbprint'')))
           in if tpRaw \<noteq> [] then
                (if \<not> thumbprint_re tpRaw then []
                 else [\<lparr>se_subjectCn = (if cn = [] then None else Some cn), se_thumbprint = Some tpRaw\<rparr>])
              else if cn \<noteq> [] then [\<lparr>se_subjectCn = Some cn, se_thumbprint = None\<rparr>]
              else [])
      | _ \<Rightarrow> [])"

definition normalizeSignerGroupEntries :: "json \<Rightarrow> signer_entry list" where
  "normalizeSignerGroupEntries raw =
     (case raw of JArr els \<Rightarrow> concat (map normalize_signer_element els) | _ \<Rightarrow> [])"

section \<open>Time windows\<close>

definition is_digit :: "char \<Rightarrow> bool" where
  "is_digit c = (c \<in> set ''0123456789'')"

definition digit_value :: "char \<Rightarrow> int" where
  "digit_value c = int (of_char c :: nat) - 48"

fun parse_hhmm :: "string \<Rightarrow> int option" where
  "parse_hhmm [h, sep, m1, m2] =
     (if is_digit h \<and> sep = CHR '':'' \<and> is_digit m1 \<and> is_digit m2 then
        (let mn = digit_value m1 * 10 + digit_value m2
         in if digit_value h > 23 \<or> mn > 59 then None else Some (digit_value h * 60 + mn))
      else None)"
| "parse_hhmm [h1, h2, sep, m1, m2] =
     (if is_digit h1 \<and> is_digit h2 \<and> sep = CHR '':'' \<and> is_digit m1 \<and> is_digit m2 then
        (let h = digit_value h1 * 10 + digit_value h2; mn = digit_value m1 * 10 + digit_value m2
         in if h > 23 \<or> mn > 59 then None else Some (h * 60 + mn))
      else None)"
| "parse_hhmm _ = None"

definition js_Number :: "string \<Rightarrow> int option" where
  "js_Number s = (if list_all is_digit s then Some (foldl (\<lambda>n c. n * 10 + digit_value c) 0 s) else None)"

type_synonym zone_table = "string \<Rightarrow> int \<Rightarrow> (string \<times> string) list option"

definition part_value :: "(string \<times> string) list \<Rightarrow> string \<Rightarrow> string" where
  "part_value parts ty = (case find (\<lambda>p. fst p = ty) parts of None \<Rightarrow> [] | Some p \<Rightarrow> snd p)"

definition day_index :: "string \<Rightarrow> int option" where
  "day_index name =
     map_of [(''Sun'', 0), (''Mon'', 1), (''Tue'', 2), (''Wed'', 3), (''Thu'', 4), (''Fri'', 5),
             (''Sat'', 6)] name"

text \<open>The weekday and the minute of the day in the window's zone; \<open>None\<close> when either is unusable.\<close>

definition zoned_minute :: "zone_table \<Rightarrow> time_window \<Rightarrow> int \<Rightarrow> (int \<times> int) option" where
  "zoned_minute zoned window at =
     (case zoned (case tw_timezone window of None \<Rightarrow> ''UTC'' | Some z \<Rightarrow> z) at of
        None \<Rightarrow> None
      | Some parts \<Rightarrow>
          (case (day_index (part_value parts ''weekday''), js_Number (part_value parts ''hour''),
                 js_Number (part_value parts ''minute'')) of
             (Some weekday, Some hour, Some minute) \<Rightarrow> Some (weekday, (hour mod 24) * 60 + minute)
           | _ \<Rightarrow> None))"

definition isWithinTimeWindow :: "zone_table \<Rightarrow> time_window \<Rightarrow> int \<Rightarrow> bool" where
  "isWithinTimeWindow zoned window at =
     (case (parse_hhmm (tw_start window), parse_hhmm (tw_end window)) of
        (Some start, Some end') \<Rightarrow>
          (case zoned_minute zoned window at of
             None \<Rightarrow> False
           | Some (weekday, minutes) \<Rightarrow>
               if (case tw_days window of None \<Rightarrow> False | Some ds \<Rightarrow> ds \<noteq> [] \<and> weekday \<notin> set ds) then False
               else if start \<le> end' then start \<le> minutes \<and> minutes \<le> end'
               else start \<le> minutes \<or> minutes \<le> end')
      | _ \<Rightarrow> False)"

section \<open>Matching\<close>

definition hasAnyCriteria :: "pam_rule \<Rightarrow> bool" where
  "hasAnyCriteria rule =
     (truthy_str (pr_matchSigner rule) \<or> truthy_str (pr_matchSignerThumbprint rule)
      \<or> truthy_str (pr_matchSignerGroupId rule) \<or> truthy_str (pr_matchHash rule)
      \<or> truthy_str (pr_matchPathGlob rule) \<or> truthy_str (pr_matchParentImage rule)
      \<or> truthy_str (pr_matchCommandLine rule) \<or> truthy_str (pr_matchUser rule)
      \<or> truthy_str (pr_matchAdGroup rule) \<or> truthy_str (pr_matchToolName rule)
      \<or> pr_matchRiskTier rule \<noteq> None)"

definition hasToolActionCriterion :: "pam_rule \<Rightarrow> bool" where
  "hasToolActionCriterion rule = (truthy_str (pr_matchToolName rule) \<or> pr_matchRiskTier rule \<noteq> None)"

definition satisfied :: "negate_key list option \<Rightarrow> negate_key \<Rightarrow> bool \<Rightarrow> bool \<Rightarrow> bool" where
  "satisfied matchNegate key present positive =
     (if \<not> present then False
      else if key \<in> set (case matchNegate of None \<Rightarrow> [] | Some ks \<Rightarrow> ks) then \<not> positive
      else positive)"

text \<open>\<open>if (rule.matchX) { ... }\<close>: the block constrains the rule only when the column is set.\<close>

definition when_set :: "string option \<Rightarrow> (string \<Rightarrow> bool) \<Rightarrow> bool" where
  "when_set field P = (case str_or_none field of None \<Rightarrow> True | Some v \<Rightarrow> P v)"

text \<open>A criterion compared with one optional field of the candidate.\<close>

definition field_criterion ::
  "pam_rule \<Rightarrow> negate_key \<Rightarrow> string option \<Rightarrow> 'b option \<Rightarrow> (string \<Rightarrow> 'b \<Rightarrow> bool) \<Rightarrow> bool" where
  "field_criterion rule key column value compare =
     when_set column (\<lambda>v.
       let present = (value \<noteq> None);
           positive = (present \<and> compare v (the value))
       in satisfied (pr_matchNegate rule) key present positive)"

definition group_criterion :: "pam_rule \<Rightarrow> pam_candidate \<Rightarrow> signer_groups option \<Rightarrow> bool" where
  "group_criterion rule candidate signerGroups =
     when_set (pr_matchSignerGroupId rule) (\<lambda>gid.
       let members = Option.bind signerGroups (\<lambda>g. g gid);
           candidateHasSignal = (ca_targetExecutableSigner candidate \<noteq> None
                                 \<or> ca_targetExecutableSignerThumbprint candidate \<noteq> None);
           present = (candidateHasSignal \<and> members \<noteq> None \<and> the members \<noteq> []);
           positive = (present \<and> list_ex (\<lambda>e. signerEntryMatches e candidate) (the members))
       in satisfied (pr_matchNegate rule) NegSignerGroup present positive)"

definition ruleMatches ::
  "zone_table \<Rightarrow> int \<Rightarrow> pam_rule \<Rightarrow> pam_candidate \<Rightarrow> signer_groups option \<Rightarrow> bool" where
  "ruleMatches zoned now rule candidate signerGroups =
     (hasAnyCriteria rule
      \<and> field_criterion rule NegHash (pr_matchHash rule) (ca_targetExecutableHash candidate) eqCi
      \<and> field_criterion rule NegSigner (pr_matchSigner rule) (ca_targetExecutableSigner candidate) eqCi
      \<and> field_criterion rule NegSignerThumbprint (pr_matchSignerThumbprint rule)
          (ca_targetExecutableSignerThumbprint candidate) (\<lambda>v c. thumbprintEq (Some v) (Some c))
      \<and> group_criterion rule candidate signerGroups
      \<and> field_criterion rule NegPathGlob (pr_matchPathGlob rule) (ca_targetExecutablePath candidate) matchPathGlob
      \<and> field_criterion rule NegParentImage (pr_matchParentImage rule) (ca_parentImage candidate) matchPathGlob
      \<and> field_criterion rule NegCommandLine (pr_matchCommandLine rule) (ca_commandLine candidate)
          (\<lambda>v c. str_includes (toLowerCase c) (toLowerCase v))
      \<and> field_criterion rule NegUser (pr_matchUser rule) (Some (ca_subjectUsername candidate)) eqCi
      \<and> field_criterion rule NegAdGroup (pr_matchAdGroup rule) (ca_subjectAdGroups candidate)
          (\<lambda>v gs. list_ex (\<lambda>g. eqCi g v) gs)
      \<and> field_criterion rule NegToolName (pr_matchToolName rule) (ca_toolName candidate) eqCi
      \<and> (case pr_matchRiskTier rule of
           None \<Rightarrow> True
         | Some tier \<Rightarrow>
             satisfied (pr_matchNegate rule) NegRiskTier (ca_riskTier candidate \<noteq> None)
               (ca_riskTier candidate = Some tier))
      \<and> (case pr_timeWindow rule of
           None \<Rightarrow> True
         | Some w \<Rightarrow> isWithinTimeWindow zoned w (case ca_at candidate of None \<Rightarrow> now | Some t \<Rightarrow> t)))"

section \<open>Evaluation\<close>

definition created_time :: "pam_rule \<Rightarrow> int" where
  "created_time r = (case pr_createdAt r of None \<Rightarrow> 0 | Some t \<Rightarrow> t)"

text \<open>The comparator of the sort: \<open>compare(a, b) <= 0\<close>.\<close>

definition rule_le :: "(id \<Rightarrow> id \<Rightarrow> bool) \<Rightarrow> pam_rule \<Rightarrow> pam_rule \<Rightarrow> bool" where
  "rule_le id_le a b =
     (if pr_priority a \<noteq> pr_priority b then pr_priority a - pr_priority b \<le> 0
      else if created_time a \<noteq> created_time b then created_time a - created_time b \<le> 0
      else id_le (pr_id a) (pr_id b))"

definition rule_match_of :: "pam_rule \<Rightarrow> pam_rule_match" where
  "rule_match_of rule =
     \<lparr>pm_ruleId = pr_id rule, pm_ruleName = pr_name rule, pm_verdict = pr_verdict rule,
      pm_approvalDurationMinutes = pr_approvalDurationMinutes rule\<rparr>"

definition evaluatePamRules ::
  "zone_table \<Rightarrow> (id \<Rightarrow> id \<Rightarrow> bool) \<Rightarrow> int \<Rightarrow> pam_rule list \<Rightarrow> pam_candidate \<Rightarrow> signer_groups option
     \<Rightarrow> pam_rule_match option" where
  "evaluatePamRules zoned id_le now rules candidate signerGroups =
     map_option rule_match_of
       (find (\<lambda>rule. pr_enabled rule \<and> ruleMatches zoned now rule candidate signerGroups)
         (js_sort (rule_le id_le) rules))"

definition evaluatePamToolActionRules ::
  "zone_table \<Rightarrow> (id \<Rightarrow> id \<Rightarrow> bool) \<Rightarrow> int \<Rightarrow> pam_rule list \<Rightarrow> pam_candidate \<Rightarrow> pam_rule_match option" where
  "evaluatePamToolActionRules zoned id_le now rules candidate =
     evaluatePamRules zoned id_le now (filter hasToolActionCriterion rules) candidate None"

section \<open>Specification\<close>

text \<open>Every criterion a rule sets finds data to compare with in the candidate.\<close>

definition criteria_present :: "pam_rule \<Rightarrow> pam_candidate \<Rightarrow> signer_groups option \<Rightarrow> bool" where
  "criteria_present rule candidate signerGroups =
     ((truthy_str (pr_matchHash rule) \<longrightarrow> ca_targetExecutableHash candidate \<noteq> None)
      \<and> (truthy_str (pr_matchSigner rule) \<longrightarrow> ca_targetExecutableSigner candidate \<noteq> None)
      \<and> (truthy_str (pr_matchSignerThumbprint rule) \<longrightarrow> ca_targetExecutableSignerThumbprint candidate \<noteq> None)
      \<and> (\<forall>gid. str_or_none (pr_matchSignerGroupId rule) = Some gid \<longrightarrow>
            (\<exists>g ms. signerGroups = Some g \<and> g gid = Some ms \<and> ms \<noteq> []
              \<and> (ca_targetExecutableSigner candidate \<noteq> None
                  \<or> ca_targetExecutableSignerThumbprint candidate \<noteq> None)))
      \<and> (truthy_str (pr_matchPathGlob rule) \<longrightarrow> ca_targetExecutablePath candidate \<noteq> None)
      \<and> (truthy_str (pr_matchParentImage rule) \<longrightarrow> ca_parentImage candidate \<noteq> None)
      \<and> (truthy_str (pr_matchCommandLine rule) \<longrightarrow> ca_commandLine candidate \<noteq> None)
      \<and> (truthy_str (pr_matchAdGroup rule) \<longrightarrow> ca_subjectAdGroups candidate \<noteq> None)
      \<and> (truthy_str (pr_matchToolName rule) \<longrightarrow> ca_toolName candidate \<noteq> None)
      \<and> (pr_matchRiskTier rule \<noteq> None \<longrightarrow> ca_riskTier candidate \<noteq> None))"

text \<open>Rules and a candidate to evaluate the properties on.\<close>

definition sample_rule :: "id \<Rightarrow> int \<Rightarrow> pam_verdict \<Rightarrow> pam_rule" where
  "sample_rule i prio verdict =
     \<lparr>pr_id = i, pr_name = i, pr_enabled = True, pr_priority = prio, pr_matchSigner = None,
      pr_matchSignerThumbprint = None, pr_matchSignerGroupId = None, pr_matchHash = Some ''AA'',
      pr_matchPathGlob = None, pr_matchParentImage = None, pr_matchCommandLine = None,
      pr_matchUser = None, pr_matchAdGroup = None, pr_matchToolName = None,
      pr_matchRiskTier = None, pr_matchNegate = None, pr_timeWindow = None, pr_verdict = verdict,
      pr_approvalDurationMinutes = None, pr_createdAt = Some 0\<rparr>"

definition sample_candidate :: pam_candidate where
  "sample_candidate =
     \<lparr>ca_targetExecutablePath = None, ca_targetExecutableHash = Some ''aa'',
      ca_targetExecutableSigner = None, ca_targetExecutableSignerThumbprint = None,
      ca_subjectUsername = ''jane'', ca_parentImage = None, ca_commandLine = None,
      ca_subjectAdGroups = None, ca_toolName = Some ''run_script'', ca_riskTier = Some 3, ca_at = None\<rparr>"

section \<open>Lemmas\<close>

lemma satisfied_present: "satisfied ns k present positive \<Longrightarrow> present"
  by (simp add: satisfied_def split: if_splits)

lemma field_criterion_present:
  "field_criterion rule k column value cmp \<Longrightarrow> truthy_str column \<Longrightarrow> value \<noteq> None"
  by (auto simp: field_criterion_def when_set_def str_or_none_def Let_def
      dest!: satisfied_present elim!: truthy_strE)

lemma group_criterion_present:
  assumes "group_criterion rule candidate gs" and "str_or_none (pr_matchSignerGroupId rule) = Some gid"
  shows "\<exists>g ms. gs = Some g \<and> g gid = Some ms \<and> ms \<noteq> []
           \<and> (ca_targetExecutableSigner candidate \<noteq> None
               \<or> ca_targetExecutableSignerThumbprint candidate \<noteq> None)"
  using assms
  by (auto simp: group_criterion_def when_set_def Let_def bind_eq_Some_conv dest!: satisfied_present)

lemma ruleMatches_present:
  assumes "ruleMatches zoned now rule candidate gs"
  shows "hasAnyCriteria rule" and "criteria_present rule candidate gs"
proof -
  show "hasAnyCriteria rule" using assms by (simp add: ruleMatches_def)
  from assms have tier: "pr_matchRiskTier rule \<noteq> None \<longrightarrow> ca_riskTier candidate \<noteq> None"
    by (auto simp: ruleMatches_def dest: satisfied_present split: option.splits)
  from assms have group: "group_criterion rule candidate gs" by (simp add: ruleMatches_def)
  from assms show "criteria_present rule candidate gs"
    unfolding ruleMatches_def criteria_present_def
    using tier group_criterion_present [OF group] by (blast dest: field_criterion_present)
qed

lemma rule_le_total:
  "(\<And>a b. id_le a b \<or> id_le b a) \<Longrightarrow> rule_le id_le a b \<or> rule_le id_le b a"
  by (auto simp: rule_le_def)

lemma rule_le_trans:
  "(\<And>a b c. id_le a b \<Longrightarrow> id_le b c \<Longrightarrow> id_le a c)
     \<Longrightarrow> rule_le id_le a b \<Longrightarrow> rule_le id_le b c \<Longrightarrow> rule_le id_le a c"
  by (auto simp: rule_le_def split: if_splits)

lemma find_sorted_least:
  "sorted_wrt le xs \<Longrightarrow> find P xs = Some x \<Longrightarrow> (\<And>a. le a a) \<Longrightarrow> y \<in> set xs \<Longrightarrow> P y \<Longrightarrow> le x y"
  by (induction xs) (auto split: if_splits)

lemma evaluate_Some:
  assumes "\<And>a b. id_le a b \<or> id_le b a" and "\<And>a b c. id_le a b \<Longrightarrow> id_le b c \<Longrightarrow> id_le a c"
    and "evaluatePamRules zoned id_le now rules candidate gs = Some m"
  shows "\<exists>rule \<in> set rules. m = rule_match_of rule \<and> pr_enabled rule
           \<and> ruleMatches zoned now rule candidate gs
           \<and> (\<forall>r \<in> set rules. pr_enabled r \<and> ruleMatches zoned now r candidate gs \<longrightarrow> rule_le id_le rule r)"
proof -
  let ?P = "\<lambda>rule. pr_enabled rule \<and> ruleMatches zoned now rule candidate gs"
  from assms(3) obtain rule where rule: "find ?P (js_sort (rule_le id_le) rules) = Some rule"
    "m = rule_match_of rule" by (auto simp: evaluatePamRules_def)
  have sorted: "sorted_wrt (rule_le id_le) (js_sort (rule_le id_le) rules)"
  proof (rule sorted_wrt_js_sort)
    show "rule_le id_le a b \<or> rule_le id_le b a" for a b using assms(1) by (rule rule_le_total)
    show "rule_le id_le a c" if "rule_le id_le a b" "rule_le id_le b c" for a b c
      using assms(2) that by (rule rule_le_trans)
  qed
  have "rule_le id_le a a" for a using rule_le_total [of id_le a a] assms(1) by blast
  from find_sorted_least [OF sorted rule(1) this] find_SomeD [OF rule(1)] rule(2)
  show ?thesis by (intro bexI [of _ rule]) auto
qed

lemma evaluate_None:
  "evaluatePamRules zoned id_le now rules candidate gs = None
     \<longleftrightarrow> (\<forall>r \<in> set rules. \<not> (pr_enabled r \<and> ruleMatches zoned now r candidate gs))"
  by (auto simp: evaluatePamRules_def find_None_iff)

lemma thumbprintEq_iff:
  "thumbprintEq p c \<longleftrightarrow> (\<exists>a b. p = Some a \<and> c = Some b \<and> thumbprint_re (toLowerCase a)
     \<and> toLowerCase a = toLowerCase b)"
proof -
  have "thumbprint_re (toLowerCase a) \<Longrightarrow> a \<noteq> []" for a by (auto simp: thumbprint_re_def)
  moreover have "thumbprint_re (toLowerCase a) \<Longrightarrow> toLowerCase a = toLowerCase b \<Longrightarrow> b \<noteq> []" for a b
    by (auto simp: thumbprint_re_def)
  ultimately show ?thesis
    by (cases p; cases c) (auto simp: thumbprintEq_def both_truthy_def str_or_none_def Let_def)
qed

lemma parse_hhmm_range: "parse_hhmm s = Some m \<Longrightarrow> 0 \<le> m \<and> m < 1440"
proof -
  have d: "is_digit c \<Longrightarrow> 0 \<le> digit_value c \<and> digit_value c \<le> 9" for c
    by (auto simp: is_digit_def digit_value_def)
  show "parse_hhmm s = Some m \<Longrightarrow> 0 \<le> m \<and> m < 1440"
    by (induction s rule: parse_hhmm.induct)
       (use d in \<open>fastforce simp: Let_def split: if_splits\<close>)+
qed

lemma cyclic_interval:
  fixes s e m :: int
  assumes "0 \<le> s" "s < 1440" "0 \<le> e" "e < 1440" "0 \<le> m" "m < 1440"
  shows "(if s \<le> e then s \<le> m \<and> m \<le> e else s \<le> m \<or> m \<le> e)
           \<longleftrightarrow> (m - s) mod 1440 \<le> (e - s) mod 1440"
proof -
  have md: "(x - s) mod 1440 = (if s \<le> x then x - s else x - s + 1440)" if "0 \<le> x" "x < 1440" for x
  proof (cases "s \<le> x")
    case True
    with that assms(1) show ?thesis by (simp add: mod_pos_pos_trivial)
  next
    case False
    have "(x - s) mod 1440 = (x - s + 1440) mod 1440" by simp
    also have "\<dots> = x - s + 1440" using False that assms by (intro mod_pos_pos_trivial) auto
    finally show ?thesis using False by simp
  qed
  show ?thesis using assms by (simp add: md)
qed

lemma normalize_element:
  assumes "e \<in> set (normalize_signer_element el)"
  shows "se_thumbprint e = None \<Longrightarrow> el = JObj kvs \<Longrightarrow> trim (json_str (map_of kvs ''thumbprint'')) = []"
    and "truthy_str (se_subjectCn e) \<or> (\<exists>t. se_thumbprint e = Some t \<and> thumbprint_re t)"
proof -
  show "truthy_str (se_subjectCn e) \<or> (\<exists>t. se_thumbprint e = Some t \<and> thumbprint_re t)"
    using assms by (cases el) (simp_all add: normalize_signer_element_def Let_def split: if_splits)
  show "se_thumbprint e = None \<Longrightarrow> el = JObj kvs \<Longrightarrow> trim (json_str (map_of kvs ''thumbprint'')) = []"
    using assms by (simp add: normalize_signer_element_def Let_def split: if_splits)
qed

lemma signerEntryMatches_thumbprint:
  assumes "se_thumbprint e = Some t" and "t \<noteq> []" and "signerEntryMatches e candidate"
  shows "\<exists>c. ca_targetExecutableSignerThumbprint candidate = Some c
           \<and> toLowerCase c = toLowerCase t \<and> thumbprint_re (toLowerCase t)"
proof -
  from assms have "thumbprintEq (Some t) (ca_targetExecutableSignerThumbprint candidate)"
    by (simp add: signerEntryMatches_def Let_def split: if_splits)
  then show ?thesis by (auto simp: thumbprintEq_iff)
qed

lemma normalize_element_thumbprint:
  "e \<in> set (normalize_signer_element el) \<Longrightarrow> se_thumbprint e = Some t \<Longrightarrow> t \<noteq> []"
  by (cases el) (auto simp: normalize_signer_element_def Let_def split: if_splits)

section \<open>Properties\<close>

text \<open>The rule engine decides by the first matching rule. Its answer is the verdict of an enabled
  rule whose criteria hold, and no enabled rule whose criteria hold comes strictly before it in the
  order of priority, creation time and id, whatever the order the rules were fetched in; there is no
  answer exactly when no enabled rule matches.\<close>

theorem rule_engine_first_match:
  assumes "\<And>a b. id_le a b \<or> id_le b a" and "\<And>a b c. id_le a b \<Longrightarrow> id_le b c \<Longrightarrow> id_le a c"
  shows "case evaluatePamRules zoned id_le now rules candidate gs of
           None \<Rightarrow> (\<forall>r \<in> set rules. \<not> (pr_enabled r \<and> ruleMatches zoned now r candidate gs))
         | Some m \<Rightarrow> (\<exists>rule \<in> set rules. m = rule_match_of rule \<and> pr_enabled rule
               \<and> ruleMatches zoned now rule candidate gs
               \<and> (\<forall>r \<in> set rules. pr_enabled r \<and> ruleMatches zoned now r candidate gs
                     \<longrightarrow> rule_le id_le rule r))"
proof (cases "evaluatePamRules zoned id_le now rules candidate gs")
  case None
  then have "\<forall>r \<in> set rules. \<not> (pr_enabled r \<and> ruleMatches zoned now r candidate gs)"
    by (simp only: evaluate_None)
  with None show ?thesis by simp
next
  case (Some m)
  from evaluate_Some [OF assms this] show ?thesis unfolding Some option.case .
qed

theorem rule_engine_first_match_witness:
  "\<exists>rule \<in> {sample_rule ''b'' 20 AutoApprove, sample_rule ''a'' 10 AutoDeny}.
     evaluatePamRules (\<lambda>_ _. None) (\<lambda>_ _. True) 0
       [sample_rule ''b'' 20 AutoApprove, sample_rule ''a'' 10 AutoDeny] sample_candidate None
       = Some (rule_match_of rule)
     \<and> rule_le (\<lambda>_ _. True) rule (sample_rule ''a'' 10 AutoDeny)"
proof -
  let ?rules = "[sample_rule ''b'' 20 AutoApprove, sample_rule ''a'' 10 AutoDeny]"
  have "evaluatePamRules (\<lambda>_ _. None) (\<lambda>_ _. True) 0 ?rules sample_candidate None
      = Some (rule_match_of (sample_rule ''a'' 10 AutoDeny))" by code_simp
  moreover have "pr_enabled (sample_rule ''a'' 10 AutoDeny)"
    "ruleMatches (\<lambda>_ _. None) 0 (sample_rule ''a'' 10 AutoDeny) sample_candidate None" by code_simp+
  ultimately show ?thesis
    using rule_engine_first_match [where id_le = "\<lambda>_ _. True" and zoned = "\<lambda>_ _. None"
        and now = 0 and rules = ?rules and candidate = sample_candidate and gs = None] by auto
qed

text \<open>The engine fails closed on missing data. A rule matches only when it sets at least one
  identifying criterion and the candidate carries the data of every criterion the rule sets, so a
  time window alone never matches, and negating a criterion never turns absent data into a match.\<close>

theorem rule_engine_fails_closed:
  assumes "ruleMatches zoned now rule candidate gs"
  shows "hasAnyCriteria rule \<and> criteria_present rule candidate gs"
  using ruleMatches_present [OF assms] by blast

theorem rule_engine_fails_closed_witness:
  "ruleMatches (\<lambda>_ _. None) 0 ((sample_rule ''a'' 1 AutoApprove)\<lparr>pr_matchNegate := Some [NegHash],
      pr_matchHash := Some ''bb''\<rparr>) sample_candidate None
   \<and> criteria_present ((sample_rule ''a'' 1 AutoApprove)\<lparr>pr_matchNegate := Some [NegHash],
      pr_matchHash := Some ''bb''\<rparr>) sample_candidate None"
proof -
  have "ruleMatches (\<lambda>_ _. None) 0 ((sample_rule ''a'' 1 AutoApprove)\<lparr>pr_matchNegate := Some [NegHash],
      pr_matchHash := Some ''bb''\<rparr>) sample_candidate None" by code_simp
  with rule_engine_fails_closed [OF this] show ?thesis by blast
qed

text \<open>A rule decides an AI tool action only when it is written for tool actions: the deciding
  rule carries a tool-name or risk-tier criterion and the candidate carries that tool name or tier.
  A rule about users or executables alone never governs one.\<close>

theorem tool_action_rules_only:
  assumes "evaluatePamToolActionRules zoned id_le now rules candidate = Some m"
  shows "\<exists>rule \<in> set rules. m = rule_match_of rule \<and> pr_enabled rule \<and> hasToolActionCriterion rule
           \<and> (ca_toolName candidate \<noteq> None \<or> ca_riskTier candidate \<noteq> None)"
proof -
  from assms obtain rule where rule: "m = rule_match_of rule"
    "find (\<lambda>rule. pr_enabled rule \<and> ruleMatches zoned now rule candidate None)
       (js_sort (rule_le id_le) (filter hasToolActionCriterion rules)) = Some rule"
    by (auto simp: evaluatePamToolActionRules_def evaluatePamRules_def)
  from find_SomeD [OF rule(2)] have r: "rule \<in> set rules" "hasToolActionCriterion rule" "pr_enabled rule"
    "ruleMatches zoned now rule candidate None" by auto
  from ruleMatches_present(2) [OF r(4)] r(2)
  have "ca_toolName candidate \<noteq> None \<or> ca_riskTier candidate \<noteq> None"
    by (auto simp: criteria_present_def hasToolActionCriterion_def)
  with r rule(1) show ?thesis by blast
qed

theorem tool_action_rules_only_witness:
  "\<exists>rule \<in> {sample_rule ''u'' 1 AutoApprove,
      (sample_rule ''t'' 5 AutoDeny)\<lparr>pr_matchHash := None, pr_matchRiskTier := Some 3\<rparr>}.
     hasToolActionCriterion rule
     \<and> evaluatePamToolActionRules (\<lambda>_ _. None) (\<lambda>_ _. True) 0
         [sample_rule ''u'' 1 AutoApprove,
          (sample_rule ''t'' 5 AutoDeny)\<lparr>pr_matchHash := None, pr_matchRiskTier := Some 3\<rparr>] sample_candidate
       = Some (rule_match_of rule)"
proof -
  have "evaluatePamToolActionRules (\<lambda>_ _. None) (\<lambda>_ _. True) 0
         [sample_rule ''u'' 1 AutoApprove,
          (sample_rule ''t'' 5 AutoDeny)\<lparr>pr_matchHash := None, pr_matchRiskTier := Some 3\<rparr>] sample_candidate
       = Some (rule_match_of ((sample_rule ''t'' 5 AutoDeny)\<lparr>pr_matchHash := None, pr_matchRiskTier := Some 3\<rparr>))"
    by code_simp
  from tool_action_rules_only [OF this] this show ?thesis by auto
qed

text \<open>A pinned certificate is never bypassed by its name. Normalizing a stored signer group
  yields only entries with a non-empty common name or a valid thumbprint, never an entry without a
  thumbprint from an element that carried a thumbprint text; and an entry with a thumbprint matches
  only a candidate that carries that same valid thumbprint.\<close>

theorem signer_pins_hold:
  assumes "e \<in> set (normalizeSignerGroupEntries raw)"
  shows "(\<exists>els el. raw = JArr els \<and> el \<in> set els \<and> e \<in> set (normalize_signer_element el)
            \<and> (se_thumbprint e = None \<longrightarrow>
                 (\<forall>kvs. el = JObj kvs \<longrightarrow> trim (json_str (map_of kvs ''thumbprint'')) = [])))
         \<and> (truthy_str (se_subjectCn e) \<or> (\<exists>t. se_thumbprint e = Some t \<and> thumbprint_re t))
         \<and> (\<forall>t candidate. se_thumbprint e = Some t \<longrightarrow> signerEntryMatches e candidate \<longrightarrow>
              (\<exists>c. ca_targetExecutableSignerThumbprint candidate = Some c
                 \<and> toLowerCase c = toLowerCase t \<and> thumbprint_re (toLowerCase t)))"
proof -
  from assms obtain els el where raw: "raw = JArr els" "el \<in> set els" "e \<in> set (normalize_signer_element el)"
    by (cases raw) (auto simp: normalizeSignerGroupEntries_def)
  note el = normalize_element [OF raw(3)]
  show ?thesis
    using raw el normalize_element_thumbprint [OF raw(3)] signerEntryMatches_thumbprint [of e] by blast
qed

theorem signer_pins_hold_witness:
  "truthy_str (se_subjectCn \<lparr>se_subjectCn = Some ''Intuit'', se_thumbprint = None\<rparr>)
   \<and> normalizeSignerGroupEntries (JArr [JStr '' Intuit '', JObj [(''subjectCn'', JStr ''X''), (''thumbprint'', JStr ''zz'')]])
     = [\<lparr>se_subjectCn = Some ''Intuit'', se_thumbprint = None\<rparr>]"
proof -
  have n: "normalizeSignerGroupEntries (JArr [JStr '' Intuit '', JObj [(''subjectCn'', JStr ''X''), (''thumbprint'', JStr ''zz'')]])
     = [\<lparr>se_subjectCn = Some ''Intuit'', se_thumbprint = None\<rparr>]" by code_simp
  then have "\<lparr>se_subjectCn = Some ''Intuit'', se_thumbprint = None\<rparr> \<in> set (normalizeSignerGroupEntries
      (JArr [JStr '' Intuit '', JObj [(''subjectCn'', JStr ''X''), (''thumbprint'', JStr ''zz'')]]))" by simp
  from signer_pins_hold [OF this] n show ?thesis by auto
qed

text \<open>A time window is a closed interval on the 24-hour circle. On an admitted weekday the window
  is active exactly when the minutes elapsed since its start, modulo a day, do not exceed its
  length, whether or not it wraps midnight; a malformed time or an unusable zone makes it inactive.\<close>

theorem time_window_cyclic:
  assumes "parse_hhmm (tw_start w) = Some s" and "parse_hhmm (tw_end w) = Some e"
    and "zoned_minute zoned w t = Some (weekday, m)" and "0 \<le> m" and "m < 1440"
    and "\<And>ds. tw_days w = Some ds \<Longrightarrow> ds = [] \<or> weekday \<in> set ds"
  shows "isWithinTimeWindow zoned w t \<longleftrightarrow> (m - s) mod 1440 \<le> (e - s) mod 1440"
proof -
  have "isWithinTimeWindow zoned w t \<longleftrightarrow> (if s \<le> e then s \<le> m \<and> m \<le> e else s \<le> m \<or> m \<le> e)"
    using assms(1-3,6) by (auto simp: isWithinTimeWindow_def split: option.splits)
  with cyclic_interval [of s e m] parse_hhmm_range [OF assms(1)] parse_hhmm_range [OF assms(2)] assms(4,5)
  show ?thesis by simp
qed

theorem time_window_cyclic_witness:
  "isWithinTimeWindow (\<lambda>_ _. Some [(''weekday'', ''Sat''), (''hour'', ''24''), (''minute'', ''30'')])
     \<lparr>tw_start = ''22:00'', tw_end = ''6:00'', tw_days = None, tw_timezone = None\<rparr> 0"
proof -
  let ?w = "\<lparr>tw_start = ''22:00'', tw_end = ''6:00'', tw_days = None, tw_timezone = None\<rparr>"
  let ?z = "\<lambda>(_::string) (_::int). Some [(''weekday'', ''Sat''), (''hour'', ''24''), (''minute'', ''30'')]"
  have 1: "parse_hhmm (tw_start ?w) = Some 1320" by code_simp
  have 2: "parse_hhmm (tw_end ?w) = Some 360" by code_simp
  have 3: "zoned_minute ?z ?w 0 = Some (6, 30)" by code_simp
  from time_window_cyclic [OF 1 2 3] show ?thesis by simp
qed

end
