(* ===== verification/Rate_Limit.thy ===== *)
theory Rate_Limit
  imports Js_Prelude
begin

text \<open>
  apps/api/src/services/rate-limit.ts: the sliding-window limiter over a Redis sorted set, and the
  per-account lockout counter. Every Redis command of the lockout may fail on its own; a connection
  may be absent.

  A sorted set holds members with scores; the limiter's members spell the time, an index and a
  random text, and their score is that time, so a member is the triple of the three. A key with a
  time to live is gone once it has passed.
\<close>

section \<open>The sliding window\<close>

type_synonym zmember = "int \<times> nat \<times> string"

record zkey =
  zk_members :: "zmember list"
  zk_expires :: "int option"

type_synonym zstore = "string \<rightharpoonup> zkey"

text \<open>
  What becomes of a \<open>MULTI\<close>: there is no connection, \<open>exec\<close> answers null, it throws before the commands
  ran, it throws after they ran because the answer was lost, or it answers. Each queued command runs or
  answers with an error of its own, without the others.
\<close>

record multi_replies =
  mr_zremrangebyscore :: bool
  mr_zadd :: bool
  mr_zcard :: bool
  mr_zrange :: bool
  mr_expire :: bool

definition all_ran :: multi_replies where
  "all_ran = \<lparr>mr_zremrangebyscore = True, mr_zadd = True, mr_zcard = True, mr_zrange = True, mr_expire = True\<rparr>"

datatype redis_multi = NoRedis | MultiNull | MultiThrows | MultiLost multi_replies | MultiExec multi_replies

record rate_limit_result =
  rr_allowed :: bool
  rr_remaining :: int
  rr_resetAt :: int

definition failClosed :: "int \<Rightarrow> int \<Rightarrow> rate_limit_result" where
  "failClosed now windowSeconds =
     \<lparr>rr_allowed = False, rr_remaining = 0, rr_resetAt = now + windowSeconds * 1000\<rparr>"

text \<open>The commands of a sorted set. A set without members does not exist, and has no time to live.\<close>

definition live_key :: "zstore \<Rightarrow> int \<Rightarrow> string \<Rightarrow> zkey option" where
  "live_key store now key =
     (case store key of
        None \<Rightarrow> None
      | Some k \<Rightarrow> (case zk_expires k of
                    None \<Rightarrow> Some k
                  | Some e \<Rightarrow> if e \<le> now then None else Some k))"

definition live_members :: "zstore \<Rightarrow> int \<Rightarrow> string \<Rightarrow> zmember list" where
  "live_members store now key = (case live_key store now key of None \<Rightarrow> [] | Some k \<Rightarrow> zk_members k)"

definition put_members :: "zstore \<Rightarrow> int \<Rightarrow> string \<Rightarrow> zmember list \<Rightarrow> zstore" where
  "put_members store now key ms =
     store(key := if ms = [] then None
                  else Some \<lparr>zk_members = ms, zk_expires = Option.bind (live_key store now key) zk_expires\<rparr>)"

definition zremrangebyscore :: "int \<Rightarrow> string \<Rightarrow> int \<Rightarrow> zstore \<Rightarrow> zstore" where
  "zremrangebyscore now key upTo store =
     put_members store now key (filter (\<lambda>m. upTo < fst m) (live_members store now key))"

definition zadd_member :: "zmember \<Rightarrow> zmember list \<Rightarrow> zmember list" where
  "zadd_member m ms = (if m \<in> set ms then ms else ms @ [m])"

definition zadd :: "int \<Rightarrow> string \<Rightarrow> zmember list \<Rightarrow> zstore \<Rightarrow> zstore" where
  "zadd now key members store =
     put_members store now key (fold zadd_member members (live_members store now key))"

definition zcard :: "zstore \<Rightarrow> int \<Rightarrow> string \<Rightarrow> nat" where
  "zcard store now key = length (live_members store now key)"

definition zrange_oldest :: "zstore \<Rightarrow> int \<Rightarrow> string \<Rightarrow> int option" where
  "zrange_oldest store now key =
     (let ms = live_members store now key in if ms = [] then None else Some (Min (fst ` set ms)))"

definition zexpire :: "int \<Rightarrow> string \<Rightarrow> int \<Rightarrow> zstore \<Rightarrow> zstore" where
  "zexpire now key seconds store =
     (case live_key store now key of
        None \<Rightarrow> store
      | Some k \<Rightarrow> store(key \<mapsto> k\<lparr>zk_expires := Some (now + seconds * 1000)\<rparr>))"

definition run_if :: "bool \<Rightarrow> (zstore \<Rightarrow> zstore) \<Rightarrow> zstore \<Rightarrow> zstore" where
  "run_if ok command store = (if ok then command store else store)"

text \<open>\<open>safeCost\<close> members are added; \<open>nonces\<close> are the random texts drawn for them.\<close>

definition safeCost :: "int \<Rightarrow> nat" where
  "safeCost cost = nat (max 1 cost)"

definition zaddArgs :: "int \<Rightarrow> string list \<Rightarrow> int \<Rightarrow> zmember list" where
  "zaddArgs now nonces cost = map (\<lambda>i. (now, i, nonces ! i)) [0..<safeCost cost]"

definition rateLimiter ::
  "redis_multi \<Rightarrow> zstore \<Rightarrow> int \<Rightarrow> string list \<Rightarrow> string \<Rightarrow> int \<Rightarrow> int \<Rightarrow> int
     \<Rightarrow> rate_limit_result \<times> zstore" where
  "rateLimiter redis store now nonces key limit windowSeconds cost =
     (let windowStart = now - windowSeconds * 1000;
          counted = (\<lambda>e. run_if (mr_zadd e) (zadd now key (zaddArgs now nonces cost))
                           (run_if (mr_zremrangebyscore e) (zremrangebyscore now key windowStart) store));
          store' = (\<lambda>e. run_if (mr_expire e) (zexpire now key windowSeconds) (counted e))
      in case redis of
           NoRedis \<Rightarrow> (failClosed now windowSeconds, store)
         | MultiNull \<Rightarrow> (failClosed now windowSeconds, store)
         | MultiThrows \<Rightarrow> (failClosed now windowSeconds, store)
         | MultiLost e \<Rightarrow> (failClosed now windowSeconds, store' e)
         | MultiExec e \<Rightarrow>
             (let count = (if mr_zcard e then int (zcard (counted e) now key) else 0);
                  oldestScore = (case zrange_oldest (counted e) now key of
                                   Some score \<Rightarrow> if mr_zrange e then score else now
                                 | None \<Rightarrow> now)
              in (\<lparr>rr_allowed = (count \<le> limit), rr_remaining = max 0 (limit - count),
                   rr_resetAt = oldestScore + windowSeconds * 1000\<rparr>, store' e)))"

text \<open>Calls on one key, in the order in which they reach Redis, and those of them that are allowed.\<close>

record limiter_call =
  lc_redis :: redis_multi
  lc_now :: int
  lc_nonces :: "string list"
  lc_cost :: int

definition call_members :: "limiter_call \<Rightarrow> zmember list" where
  "call_members c = zaddArgs (lc_now c) (lc_nonces c) (lc_cost c)"

fun limiter_run :: "string \<Rightarrow> int \<Rightarrow> int \<Rightarrow> zstore \<Rightarrow> limiter_call list \<Rightarrow> limiter_call list" where
  "limiter_run key limit windowSeconds store [] = []"
| "limiter_run key limit windowSeconds store (c # cs) =
     (let (r, store') = rateLimiter (lc_redis c) store (lc_now c) (lc_nonces c) key limit windowSeconds (lc_cost c)
      in (if rr_allowed r then [c] else []) @ limiter_run key limit windowSeconds store' cs)"

definition limiter_store :: "string \<Rightarrow> int \<Rightarrow> int \<Rightarrow> limiter_call list \<Rightarrow> zstore \<Rightarrow> zstore" where
  "limiter_store key limit windowSeconds =
     fold (\<lambda>c store. snd (rateLimiter (lc_redis c) store (lc_now c) (lc_nonces c) key limit windowSeconds (lc_cost c)))"

text \<open>The units that calls ask for.\<close>

definition total_cost :: "limiter_call list \<Rightarrow> int" where
  "total_cost cs = int (sum_list (map (safeCost \<circ> lc_cost) cs))"

text \<open>The commands an allowed call rests on: the ones that record it, count it and keep the record.\<close>

definition reliable :: "redis_multi \<Rightarrow> bool" where
  "reliable redis = (case redis of MultiExec e \<Rightarrow> mr_zadd e \<and> mr_zcard e \<and> mr_expire e | _ \<Rightarrow> True)"

section \<open>The account lockout\<close>

record counter =
  cn_value :: int
  cn_expires :: "int option"

type_synonym counter_store = "string \<rightharpoonup> counter"

record counter_link =
  cl_incr_ok :: bool
  cl_expire_ok :: bool
  cl_get_ok :: bool
  cl_del_ok :: bool

record account_failure_result =
  af_count :: int
  af_locked :: bool
  af_newlyLocked :: bool

definition accountFailureKey :: "string \<Rightarrow> string" where
  "accountFailureKey email = ''login:account-fail:'' @ toLowerCase email"

definition live_counter :: "counter_store \<Rightarrow> int \<Rightarrow> string \<Rightarrow> counter option" where
  "live_counter store now key =
     (case store key of
        None \<Rightarrow> None
      | Some c \<Rightarrow> (case cn_expires c of
                    None \<Rightarrow> Some c
                  | Some e \<Rightarrow> if e \<le> now then None else Some c))"

definition redis_incr :: "counter_store \<Rightarrow> int \<Rightarrow> string \<Rightarrow> int \<times> counter_store" where
  "redis_incr store now key =
     (case live_counter store now key of
        None \<Rightarrow> (1, store(key \<mapsto> \<lparr>cn_value = 1, cn_expires = None\<rparr>))
      | Some c \<Rightarrow> (cn_value c + 1, store(key \<mapsto> c\<lparr>cn_value := cn_value c + 1\<rparr>)))"

definition redis_expire :: "counter_store \<Rightarrow> int \<Rightarrow> string \<Rightarrow> int \<Rightarrow> counter_store" where
  "redis_expire store now key seconds =
     (case live_counter store now key of
        None \<Rightarrow> store
      | Some c \<Rightarrow> store(key \<mapsto> c\<lparr>cn_expires := Some (now + seconds * 1000)\<rparr>))"

definition recordAccountFailure ::
  "int \<Rightarrow> int \<Rightarrow> counter_link option \<Rightarrow> counter_store \<Rightarrow> int \<Rightarrow> string
     \<Rightarrow> account_failure_result \<times> counter_store" where
  "recordAccountFailure maxAttempts windowSeconds redis store now email =
     (if maxAttempts \<le> 0 then (\<lparr>af_count = 0, af_locked = False, af_newlyLocked = False\<rparr>, store)
      else
        (let failed = \<lparr>af_count = maxAttempts, af_locked = True, af_newlyLocked = False\<rparr>;
             key = accountFailureKey email
         in case redis of
              None \<Rightarrow> (failed, store)
            | Some link \<Rightarrow>
                if \<not> cl_incr_ok link then (failed, store)
                else
                  (let (count, store') = redis_incr store now key
                   in if count = 1 \<and> \<not> cl_expire_ok link then (failed, store')
                      else (\<lparr>af_count = count, af_locked = (count \<ge> maxAttempts),
                             af_newlyLocked = (count = maxAttempts)\<rparr>,
                            if count = 1 then redis_expire store' now key windowSeconds else store'))))"

definition clearAccountFailures :: "counter_link option \<Rightarrow> counter_store \<Rightarrow> string \<Rightarrow> counter_store" where
  "clearAccountFailures redis store email =
     (case redis of
        None \<Rightarrow> store
      | Some link \<Rightarrow> if cl_del_ok link then store(accountFailureKey email := None) else store)"

definition isAccountLocked :: "int \<Rightarrow> counter_link option \<Rightarrow> counter_store \<Rightarrow> int \<Rightarrow> string \<Rightarrow> bool" where
  "isAccountLocked maxAttempts redis store now email =
     (if maxAttempts \<le> 0 then False
      else (case redis of
              None \<Rightarrow> True
            | Some link \<Rightarrow>
                if \<not> cl_get_ok link then True
                else (case live_counter store now (accountFailureKey email) of
                        None \<Rightarrow> False
                      | Some c \<Rightarrow> cn_value c \<ge> maxAttempts)))"

text \<open>Consecutive failed logins of one account at the given times, over a healthy connection.\<close>

definition healthy :: counter_link where
  "healthy = \<lparr>cl_incr_ok = True, cl_expire_ok = True, cl_get_ok = True, cl_del_ok = True\<rparr>"

fun failure_run ::
  "int \<Rightarrow> int \<Rightarrow> counter_store \<Rightarrow> string \<Rightarrow> int list \<Rightarrow> account_failure_result list \<times> counter_store" where
  "failure_run maxAttempts windowSeconds store email [] = ([], store)"
| "failure_run maxAttempts windowSeconds store email (t # ts) =
     (let (r, store') = recordAccountFailure maxAttempts windowSeconds (Some healthy) store t email;
          (rs, store'') = failure_run maxAttempts windowSeconds store' email ts
      in (r # rs, store''))"

text \<open>Four calls: one refused for want of an answer, one of cost 2 and a refused one among them.\<close>

definition sample_calls :: "limiter_call list" where
  "sample_calls =
     [\<lparr>lc_redis = MultiExec all_ran, lc_now = 0, lc_nonces = [''a'', ''b''], lc_cost = 2\<rparr>,
      \<lparr>lc_redis = MultiLost all_ran, lc_now = 1, lc_nonces = [''c''], lc_cost = 1\<rparr>,
      \<lparr>lc_redis = MultiExec (all_ran\<lparr>mr_zremrangebyscore := False\<rparr>), lc_now = 2, lc_nonces = [''d''], lc_cost = 1\<rparr>,
      \<lparr>lc_redis = NoRedis, lc_now = 3, lc_nonces = [''e''], lc_cost = 1\<rparr>]"

section \<open>The window bound\<close>

text \<open>From \<open>now\<close> on the store holds every recent member of \<open>P\<close>.\<close>

definition remembers :: "string \<Rightarrow> int \<Rightarrow> zstore \<Rightarrow> int \<Rightarrow> zmember set \<Rightarrow> bool" where
  "remembers key W store now P =
     (\<forall>t \<ge> now. \<forall>p \<in> P. t - W * 1000 < fst p \<longrightarrow> p \<in> set (live_members store t key))"

lemma fold_zadd_member: "set (fold zadd_member ms xs) = set ms \<union> set xs"
  by (induction ms arbitrary: xs) (auto simp: zadd_member_def)

text \<open>Each command keeps a member that is alive now and at a later time, if its score and the new expiry allow.\<close>

lemma live_put:
  assumes "t = now \<or> q \<in> set (live_members store t key)" and "now \<le> t" and "p \<in> set ms"
  shows "p \<in> set (live_members (put_members store now key ms) t key)"
  using assms by (cases "store key") (auto simp: live_members_def live_key_def put_members_def split: option.splits if_splits)

lemma zremrangebyscore_keeps:
  assumes "p \<in> set (live_members store t key)" and "p \<in> set (live_members store now key)" and "now \<le> t" and "w < fst p"
  shows "p \<in> set (live_members (zremrangebyscore now key w store) t key)"
  unfolding zremrangebyscore_def using assms by (intro live_put) auto

lemma zadd_keeps:
  assumes "p \<in> set (live_members store t key)" and "p \<in> set (live_members store now key)" and "now \<le> t"
  shows "p \<in> set (live_members (zadd now key ms store) t key)"
  unfolding zadd_def using assms by (intro live_put) (auto simp: fold_zadd_member)

lemma zadd_adds: "set ms \<subseteq> set (live_members (zadd now key ms store) now key)"
  unfolding zadd_def by (auto intro!: live_put simp: fold_zadd_member)

lemma zexpire_keeps:
  assumes "p \<in> set (live_members store now key)" and "t < now + W * 1000"
  shows "p \<in> set (live_members (zexpire now key W store) t key)"
  using assms by (auto simp: live_members_def zexpire_def live_key_def split: option.splits if_splits)

text \<open>The store after the commands of one call, and after the first two of them.\<close>

definition counted_store :: "multi_replies \<Rightarrow> string \<Rightarrow> int \<Rightarrow> zstore \<Rightarrow> limiter_call \<Rightarrow> zstore" where
  "counted_store e key W store c =
     run_if (mr_zadd e) (zadd (lc_now c) key (call_members c))
       (run_if (mr_zremrangebyscore e) (zremrangebyscore (lc_now c) key (lc_now c - W * 1000)) store)"

definition expired_store :: "multi_replies \<Rightarrow> string \<Rightarrow> int \<Rightarrow> zstore \<Rightarrow> limiter_call \<Rightarrow> zstore" where
  "expired_store e key W store c = run_if (mr_expire e) (zexpire (lc_now c) key W) (counted_store e key W store c)"

lemma limiter_cases:
  assumes "rateLimiter (lc_redis c) store (lc_now c) (lc_nonces c) key limit W (lc_cost c) = (r, store')"
  obtains "\<not> rr_allowed r" and "store' = store"
  | e where "\<not> rr_allowed r" and "store' = expired_store e key W store c"
  | e where "lc_redis c = MultiExec e" and "store' = expired_store e key W store c"
      and "rr_allowed r \<longleftrightarrow> (if mr_zcard e then int (zcard (counted_store e key W store c) (lc_now c) key) else 0) \<le> limit"
  using assms
  by (cases "lc_redis c")
     (auto simp: rateLimiter_def Let_def failClosed_def expired_store_def counted_store_def call_members_def)

lemma counted_store_keeps:
  assumes "remembers key W store t0 P" and "t0 \<le> lc_now c" and "lc_now c \<le> t" and "p \<in> P" and "t - W * 1000 < fst p"
  shows "p \<in> set (live_members (counted_store e key W store c) t key)"
proof -
  let ?n = "lc_now c" and ?s = "run_if (mr_zremrangebyscore e) (zremrangebyscore (lc_now c) key (lc_now c - W * 1000)) store"
  have live: "p \<in> set (live_members store x key)" if "?n \<le> x" "x \<le> t" for x
    using assms that by (auto simp: remembers_def)
  have "p \<in> set (live_members ?s x key)" if "?n \<le> x" "x \<le> t" for x
    using live [OF that] live [OF order_refl assms(3)] that(1) assms(3,5)
    by (auto simp: run_if_def intro!: zremrangebyscore_keeps)
  from this [of t] this [of ?n] assms(3) show ?thesis
    by (auto simp: counted_store_def run_if_def intro!: zadd_keeps)
qed

lemma expired_store_keeps:
  assumes "remembers key W store t0 P" and "t0 \<le> lc_now c" and "\<forall>p \<in> P. fst p \<le> lc_now c"
  shows "remembers key W (expired_store e key W store c) (lc_now c) P"
  unfolding remembers_def
proof (intro allI ballI impI)
  fix t p assume t: "lc_now c \<le> t" and p: "p \<in> P" "t - W * 1000 < fst p"
  note counted = counted_store_keeps [OF assms(1,2) _ p(1), of _ e]
  from assms(3) p have "t < lc_now c + W * 1000" by force
  with counted [OF t p(2)] counted [of "lc_now c"] t p(2)
  show "p \<in> set (live_members (expired_store e key W store c) t key)"
    by (auto simp: expired_store_def run_if_def intro!: zexpire_keeps)
qed

lemma recorded_call:
  assumes "mr_zadd e" and "mr_expire e"
  shows "remembers key W (expired_store e key W store c) (lc_now c) (set (call_members c))"
  using zadd_adds [of "call_members c" "lc_now c" key] assms
  by (fastforce simp: remembers_def expired_store_def counted_store_def run_if_def call_members_def zaddArgs_def
      intro!: zexpire_keeps)

lemma counted_call:
  assumes "mr_zadd e" and "remembers key W store t0 P" and "t0 \<le> lc_now c" and "finite P"
  shows "card ({p \<in> P. lc_now c - W * 1000 < fst p} \<union> set (call_members c))
           \<le> zcard (counted_store e key W store c) (lc_now c) key"
proof -
  have "{p \<in> P. lc_now c - W * 1000 < fst p} \<union> set (call_members c)
      \<subseteq> set (live_members (counted_store e key W store c) (lc_now c) key)"
    using counted_store_keeps [OF assms(2,3) order_refl, of _ e] zadd_adds [of "call_members c" "lc_now c" key] assms(1)
    by (auto simp: counted_store_def run_if_def)
  then show ?thesis unfolding zcard_def by (meson List.finite_set card_length card_mono order_trans)
qed

text \<open>The members of the allowed calls of a run: those of any window are at most the limit.\<close>

definition members_of :: "limiter_call list \<Rightarrow> zmember set" where
  "members_of cs = set (concat (map call_members cs))"

definition window_members :: "int \<Rightarrow> int \<Rightarrow> zmember set \<Rightarrow> zmember set" where
  "window_members W T P = {p \<in> P. T - W * 1000 < fst p \<and> fst p \<le> T}"

lemma call_members_time: "p \<in> set (call_members c) \<Longrightarrow> fst p = lc_now c"
  by (auto simp: call_members_def zaddArgs_def)

lemma window_extend:
  assumes "\<And>T. int (card (window_members W T P)) \<le> limit" and "finite P" and "\<forall>p \<in> P. fst p \<le> lc_now c"
    and "int (card ({p \<in> P. lc_now c - W * 1000 < fst p} \<union> set (call_members c))) \<le> limit"
  shows "int (card (window_members W T (P \<union> set (call_members c)))) \<le> limit"
proof (cases "lc_now c \<le> T")
  case True
  have "window_members W T (P \<union> set (call_members c)) \<subseteq> {p \<in> P. lc_now c - W * 1000 < fst p} \<union> set (call_members c)"
    using True by (auto simp: window_members_def)
  from card_mono [OF _ this] assms(2,4) show ?thesis by simp
next
  case False
  then have "window_members W T (P \<union> set (call_members c)) = window_members W T P"
    by (auto simp: window_members_def dest: call_members_time)
  with assms(1) show ?thesis by simp
qed

lemma limiter_run_bound:
  assumes "remembers key W store t0 P" and "\<And>T. int (card (window_members W T P)) \<le> limit" and "finite P"
    and "sorted (t0 # map lc_now cs)" and "\<forall>p \<in> P. fst p \<le> t0" and "\<forall>c \<in> set cs. reliable (lc_redis c)"
  shows "int (card (window_members W T (P \<union> members_of (limiter_run key limit W store cs)))) \<le> limit"
  using assms
proof (induction cs arbitrary: store P t0)
  case (Cons c cs)
  obtain r store' where call:
    "rateLimiter (lc_redis c) store (lc_now c) (lc_nonces c) key limit W (lc_cost c) = (r, store')" by fastforce
  have c: "t0 \<le> lc_now c" "\<forall>p \<in> P. fst p \<le> lc_now c" "sorted (lc_now c # map lc_now cs)"
    using Cons.prems(4,5) by auto
  let ?P = "if rr_allowed r then P \<union> set (call_members c) else P"
  have keep: "remembers key W (expired_store e key W store c) (lc_now c) P" for e
    by (rule expired_store_keeps [OF Cons.prems(1) c(1,2)])
  have late: "remembers key W store (lc_now c) P" using Cons.prems(1) c(1) by (auto simp: remembers_def)
  have "remembers key W store' (lc_now c) ?P \<and> (\<forall>T. int (card (window_members W T ?P)) \<le> limit)"
  proof (rule limiter_cases [OF call])
    fix e assume e: "lc_redis c = MultiExec e" "store' = expired_store e key W store c"
      "rr_allowed r \<longleftrightarrow> (if mr_zcard e then int (zcard (counted_store e key W store c) (lc_now c) key) else 0) \<le> limit"
    then have ok: "mr_zadd e" "mr_zcard e" "mr_expire e" using Cons.prems(6) by (auto simp: reliable_def)
    have "remembers key W store' (lc_now c) (P \<union> set (call_members c))"
      using keep [of e] recorded_call [OF ok(1,3), of key W store c] unfolding e(2) by (auto simp: remembers_def)
    moreover have "int (card (window_members W T (P \<union> set (call_members c)))) \<le> limit" if "rr_allowed r" for T
      using counted_call [OF ok(1) Cons.prems(1) c(1) Cons.prems(3)] e(3) ok(2) that
      by (intro window_extend [OF Cons.prems(2,3) c(2)]) simp
    ultimately show ?thesis using keep [of e] Cons.prems(2) e(2) by simp
  qed (use keep late Cons.prems(2) in simp_all)
  then have "int (card (window_members W T (?P \<union> members_of (limiter_run key limit W store' cs)))) \<le> limit"
    using Cons.prems(3,6) c(2,3) call_members_time by (intro Cons.IH) auto
  then show ?case by (simp add: call members_of_def Un_ac split: if_splits)
qed (simp add: members_of_def)

lemma length_members: "length (concat (map call_members cs)) = sum_list (map (safeCost \<circ> lc_cost) cs)"
  by (induction cs) (auto simp: call_members_def zaddArgs_def)

lemma limiter_run_filter:
  "distinct (concat (map call_members cs)) \<Longrightarrow> distinct (concat (map call_members (limiter_run key limit W store cs)))"
  "set (limiter_run key limit W store cs) \<subseteq> set cs"
proof (induction cs arbitrary: store)
  case (Cons c cs)
  case 1
  then have "set (call_members c) \<inter> set (concat (map call_members (limiter_run key limit W s cs))) = {}" for s
    using Cons.IH(2) [of s] by fastforce
  with 1 Cons.IH(1) show ?case by (auto simp: case_prod_beta)
next
  case (Cons c cs)
  case 2
  from Cons.IH(2) show ?case by (auto simp: case_prod_beta)
qed simp_all

lemma window_cost:
  assumes "distinct (concat (map call_members cs))"
  shows "int (card (window_members W T (members_of cs)))
           = total_cost (filter (\<lambda>c. T - W * 1000 < lc_now c \<and> lc_now c \<le> T) cs)"
proof -
  let ?in = "\<lambda>x. T - W * 1000 < x \<and> x \<le> T"
  have eq: "filter (\<lambda>p. ?in (fst p)) (concat (map call_members xs)) = concat (map call_members (filter (\<lambda>c. ?in (lc_now c)) xs))" for xs
  proof (induction xs)
    case (Cons x xs)
    have "filter (\<lambda>p. ?in (fst p)) (call_members x) = (if ?in (lc_now x) then call_members x else [])"
      by (auto simp: filter_id_conv filter_empty_conv dest: call_members_time)
    with Cons show ?case by simp
  qed simp
  have "window_members W T (members_of cs) = set (filter (\<lambda>p. ?in (fst p)) (concat (map call_members cs)))"
    by (simp only: set_filter window_members_def members_of_def)
  moreover have "distinct (filter (\<lambda>p. ?in (fst p)) (concat (map call_members cs)))"
    using assms by (rule distinct_filter)
  ultimately show ?thesis by (simp only: eq distinct_card length_members total_cost_def)
qed

lemma limiter_run_answered: "c \<in> set (limiter_run key limit W store cs) \<Longrightarrow> \<exists>e. lc_redis c = MultiExec e"
proof (induction cs arbitrary: store)
  case (Cons d cs)
  then show ?case
    by (cases "lc_redis d") (auto simp: rateLimiter_def failClosed_def Let_def case_prod_beta split: if_splits)
qed simp

text \<open>Conversely, a key that was empty holds nothing but members of the calls made since.\<close>

definition holds_only :: "string \<Rightarrow> zstore \<Rightarrow> int \<Rightarrow> zmember set \<Rightarrow> bool" where
  "holds_only key store now A =
     (\<forall>t \<ge> now. set (live_members store t key) \<subseteq> A \<and> distinct (live_members store t key))"

lemma holds_only_put:
  assumes "set ms \<subseteq> A" and "distinct ms"
  shows "holds_only key (put_members store now key ms) now A"
  using assms by (auto simp: holds_only_def live_members_def live_key_def put_members_def split: option.splits if_splits)

lemma holds_only_zexpire:
  assumes "holds_only key store now A"
  shows "holds_only key (zexpire now key W store) now A"
proof -
  have "live_members (zexpire now key W store) t key \<in> {[], live_members store now key}" if "now \<le> t" for t
    using that by (auto simp: live_members_def zexpire_def live_key_def split: option.splits if_splits)
  with assms show ?thesis by (fastforce simp: holds_only_def)
qed

lemma distinct_fold_zadd_member: "distinct xs \<Longrightarrow> distinct (fold zadd_member ms xs)"
  by (induction ms arbitrary: xs) (auto simp: zadd_member_def)

lemma holds_only_mono: "holds_only key store t A \<Longrightarrow> t \<le> t' \<Longrightarrow> A \<subseteq> B \<Longrightarrow> holds_only key store t' B"
  unfolding holds_only_def by (meson order_trans)

lemma holds_only_now:
  assumes "holds_only key store t A" and "t \<le> now"
  shows "set (live_members store now key) \<subseteq> A" and "distinct (live_members store now key)"
  using assms by (simp_all add: holds_only_def)

lemma holds_only_counted:
  assumes "holds_only key store t0 A" and "t0 \<le> lc_now c"
  shows "holds_only key (counted_store e key W store c) (lc_now c)
           ((if mr_zremrangebyscore e then {p \<in> A. lc_now c - W * 1000 < fst p} else A) \<union> set (call_members c))"
    (is "holds_only _ _ ?n (?B \<union> _)")
proof -
  let ?s = "run_if (mr_zremrangebyscore e) (zremrangebyscore ?n key (?n - W * 1000)) store"
  note now = holds_only_now [OF assms]
  have "holds_only key (zremrangebyscore ?n key (?n - W * 1000) store) ?n {p \<in> A. ?n - W * 1000 < fst p}"
    unfolding zremrangebyscore_def by (rule holds_only_put) (use now in auto)
  then have s: "holds_only key ?s ?n ?B" using holds_only_mono [OF assms order_refl] by (simp add: run_if_def)
  note now' = holds_only_now [OF s order_refl]
  have "holds_only key (zadd ?n key (call_members c) ?s) ?n (?B \<union> set (call_members c))"
    unfolding zadd_def
    by (rule holds_only_put [OF _ distinct_fold_zadd_member [OF now'(2)]]) (use now'(1) in \<open>simp only: fold_zadd_member, blast\<close>)
  moreover have "holds_only key ?s ?n (?B \<union> set (call_members c))" by (rule holds_only_mono [OF s]) simp_all
  ultimately show ?thesis unfolding counted_store_def run_if_def [of "mr_zadd e"] by simp
qed

lemma holds_only_run:
  assumes "holds_only key store t0 A" and "sorted (t0 # map lc_now cs)"
  shows "holds_only key (limiter_store key limit W cs store) (last (t0 # map lc_now cs)) (A \<union> members_of cs)"
  using assms
proof (induction cs arbitrary: store t0 A)
  case (Cons c cs)
  obtain r store' where call:
    "rateLimiter (lc_redis c) store (lc_now c) (lc_nonces c) key limit W (lc_cost c) = (r, store')" by fastforce
  have t0: "t0 \<le> lc_now c" using Cons.prems(2) by simp
  have "holds_only key (expired_store e key W store c) (lc_now c) (A \<union> set (call_members c))" for e
  proof -
    have "holds_only key (counted_store e key W store c) (lc_now c) (A \<union> set (call_members c))"
      by (rule holds_only_mono [OF holds_only_counted [OF Cons.prems(1) t0, of e W]]) auto
    then show ?thesis by (simp add: expired_store_def run_if_def holds_only_zexpire)
  qed
  then have "holds_only key store' (lc_now c) (A \<union> set (call_members c))"
    using holds_only_mono [OF Cons.prems(1) t0] by (auto intro: limiter_cases [OF call])
  from Cons.IH [OF this] Cons.prems(2)
  have "holds_only key (limiter_store key limit W cs store') (last (lc_now c # map lc_now cs))
          ((A \<union> set (call_members c)) \<union> members_of cs)" by simp
  then show ?case by (simp add: limiter_store_def call members_of_def Un_ac)
qed (simp add: limiter_store_def members_of_def)

section \<open>The lockout counter\<close>

lemma live_counter_upd [simp]:
  "live_counter (store(k \<mapsto> c)) now k
     = (case cn_expires c of None \<Rightarrow> Some c | Some e \<Rightarrow> if e \<le> now then None else Some c)"
  by (simp add: live_counter_def)

text \<open>One more failure on a counter that is still alive.\<close>

lemma record_live:
  assumes "live_counter store t (accountFailureKey email) = Some c" and "maxAttempts > 0" and "cn_value c \<ge> 1"
  shows "recordAccountFailure maxAttempts W (Some healthy) store t email =
           (\<lparr>af_count = cn_value c + 1, af_locked = (cn_value c + 1 \<ge> maxAttempts),
             af_newlyLocked = (cn_value c + 1 = maxAttempts)\<rparr>,
            store(accountFailureKey email \<mapsto> c\<lparr>cn_value := cn_value c + 1\<rparr>))"
  using assms by (simp add: recordAccountFailure_def Let_def healthy_def redis_incr_def)

lemma record_first:
  assumes "live_counter store t (accountFailureKey email) = None" and "maxAttempts > 0"
  shows "recordAccountFailure maxAttempts W (Some healthy) store t email =
           (\<lparr>af_count = 1, af_locked = (1 \<ge> maxAttempts), af_newlyLocked = (1 = maxAttempts)\<rparr>,
            store(accountFailureKey email \<mapsto> \<lparr>cn_value = 1, cn_expires = Some (t + W * 1000)\<rparr>))"
  using assms by (simp add: recordAccountFailure_def Let_def healthy_def redis_incr_def redis_expire_def)

lemma failure_run_live:
  assumes "store (accountFailureKey email) = Some c" and "cn_value c \<ge> 1" and "maxAttempts > 0"
    and "\<And>t. t \<in> set ts \<Longrightarrow> cn_expires c = None \<or> (\<exists>e. cn_expires c = Some e \<and> t < e)"
  shows "map af_newlyLocked (fst (failure_run maxAttempts W store email ts))
           = map (\<lambda>j. cn_value c + 1 + int j = maxAttempts) [0..<length ts]
         \<and> snd (failure_run maxAttempts W store email ts) (accountFailureKey email)
           = Some (c\<lparr>cn_value := cn_value c + int (length ts)\<rparr>)"
  using assms
proof (induction ts arbitrary: store c)
  case (Cons t ts)
  let ?c = "c\<lparr>cn_value := cn_value c + 1\<rparr>"
  let ?store = "store(accountFailureKey email \<mapsto> ?c)"
  have "live_counter store t (accountFailureKey email) = Some c"
    using Cons.prems(1,4) by (fastforce simp: live_counter_def split: option.splits)
  note rec = record_live [OF this Cons.prems(3,2), of W]
  have "map af_newlyLocked (fst (failure_run maxAttempts W ?store email ts))
           = map (\<lambda>j. cn_value ?c + 1 + int j = maxAttempts) [0..<length ts]
         \<and> snd (failure_run maxAttempts W ?store email ts) (accountFailureKey email)
           = Some (?c\<lparr>cn_value := cn_value ?c + int (length ts)\<rparr>)"
    using Cons.prems by (intro Cons.IH) auto
  then show ?case
    by (simp add: rec case_prod_beta map_upt_Suc ac_simps del: upt_Suc)
qed simp

lemma failure_run_fresh:
  assumes "live_counter store t (accountFailureKey email) = None" and "maxAttempts > 0"
    and "\<And>x. x \<in> set ts \<Longrightarrow> x < t + W * 1000"
  shows "map af_newlyLocked (fst (failure_run maxAttempts W store email (t # ts)))
           = map (\<lambda>j. 1 + int j = maxAttempts) [0..<Suc (length ts)]
         \<and> snd (failure_run maxAttempts W store email (t # ts)) (accountFailureKey email)
           = Some \<lparr>cn_value = 1 + int (length ts), cn_expires = Some (t + W * 1000)\<rparr>"
proof -
  let ?c = "\<lparr>cn_value = 1, cn_expires = Some (t + W * 1000)\<rparr>"
  let ?store = "store(accountFailureKey email \<mapsto> ?c)"
  have "map af_newlyLocked (fst (failure_run maxAttempts W ?store email ts))
           = map (\<lambda>j. cn_value ?c + 1 + int j = maxAttempts) [0..<length ts]
         \<and> snd (failure_run maxAttempts W ?store email ts) (accountFailureKey email)
           = Some (?c\<lparr>cn_value := cn_value ?c + int (length ts)\<rparr>)"
    using assms(2,3) by (intro failure_run_live) auto
  then show ?thesis
    by (simp add: record_first [OF assms(1,2)] case_prod_beta map_upt_Suc ac_simps del: upt_Suc)
qed

section \<open>Properties\<close>

text \<open>C39: The sliding window holds its bound. For calls of any cost on one key, with whatever the key held before,
  the units of the calls that are allowed within any window of the configured length are at most the limit, and
  a call is allowed only on an answer of Redis: without a connection, or when the transaction is aborted, fails or
  its answer is lost, it is refused. The calls reach Redis in the order of their clock readings, their members are
  distinct, and in the transactions that answer the commands that add, count and keep the members do not answer
  with an error (the two others may).\<close>

theorem sliding_window_bound:
  assumes "sorted (map lc_now cs)" and "distinct (concat (map call_members cs))" and "0 \<le> limit"
    and "\<forall>c \<in> set cs. reliable (lc_redis c)"
  shows "total_cost (filter (\<lambda>c. T - W * 1000 < lc_now c \<and> lc_now c \<le> T) (limiter_run key limit W store cs)) \<le> limit
    \<and> (\<forall>c \<in> set (limiter_run key limit W store cs). \<exists>e. lc_redis c = MultiExec e)"
proof -
  let ?t0 = "case cs of [] \<Rightarrow> 0 | c # _ \<Rightarrow> lc_now c"
  have "int (card (window_members W T ({} \<union> members_of (limiter_run key limit W store cs)))) \<le> limit"
    by (rule limiter_run_bound [where ?t0.0 = ?t0])
       (use assms in \<open>auto simp: remembers_def window_members_def split: list.split\<close>)
  then show ?thesis
    using window_cost [OF limiter_run_filter(1) [OF assms(2)]] limiter_run_answered by fastforce
qed

theorem sliding_window_bound_witness:
  "total_cost (filter (\<lambda>c. 10 - 60 * 1000 < lc_now c \<and> lc_now c \<le> 10) (limiter_run ''k'' 3 60 Map.empty sample_calls)) \<le> 3
   \<and> limiter_run ''k'' 3 60 Map.empty sample_calls = [hd sample_calls]"
proof
  show "limiter_run ''k'' 3 60 Map.empty sample_calls = [hd sample_calls]" by code_simp
  show "total_cost (filter (\<lambda>c. 10 - 60 * 1000 < lc_now c \<and> lc_now c \<le> 10) (limiter_run ''k'' 3 60 Map.empty sample_calls)) \<le> 3"
    by (rule conjunct1 [OF sliding_window_bound])
       (simp_all add: sample_calls_def call_members_def zaddArgs_def safeCost_def reliable_def all_ran_def upt_rec)
qed

text \<open>The limiter refuses no call without need. On a key that was empty, a call whose commands all run is refused
  only if the calls of the window that ends with it, refused ones included, ask together for more than the limit.\<close>

theorem refused_only_over_limit:
  assumes "store key = None" and "sorted (map lc_now (cs @ [c]))" and "lc_redis c = MultiExec all_ran"
    and "rateLimiter (lc_redis c) (limiter_store key limit W cs store) (lc_now c) (lc_nonces c) key limit W (lc_cost c)
           = (r, store')"
    and "\<not> rr_allowed r"
  shows "limit < total_cost (filter (\<lambda>d. lc_now c - W * 1000 < lc_now d) cs @ [c])"
proof -
  let ?s = "limiter_store key limit W cs store" and ?recent = "filter (\<lambda>d. lc_now c - W * 1000 < lc_now d) cs"
  let ?t0 = "case cs of [] \<Rightarrow> lc_now c | d # _ \<Rightarrow> lc_now d"
  let ?live = "live_members (counted_store all_ran key W ?s c) (lc_now c) key"
  have "holds_only key store ?t0 {}" using assms(1) by (simp add: holds_only_def live_members_def live_key_def)
  from holds_only_run [OF this, of cs limit W] assms(2)
  have run: "holds_only key ?s (last (?t0 # map lc_now cs)) (members_of cs)"
    by (cases cs) (simp_all add: sorted_append)
  have "last (?t0 # map lc_now cs) \<le> lc_now c" using assms(2) by (auto simp: sorted_append last_map)
  from holds_only_counted [OF run this, of all_ran W]
  have live: "set ?live \<subseteq> {p \<in> members_of cs. lc_now c - W * 1000 < fst p} \<union> set (call_members c)" "distinct ?live"
    by (simp_all add: holds_only_def all_ran_def)
  have "{p \<in> members_of cs. lc_now c - W * 1000 < fst p} \<subseteq> members_of ?recent"
    using call_members_time by (fastforce simp: members_of_def)
  with live(1) have "set ?live \<subseteq> set (concat (map call_members (?recent @ [c])))" by (auto simp: members_of_def)
  then have "length ?live \<le> length (concat (map call_members (?recent @ [c])))"
    using card_mono [OF finite_set, of "set ?live" "concat (map call_members (?recent @ [c]))"] distinct_card [OF live(2)]
      card_length [of "concat (map call_members (?recent @ [c]))"] by linarith
  moreover have "limit < int (length ?live)"
    using assms(4,5) unfolding assms(3)
    by (auto simp: rateLimiter_def Let_def zcard_def counted_store_def call_members_def all_ran_def)
  ultimately show ?thesis unfolding length_members total_cost_def by simp
qed

theorem refused_only_over_limit_witness:
  "1 < total_cost (filter (\<lambda>d. 2 - 60 * 1000 < lc_now d) (take 2 sample_calls)
         @ [\<lparr>lc_redis = MultiExec all_ran, lc_now = 2, lc_nonces = [''d''], lc_cost = 1\<rparr>])"
proof -
  let ?c = "\<lparr>lc_redis = MultiExec all_ran, lc_now = 2, lc_nonces = [''d''], lc_cost = 1\<rparr>"
  let ?run = "rateLimiter (lc_redis ?c) (limiter_store ''k'' 1 60 (take 2 sample_calls) Map.empty) (lc_now ?c) (lc_nonces ?c)
    ''k'' 1 60 (lc_cost ?c)"
  have r: "\<not> rr_allowed (fst ?run)" by code_simp
  have s: "sorted (map lc_now (take 2 sample_calls @ [?c]))" by code_simp
  have "1 < total_cost (filter (\<lambda>d. lc_now ?c - 60 * 1000 < lc_now d) (take 2 sample_calls) @ [?c])"
    by (rule refused_only_over_limit [where store = Map.empty and r = "fst ?run" and store' = "snd ?run", OF _ s])
       (use r in simp_all)
  then show ?thesis by simp
qed

text \<open>An error of the counting command opens the limiter: when \<open>ZCARD\<close> answers with an error inside a
  transaction that answers, the missing count is read as zero and the call is allowed, whatever the key holds.\<close>

theorem failed_count_allows:
  assumes "\<not> mr_zcard e" and "0 \<le> limit"
  shows "rr_allowed (fst (rateLimiter (MultiExec e) store now nonces key limit W cost))"
  using assms by (simp add: rateLimiter_def Let_def)

text \<open>The lockout fires exactly once. Over the failures of one window, counted from the first,
  the notice flag is raised by the call that reaches the threshold and by no other, and from then on
  the account is locked until the window that the first failure opened has passed.\<close>

theorem lockout_fires_once:
  assumes "live_counter store t (accountFailureKey email) = None" and "maxAttempts > 0"
    and "\<And>x. x \<in> set ts \<Longrightarrow> t \<le> x \<and> x < t + W * 1000"
  shows "map af_newlyLocked (fst (failure_run maxAttempts W store email (t # ts)))
           = map (\<lambda>j. 1 + int j = maxAttempts) [0..<Suc (length ts)]
         \<and> (maxAttempts \<le> 1 + int (length ts) \<longrightarrow>
              (\<forall>now. isAccountLocked maxAttempts (Some healthy)
                  (snd (failure_run maxAttempts W store email (t # ts))) now email
                \<longleftrightarrow> now < t + W * 1000))"
  using failure_run_fresh [OF assms(1,2), of ts W] assms(2,3)
  by (auto simp: isAccountLocked_def healthy_def live_counter_def)

theorem lockout_fires_once_witness:
  "map af_newlyLocked (fst (failure_run 2 900 Map.empty ''a@b.c'' [0, 5, 9])) = [False, True, False]"
proof -
  have "live_counter Map.empty 0 (accountFailureKey ''a@b.c'') = None" by (simp add: live_counter_def)
  moreover have "\<And>x. x \<in> set [5, 9 :: int] \<Longrightarrow> 0 \<le> x \<and> x < 0 + 900 * 1000" by auto
  ultimately have "map af_newlyLocked (fst (failure_run 2 900 Map.empty ''a@b.c'' [0, 5, 9]))
      = map (\<lambda>j. 1 + int j = 2) [0..<Suc (length [5, 9 :: int])]"
    by (intro conjunct1 [OF lockout_fires_once]) simp_all
  then show ?thesis by (simp add: upt_rec del: failure_run.simps)
qed

text \<open>A counter whose expiry could not be set locks the account without end. When the first
  failure increments the counter but the \<open>EXPIRE\<close> that should follow fails, later failures never set
  it; once they reach the threshold the account stays locked at every later time, since the lock
  keeps the successful login that would clear it from happening.\<close>

theorem lockout_without_expiry:
  assumes "live_counter store t (accountFailureKey email) = None" and "maxAttempts > 0"
    and "maxAttempts \<le> 1 + int (length ts)"
  shows "isAccountLocked maxAttempts (Some healthy)
           (snd (failure_run maxAttempts W
             (snd (recordAccountFailure maxAttempts W (Some (healthy\<lparr>cl_expire_ok := False\<rparr>)) store t email))
             email ts)) now email"
proof -
  let ?s = "snd (recordAccountFailure maxAttempts W (Some (healthy\<lparr>cl_expire_ok := False\<rparr>)) store t email)"
  have "?s (accountFailureKey email) = Some \<lparr>cn_value = 1, cn_expires = None\<rparr>"
    using assms(1,2) by (simp add: recordAccountFailure_def Let_def healthy_def redis_incr_def)
  from failure_run_live [where store = ?s, OF this, where maxAttempts = maxAttempts and ts = ts and W = W] assms(2,3)
  show ?thesis
    by (simp add: isAccountLocked_def healthy_def live_counter_def)
qed

theorem lockout_without_expiry_witness:
  "isAccountLocked 2 (Some healthy)
     (snd (failure_run 2 900
       (snd (recordAccountFailure 2 900 (Some (healthy\<lparr>cl_expire_ok := False\<rparr>)) Map.empty 0 ''a@b.c''))
       ''a@b.c'' [5])) (10 ^ 12) ''a@b.c''"
proof -
  have "live_counter Map.empty 0 (accountFailureKey ''a@b.c'') = None" by (simp add: live_counter_def)
  from lockout_without_expiry [OF this, of 2 "[5]"] show ?thesis by simp
qed

end
