(* ===== verification/Ai_Guardrails.thy ===== *)
theory Ai_Guardrails
  imports Role_Assignment Rate_Limit
begin

text \<open>
  apps/api/src/services/aiGuardrails.ts: what an AI tool call needs before it runs. A call has a
  tier (1 and 2 run, 3 asks for approval, 4 is blocked), taken from three tables of actions or else
  from the tool's registration; the caller's role must grant the permission the tool and action map
  to; some tools are rate limited.

  The registration look-up \<open>getToolTier\<close> of the tool registry is an argument. The action of a call is
  the \<open>action\<close> string of its input, absent when the input has none. The human-readable description
  of a call is not modelled.
\<close>

section \<open>Tables\<close>

datatype perm_def = Flat string string | ByAction "(string \<times> string \<times> string) list"

definition BLOCKED_TOOLS :: "string list" where
  "BLOCKED_TOOLS = []"

definition TIER2_ACTIONS :: "(string \<times> string list) list" where
  "TIER2_ACTIONS =
     [(''manage_alerts'', [''acknowledge'', ''resolve'', ''suppress'']),
      (''manage_tickets'', [''create'', ''comment'', ''assign'', ''update_status'', ''update_fields'', ''link_alert'', ''unlink_alert'', ''create_from_alert'', ''edit_comment'', ''delete_comment'', ''log_time_entry'', ''start_timer'', ''stop_timer'']),
      (''manage_services'', [''list'']),
      (''file_operations'', [''list'']),
      (''manage_configuration_policy'', [''activate'', ''deactivate'']),
      (''manage_deployments'', [''pause'', ''resume'']),
      (''manage_patches'', [''approve'', ''decline'', ''defer'', ''bulk_approve'', ''scan'']),
      (''manage_groups'', [''add_devices'', ''remove_devices'']),
      (''manage_automations'', [''enable'', ''disable'']),
      (''generate_report'', [''create'', ''update'', ''delete'', ''generate'']),
      (''manage_update_rings'', [''create'', ''update'']),
      (''manage_software_policies'', [''create'', ''update'']),
      (''manage_peripheral_policies'', [''create'', ''update'']),
      (''manage_backup_configs'', [''create'', ''update'']),
      (''manage_backup_profiles'', [''create'', ''update'', ''delete'']),
      (''manage_notification_channels'', [''test'', ''create'', ''update'', ''delete'']),
      (''manage_saved_filters'', [''create'', ''delete''])]"

definition TIER1_ACTIONS :: "(string \<times> string list) list" where
  "TIER1_ACTIONS =
     [(''security_scan'', [''vulnerabilities'']),
      (''manage_tags'', [''list''])]"

definition TIER3_ACTIONS :: "(string \<times> string list) list" where
  "TIER3_ACTIONS =
     [(''file_operations'', [''read'', ''write'', ''delete'', ''mkdir'', ''rename'']),
      (''manage_services'', [''start'', ''stop'', ''restart'']),
      (''security_scan'', [''quarantine'', ''remove'', ''restore'']),
      (''disk_cleanup'', [''execute'']),
      (''manage_startup_items'', [''disable'', ''enable'']),
      (''manage_scheduled_tasks'', [''run'', ''disable'', ''enable'', ''delete'']),
      (''manage_configuration_policy'', [''create'', ''update'', ''delete'']),
      (''manage_deployments'', [''create'', ''start'', ''cancel'']),
      (''manage_patches'', [''install'', ''rollback'']),
      (''manage_groups'', [''create'', ''update'', ''delete'']),
      (''manage_automations'', [''run'']),
      (''manage_processes'', [''kill'']),
      (''manage_policy_feature_link'', [''remove'']),
      (''registry_operations'', [''set_value'', ''create_key'', ''delete_key'']),
      (''manage_dr_plan'', [''delete_group'']),
      (''manage_hyperv_checkpoints'', [''delete'', ''apply'']),
      (''manage_monitors'', [''create'', ''update'', ''delete'']),
      (''manage_tickets'', [''move_org'']),
      (''manage_invoices'', [''issue'', ''void'', ''record_payment'', ''void_payment'']),
      (''manage_contracts'', [''activate'', ''pause'', ''resume'', ''cancel'']),
      (''manage_quotes'', [''send'']),
      (''manage_organizations'', [''create_org'', ''update_org'', ''create_site''])]"

definition TOOL_PERMISSIONS_1 :: "(string \<times> perm_def) list" where
  "TOOL_PERMISSIONS_1 =
     [(''query_devices'', Flat ''devices'' ''read''),
      (''get_device_details'', Flat ''devices'' ''read''),
      (''get_vulnerability_report'', Flat ''devices'' ''read''),
      (''get_device_vulnerabilities'', Flat ''devices'' ''read''),
      (''remediate_vulnerability'', Flat ''patches'' ''execute''),
      (''analyze_metrics'', Flat ''devices'' ''read''),
      (''get_s1_status'', Flat ''organizations'' ''read''),
      (''get_s1_threats'', Flat ''devices'' ''read''),
      (''s1_isolate_device'', Flat ''devices'' ''execute''),
      (''s1_threat_action'', Flat ''devices'' ''execute''),
      (''execute_command'', Flat ''devices'' ''execute''),
      (''run_script'', Flat ''scripts'' ''execute''),
      (''manage_alerts'', ByAction [(''list'', ''alerts'', ''read''), (''get'', ''alerts'', ''read''), (''acknowledge'', ''alerts'', ''acknowledge''), (''resolve'', ''alerts'', ''write''), (''suppress'', ''alerts'', ''write'')]),
      (''manage_tickets'', ByAction [(''list'', ''tickets'', ''read''), (''get'', ''tickets'', ''read''), (''create'', ''tickets'', ''write''), (''comment'', ''tickets'', ''write''), (''assign'', ''tickets'', ''write''), (''update_status'', ''tickets'', ''write''), (''update_fields'', ''tickets'', ''write''), (''link_alert'', ''tickets'', ''write''), (''unlink_alert'', ''tickets'', ''write''), (''create_from_alert'', ''tickets'', ''write''), (''edit_comment'', ''tickets'', ''write''), (''delete_comment'', ''tickets'', ''write''), (''move_org'', ''tickets'', ''write''), (''log_time_entry'', ''time_entries'', ''write''), (''start_timer'', ''time_entries'', ''write''), (''stop_timer'', ''time_entries'', ''write'')]),
      (''list_invoices'', Flat ''invoices'' ''read''),
      (''get_invoice'', Flat ''invoices'' ''read''),
      (''manage_invoices'', ByAction [(''create_draft'', ''invoices'', ''write''), (''add_manual_line'', ''invoices'', ''write''), (''add_catalog_line'', ''invoices'', ''write''), (''add_bundle_line'', ''invoices'', ''write''), (''add_contract_line'', ''invoices'', ''write''), (''update_line'', ''invoices'', ''write''), (''remove_line'', ''invoices'', ''write''), (''update_header'', ''invoices'', ''write''), (''delete_draft'', ''invoices'', ''write''), (''assemble_from_org'', ''invoices'', ''write''), (''assemble_from_ticket'', ''invoices'', ''write''), (''issue'', ''invoices'', ''send''), (''void'', ''invoices'', ''send''), (''record_payment'', ''invoices'', ''send''), (''void_payment'', ''invoices'', ''send''), (''create_pay_link'', ''invoices'', ''write'')]),
      (''search_catalog'', Flat ''catalog'' ''read''),
      (''get_catalog_item'', Flat ''catalog'' ''read''),
      (''lookup_distributor_product'', Flat ''catalog'' ''read''),
      (''manage_catalog'', ByAction [(''create_item'', ''catalog'', ''write''), (''update_item'', ''catalog'', ''write''), (''archive_item'', ''catalog'', ''write''), (''set_org_price'', ''catalog'', ''write''), (''remove_org_price'', ''catalog'', ''write''), (''set_bundle_components'', ''catalog'', ''write'')]),
      (''list_contracts'', Flat ''contracts'' ''read''),
      (''get_contract'', Flat ''contracts'' ''read''),
      (''manage_contracts'', ByAction [(''create_draft'', ''contracts'', ''write''), (''update'', ''contracts'', ''write''), (''delete_draft'', ''contracts'', ''write''), (''add_line'', ''contracts'', ''write''), (''remove_line'', ''contracts'', ''write''), (''activate'', ''contracts'', ''manage''), (''pause'', ''contracts'', ''manage''), (''resume'', ''contracts'', ''manage''), (''cancel'', ''contracts'', ''manage'')]),
      (''list_quotes'', Flat ''quotes'' ''read''),
      (''get_quote'', Flat ''quotes'' ''read''),
      (''manage_quotes'', ByAction [(''create_draft'', ''quotes'', ''write''), (''update'', ''quotes'', ''write''), (''delete_draft'', ''quotes'', ''write''), (''add_block'', ''quotes'', ''write''), (''update_block'', ''quotes'', ''write''), (''delete_block'', ''quotes'', ''write''), (''reorder_blocks'', ''quotes'', ''write''), (''add_manual_line'', ''quotes'', ''write''), (''add_catalog_line'', ''quotes'', ''write''), (''update_line'', ''quotes'', ''write''), (''remove_line'', ''quotes'', ''write''), (''move_line'', ''quotes'', ''write''), (''reorder_lines'', ''quotes'', ''write''), (''send'', ''quotes'', ''send''), (''decline'', ''quotes'', ''write''), (''create_pay_link'', ''quotes'', ''write'')]),
      (''list_organizations'', Flat ''organizations'' ''read''),
      (''manage_organizations'', ByAction [(''create_org'', ''organizations'', ''write''), (''update_org'', ''organizations'', ''write''), (''create_site'', ''sites'', ''write''), (''add_contact'', ''organizations'', ''write'')]),
      (''manage_services'', Flat ''devices'' ''execute''),
      (''manage_processes'', ByAction [(''list'', ''devices'', ''read''), (''kill'', ''devices'', ''execute'')]),
      (''security_scan'', ByAction [(''scan'', ''devices'', ''execute''), (''status'', ''devices'', ''execute''), (''quarantine'', ''devices'', ''execute''), (''remove'', ''devices'', ''execute''), (''restore'', ''devices'', ''execute''), (''vulnerabilities'', ''devices'', ''read'')]),
      (''analyze_disk_usage'', Flat ''devices'' ''read''),
      (''disk_cleanup'', ByAction [(''preview'', ''devices'', ''read''), (''execute'', ''devices'', ''execute'')]),
      (''file_operations'', ByAction [(''list'', ''devices'', ''execute''), (''read'', ''devices'', ''execute''), (''write'', ''devices'', ''execute''), (''delete'', ''devices'', ''execute''), (''mkdir'', ''devices'', ''execute''), (''rename'', ''devices'', ''execute'')]),
      (''query_audit_log'', Flat ''audit'' ''read''),
      (''query_change_log'', Flat ''devices'' ''read''),
      (''network_discovery'', Flat ''devices'' ''execute''),
      (''analyze_boot_performance'', Flat ''devices'' ''read''),
      (''manage_startup_items'', Flat ''devices'' ''execute''),
      (''manage_scheduled_tasks'', ByAction [(''list'', ''devices'', ''read''), (''run'', ''devices'', ''execute''), (''disable'', ''devices'', ''execute''), (''enable'', ''devices'', ''execute''), (''delete'', ''devices'', ''execute'')]),
      (''take_screenshot'', Flat ''devices'' ''execute'')]"

definition TOOL_PERMISSIONS_2 :: "(string \<times> perm_def) list" where
  "TOOL_PERMISSIONS_2 =
     [(''analyze_screen'', Flat ''devices'' ''execute''),
      (''computer_control'', Flat ''devices'' ''execute''),
      (''manage_deployments'', ByAction [(''list'', ''deployments'', ''read''), (''get'', ''deployments'', ''read''), (''device_status'', ''deployments'', ''read''), (''create'', ''deployments'', ''write''), (''start'', ''deployments'', ''write''), (''pause'', ''deployments'', ''write''), (''resume'', ''deployments'', ''write''), (''cancel'', ''deployments'', ''write'')]),
      (''manage_patches'', ByAction [(''list'', ''patches'', ''read''), (''compliance'', ''patches'', ''read''), (''scan'', ''patches'', ''execute''), (''approve'', ''patches'', ''approve''), (''decline'', ''patches'', ''approve''), (''defer'', ''patches'', ''approve''), (''bulk_approve'', ''patches'', ''approve''), (''install'', ''patches'', ''execute''), (''rollback'', ''patches'', ''execute''), (''setup_auto_approval'', ''patches'', ''approve'')]),
      (''manage_groups'', ByAction [(''list'', ''groups'', ''read''), (''get'', ''groups'', ''read''), (''preview'', ''groups'', ''read''), (''membership_log'', ''groups'', ''read''), (''create'', ''groups'', ''write''), (''update'', ''groups'', ''write''), (''delete'', ''groups'', ''write''), (''add_devices'', ''groups'', ''write''), (''remove_devices'', ''groups'', ''write'')]),
      (''manage_maintenance_windows'', ByAction [(''list'', ''maintenance'', ''read''), (''get'', ''maintenance'', ''read''), (''active_now'', ''maintenance'', ''read''), (''create'', ''maintenance'', ''write''), (''update'', ''maintenance'', ''write''), (''delete'', ''maintenance'', ''write'')]),
      (''manage_automations'', ByAction [(''list'', ''automations'', ''read''), (''get'', ''automations'', ''read''), (''history'', ''automations'', ''read''), (''create'', ''automations'', ''write''), (''update'', ''automations'', ''write''), (''delete'', ''automations'', ''write''), (''enable'', ''automations'', ''write''), (''disable'', ''automations'', ''write''), (''run'', ''automations'', ''execute'')]),
      (''manage_alert_rules'', ByAction [(''list_templates'', ''alerts'', ''read''), (''list_rules'', ''alerts'', ''read''), (''get_rule'', ''alerts'', ''read''), (''create_rule'', ''alerts'', ''write''), (''update_rule'', ''alerts'', ''write''), (''delete_rule'', ''alerts'', ''write''), (''test_rule'', ''alerts'', ''read''), (''list_channels'', ''alerts'', ''read''), (''alert_summary'', ''alerts'', ''read'')]),
      (''manage_service_monitors'', ByAction [(''list'', ''monitoring'', ''read'')]),
      (''generate_report'', ByAction [(''list'', ''reports'', ''read''), (''generate'', ''reports'', ''write''), (''data'', ''reports'', ''read''), (''create'', ''reports'', ''write''), (''update'', ''reports'', ''write''), (''delete'', ''reports'', ''write''), (''history'', ''reports'', ''read''), (''download'', ''reports'', ''read'')]),
      (''query_analytics'', Flat ''devices'' ''read''),
      (''get_executive_summary'', Flat ''devices'' ''read''),
      (''get_device_context'', Flat ''devices'' ''read''),
      (''set_device_context'', Flat ''devices'' ''write''),
      (''resolve_device_context'', Flat ''devices'' ''write''),
      (''search_agent_logs'', Flat ''devices'' ''read''),
      (''set_agent_log_level'', Flat ''devices'' ''execute''),
      (''capture_agent_pprof'', Flat ''devices'' ''execute''),
      (''search_logs'', Flat ''devices'' ''read''),
      (''get_log_trends'', Flat ''devices'' ''read''),
      (''detect_log_correlations'', Flat ''devices'' ''read''),
      (''list_configuration_policies'', Flat ''policies'' ''read''),
      (''get_configuration_policy'', Flat ''policies'' ''read''),
      (''manage_configuration_policy'', ByAction [(''create'', ''policies'', ''write''), (''update'', ''policies'', ''write''), (''activate'', ''policies'', ''write''), (''deactivate'', ''policies'', ''write''), (''delete'', ''policies'', ''write'')]),
      (''configuration_policy_compliance'', ByAction [(''summary'', ''policies'', ''read''), (''status'', ''policies'', ''read'')]),
      (''get_effective_configuration'', Flat ''devices'' ''read''),
      (''preview_configuration_change'', Flat ''devices'' ''read''),
      (''manage_policy_feature_link'', ByAction [(''list'', ''policies'', ''read''), (''add'', ''policies'', ''write''), (''update'', ''policies'', ''write''), (''remove'', ''policies'', ''write'')]),
      (''manage_backup_profiles'', ByAction [(''list'', ''policies'', ''read''), (''get'', ''policies'', ''read''), (''create'', ''policies'', ''write''), (''update'', ''policies'', ''write''), (''delete'', ''policies'', ''write'')]),
      (''apply_configuration_policy'', Flat ''policies'' ''write''),
      (''remove_configuration_policy_assignment'', Flat ''policies'' ''write''),
      (''list_playbooks'', Flat ''devices'' ''read''),
      (''execute_playbook'', Flat ''devices'' ''execute''),
      (''get_playbook_history'', Flat ''devices'' ''read''),
      (''get_security_posture'', Flat ''devices'' ''read''),
      (''get_fleet_health'', Flat ''devices'' ''read''),
      (''get_fleet_status'', Flat ''devices'' ''read''),
      (''delete_tenant'', Flat ''organizations'' ''write''),
      (''manage_tags'', ByAction [(''list'', ''devices'', ''read''), (''add'', ''devices'', ''write''), (''remove'', ''devices'', ''write'')]),
      (''query_custom_fields'', Flat ''devices'' ''read''),
      (''registry_operations'', ByAction [(''read_key'', ''devices'', ''read''), (''get_value'', ''devices'', ''read''), (''set_value'', ''devices'', ''execute''), (''create_key'', ''devices'', ''execute''), (''delete_key'', ''devices'', ''execute'')])]"

definition TOOL_PERMISSIONS_3 :: "(string \<times> perm_def) list" where
  "TOOL_PERMISSIONS_3 =
     [(''search_documentation'', Flat ''general'' ''read''),
      (''search_script_library'', Flat ''scripts'' ''read''),
      (''list_scripts'', Flat ''scripts'' ''read''),
      (''get_script_details'', Flat ''scripts'' ''read''),
      (''list_script_templates'', Flat ''scripts'' ''read''),
      (''get_script_execution_history'', Flat ''scripts'' ''read''),
      (''query_backups'', Flat ''devices'' ''read''),
      (''get_backup_status'', Flat ''devices'' ''read''),
      (''browse_snapshots'', Flat ''devices'' ''read''),
      (''trigger_backup'', Flat ''devices'' ''execute''),
      (''restore_snapshot'', Flat ''devices'' ''execute''),
      (''restore_as_vm'', Flat ''devices'' ''execute''),
      (''instant_boot_vm'', Flat ''devices'' ''execute''),
      (''get_vm_restore_estimate'', Flat ''devices'' ''read''),
      (''query_mssql_instances'', Flat ''devices'' ''read''),
      (''get_mssql_backup_status'', Flat ''devices'' ''read''),
      (''trigger_mssql_backup'', Flat ''devices'' ''execute''),
      (''restore_mssql_database'', Flat ''devices'' ''execute''),
      (''verify_mssql_backup'', Flat ''devices'' ''execute''),
      (''query_hyperv_vms'', Flat ''devices'' ''read''),
      (''get_hyperv_vm_details'', Flat ''devices'' ''read''),
      (''manage_hyperv_vm'', Flat ''devices'' ''execute''),
      (''trigger_hyperv_backup'', Flat ''devices'' ''execute''),
      (''restore_hyperv_vm'', Flat ''devices'' ''execute''),
      (''manage_hyperv_checkpoints'', Flat ''devices'' ''execute''),
      (''query_vaults'', Flat ''devices'' ''read''),
      (''get_vault_status'', Flat ''devices'' ''read''),
      (''trigger_vault_sync'', Flat ''devices'' ''execute''),
      (''configure_vault'', Flat ''devices'' ''write''),
      (''m365_query_users'', Flat ''organizations'' ''read''),
      (''m365_query_signins'', Flat ''organizations'' ''read''),
      (''m365_query_intune_devices'', Flat ''organizations'' ''read''),
      (''m365_query_groups'', Flat ''organizations'' ''read''),
      (''m365_query_org'', Flat ''organizations'' ''read''),
      (''m365_query_sites'', Flat ''organizations'' ''read''),
      (''query_c2c_connections'', Flat ''organizations'' ''read''),
      (''query_c2c_jobs'', Flat ''organizations'' ''read''),
      (''search_c2c_items'', Flat ''organizations'' ''read''),
      (''trigger_c2c_sync'', Flat ''organizations'' ''write''),
      (''restore_c2c_items'', Flat ''organizations'' ''write''),
      (''query_backup_sla'', Flat ''organizations'' ''read''),
      (''get_sla_breaches'', Flat ''organizations'' ''read''),
      (''get_sla_compliance_report'', Flat ''organizations'' ''read''),
      (''configure_backup_sla'', Flat ''organizations'' ''write''),
      (''query_dr_plans'', Flat ''organizations'' ''read''),
      (''get_dr_plan_details'', Flat ''organizations'' ''read''),
      (''get_dr_execution_status'', Flat ''organizations'' ''read''),
      (''execute_dr_plan'', Flat ''devices'' ''execute''),
      (''manage_dr_plan'', Flat ''organizations'' ''write''),
      (''query_monitors'', Flat ''devices'' ''read''),
      (''manage_monitors'', ByAction [(''get'', ''devices'', ''read''), (''create'', ''devices'', ''write''), (''update'', ''devices'', ''write''), (''delete'', ''devices'', ''write'')]),
      (''get_service_monitoring_status'', Flat ''devices'' ''read''),
      (''query_webhooks'', Flat ''devices'' ''read''),
      (''query_psa_status'', Flat ''devices'' ''read''),
      (''test_webhook'', Flat ''devices'' ''write''),
      (''query_agent_versions'', Flat ''devices'' ''read''),
      (''trigger_agent_upgrade'', Flat ''devices'' ''execute''),
      (''trigger_agent_restart'', Flat ''devices'' ''execute''),
      (''list_remote_sessions'', Flat ''devices'' ''read''),
      (''create_remote_session'', Flat ''devices'' ''execute''),
      (''query_compliance_policies'', Flat ''policies'' ''read''),
      (''get_compliance_status'', Flat ''policies'' ''read''),
      (''manage_notification_channels'', ByAction [(''list'', ''alerts'', ''read''), (''test'', ''alerts'', ''write'')]),
      (''manage_saved_filters'', ByAction [(''list'', ''devices'', ''read''), (''get'', ''devices'', ''read''), (''create'', ''devices'', ''write''), (''delete'', ''devices'', ''write'')]),
      (''get_cis_compliance'', Flat ''devices'' ''read''),
      (''get_cis_device_report'', Flat ''devices'' ''read''),
      (''apply_cis_remediation'', Flat ''devices'' ''execute''),
      (''get_huntress_status'', Flat ''devices'' ''read''),
      (''get_huntress_incidents'', Flat ''devices'' ''read''),
      (''sync_huntress_data'', Flat ''organizations'' ''write''),
      (''get_user_risk_scores'', Flat ''users'' ''read''),
      (''get_user_risk_detail'', Flat ''users'' ''read''),
      (''assign_security_training'', Flat ''users'' ''write''),
      (''get_backup_health'', Flat ''devices'' ''read''),
      (''run_backup_verification'', Flat ''devices'' ''execute''),
      (''get_recovery_readiness'', Flat ''devices'' ''read''),
      (''m365_lookup_user'', Flat ''m365'' ''read''),
      (''m365_recent_signins'', Flat ''m365'' ''read''),
      (''m365_list_group_memberships'', Flat ''m365'' ''read''),
      (''m365_disable_user'', Flat ''m365'' ''execute''),
      (''m365_reset_password'', Flat ''m365'' ''execute''),
      (''google_lookup_user'', Flat ''google'' ''read''),
      (''google_reset_password'', Flat ''google'' ''execute''),
      (''google_suspend_user'', Flat ''google'' ''execute''),
      (''google_restore_user'', Flat ''google'' ''execute''),
      (''google_signout'', Flat ''google'' ''execute''),
      (''google_set_forwarding'', Flat ''google'' ''execute''),
      (''google_disable_forwarding'', Flat ''google'' ''execute''),
      (''google_set_vacation'', Flat ''google'' ''execute''),
      (''google_update_user'', Flat ''google'' ''execute''),
      (''google_share_calendar'', Flat ''google'' ''execute''),
      (''google_offboard_user'', Flat ''google'' ''execute''),
      (''google_wipe_mobile_device'', Flat ''google'' ''execute''),
      (''google_security_drift'', Flat ''google'' ''read''),
      (''google_email_report'', Flat ''google'' ''read''),
      (''google_list_user_groups'', Flat ''google'' ''read''),
      (''google_add_to_group'', Flat ''google'' ''execute''),
      (''google_remove_from_group'', Flat ''google'' ''execute''),
      (''google_move_ou'', Flat ''google'' ''execute''),
      (''google_rename_user'', Flat ''google'' ''execute''),
      (''google_reset_2sv'', Flat ''google'' ''execute''),
      (''google_add_mail_delegate'', Flat ''google'' ''execute''),
      (''google_remove_mail_delegate'', Flat ''google'' ''execute''),
      (''google_list_licenses'', Flat ''google'' ''read''),
      (''google_assign_license'', Flat ''google'' ''execute''),
      (''google_remove_license'', Flat ''google'' ''execute''),
      (''send_deployment_invites'', Flat ''devices'' ''write''),
      (''configure_defaults'', Flat ''organizations'' ''write'')]"

definition TOOL_PERMISSIONS :: "(string \<times> perm_def) list" where
  "TOOL_PERMISSIONS = TOOL_PERMISSIONS_1 @ TOOL_PERMISSIONS_2 @ TOOL_PERMISSIONS_3"

definition TOOL_EXTRA_PERMISSIONS :: "(string \<times> (string \<times> string) list) list" where
  "TOOL_EXTRA_PERMISSIONS =
     [(''configure_defaults'', [(''devices'', ''write''), (''alerts'', ''write'')]),
      (''restore_snapshot'', [(''backup'', ''read'')]),
      (''restore_as_vm'', [(''backup'', ''read'')]),
      (''instant_boot_vm'', [(''backup'', ''read'')]),
      (''restore_mssql_database'', [(''backup'', ''read'')]),
      (''verify_mssql_backup'', [(''backup'', ''read'')]),
      (''restore_hyperv_vm'', [(''backup'', ''read'')])]"

definition TOOL_RATE_LIMITS :: "(string \<times> int \<times> int) list" where
  "TOOL_RATE_LIMITS =
     [(''execute_command'', 10, 300),
      (''run_script'', 5, 300),
      (''security_scan'', 3, 600),
      (''network_discovery'', 2, 600),
      (''file_operations'', 20, 300),
      (''manage_services'', 10, 300),
      (''s1_isolate_device'', 5, 600),
      (''s1_threat_action'', 5, 600),
      (''analyze_disk_usage'', 10, 300),
      (''disk_cleanup'', 3, 600),
      (''manage_startup_items'', 5, 600),
      (''manage_scheduled_tasks'', 10, 300),
      (''take_screenshot'', 10, 300),
      (''analyze_screen'', 10, 300),
      (''computer_control'', 20, 300),
      (''run_backup_verification'', 10, 300),
      (''manage_deployments'', 10, 600),
      (''manage_patches'', 15, 300),
      (''manage_groups'', 20, 300),
      (''manage_maintenance_windows'', 15, 300),
      (''manage_automations'', 10, 600),
      (''manage_alert_rules'', 15, 300),
      (''manage_service_monitors'', 15, 300),
      (''generate_report'', 10, 300),
      (''set_device_context'', 20, 300),
      (''resolve_device_context'', 20, 300),
      (''search_logs'', 30, 300),
      (''get_log_trends'', 20, 300),
      (''detect_log_correlations'', 10, 300),
      (''set_agent_log_level'', 5, 600),
      (''capture_agent_pprof'', 3, 600),
      (''get_configuration_policy'', 30, 300),
      (''manage_configuration_policy'', 20, 300),
      (''configuration_policy_compliance'', 30, 300),
      (''apply_configuration_policy'', 10, 300),
      (''remove_configuration_policy_assignment'', 10, 300),
      (''execute_playbook'', 5, 600),
      (''manage_processes'', 15, 300),
      (''manage_tags'', 20, 300),
      (''registry_operations'', 15, 300),
      (''trigger_backup'', 5, 600),
      (''restore_snapshot'', 3, 600),
      (''restore_as_vm'', 3, 900),
      (''instant_boot_vm'', 3, 900),
      (''trigger_mssql_backup'', 5, 600),
      (''restore_mssql_database'', 3, 900),
      (''verify_mssql_backup'', 5, 600),
      (''manage_hyperv_vm'', 10, 300),
      (''trigger_hyperv_backup'', 5, 900),
      (''restore_hyperv_vm'', 3, 900),
      (''manage_hyperv_checkpoints'', 5, 600),
      (''trigger_vault_sync'', 10, 600),
      (''configure_vault'', 10, 300),
      (''trigger_c2c_sync'', 10, 300),
      (''restore_c2c_items'', 5, 600),
      (''configure_backup_sla'', 10, 300),
      (''execute_dr_plan'', 3, 900),
      (''manage_dr_plan'', 10, 300),
      (''query_monitors'', 30, 300),
      (''manage_monitors'', 10, 300),
      (''get_service_monitoring_status'', 30, 300),
      (''test_webhook'', 5, 300),
      (''trigger_agent_upgrade'', 5, 600),
      (''trigger_agent_restart'', 5, 600),
      (''create_remote_session'', 10, 300),
      (''manage_notification_channels'', 10, 300),
      (''manage_saved_filters'', 15, 300),
      (''get_cis_compliance'', 30, 300),
      (''get_cis_device_report'', 30, 300),
      (''apply_cis_remediation'', 10, 600),
      (''sync_huntress_data'', 10, 300),
      (''assign_security_training'', 10, 300)]"

section \<open>Tiers\<close>

record guardrail_check =
  gc_tier :: nat
  gc_allowed :: bool
  gc_requiresApproval :: bool
  gc_reason :: "string option"

definition listed_action :: "(string \<times> string list) list \<Rightarrow> string \<Rightarrow> string option \<Rightarrow> bool" where
  "listed_action table toolName action =
     (case (str_or_none action, map_of table toolName) of
        (Some a, Some as) \<Rightarrow> a \<in> set as
      | _ \<Rightarrow> False)"

definition checkGuardrails :: "(string \<Rightarrow> nat option) \<Rightarrow> string \<Rightarrow> string option \<Rightarrow> guardrail_check" where
  "checkGuardrails getToolTier toolName action =
     (if toolName \<in> set BLOCKED_TOOLS then
        \<lparr>gc_tier = 4, gc_allowed = False, gc_requiresApproval = False,
         gc_reason = Some (''Tool \"'' @ toolName @ ''\" is not available'')\<rparr>
      else (case getToolTier toolName of
              None \<Rightarrow>
                \<lparr>gc_tier = 4, gc_allowed = False, gc_requiresApproval = False,
                 gc_reason = Some (''Unknown tool: '' @ toolName)\<rparr>
            | Some baseTier \<Rightarrow>
                if listed_action TIER1_ACTIONS toolName action then
                  \<lparr>gc_tier = 1, gc_allowed = True, gc_requiresApproval = False, gc_reason = None\<rparr>
                else if listed_action TIER3_ACTIONS toolName action then
                  \<lparr>gc_tier = 3, gc_allowed = True, gc_requiresApproval = True, gc_reason = None\<rparr>
                else if listed_action TIER2_ACTIONS toolName action then
                  \<lparr>gc_tier = 2, gc_allowed = True, gc_requiresApproval = False, gc_reason = None\<rparr>
                else if baseTier \<ge> 3 then
                  \<lparr>gc_tier = baseTier, gc_allowed = True, gc_requiresApproval = True, gc_reason = None\<rparr>
                else
                  \<lparr>gc_tier = baseTier, gc_allowed = True, gc_requiresApproval = False, gc_reason = None\<rparr>))"

section \<open>Permissions\<close>

text \<open>A session: \<open>gs_token\<close> is the token's \<open>roleId\<close>, which is null for helper sessions.\<close>

record guard_session =
  gs_userId :: id
  gs_partnerId :: "id option"
  gs_orgId :: "id option"
  gs_token :: "id option option"

definition guard_context :: "guard_session \<Rightarrow> perm_context" where
  "guard_context auth =
     \<lparr>pc_partnerId = str_or_none (gs_partnerId auth), pc_orgId = str_or_none (gs_orgId auth)\<rparr>"

text \<open>
  A requirement is a pair of the tables. An action that names an inherited member of the table's
  object gets that member instead, whose \<open>resource\<close> and \<open>action\<close> are undefined and so equal to no
  string of a grant.
\<close>

datatype requirement = Requires string string | Inherited

fun meets_requirement :: "user_permissions \<Rightarrow> requirement \<Rightarrow> bool" where
  "meets_requirement userPerms (Requires resource action) = hasPermission userPerms resource action"
| "meets_requirement userPerms Inherited =
     list_ex (\<lambda>p. perm_resource p = ''*'' \<and> perm_action p = ''*'') (up_permissions userPerms)"

fun requirement_text :: "requirement \<Rightarrow> string" where
  "requirement_text (Requires resource action) = resource @ ''.'' @ action"
| "requirement_text Inherited = ''undefined.undefined''"

fun first_denied :: "user_permissions \<Rightarrow> requirement list \<Rightarrow> string option" where
  "first_denied userPerms [] = None"
| "first_denied userPerms (requirement # rs) =
     (if meets_requirement userPerms requirement then first_denied userPerms rs
      else Some (''Insufficient permissions: requires '' @ requirement_text requirement))"

definition checkPermissionRequirements ::
  "redis_client \<Rightarrow> version_store \<Rightarrow> int \<Rightarrow> database \<Rightarrow> perm_cache \<Rightarrow> guard_session
     \<Rightarrow> requirement list \<Rightarrow> (string option \<times> perm_cache) dbm" where
  "checkPermissionRequirements redis store now d cache auth requirements amb =
     (if requirements = [] then (None, cache)
      else (case gs_token auth of
              None \<Rightarrow> (None, cache)
            | Some None \<Rightarrow> (None, cache)
            | Some (Some roleId) \<Rightarrow>
                (let (userPerms, cache') =
                       getUserPermissions redis store now d cache (gs_userId auth)
                         (guard_context auth) amb
                 in case userPerms of
                      None \<Rightarrow> (Some ''Insufficient permissions: no role assigned'', cache')
                    | Some p \<Rightarrow> (first_denied p requirements, cache'))))"

definition checkPermissionRequirement ::
  "redis_client \<Rightarrow> version_store \<Rightarrow> int \<Rightarrow> database \<Rightarrow> perm_cache \<Rightarrow> guard_session
     \<Rightarrow> requirement \<Rightarrow> (string option \<times> perm_cache) dbm" where
  "checkPermissionRequirement redis store now d cache auth requirement =
     checkPermissionRequirements redis store now d cache auth [requirement]"

definition redirectHints :: "string \<Rightarrow> string" where
  "redirectHints toolName =
     (if toolName = ''manage_service_monitors'' then
        '' To add, update, or remove monitoring watches, use manage_policy_feature_link with the existing policy'' @ [char_of (39 :: nat)] @ ''s featureLinkId and action \"update\". First call get_configuration_policy to find the monitoring featureLinkId and current inlineSettings.watches array, then update it with the new watch appended.''
      else [])"

text \<open>The permission a call needs, or why it is refused outright.\<close>

definition required_permission :: "string \<Rightarrow> string option \<Rightarrow> string + requirement" where
  "required_permission toolName action =
     (case map_of TOOL_PERMISSIONS toolName of
        None \<Rightarrow> Inl (''No RBAC permission mapping for tool \"'' @ toolName @ ''\"'')
      | Some (Flat r a) \<Rightarrow> Inr (Requires r a)
      | Some (ByAction m) \<Rightarrow>
          (case str_or_none action of
             None \<Rightarrow> Inl (''Missing required \"action\" argument for tool \"'' @ toolName @ ''\"'')
           | Some act \<Rightarrow>
               (case map_of m act of
                  Some (r, a) \<Rightarrow> Inr (Requires r a)
                | None \<Rightarrow>
                    if act \<in> set OBJECT_PROTOTYPE_KEYS then Inr Inherited
                    else Inl (''Unknown action \"'' @ act @ ''\" for tool \"'' @ toolName @ ''\".''
                            @ redirectHints toolName))))"

definition extra_permissions :: "string \<Rightarrow> requirement list" where
  "extra_permissions toolName =
     (case map_of TOOL_EXTRA_PERMISSIONS toolName of
        None \<Rightarrow> [] | Some xs \<Rightarrow> map (\<lambda>(r, a). Requires r a) xs)"

definition checkToolPermission ::
  "redis_client \<Rightarrow> version_store \<Rightarrow> int \<Rightarrow> database \<Rightarrow> perm_cache \<Rightarrow> string \<Rightarrow> string option
     \<Rightarrow> guard_session \<Rightarrow> (string option \<times> perm_cache) dbm" where
  "checkToolPermission redis store now d cache toolName action auth amb =
     (case gs_token auth of
        None \<Rightarrow> (None, cache)
      | Some None \<Rightarrow> (None, cache)
      | Some (Some roleId) \<Rightarrow>
          (case required_permission toolName action of
             Inl e \<Rightarrow> (Some e, cache)
           | Inr required \<Rightarrow>
               checkPermissionRequirements redis store now d cache auth
                 (required # extra_permissions toolName) amb))"

text \<open>The rate limit of a tool; \<open>toISOString\<close> renders the reset time.\<close>

definition checkToolRateLimit ::
  "(int \<Rightarrow> string) \<Rightarrow> redis_multi \<Rightarrow> zstore \<Rightarrow> int \<Rightarrow> string list \<Rightarrow> string \<Rightarrow> id \<Rightarrow> string option \<times> zstore" where
  "checkToolRateLimit toISOString redis store now nonces toolName userId =
     (case map_of TOOL_RATE_LIMITS toolName of
        None \<Rightarrow> (None, store)
      | Some (limit, windowSeconds) \<Rightarrow>
          (let key = ''ai:tool:'' @ userId @ '':'' @ toolName;
               (result, store') = rateLimiter redis store now nonces key limit windowSeconds 1
           in if \<not> rr_allowed result
              then (Some (''Tool rate limit exceeded for '' @ toolName @ ''. Try again at '' @ toISOString (rr_resetAt result)), store')
              else (None, store')))"

definition sample_guard_session :: guard_session where
  "sample_guard_session =
     \<lparr>gs_userId = sample_id CHR ''2'', gs_partnerId = Some (sample_id CHR ''a''),
      gs_orgId = Some (sample_id CHR ''b''), gs_token = Some (Some (sample_id CHR ''d''))\<rparr>"

section \<open>Lemmas\<close>

text \<open>The tables share no action of a tool.\<close>

lemma tables_disjoint_eval:
  "list_all (\<lambda>(t, as). list_all (\<lambda>a. \<not> listed_action TIER3_ACTIONS t (Some a)
       \<and> \<not> listed_action TIER2_ACTIONS t (Some a)) as) TIER1_ACTIONS"
  "list_all (\<lambda>(t, as). list_all (\<lambda>a. \<not> listed_action TIER2_ACTIONS t (Some a)) as) TIER3_ACTIONS"
  by code_simp+

lemma listed_actionD:
  "listed_action table t act \<Longrightarrow> \<exists>a as. act = Some a \<and> a \<noteq> [] \<and> (t, as) \<in> set table \<and> a \<in> set as"
  by (auto simp: listed_action_def str_or_none_Some dest: map_of_SomeD split: option.splits)

lemma listed_everywhere:
  assumes "listed_action table t act"
    and "list_all (\<lambda>(t, as). list_all (\<lambda>a. P t (Some a)) as) table"
  shows "P t act"
  using assms(2) listed_actionD [OF assms(1)] by (fastforce simp: list_all_iff)

lemma tables_disjoint:
  "listed_action TIER1_ACTIONS t act \<Longrightarrow> \<not> listed_action TIER3_ACTIONS t act \<and> \<not> listed_action TIER2_ACTIONS t act"
  "listed_action TIER3_ACTIONS t act \<Longrightarrow> \<not> listed_action TIER2_ACTIONS t act"
  by (erule listed_everywhere [OF _ tables_disjoint_eval(1)],
      erule listed_everywhere [OF _ tables_disjoint_eval(2)])

lemma first_denied_None:
  "first_denied p rs = None \<longleftrightarrow> list_all (meets_requirement p) rs"
  by (induction p rs rule: first_denied.induct) auto

lemma assignable_no_wildcard:
  "q \<in> set ASSIGNABLE_PERMISSIONS \<Longrightarrow> permissionGrantMatches q r a \<Longrightarrow> (r, a) \<in> set PERMISSION_GRANTS"
  by (auto simp: ASSIGNABLE_PERMISSIONS_def KNOWN_PERMISSIONS_def mk_perm_def permissionGrantMatches_def)

lemma checkPermissionRequirements_None:
  assumes "gs_token auth = Some (Some roleId)"
  shows "fst (checkPermissionRequirements redis store now d cache auth (r # rs) amb) = None
    \<longleftrightarrow> (\<exists>p. fst (getUserPermissions redis store now d cache (gs_userId auth) (guard_context auth) amb) = Some p
           \<and> list_all (meets_requirement p) (r # rs))"
  unfolding checkPermissionRequirements_def assms Let_def case_prod_beta
  by (simp add: first_denied_None split: option.split)

lemma checkToolPermission_None:
  assumes "gs_token auth = Some (Some roleId)"
  shows "fst (checkToolPermission redis store now d cache toolName action auth amb) = None
    \<longleftrightarrow> (\<exists>required p. required_permission toolName action = Inr required
           \<and> fst (getUserPermissions redis store now d cache (gs_userId auth) (guard_context auth) amb) = Some p
           \<and> list_all (meets_requirement p) (required # extra_permissions toolName))"
  unfolding checkToolPermission_def assms option.case
  by (cases "required_permission toolName action")
     (simp_all only: sum.case fst_conv checkPermissionRequirements_None [OF assms], simp_all)

lemma assignable_meets_registered:
  assumes "set (up_permissions p) \<subseteq> set ASSIGNABLE_PERMISSIONS" and "meets_requirement p req"
  shows "\<exists>r a. req = Requires r a \<and> (r, a) \<in> set PERMISSION_GRANTS"
proof (cases req)
  case (Requires r a)
  with assms obtain q where "q \<in> set ASSIGNABLE_PERMISSIONS" "permissionGrantMatches q r a"
    by (auto simp: hasPermission_def list_ex_iff)
  with Requires assignable_no_wildcard show ?thesis by blast
next
  case Inherited
  with assms show ?thesis by (auto simp: list_ex_iff ASSIGNABLE_PERMISSIONS_def)
qed

section \<open>Properties\<close>

text \<open>Tier decision of an AI tool call. A call is let through exactly when its tool is
  registered. It asks for human approval exactly when its action is listed in tier 3, or the tool is
  registered at tier 3 or above and the action is listed in neither of the lower tiers: a listing is
  the only way past the approval of a tool registered at tier 3. No action of a tool is listed in
  two tiers, so the order in which the tables are consulted does not matter.\<close>

theorem tier_decision_exact:
  "gc_allowed (checkGuardrails getToolTier t act) = (getToolTier t \<noteq> None)
   \<and> gc_requiresApproval (checkGuardrails getToolTier t act)
      = (case getToolTier t of
           None \<Rightarrow> False
         | Some b \<Rightarrow> listed_action TIER3_ACTIONS t act
             \<or> 3 \<le> b \<and> \<not> listed_action TIER1_ACTIONS t act \<and> \<not> listed_action TIER2_ACTIONS t act)
   \<and> gc_requiresApproval (checkGuardrails getToolTier t act)
      = (gc_allowed (checkGuardrails getToolTier t act) \<and> 3 \<le> gc_tier (checkGuardrails getToolTier t act))
   \<and> \<not> (listed_action TIER1_ACTIONS t act \<and> listed_action TIER3_ACTIONS t act)
   \<and> \<not> (listed_action TIER2_ACTIONS t act \<and> listed_action TIER3_ACTIONS t act)
   \<and> \<not> (listed_action TIER1_ACTIONS t act \<and> listed_action TIER2_ACTIONS t act)"
  using tables_disjoint [of t act]
  by (cases "listed_action TIER1_ACTIONS t act"; cases "listed_action TIER2_ACTIONS t act";
      cases "listed_action TIER3_ACTIONS t act"; cases "getToolTier t")
     (simp_all add: checkGuardrails_def BLOCKED_TOOLS_def)

text \<open>Role-based access to AI tools. For a session with a role, a tool call is permitted
  exactly when the tool and action map to a requirement, the user resolves to permissions, and these
  meet that requirement and every extra requirement of the tool. A tool without a mapping, an action
  multiplexed tool called without its action, and a user without permissions are all refused.\<close>

theorem tool_permission_exact:
  assumes "gs_token auth = Some (Some roleId)"
  shows "fst (checkToolPermission redis store now d cache toolName action auth amb) = None
    \<longleftrightarrow> (\<exists>required p. required_permission toolName action = Inr required
           \<and> fst (getUserPermissions redis store now d cache (gs_userId auth) (guard_context auth) amb) = Some p
           \<and> list_all (meets_requirement p) (required # extra_permissions toolName))"
  using assms by (rule checkToolPermission_None)

theorem tool_permission_exact_witness:
  "fst (checkToolPermission RedisNull (\<lambda>_. None) 0 sample_db Map.empty ''query_devices'' None
          sample_guard_session (Some sample_org_ctx)) = None
   \<longleftrightarrow> (\<exists>required p. required_permission ''query_devices'' None = Inr required
        \<and> fst (getUserPermissions RedisNull (\<lambda>_. None) 0 sample_db Map.empty (gs_userId sample_guard_session)
                 (guard_context sample_guard_session) (Some sample_org_ctx)) = Some p
        \<and> list_all (meets_requirement p) (required # extra_permissions ''query_devices''))"
  by (rule tool_permission_exact [where roleId = "sample_id CHR ''d''"])
     (simp add: sample_guard_session_def)

text \<open>C40: tools only a wildcard role can use. When a tool and action map to a permission that is not
  in the permission registry, every user whose role holds registry permissions that can be assigned
  is refused, whatever those permissions are. (Eighteen of the permissions the tool table asks for
  are not in the registry, patches:approve among them.) The same holds for an action that names a
  member objects inherit.\<close>

theorem unregistered_tool_permission_refused:
  assumes "gs_token auth = Some (Some roleId)"
    and "fst (getUserPermissions redis store now d cache (gs_userId auth) (guard_context auth) amb) = Some p"
    and "set (up_permissions p) \<subseteq> set ASSIGNABLE_PERMISSIONS"
    and "required_permission toolName action = Inr required"
    and "required = Inherited \<or> required = Requires r a \<and> (r, a) \<notin> set PERMISSION_GRANTS"
  shows "fst (checkToolPermission redis store now d cache toolName action auth amb) \<noteq> None"
  using assms(2-) assignable_meets_registered [OF assms(3), of required]
  unfolding checkToolPermission_None [OF assms(1)] by auto

theorem unregistered_tool_permission_refused_witness:
  "required_permission ''manage_patches'' (Some ''approve'') = Inr (Requires ''patches'' ''approve'')
   \<and> (''patches'', ''approve'') \<notin> set PERMISSION_GRANTS
   \<and> fst (checkToolPermission RedisNull (\<lambda>_. None) 0 sample_db Map.empty ''manage_patches'' (Some ''approve'')
            sample_guard_session (Some sample_org_ctx)) \<noteq> None"
proof -
  have "required_permission ''manage_patches'' (Some ''approve'') = Inr (Requires ''patches'' ''approve'')"
    "(''patches'', ''approve'') \<notin> set PERMISSION_GRANTS" "gs_token sample_guard_session = Some (Some (sample_id CHR ''d''))"
    "fst (getUserPermissions RedisNull (\<lambda>_. None) 0 sample_db Map.empty (gs_userId sample_guard_session)
       (guard_context sample_guard_session) (Some sample_org_ctx)) = Some sample_partner_perms"
    "set (up_permissions sample_partner_perms) \<subseteq> set ASSIGNABLE_PERMISSIONS"
    by code_simp+
  with unregistered_tool_permission_refused show ?thesis by blast
qed

end
