(* ===== verification/Site_Scope.thy ===== *)
theory Site_Scope
  imports Permissions
begin

text \<open>
  The site scopes of apps/api/src/services/siteScope.ts: which sites of an organization a report may
  show. A scope is captured when a report is defined, stored with a fingerprint, decoded when the
  report runs and compared with what the user may see then, in memory and as an SQL predicate over
  the stored columns.

  The order of \<open>localeCompare\<close> (\<open>le a b\<close> for a result of at most 0) and the hexadecimal SHA-256 digest are
  arguments. Errors thrown are their messages, \<open>Inl\<close> of a string. The type of a parameter is taken as
  declared, so the guards against values of another type are not branches of the model; a date is its
  time value, and an invalid date is \<open>None\<close>.
\<close>

section \<open>Scopes\<close>

datatype scope_kind = Unrestricted | Restricted "id list" | LegacyUnscoped

record site_scope =
  sc_kind :: scope_kind
  sc_orgId :: id

definition assertNonEmptyString :: "string \<Rightarrow> string \<Rightarrow> string + unit" where
  "assertNonEmptyString value field =
     (if value = [] then Inl (''invalid '' @ field) else Inr ())"

definition then_ok :: "string + 'a \<Rightarrow> ('a \<Rightarrow> string + 'b) \<Rightarrow> string + 'b" where
  "then_ok r f = (case r of Inl e \<Rightarrow> Inl e | Inr x \<Rightarrow> f x)"

definition normalizeSiteIds :: "(id \<Rightarrow> id \<Rightarrow> bool) \<Rightarrow> id list \<Rightarrow> string + id list" where
  "normalizeSiteIds le siteIds =
     (if [] \<in> set siteIds then Inl ''invalid site ID''
      else Inr (js_sort le (js_dedup siteIds)))"

definition normalizeScope :: "(id \<Rightarrow> id \<Rightarrow> bool) \<Rightarrow> site_scope \<Rightarrow> string + site_scope" where
  "normalizeScope le scope =
     then_ok (assertNonEmptyString (sc_orgId scope) ''organization ID'') (\<lambda>_.
       case sc_kind scope of
         Unrestricted \<Rightarrow> Inr \<lparr>sc_kind = Unrestricted, sc_orgId = sc_orgId scope\<rparr>
       | Restricted siteIds \<Rightarrow>
           then_ok (normalizeSiteIds le siteIds) (\<lambda>ids.
             Inr \<lparr>sc_kind = Restricted ids, sc_orgId = sc_orgId scope\<rparr>)
       | LegacyUnscoped \<Rightarrow> Inr \<lparr>sc_kind = LegacyUnscoped, sc_orgId = sc_orgId scope\<rparr>)"

definition siteScopeFromPermissions ::
  "(id \<Rightarrow> id \<Rightarrow> bool) \<Rightarrow> id \<Rightarrow> user_permissions \<Rightarrow> string + site_scope" where
  "siteScopeFromPermissions le orgId permissions =
     then_ok (assertNonEmptyString orgId ''organization ID'') (\<lambda>_.
       case up_allowedSiteIds permissions of
         None \<Rightarrow> Inr \<lparr>sc_kind = Unrestricted, sc_orgId = orgId\<rparr>
       | Some ids \<Rightarrow>
           then_ok (normalizeSiteIds le ids) (\<lambda>siteIds.
             Inr \<lparr>sc_kind = Restricted siteIds, sc_orgId = orgId\<rparr>))"

section \<open>Fingerprint\<close>

text \<open>\<open>JSON.stringify\<close> of a string, over the code units of the model.\<close>

definition hex_digit :: "nat \<Rightarrow> char" where
  "hex_digit n = ''0123456789abcdef'' ! (n mod 16)"

definition json_escape :: "char \<Rightarrow> string" where
  "json_escape c =
     (let n = of_char c :: nat; bs = CHR 0x5C in
      if n = 34 then [bs, c]
      else if n = 92 then [bs, bs]
      else if n = 8 then [bs, CHR ''b'']
      else if n = 9 then [bs, CHR ''t'']
      else if n = 10 then [bs, CHR ''n'']
      else if n = 12 then [bs, CHR ''f'']
      else if n = 13 then [bs, CHR ''r'']
      else if n < 32 then bs # ''u00'' @ [hex_digit (n div 16), hex_digit n]
      else [c])"

definition dquote :: char where
  "dquote = CHR 0x22"

definition json_string :: "string \<Rightarrow> string" where
  "json_string s = [dquote] @ concat (map json_escape s) @ [dquote]"

definition scope_kind_name :: "scope_kind \<Rightarrow> string" where
  "scope_kind_name k =
     (case k of Unrestricted \<Rightarrow> ''unrestricted'' | Restricted _ \<Rightarrow> ''restricted''
      | LegacyUnscoped \<Rightarrow> ''legacy_unscoped'')"

definition json_object :: "(string \<times> string) list \<Rightarrow> string" where
  "json_object entries = ''{'' @ join '','' (map (\<lambda>(k, v). json_string k @ '':'' @ v) entries) @ ''}''"

definition stableValue :: "site_scope \<Rightarrow> string" where
  "stableValue s =
     json_object
       ([(''version'', ''1''), (''kind'', json_string (scope_kind_name (sc_kind s))),
         (''orgId'', json_string (sc_orgId s))]
        @ (case sc_kind s of
             Restricted ids \<Rightarrow> [(''siteIds'', ''['' @ join '','' (map json_string ids) @ '']'')]
           | _ \<Rightarrow> []))"

definition siteScopeFingerprint ::
  "(id \<Rightarrow> id \<Rightarrow> bool) \<Rightarrow> (string \<Rightarrow> string) \<Rightarrow> site_scope \<Rightarrow> string + string" where
  "siteScopeFingerprint le sha256 scope =
     then_ok (normalizeScope le scope) (\<lambda>normalized. Inr (sha256 (stableValue normalized)))"

section \<open>Algebra\<close>

definition intersectSiteScopes ::
  "(id \<Rightarrow> id \<Rightarrow> bool) \<Rightarrow> site_scope \<Rightarrow> site_scope \<Rightarrow> string + site_scope option" where
  "intersectSiteScopes le persisted current =
     then_ok (normalizeScope le persisted) (\<lambda>p. then_ok (normalizeScope le current) (\<lambda>c.
       if sc_orgId p \<noteq> sc_orgId c then Inr None
       else Inr (case sc_kind p of
           Unrestricted \<Rightarrow> (case sc_kind c of LegacyUnscoped \<Rightarrow> None | _ \<Rightarrow> Some c)
         | Restricted ps \<Rightarrow>
             (case sc_kind c of
                Unrestricted \<Rightarrow> Some p
              | Restricted cs \<Rightarrow>
                  (let siteIds = filter (\<lambda>i. i \<in> set cs) ps
                   in if siteIds = [] then None
                      else Some \<lparr>sc_kind = Restricted siteIds, sc_orgId = sc_orgId p\<rparr>)
              | LegacyUnscoped \<Rightarrow> None)
         | LegacyUnscoped \<Rightarrow> None)))"

definition isSiteScopeSubset ::
  "(id \<Rightarrow> id \<Rightarrow> bool) \<Rightarrow> site_scope \<Rightarrow> site_scope \<Rightarrow> string + bool" where
  "isSiteScopeSubset le candidate current =
     then_ok (normalizeScope le candidate) (\<lambda>p. then_ok (normalizeScope le current) (\<lambda>c.
       if sc_orgId p \<noteq> sc_orgId c then Inr False
       else Inr (case sc_kind p of
           Unrestricted \<Rightarrow> (case sc_kind c of Unrestricted \<Rightarrow> True | _ \<Rightarrow> False)
         | Restricted ps \<Rightarrow>
             (case sc_kind c of
                Unrestricted \<Rightarrow> True
              | Restricted cs \<Rightarrow> list_all (\<lambda>i. i \<in> set cs) ps
              | LegacyUnscoped \<Rightarrow> False)
         | LegacyUnscoped \<Rightarrow> (case sc_kind c of Unrestricted \<Rightarrow> True | _ \<Rightarrow> False))))"

section \<open>Persistence\<close>

datatype kind_column = KUnrestricted | KRestricted | KLegacyUnscoped

record persisted_columns =
  executionScopeVersion :: "int option"
  executionScopeKind :: "kind_column option"
  executionScopeSiteIds :: "id list option"
  executionScopeUserId :: "id option"
  executionScopeFingerprint :: "string option"
  executionScopeCapturedAt :: "int option option"

record report_authority =
  ra_scope :: site_scope
  ra_principalUserId :: id
  ra_capturedAt :: "int option"
  ra_fingerprint :: string

definition assertValidDate :: "int option \<Rightarrow> string + unit" where
  "assertValidDate value =
     (if value = None then Inl ''invalid execution scope capture time'' else Inr ())"

definition allPersistedValuesAreNull :: "persisted_columns \<Rightarrow> bool" where
  "allPersistedValuesAreNull row =
     (executionScopeVersion row = None \<and> executionScopeKind row = None
      \<and> executionScopeSiteIds row = None \<and> executionScopeUserId row = None
      \<and> executionScopeFingerprint row = None \<and> executionScopeCapturedAt row = None)"

definition assertCompletePersistedBase :: "persisted_columns \<Rightarrow> string + unit" where
  "assertCompletePersistedBase row =
     (case (executionScopeFingerprint row, executionScopeCapturedAt row) of
        (Some f, Some t) \<Rightarrow>
          if executionScopeVersion row \<noteq> Some 1 \<or> f = []
          then Inl ''partial or invalid persisted site scope''
          else assertValidDate t
      | _ \<Rightarrow> Inl ''partial or invalid persisted site scope'')"

definition hex64 :: "string \<Rightarrow> bool" where
  "hex64 s = (length s = 64 \<and> list_all (\<lambda>c. c \<in> set ''0123456789abcdef'') s)"

definition validateDecodedScopeFingerprint ::
  "(id \<Rightarrow> id \<Rightarrow> bool) \<Rightarrow> (string \<Rightarrow> string) \<Rightarrow> persisted_columns \<Rightarrow> site_scope \<Rightarrow> string + site_scope" where
  "validateDecodedScopeFingerprint le sha256 row scope =
     (case executionScopeFingerprint row of
        None \<Rightarrow> Inl ''invalid persisted site scope fingerprint''
      | Some fingerprint \<Rightarrow>
          if \<not> hex64 fingerprint then Inl ''invalid persisted site scope fingerprint''
          else then_ok (siteScopeFingerprint le sha256 scope) (\<lambda>expected.
                 if fingerprint \<noteq> expected then Inl ''invalid persisted site scope fingerprint''
                 else Inr scope))"

definition decodeSiteScope ::
  "(id \<Rightarrow> id \<Rightarrow> bool) \<Rightarrow> (string \<Rightarrow> string) \<Rightarrow> persisted_columns \<Rightarrow> id \<Rightarrow> string + site_scope" where
  "decodeSiteScope le sha256 row orgId =
     then_ok (assertNonEmptyString orgId ''organization ID'') (\<lambda>_.
       if allPersistedValuesAreNull row then Inr \<lparr>sc_kind = LegacyUnscoped, sc_orgId = orgId\<rparr>
       else then_ok (assertCompletePersistedBase row) (\<lambda>_.
         case executionScopeKind row of
           Some KUnrestricted \<Rightarrow>
             (case (executionScopeSiteIds row, executionScopeUserId row) of
                (None, Some u) \<Rightarrow>
                  then_ok (assertNonEmptyString u ''execution scope user ID'') (\<lambda>_.
                    validateDecodedScopeFingerprint le sha256 row
                      \<lparr>sc_kind = Unrestricted, sc_orgId = orgId\<rparr>)
              | _ \<Rightarrow> Inl ''partial or invalid persisted unrestricted site scope'')
         | Some KRestricted \<Rightarrow>
             (case (executionScopeSiteIds row, executionScopeUserId row) of
                (Some ids, Some u) \<Rightarrow>
                  then_ok (assertNonEmptyString u ''execution scope user ID'') (\<lambda>_.
                    then_ok (normalizeSiteIds le ids) (\<lambda>siteIds.
                      validateDecodedScopeFingerprint le sha256 row
                        \<lparr>sc_kind = Restricted siteIds, sc_orgId = orgId\<rparr>))
              | _ \<Rightarrow> Inl ''partial or invalid persisted restricted site scope'')
         | Some KLegacyUnscoped \<Rightarrow>
             (case executionScopeSiteIds row of
                Some ids \<Rightarrow> Inl ''partial or invalid persisted legacy site scope''
              | None \<Rightarrow>
                  then_ok (case executionScopeUserId row of
                             None \<Rightarrow> Inr ()
                           | Some u \<Rightarrow> assertNonEmptyString u ''execution scope user ID'') (\<lambda>_.
                    validateDecodedScopeFingerprint le sha256 row
                      \<lparr>sc_kind = LegacyUnscoped, sc_orgId = orgId\<rparr>))
         | None \<Rightarrow> Inl ''partial or invalid persisted site scope''))"

definition persistedSiteScopeValues ::
  "(id \<Rightarrow> id \<Rightarrow> bool) \<Rightarrow> (string \<Rightarrow> string) \<Rightarrow> report_authority \<Rightarrow> string + persisted_columns" where
  "persistedSiteScopeValues le sha256 authority =
     then_ok (normalizeScope le (ra_scope authority)) (\<lambda>scope.
     then_ok (assertNonEmptyString (ra_principalUserId authority) ''principal user ID'') (\<lambda>_.
     then_ok (assertValidDate (ra_capturedAt authority)) (\<lambda>_.
     then_ok (siteScopeFingerprint le sha256 scope) (\<lambda>fingerprint.
       if ra_fingerprint authority \<noteq> fingerprint then Inl ''invalid execution scope fingerprint''
       else Inr
         \<lparr>executionScopeVersion = Some 1,
          executionScopeKind = Some (case sc_kind scope of Unrestricted \<Rightarrow> KUnrestricted
                                     | Restricted _ \<Rightarrow> KRestricted | LegacyUnscoped \<Rightarrow> KLegacyUnscoped),
          executionScopeSiteIds = (case sc_kind scope of Restricted ids \<Rightarrow> Some ids | _ \<Rightarrow> None),
          executionScopeUserId = Some (ra_principalUserId authority),
          executionScopeFingerprint = Some (ra_fingerprint authority),
          executionScopeCapturedAt = Some (ra_capturedAt authority)\<rparr>))))"

section \<open>SQL predicates\<close>

text \<open>
  A predicate over the stored columns, as the set of rows for which SQL evaluates it to true: a
  comparison with NULL is not true, and the predicates use no negation.
\<close>

definition completeVersionOneBase :: "persisted_columns \<Rightarrow> bool" where
  "completeVersionOneBase row =
     (executionScopeVersion row = Some 1 \<and> executionScopeUserId row \<noteq> None
      \<and> executionScopeFingerprint row \<noteq> None \<and> executionScopeCapturedAt row \<noteq> None)"

definition unrestrictedDefinitionPredicate :: "persisted_columns \<Rightarrow> bool" where
  "unrestrictedDefinitionPredicate row =
     (completeVersionOneBase row \<and> executionScopeKind row = Some KUnrestricted
        \<and> executionScopeSiteIds row = None
      \<or> completeVersionOneBase row \<and> executionScopeKind row = Some KRestricted
        \<and> executionScopeSiteIds row \<noteq> None
      \<or> executionScopeVersion row = Some 1 \<and> executionScopeKind row = Some KLegacyUnscoped
        \<and> executionScopeSiteIds row = None \<and> executionScopeFingerprint row \<noteq> None
        \<and> executionScopeCapturedAt row \<noteq> None
      \<or> executionScopeVersion row = None \<and> executionScopeKind row = None
        \<and> executionScopeSiteIds row = None \<and> executionScopeUserId row = None
        \<and> executionScopeFingerprint row = None \<and> executionScopeCapturedAt row = None)"

definition definitionScopePredicate ::
  "(id \<Rightarrow> id \<Rightarrow> bool) \<Rightarrow> site_scope \<Rightarrow> string + (persisted_columns \<Rightarrow> bool)" where
  "definitionScopePredicate le currentScope =
     (case sc_kind currentScope of
        Unrestricted \<Rightarrow> Inr unrestrictedDefinitionPredicate
      | Restricted siteIds \<Rightarrow>
          then_ok (normalizeSiteIds le siteIds) (\<lambda>normalizedSiteIds. Inr (\<lambda>row.
            completeVersionOneBase row \<and> executionScopeKind row = Some KRestricted
            \<and> (case executionScopeSiteIds row of
                 None \<Rightarrow> False
               | Some ids \<Rightarrow> set ids \<subseteq> set normalizedSiteIds)))
      | LegacyUnscoped \<Rightarrow> Inr (\<lambda>row. False))"

definition reportDefinitionScopeSqlPredicate ::
  "(id \<Rightarrow> id \<Rightarrow> bool) \<Rightarrow> site_scope \<Rightarrow> string + (persisted_columns \<Rightarrow> bool)" where
  "reportDefinitionScopeSqlPredicate = definitionScopePredicate"

definition reportRunScopeSqlPredicate ::
  "(id \<Rightarrow> id \<Rightarrow> bool) \<Rightarrow> site_scope \<Rightarrow> string + (persisted_columns \<Rightarrow> bool)" where
  "reportRunScopeSqlPredicate = definitionScopePredicate"

definition unrestrictedReportDefinitionScopeSqlPredicate :: "persisted_columns \<Rightarrow> bool" where
  "unrestrictedReportDefinitionScopeSqlPredicate = unrestrictedDefinitionPredicate"

definition unrestrictedReportRunScopeSqlPredicate :: "persisted_columns \<Rightarrow> bool" where
  "unrestrictedReportRunScopeSqlPredicate = unrestrictedDefinitionPredicate"

text \<open>The loop that keeps the first usable scope of each organization, as the entries of the map.\<close>

fun scopesByOrgId ::
  "(id \<Rightarrow> id \<Rightarrow> bool) \<Rightarrow> (id \<times> site_scope) list \<Rightarrow> site_scope list \<Rightarrow> string + (id \<times> site_scope) list" where
  "scopesByOrgId le m [] = Inr m"
| "scopesByOrgId le m (scope # scopes) =
     then_ok (assertNonEmptyString (sc_orgId scope) ''organization ID'') (\<lambda>_.
       if sc_kind scope = Restricted [] \<or> sc_orgId scope \<in> fst ` set m
       then scopesByOrgId le m scopes
       else (case sc_kind scope of
               Restricted ids \<Rightarrow>
                 then_ok (normalizeSiteIds le ids) (\<lambda>siteIds.
                   scopesByOrgId le (m @ [(sc_orgId scope, scope\<lparr>sc_kind := Restricted siteIds\<rparr>)]) scopes)
             | _ \<Rightarrow> scopesByOrgId le (m @ [(sc_orgId scope, scope)]) scopes))"

fun scope_branches ::
  "(id \<Rightarrow> id \<Rightarrow> bool) \<Rightarrow> site_scope list \<Rightarrow> string + (id \<Rightarrow> persisted_columns \<Rightarrow> bool) list" where
  "scope_branches le [] = Inr []"
| "scope_branches le (scope # scopes) =
     then_ok (definitionScopePredicate le scope) (\<lambda>p.
     then_ok (scope_branches le scopes) (\<lambda>ps.
       Inr ((\<lambda>rowOrgId row. rowOrgId = sc_orgId scope \<and> p row) # ps)))"

definition multiOrgScopePredicate ::
  "(id \<Rightarrow> id \<Rightarrow> bool) \<Rightarrow> site_scope list \<Rightarrow> string + (id \<Rightarrow> persisted_columns \<Rightarrow> bool)" where
  "multiOrgScopePredicate le authorizedScopes =
     then_ok (scopesByOrgId le [] authorizedScopes) (\<lambda>m.
     then_ok (scope_branches le (js_sort (\<lambda>a b. le (sc_orgId a) (sc_orgId b)) (map snd m))) (\<lambda>branches.
       Inr (\<lambda>rowOrgId row. list_ex (\<lambda>p. p rowOrgId row) branches)))"

definition reportDefinitionMultiOrgScopeSqlPredicate ::
  "(id \<Rightarrow> id \<Rightarrow> bool) \<Rightarrow> site_scope list \<Rightarrow> string + (id \<Rightarrow> persisted_columns \<Rightarrow> bool)" where
  "reportDefinitionMultiOrgScopeSqlPredicate = multiOrgScopePredicate"

definition reportRunMultiOrgScopeSqlPredicate ::
  "(id \<Rightarrow> id \<Rightarrow> bool) \<Rightarrow> site_scope list \<Rightarrow> string + (id \<Rightarrow> persisted_columns \<Rightarrow> bool)" where
  "reportRunMultiOrgScopeSqlPredicate = multiOrgScopePredicate"

section \<open>Meaning of a scope\<close>

text \<open>
  The sites, as pairs with their organization, that a scope lets a reader see, and those a report
  captured under a scope may show. A report of the time before scopes may show every site of its
  organization, and grants nothing.
\<close>

definition admits :: "site_scope \<Rightarrow> (id \<times> id) set" where
  "admits s =
     {(org, site). org = sc_orgId s
       \<and> (case sc_kind s of Unrestricted \<Rightarrow> True | Restricted ids \<Rightarrow> site \<in> set ids | LegacyUnscoped \<Rightarrow> False)}"

definition may_show :: "site_scope \<Rightarrow> (id \<times> id) set" where
  "may_show s =
     {(org, site). org = sc_orgId s
       \<and> (case sc_kind s of Unrestricted \<Rightarrow> True | Restricted ids \<Rightarrow> site \<in> set ids | LegacyUnscoped \<Rightarrow> True)}"

text \<open>Scopes whose ids are not empty, which is all the code asks of them.\<close>

definition valid_scope :: "site_scope \<Rightarrow> bool" where
  "valid_scope s =
     (sc_orgId s \<noteq> [] \<and> (case sc_kind s of Restricted ids \<Rightarrow> [] \<notin> set ids | _ \<Rightarrow> True))"

text \<open>\<open>localeCompare\<close> on ids is a linear order.\<close>

definition linear_le :: "(id \<Rightarrow> id \<Rightarrow> bool) \<Rightarrow> bool" where
  "linear_le le =
     ((\<forall>a b. le a b \<or> le b a) \<and> (\<forall>a b c. le a b \<longrightarrow> le b c \<longrightarrow> le a c)
      \<and> (\<forall>a b. le a b \<longrightarrow> le b a \<longrightarrow> a = b))"

text \<open>The normalized scope.\<close>

definition norm_kind :: "(id \<Rightarrow> id \<Rightarrow> bool) \<Rightarrow> scope_kind \<Rightarrow> scope_kind" where
  "norm_kind le k = (case k of Restricted ids \<Rightarrow> Restricted (js_sort le (js_dedup ids)) | _ \<Rightarrow> k)"

definition norm_scope :: "(id \<Rightarrow> id \<Rightarrow> bool) \<Rightarrow> site_scope \<Rightarrow> site_scope" where
  "norm_scope le s = \<lparr>sc_kind = norm_kind le (sc_kind s), sc_orgId = sc_orgId s\<rparr>"

definition sample_scope :: "id list \<Rightarrow> site_scope" where
  "sample_scope ids = \<lparr>sc_kind = Restricted ids, sc_orgId = sample_id CHR ''b''\<rparr>"

section \<open>Lemmas\<close>

lemma then_ok_simps [simp]: "then_ok (Inl e) f = Inl e" "then_ok (Inr x) f = f x"
  by (simp_all add: then_ok_def)

lemma then_ok_Inr: "then_ok r f = Inr y \<longleftrightarrow> (\<exists>x. r = Inr x \<and> f x = Inr y)"
  by (cases r) simp_all

lemma assertNonEmptyString_simps [simp]:
  "assertNonEmptyString v f = Inr u \<longleftrightarrow> v \<noteq> []"
  "v \<noteq> [] \<Longrightarrow> assertNonEmptyString v f = Inr ()"
  by (simp_all add: assertNonEmptyString_def)

lemma normalizeSiteIds_Inr:
  "normalizeSiteIds le ids = Inr r \<longleftrightarrow> [] \<notin> set ids \<and> r = js_sort le (js_dedup ids)"
  by (auto simp: normalizeSiteIds_def)

lemma normalizeScope_Inr: "normalizeScope le s = Inr r \<longleftrightarrow> valid_scope s \<and> r = norm_scope le s"
  by (auto simp: normalizeScope_def valid_scope_def norm_scope_def norm_kind_def then_ok_Inr
      normalizeSiteIds_Inr split: scope_kind.splits)

lemma normalizeScope_valid [simp]: "valid_scope s \<Longrightarrow> normalizeScope le s = Inr (norm_scope le s)"
  by (simp add: normalizeScope_Inr)

lemma norm_scope_sel [simp]:
  "sc_orgId (norm_scope le s) = sc_orgId s" "sc_kind (norm_scope le s) = norm_kind le (sc_kind s)"
  by (simp_all add: norm_scope_def)

lemma valid_norm_scope [simp]: "valid_scope (norm_scope le s) = valid_scope s"
  by (auto simp: valid_scope_def norm_kind_def split: scope_kind.splits)

lemma norm_scope_meaning [simp]:
  "admits (norm_scope le s) = admits s" "may_show (norm_scope le s) = may_show s"
  by (auto simp: admits_def may_show_def norm_kind_def split: scope_kind.splits)

lemma norm_kind_simps [simp]:
  "norm_kind le Unrestricted = Unrestricted" "norm_kind le LegacyUnscoped = LegacyUnscoped"
  "norm_kind le (Restricted ids) = Restricted (js_sort le (js_dedup ids))"
  by (simp_all add: norm_kind_def)

lemma js_sort_Cons [simp]: "js_sort le (x # xs) = js_insort le x (js_sort le xs)"
  by (simp add: js_sort_def)

lemma js_sort_Nil [simp]: "js_sort le [] = []"
  by (simp add: js_sort_def)

lemma js_insort_least: "\<forall>y \<in> set ys. le x y \<Longrightarrow> js_insort le x ys = x # ys"
  by (cases ys) auto

lemma js_sort_sorted: "sorted_wrt le xs \<Longrightarrow> js_sort le xs = xs"
  by (induction xs) (auto simp: js_insort_least)

lemma distinct_js_insort: "x \<notin> set xs \<Longrightarrow> distinct xs \<Longrightarrow> distinct (js_insort le x xs)"
  by (induction xs) auto

lemma distinct_js_sort: "distinct xs \<Longrightarrow> distinct (js_sort le xs)"
  by (induction xs) (auto intro: distinct_js_insort)

lemma js_sort_eq_Nil [simp]: "js_sort le xs = [] \<longleftrightarrow> xs = []"
  by (metis set_js_sort set_empty)

lemma js_dedup_eq_Nil [simp]: "js_dedup xs = [] \<longleftrightarrow> xs = []"
  by (metis set_js_dedup set_empty)

lemma sorted_norm: "linear_le le \<Longrightarrow> sorted_wrt le (js_sort le xs)"
  by (rule sorted_wrt_js_sort) (auto simp: linear_le_def)

lemma norm_ids_idem: "linear_le le \<Longrightarrow> js_sort le (js_dedup (js_sort le (js_dedup xs))) = js_sort le (js_dedup xs)"
  by (simp add: distinct_js_sort js_sort_sorted sorted_norm)

lemma sorted_distinct_unique:
  assumes "linear_le le"
  shows "sorted_wrt le xs \<Longrightarrow> distinct xs \<Longrightarrow> sorted_wrt le ys \<Longrightarrow> distinct ys \<Longrightarrow> set xs = set ys \<Longrightarrow> xs = ys"
proof (induction xs arbitrary: ys)
  case (Cons x xs)
  then obtain y ys' where ys: "ys = y # ys'" by (cases ys) auto
  have "le x y" if "x \<noteq> y"
    using that Cons.prems ys by (metis insert_iff list.simps(15) sorted_wrt.simps(2))
  moreover have "le y x" if "x \<noteq> y"
    using that Cons.prems ys by (metis insert_iff list.simps(15) sorted_wrt.simps(2))
  ultimately have "x = y" using assms unfolding linear_le_def by metis
  moreover from Cons.prems ys this have "set xs = set ys'"
    by (metis Diff_insert_absorb distinct.simps(2) list.simps(15))
  ultimately show ?case using Cons ys by simp
qed simp

lemma norm_ids_canonical:
  "linear_le le \<Longrightarrow> set xs = set ys \<Longrightarrow> js_sort le (js_dedup xs) = js_sort le (js_dedup ys)"
  by (rule sorted_distinct_unique [of le]) (auto intro: sorted_norm distinct_js_sort)

lemma norm_scope_idem: "linear_le le \<Longrightarrow> norm_scope le (norm_scope le s) = norm_scope le s"
  by (cases "sc_kind s") (simp_all add: norm_scope_def norm_ids_idem)

lemma siteScopeFingerprint_Inr:
  "siteScopeFingerprint le sha256 s = Inr f
     \<longleftrightarrow> valid_scope s \<and> f = sha256 (stableValue (norm_scope le s))"
  by (auto simp: siteScopeFingerprint_def then_ok_Inr normalizeScope_Inr)

lemma validateDecoded_Inr:
  "validateDecodedScopeFingerprint le sha256 row s = Inr r
     \<longleftrightarrow> r = s \<and> valid_scope s \<and> (\<exists>f. executionScopeFingerprint row = Some f \<and> hex64 f
            \<and> f = sha256 (stableValue (norm_scope le s)))"
  by (auto simp: validateDecodedScopeFingerprint_def then_ok_Inr siteScopeFingerprint_Inr
      split: option.splits if_splits)

lemma assertCompletePersistedBase_Inr:
  "assertCompletePersistedBase row = Inr u
     \<longleftrightarrow> executionScopeVersion row = Some 1
        \<and> (\<exists>f. executionScopeFingerprint row = Some f \<and> f \<noteq> [])
        \<and> (\<exists>t. executionScopeCapturedAt row = Some (Some t))"
  by (auto simp: assertCompletePersistedBase_def assertValidDate_def split: option.splits)

text \<open>What a decoded scope says about the row it came from.\<close>

definition decoded_from ::
  "(id \<Rightarrow> id \<Rightarrow> bool) \<Rightarrow> (string \<Rightarrow> string) \<Rightarrow> persisted_columns \<Rightarrow> site_scope \<Rightarrow> bool" where
  "decoded_from le sha256 row s =
     (executionScopeVersion row = Some 1 \<and> executionScopeCapturedAt row \<noteq> None
      \<and> executionScopeFingerprint row = Some (sha256 (stableValue (norm_scope le s)))
      \<and> (case sc_kind s of
           Unrestricted \<Rightarrow> executionScopeKind row = Some KUnrestricted
             \<and> executionScopeSiteIds row = None \<and> executionScopeUserId row \<noteq> None
         | Restricted ids \<Rightarrow> executionScopeKind row = Some KRestricted \<and> executionScopeUserId row \<noteq> None
             \<and> (\<exists>xs. executionScopeSiteIds row = Some xs \<and> ids = js_sort le (js_dedup xs))
         | LegacyUnscoped \<Rightarrow> executionScopeKind row = Some KLegacyUnscoped
             \<and> executionScopeSiteIds row = None))"

lemma decode_shape:
  assumes "decodeSiteScope le sha256 row orgId = Inr s"
  shows "sc_orgId s = orgId \<and> valid_scope s
    \<and> (if allPersistedValuesAreNull row then sc_kind s = LegacyUnscoped else decoded_from le sha256 row s)"
proof (cases "allPersistedValuesAreNull row")
  case True
  with assms show ?thesis by (auto simp: decodeSiteScope_def then_ok_Inr valid_scope_def)
next
  case False
  show ?thesis
  proof (cases "executionScopeKind row")
    case None
    with False assms show ?thesis by (simp add: decodeSiteScope_def then_ok_Inr)
  next
    case (Some k)
    with False assms show ?thesis
      by (cases k) (auto simp: decodeSiteScope_def decoded_from_def then_ok_Inr validateDecoded_Inr
          assertCompletePersistedBase_Inr normalizeSiteIds_Inr split: option.splits)
  qed
qed

subsection \<open>The fingerprinted text determines the scope\<close>

text \<open>The ids of the columns are canonical UUIDs.\<close>

definition uuid_scope :: "site_scope \<Rightarrow> bool" where
  "uuid_scope s =
     (uuid_text (sc_orgId s) \<and> (case sc_kind s of Restricted ids \<Rightarrow> list_all uuid_text ids | _ \<Rightarrow> True))"

lemma json_escape_uuid_char: "c \<in> set ''-0123456789abcdef'' \<Longrightarrow> json_escape c = [c]"
  by (auto simp: json_escape_def)

lemma json_string_uuid: "uuid_text s \<Longrightarrow> json_string s = dquote # s @ [dquote]"
proof -
  assume s: "uuid_text s"
  have "map json_escape s = map (\<lambda>c. [c]) s"
    using uuid_text_chars [OF s] json_escape_uuid_char by (intro map_cong) auto
  then have "concat (map json_escape s) = s" by (simp only: concat_map_singleton) simp
  then show ?thesis by (simp add: json_string_def)
qed

lemma uuid_no_dquote: "uuid_text s \<Longrightarrow> dquote \<notin> set s"
  using uuid_text_chars [of s dquote] by (auto simp: dquote_def)

lemma json_string_uuid_no_comma: "uuid_text s \<Longrightarrow> CHR '','' \<notin> set (json_string s)"
  using uuid_text_no_comma by (simp add: json_string_uuid dquote_def)

lemma map_json_string_inj:
  "list_all uuid_text xs \<Longrightarrow> list_all uuid_text ys \<Longrightarrow> map json_string xs = map json_string ys \<Longrightarrow> xs = ys"
  by (rule map_inj_on [of json_string]) (auto simp: inj_on_def list_all_iff json_string_uuid)

lemma join_json_inj:
  assumes "list_all uuid_text xs" and "list_all uuid_text ys"
    and "join '','' (map json_string xs) = join '','' (map json_string ys)"
  shows "xs = ys"
proof -
  have empty: "join '','' (map json_string zs) = [] \<longleftrightarrow> zs = []" for zs
    by (cases zs; cases "tl zs") (auto simp: json_string_def)
  have split: "split_on (CHR '','') (join '','' (map json_string zs)) = map json_string zs"
    if "list_all uuid_text zs" "zs \<noteq> []" for zs
    using that by (intro split_on_join) (auto simp: list_all_iff json_string_uuid_no_comma)
  show ?thesis
  proof (cases "xs = []")
    case True
    with assms(3) empty show ?thesis by (metis)
  next
    case False
    with assms empty have "ys \<noteq> []" by metis
    with False assms split have "map json_string xs = map json_string ys" by metis
    with assms(1,2) show ?thesis by (rule map_json_string_inj)
  qed
qed

lemma stableValue_form:
  assumes "uuid_text (sc_orgId s)"
  shows "stableValue s =
     ''{'' @ json_string ''version'' @ '':1,'' @ json_string ''kind'' @ '':'' @ [dquote]
       @ scope_kind_name (sc_kind s) @ [dquote] @ '','' @ json_string ''orgId'' @ '':'' @ [dquote]
       @ sc_orgId s @ dquote #
       (case sc_kind s of
          Restricted ids \<Rightarrow> '','' @ json_string ''siteIds'' @ '':['' @ join '','' (map json_string ids) @ '']}''
        | _ \<Rightarrow> ''}'')"
proof -
  have "json_string (scope_kind_name (sc_kind s)) = dquote # scope_kind_name (sc_kind s) @ [dquote]"
    by (cases "sc_kind s") (simp_all add: json_string_def scope_kind_name_def json_escape_def)
  with assms show ?thesis
    by (cases "sc_kind s") (simp_all add: stableValue_def json_object_def json_string_uuid)
qed

lemma kind_name_no_dquote: "dquote \<notin> set (scope_kind_name k)"
  by (cases k) (simp_all add: scope_kind_name_def dquote_def)

lemma stableValue_inj:
  assumes "uuid_scope s" and "uuid_scope t" and "stableValue s = stableValue t"
  shows "s = t"
proof -
  from assms(1,2) have u: "uuid_text (sc_orgId s)" "uuid_text (sc_orgId t)"
    by (simp_all add: uuid_scope_def)
  note forms = stableValue_form [OF u(1)] stableValue_form [OF u(2)]
  from assms(3) have k: "scope_kind_name (sc_kind s) = scope_kind_name (sc_kind t)"
    unfolding forms append_Cons append_Nil
    by (simp only: append_sep_inject [OF kind_name_no_dquote kind_name_no_dquote] list.inject
        same_append_eq simp_thms)
  from assms(3) have o: "sc_orgId s = sc_orgId t"
    and tail: "(case sc_kind s of
          Restricted ids \<Rightarrow> '','' @ json_string ''siteIds'' @ '':['' @ join '','' (map json_string ids) @ '']}''
        | _ \<Rightarrow> ''}'') = (case sc_kind t of
          Restricted ids \<Rightarrow> '','' @ json_string ''siteIds'' @ '':['' @ join '','' (map json_string ids) @ '']}''
        | _ \<Rightarrow> ''}'')"
    unfolding forms k append_Cons append_Nil
    by (simp_all only: append_sep_inject [OF uuid_no_dquote [OF u(1)] uuid_no_dquote [OF u(2)]]
        list.inject same_append_eq simp_thms)
  have "sc_kind s = sc_kind t"
    using k tail assms(1,2)
    by (cases "sc_kind s"; cases "sc_kind t")
       (auto simp: scope_kind_name_def uuid_scope_def intro: join_json_inj)
  with o show ?thesis by simp
qed

subsection \<open>Predicates and checks\<close>

lemma whole_org_not_finite:
  fixes o1 o2 :: id
  shows "\<not> {(org, site). org = o1} \<subseteq> {(org, site). org = o2 \<and> site \<in> set (ids :: id list)}"
proof
  assume sub: "{(org, site). org = o1} \<subseteq> {(org, site). org = o2 \<and> site \<in> set ids}"
  have "(UNIV :: id set) \<subseteq> set ids" using sub by auto
  then have "finite (UNIV :: id set)" by (rule finite_subset) simp
  then show False using infinite_UNIV_listI by blast
qed

lemma subset_spec:
  assumes "valid_scope a" and "valid_scope c" and "sc_kind a \<noteq> Restricted []"
  shows "isSiteScopeSubset le a c = Inr (may_show a \<subseteq> admits c)"
proof -
  have whole: "may_show a = {(org, site). org = sc_orgId a}" if "sc_kind a = Unrestricted \<or> sc_kind a = LegacyUnscoped"
    using that by (auto simp: may_show_def)
  have "admits c = {}" if "sc_kind c = LegacyUnscoped"
    using that by (auto simp: admits_def)
  with assms whole whole_org_not_finite [of "sc_orgId a" "sc_orgId c"] show ?thesis
    by (cases "sc_kind a"; cases "sc_kind c")
       (auto simp: isSiteScopeSubset_def may_show_def admits_def list_all_iff subset_iff neq_Nil_conv)
qed

lemma intersect_spec:
  assumes "valid_scope p" and "valid_scope c"
  shows "\<exists>r. intersectSiteScopes le p c = Inr r
           \<and> (case r of None \<Rightarrow> {} | Some s \<Rightarrow> admits s) = admits p \<inter> admits c"
proof -
  have "filter (\<lambda>i. i \<in> set ys) xs = [] \<longleftrightarrow> set xs \<inter> set ys = {}" for xs ys :: "id list"
    by (auto simp: filter_empty_conv)
  with assms show ?thesis
    by (cases "sc_kind p"; cases "sc_kind c")
       (auto simp: intersectSiteScopes_def admits_def Let_def)
qed

lemma subset_of_decoded:
  assumes "decodeSiteScope le sha256 row orgId = Inr s" and "sc_orgId cur = orgId" and "valid_scope cur"
    and "sc_kind cur \<noteq> LegacyUnscoped"
  shows "\<exists>P. definitionScopePredicate le cur = Inr P \<and> isSiteScopeSubset le s cur = Inr (P row)"
proof -
  note sh = decode_shape [OF assms(1)]
  show ?thesis
  proof (cases "allPersistedValuesAreNull row")
    case True
    with sh assms(2-) show ?thesis
      by (cases "sc_kind cur")
         (auto simp: definitionScopePredicate_def isSiteScopeSubset_def unrestrictedDefinitionPredicate_def
            completeVersionOneBase_def allPersistedValuesAreNull_def normalizeSiteIds_Inr then_ok_Inr
            valid_scope_def normalizeSiteIds_def)
  next
    case False
    with sh have d: "decoded_from le sha256 row s" by simp
    show ?thesis
      using sh assms(2-) d
      by (cases "sc_kind cur"; cases "sc_kind s")
         (auto simp: definitionScopePredicate_def isSiteScopeSubset_def unrestrictedDefinitionPredicate_def
            completeVersionOneBase_def decoded_from_def valid_scope_def normalizeSiteIds_def list_all_iff)
  qed
qed

subsection \<open>Several organizations\<close>

text \<open>The scope that decides for the rows of an organization: the first usable one.\<close>

definition usable_for :: "id \<Rightarrow> site_scope \<Rightarrow> bool" where
  "usable_for org s = (sc_orgId s = org \<and> sc_kind s \<noteq> Restricted [])"

definition scope_row_ok :: "site_scope \<Rightarrow> persisted_columns \<Rightarrow> bool" where
  "scope_row_ok s row =
     (case sc_kind s of
        Unrestricted \<Rightarrow> unrestrictedDefinitionPredicate row
      | Restricted ids \<Rightarrow> completeVersionOneBase row \<and> executionScopeKind row = Some KRestricted
          \<and> (case executionScopeSiteIds row of None \<Rightarrow> False | Some xs \<Rightarrow> set xs \<subseteq> set ids)
      | LegacyUnscoped \<Rightarrow> False)"

lemma definitionScopePredicate_ok:
  "valid_scope s \<Longrightarrow> definitionScopePredicate le s = Inr (scope_row_ok s)"
  by (cases "sc_kind s")
     (auto simp: definitionScopePredicate_def scope_row_ok_def normalizeSiteIds_def valid_scope_def fun_eq_iff
       split: option.splits)

lemma scope_row_ok_norm [simp]: "scope_row_ok (norm_scope le s) = scope_row_ok s"
  by (cases "sc_kind s") (simp_all add: scope_row_ok_def fun_eq_iff split: option.split)

lemma scope_branches_ok:
  "list_all valid_scope scopes
     \<Longrightarrow> scope_branches le scopes = Inr (map (\<lambda>s org row. org = sc_orgId s \<and> scope_row_ok s row) scopes)"
  by (induction scopes) (simp_all add: definitionScopePredicate_ok)

lemma find_usable_Cons:
  "find (usable_for org) (s # ss) = (if usable_for org s then Some s else find (usable_for org) ss)"
  by simp

lemma scopesByOrgId_step:
  assumes "valid_scope s"
  shows "scopesByOrgId le m (s # ss)
    = scopesByOrgId le (if sc_kind s = Restricted [] \<or> sc_orgId s \<in> fst ` set m then m
                        else m @ [(sc_orgId s, norm_scope le s)]) ss"
  using assms
  by (cases "sc_kind s")
     (auto simp: valid_scope_def normalizeSiteIds_def norm_scope_def intro!: arg_cong [where f = "\<lambda>m. scopesByOrgId le m ss"])

lemma scopesByOrgId_ok:
  assumes "list_all valid_scope ss" and "\<forall>(org, s) \<in> set m. sc_orgId s = org \<and> valid_scope s"
  shows "\<exists>m'. scopesByOrgId le m ss = Inr m' \<and> (\<forall>(org, s) \<in> set m'. sc_orgId s = org \<and> valid_scope s)
      \<and> (distinct (map fst m) \<longrightarrow> distinct (map fst m'))
      \<and> map_of m' = (\<lambda>org. nullish (map_of m org) (map_option (norm_scope le) (find (usable_for org) ss)))"
  using assms
proof (induction ss arbitrary: m)
  case Nil
  then show ?case by (auto simp: nullish_def fun_eq_iff split: option.splits)
next
  case (Cons s ss)
  then have v: "valid_scope s" "list_all valid_scope ss" by simp_all
  show ?case
  proof (cases "sc_kind s = Restricted [] \<or> sc_orgId s \<in> fst ` set m")
    case True
    have "nullish (map_of m org) (map_option (norm_scope le) (find (usable_for org) (s # ss)))
        = nullish (map_of m org) (map_option (norm_scope le) (find (usable_for org) ss))" for org
      using True by (cases "map_of m org") (auto simp: usable_for_def map_of_eq_None_iff)
    with True Cons.IH [OF v(2) Cons.prems(2)] show ?thesis
      unfolding scopesByOrgId_step [OF v(1)] by simp
  next
    case False
    let ?m = "m @ [(sc_orgId s, norm_scope le s)]"
    have none: "map_of m (sc_orgId s) = None" using False by (simp add: map_of_eq_None_iff)
    have "map_of ?m org = nullish (map_of m org) (if org = sc_orgId s then Some (norm_scope le s) else None)" for org
      by (simp add: map_of_append map_add_def nullish_def split: option.split)
    then have "nullish (map_of ?m org) (map_option (norm_scope le) (find (usable_for org) ss))
        = nullish (map_of m org) (map_option (norm_scope le) (find (usable_for org) (s # ss)))" for org
      using False by (cases "map_of m org") (auto simp: usable_for_def)
    moreover have "\<forall>(org, s) \<in> set ?m. sc_orgId s = org \<and> valid_scope s"
      using Cons.prems(2) v(1) by auto
    moreover have "distinct (map fst m) \<longrightarrow> distinct (map fst ?m)" using False by auto
    ultimately show ?thesis
      using False Cons.IH [OF v(2), of ?m] unfolding scopesByOrgId_step [OF v(1)] by auto
  qed
qed

lemma ex_snd_keyed:
  assumes "\<And>k v. (k, v) \<in> S \<Longrightarrow> key v = k"
  shows "(\<exists>v \<in> snd ` S. x = key v \<and> Q v) \<longleftrightarrow> (\<exists>v. (x, v) \<in> S \<and> Q v)"
proof
  assume "\<exists>v \<in> snd ` S. x = key v \<and> Q v"
  then obtain k v where kv: "(k, v) \<in> S" "x = key v" "Q v" by auto
  with assms [OF kv(1)] show "\<exists>v. (x, v) \<in> S \<and> Q v" by auto
next
  assume "\<exists>v. (x, v) \<in> S \<and> Q v"
  then obtain v where v: "(x, v) \<in> S" "Q v" by auto
  with assms [OF v(1)] show "\<exists>v \<in> snd ` S. x = key v \<and> Q v" by (intro bexI [of _ v]) (auto simp: image_iff intro: bexI [of _ "(x, v)"])
qed

lemma multiOrg_spec:
  assumes "list_all valid_scope ss"
  shows "\<exists>P. multiOrgScopePredicate le ss = Inr P
           \<and> (\<forall>org row. P org row = (case find (usable_for org) ss of None \<Rightarrow> False | Some s \<Rightarrow> scope_row_ok s row))"
proof -
  obtain m where m: "scopesByOrgId le [] ss = Inr m" "\<forall>(org, s) \<in> set m. sc_orgId s = org \<and> valid_scope s"
    "distinct (map fst m)" "map_of m = (\<lambda>org. map_option (norm_scope le) (find (usable_for org) ss))"
    using scopesByOrgId_ok [OF assms, of "[]" le] by auto
  let ?l = "js_sort (\<lambda>a b. le (sc_orgId a) (sc_orgId b)) (map snd m)"
  have "list_all valid_scope ?l" using m(2) by (auto simp: list_all_iff)
  then have "multiOrgScopePredicate le ss
      = Inr (\<lambda>org row. list_ex (\<lambda>p. p org row) (map (\<lambda>s org row. org = sc_orgId s \<and> scope_row_ok s row) ?l))"
    by (simp add: multiOrgScopePredicate_def m(1) scope_branches_ok)
  moreover have "list_ex (\<lambda>p. p org row) (map (\<lambda>s org row. org = sc_orgId s \<and> scope_row_ok s row) ?l)
      = (case map_of m org of None \<Rightarrow> False | Some s \<Rightarrow> scope_row_ok s row)" for org row
  proof -
    have "(\<exists>s \<in> set ?l. org = sc_orgId s \<and> scope_row_ok s row)
        \<longleftrightarrow> (\<exists>s. (org, s) \<in> set m \<and> scope_row_ok s row)"
      unfolding set_js_sort set_map using m(2) by (intro ex_snd_keyed) blast
    also have "\<dots> \<longleftrightarrow> (\<exists>s. map_of m org = Some s \<and> scope_row_ok s row)"
      using m(3) by (simp add: map_of_eq_Some_iff)
    finally show ?thesis
      by (cases "map_of m org") (simp_all add: list_ex_iff del: set_js_sort)
  qed
  moreover have "(case map_of m org of None \<Rightarrow> False | Some s \<Rightarrow> scope_row_ok s row)
      = (case find (usable_for org) ss of None \<Rightarrow> False | Some s \<Rightarrow> scope_row_ok s row)" for org row
    by (cases "find (usable_for org) ss") (simp_all add: m(4))
  ultimately show ?thesis by simp
qed

lemma decode_of_persisted:
  assumes "persistedSiteScopeValues le sha256 a = Inr row" and "linear_le le"
    and "hex64 (ra_fingerprint a)"
  shows "decodeSiteScope le sha256 row (sc_orgId (ra_scope a)) = Inr (norm_scope le (ra_scope a))"
proof -
  let ?s = "norm_scope le (ra_scope a)"
  from assms(1) have valid: "valid_scope (ra_scope a)" and user: "ra_principalUserId a \<noteq> []"
    and date: "ra_capturedAt a \<noteq> None" and fp: "ra_fingerprint a = sha256 (stableValue ?s)"
    by (auto simp: persistedSiteScopeValues_def then_ok_Inr normalizeScope_Inr siteScopeFingerprint_Inr
        norm_scope_idem [OF assms(2)] assertValidDate_def split: if_splits)
  from assms(3) have ne: "ra_fingerprint a \<noteq> []" by (auto simp: hex64_def)
  have chk: "validateDecodedScopeFingerprint le sha256 row ?s = Inr ?s"
    if "executionScopeFingerprint row = Some (ra_fingerprint a)"
    using that valid assms(3) unfolding validateDecoded_Inr norm_scope_idem [OF assms(2)] by (simp add: fp)
  have org: "sc_orgId (ra_scope a) \<noteq> []" using valid by (simp add: valid_scope_def)
  obtain t where t: "ra_capturedAt a = Some t" using date by blast
  have "siteScopeFingerprint le sha256 ?s = Inr (sha256 (stableValue ?s))"
    using valid by (simp add: siteScopeFingerprint_Inr norm_scope_idem [OF assms(2)])
  with assms(1) valid user t fp have row: "row =
     \<lparr>executionScopeVersion = Some 1,
      executionScopeKind = Some (case sc_kind ?s of Unrestricted \<Rightarrow> KUnrestricted
                                 | Restricted _ \<Rightarrow> KRestricted | LegacyUnscoped \<Rightarrow> KLegacyUnscoped),
      executionScopeSiteIds = (case sc_kind ?s of Restricted ids \<Rightarrow> Some ids | _ \<Rightarrow> None),
      executionScopeUserId = Some (ra_principalUserId a),
      executionScopeFingerprint = Some (ra_fingerprint a),
      executionScopeCapturedAt = Some (Some t)\<rparr>"
    by (simp add: persistedSiteScopeValues_def assertValidDate_def)
  then have base: "assertCompletePersistedBase row = Inr ()" "\<not> allPersistedValuesAreNull row"
    and chk': "validateDecodedScopeFingerprint le sha256 row ?s = Inr ?s"
    using ne chk by (simp_all add: assertCompletePersistedBase_Inr allPersistedValuesAreNull_def)
  have ids: "normalizeSiteIds le (js_sort le (js_dedup xs)) = Inr (js_sort le (js_dedup xs))"
    if "sc_kind (ra_scope a) = Restricted xs" for xs
    using that valid by (simp add: normalizeSiteIds_Inr norm_ids_idem [OF assms(2)] valid_scope_def)
  show ?thesis
    using org base user chk' ids
    by (cases "sc_kind (ra_scope a)")
       (simp_all add: decodeSiteScope_def row norm_scope_def)
qed

lemma linear_str_le: "linear_le str_le"
proof -
  have "str_le a b \<or> str_le b a" for a b
    by (induction a b rule: str_le.induct) (auto simp: not_less_iff_gr_or_eq)
  moreover have "str_le a b \<Longrightarrow> str_le b c \<Longrightarrow> str_le a c" for a b c
  proof (induction a b arbitrary: c rule: str_le.induct)
    case (3 x s y t)
    then show ?case by (cases c) auto
  qed simp_all
  moreover have "str_le a b \<Longrightarrow> str_le b a \<Longrightarrow> a = b" for a b
    by (induction a b rule: str_le.induct) (auto dest: less_asym elim: str_le.elims)
  ultimately show ?thesis unfolding linear_le_def by blast
qed

definition sample_row :: "id list \<Rightarrow> persisted_columns" where
  "sample_row ids =
     \<lparr>executionScopeVersion = Some 1, executionScopeKind = Some KRestricted,
      executionScopeSiteIds = Some ids, executionScopeUserId = Some (sample_id CHR ''1''),
      executionScopeFingerprint = Some (replicate 64 CHR ''0''), executionScopeCapturedAt = Some (Some 0)\<rparr>"

lemma sample_scope_facts:
  "valid_scope (sample_scope [sample_id CHR ''5''])"
  "valid_scope (sample_scope [sample_id CHR ''7'', sample_id CHR ''5''])"
  "uuid_scope (sample_scope [sample_id CHR ''5''])" "uuid_scope (sample_scope [sample_id CHR ''7''])"
  "sample_scope [sample_id CHR ''5''] \<noteq> sample_scope [sample_id CHR ''7'']"
  "sc_kind (sample_scope [sample_id CHR ''5'']) = Restricted [sample_id CHR ''5'']"
  "sc_orgId (sample_scope [sample_id CHR ''5'']) = sample_id CHR ''b''"
  "sample_id CHR ''1'' \<noteq> []" "hex64 (replicate 64 CHR ''0'')"
  by code_simp+

lemma sample_decodes:
  "decodeSiteScope str_le (\<lambda>_. replicate 64 CHR ''0'') (sample_row [sample_id CHR ''5'']) (sample_id CHR ''b'')
     = Inr (sample_scope [sample_id CHR ''5''])"
  "decodeSiteScope str_le (\<lambda>_. replicate 64 CHR ''0'') (sample_row [sample_id CHR ''7'']) (sample_id CHR ''b'')
     = Inr (sample_scope [sample_id CHR ''7''])"
  "\<not> allPersistedValuesAreNull (sample_row [sample_id CHR ''5''])"
  "\<not> allPersistedValuesAreNull (sample_row [sample_id CHR ''7''])"
  "executionScopeFingerprint (sample_row [sample_id CHR ''5'']) = executionScopeFingerprint (sample_row [sample_id CHR ''7''])"
  by code_simp+

section \<open>Properties\<close>

text \<open>Intersecting a captured scope with the current one gives exactly the sites both admit:
  the result admits the intersection, and no result is returned only when it is empty. A scope of the
  time before scopes admits nothing.\<close>

theorem scope_intersection_meet:
  assumes "valid_scope persisted" and "valid_scope current"
  shows "\<exists>r. intersectSiteScopes le persisted current = Inr r
           \<and> (case r of None \<Rightarrow> {} | Some s \<Rightarrow> admits s) = admits persisted \<inter> admits current"
  using assms by (rule intersect_spec)

theorem scope_intersection_meet_witness:
  "\<exists>r. intersectSiteScopes str_le (sample_scope [sample_id CHR ''7'', sample_id CHR ''5'']) (sample_scope [sample_id CHR ''5'']) = Inr r
     \<and> (case r of None \<Rightarrow> {} | Some s \<Rightarrow> admits s)
         = admits (sample_scope [sample_id CHR ''7'', sample_id CHR ''5'']) \<inter> admits (sample_scope [sample_id CHR ''5''])"
  using sample_scope_facts(2,1) by (rule scope_intersection_meet)

text \<open>The subset check decides containment. A captured scope that lists a site, or is not
  limited to sites, passes the check against the current scope exactly when everything a report
  captured under it may show is admitted now; a report of the time before scopes passes only against
  an unrestricted reader of its organization.\<close>

theorem scope_subset_exact:
  assumes "valid_scope candidate" and "valid_scope current" and "sc_kind candidate \<noteq> Restricted []"
  shows "isSiteScopeSubset le candidate current = Inr (may_show candidate \<subseteq> admits current)"
  using assms by (rule subset_spec)

theorem scope_subset_exact_witness:
  "isSiteScopeSubset str_le (sample_scope [sample_id CHR ''5'']) (sample_scope [sample_id CHR ''7'', sample_id CHR ''5''])
     = Inr (may_show (sample_scope [sample_id CHR ''5''])
            \<subseteq> admits (sample_scope [sample_id CHR ''7'', sample_id CHR ''5'']))"
  using sample_scope_facts(1,2) by (rule scope_subset_exact) (simp add: sample_scope_facts(6))

text \<open>Round trip of a stored scope. Every valid scope, with its fingerprint, is stored, and
  decoding the stored columns for its organization returns it with its sites sorted and without
  duplicates, which admits the same sites.\<close>

theorem stored_scope_round_trip:
  assumes "linear_le le" and "\<And>x. hex64 (sha256 x)" and "valid_scope scope" and "userId \<noteq> []"
  shows "\<exists>fingerprint row. siteScopeFingerprint le sha256 scope = Inr fingerprint
    \<and> persistedSiteScopeValues le sha256
        \<lparr>ra_scope = scope, ra_principalUserId = userId, ra_capturedAt = Some t, ra_fingerprint = fingerprint\<rparr> = Inr row
    \<and> decodeSiteScope le sha256 row (sc_orgId scope) = Inr (norm_scope le scope)
    \<and> admits (norm_scope le scope) = admits scope"
proof -
  let ?f = "sha256 (stableValue (norm_scope le scope))"
  let ?a = "\<lparr>ra_scope = scope, ra_principalUserId = userId, ra_capturedAt = Some t, ra_fingerprint = ?f\<rparr>"
  have fp: "siteScopeFingerprint le sha256 scope = Inr ?f"
    "siteScopeFingerprint le sha256 (norm_scope le scope) = Inr ?f"
    using assms(1,3) by (simp_all add: siteScopeFingerprint_Inr norm_scope_idem)
  have "\<exists>row. persistedSiteScopeValues le sha256 ?a = Inr row"
    using assms(3,4) fp by (simp add: persistedSiteScopeValues_def assertValidDate_def)
  then obtain row where row: "persistedSiteScopeValues le sha256 ?a = Inr row" ..
  have "decodeSiteScope le sha256 row (sc_orgId scope) = Inr (norm_scope le scope)"
    using decode_of_persisted [OF row assms(1)] assms(2) by simp
  with fp(1) row show ?thesis by (intro exI [of _ ?f] exI [of _ row]) simp
qed

theorem stored_scope_round_trip_witness:
  "\<exists>fingerprint row. siteScopeFingerprint str_le (\<lambda>_. replicate 64 CHR ''0'') (sample_scope [sample_id CHR ''7'', sample_id CHR ''5'']) = Inr fingerprint
    \<and> persistedSiteScopeValues str_le (\<lambda>_. replicate 64 CHR ''0'')
        \<lparr>ra_scope = sample_scope [sample_id CHR ''7'', sample_id CHR ''5''], ra_principalUserId = sample_id CHR ''1'',
         ra_capturedAt = Some 0, ra_fingerprint = fingerprint\<rparr> = Inr row
    \<and> decodeSiteScope str_le (\<lambda>_. replicate 64 CHR ''0'') row (sc_orgId (sample_scope [sample_id CHR ''7'', sample_id CHR ''5'']))
        = Inr (norm_scope str_le (sample_scope [sample_id CHR ''7'', sample_id CHR ''5'']))
    \<and> admits (norm_scope str_le (sample_scope [sample_id CHR ''7'', sample_id CHR ''5'']))
        = admits (sample_scope [sample_id CHR ''7'', sample_id CHR ''5''])"
  by (rule stored_scope_round_trip [OF linear_str_le sample_scope_facts(9) sample_scope_facts(2,8)])

text \<open>Stored scopes are tamper evident. Two rows that carry the same fingerprint and decode to
  different scopes (another kind, another organization, other sites) exhibit a collision of the hash:
  the two texts that were hashed differ and have the same digest.\<close>

theorem stored_scope_tamper_evident:
  assumes "linear_le le"
    and "decodeSiteScope le sha256 row org = Inr s" and "\<not> allPersistedValuesAreNull row" and "uuid_scope s"
    and "decodeSiteScope le sha256 row' org' = Inr s'" and "\<not> allPersistedValuesAreNull row'" and "uuid_scope s'"
    and "executionScopeFingerprint row = executionScopeFingerprint row'" and "s \<noteq> s'"
  shows "stableValue s \<noteq> stableValue s' \<and> sha256 (stableValue s) = sha256 (stableValue s')"
proof -
  have norm: "norm_scope le z = z" if "decoded_from le sha256 r z" for z r
    using that norm_ids_idem [OF assms(1)]
    by (cases "sc_kind z") (auto simp: norm_scope_def decoded_from_def)
  from decode_shape [OF assms(2)] assms(3) have d: "decoded_from le sha256 row s" by simp
  from decode_shape [OF assms(5)] assms(6) have d': "decoded_from le sha256 row' s'" by simp
  have "sha256 (stableValue s) = sha256 (stableValue s')"
    using d d' assms(8) norm [OF d] norm [OF d'] by (simp add: decoded_from_def)
  moreover have "stableValue s \<noteq> stableValue s'" using stableValue_inj assms(4,7,9) by blast
  ultimately show ?thesis by simp
qed

theorem stored_scope_tamper_evident_witness:
  "stableValue (sample_scope [sample_id CHR ''5'']) \<noteq> stableValue (sample_scope [sample_id CHR ''7''])"
  using stored_scope_tamper_evident [OF linear_str_le sample_decodes(1,3) sample_scope_facts(3)
      sample_decodes(2,4) sample_scope_facts(4) sample_decodes(5) sample_scope_facts(5)]
  by (rule conjunct1)

text \<open>C36: The SQL predicate that lists reports and report runs selects a stored row exactly when
  the decoded scope of the row passes the in-memory subset check against the reader's scope. No row
  is listed that the check would refuse, and none is hidden that it would allow.\<close>

theorem sql_predicate_agrees:
  assumes "decodeSiteScope le sha256 row org = Inr s" and "sc_orgId current = org"
    and "valid_scope current" and "sc_kind current \<noteq> LegacyUnscoped"
  shows "\<exists>P. reportDefinitionScopeSqlPredicate le current = Inr P
           \<and> reportRunScopeSqlPredicate le current = Inr P
           \<and> isSiteScopeSubset le s current = Inr (P row)"
  using subset_of_decoded [OF assms]
  by (simp add: reportDefinitionScopeSqlPredicate_def reportRunScopeSqlPredicate_def)

theorem sql_predicate_agrees_witness:
  "\<exists>P. reportDefinitionScopeSqlPredicate str_le (sample_scope [sample_id CHR ''5'']) = Inr P
     \<and> reportRunScopeSqlPredicate str_le (sample_scope [sample_id CHR ''5'']) = Inr P
     \<and> isSiteScopeSubset str_le (sample_scope [sample_id CHR ''7'']) (sample_scope [sample_id CHR ''5''])
         = Inr (P (sample_row [sample_id CHR ''7'']))"
  using sample_decodes(2) sample_scope_facts(7,1)
  by (rule sql_predicate_agrees) (simp add: sample_scope_facts(6))

text \<open>The predicate for a reader with scopes in several organizations selects a row exactly
  when the reader has a usable scope for the row's organization and the first such scope selects the
  row on its own; a scope for one organization never selects rows of another.\<close>

theorem multi_org_predicate_exact:
  assumes "list_all valid_scope scopes"
  shows "\<exists>P. reportDefinitionMultiOrgScopeSqlPredicate le scopes = Inr P
           \<and> reportRunMultiOrgScopeSqlPredicate le scopes = Inr P
           \<and> (\<forall>org row. P org row =
                (case find (\<lambda>s. sc_orgId s = org \<and> sc_kind s \<noteq> Restricted []) scopes of
                   None \<Rightarrow> False
                 | Some s \<Rightarrow> (\<exists>Q. definitionScopePredicate le s = Inr Q \<and> Q row)))"
proof -
  obtain P where P: "multiOrgScopePredicate le scopes = Inr P"
    "P org row = (case find (usable_for org) scopes of None \<Rightarrow> False | Some s \<Rightarrow> scope_row_ok s row)" for org row
    using multiOrg_spec [OF assms] by metis
  have "usable_for org = (\<lambda>s. sc_orgId s = org \<and> sc_kind s \<noteq> Restricted [])" for org
    by (simp add: usable_for_def fun_eq_iff)
  moreover have "definitionScopePredicate le s = Inr (scope_row_ok s)" if "find (usable_for org) scopes = Some s" for org s
    using find_SomeD [OF that] assms by (simp add: definitionScopePredicate_ok list_all_iff)
  ultimately show ?thesis
    using P by (auto simp: reportDefinitionMultiOrgScopeSqlPredicate_def reportRunMultiOrgScopeSqlPredicate_def
        split: option.splits)
qed

theorem multi_org_predicate_exact_witness:
  "\<exists>P. reportDefinitionMultiOrgScopeSqlPredicate str_le [sample_scope [sample_id CHR ''5'']] = Inr P
     \<and> reportRunMultiOrgScopeSqlPredicate str_le [sample_scope [sample_id CHR ''5'']] = Inr P
     \<and> (\<forall>org row. P org row =
          (case find (\<lambda>s. sc_orgId s = org \<and> sc_kind s \<noteq> Restricted []) [sample_scope [sample_id CHR ''5'']] of
             None \<Rightarrow> False
           | Some s \<Rightarrow> (\<exists>Q. definitionScopePredicate str_le s = Inr Q \<and> Q row)))"
  by (rule multi_org_predicate_exact) (simp add: sample_scope_facts(1))

end
