(* ===== verification/Report_Authority.thy ===== *)
theory Report_Authority
  imports Site_Scope
begin

text \<open>
  The live report authority of apps/api/src/services/siteScope.ts: whether a user may act on the
  reports of an organization now, and with which site scope. There are two resolvers: one for a
  single organization, and one that answers for a list of organizations with a constant number of
  queries. All reads run with system visibility. \<open>readsFail\<close> says that a query throws, which both
  resolvers turn into a denial; \<open>now\<close> is the capture time.
\<close>

section \<open>Results\<close>

datatype denial = UserInactive | MembershipRemoved | PermissionRemoved | OrganizationInaccessible
  | EmptyScope | UnverifiableScope

type_synonym live_result = "denial + report_authority"

definition denied :: "denial \<Rightarrow> live_result" where
  "denied reason = Inl reason"

definition liveAuthority ::
  "(id \<Rightarrow> id \<Rightarrow> bool) \<Rightarrow> (string \<Rightarrow> string) \<Rightarrow> site_scope \<Rightarrow> id \<Rightarrow> int \<Rightarrow> string + live_result" where
  "liveAuthority le sha256 scope principalUserId capturedAt =
     then_ok (siteScopeFingerprint le sha256 scope) (\<lambda>fingerprint.
       Inr (Inr \<lparr>ra_scope = scope, ra_principalUserId = principalUserId,
                 ra_capturedAt = Some capturedAt, ra_fingerprint = fingerprint\<rparr>))"

section \<open>Grants\<close>

datatype expected_role = ExpectOrganization id | ExpectPartner id

record grant_row =
  gr_roleId :: id
  gr_permission :: permission
  gr_roleScope :: db_scope
  gr_roleIsSystem :: bool
  gr_roleOrgId :: "id option"
  gr_rolePartnerId :: "id option"

text \<open>\<open>role_permissions\<close> joined with \<open>roles\<close> and \<open>permissions\<close>, for the roles \<open>sel\<close> admits, with the
  filter on resource and action.\<close>

definition grants_of :: "database \<Rightarrow> string \<Rightarrow> role_permission_row \<Rightarrow> grant_row list dbm" where
  "grants_of d action rp amb =
     concat (map (\<lambda>r. map (\<lambda>p.
         \<lparr>gr_roleId = rp_roleId rp,
          gr_permission = \<lparr>perm_resource = pe_resource p, perm_action = pe_action p\<rparr>,
          gr_roleScope = ro_scope r, gr_roleIsSystem = ro_isSystem r,
          gr_roleOrgId = ro_orgId r, gr_rolePartnerId = ro_partnerId r\<rparr>)
       (filter (\<lambda>p. pe_id p = rp_permissionId rp
            \<and> (pe_resource p = ''reports'' \<or> pe_resource p = ''*'')
            \<and> (pe_action p = action \<or> pe_action p = ''*'')) (permissions_table d)))
       (filter (\<lambda>r. ro_id r = rp_roleId rp) (select_roles (current_gucs amb) d)))"

definition grant_rows :: "database \<Rightarrow> (id \<Rightarrow> bool) \<Rightarrow> string \<Rightarrow> grant_row list dbm" where
  "grant_rows d sel action amb =
     concat (map (\<lambda>rp. grants_of d action rp amb)
       (filter (\<lambda>rp. sel (rp_roleId rp)) (select_role_permissions (current_gucs amb) d)))"

fun role_as_expected :: "expected_role \<Rightarrow> grant_row \<Rightarrow> bool" where
  "role_as_expected (ExpectOrganization orgId) row =
     (gr_roleScope row = OrgScope \<and> (gr_roleIsSystem row \<or> gr_roleOrgId row = Some orgId))"
| "role_as_expected (ExpectPartner partnerId) row =
     (gr_roleScope row = PartnerScope \<and> (gr_roleIsSystem row \<or> gr_rolePartnerId row = Some partnerId))"

definition roleGrantsReportAction :: "database \<Rightarrow> id \<Rightarrow> string \<Rightarrow> expected_role \<Rightarrow> bool dbm" where
  "roleGrantsReportAction d roleId action expectedRole amb =
     list_ex (\<lambda>row. permissionGrantMatches (gr_permission row) ''reports'' action
                    \<and> role_as_expected expectedRole row)
       (filter (role_as_expected expectedRole) (grant_rows d (\<lambda>i. i = roleId) action amb))"

definition batchRoleGrantsReportAction ::
  "grant_row list \<Rightarrow> id \<Rightarrow> string \<Rightarrow> expected_role \<Rightarrow> bool" where
  "batchRoleGrantsReportAction rows roleId action expectedRole =
     list_ex (\<lambda>row. gr_roleId row = roleId
                    \<and> permissionGrantMatches (gr_permission row) ''reports'' action
                    \<and> role_as_expected expectedRole row) rows"

definition partnerMembershipAdmitsOrg :: "partner_user_row \<Rightarrow> id \<Rightarrow> bool" where
  "partnerMembershipAdmitsOrg membership orgId =
     (case pu_orgAccess membership of
        OrgAccessAll \<Rightarrow> True
      | OrgAccessSelected \<Rightarrow> (case pu_orgIds membership of None \<Rightarrow> False | Some ids \<Rightarrow> orgId \<in> set ids)
      | OrgAccessNone \<Rightarrow> False)"

section \<open>One organization\<close>

definition report_user :: "database \<Rightarrow> id \<Rightarrow> user_row option dbm" where
  "report_user d userId amb = find (\<lambda>u. us_id u = userId) (select_users (current_gucs amb) d)"

text \<open>The branch for a user with an organization membership, and the one for a partner membership.\<close>

definition org_member_authority ::
  "(id \<Rightarrow> id \<Rightarrow> bool) \<Rightarrow> (string \<Rightarrow> string) \<Rightarrow> int \<Rightarrow> id \<Rightarrow> id \<Rightarrow> bool \<Rightarrow> organization_user_row
     \<Rightarrow> string + live_result" where
  "org_member_authority le sha256 now userId orgId granted membership =
     (if ou_roleId membership = [] \<or> \<not> granted then Inr (denied PermissionRemoved)
      else (case ou_siteIds membership of
              None \<Rightarrow> liveAuthority le sha256 \<lparr>sc_kind = Unrestricted, sc_orgId = orgId\<rparr> userId now
            | Some ids \<Rightarrow>
                then_ok (normalizeSiteIds le ids) (\<lambda>siteIds.
                  if siteIds = [] then Inr (denied EmptyScope)
                  else liveAuthority le sha256 \<lparr>sc_kind = Restricted siteIds, sc_orgId = orgId\<rparr> userId now)))"

definition partner_member_authority ::
  "(id \<Rightarrow> id \<Rightarrow> bool) \<Rightarrow> (string \<Rightarrow> string) \<Rightarrow> int \<Rightarrow> id \<Rightarrow> id \<Rightarrow> bool \<Rightarrow> partner_user_row
     \<Rightarrow> string + live_result" where
  "partner_member_authority le sha256 now userId orgId granted membership =
     (if \<not> partnerMembershipAdmitsOrg membership orgId then Inr (denied OrganizationInaccessible)
      else if pu_roleId membership = [] \<or> \<not> granted then Inr (denied PermissionRemoved)
      else liveAuthority le sha256 \<lparr>sc_kind = Unrestricted, sc_orgId = orgId\<rparr> userId now)"

definition resolveExactReportAuthorityInSystemContext ::
  "(id \<Rightarrow> id \<Rightarrow> bool) \<Rightarrow> (string \<Rightarrow> string) \<Rightarrow> database \<Rightarrow> int \<Rightarrow> id \<Rightarrow> id \<Rightarrow> string \<Rightarrow> bool
     \<Rightarrow> (string + live_result) dbm" where
  "resolveExactReportAuthorityInSystemContext le sha256 d now userId orgId action allowPlatformAuthority amb =
     (case report_user d userId amb of
        None \<Rightarrow> Inr (denied UserInactive)
      | Some user \<Rightarrow>
          if us_status user \<noteq> UActive then Inr (denied UserInactive)
          else (case find (\<lambda>og. og_id og = orgId) (select_organizations (current_gucs amb) d) of
             None \<Rightarrow> Inr (denied OrganizationInaccessible)
           | Some organization \<Rightarrow>
               if allowPlatformAuthority \<and> us_isPlatformAdmin user
               then liveAuthority le sha256 \<lparr>sc_kind = Unrestricted, sc_orgId = orgId\<rparr> (us_id user) now
               else (case take 2 (filter (\<lambda>m. ou_userId m = us_id user \<and> ou_orgId m = orgId)
                                    (select_organization_users (current_gucs amb) d)) of
                  [m] \<Rightarrow>
                    org_member_authority le sha256 now (us_id user) orgId
                      (roleGrantsReportAction d (ou_roleId m) action (ExpectOrganization orgId) amb) m
                | [] \<Rightarrow>
                    if og_partnerId organization \<noteq> us_partnerId user then Inr (denied OrganizationInaccessible)
                    else (case take 2 (filter (\<lambda>m. pu_userId m = us_id user
                                                  \<and> pu_partnerId m = og_partnerId organization)
                                         (select_partner_users (current_gucs amb) d)) of
                       [m] \<Rightarrow>
                         partner_member_authority le sha256 now (us_id user) orgId
                           (roleGrantsReportAction d (pu_roleId m) action
                              (ExpectPartner (og_partnerId organization)) amb) m
                     | [] \<Rightarrow> Inr (denied MembershipRemoved)
                     | _ \<Rightarrow> Inr (denied UnverifiableScope))
                | _ \<Rightarrow> Inr (denied UnverifiableScope))))"

definition resolveExactReportAuthority ::
  "(id \<Rightarrow> id \<Rightarrow> bool) \<Rightarrow> (string \<Rightarrow> string) \<Rightarrow> bool \<Rightarrow> database \<Rightarrow> int \<Rightarrow> id \<Rightarrow> id \<Rightarrow> string \<Rightarrow> bool
     \<Rightarrow> live_result dbm" where
  "resolveExactReportAuthority le sha256 readsFail d now userId orgId action allowPlatformAuthority amb =
     (case (if readsFail then Inl ''query failed''
            else runOutsideDbContext (withSystemDbAccessContext
                   (resolveExactReportAuthorityInSystemContext le sha256 d now userId orgId action
                      allowPlatformAuthority)) amb) of
        Inl e \<Rightarrow> denied UnverifiableScope
      | Inr r \<Rightarrow> r)"

definition resolveLiveReportAuthority ::
  "(id \<Rightarrow> id \<Rightarrow> bool) \<Rightarrow> (string \<Rightarrow> string) \<Rightarrow> bool \<Rightarrow> database \<Rightarrow> int \<Rightarrow> id \<Rightarrow> id \<Rightarrow> string \<Rightarrow> live_result dbm" where
  "resolveLiveReportAuthority le sha256 readsFail d now userId orgId action =
     resolveExactReportAuthority le sha256 readsFail d now userId orgId action True"

text \<open>The authentication context of a request.\<close>

record request_auth =
  rq_userId :: id
  rq_scope :: db_scope
  rq_orgId :: "id option"
  rq_accessibleOrgIds :: "id list option"
  rq_canAccessOrg :: "id \<Rightarrow> bool"

definition requestAuthAdmitsOrg :: "request_auth \<Rightarrow> id \<Rightarrow> bool" where
  "requestAuthAdmitsOrg auth orgId =
     (case rq_scope auth of
        OrgScope \<Rightarrow> rq_orgId auth = Some orgId \<and> rq_canAccessOrg auth orgId
      | PartnerScope \<Rightarrow>
          (case rq_accessibleOrgIds auth of None \<Rightarrow> False | Some ids \<Rightarrow> orgId \<in> set ids)
          \<and> rq_canAccessOrg auth orgId
      | SystemScope \<Rightarrow> rq_canAccessOrg auth orgId)"

definition resolveRequestReportAuthority ::
  "(id \<Rightarrow> id \<Rightarrow> bool) \<Rightarrow> (string \<Rightarrow> string) \<Rightarrow> bool \<Rightarrow> database \<Rightarrow> int \<Rightarrow> request_auth \<Rightarrow> id \<Rightarrow> string
     \<Rightarrow> live_result dbm" where
  "resolveRequestReportAuthority le sha256 readsFail d now auth orgId action amb =
     (if \<not> requestAuthAdmitsOrg auth orgId then denied OrganizationInaccessible
      else resolveExactReportAuthority le sha256 readsFail d now (rq_userId auth) orgId action
             (rq_scope auth = SystemScope) amb)"

section \<open>Many organizations\<close>

text \<open>
  The loop that indexes membership rows by tenant: the entries of the map, the tenants seen, and the
  tenants seen twice, whose entry is deleted.
\<close>

record 'm membership_index =
  mi_entries :: "(id \<times> 'm) list"
  mi_seen :: "id list"
  mi_duplicate :: "id list"

definition index_membership :: "('m \<Rightarrow> id) \<Rightarrow> 'm membership_index \<Rightarrow> 'm \<Rightarrow> 'm membership_index" where
  "index_membership key ix m =
     (if key m \<in> set (mi_seen ix)
      then ix\<lparr>mi_duplicate := key m # mi_duplicate ix,
              mi_entries := filter (\<lambda>e. fst e \<noteq> key m) (mi_entries ix)\<rparr>
      else ix\<lparr>mi_seen := key m # mi_seen ix, mi_entries := mi_entries ix @ [(key m, m)]\<rparr>)"

definition index_memberships :: "('m \<Rightarrow> id) \<Rightarrow> 'm list \<Rightarrow> 'm membership_index" where
  "index_memberships key rows =
     foldl (index_membership key) \<lparr>mi_entries = [], mi_seen = [], mi_duplicate = []\<rparr> rows"

text \<open>A map built from an array of rows: a later row replaces an earlier one with the same key.\<close>

definition organizationsById :: "database \<Rightarrow> id list \<Rightarrow> (id \<Rightarrow> org_row option) dbm" where
  "organizationsById d accessibleOrgIds amb orgId =
     find (\<lambda>og. og_id og = orgId)
       (rev (filter (\<lambda>og. og_id og \<in> set accessibleOrgIds) (select_organizations (current_gucs amb) d)))"

definition organizationMembershipRows :: "database \<Rightarrow> id \<Rightarrow> id list \<Rightarrow> organization_user_row list dbm" where
  "organizationMembershipRows d userId existingOrgIds amb =
     (if existingOrgIds = [] then []
      else filter (\<lambda>m. ou_userId m = userId \<and> ou_orgId m \<in> set existingOrgIds)
             (select_organization_users (current_gucs amb) d))"

definition partnerMembershipRows :: "database \<Rightarrow> id \<Rightarrow> id list \<Rightarrow> partner_user_row list dbm" where
  "partnerMembershipRows d userId fallbackPartnerIds amb =
     (if fallbackPartnerIds = [] then []
      else filter (\<lambda>m. pu_userId m = userId \<and> pu_partnerId m \<in> set fallbackPartnerIds)
             (select_partner_users (current_gucs amb) d))"

text \<open>The permission rows of the roles of the indexed memberships.\<close>

definition permissionRows ::
  "(id \<Rightarrow> id \<Rightarrow> bool) \<Rightarrow> database \<Rightarrow> string \<Rightarrow> id list \<Rightarrow> (string + grant_row list) dbm" where
  "permissionRows le d action roleIds amb =
     then_ok (normalizeSiteIds le (filter (\<lambda>i. i \<noteq> []) roleIds)) (\<lambda>ids.
       Inr (if ids = [] then [] else grant_rows d (\<lambda>i. i \<in> set ids) action amb))"

text \<open>The answer for one organization from the tables read before the loop.\<close>

record batch_tables =
  bt_user :: user_row
  bt_organizations :: "id \<Rightarrow> org_row option"
  bt_orgMembers :: "organization_user_row membership_index"
  bt_orgGrants :: "grant_row list"
  bt_partnerMembers :: "partner_user_row membership_index"
  bt_partnerGrants :: "grant_row list"

definition batch_answer ::
  "(id \<Rightarrow> id \<Rightarrow> bool) \<Rightarrow> (string \<Rightarrow> string) \<Rightarrow> int \<Rightarrow> string \<Rightarrow> batch_tables \<Rightarrow> id \<Rightarrow> string + live_result" where
  "batch_answer le sha256 now action t orgId =
     (case bt_organizations t orgId of
        None \<Rightarrow> Inr (denied OrganizationInaccessible)
      | Some organization \<Rightarrow>
          if orgId \<in> set (mi_duplicate (bt_orgMembers t)) then Inr (denied UnverifiableScope)
          else (case map_of (mi_entries (bt_orgMembers t)) orgId of
             Some m \<Rightarrow>
               org_member_authority le sha256 now (us_id (bt_user t)) orgId
                 (batchRoleGrantsReportAction (bt_orgGrants t) (ou_roleId m) action (ExpectOrganization orgId)) m
           | None \<Rightarrow>
               if og_partnerId organization \<noteq> us_partnerId (bt_user t) then Inr (denied OrganizationInaccessible)
               else if og_partnerId organization \<in> set (mi_duplicate (bt_partnerMembers t))
               then Inr (denied UnverifiableScope)
               else (case map_of (mi_entries (bt_partnerMembers t)) (og_partnerId organization) of
                  None \<Rightarrow> Inr (denied MembershipRemoved)
                | Some m \<Rightarrow>
                    partner_member_authority le sha256 now (us_id (bt_user t)) orgId
                      (batchRoleGrantsReportAction (bt_partnerGrants t) (pu_roleId m) action
                         (ExpectPartner (og_partnerId organization))) m)))"

fun set_answers ::
  "(id \<Rightarrow> string + live_result) \<Rightarrow> (id \<rightharpoonup> live_result) \<Rightarrow> id list \<Rightarrow> string + (id \<rightharpoonup> live_result)" where
  "set_answers answer result [] = Inr result"
| "set_answers answer result (orgId # orgIds) =
     then_ok (answer orgId) (\<lambda>r. set_answers answer (result(orgId \<mapsto> r)) orgIds)"

definition batchTables ::
  "(id \<Rightarrow> id \<Rightarrow> bool) \<Rightarrow> database \<Rightarrow> string \<Rightarrow> user_row \<Rightarrow> id list \<Rightarrow> (string + batch_tables) dbm" where
  "batchTables le d action user accessibleOrgIds amb =
     (let byId = organizationsById d accessibleOrgIds amb;
          existingOrgIds = filter (\<lambda>i. byId i \<noteq> None) accessibleOrgIds;
          orgMembers = index_memberships ou_orgId (organizationMembershipRows d (us_id user) existingOrgIds amb)
      in then_ok (permissionRows le d action (map (\<lambda>e. ou_roleId (snd e)) (mi_entries orgMembers)) amb) (\<lambda>orgGrants.
         then_ok (normalizeSiteIds le
             (filter (\<lambda>p. p = us_partnerId user)
               (map (\<lambda>i. case byId i of None \<Rightarrow> [] | Some og \<Rightarrow> og_partnerId og)
                 (filter (\<lambda>i. i \<notin> set (mi_seen orgMembers)) existingOrgIds)))) (\<lambda>fallbackPartnerIds.
         let partnerMembers = index_memberships pu_partnerId
               (partnerMembershipRows d (us_id user) fallbackPartnerIds amb)
         in then_ok (permissionRows le d action (map (\<lambda>e. pu_roleId (snd e)) (mi_entries partnerMembers)) amb)
              (\<lambda>partnerGrants.
                Inr \<lparr>bt_user = user, bt_organizations = byId, bt_orgMembers = orgMembers,
                     bt_orgGrants = orgGrants, bt_partnerMembers = partnerMembers,
                     bt_partnerGrants = partnerGrants\<rparr>))))"

definition resolveRequestReportAuthorityMapInSystemContext ::
  "(id \<Rightarrow> id \<Rightarrow> bool) \<Rightarrow> (string \<Rightarrow> string) \<Rightarrow> database \<Rightarrow> int \<Rightarrow> request_auth \<Rightarrow> id list \<Rightarrow> string
     \<Rightarrow> (id \<rightharpoonup> live_result) \<Rightarrow> (string + (id \<rightharpoonup> live_result)) dbm" where
  "resolveRequestReportAuthorityMapInSystemContext le sha256 d now auth accessibleOrgIds action result amb =
     (case report_user d (rq_userId auth) amb of
        None \<Rightarrow> set_answers (\<lambda>_. Inr (denied UserInactive)) result accessibleOrgIds
      | Some user \<Rightarrow>
          if us_status user \<noteq> UActive
          then set_answers (\<lambda>_. Inr (denied UserInactive)) result accessibleOrgIds
          else if rq_scope auth = SystemScope \<and> us_isPlatformAdmin user then
            set_answers (\<lambda>orgId.
                if organizationsById d accessibleOrgIds amb orgId \<noteq> None
                then liveAuthority le sha256 \<lparr>sc_kind = Unrestricted, sc_orgId = orgId\<rparr> (us_id user) now
                else Inr (denied OrganizationInaccessible))
              result accessibleOrgIds
          else then_ok (batchTables le d action user accessibleOrgIds amb) (\<lambda>t.
                 set_answers (batch_answer le sha256 now action t) result accessibleOrgIds))"

definition resolveRequestReportAuthorityMap ::
  "(id \<Rightarrow> id \<Rightarrow> bool) \<Rightarrow> (string \<Rightarrow> string) \<Rightarrow> bool \<Rightarrow> database \<Rightarrow> int \<Rightarrow> request_auth \<Rightarrow> id list \<Rightarrow> string
     \<Rightarrow> (string + (id \<rightharpoonup> live_result)) dbm" where
  "resolveRequestReportAuthorityMap le sha256 readsFail d now auth orgIds action amb =
     then_ok (normalizeSiteIds le orgIds) (\<lambda>requestedOrgIds.
       let accessibleOrgIds = filter (requestAuthAdmitsOrg auth) requestedOrgIds;
           result = fold (\<lambda>orgId m. if orgId \<in> set accessibleOrgIds then m
                                    else m(orgId \<mapsto> denied OrganizationInaccessible))
                      requestedOrgIds Map.empty
       in if accessibleOrgIds = [] then Inr result
          else (case (if readsFail then Inl ''query failed''
                      else runOutsideDbContext (withSystemDbAccessContext
                             (resolveRequestReportAuthorityMapInSystemContext le sha256 d now auth
                                accessibleOrgIds action result)) amb) of
                  Inr m \<Rightarrow> Inr m
                | Inl e \<Rightarrow>
                    Inr (fold (\<lambda>orgId m. m(orgId \<mapsto> denied UnverifiableScope)) accessibleOrgIds result)))"

section \<open>Assumptions on the tables\<close>

text \<open>Organization ids are unique (the primary key), and ids of sites and partners are not empty.\<close>

definition wf_report_db :: "database \<Rightarrow> bool" where
  "wf_report_db d =
     (distinct (map og_id (organizations d))
      \<and> list_all (\<lambda>u. us_partnerId u \<noteq> []) (users d)
      \<and> list_all (\<lambda>m. case ou_siteIds m of None \<Rightarrow> True | Some ids \<Rightarrow> [] \<notin> set ids) (organization_users d))"

abbreviation sys :: "db_access_context option" where
  "sys \<equiv> Some SYSTEM_DB_ACCESS_CONTEXT"

section \<open>Lemmas\<close>

subsection \<open>The membership index\<close>

lemma map_of_filter_key: "map_of (filter (\<lambda>e. fst e \<noteq> x) es) k = (if k = x then None else map_of es k)"
  by (induction es) auto

definition sole :: "'a list \<Rightarrow> 'a option" where
  "sole xs = (case xs of [x] \<Rightarrow> Some x | _ \<Rightarrow> None)"

lemma sole_simps [simp]: "sole [] = None" "sole [x] = Some x" "sole (x # y # zs) = None"
  by (simp_all add: sole_def)

lemma sole_append: "sole (xs @ [x]) = (if xs = [] then Some x else None)"
  by (cases xs; cases "tl xs") (auto simp: sole_def split: list.splits)

lemma index_memberships_snoc:
  "index_memberships key (rows @ [m]) = index_membership key (index_memberships key rows) m"
  by (simp add: index_memberships_def)

lemma mi_seen_index: "set (mi_seen (index_memberships key rows)) = key ` set rows"
  by (induction rows rule: rev_induct)
     (auto simp: index_memberships_snoc index_membership_def, simp_all add: index_memberships_def)

lemma key_seen: "k \<in> key ` set rows \<longleftrightarrow> filter (\<lambda>x. key x = k) rows \<noteq> []"
  by (induction rows) auto

lemma mi_duplicate_index:
  "k \<in> set (mi_duplicate (index_memberships key rows)) \<longleftrightarrow> 2 \<le> length (filter (\<lambda>m. key m = k) rows)"
proof (induction rows rule: rev_induct)
  case Nil
  then show ?case by (simp add: index_memberships_def)
next
  case (snoc m rows)
  have "key m \<in> key ` set rows \<longleftrightarrow> 1 \<le> length (filter (\<lambda>x. key x = key m) rows)"
    unfolding key_seen by (simp add: Suc_le_eq)
  with snoc show ?case
    by (auto simp: index_memberships_snoc index_membership_def mi_seen_index)
qed

lemma mi_entries_index:
  "map_of (mi_entries (index_memberships key rows)) k = sole (filter (\<lambda>m. key m = k) rows)"
proof (induction rows arbitrary: k rule: rev_induct)
  case Nil
  then show ?case by (simp add: index_memberships_def)
next
  case (snoc m rows)
  have seen: "key m \<in> key ` set rows \<longleftrightarrow> filter (\<lambda>x. key x = key m) rows \<noteq> []"
    by (rule key_seen)
  show ?case
  proof (cases "key m \<in> key ` set rows")
    case True
    with snoc seen show ?thesis
      by (simp add: index_memberships_snoc index_membership_def mi_seen_index map_of_filter_key sole_append)
  next
    case False
    then have "map_of (mi_entries (index_memberships key rows)) (key m) = None"
      using seen by (simp add: snoc)
    with False snoc seen show ?thesis
      by (auto simp: index_memberships_snoc index_membership_def mi_seen_index sole_append map_add_def
          split: option.split)
  qed
qed

lemma case_take_two:
  "(case take 2 xs of [] \<Rightarrow> a | [m] \<Rightarrow> f m | _ \<Rightarrow> b)
     = (if 2 \<le> length xs then b else case sole xs of None \<Rightarrow> a | Some m \<Rightarrow> f m)"
  by (cases xs; cases "tl xs") (auto simp: numeral_2_eq_2)

subsection \<open>Grants\<close>

lemma filter_concat_keyed:
  assumes "\<And>x y. y \<in> set (F x) \<Longrightarrow> key y = k x"
  shows "filter (\<lambda>y. key y = i) (concat (map F xs)) = concat (map F (filter (\<lambda>x. k x = i) xs))"
proof (induction xs)
  case (Cons x xs)
  have "filter (\<lambda>y. key y = i) (F x) = (if k x = i then F x else [])"
    using assms by (auto simp: filter_id_conv filter_empty_conv)
  with Cons show ?case by simp
qed simp

lemma grant_rows_one:
  assumes "sel i"
  shows "filter (\<lambda>row. gr_roleId row = i) (grant_rows d sel action amb) = grant_rows d (\<lambda>j. j = i) action amb"
proof -
  have "gr_roleId row = rp_roleId rp" if "row \<in> set (grants_of d action rp amb)" for row rp
    using that by (auto simp: grants_of_def)
  note keyed = filter_concat_keyed [of "\<lambda>rp. grants_of d action rp amb" gr_roleId rp_roleId, OF this]
  have "filter (\<lambda>rp. sel (rp_roleId rp) \<and> rp_roleId rp = i) xs = filter (\<lambda>rp. rp_roleId rp = i) xs"
    for xs :: "role_permission_row list"
    using assms by (intro filter_cong) auto
  then show ?thesis by (simp add: grant_rows_def keyed)
qed

lemma batch_grants:
  assumes "sel i"
  shows "batchRoleGrantsReportAction (grant_rows d sel action amb) i action ex
           = roleGrantsReportAction d i action ex amb"
  unfolding batchRoleGrantsReportAction_def roleGrantsReportAction_def
    grant_rows_one [of sel i, OF assms, symmetric] list_ex_iff
  by auto

lemma permissionRows_ok:
  "\<exists>rows. permissionRows le d action ids amb = Inr rows
     \<and> (\<forall>i ex. i \<in> set ids \<longrightarrow> i \<noteq> [] \<longrightarrow>
          batchRoleGrantsReportAction rows i action ex = roleGrantsReportAction d i action ex amb)"
proof -
  let ?ids = "js_sort le (js_dedup (filter (\<lambda>i. i \<noteq> []) ids))"
  have "permissionRows le d action ids amb
      = Inr (if ?ids = [] then [] else grant_rows d (\<lambda>i. i \<in> set ?ids) action amb)"
    by (simp add: permissionRows_def normalizeSiteIds_def)
  moreover have "?ids \<noteq> []" if "i \<in> set ids" "i \<noteq> []" for i
    using that by (auto simp: filter_empty_conv)
  ultimately show ?thesis by (auto simp: batch_grants)
qed

subsection \<open>The two resolvers agree\<close>

lemma find_rev_keyed:
  assumes "distinct (map key xs)"
  shows "find (\<lambda>x. key x = k) (rev xs) = find (\<lambda>x. key x = k) xs"
proof -
  have "find (\<lambda>x. key x = k) ys = Some y \<longleftrightarrow> y \<in> set ys \<and> key y = k" if "distinct (map key ys)" for ys y
    using that by (induction ys) (auto dest: find_SomeD intro: rev_image_eqI)
  from this [of xs] this [of "rev xs"] assms
  have "find (\<lambda>x. key x = k) (rev xs) = Some y \<longleftrightarrow> find (\<lambda>x. key x = k) xs = Some y" for y
    by (simp add: rev_map [symmetric])
  then show ?thesis by (metis option.exhaust)
qed

lemma organizationsById_find:
  assumes "wf_report_db d" and "orgId \<in> set accessible"
  shows "organizationsById d accessible sys orgId = find (\<lambda>og. og_id og = orgId) (organizations d)"
proof -
  have "distinct (map og_id (filter (\<lambda>og. og_id og \<in> set accessible) (organizations d)))"
    using assms(1) by (simp add: wf_report_db_def distinct_map_filter)
  then show ?thesis
    unfolding organizationsById_def
    by (simp add: find_rev_keyed find_filter) (rule find_cong_set, use assms(2) in auto)
qed

lemma set_answers_ok:
  assumes "\<And>i. i \<in> set ids \<Longrightarrow> answer i = Inr (f i)"
  shows "set_answers answer r ids = Inr (\<lambda>k. if k \<in> set ids then Some (f k) else r k)"
  using assms by (induction ids arbitrary: r) (auto simp: fun_eq_iff)

lemma liveAuthority_ok:
  "valid_scope s \<Longrightarrow> \<exists>r. liveAuthority le sha256 s u now = Inr r"
  by (simp add: liveAuthority_def siteScopeFingerprint_def)

lemma org_member_authority_ok:
  assumes "orgId \<noteq> []" and "case ou_siteIds m of None \<Rightarrow> True | Some ids \<Rightarrow> [] \<notin> set ids"
  shows "\<exists>r. org_member_authority le sha256 now u orgId g m = Inr r"
  using assms
  by (auto simp: org_member_authority_def normalizeSiteIds_def valid_scope_def intro!: liveAuthority_ok
      split: option.splits)

lemma partner_member_authority_ok:
  "orgId \<noteq> [] \<Longrightarrow> \<exists>r. partner_member_authority le sha256 now u orgId g m = Inr r"
  by (auto simp: partner_member_authority_def valid_scope_def intro!: liveAuthority_ok)

definition org_members :: "database \<Rightarrow> id \<Rightarrow> id \<Rightarrow> organization_user_row list" where
  "org_members d userId orgId =
     filter (\<lambda>m. ou_userId m = userId \<and> ou_orgId m = orgId) (organization_users d)"

definition partner_members :: "database \<Rightarrow> id \<Rightarrow> id \<Rightarrow> partner_user_row list" where
  "partner_members d userId partnerId =
     filter (\<lambda>m. pu_userId m = userId \<and> pu_partnerId m = partnerId) (partner_users d)"

text \<open>What both resolvers compute for an active user without platform authority, from the tables.\<close>

definition member_answer ::
  "(id \<Rightarrow> id \<Rightarrow> bool) \<Rightarrow> (string \<Rightarrow> string) \<Rightarrow> database \<Rightarrow> int \<Rightarrow> string \<Rightarrow> user_row \<Rightarrow> id \<Rightarrow> string + live_result" where
  "member_answer le sha256 d now action user orgId =
     (case find (\<lambda>og. og_id og = orgId) (organizations d) of
        None \<Rightarrow> Inr (denied OrganizationInaccessible)
      | Some og \<Rightarrow>
          (let ms = org_members d (us_id user) orgId; ps = partner_members d (us_id user) (og_partnerId og)
           in if 2 \<le> length ms then Inr (denied UnverifiableScope)
              else (case sole ms of
                 Some m \<Rightarrow> org_member_authority le sha256 now (us_id user) orgId
                    (roleGrantsReportAction d (ou_roleId m) action (ExpectOrganization orgId) sys) m
               | None \<Rightarrow>
                   if og_partnerId og \<noteq> us_partnerId user then Inr (denied OrganizationInaccessible)
                   else if 2 \<le> length ps then Inr (denied UnverifiableScope)
                   else (case sole ps of
                      None \<Rightarrow> Inr (denied MembershipRemoved)
                    | Some m \<Rightarrow> partner_member_authority le sha256 now (us_id user) orgId
                        (roleGrantsReportAction d (pu_roleId m) action (ExpectPartner (og_partnerId og)) sys) m))))"

lemma single_member_answer:
  assumes "report_user d userId sys = Some user" and "us_status user = UActive"
    and "\<not> (allow \<and> us_isPlatformAdmin user)"
  shows "resolveExactReportAuthorityInSystemContext le sha256 d now userId orgId action allow sys
           = member_answer le sha256 d now action user orgId"
proof -
  from assms(3) have "(allow \<and> us_isPlatformAdmin user) = False" by simp
  with assms(1,2) show ?thesis
    unfolding resolveExactReportAuthorityInSystemContext_def member_answer_def Let_def
      org_members_def partner_members_def
    by (simp only: option.case if_False case_take_two current_gucs_simps select_system [OF system_ctx_scope]
        simp_thms)
qed

lemma member_answer_ok:
  assumes "wf_report_db d" and "orgId \<noteq> []"
  shows "\<exists>r. member_answer le sha256 d now action user orgId = Inr r"
proof -
  have "case ou_siteIds m of None \<Rightarrow> True | Some ids \<Rightarrow> [] \<notin> set ids"
    if "sole (filter P (organization_users d)) = Some m" for P m
  proof -
    from that have "m \<in> set (filter P (organization_users d))"
      by (cases "filter P (organization_users d)") (auto simp: sole_def split: list.splits simp del: set_filter)
    with assms(1) show ?thesis by (auto simp: wf_report_db_def list_all_iff)
  qed
  with assms(2) show ?thesis
    unfolding member_answer_def Let_def org_members_def
    by (auto intro!: org_member_authority_ok partner_member_authority_ok split: option.split)
qed

lemma sole_length: "sole xs = Some m \<Longrightarrow> \<not> 2 \<le> length xs"
  by (auto simp: sole_def split: list.splits)

lemma filter_in_one:
  assumes "k \<in> set ks"
  shows "filter (\<lambda>m. key m = k) (if ks = [] then [] else filter (\<lambda>m. P m \<and> key m \<in> set ks) xs)
           = filter (\<lambda>m. P m \<and> key m = k) xs"
  using assms by (auto intro!: filter_cong)

text \<open>The tables the batch reads, and that their grant rows answer like the single look-ups.\<close>

definition grants_agree :: "database \<Rightarrow> string \<Rightarrow> grant_row list \<Rightarrow> id list \<Rightarrow> bool" where
  "grants_agree d action rows ids =
     (\<forall>i ex. i \<in> set ids \<longrightarrow> i \<noteq> [] \<longrightarrow>
        batchRoleGrantsReportAction rows i action ex = roleGrantsReportAction d i action ex sys)"

lemma permissionRows_agree: "\<exists>rows. permissionRows le d action ids sys = Inr rows \<and> grants_agree d action rows ids"
  using permissionRows_ok [of le d action ids sys] by (simp add: grants_agree_def)

lemma batchTables_ok:
  fixes d :: database and acc :: "id list" and user :: user_row
  assumes "us_partnerId user \<noteq> []"
  defines "existing \<equiv> filter (\<lambda>i. organizationsById d acc sys i \<noteq> None) acc"
  defines "members \<equiv> index_memberships ou_orgId (organizationMembershipRows d (us_id user) existing sys)"
  obtains t fb where "batchTables le d action user acc sys = Inr t"
    and "bt_user t = user" and "bt_organizations t = organizationsById d acc sys"
    and "bt_orgMembers t = members"
    and "grants_agree d action (bt_orgGrants t) (map (\<lambda>e. ou_roleId (snd e)) (mi_entries members))"
    and "\<And>i og. i \<in> set acc \<Longrightarrow> organizationsById d acc sys i = Some og \<Longrightarrow> i \<notin> set (mi_seen members)
           \<Longrightarrow> og_partnerId og = us_partnerId user \<Longrightarrow> us_partnerId user \<in> set fb"
    and "bt_partnerMembers t = index_memberships pu_partnerId (partnerMembershipRows d (us_id user) fb sys)"
    and "grants_agree d action (bt_partnerGrants t) (map (\<lambda>e. pu_roleId (snd e)) (mi_entries (bt_partnerMembers t)))"
proof -
  let ?cands = "filter (\<lambda>p. p = us_partnerId user)
     (map (\<lambda>i. case organizationsById d acc sys i of None \<Rightarrow> [] | Some og \<Rightarrow> og_partnerId og)
       (filter (\<lambda>i. i \<notin> set (mi_seen members)) existing))"
  let ?fb = "js_sort le (js_dedup ?cands)"
  let ?pm = "index_memberships pu_partnerId (partnerMembershipRows d (us_id user) ?fb sys)"
  obtain og where og: "permissionRows le d action (map (\<lambda>e. ou_roleId (snd e)) (mi_entries members)) sys = Inr og"
    "grants_agree d action og (map (\<lambda>e. ou_roleId (snd e)) (mi_entries members))"
    using permissionRows_agree by blast
  obtain pg where pg: "permissionRows le d action (map (\<lambda>e. pu_roleId (snd e)) (mi_entries ?pm)) sys = Inr pg"
    "grants_agree d action pg (map (\<lambda>e. pu_roleId (snd e)) (mi_entries ?pm))"
    using permissionRows_agree by blast
  have fb: "normalizeSiteIds le ?cands = Inr ?fb"
    using assms(1) by (auto simp: normalizeSiteIds_def)
  let ?t = "\<lparr>bt_user = user, bt_organizations = organizationsById d acc sys, bt_orgMembers = members,
     bt_orgGrants = og, bt_partnerMembers = ?pm, bt_partnerGrants = pg\<rparr>"
  have "batchTables le d action user acc sys = Inr ?t"
    unfolding batchTables_def Let_def existing_def [symmetric] members_def [symmetric]
    by (simp only: og(1) fb pg(1) then_ok_simps)
  moreover have "us_partnerId user \<in> set ?fb"
    if "i \<in> set acc" "organizationsById d acc sys i = Some o'" "i \<notin> set (mi_seen members)"
      "og_partnerId o' = us_partnerId user" for i o'
    using that by (auto simp: existing_def image_iff intro!: bexI [of _ i])
  ultimately show ?thesis
    using that [of ?t ?fb] og(2) pg(2) by simp
qed

lemma org_member_authority_cong:
  "(ou_roleId m \<noteq> [] \<Longrightarrow> g = g') \<Longrightarrow> org_member_authority le sha256 now u orgId g m = org_member_authority le sha256 now u orgId g' m"
  by (auto simp: org_member_authority_def)

lemma partner_member_authority_cong:
  "(pu_roleId m \<noteq> [] \<Longrightarrow> g = g') \<Longrightarrow> partner_member_authority le sha256 now u orgId g m = partner_member_authority le sha256 now u orgId g' m"
  by (auto simp: partner_member_authority_def)

lemma grants_agree_entry:
  assumes "grants_agree d action rows (map (\<lambda>e. role (snd e)) es)" and "map_of es k = Some m" and "role m \<noteq> []"
  shows "batchRoleGrantsReportAction rows (role m) action ex = roleGrantsReportAction d (role m) action ex sys"
proof -
  have "role m \<in> set (map (\<lambda>e. role (snd e)) es)"
    using map_of_SomeD [OF assms(2)] by force
  with assms(1,3) show ?thesis by (simp add: grants_agree_def)
qed

lemma org_index_at:
  fixes d :: database and u :: id
  assumes "k \<in> set ks"
  defines "ix \<equiv> index_memberships ou_orgId (organizationMembershipRows d u ks sys)"
  shows "k \<in> set (mi_duplicate ix) \<longleftrightarrow> 2 \<le> length (org_members d u k)"
    and "map_of (mi_entries ix) k = sole (org_members d u k)"
    and "k \<in> set (mi_seen ix) \<longleftrightarrow> org_members d u k \<noteq> []"
proof -
  have rows: "filter (\<lambda>m. ou_orgId m = k) (organizationMembershipRows d u ks sys) = org_members d u k"
    unfolding organizationMembershipRows_def current_gucs_simps select_system [OF system_ctx_scope] org_members_def
    using assms(1) by (rule filter_in_one)
  show "k \<in> set (mi_duplicate ix) \<longleftrightarrow> 2 \<le> length (org_members d u k)"
    unfolding ix_def mi_duplicate_index rows ..
  show "map_of (mi_entries ix) k = sole (org_members d u k)"
    unfolding ix_def mi_entries_index rows ..
  show "k \<in> set (mi_seen ix) \<longleftrightarrow> org_members d u k \<noteq> []"
    unfolding ix_def mi_seen_index key_seen rows ..
qed

lemma partner_index_at:
  fixes d :: database and u :: id
  assumes "k \<in> set ks"
  defines "ix \<equiv> index_memberships pu_partnerId (partnerMembershipRows d u ks sys)"
  shows "k \<in> set (mi_duplicate ix) \<longleftrightarrow> 2 \<le> length (partner_members d u k)"
    and "map_of (mi_entries ix) k = sole (partner_members d u k)"
proof -
  have rows: "filter (\<lambda>m. pu_partnerId m = k) (partnerMembershipRows d u ks sys) = partner_members d u k"
    unfolding partnerMembershipRows_def current_gucs_simps select_system [OF system_ctx_scope] partner_members_def
    using assms(1) by (rule filter_in_one)
  show "k \<in> set (mi_duplicate ix) \<longleftrightarrow> 2 \<le> length (partner_members d u k)"
    unfolding ix_def mi_duplicate_index rows ..
  show "map_of (mi_entries ix) k = sole (partner_members d u k)"
    unfolding ix_def mi_entries_index rows ..
qed

lemma sole_None: "sole xs = None \<Longrightarrow> \<not> 2 \<le> length xs \<Longrightarrow> xs = []"
  by (cases xs; cases "tl xs") auto

lemma batch_answer_of_tables:
  assumes org: "bt_organizations t orgId = find (\<lambda>og. og_id og = orgId) (organizations d)"
    and grants: "grants_agree d action (bt_orgGrants t) (map (\<lambda>e. ou_roleId (snd e)) (mi_entries (bt_orgMembers t)))"
      "grants_agree d action (bt_partnerGrants t) (map (\<lambda>e. pu_roleId (snd e)) (mi_entries (bt_partnerMembers t)))"
    and ix: "orgId \<in> set (mi_duplicate (bt_orgMembers t)) \<longleftrightarrow> 2 \<le> length (org_members d (us_id (bt_user t)) orgId)"
      "map_of (mi_entries (bt_orgMembers t)) orgId = sole (org_members d (us_id (bt_user t)) orgId)"
    and pix: "\<And>og. org_members d (us_id (bt_user t)) orgId = []
        \<Longrightarrow> find (\<lambda>og. og_id og = orgId) (organizations d) = Some og
        \<Longrightarrow> og_partnerId og = us_partnerId (bt_user t)
        \<Longrightarrow> (og_partnerId og \<in> set (mi_duplicate (bt_partnerMembers t))
              \<longleftrightarrow> 2 \<le> length (partner_members d (us_id (bt_user t)) (og_partnerId og)))
            \<and> map_of (mi_entries (bt_partnerMembers t)) (og_partnerId og)
              = sole (partner_members d (us_id (bt_user t)) (og_partnerId og))"
    and "find (\<lambda>og. og_id og = orgId) (organizations d) = Some og"
  shows "batch_answer le sha256 now action t orgId = member_answer le sha256 d now action (bt_user t) orgId"
proof (cases "sole (org_members d (us_id (bt_user t)) orgId)")
  case (Some m)
  have "org_member_authority le sha256 now (us_id (bt_user t)) orgId
          (batchRoleGrantsReportAction (bt_orgGrants t) (ou_roleId m) action (ExpectOrganization orgId)) m
      = org_member_authority le sha256 now (us_id (bt_user t)) orgId
          (roleGrantsReportAction d (ou_roleId m) action (ExpectOrganization orgId) sys) m"
    using grants_agree_entry [OF grants(1), of orgId m] Some ix(2) by (intro org_member_authority_cong) simp
  with Some sole_length [OF Some] show ?thesis
    unfolding batch_answer_def member_answer_def org assms(7) ix Let_def option.case by simp
next
  case None
  show ?thesis
  proof (cases "2 \<le> length (org_members d (us_id (bt_user t)) orgId) \<or> og_partnerId og \<noteq> us_partnerId (bt_user t)")
    case True
    with None show ?thesis
      unfolding batch_answer_def member_answer_def org assms(7) ix Let_def option.case by auto
  next
    case False
    with pix sole_None [OF None] assms(7)
    have p: "og_partnerId og \<in> set (mi_duplicate (bt_partnerMembers t))
              \<longleftrightarrow> 2 \<le> length (partner_members d (us_id (bt_user t)) (og_partnerId og))"
      "map_of (mi_entries (bt_partnerMembers t)) (og_partnerId og)
         = sole (partner_members d (us_id (bt_user t)) (og_partnerId og))" by blast+
    have "partner_member_authority le sha256 now (us_id (bt_user t)) orgId
          (batchRoleGrantsReportAction (bt_partnerGrants t) (pu_roleId m) action (ExpectPartner (og_partnerId og))) m
      = partner_member_authority le sha256 now (us_id (bt_user t)) orgId
          (roleGrantsReportAction d (pu_roleId m) action (ExpectPartner (og_partnerId og)) sys) m"
      if "sole (partner_members d (us_id (bt_user t)) (og_partnerId og)) = Some m" for m
      using grants_agree_entry [OF grants(2), of "og_partnerId og" m] that p(2)
      by (intro partner_member_authority_cong) simp
    with None False show ?thesis
      unfolding batch_answer_def member_answer_def org assms(7) ix p Let_def option.case
      by (simp split: option.split)
  qed
qed

lemma batch_answers:
  assumes wf: "wf_report_db d" and ne: "us_partnerId user \<noteq> []"
  shows "\<exists>t. batchTables le d action user acc sys = Inr t
           \<and> (\<forall>orgId \<in> set acc. batch_answer le sha256 now action t orgId
                = member_answer le sha256 d now action user orgId)"
proof -
  define existing where "existing = filter (\<lambda>i. organizationsById d acc sys i \<noteq> None) acc"
  define members where "members = index_memberships ou_orgId (organizationMembershipRows d (us_id user) existing sys)"
  obtain t fb where t: "batchTables le d action user acc sys = Inr t"
    "bt_user t = user" "bt_organizations t = organizationsById d acc sys" "bt_orgMembers t = members"
    "grants_agree d action (bt_orgGrants t) (map (\<lambda>e. ou_roleId (snd e)) (mi_entries members))"
    "\<And>i og. i \<in> set acc \<Longrightarrow> organizationsById d acc sys i = Some og \<Longrightarrow> i \<notin> set (mi_seen members)
       \<Longrightarrow> og_partnerId og = us_partnerId user \<Longrightarrow> us_partnerId user \<in> set fb"
    "bt_partnerMembers t = index_memberships pu_partnerId (partnerMembershipRows d (us_id user) fb sys)"
    "grants_agree d action (bt_partnerGrants t) (map (\<lambda>e. pu_roleId (snd e)) (mi_entries (bt_partnerMembers t)))"
    using batchTables_ok [OF ne, where d = d and acc = acc and le = le and action = action]
    unfolding existing_def members_def by blast
  have "batch_answer le sha256 now action t orgId = member_answer le sha256 d now action user orgId"
    if acc: "orgId \<in> set acc" for orgId
  proof (cases "find (\<lambda>og. og_id og = orgId) (organizations d)")
    case None
    with t(3) organizationsById_find [OF wf acc] show ?thesis
      by (simp add: batch_answer_def member_answer_def)
  next
    case (Some og)
    note byId = organizationsById_find [OF wf acc]
    have ex: "orgId \<in> set existing" using acc byId Some by (simp add: existing_def)
    note ix = org_index_at [OF ex, of d "us_id user", folded members_def]
    have fb: "us_partnerId user \<in> set fb" if "org_members d (us_id user) orgId = []" "og_partnerId og = us_partnerId user"
      using t(6) [OF acc, of og] that ix(3) byId Some by simp
    show ?thesis
      unfolding t(2) [symmetric]
      by (rule batch_answer_of_tables [OF _ _ t(8) _ _ _ Some], unfold t(2,3,4,7) byId)
         (use t(5) ix(1,2) fb partner_index_at Some in auto)
  qed
  with t(1) show ?thesis by blast
qed

lemma single_ok:
  assumes "wf_report_db d" and "orgId \<noteq> []"
  shows "\<exists>r. resolveExactReportAuthorityInSystemContext le sha256 d now userId orgId action allow sys = Inr r"
proof (cases "report_user d userId sys")
  case None
  then show ?thesis by (simp add: resolveExactReportAuthorityInSystemContext_def)
next
  case (Some user)
  show ?thesis
  proof (cases "us_status user = UActive \<and> \<not> (allow \<and> us_isPlatformAdmin user)")
    case True
    then have "us_status user = UActive" "\<not> (allow \<and> us_isPlatformAdmin user)" by simp_all
    from single_member_answer [OF Some this] member_answer_ok [OF assms] show ?thesis by simp
  next
    case False
    have "\<exists>r. liveAuthority le sha256 \<lparr>sc_kind = Unrestricted, sc_orgId = orgId\<rparr> (us_id user) now = Inr r"
      using assms(2) by (intro liveAuthority_ok) (simp add: valid_scope_def)
    with Some False show ?thesis
      by (auto simp: resolveExactReportAuthorityInSystemContext_def split: option.split)
  qed
qed

lemma batch_in_system:
  assumes wf: "wf_report_db d" and ne: "[] \<notin> set acc"
  shows "resolveRequestReportAuthorityMapInSystemContext le sha256 d now auth acc action result sys
    = Inr (\<lambda>k. if k \<in> set acc
        then Some (projr (resolveExactReportAuthorityInSystemContext le sha256 d now (rq_userId auth) k action
                            (rq_scope auth = SystemScope) sys))
        else result k)"
proof -
  let ?one = "\<lambda>k. resolveExactReportAuthorityInSystemContext le sha256 d now (rq_userId auth) k action
                    (rq_scope auth = SystemScope) sys"
  have right: "?one k = Inr (projr (?one k))" if "k \<in> set acc" for k
    using single_ok [OF wf, of k le sha256 now "rq_userId auth" action "rq_scope auth = SystemScope"] that ne
    by (metis sum.sel(2))
  show ?thesis
  proof (cases "report_user d (rq_userId auth) sys")
    case None
    then have "projr (?one k) = denied UserInactive" for k
      by (simp add: resolveExactReportAuthorityInSystemContext_def)
    with None show ?thesis
      by (auto simp: resolveRequestReportAuthorityMapInSystemContext_def set_answers_ok fun_eq_iff)
  next
    case (Some user)
    then have pid: "us_partnerId user \<noteq> []"
      using wf find_SomeD by (fastforce simp: report_user_def wf_report_db_def list_all_iff)
    consider (inactive) "us_status user \<noteq> UActive"
      | (platform) "us_status user = UActive" "rq_scope auth = SystemScope \<and> us_isPlatformAdmin user"
      | (member) "us_status user = UActive" "\<not> (rq_scope auth = SystemScope \<and> us_isPlatformAdmin user)"
      by blast
    then show ?thesis
    proof cases
      case inactive
      with Some have "projr (?one k) = denied UserInactive" for k
        by (simp add: resolveExactReportAuthorityInSystemContext_def)
      with Some inactive show ?thesis
        by (auto simp: resolveRequestReportAuthorityMapInSystemContext_def set_answers_ok fun_eq_iff)
    next
      case platform
      have "(if organizationsById d acc sys k \<noteq> None
             then liveAuthority le sha256 \<lparr>sc_kind = Unrestricted, sc_orgId = k\<rparr> (us_id user) now
             else Inr (denied OrganizationInaccessible)) = Inr (projr (?one k))" if "k \<in> set acc" for k
        using right [OF that, symmetric] Some platform organizationsById_find [OF wf that]
        by (auto simp: resolveExactReportAuthorityInSystemContext_def split: option.splits)
      with Some platform show ?thesis
        by (auto simp: resolveRequestReportAuthorityMapInSystemContext_def set_answers_ok fun_eq_iff)
    next
      case member
      obtain t where t: "batchTables le d action user acc sys = Inr t"
        "\<forall>k \<in> set acc. batch_answer le sha256 now action t k = member_answer le sha256 d now action user k"
        using batch_answers [OF wf pid] by blast
      have "batch_answer le sha256 now action t k = Inr (projr (?one k))" if "k \<in> set acc" for k
        using t(2) that right [OF that] single_member_answer [OF Some member] by simp
      with Some member t(1) show ?thesis
        by (auto simp: resolveRequestReportAuthorityMapInSystemContext_def set_answers_ok)
    qed
  qed
qed

lemma fold_upd_outside:
  "fold (\<lambda>k m. if k \<in> A then m else m(k \<mapsto> v)) xs r = (\<lambda>k. if k \<in> set xs \<and> k \<notin> A then Some v else r k)"
  by (induction xs arbitrary: r) (auto simp: fun_eq_iff)

lemma fold_upd_all: "fold (\<lambda>k m. m(k \<mapsto> v)) xs r = (\<lambda>k. if k \<in> set xs then Some v else r k)"
  by (induction xs arbitrary: r) (auto simp: fun_eq_iff)

lemma single_request:
  assumes "wf_report_db d" and "orgId \<noteq> []"
  shows "resolveRequestReportAuthority le sha256 readsFail d now auth orgId action amb
    = (if \<not> requestAuthAdmitsOrg auth orgId then denied OrganizationInaccessible
       else if readsFail then denied UnverifiableScope
       else projr (resolveExactReportAuthorityInSystemContext le sha256 d now (rq_userId auth) orgId action
                     (rq_scope auth = SystemScope) sys))"
  using single_ok [OF assms, of le sha256 now "rq_userId auth" action "rq_scope auth = SystemScope"]
  by (auto simp: resolveRequestReportAuthority_def resolveExactReportAuthority_def)

subsection \<open>Agreement with the permission resolver\<close>

lemma sole_find: "sole (filter P xs) = Some m \<Longrightarrow> find P xs = Some m"
  by (induction xs) (auto simp: sole_def split: list.splits if_splits)

lemma filter_Nil_find: "filter P xs = [] \<Longrightarrow> find P xs = None"
  by (simp add: find_None_iff filter_empty_conv)

lemma granted_has_permission:
  assumes "roleGrantsReportAction d roleId action ex sys"
  shows "list_ex (\<lambda>p. permissionGrantMatches p ''reports'' action) (role_grants d roleId)"
proof -
  from assms obtain row where row: "row \<in> set (grant_rows d (\<lambda>j. j = roleId) action sys)"
    "permissionGrantMatches (gr_permission row) ''reports'' action"
    by (auto simp: roleGrantsReportAction_def list_ex_iff)
  from row(1) obtain rp where rp: "rp \<in> set (select_role_permissions (current_gucs sys) d)" "rp_roleId rp = roleId"
    "row \<in> set (grants_of d action rp sys)"
    by (auto simp: grant_rows_def)
  from rp(3) obtain p where p: "p \<in> set (permissions_table d)" "pe_id p = rp_permissionId rp"
    "gr_permission row = \<lparr>perm_resource = pe_resource p, perm_action = pe_action p\<rparr>"
    unfolding grants_of_def set_concat set_map set_filter by (elim UN_E imageE CollectE conjE) (auto; fail | simp)+
  from rp(1) have "rp \<in> set (role_permissions d)" by (simp add: select_role_permissions_def)
  with rp(2) p have "gr_permission row \<in> set (role_grants d roleId)" by (force simp: role_grants_def)
  with row(2) show ?thesis by (auto simp: list_ex_iff)
qed

lemma liveAuthority_scope: "liveAuthority le sha256 s u now = Inr (Inr a) \<Longrightarrow> ra_scope a = s"
  by (auto simp: liveAuthority_def then_ok_Inr)

lemma denied_not_Inr [simp]: "denied r \<noteq> Inr a"
  by (simp add: denied_def)

text \<open>The permissions of the context a request on the organization has.\<close>

definition report_context :: "org_row \<Rightarrow> perm_context" where
  "report_context og = \<lparr>pc_partnerId = Some (og_partnerId og), pc_orgId = Some (og_id og)\<rparr>"

definition authority_in_permissions ::
  "(id \<Rightarrow> id \<Rightarrow> bool) \<Rightarrow> string \<Rightarrow> id \<Rightarrow> report_authority \<Rightarrow> user_permissions \<Rightarrow> bool" where
  "authority_in_permissions le action orgId a p =
     (hasPermission p ''reports'' action \<and> canAccessOrg p orgId
      \<and> siteScopeFromPermissions le orgId p = Inr (ra_scope a))"

lemma org_member_in_permissions:
  assumes "sole (org_members d userId orgId) = Some m" and "og_id og = orgId" and "orgId \<noteq> []"
    and "org_member_authority le sha256 now userId orgId
           (roleGrantsReportAction d (ou_roleId m) action ex sys) m = Inr (Inr a)"
  shows "\<exists>p. resolveSpec d userId (report_context og) = Some p \<and> authority_in_permissions le action orgId a p"
proof -
  from assms(4) have role: "ou_roleId m \<noteq> []" "roleGrantsReportAction d (ou_roleId m) action ex sys"
    by (auto simp: org_member_authority_def split: if_splits)
  have "org_membership d userId orgId = Some m"
    using assms(1) by (simp add: org_members_def org_membership_def sole_find)
  with role assms(2,3) have spec: "resolveSpec d userId (report_context og)
      = Some (mk_user_perms d (report_context og) (ou_roleId m) OrgScope None None (ou_siteIds m))"
    by (simp add: resolveSpec_def org_spec_def report_context_def str_or_none_def)
  have "siteScopeFromPermissions le orgId
      (mk_user_perms d (report_context og) (ou_roleId m) OrgScope None None (ou_siteIds m)) = Inr (ra_scope a)"
    using assms(3,4) role
    by (auto simp: siteScopeFromPermissions_def mk_user_perms_def org_member_authority_def then_ok_Inr
        dest!: liveAuthority_scope split: option.splits if_splits)
  with spec granted_has_permission [OF role(2)] assms(2,3) show ?thesis
    by (simp add: authority_in_permissions_def hasPermission_def canAccessOrg_def mk_user_perms_def
        report_context_def str_or_none_def)
qed

lemma partner_member_in_permissions:
  assumes "org_members d userId orgId = []" and "sole (partner_members d userId (og_partnerId og)) = Some m"
    and "og_id og = orgId" and "orgId \<noteq> []" and "og_partnerId og \<noteq> []"
    and "partner_member_authority le sha256 now userId orgId
           (roleGrantsReportAction d (pu_roleId m) action ex sys) m = Inr (Inr a)"
  shows "\<exists>p. resolveSpec d userId (report_context og) = Some p \<and> authority_in_permissions le action orgId a p"
proof -
  from assms(6) have role: "pu_roleId m \<noteq> []" "roleGrantsReportAction d (pu_roleId m) action ex sys"
    and admits: "partnerMembershipAdmitsOrg m orgId"
    and scope: "ra_scope a = \<lparr>sc_kind = Unrestricted, sc_orgId = orgId\<rparr>"
    by (auto simp: partner_member_authority_def dest: liveAuthority_scope split: if_splits)
  have "org_membership d userId orgId = None" "partner_membership d userId (og_partnerId og) = Some m"
    using assms(1,2)
    by (simp_all add: org_members_def org_membership_def filter_Nil_find partner_members_def
        partner_membership_def sole_find)
  with role assms(3-5) have spec: "resolveSpec d userId (report_context og)
      = Some (mk_user_perms d (report_context og) (pu_roleId m) PartnerScope (Some (pu_orgAccess m)) (pu_orgIds m) None)"
    by (simp add: resolveSpec_def org_spec_def partner_spec_def report_context_def str_or_none_def)
  with granted_has_permission [OF role(2)] admits scope assms(4) show ?thesis
    by (auto simp: authority_in_permissions_def hasPermission_def canAccessOrg_def mk_user_perms_def
        siteScopeFromPermissions_def partnerMembershipAdmitsOrg_def split: org_access.splits option.splits)
qed

lemma member_answer_in_permissions:
  assumes "member_answer le sha256 d now action user orgId = Inr (Inr a)" and "orgId \<noteq> []"
    and "us_partnerId user \<noteq> []"
  shows "\<exists>og p. find (\<lambda>og. og_id og = orgId) (organizations d) = Some og
           \<and> resolveSpec d (us_id user) (report_context og) = Some p \<and> authority_in_permissions le action orgId a p"
proof -
  from assms(1) obtain og where og: "find (\<lambda>og. og_id og = orgId) (organizations d) = Some og"
    by (auto simp: member_answer_def split: option.splits)
  then have id: "og_id og = orgId" using find_SomeD by fast
  have "\<exists>p. resolveSpec d (us_id user) (report_context og) = Some p \<and> authority_in_permissions le action orgId a p"
  proof (cases "sole (org_members d (us_id user) orgId)")
    case (Some m)
    with assms(1) og sole_length [OF Some] show ?thesis
      by (intro org_member_in_permissions [OF Some id assms(2)])
         (auto simp: member_answer_def Let_def)
  next
    case None
    with assms(1) og have no_dup: "\<not> 2 \<le> length (org_members d (us_id user) orgId)"
      and partner: "og_partnerId og = us_partnerId user"
      by (auto simp: member_answer_def Let_def split: if_splits)
    with assms(1) og None obtain m where m: "sole (partner_members d (us_id user) (og_partnerId og)) = Some m"
      "partner_member_authority le sha256 now (us_id user) orgId
         (roleGrantsReportAction d (pu_roleId m) action (ExpectPartner (og_partnerId og)) sys) m = Inr (Inr a)"
      by (auto simp: member_answer_def Let_def split: if_splits option.splits)
    from partner_member_in_permissions [OF sole_None [OF None no_dup] m(1) id assms(2) _ m(2)] partner assms(3)
    show ?thesis by simp
  qed
  with og show ?thesis by blast
qed

section \<open>Properties\<close>

definition sample_report_db :: database where
  "sample_report_db = sample_db
     \<lparr>permissions_table := [\<lparr>pe_id = ''p1'', pe_resource = ''reports'', pe_action = ''read''\<rparr>]\<rparr>"

definition sample_auth_req :: request_auth where
  "sample_auth_req =
     \<lparr>rq_userId = sample_id CHR ''1'', rq_scope = OrgScope, rq_orgId = Some (sample_id CHR ''b''),
      rq_accessibleOrgIds = None, rq_canAccessOrg = (\<lambda>i. i = sample_id CHR ''b'')\<rparr>"

lemma sample_report_facts:
  "wf_report_db sample_report_db" "wf_memberships sample_report_db"
  "[] \<notin> set [sample_id CHR ''b'', sample_id CHR ''9'']" "sample_id CHR ''b'' \<noteq> []"
  by code_simp+

text \<open>C35: The batch resolver of report authority gives, for every organization asked about, what
  the single resolver gives: the same denial or the same authority, for members of the organization,
  partner staff, platform administrators, users with duplicated memberships, inactive users and
  failing reads alike. It answers exactly for the organizations asked about.\<close>

theorem batch_authority_equals_single:
  assumes "wf_report_db d" and "[] \<notin> set orgIds"
  shows "\<exists>m. resolveRequestReportAuthorityMap le sha256 readsFail d now auth orgIds action amb = Inr m
    \<and> (\<forall>orgId. m orgId = (if orgId \<in> set orgIds
         then Some (resolveRequestReportAuthority le sha256 readsFail d now auth orgId action amb) else None))"
proof -
  let ?req = "js_sort le (js_dedup orgIds)"
  let ?acc = "filter (requestAuthAdmitsOrg auth) ?req"
  let ?res = "fold (\<lambda>orgId m. if orgId \<in> set ?acc then m else m(orgId \<mapsto> denied OrganizationInaccessible)) ?req Map.empty"
  let ?one = "\<lambda>k. resolveExactReportAuthorityInSystemContext le sha256 d now (rq_userId auth) k action
                    (rq_scope auth = SystemScope) sys"
  have ids: "normalizeSiteIds le orgIds = Inr ?req" using assms(2) by (simp add: normalizeSiteIds_def)
  have "[] \<notin> set ?acc" using assms(2) by simp
  note batch = batch_in_system [OF assms(1) this, of le sha256 now auth action ?res]
  have single: "resolveRequestReportAuthority le sha256 readsFail d now auth k action amb
      = (if \<not> requestAuthAdmitsOrg auth k then denied OrganizationInaccessible
         else if readsFail then denied UnverifiableScope else projr (?one k))" if "k \<in> set orgIds" for k
    using that assms(2) by (intro single_request [OF assms(1)]) auto
  show ?thesis
  proof (cases "?acc = []")
    case True
    with ids single show ?thesis
      unfolding resolveRequestReportAuthorityMap_def Let_def fold_upd_outside by (auto simp: filter_empty_conv)
  next
    case False
    with ids batch single show ?thesis
      unfolding resolveRequestReportAuthorityMap_def Let_def fold_upd_outside fold_upd_all
      by (cases readsFail) auto
  qed
qed

theorem batch_authority_equals_single_witness:
  "\<exists>m. resolveRequestReportAuthorityMap str_le (\<lambda>_. replicate 64 CHR ''0'') False sample_report_db 0 sample_auth_req
        [sample_id CHR ''b'', sample_id CHR ''9''] ''read'' None = Inr m
    \<and> (\<forall>orgId. m orgId = (if orgId \<in> set [sample_id CHR ''b'', sample_id CHR ''9'']
         then Some (resolveRequestReportAuthority str_le (\<lambda>_. replicate 64 CHR ''0'') False sample_report_db 0
                      sample_auth_req orgId ''read'' None) else None))"
  using sample_report_facts(1,3) by (rule batch_authority_equals_single)

text \<open>Live report authority never exceeds the user's permissions. When a user who is not given
  platform authority obtains authority for an action on an organization's reports, the permission
  resolver, in whatever database context the request runs, gives the user a role that holds the
  report permission and reaches the organization, and the site scope of the authority is exactly the
  site restriction of those permissions.\<close>

theorem report_authority_within_permissions:
  assumes "wf_report_db d" and "wf_memberships d" and "wf_ambient amb'" and "orgId \<noteq> []"
    and "resolveExactReportAuthority le sha256 readsFail d now userId orgId action False amb = Inr a"
  shows "\<exists>og p. find (\<lambda>og. og_id og = orgId) (organizations d) = Some og
    \<and> resolveUserPermissions d userId (report_context og) amb' = Some p
    \<and> hasPermission p ''reports'' action \<and> canAccessOrg p orgId
    \<and> siteScopeFromPermissions le orgId p = Inr (ra_scope a)"
proof -
  let ?one = "resolveExactReportAuthorityInSystemContext le sha256 d now userId orgId action False sys"
  from assms(5) have one: "?one = Inr (Inr a)"
    by (auto simp: resolveExactReportAuthority_def split: if_splits sum.splits)
  then obtain user where user: "report_user d userId sys = Some user" "us_status user = UActive"
    by (auto simp: resolveExactReportAuthorityInSystemContext_def split: option.splits if_splits)
  from user(1) have id: "us_id user = userId" and pid: "us_partnerId user \<noteq> []"
    using assms(1) find_SomeD by (fastforce simp: report_user_def wf_report_db_def list_all_iff)+
  have "member_answer le sha256 d now action user orgId = Inr (Inr a)"
    using single_member_answer [OF user, of False] one by simp
  from member_answer_in_permissions [OF this assms(4) pid] id show ?thesis
    unfolding resolve_refines_spec [OF assms(2,3)] authority_in_permissions_def by blast
qed

theorem report_authority_within_permissions_witness:
  "\<exists>a og p. resolveExactReportAuthority str_le (\<lambda>_. replicate 64 CHR ''0'') False sample_report_db 0
               (sample_id CHR ''1'') (sample_id CHR ''b'') ''read'' False None = Inr a
     \<and> resolveUserPermissions sample_report_db (sample_id CHR ''1'') (report_context og) (Some sample_org_ctx) = Some p
     \<and> hasPermission p ''reports'' ''read''
     \<and> siteScopeFromPermissions str_le (sample_id CHR ''b'') p = Inr (ra_scope a)"
proof -
  let ?r = "resolveExactReportAuthority str_le (\<lambda>_. replicate 64 CHR ''0'') False sample_report_db 0
               (sample_id CHR ''1'') (sample_id CHR ''b'') ''read'' False None"
  have "case ?r of Inr a \<Rightarrow> True | Inl _ \<Rightarrow> False" by code_simp
  then obtain a where a: "?r = Inr a" by (auto split: sum.splits)
  from report_authority_within_permissions [OF sample_report_facts(1,2) sample_facts(2) sample_report_facts(4) a] a
  show ?thesis by blast
qed

end
