(* ===== verification/Remote_Ownership.thy ===== *)
theory Remote_Ownership
  imports Js_Prelude
begin

text \<open>
  apps/api/src/services/remoteWsOwnership.ts: the registry of remote-session connections of one API
  process. A session has at most one connection; its lease object goes from opening to active to
  closing, and frames are forwarded only for the exact connection and socket while the lease's
  deadline has not passed.

  The registry maps session ids to lease objects, which the code mutates in place and compares by
  identity, so objects have addresses. Asynchronous operations are split where they wait: \<open>during\<close> is
  what the rest of the process does to the registry in the meantime. Times are values of the
  process's monotonic clock; a deadline of a claim that is not a finite number is \<open>None\<close>.
\<close>

section \<open>Leases\<close>

datatype lease_state = Opening | Active | Closing

record connection_identity =
  ci_connectionId :: id
  ci_generation :: int
  ci_instanceId :: id
  ci_leaseToken :: id

type_synonym ws_context = nat

record lease =
  ln_identity :: connection_identity
  ln_state :: lease_state
  ln_userWs :: "ws_context option"
  ln_deadline :: int

record shared_claim =
  cl_identity :: connection_identity
  cl_sessionId :: id
  cl_ownerValue :: string
  cl_deadline :: "int option"

record registry =
  rg_sessions :: "id \<rightharpoonup> nat"
  rg_heap :: "nat \<rightharpoonup> lease"
  rg_next :: nat

definition hasExactIdentity :: "connection_identity \<Rightarrow> connection_identity \<Rightarrow> bool" where
  "hasExactIdentity value expected =
     (ci_connectionId value = ci_connectionId expected
      \<and> ci_generation value = ci_generation expected
      \<and> ci_instanceId value = ci_instanceId expected
      \<and> ci_leaseToken value = ci_leaseToken expected)"

text \<open>\<open>sessions.get(sessionId)\<close>: the address and the object.\<close>

definition current_lease :: "registry \<Rightarrow> id \<Rightarrow> (nat \<times> lease) option" where
  "current_lease reg sessionId =
     (case rg_sessions reg sessionId of
        None \<Rightarrow> None
      | Some a \<Rightarrow> (case rg_heap reg a of None \<Rightarrow> None | Some l \<Rightarrow> Some (a, l)))"

definition set_lease :: "registry \<Rightarrow> nat \<Rightarrow> lease \<Rightarrow> registry" where
  "set_lease reg a l = reg\<lparr>rg_heap := (rg_heap reg)(a \<mapsto> l)\<rparr>"

section \<open>Operations\<close>

datatype install_result = Installed | AlreadyOwned

definition installLocalRemoteConnection ::
  "registry \<Rightarrow> id \<Rightarrow> shared_claim \<Rightarrow> (shared_claim \<Rightarrow> lease) \<Rightarrow> install_result \<times> registry" where
  "installLocalRemoteConnection reg sessionId shared build =
     (if cl_sessionId shared \<noteq> sessionId \<or> rg_sessions reg sessionId \<noteq> None then (AlreadyOwned, reg)
      else (Installed,
            reg\<lparr>rg_sessions := (rg_sessions reg)(sessionId \<mapsto> rg_next reg),
                rg_heap := (rg_heap reg)(rg_next reg \<mapsto> build shared),
                rg_next := Suc (rg_next reg)\<rparr>))"

definition bindRemoteConnection ::
  "registry \<Rightarrow> id \<Rightarrow> connection_identity \<Rightarrow> ws_context \<Rightarrow> bool \<times> registry" where
  "bindRemoteConnection reg sessionId identity ws =
     (case current_lease reg sessionId of
        None \<Rightarrow> (False, reg)
      | Some (a, current) \<Rightarrow>
          if \<not> hasExactIdentity (ln_identity current) identity \<or> ln_state current \<noteq> Opening
             \<or> ln_userWs current \<noteq> None
          then (False, reg)
          else (True, set_lease reg a (current\<lparr>ln_userWs := Some ws, ln_state := Active\<rparr>)))"

definition ownsSafeRemoteConnection ::
  "registry \<Rightarrow> id \<Rightarrow> connection_identity \<Rightarrow> ws_context \<Rightarrow> int \<Rightarrow> bool" where
  "ownsSafeRemoteConnection reg sessionId identity ws monotonicNowMs =
     (case current_lease reg sessionId of
        None \<Rightarrow> False
      | Some (a, current) \<Rightarrow>
          ln_state current = Active \<and> ln_userWs current = Some ws
          \<and> hasExactIdentity (ln_identity current) identity
          \<and> monotonicNowMs < ln_deadline current)"

definition updateExactRemoteConnectionDeadline ::
  "registry \<Rightarrow> id \<Rightarrow> connection_identity \<Rightarrow> int \<Rightarrow> bool \<times> registry" where
  "updateExactRemoteConnectionDeadline reg sessionId identity deadline =
     (case current_lease reg sessionId of
        None \<Rightarrow> (False, reg)
      | Some (a, current) \<Rightarrow>
          if \<not> hasExactIdentity (ln_identity current) identity \<or> ln_state current = Closing
          then (False, reg)
          else (True, set_lease reg a (current\<lparr>ln_deadline := deadline\<rparr>)))"

definition expireExactRemoteConnectionForwarding ::
  "registry \<Rightarrow> id \<Rightarrow> connection_identity \<Rightarrow> bool \<times> registry" where
  "expireExactRemoteConnectionForwarding reg sessionId identity =
     (case current_lease reg sessionId of
        None \<Rightarrow> (False, reg)
      | Some (a, current) \<Rightarrow>
          if \<not> hasExactIdentity (ln_identity current) identity then (False, reg)
          else (True, set_lease reg a (current\<lparr>ln_deadline := 0\<rparr>)))"

text \<open>A renewal up to its await: the object it works on and the state it expects to find again.\<close>

definition renew_begin ::
  "registry \<Rightarrow> id \<Rightarrow> connection_identity \<Rightarrow> ws_context option \<Rightarrow> (nat \<times> lease_state) option \<times> registry" where
  "renew_begin reg sessionId identity expectedWs =
     (case current_lease reg sessionId of
        None \<Rightarrow> (None, reg)
      | Some (a, current) \<Rightarrow>
          if \<not> hasExactIdentity (ln_identity current) identity \<or> ln_state current = Closing
             \<or> ln_userWs current \<noteq> expectedWs
          then (None, reg)
          else (Some (a, ln_state current), set_lease reg a (current\<lparr>ln_deadline := 0\<rparr>)))"

text \<open>The rest of it, with the renewed claim.\<close>

definition renew_finish ::
  "registry \<Rightarrow> id \<Rightarrow> connection_identity \<Rightarrow> ws_context option \<Rightarrow> nat \<times> lease_state \<Rightarrow> shared_claim \<Rightarrow> bool \<times> registry" where
  "renew_finish reg sessionId identity expectedWs started renewed =
     (case current_lease reg sessionId of
        None \<Rightarrow> (False, reg)
      | Some (a, afterRenewal) \<Rightarrow>
          if a \<noteq> fst started \<or> \<not> hasExactIdentity (ln_identity afterRenewal) identity
             \<or> ln_state afterRenewal \<noteq> snd started \<or> ln_userWs afterRenewal \<noteq> expectedWs
             \<or> cl_sessionId renewed \<noteq> sessionId \<or> \<not> hasExactIdentity (cl_identity renewed) identity
          then (False, reg)
          else (case cl_deadline renewed of
                  None \<Rightarrow> (False, reg)
                | Some t \<Rightarrow> (True, set_lease reg a (afterRenewal\<lparr>ln_deadline := t\<rparr>))))"

text \<open>\<open>reply\<close> is \<open>None\<close> when the shared renewal throws.\<close>

definition renewExactRemoteConnectionLease ::
  "registry \<Rightarrow> id \<Rightarrow> connection_identity \<Rightarrow> ws_context option \<Rightarrow> (registry \<Rightarrow> registry) \<Rightarrow> shared_claim option
     \<Rightarrow> bool \<times> registry" where
  "renewExactRemoteConnectionLease reg sessionId identity expectedWs during reply =
     (case renew_begin reg sessionId identity expectedWs of
        (None, reg') \<Rightarrow> (False, reg')
      | (Some started, reg') \<Rightarrow>
          (case reply of
             None \<Rightarrow> (False, during reg')
           | Some renewed \<Rightarrow> renew_finish (during reg') sessionId identity expectedWs started renewed))"

definition removeExactLocalRemoteConnection ::
  "registry \<Rightarrow> id \<Rightarrow> connection_identity \<Rightarrow> bool \<times> registry" where
  "removeExactLocalRemoteConnection reg sessionId identity =
     (case current_lease reg sessionId of
        None \<Rightarrow> (False, reg)
      | Some (a, current) \<Rightarrow>
          if \<not> hasExactIdentity (ln_identity current) identity then (False, reg)
          else (True, reg\<lparr>rg_sessions := (rg_sessions reg)(sessionId := None)\<rparr>))"

definition expire_begin :: "registry \<Rightarrow> id \<Rightarrow> connection_identity \<Rightarrow> nat option \<times> registry" where
  "expire_begin reg sessionId identity =
     (case current_lease reg sessionId of
        None \<Rightarrow> (None, reg)
      | Some (a, current) \<Rightarrow>
          if \<not> hasExactIdentity (ln_identity current) identity \<or> ln_state current \<noteq> Opening
             \<or> ln_userWs current \<noteq> None
          then (None, reg)
          else (Some a, set_lease reg a (current\<lparr>ln_state := Closing, ln_deadline := 0\<rparr>)))"

definition expire_finish :: "registry \<Rightarrow> id \<Rightarrow> connection_identity \<Rightarrow> nat \<Rightarrow> bool \<times> registry" where
  "expire_finish reg sessionId identity started =
     (case current_lease reg sessionId of
        None \<Rightarrow> (False, reg)
      | Some (a, afterRelease) \<Rightarrow>
          if a \<noteq> started \<or> \<not> hasExactIdentity (ln_identity afterRelease) identity
             \<or> ln_state afterRelease \<noteq> Closing \<or> ln_userWs afterRelease \<noteq> None
          then (False, reg)
          else (True, reg\<lparr>rg_sessions := (rg_sessions reg)(sessionId := None)\<rparr>))"

definition expireOpeningRemoteConnection ::
  "registry \<Rightarrow> id \<Rightarrow> connection_identity \<Rightarrow> (registry \<Rightarrow> registry) \<Rightarrow> bool \<Rightarrow> bool \<times> registry" where
  "expireOpeningRemoteConnection reg sessionId identity during released =
     (case expire_begin reg sessionId identity of
        (None, reg') \<Rightarrow> (False, reg')
      | (Some started, reg') \<Rightarrow>
          if \<not> released then (False, during reg')
          else expire_finish (during reg') sessionId identity started)"

section \<open>Lemmas\<close>

lemma hasExactIdentity_eq [simp]: "hasExactIdentity a b \<longleftrightarrow> a = b"
  by (auto simp: hasExactIdentity_def intro: connection_identity.equality)

lemma current_lease_Some:
  "current_lease reg s = Some (a, l) \<longleftrightarrow> rg_sessions reg s = Some a \<and> rg_heap reg a = Some l"
  by (auto simp: current_lease_def split: option.splits)

lemma set_lease_sel [simp]:
  "rg_sessions (set_lease reg a l) = rg_sessions reg" "rg_next (set_lease reg a l) = rg_next reg"
  "rg_heap (set_lease reg a l) = (rg_heap reg)(a \<mapsto> l)"
  by (simp_all add: set_lease_def)

text \<open>
  Objects below \<open>rg_next\<close> exist, sessions point to existing objects, and no two sessions share one.
\<close>

definition wf_registry :: "registry \<Rightarrow> bool" where
  "wf_registry reg =
     ((\<forall>s a. rg_sessions reg s = Some a \<longrightarrow> rg_heap reg a \<noteq> None \<and> a < rg_next reg)
      \<and> (\<forall>s s' a. rg_sessions reg s = Some a \<longrightarrow> rg_sessions reg s' = Some a \<longrightarrow> s = s')
      \<and> (\<forall>a. rg_heap reg a \<noteq> None \<longrightarrow> a < rg_next reg))"

section \<open>Properties\<close>

text \<open>A lease renewal stops forwarding before it waits for the shared renewal, whatever happens to
  the registry in the meantime; it then moves the deadline of the very lease object it started with,
  and only if that object is still the session's current one with the same identity, state and socket
  and the reply is for it and has a finite deadline. In every other case the registry stays as it found it.\<close>

theorem renewal_exact:
  assumes "current_lease reg sid = Some (a, l)" and "ln_identity l = idt" and "ln_state l \<noteq> Closing"
    and "ln_userWs l = ows" and waiting: "waiting = set_lease reg a (l\<lparr>ln_deadline := 0\<rparr>)"
  shows "(\<forall>idt' ws now. 0 \<le> now \<longrightarrow> \<not> ownsSafeRemoteConnection waiting sid idt' ws now)
    \<and> renewExactRemoteConnectionLease reg sid idt ows during reply
        = (case (current_lease (during waiting) sid, reply) of
             (Some (b, m), Some c) \<Rightarrow>
               if b = a \<and> ln_identity m = idt \<and> ln_state m = ln_state l \<and> ln_userWs m = ows
                  \<and> cl_sessionId c = sid \<and> cl_identity c = idt \<and> cl_deadline c \<noteq> None
               then (True, set_lease (during waiting) a (m\<lparr>ln_deadline := the (cl_deadline c)\<rparr>))
               else (False, during waiting)
           | _ \<Rightarrow> (False, during waiting))"
proof -
  have started: "renew_begin reg sid idt ows = (Some (a, ln_state l), waiting)"
    using assms by (simp add: renew_begin_def)
  have "\<not> ownsSafeRemoteConnection waiting sid idt' ws now" if "0 \<le> now" for idt' ws now
    using assms(1) that by (auto simp: waiting ownsSafeRemoteConnection_def current_lease_def split: option.splits)
  then show ?thesis
    by (auto simp: renewExactRemoteConnectionLease_def started renew_finish_def split: option.splits if_splits)
qed

text \<open>An active lease on socket 7 whose connection is closed while the renewal waits: the reply is dropped.\<close>

definition demo_identity :: connection_identity where
  "demo_identity = \<lparr>ci_connectionId = ''c'', ci_generation = 1, ci_instanceId = ''p'', ci_leaseToken = ''t''\<rparr>"

definition demo_lease :: lease where
  "demo_lease = \<lparr>ln_identity = demo_identity, ln_state = Active, ln_userWs = Some 7, ln_deadline = 500\<rparr>"

definition demo_registry :: registry where
  "demo_registry = \<lparr>rg_sessions = [''s'' \<mapsto> 0], rg_heap = [0 \<mapsto> demo_lease], rg_next = 1\<rparr>"

definition demo_close :: "registry \<Rightarrow> registry" where
  "demo_close reg = set_lease reg 0 (demo_lease\<lparr>ln_state := Closing, ln_deadline := 0\<rparr>)"

theorem renewal_exact_witness:
  "fst (renewExactRemoteConnectionLease demo_registry ''s'' demo_identity (Some 7) demo_close
          (Some \<lparr>cl_identity = demo_identity, cl_sessionId = ''s'', cl_ownerValue = [], cl_deadline = Some 900\<rparr>)) = False
   \<and> fst (renewExactRemoteConnectionLease demo_registry ''s'' demo_identity (Some 7) id
          (Some \<lparr>cl_identity = demo_identity, cl_sessionId = ''s'', cl_ownerValue = [], cl_deadline = Some 900\<rparr>)) = True"
proof -
  have "current_lease demo_registry ''s'' = Some (0, demo_lease)" "ln_identity demo_lease = demo_identity"
      "ln_state demo_lease \<noteq> Closing" "ln_userWs demo_lease = Some 7"
    by (simp_all add: current_lease_def demo_registry_def demo_lease_def)
  from renewal_exact [OF this refl, of demo_close] renewal_exact [OF this refl, of id] show ?thesis
    by (simp add: current_lease_def demo_registry_def demo_lease_def demo_close_def)
qed

end
