(* ===== verification/Js_Text.thy ===== *)
theory Js_Text
  imports Js_Prelude
begin

text \<open>
  Numbers as text: decimal and hexadecimal digits as the templates, the \<open>toString\<close> calls and the
  anchored digit patterns of the sources use them, and \<open>split\<close> by a string.
\<close>

section \<open>Decimal\<close>

fun dec_string :: "nat \<Rightarrow> string" where
  "dec_string n =
     (if n < 10 then [char_of (48 + n)] else dec_string (n div 10) @ [char_of (48 + n mod 10)])"

definition number_text :: "int \<Rightarrow> string" where
  "number_text n = (if n < 0 then CHR ''-'' # dec_string (nat (- n)) else dec_string (nat n))"

definition is_dec_digit :: "char \<Rightarrow> bool" where
  "is_dec_digit c = (48 \<le> (of_char c :: nat) \<and> (of_char c :: nat) \<le> 57)"

definition parse_dec :: "string \<Rightarrow> nat option" where
  "parse_dec s =
     (if s \<noteq> [] \<and> list_all is_dec_digit s
      then Some (foldl (\<lambda>n c. 10 * n + (of_char c - 48)) 0 s) else None)"

section \<open>Hexadecimal\<close>

definition hex_char :: "nat \<Rightarrow> char" where
  "hex_char n = (if n < 10 then char_of (48 + n) else char_of (87 + n))"

fun hex_string :: "nat \<Rightarrow> string" where
  "hex_string n = (if n < 16 then [hex_char n] else hex_string (n div 16) @ [hex_char (n mod 16)])"

definition hex_digit :: "char \<Rightarrow> nat option" where
  "hex_digit c =
     (let n = of_char c in
      if 48 \<le> n \<and> n \<le> 57 then Some (n - 48)
      else if 97 \<le> n \<and> n \<le> 102 then Some (n - 87)
      else if 65 \<le> n \<and> n \<le> 70 then Some (n - 55) else None)"

text \<open>\<open>parseInt(s, 16)\<close> of a text of hexadecimal digits.\<close>

fun hex_value_from :: "nat \<Rightarrow> string \<Rightarrow> nat option" where
  "hex_value_from acc [] = Some acc"
| "hex_value_from acc (c # cs) =
     (case hex_digit c of None \<Rightarrow> None | Some d \<Rightarrow> hex_value_from (16 * acc + d) cs)"

section \<open>Splitting\<close>

text \<open>\<open>s.split(pat)\<close> for a separator that is not empty.\<close>

function split_str :: "string \<Rightarrow> string \<Rightarrow> string list" where
  "split_str pat [] = [[]]"
| "split_str pat (c # cs) =
     (if pat \<noteq> [] \<and> startsWith (c # cs) pat then [] # split_str pat (drop (length pat) (c # cs))
      else (case split_str pat cs of [] \<Rightarrow> [[c]] | y # ys \<Rightarrow> (c # y) # ys))"
  by pat_completeness auto

termination
  by (relation "measure (\<lambda>(pat, s). length s)") auto

section \<open>Lemmas\<close>

declare dec_string.simps [simp del]

lemma dec_digit: "n < 10 \<Longrightarrow> of_char (char_of (48 + n) :: char) = (48 + n :: nat)"
  by simp

lemma is_dec_digit_char_of: "n < 10 \<Longrightarrow> is_dec_digit (char_of (48 + n :: nat))"
  by (simp add: is_dec_digit_def)

lemma list_all_dec_string: "list_all is_dec_digit (dec_string n)"
proof (induction n rule: dec_string.induct)
  case (1 n)
  then show ?case by (subst dec_string.simps) (simp add: is_dec_digit_char_of)
qed

lemma dec_string_ne [simp]: "dec_string n \<noteq> []"
  by (subst dec_string.simps) simp

lemma foldl_dec_string: "foldl (\<lambda>n c. 10 * n + (of_char c - 48)) 0 (dec_string n) = n"
proof (induction n rule: dec_string.induct)
  case (1 n)
  show ?case
  proof (cases "n < 10")
    case True
    then show ?thesis by (subst dec_string.simps) simp
  next
    case False
    with 1 show ?thesis by (subst dec_string.simps) (simp add: dec_digit)
  qed
qed

lemma parse_dec_string [simp]: "parse_dec (dec_string n) = Some n"
  by (simp add: parse_dec_def list_all_dec_string foldl_dec_string)

lemma dec_string_inj [simp]: "dec_string m = dec_string n \<longleftrightarrow> m = n"
  by (metis option.inject parse_dec_string)

lemma dec_string_chars: "c \<in> set (dec_string n) \<Longrightarrow> is_dec_digit c"
  using list_all_dec_string by (auto simp: list_all_iff)

lemma dec_string_plain: "CHR ''|'' \<notin> set (dec_string n)" "CHR ''_'' \<notin> set (dec_string n)"
  by (auto dest!: dec_string_chars simp: is_dec_digit_def)

lemma length_dec_string: "n < 10 ^ k \<Longrightarrow> 0 < k \<Longrightarrow> 1 \<le> length (dec_string n) \<and> length (dec_string n) \<le> k"
proof (induction k arbitrary: n)
  case (Suc k)
  show ?case
  proof (cases "n < 10")
    case True
    then show ?thesis by (subst dec_string.simps, subst (2) dec_string.simps) simp
  next
    case False
    with Suc.prems have "n div 10 < 10 ^ k" "0 < k" by (auto simp: less_mult_imp_div_less mult.commute) (cases k; simp)
    with Suc.IH [of "n div 10"] False show ?thesis by (subst dec_string.simps, subst (2) dec_string.simps) simp
  qed
qed simp

lemma length_dec_string_ge: "10 ^ k \<le> n \<Longrightarrow> k < length (dec_string n)"
proof (induction k arbitrary: n)
  case (Suc k)
  then have "10 ^ k \<le> n div 10" by (simp add: less_eq_div_iff_mult_less_eq mult.commute)
  moreover have "\<not> n < 10" using Suc.prems order_less_le_trans [of n 10 "10 ^ Suc k"] by auto
  ultimately show ?case using Suc.IH [of "n div 10"] by (subst dec_string.simps) simp
qed simp

lemma hex_digit_char: "n < 16 \<Longrightarrow> hex_digit (hex_char n) = Some n"
  by (simp add: hex_digit_def hex_char_def Let_def)

lemma hex_value_from_append:
  "hex_value_from acc (s @ t) = Option.bind (hex_value_from acc s) (\<lambda>n. hex_value_from n t)"
  by (induction s arbitrary: acc) (auto split: option.split)

declare hex_string.simps [simp del]

lemma hex_value_string [simp]: "hex_value_from 0 (hex_string n) = Some n"
proof (induction n rule: hex_string.induct)
  case (1 n)
  show ?case
  proof (cases "n < 16")
    case True
    then show ?thesis by (subst hex_string.simps) (simp add: hex_digit_char)
  next
    case False
    with 1 show ?thesis
      by (subst hex_string.simps) (simp add: hex_value_from_append hex_digit_char)
  qed
qed

lemma length_hex_string: "n < 16 ^ k \<Longrightarrow> 0 < k \<Longrightarrow> length (hex_string n) \<le> k"
proof (induction k arbitrary: n)
  case (Suc k)
  show ?case
  proof (cases "n < 16")
    case True
    then show ?thesis by (subst hex_string.simps) simp
  next
    case False
    with Suc have "n div 16 < 16 ^ k" "0 < k" by (auto simp: less_mult_imp_div_less gr0_conv_Suc mult.commute) (cases k; simp)
    with Suc False show ?thesis by (subst hex_string.simps) simp
  qed
qed simp

lemma hex_value_from_bound: "hex_value_from acc s = Some n \<Longrightarrow> acc < m \<Longrightarrow> n < m * 16 ^ length s"
proof (induction s arbitrary: acc m)
  case (Cons c s)
  then obtain d where d: "hex_digit c = Some d" "hex_value_from (16 * acc + d) s = Some n"
    by (auto split: option.splits)
  then have "d < 16" by (auto simp: hex_digit_def Let_def split: if_splits)
  with Cons.prems have "16 * acc + d < 16 * m" by simp
  from Cons.IH [OF d(2) this] show ?case by (simp add: mult.assoc mult.left_commute)
qed simp

lemma split_str_neq_Nil [simp]: "split_str pat s \<noteq> []"
  by (induction pat s rule: split_str.induct) (auto split: list.splits)

end
