(* ===== verification/Shared_Lease.thy ===== *)
theory Shared_Lease
  imports Remote_Ownership Js_Text
begin

text \<open>
  apps/api/src/services/remoteWsSharedLease.ts: the lease of a remote session that API processes
  share in Redis. The owner key of a session holds the identity of the connection that owns it and
  expires; scripts that Redis runs atomically acquire, renew and release it. A claim may forward
  until a deadline on the process's own clock that ends a safety margin before the key can expire.

  A store maps keys to values with an optional expiry on the clock of Redis. A request is described
  by the process's clock when it starts and when the reply arrives, the time at which Redis runs the
  script, and whether the connection fails before or after that. The topology check is an argument.
\<close>

section \<open>Constants and keys\<close>

datatype remote_ws_kind = Terminal | Desktop | Tunnel

definition REMOTE_WS_SHARED_LEASE_TTL_MS :: int where
  "REMOTE_WS_SHARED_LEASE_TTL_MS = 30000"

definition REMOTE_WS_FORWARDING_SAFETY_MARGIN_MS :: int where
  "REMOTE_WS_FORWARDING_SAFETY_MARGIN_MS = 10000"

definition REMOTE_WS_SHARED_LEASE_MAX_ROUND_TRIP_MS :: int where
  "REMOTE_WS_SHARED_LEASE_MAX_ROUND_TRIP_MS = 2000"

fun kind_text :: "remote_ws_kind \<Rightarrow> string" where
  "kind_text Terminal = ''terminal''"
| "kind_text Desktop = ''desktop''"
| "kind_text Tunnel = ''tunnel''"

record redis_keys =
  rk_owner :: string
  rk_generation :: string
  rk_finalizing :: "string option"
  rk_finalizationPayload :: "string option"

definition key_base :: "remote_ws_kind \<Rightarrow> id \<Rightarrow> string" where
  "key_base kind sessionId = ''remote:ws:'' @ ''{'' @ kind_text kind @ '':'' @ sessionId @ ''}''"

definition getRemoteWsRedisKeys :: "remote_ws_kind \<Rightarrow> id \<Rightarrow> redis_keys" where
  "getRemoteWsRedisKeys kind sessionId =
     \<lparr>rk_owner = key_base kind sessionId @ '':owner'',
      rk_generation = key_base kind sessionId @ '':generation'',
      rk_finalizing = (if kind = Desktop then Some (key_base kind sessionId @ '':finalizing'') else None),
      rk_finalizationPayload =
        (if kind = Desktop then Some (key_base kind sessionId @ '':finalization-payload'') else None)\<rparr>"

section \<open>Text\<close>

text \<open>\<open>string.gsub\<close> for a pattern without special characters.\<close>

function gsub :: "string \<Rightarrow> string \<Rightarrow> string \<Rightarrow> string" where
  "gsub pat rep [] = []"
| "gsub pat rep (c # cs) =
     (if pat \<noteq> [] \<and> startsWith (c # cs) pat then rep @ gsub pat rep (drop (length pat) (c # cs))
      else c # gsub pat rep cs)"
  by pat_completeness auto

termination
  by (relation "measure (\<lambda>(pat, rep, s). length s)") auto

definition buildOwnerTemplate :: "id \<Rightarrow> id \<Rightarrow> id \<Rightarrow> string" where
  "buildOwnerTemplate instanceId connectionId leaseToken =
     ''v1|'' @ instanceId @ ''|'' @ connectionId @ ''|__GENERATION__|'' @ leaseToken"

definition buildOwnerValue :: "id \<Rightarrow> id \<Rightarrow> int \<Rightarrow> id \<Rightarrow> string" where
  "buildOwnerValue instanceId connectionId generation leaseToken =
     ''v1|'' @ instanceId @ ''|'' @ connectionId @ ''|'' @ number_text generation @ ''|'' @ leaseToken"

definition hasCanonicalOwnerValue :: "shared_claim \<Rightarrow> bool" where
  "hasCanonicalOwnerValue claim =
     (cl_ownerValue claim
        = buildOwnerValue (ci_instanceId (cl_identity claim)) (ci_connectionId (cl_identity claim))
            (ci_generation (cl_identity claim)) (ci_leaseToken (cl_identity claim)))"

section \<open>Redis\<close>

record redis_entry =
  re_value :: string
  re_expires :: "int option"

type_synonym redis_store = "string \<rightharpoonup> redis_entry"

definition rget :: "redis_store \<Rightarrow> int \<Rightarrow> string \<Rightarrow> string option" where
  "rget store at key =
     (case store key of
        None \<Rightarrow> None
      | Some e \<Rightarrow> (case re_expires e of
                     None \<Rightarrow> Some (re_value e)
                   | Some t \<Rightarrow> if at < t then Some (re_value e) else None))"

definition rset :: "redis_store \<Rightarrow> string \<Rightarrow> string \<Rightarrow> redis_store" where
  "rset store key value = store(key \<mapsto> \<lparr>re_value = value, re_expires = None\<rparr>)"

text \<open>\<open>SET key value PX ttl NX\<close>.\<close>

definition rset_px_nx :: "redis_store \<Rightarrow> int \<Rightarrow> string \<Rightarrow> string \<Rightarrow> int \<Rightarrow> redis_store" where
  "rset_px_nx store at key value ttl =
     (if rget store at key \<noteq> None then store
      else store(key \<mapsto> \<lparr>re_value = value, re_expires = Some (at + ttl)\<rparr>))"

definition rpexpire :: "redis_store \<Rightarrow> int \<Rightarrow> string \<Rightarrow> int \<Rightarrow> redis_store" where
  "rpexpire store at key ttl =
     (case rget store at key of
        None \<Rightarrow> store
      | Some v \<Rightarrow> store(key \<mapsto> \<lparr>re_value = v, re_expires = Some (at + ttl)\<rparr>))"

definition rdel :: "redis_store \<Rightarrow> string \<Rightarrow> redis_store" where
  "rdel store key = store(key := None)"

text \<open>\<open>INCR\<close>, which keeps an expiry and fails on a value that is not a number.\<close>

definition rincr :: "redis_store \<Rightarrow> int \<Rightarrow> string \<Rightarrow> (nat \<times> redis_store) option" where
  "rincr store at key =
     (case rget store at key of
        None \<Rightarrow> Some (1, store(key \<mapsto> \<lparr>re_value = dec_string 1, re_expires = None\<rparr>))
      | Some v \<Rightarrow>
          (case parse_dec v of
             None \<Rightarrow> None
           | Some n \<Rightarrow>
               Some (Suc n, store(key \<mapsto> \<lparr>re_value = dec_string (Suc n),
                                        re_expires = Option.bind (store key) re_expires\<rparr>))))"

section \<open>Scripts\<close>

text \<open>A script gives its reply and the store after it; \<open>None\<close> is a script error.\<close>

type_synonym script = "redis_store \<Rightarrow> int \<Rightarrow> string list option \<times> redis_store"

definition ORPHAN_RECOVERY_MARK :: string where
  "ORPHAN_RECOVERY_MARK =
     [CHR 0x22] @ ''reason'' @ [CHR 0x22] @ '':'' @ [CHR 0x22] @ ''orphan_recovery'' @ [CHR 0x22]"

definition acquire_owner :: "redis_keys \<Rightarrow> string \<Rightarrow> int \<Rightarrow> script" where
  "acquire_owner keys template ttl store at =
     (case rincr store at (rk_generation keys) of
        None \<Rightarrow> (None, store)
      | Some (generation, store') \<Rightarrow>
          (Some [''acquired'', dec_string generation],
           rset_px_nx store' at (rk_owner keys) (gsub ''__GENERATION__'' (dec_string generation) template) ttl))"

definition script_acquire :: "redis_keys \<Rightarrow> string \<Rightarrow> int \<Rightarrow> script" where
  "script_acquire keys template ttl store at =
     (if rget store at (rk_owner keys) \<noteq> None then (Some [''already_owned''], store)
      else (case (rk_finalizing keys, rk_finalizationPayload keys) of
              (Some fk, Some pk) \<Rightarrow>
                (case (rget store at fk, rget store at pk) of
                   (Some fence, Some payload) \<Rightarrow>
                     if str_includes payload ORPHAN_RECOVERY_MARK
                     then (Some [''desktop_orphan_recovery''], store)
                     else (Some [''desktop_finalizing''], store)
                 | (None, None) \<Rightarrow> acquire_owner keys template ttl store at
                 | _ \<Rightarrow> (Some [''inconsistent_finalization''], store))
            | _ \<Rightarrow> acquire_owner keys template ttl store at))"

definition script_renew :: "string \<Rightarrow> string \<Rightarrow> int \<Rightarrow> script" where
  "script_renew owner value ttl store at =
     (if rget store at owner \<noteq> Some value then (Some [''owner_mismatch''], store)
      else (Some [''renewed''], rpexpire store at owner ttl))"

definition script_beginClose :: "string \<Rightarrow> string \<Rightarrow> int \<Rightarrow> script" where
  "script_beginClose owner value ttl store at =
     (if rget store at owner \<noteq> Some value then (Some [''owner_mismatch''], store)
      else (Some [''still_owner''], rpexpire store at owner ttl))"

definition script_release :: "string \<Rightarrow> string \<Rightarrow> script" where
  "script_release owner value store at =
     (if rget store at owner \<noteq> Some value then (Some [''owner_mismatch''], store)
      else (Some [''released''], rdel store owner))"

definition script_writeDesktopIntent :: "string \<Rightarrow> string \<Rightarrow> string \<Rightarrow> string \<Rightarrow> string \<Rightarrow> string \<Rightarrow> script" where
  "script_writeDesktopIntent owner fk pk value finalizationId canonicalPayload store at =
     (if rget store at owner \<noteq> Some value then (Some [''owner_mismatch''], store)
      else if rget store at fk = None \<and> rget store at pk = None
      then (Some [''written''], rset (rset store fk finalizationId) pk canonicalPayload)
      else if rget store at fk = Some finalizationId \<and> rget store at pk = Some canonicalPayload
      then (Some [''already_written''], store)
      else (Some [''conflict''], store))"

definition script_claimDesktopOrphan :: "string \<Rightarrow> string \<Rightarrow> string \<Rightarrow> string \<Rightarrow> string \<Rightarrow> script" where
  "script_claimDesktopOrphan owner fk pk finalizationId canonicalPayload store at =
     (if rget store at owner \<noteq> None then (Some [''already_owned''], store)
      else if rget store at fk \<noteq> None \<or> rget store at pk \<noteq> None then (Some [''conflict''], store)
      else (Some [''claimed''], rset (rset store fk finalizationId) pk canonicalPayload))"

definition script_releaseDesktopIntent :: "string \<Rightarrow> string \<Rightarrow> string \<Rightarrow> string \<Rightarrow> script" where
  "script_releaseDesktopIntent fk pk finalizationId canonicalPayload store at =
     (if rget store at fk \<noteq> Some finalizationId then (Some [''owner_mismatch''], store)
      else if rget store at pk \<noteq> Some canonicalPayload then (Some [''owner_mismatch''], store)
      else (Some [''released''], rdel (rdel store fk) pk))"

definition script_observeDesktopFinalization :: "string \<Rightarrow> string \<Rightarrow> string \<Rightarrow> script" where
  "script_observeDesktopFinalization owner fk pk store at =
     (let fence = rget store at fk; payload = rget store at pk
      in (Some [if rget store at owner \<noteq> None then ''1'' else ''0'',
                case fence of None \<Rightarrow> [] | Some f \<Rightarrow> f,
                case payload of None \<Rightarrow> [] | Some p \<Rightarrow> p,
                if (fence \<noteq> None) = (payload \<noteq> None) then ''1'' else ''0''], store))"

section \<open>The lease manager\<close>

datatype eval_outcome = Executed | FailedBefore | FailedAfter

record request =
  rq_topology :: "string option"
  rq_start :: int
  rq_at :: int
  rq_reply :: int
  rq_outcome :: eval_outcome

text \<open>
  \<open>rq_topology\<close> is the reason the topology check refuses with, if it does. \<open>None\<close> is a thrown error:
  the connection failed, the reply was slow, or the script failed.
\<close>

definition evalTimed :: "request \<Rightarrow> script \<Rightarrow> redis_store \<Rightarrow> string list option \<times> redis_store" where
  "evalTimed rq script store =
     (case rq_outcome rq of
        FailedBefore \<Rightarrow> (None, store)
      | FailedAfter \<Rightarrow> (None, snd (script store (rq_at rq)))
      | Executed \<Rightarrow>
          (let (reply, store') = script store (rq_at rq)
           in if rq_reply rq - rq_start rq > REMOTE_WS_SHARED_LEASE_MAX_ROUND_TRIP_MS then (None, store')
              else (reply, store')))"

datatype acquire_result = Acquired shared_claim | NotAcquired string

definition MAX_SAFE_INTEGER :: int where
  "MAX_SAFE_INTEGER = 2 ^ 53 - 1"

definition forwarding_deadline :: "int \<Rightarrow> int" where
  "forwarding_deadline requestStart =
     requestStart + REMOTE_WS_SHARED_LEASE_TTL_MS - REMOTE_WS_FORWARDING_SAFETY_MARGIN_MS"

definition acquired_claim :: "id \<Rightarrow> id \<Rightarrow> id \<Rightarrow> id \<Rightarrow> nat \<Rightarrow> int \<Rightarrow> shared_claim" where
  "acquired_claim instanceId sessionId connectionId leaseToken generation requestStart =
     \<lparr>cl_identity = \<lparr>ci_connectionId = connectionId, ci_generation = int generation,
                     ci_instanceId = instanceId, ci_leaseToken = leaseToken\<rparr>,
      cl_sessionId = sessionId,
      cl_ownerValue = buildOwnerValue instanceId connectionId (int generation) leaseToken,
      cl_deadline = Some (forwarding_deadline requestStart)\<rparr>"

text \<open>\<open>connectionId\<close> and \<open>leaseToken\<close> are the random UUIDs drawn.\<close>

definition acquire ::
  "id \<Rightarrow> remote_ws_kind \<Rightarrow> request \<Rightarrow> id \<Rightarrow> id \<Rightarrow> id \<Rightarrow> redis_store \<Rightarrow> acquire_result \<times> redis_store" where
  "acquire instanceId kind rq connectionId leaseToken sessionId store =
     (case rq_topology rq of
        Some reason \<Rightarrow> (NotAcquired reason, store)
      | None \<Rightarrow>
          (let keys = getRemoteWsRedisKeys kind sessionId;
               (reply, store') =
                 evalTimed rq
                   (script_acquire keys (buildOwnerTemplate instanceId connectionId leaseToken)
                      REMOTE_WS_SHARED_LEASE_TTL_MS) store
           in (case reply of
                 None \<Rightarrow> NotAcquired ''unavailable''
               | Some r \<Rightarrow>
                   if hd r = ''already_owned'' then NotAcquired ''already_owned''
                   else if hd r = ''desktop_finalizing'' then NotAcquired ''desktop_finalizing''
                   else if hd r = ''desktop_orphan_recovery'' then NotAcquired ''desktop_orphan_recovery''
                   else if hd r = ''inconsistent_finalization'' then NotAcquired ''unavailable''
                   else if hd r = ''acquired'' then
                     (case parse_dec (r ! 1) of
                        None \<Rightarrow> NotAcquired ''unavailable''
                      | Some generation \<Rightarrow>
                          if int generation > MAX_SAFE_INTEGER \<or> generation = 0 then NotAcquired ''unavailable''
                          else Acquired (acquired_claim instanceId sessionId connectionId leaseToken
                                           generation (rq_start rq)))
                   else NotAcquired ''unavailable'', store')))"

text \<open>
  The remaining operations set the claim's own deadline to 0 first; they return the claim as they
  leave it. A renewal that throws is \<open>None\<close>.
\<close>

definition renew ::
  "remote_ws_kind \<Rightarrow> request \<Rightarrow> shared_claim \<Rightarrow> redis_store \<Rightarrow> shared_claim option \<times> redis_store" where
  "renew kind rq claim store =
     (if \<not> hasCanonicalOwnerValue claim \<or> rq_topology rq \<noteq> None then (None, store)
      else
        (let (reply, store') =
               evalTimed rq (script_renew (rk_owner (getRemoteWsRedisKeys kind (cl_sessionId claim)))
                               (cl_ownerValue claim) REMOTE_WS_SHARED_LEASE_TTL_MS) store
         in (case reply of
               None \<Rightarrow> None
             | Some r \<Rightarrow>
                 if hd r \<noteq> ''renewed'' then None
                 else Some (claim\<lparr>cl_deadline := Some (forwarding_deadline (rq_start rq))\<rparr>), store')))"

datatype begin_close_result = StillOwner | CloseRefused string

definition beginClose ::
  "remote_ws_kind \<Rightarrow> request \<Rightarrow> shared_claim \<Rightarrow> redis_store \<Rightarrow> begin_close_result \<times> shared_claim \<times> redis_store" where
  "beginClose kind rq claim store =
     (let claim' = claim\<lparr>cl_deadline := Some 0\<rparr>
      in if \<not> hasCanonicalOwnerValue claim' then (CloseRefused ''owner_mismatch'', claim', store)
         else
           (let (reply, store') =
                  evalTimed rq (script_beginClose (rk_owner (getRemoteWsRedisKeys kind (cl_sessionId claim)))
                                  (cl_ownerValue claim) REMOTE_WS_SHARED_LEASE_TTL_MS) store
            in (case reply of
                  None \<Rightarrow> CloseRefused ''unavailable''
                | Some r \<Rightarrow>
                    if hd r = ''still_owner'' then StillOwner
                    else if hd r = ''owner_mismatch'' then CloseRefused ''owner_mismatch''
                    else CloseRefused ''unavailable'', claim', store')))"

definition release ::
  "remote_ws_kind \<Rightarrow> request \<Rightarrow> shared_claim \<Rightarrow> redis_store \<Rightarrow> bool \<times> shared_claim \<times> redis_store" where
  "release kind rq claim store =
     (let claim' = claim\<lparr>cl_deadline := Some 0\<rparr>
      in if \<not> hasCanonicalOwnerValue claim' then (False, claim', store)
         else
           (let (reply, store') =
                  evalTimed rq (script_release (rk_owner (getRemoteWsRedisKeys kind (cl_sessionId claim)))
                                  (cl_ownerValue claim)) store
            in (case reply of None \<Rightarrow> False | Some r \<Rightarrow> hd r = ''released'', claim', store')))"

text \<open>The finalization intent of a desktop session: \<open>desktop_keys\<close> are its owner, fence and payload keys.\<close>

definition desktop_keys :: "id \<Rightarrow> string \<times> string \<times> string" where
  "desktop_keys sessionId =
     (key_base Desktop sessionId @ '':owner'', key_base Desktop sessionId @ '':finalizing'',
      key_base Desktop sessionId @ '':finalization-payload'')"

definition reply_in :: "string list \<Rightarrow> string list option \<Rightarrow> string" where
  "reply_in allowed reply =
     (case reply of None \<Rightarrow> ''unavailable'' | Some r \<Rightarrow> if hd r \<in> set allowed then hd r else ''unavailable'')"

definition writeDesktopFinalizationIntent ::
  "remote_ws_kind \<Rightarrow> request \<Rightarrow> shared_claim \<Rightarrow> string \<Rightarrow> string \<Rightarrow> redis_store \<Rightarrow> string \<times> redis_store" where
  "writeDesktopFinalizationIntent kind rq claim finalizationId canonicalPayload store =
     (if kind \<noteq> Desktop then (''unavailable'', store)
      else if \<not> hasCanonicalOwnerValue claim then (''owner_mismatch'', store)
      else
        (let (owner, fk, pk) = desktop_keys (cl_sessionId claim);
             (reply, store') =
               evalTimed rq (script_writeDesktopIntent owner fk pk (cl_ownerValue claim) finalizationId
                               canonicalPayload) store
         in (reply_in [''written'', ''already_written'', ''owner_mismatch'', ''conflict''] reply, store')))"

definition claimDesktopOrphan ::
  "request \<Rightarrow> id \<Rightarrow> string \<Rightarrow> string \<Rightarrow> redis_store \<Rightarrow> string \<times> redis_store" where
  "claimDesktopOrphan rq sessionId finalizationId canonicalPayload store =
     (if rq_topology rq \<noteq> None then (''unavailable'', store)
      else
        (let (owner, fk, pk) = desktop_keys sessionId;
             (reply, store') =
               evalTimed rq (script_claimDesktopOrphan owner fk pk finalizationId canonicalPayload) store
         in (reply_in [''claimed'', ''already_owned'', ''conflict''] reply, store')))"

definition releaseDesktopFinalizationIntent ::
  "request \<Rightarrow> id \<Rightarrow> string \<Rightarrow> string \<Rightarrow> redis_store \<Rightarrow> bool \<times> redis_store" where
  "releaseDesktopFinalizationIntent rq sessionId finalizationId canonicalPayload store =
     (let (owner, fk, pk) = desktop_keys sessionId;
          (reply, store') =
            evalTimed rq (script_releaseDesktopIntent fk pk finalizationId canonicalPayload) store
      in (case reply of None \<Rightarrow> False | Some r \<Rightarrow> hd r = ''released'', store'))"

record desktop_finalization_state =
  df_ownerPresent :: bool
  df_finalizationId :: "string option"
  df_canonicalPayload :: "string option"
  df_consistent :: bool

definition observeDesktopFinalization ::
  "request \<Rightarrow> id \<Rightarrow> redis_store \<Rightarrow> desktop_finalization_state option \<times> redis_store" where
  "observeDesktopFinalization rq sessionId store =
     (let (owner, fk, pk) = desktop_keys sessionId;
          (reply, store') = evalTimed rq (script_observeDesktopFinalization owner fk pk) store
      in (case reply of
            Some [o1, f, p, c] \<Rightarrow>
              if (o1 \<noteq> ''0'' \<and> o1 \<noteq> ''1'') \<or> (c \<noteq> ''0'' \<and> c \<noteq> ''1'') then None
              else Some \<lparr>df_ownerPresent = (o1 = ''1''),
                         df_finalizationId = (if f = [] then None else Some f),
                         df_canonicalPayload = (if p = [] then None else Some p),
                         df_consistent = (c = ''1'')\<rparr>
          | _ \<Rightarrow> None, store'))"

end
