(* ===== verification/Lease_Keys.thy ===== *)
theory Lease_Keys
  imports Shared_Lease
begin

text \<open>
  The owner keys and owner texts of remote-session leases (apps/api/src/services/remoteWsSharedLease.ts):
  distinct identities have distinct texts and distinct sessions distinct keys, and what each script and
  each operation of the lease manager does to the owner keys.
\<close>

section \<open>Owner texts and keys\<close>

text \<open>UUID texts hold neither a bar nor an underscore.\<close>

definition plain_id :: "id \<Rightarrow> bool" where
  "plain_id s = (CHR ''|'' \<notin> set s \<and> CHR ''_'' \<notin> set s)"

definition plain_identity :: "id \<Rightarrow> connection_identity \<Rightarrow> bool" where
  "plain_identity i idt =
     (ci_instanceId idt = i \<and> plain_id i \<and> plain_id (ci_connectionId idt) \<and> plain_id (ci_leaseToken idt)
      \<and> 0 \<le> ci_generation idt)"

definition owner_key :: "remote_ws_kind \<Rightarrow> id \<Rightarrow> string" where
  "owner_key kind sid = rk_owner (getRemoteWsRedisKeys kind sid)"

definition owner_of :: "connection_identity \<Rightarrow> string" where
  "owner_of idt = buildOwnerValue (ci_instanceId idt) (ci_connectionId idt) (ci_generation idt) (ci_leaseToken idt)"

section \<open>Texts\<close>

lemma gsub_skip:
  "pat = CHR ''_'' # p \<Longrightarrow> CHR ''_'' \<notin> set s \<Longrightarrow> gsub pat rep (s @ t) = s @ gsub pat rep t"
  by (induction s) (auto simp: startsWith_def)

lemma gsub_none: "pat = CHR ''_'' # p \<Longrightarrow> CHR ''_'' \<notin> set s \<Longrightarrow> gsub pat rep s = s"
  using gsub_skip [of pat p s rep "[]"] by simp

lemma gsub_hit: "pat \<noteq> [] \<Longrightarrow> gsub pat rep (pat @ t) = rep @ gsub pat rep t"
proof -
  assume "pat \<noteq> []"
  then obtain c cs where p: "pat = c # cs" by (cases pat) auto
  show ?thesis unfolding p by (simp add: startsWith_def)
qed

lemma owner_text:
  assumes "plain_id i" and "plain_id conn" and "plain_id token"
  shows "gsub ''__GENERATION__'' (dec_string g) (buildOwnerTemplate i conn token)
           = buildOwnerValue i conn (int g) token"
proof -
  let ?pat = "''__GENERATION__''" and ?pre = "''v1|'' @ i @ ''|'' @ conn @ ''|''" and ?post = "''|'' @ token"
  have t: "buildOwnerTemplate i conn token = ?pre @ (?pat @ ?post)" by (simp add: buildOwnerTemplate_def)
  have pre: "CHR ''_'' \<notin> set ?pre" and post: "CHR ''_'' \<notin> set ?post" using assms by (simp_all add: plain_id_def)
  have "gsub ?pat (dec_string g) (?pre @ (?pat @ ?post)) = ?pre @ gsub ?pat (dec_string g) (?pat @ ?post)"
    by (rule gsub_skip [OF refl pre])
  also have "gsub ?pat (dec_string g) (?pat @ ?post) = dec_string g @ gsub ?pat (dec_string g) ?post"
    by (rule gsub_hit) simp
  also have "gsub ?pat (dec_string g) ?post = ?post"
    by (rule gsub_none [OF refl post])
  finally have "gsub ?pat (dec_string g) (buildOwnerTemplate i conn token) = ?pre @ (dec_string g @ ?post)"
    unfolding t .
  then show ?thesis by (simp add: buildOwnerValue_def number_text_def)
qed

lemma owner_of_inj:
  assumes "plain_identity i a" and "plain_identity j b" and "owner_of a = owner_of b"
  shows "i = j \<and> a = b"
proof -
  note [simp] = append_sep_inject
  from assms have "ci_instanceId a = ci_instanceId b \<and> ci_connectionId a = ci_connectionId b
      \<and> nat (ci_generation a) = nat (ci_generation b) \<and> ci_leaseToken a = ci_leaseToken b"
    by (simp add: owner_of_def buildOwnerValue_def plain_identity_def plain_id_def number_text_def dec_string_plain)
  with assms(1,2) show ?thesis by (auto simp: plain_identity_def intro: connection_identity.equality)
qed

section \<open>Keys\<close>

lemma key_base_inj [simp]: "key_base kind s = key_base kind t \<longleftrightarrow> s = t"
  by (auto simp: key_base_def)

lemma owner_key_inj [simp]: "owner_key kind s = owner_key kind t \<longleftrightarrow> s = t"
  by (simp add: owner_key_def getRemoteWsRedisKeys_def)

lemma suffix_neq: "last a \<noteq> last b \<Longrightarrow> a \<noteq> [] \<Longrightarrow> b \<noteq> [] \<Longrightarrow> x @ a \<noteq> y @ b"
  by (metis last_appendR)

lemma owner_key_other:
  "owner_key kind s \<noteq> rk_generation (getRemoteWsRedisKeys kind' t)"
  "owner_key kind s \<noteq> key_base kind' t @ '':finalizing''"
  "owner_key kind s \<noteq> key_base kind' t @ '':finalization-payload''"
  unfolding owner_key_def getRemoteWsRedisKeys_def redis_keys.simps
  by (rule suffix_neq; simp)+

section \<open>What the scripts do to owner keys\<close>

text \<open>A live owner stays: same value, and the expiry does not move back.\<close>

definition keeps_owner :: "remote_ws_kind \<Rightarrow> int \<Rightarrow> redis_store \<Rightarrow> redis_store \<Rightarrow> id \<Rightarrow> bool" where
  "keeps_owner kind now store store' sid =
     (\<forall>v x. store (owner_key kind sid) = Some \<lparr>re_value = v, re_expires = Some x\<rparr> \<longrightarrow> now < x
        \<longrightarrow> (\<exists>x' \<ge> x. store' (owner_key kind sid) = Some \<lparr>re_value = v, re_expires = Some x'\<rparr>))"

definition owners_expire :: "remote_ws_kind \<Rightarrow> int \<Rightarrow> redis_store \<Rightarrow> bool" where
  "owners_expire kind now store =
     (\<forall>sid e. store (owner_key kind sid) = Some e
        \<longrightarrow> (\<exists>x. re_expires e = Some x \<and> x \<le> now + REMOTE_WS_SHARED_LEASE_TTL_MS))"

lemma keeps_owner_refl [simp]: "keeps_owner kind now store store sid"
  by (auto simp: keeps_owner_def)

lemma keeps_owner_same: "store' (owner_key kind sid) = store (owner_key kind sid) \<Longrightarrow> keeps_owner kind now store store' sid"
  by (auto simp: keeps_owner_def)

lemma owners_expire_same:
  "owners_expire kind now store \<Longrightarrow> (\<And>sid. store' (owner_key kind sid) = store (owner_key kind sid))
     \<Longrightarrow> owners_expire kind now store'"
  by (simp add: owners_expire_def)

lemma evalTimed_store: "snd (evalTimed rq script store) \<in> {store, snd (script store (rq_at rq))}"
  by (simp add: evalTimed_def split: eval_outcome.split prod.split)

lemma evalTimed_Some: "evalTimed rq script store = (Some r, store') \<Longrightarrow> script store (rq_at rq) = (Some r, store')"
  by (auto simp: evalTimed_def split: eval_outcome.splits prod.splits if_splits)

text \<open>Every script keeps the live owners, except a release the owner it names.\<close>

definition owner_safe :: "remote_ws_kind \<Rightarrow> int \<Rightarrow> redis_store \<Rightarrow> redis_store \<Rightarrow> bool" where
  "owner_safe kind now store store' =
     ((\<forall>sid. keeps_owner kind now store store' sid)
      \<and> (owners_expire kind now store \<longrightarrow> owners_expire kind now store'))"

lemma owner_safe_refl [simp]: "owner_safe kind now store store"
  by (simp add: owner_safe_def)

lemma owner_safe_same: "(\<And>sid. store' (owner_key kind sid) = store (owner_key kind sid)) \<Longrightarrow> owner_safe kind now store store'"
  using owners_expire_same keeps_owner_same by (auto simp: owner_safe_def)

lemma rincr_owner:
  "rincr store at (rk_generation (getRemoteWsRedisKeys kind t)) = Some (g, store')
     \<Longrightarrow> store' (owner_key kind sid) = store (owner_key kind sid)"
  using owner_key_other(1) [of kind sid kind t]
  by (auto simp: rincr_def split: option.splits)

lemma rget_owner_key: "rget store at (rk_owner (getRemoteWsRedisKeys kind sid)) = rget store at (owner_key kind sid)"
  by (simp add: owner_key_def)

lemma script_acquire_cases:
  assumes "script_acquire (getRemoteWsRedisKeys kind sid) template ttl store at = (r, store')"
  obtains (kept) "store' = store" "\<And>g. r \<noteq> Some [''acquired'', g]"
  | (acquired) g st where "rget store at (owner_key kind sid) = None"
      "rincr store at (rk_generation (getRemoteWsRedisKeys kind sid)) = Some (g, st)"
      "r = Some [''acquired'', dec_string g]"
      "store' = st(owner_key kind sid \<mapsto> \<lparr>re_value = gsub ''__GENERATION__'' (dec_string g) template, re_expires = Some (at + ttl)\<rparr>)"
proof -
  consider (a) "store' = store" "\<And>g. r \<noteq> Some [''acquired'', g]"
    | (b) "rget store at (owner_key kind sid) = None"
        "acquire_owner (getRemoteWsRedisKeys kind sid) template ttl store at = (r, store')"
    using assms unfolding script_acquire_def rget_owner_key
    by (fastforce split: if_splits option.splits prod.splits)
  then show thesis
  proof cases
    case b
    show thesis
    proof (cases "rincr store at (rk_generation (getRemoteWsRedisKeys kind sid))")
      case None
      with b show thesis by (intro kept) (auto simp: acquire_owner_def)
    next
      case (Some p)
      then obtain g st where p: "p = (g, st)" by (cases p)
      have "rget st at (owner_key kind sid) = None"
        using b(1) rincr_owner [OF Some [unfolded p], of sid] by (simp add: rget_def)
      with b Some p show thesis
        by (intro acquired [of g st]) (auto simp: acquire_owner_def rset_px_nx_def owner_key_def)
    qed
  qed (rule kept)
qed

lemma rget_Some_owner:
  assumes "owners_expire kind now store" and "rget store now (owner_key kind sid) = Some v"
  obtains x where "store (owner_key kind sid) = Some \<lparr>re_value = v, re_expires = Some x\<rparr>" "now < x"
    "x \<le> now + REMOTE_WS_SHARED_LEASE_TTL_MS"
proof -
  from assms(2) obtain e where e: "store (owner_key kind sid) = Some e" by (auto simp: rget_def split: option.splits)
  with assms(1) obtain x where "re_expires e = Some x" "x \<le> now + REMOTE_WS_SHARED_LEASE_TTL_MS"
    by (auto simp: owners_expire_def)
  with assms(2) e show thesis by (intro that [of x]) (auto simp: rget_def split: if_splits)
qed

lemma rget_None_owner:
  "rget store now (owner_key kind sid) = None \<Longrightarrow> keeps_owner kind now store store' sid"
  by (auto simp: keeps_owner_def rget_def)

lemma owners_expire_upd:
  "owners_expire kind now store \<Longrightarrow> re_expires e = Some x \<Longrightarrow> x \<le> now + REMOTE_WS_SHARED_LEASE_TTL_MS
     \<Longrightarrow> owners_expire kind now (store(owner_key kind sid \<mapsto> e))"
  by (auto simp: owners_expire_def)

lemma owner_safe_acquire:
  "owner_safe kind at store (snd (script_acquire (getRemoteWsRedisKeys kind sid) template REMOTE_WS_SHARED_LEASE_TTL_MS store at))"
proof -
  obtain r store' where eq: "script_acquire (getRemoteWsRedisKeys kind sid) template REMOTE_WS_SHARED_LEASE_TTL_MS store at = (r, store')"
    by fastforce
  then show ?thesis
  proof (cases rule: script_acquire_cases)
    case (acquired g st)
    note same = rincr_owner [OF acquired(2)]
    have "keeps_owner kind at store store' s" for s
      using rget_None_owner [OF acquired(1), of store'] same
      by (cases "s = sid") (auto simp: acquired(4) intro: keeps_owner_same)
    moreover have "owners_expire kind at store \<Longrightarrow> owners_expire kind at store'"
      unfolding acquired(4) using owners_expire_same [of kind at store st] same
      by (intro owners_expire_upd) auto
    ultimately show ?thesis unfolding eq by (simp add: owner_safe_def)
  qed (simp add: eq)
qed

text \<open>Extending the expiry of an owner key that holds the given value.\<close>

lemma owner_safe_extend:
  assumes ex: "owners_expire kind at store" and get: "rget store at (owner_key kind sid) = Some v"
  shows "owner_safe kind at store (rpexpire store at (owner_key kind sid) REMOTE_WS_SHARED_LEASE_TTL_MS)"
    and "rpexpire store at (owner_key kind sid) REMOTE_WS_SHARED_LEASE_TTL_MS (owner_key kind sid)
           = Some \<lparr>re_value = v, re_expires = Some (at + REMOTE_WS_SHARED_LEASE_TTL_MS)\<rparr>"
proof -
  obtain x where x: "store (owner_key kind sid) = Some \<lparr>re_value = v, re_expires = Some x\<rparr>"
      "x \<le> at + REMOTE_WS_SHARED_LEASE_TTL_MS"
    using rget_Some_owner [OF ex get] by blast
  have st: "rpexpire store at (owner_key kind sid) REMOTE_WS_SHARED_LEASE_TTL_MS
      = store(owner_key kind sid \<mapsto> \<lparr>re_value = v, re_expires = Some (at + REMOTE_WS_SHARED_LEASE_TTL_MS)\<rparr>)"
    by (simp add: rpexpire_def get)
  show "rpexpire store at (owner_key kind sid) REMOTE_WS_SHARED_LEASE_TTL_MS (owner_key kind sid)
           = Some \<lparr>re_value = v, re_expires = Some (at + REMOTE_WS_SHARED_LEASE_TTL_MS)\<rparr>"
    by (simp add: st)
  show "owner_safe kind at store (rpexpire store at (owner_key kind sid) REMOTE_WS_SHARED_LEASE_TTL_MS)"
    unfolding st owner_safe_def using ex x
    by (auto simp: keeps_owner_def intro: owners_expire_upd)
qed

lemma owner_safe_renew:
  "owners_expire kind at store
     \<Longrightarrow> owner_safe kind at store (snd (script_renew (owner_key kind sid) v REMOTE_WS_SHARED_LEASE_TTL_MS store at))"
  "owners_expire kind at store
     \<Longrightarrow> owner_safe kind at store (snd (script_beginClose (owner_key kind sid) v REMOTE_WS_SHARED_LEASE_TTL_MS store at))"
  by (simp_all add: script_renew_def script_beginClose_def owner_safe_extend(1))

text \<open>The desktop intent scripts write other keys.\<close>

lemma desktop_keys_other:
  assumes "desktop_keys t = (ok, fk, pk)"
  shows "owner_key kind s \<noteq> fk" "owner_key kind s \<noteq> pk"
  using assms owner_key_other(2,3) [of kind s Desktop t] by (auto simp: desktop_keys_def)

lemma owner_safe_intents:
  assumes "desktop_keys t = (ok, fk, pk)"
  shows "owner_safe kind at store (snd (script_writeDesktopIntent ok fk pk v fid payload store at))"
    and "owner_safe kind at store (snd (script_claimDesktopOrphan ok fk pk fid payload store at))"
    and "owner_safe kind at store (snd (script_releaseDesktopIntent fk pk fid payload store at))"
  using desktop_keys_other [OF assms]
  by (auto simp: script_writeDesktopIntent_def script_claimDesktopOrphan_def script_releaseDesktopIntent_def
      rset_def rdel_def intro!: owner_safe_same)

text \<open>A release keeps every owner but the one it names.\<close>

lemma release_keeps:
  assumes "\<And>e. store (owner_key kind sid') = Some e \<Longrightarrow> sid' = sid \<Longrightarrow> re_value e \<noteq> v"
  shows "keeps_owner kind at store (snd (script_release (owner_key kind sid) v store at)) sid'"
proof (cases "sid' = sid")
  case True
  with assms have "rget store at (owner_key kind sid) \<noteq> Some v"
    by (auto simp: rget_def split: option.splits if_splits)
  then show ?thesis by (simp add: script_release_def)
next
  case False
  then show ?thesis by (intro keeps_owner_same) (simp add: script_release_def rdel_def)
qed

lemma release_expire:
  "owners_expire kind at store \<Longrightarrow> owners_expire kind at (snd (script_release (owner_key kind sid) v store at'))"
  by (auto simp: owners_expire_def script_release_def rdel_def split: if_splits)

section \<open>What the manager's operations do to the store\<close>

text \<open>
  The contract between the scripts and the manager's operations: a relation between the store before
  and after every script, for the kinds in \<open>K\<close>, the owners \<open>R\<close> that may be released and the intents \<open>I\<close>
  that may be released, holds of the operations, however their requests fail.
\<close>

locale script_contract =
  fixes K :: "remote_ws_kind set" and R :: "id \<Rightarrow> string \<Rightarrow> bool" and I :: "id \<Rightarrow> string \<Rightarrow> string \<Rightarrow> bool"
    and rel :: "int \<Rightarrow> redis_store \<Rightarrow> redis_store \<Rightarrow> bool"
  assumes unchanged: "rel at s s"
    and by_acquire: "kind \<in> K
      \<Longrightarrow> rel at s (snd (script_acquire (getRemoteWsRedisKeys kind sid) template REMOTE_WS_SHARED_LEASE_TTL_MS s at))"
    and by_renew: "kind \<in> K \<Longrightarrow> rel at s (snd (script_renew (owner_key kind sid) v REMOTE_WS_SHARED_LEASE_TTL_MS s at))"
    and by_beginClose: "kind \<in> K
      \<Longrightarrow> rel at s (snd (script_beginClose (owner_key kind sid) v REMOTE_WS_SHARED_LEASE_TTL_MS s at))"
    and by_release: "kind \<in> K \<Longrightarrow> R sid v \<Longrightarrow> rel at s (snd (script_release (owner_key kind sid) v s at))"
    and by_write: "desktop_keys sid = (ok, fk, pk) \<Longrightarrow> rel at s (snd (script_writeDesktopIntent ok fk pk v fid payload s at))"
    and by_claim: "desktop_keys sid = (ok, fk, pk) \<Longrightarrow> rel at s (snd (script_claimDesktopOrphan ok fk pk fid payload s at))"
    and by_drop: "desktop_keys sid = (ok, fk, pk) \<Longrightarrow> I sid fid payload
      \<Longrightarrow> rel at s (snd (script_releaseDesktopIntent fk pk fid payload s at))"
begin

lemma evalTimed_rel: "rel (rq_at rq) s (snd (script s (rq_at rq))) \<Longrightarrow> rel (rq_at rq) s (snd (evalTimed rq script s))"
  using evalTimed_store [of rq script s] unchanged by auto

lemma acquire_rel: "kind \<in> K \<Longrightarrow> rel (rq_at rq) s (snd (acquire i kind rq conn token sid s))"
  by (simp add: acquire_def Let_def split_def evalTimed_rel by_acquire unchanged split: option.split)

lemma renew_rel: "kind \<in> K \<Longrightarrow> rel (rq_at rq) s (snd (renew kind rq c s))"
  by (simp add: renew_def Let_def split_def evalTimed_rel by_renew unchanged flip: owner_key_def)

lemma beginClose_rel: "kind \<in> K \<Longrightarrow> rel (rq_at rq) s (snd (snd (beginClose kind rq c s)))"
  by (simp add: beginClose_def Let_def split_def evalTimed_rel by_beginClose unchanged flip: owner_key_def)

lemma release_rel:
  "kind \<in> K \<Longrightarrow> R (cl_sessionId c) (cl_ownerValue c) \<Longrightarrow> rel (rq_at rq) s (snd (snd (release kind rq c s)))"
  by (simp add: release_def Let_def split_def evalTimed_rel by_release unchanged flip: owner_key_def)

lemma intent_rel:
  "rel (rq_at rq) s (snd (writeDesktopFinalizationIntent kind rq c fid payload s))"
  "rel (rq_at rq) s (snd (claimDesktopOrphan rq sid fid payload s))"
  "I sid fid payload \<Longrightarrow> rel (rq_at rq) s (snd (releaseDesktopFinalizationIntent rq sid fid payload s))"
  "rel (rq_at rq) s (snd (observeDesktopFinalization rq sid s))"
  by (auto simp: writeDesktopFinalizationIntent_def claimDesktopOrphan_def releaseDesktopFinalizationIntent_def
      observeDesktopFinalization_def script_observeDesktopFinalization_def Let_def split_def unchanged
      intro!: evalTimed_rel by_write by_claim by_drop prod.collapse [symmetric])

end

text \<open>Owners of one kind: every operation but a release keeps the live ones.\<close>

interpretation owners: script_contract "{kind}" "\<lambda>_ _. False" "\<lambda>_ _ _. True"
  "\<lambda>at s s'. owners_expire kind at s \<longrightarrow> owner_safe kind at s s'" for kind
  by unfold_locales (auto simp: owner_safe_acquire owner_safe_renew owner_safe_intents)

lemmas acquire_safe = owners.acquire_rel [OF singletonI, rule_format]
lemmas renew_safe = owners.renew_rel [OF singletonI, rule_format]
lemmas beginClose_safe = owners.beginClose_rel [OF singletonI, rule_format]
lemmas intents_safe = owners.intent_rel(1,2) [rule_format] owners.intent_rel(3) [OF TrueI, rule_format]

lemma acquire_Acquired:
  assumes "acquire i kind rq conn token sid store = (Acquired c, store')"
    and "plain_id i" and "plain_id conn" and "plain_id token"
  obtains g where "c = acquired_claim i sid conn token g (rq_start rq)"
    "store' (owner_key kind sid)
       = Some \<lparr>re_value = cl_ownerValue c, re_expires = Some (rq_at rq + REMOTE_WS_SHARED_LEASE_TTL_MS)\<rparr>"
proof -
  let ?script = "script_acquire (getRemoteWsRedisKeys kind sid) (buildOwnerTemplate i conn token) REMOTE_WS_SHARED_LEASE_TTL_MS"
  obtain reply st where ev: "evalTimed rq ?script store = (reply, st)" by fastforce
  with assms(1) obtain r g where r: "reply = Some r" "hd r = ''acquired''" "parse_dec (r ! 1) = Some g"
      "c = acquired_claim i sid conn token g (rq_start rq)" and st: "st = store'"
    by (simp add: acquire_def Let_def split: option.splits if_splits)
  have "?script store (rq_at rq) = (Some r, store')" using evalTimed_Some ev r(1) st by blast
  then show thesis
  proof (cases rule: script_acquire_cases)
    case kept
    then have False
      using r(2) evalTimed_Some ev r(1) \<open>?script store (rq_at rq) = (Some r, store')\<close>
      by (auto simp: script_acquire_def acquire_owner_def split: if_splits option.splits prod.splits)
    then show thesis ..
  next
    case (acquired g' st')
    with r have "g' = g" by simp
    with acquired r assms(2-4) show thesis
      by (intro that [of g]) (simp_all add: owner_text acquired_claim_def)
  qed
qed

lemma renew_Some:
  assumes "renew kind rq c store = (Some c', store')" and "owners_expire kind (rq_at rq) store"
  shows "c' = c\<lparr>cl_deadline := Some (forwarding_deadline (rq_start rq))\<rparr>"
    and "hasCanonicalOwnerValue c"
    and "store' (owner_key kind (cl_sessionId c))
       = Some \<lparr>re_value = cl_ownerValue c, re_expires = Some (rq_at rq + REMOTE_WS_SHARED_LEASE_TTL_MS)\<rparr>"
proof -
  let ?script = "script_renew (owner_key kind (cl_sessionId c)) (cl_ownerValue c) REMOTE_WS_SHARED_LEASE_TTL_MS"
  obtain reply st where ev: "evalTimed rq ?script store = (reply, st)" by fastforce
  with assms(1) obtain r where r: "reply = Some r" "hd r = ''renewed''" "st = store'"
      and *: "hasCanonicalOwnerValue c" "c' = c\<lparr>cl_deadline := Some (forwarding_deadline (rq_start rq))\<rparr>"
    by (auto simp: renew_def Let_def owner_key_def split: option.splits if_splits)
  show "hasCanonicalOwnerValue c" "c' = c\<lparr>cl_deadline := Some (forwarding_deadline (rq_start rq))\<rparr>"
    by (rule *)+
  have sc: "?script store (rq_at rq) = (Some r, store')" using evalTimed_Some ev r by blast
  with r(2) have get: "rget store (rq_at rq) (owner_key kind (cl_sessionId c)) = Some (cl_ownerValue c)"
    by (auto simp: script_renew_def split: if_splits)
  with sc have "store' = rpexpire store (rq_at rq) (owner_key kind (cl_sessionId c)) REMOTE_WS_SHARED_LEASE_TTL_MS"
    by (simp add: script_renew_def)
  with owner_safe_extend(2) [OF assms(2) get]
  show "store' (owner_key kind (cl_sessionId c))
       = Some \<lparr>re_value = cl_ownerValue c, re_expires = Some (rq_at rq + REMOTE_WS_SHARED_LEASE_TTL_MS)\<rparr>"
    by simp
qed

lemma release_store:
  "snd (snd (release kind rq c store))
     \<in> {store, snd (script_release (owner_key kind (cl_sessionId c)) (cl_ownerValue c) store (rq_at rq))}"
  "snd (snd (release kind rq c store)) \<noteq> store \<Longrightarrow> hasCanonicalOwnerValue c"
  using evalTimed_store [of rq "script_release (owner_key kind (cl_sessionId c)) (cl_ownerValue c)" store]
  by (auto simp: release_def Let_def split_def owner_key_def hasCanonicalOwnerValue_def)

end
