(* ===== verification/Remote_Lease.thy ===== *)
theory Remote_Lease
  imports Lease_Keys
begin

text \<open>
  The remote-session leases of several API processes over one Redis: the local registries
  (\<open>Remote_Ownership\<close>), the shared owner keys (\<open>Shared_Lease\<close>) and the clocks, as a step relation. A step
  is what one process does between two suspension points, or one script Redis runs.

  The routes use the operations as follows, and the steps allow no more: an acquired claim is
  installed locally or dropped (services/remoteWsUpgrade.ts); closing a connection sets its lease to
  closing and its deadline to 0 before anything else (routes/terminalWs.ts, desktopWs.ts,
  tunnelWs.ts); a claim is released only when its own local lease is closing or gone and it is not
  waiting to be installed. \<open>updateExactRemoteConnectionDeadline\<close> is called nowhere.
\<close>

section \<open>The world\<close>

record renewal =
  rn_instance :: id
  rn_session :: id
  rn_identity :: connection_identity
  rn_ws :: "ws_context option"
  rn_started :: "nat \<times> lease_state"

record lease_world =
  lw_time :: int
  lw_store :: redis_store
  lw_local :: "id \<Rightarrow> registry"
  lw_flight :: "(id \<times> shared_claim) set"
  lw_begun :: "renewal set"
  lw_renewed :: "(renewal \<times> shared_claim) set"

definition set_local :: "lease_world \<Rightarrow> id \<Rightarrow> registry \<Rightarrow> lease_world" where
  "set_local w i reg = w\<lparr>lw_local := (lw_local w)(i := reg)\<rparr>"

text \<open>The lease object the routes build for a claim, and the write-ahead part of closing a connection.\<close>

definition build_lease :: "shared_claim \<Rightarrow> lease" where
  "build_lease shared =
     \<lparr>ln_identity = cl_identity shared, ln_state = Opening, ln_userWs = None,
      ln_deadline = (case cl_deadline shared of None \<Rightarrow> 0 | Some t \<Rightarrow> t)\<rparr>"

definition close_local :: "registry \<Rightarrow> id \<Rightarrow> connection_identity \<Rightarrow> ws_context option \<Rightarrow> bool \<times> registry" where
  "close_local reg sessionId identity expectedWs =
     (case current_lease reg sessionId of
        None \<Rightarrow> (False, reg)
      | Some (a, current) \<Rightarrow>
          if \<not> hasExactIdentity (ln_identity current) identity \<or> ln_userWs current \<noteq> expectedWs
          then (False, reg)
          else (True, set_lease reg a (current\<lparr>ln_state := Closing, ln_deadline := 0\<rparr>)))"

text \<open>A request of process \<open>i\<close> that started at the global time \<open>r\<close> and whose script runs now.\<close>

definition request_ok :: "(id \<Rightarrow> int \<Rightarrow> int) \<Rightarrow> id \<Rightarrow> lease_world \<Rightarrow> request \<Rightarrow> bool" where
  "request_ok clock i w rq = (rq_at rq = lw_time w \<and> (\<exists>r. 0 \<le> r \<and> r \<le> lw_time w \<and> rq_start rq = clock i r))"

inductive lease_step ::
  "remote_ws_kind \<Rightarrow> (id \<Rightarrow> int \<Rightarrow> int) \<Rightarrow> lease_world \<Rightarrow> lease_world \<Rightarrow> bool"
  for kind clock where
  tick: "lw_time w \<le> t \<Longrightarrow> lease_step kind clock w (w\<lparr>lw_time := t\<rparr>)"
| acquired: "request_ok clock i w rq \<Longrightarrow> plain_id i \<Longrightarrow> plain_id conn \<Longrightarrow> plain_id token
    \<Longrightarrow> acquire i kind rq conn token sid (lw_store w) = (Acquired c, store')
    \<Longrightarrow> lease_step kind clock w (w\<lparr>lw_store := store', lw_flight := insert (i, c) (lw_flight w)\<rparr>)"
| not_acquired: "request_ok clock i w rq
    \<Longrightarrow> acquire i kind rq conn token sid (lw_store w) = (NotAcquired reason, store')
    \<Longrightarrow> lease_step kind clock w (w\<lparr>lw_store := store'\<rparr>)"
| install: "(i, c) \<in> lw_flight w
    \<Longrightarrow> installLocalRemoteConnection (lw_local w i) sid c build_lease = (res, reg')
    \<Longrightarrow> lease_step kind clock w ((set_local w i reg')\<lparr>lw_flight := lw_flight w - {(i, c)}\<rparr>)"
| drop_claim: "lease_step kind clock w (w\<lparr>lw_flight := lw_flight w - {(i, c)}\<rparr>)"
| bind: "bindRemoteConnection (lw_local w i) sid idt ws = (b, reg')
    \<Longrightarrow> lease_step kind clock w (set_local w i reg')"
| begin_renewal: "renew_begin (lw_local w i) sid idt ws = (Some started, reg')
    \<Longrightarrow> lease_step kind clock w ((set_local w i reg')
          \<lparr>lw_begun := insert \<lparr>rn_instance = i, rn_session = sid, rn_identity = idt, rn_ws = ws, rn_started = started\<rparr>
             (lw_begun w)\<rparr>)"
| renewed: "rn \<in> lw_begun w \<Longrightarrow> request_ok clock (rn_instance rn) w rq
    \<Longrightarrow> cl_identity c = rn_identity rn \<Longrightarrow> cl_sessionId c = rn_session rn
    \<Longrightarrow> renew kind rq c (lw_store w) = (Some c', store')
    \<Longrightarrow> lease_step kind clock w (w\<lparr>lw_store := store', lw_renewed := insert (rn, c') (lw_renewed w)\<rparr>)"
| not_renewed: "request_ok clock i w rq \<Longrightarrow> renew kind rq c (lw_store w) = (None, store')
    \<Longrightarrow> lease_step kind clock w (w\<lparr>lw_store := store'\<rparr>)"
| finish_renewal: "(rn, c) \<in> lw_renewed w
    \<Longrightarrow> renew_finish (lw_local w (rn_instance rn)) (rn_session rn) (rn_identity rn) (rn_ws rn) (rn_started rn) c = (b, reg')
    \<Longrightarrow> lease_step kind clock w (set_local w (rn_instance rn) reg')"
| expire_forwarding: "expireExactRemoteConnectionForwarding (lw_local w i) sid idt = (b, reg')
    \<Longrightarrow> lease_step kind clock w (set_local w i reg')"
| close: "close_local (lw_local w i) sid idt ws = (b, reg') \<Longrightarrow> lease_step kind clock w (set_local w i reg')"
| expire_opening: "expire_begin (lw_local w i) sid idt = (started, reg')
    \<Longrightarrow> lease_step kind clock w (set_local w i reg')"
| expire_opening_end: "expire_finish (lw_local w i) sid idt a = (b, reg')
    \<Longrightarrow> lease_step kind clock w (set_local w i reg')"
| remove: "removeExactLocalRemoteConnection (lw_local w i) sid idt = (b, reg')
    \<Longrightarrow> lease_step kind clock w (set_local w i reg')"
| begin_close: "request_ok clock i w rq \<Longrightarrow> beginClose kind rq c (lw_store w) = (res, c', store')
    \<Longrightarrow> lease_step kind clock w (w\<lparr>lw_store := store'\<rparr>)"
| release: "request_ok clock i w rq \<Longrightarrow> plain_identity i (cl_identity c)
    \<Longrightarrow> (\<And>a l. current_lease (lw_local w i) (cl_sessionId c) = Some (a, l)
          \<Longrightarrow> ln_identity l = cl_identity c \<Longrightarrow> ln_state l = Closing)
    \<Longrightarrow> (\<And>d. (i, d) \<in> lw_flight w \<Longrightarrow> cl_identity d \<noteq> cl_identity c)
    \<Longrightarrow> Shared_Lease.release kind rq c (lw_store w) = (b, c', store')
    \<Longrightarrow> lease_step kind clock w (w\<lparr>lw_store := store'\<rparr>)"
| write_intent: "writeDesktopFinalizationIntent kind rq c fid payload (lw_store w) = (r, store')
    \<Longrightarrow> rq_at rq = lw_time w \<Longrightarrow> lease_step kind clock w (w\<lparr>lw_store := store'\<rparr>)"
| claim_orphan: "claimDesktopOrphan rq sid fid payload (lw_store w) = (r, store')
    \<Longrightarrow> rq_at rq = lw_time w \<Longrightarrow> lease_step kind clock w (w\<lparr>lw_store := store'\<rparr>)"
| release_intent: "releaseDesktopFinalizationIntent rq sid fid payload (lw_store w) = (b, store')
    \<Longrightarrow> rq_at rq = lw_time w \<Longrightarrow> lease_step kind clock w (w\<lparr>lw_store := store'\<rparr>)"

definition init_registry :: registry where
  "init_registry = \<lparr>rg_sessions = Map.empty, rg_heap = Map.empty, rg_next = 0\<rparr>"

definition init_lease_world :: lease_world where
  "init_lease_world =
     \<lparr>lw_time = 0, lw_store = Map.empty, lw_local = (\<lambda>_. init_registry), lw_flight = {}, lw_begun = {},
      lw_renewed = {}\<rparr>"

text \<open>
  What is asked of the clocks: they are not negative and do not run backwards, and over the lifetime
  of a lease a clock falls behind by at most the safety margin.
\<close>

definition clocks_ok :: "(id \<Rightarrow> int \<Rightarrow> int) \<Rightarrow> bool" where
  "clocks_ok clock =
     (\<forall>i s t. 0 \<le> s \<longrightarrow> s \<le> t \<longrightarrow> 0 \<le> clock i s \<and> clock i s \<le> clock i t
        \<and> clock i s + REMOTE_WS_SHARED_LEASE_TTL_MS - REMOTE_WS_FORWARDING_SAFETY_MARGIN_MS
            \<le> clock i (s + REMOTE_WS_SHARED_LEASE_TTL_MS))"

section \<open>The invariant\<close>

text \<open>
  A deadline of process \<open>i\<close> for a claim is covered: from now on, whenever the process's clock is before
  it, the owner key holds the claim and has not expired.
\<close>

definition covered ::
  "remote_ws_kind \<Rightarrow> (id \<Rightarrow> int \<Rightarrow> int) \<Rightarrow> int \<Rightarrow> redis_store \<Rightarrow> id \<Rightarrow> id \<Rightarrow> string \<Rightarrow> int \<Rightarrow> bool" where
  "covered kind clock now store i sid v deadline =
     ((\<exists>x. store (owner_key kind sid) = Some \<lparr>re_value = v, re_expires = Some x\<rparr>
          \<and> (\<forall>t. now \<le> t \<longrightarrow> 0 \<le> t \<longrightarrow> clock i t < deadline \<longrightarrow> t < x))
      \<or> (\<forall>t. now \<le> t \<longrightarrow> 0 \<le> t \<longrightarrow> \<not> clock i t < deadline))"

section \<open>What the local operations do to leases\<close>

text \<open>
  A registry evolves: every lease that is current afterwards is either new and its identity
  satisfies \<open>P\<close>, or the object that was
  current at that address before, with the same identity and not reopened; its deadline is an old one
  or one that \<open>D\<close> allows.
\<close>

definition evolves ::
  "(connection_identity \<Rightarrow> bool) \<Rightarrow> (id \<Rightarrow> connection_identity \<Rightarrow> int \<Rightarrow> bool) \<Rightarrow> registry \<Rightarrow> registry \<Rightarrow> bool" where
  "evolves P D reg reg' =
     (wf_registry reg' \<and> rg_next reg \<le> rg_next reg'
      \<and> (\<forall>sid a l'. current_lease reg' sid = Some (a, l') \<longrightarrow>
           (ln_state l' \<noteq> Closing \<and> a \<ge> rg_next reg \<and> P (ln_identity l') \<and> D sid (ln_identity l') (ln_deadline l'))
           \<or> (\<exists>l. current_lease reg sid = Some (a, l) \<and> ln_identity l' = ln_identity l
                \<and> (ln_state l' \<noteq> Closing \<longrightarrow> ln_state l \<noteq> Closing
                     \<and> (ln_deadline l' = ln_deadline l \<or> D sid (ln_identity l) (ln_deadline l'))))))"

lemma evolves_refl [simp]: "wf_registry reg \<Longrightarrow> evolves P D reg reg"
  by (auto simp: evolves_def)

lemma evolves_set_lease:
  assumes "wf_registry reg" and "current_lease reg sid = Some (a, l)" and "ln_identity l' = ln_identity l"
    and "ln_state l' \<noteq> Closing \<Longrightarrow> ln_state l \<noteq> Closing"
    and "ln_state l' \<noteq> Closing \<Longrightarrow> ln_deadline l' = ln_deadline l \<or> D sid (ln_identity l) (ln_deadline l')"
  shows "evolves P D reg (set_lease reg a l')"
proof -
  have a: "rg_sessions reg sid = Some a" "rg_heap reg a = Some l" using assms(2) by (simp_all add: current_lease_Some)
  have only: "sid' = sid" if "rg_sessions reg sid' = Some a" for sid'
    using that a(1) assms(1) unfolding wf_registry_def by blast
  have "wf_registry (set_lease reg a l')" using assms(1) a by (auto simp: wf_registry_def)
  moreover have "\<exists>l0. current_lease reg s = Some (b, l0) \<and> ln_identity k = ln_identity l0
                \<and> (ln_state k \<noteq> Closing \<longrightarrow> ln_state l0 \<noteq> Closing
                     \<and> (ln_deadline k = ln_deadline l0 \<or> D s (ln_identity l0) (ln_deadline k)))"
    if k: "current_lease (set_lease reg a l') s = Some (b, k)" for s b k
  proof (cases "b = a")
    case True
    with k only have "s = sid" "k = l'" by (auto simp: current_lease_Some)
    with True assms(2-5) show ?thesis by auto
  next
    case False
    with k have "current_lease reg s = Some (b, k)" by (simp add: current_lease_Some)
    then show ?thesis by auto
  qed
  ultimately show ?thesis by (simp add: evolves_def)
qed

lemma evolves_remove:
  "wf_registry reg \<Longrightarrow> evolves P D reg (reg\<lparr>rg_sessions := (rg_sessions reg)(sid := None)\<rparr>)"
  by (auto simp: evolves_def wf_registry_def current_lease_Some split: if_splits)

lemma evolves_install:
  assumes "wf_registry reg" and "\<And>idt. D sid idt 0"
    and "cl_sessionId c = sid \<Longrightarrow> cl_deadline c = Some d \<Longrightarrow> D sid (cl_identity c) d"
    and "cl_deadline c = Some d" and "P (cl_identity c)"
  shows "evolves P D reg (snd (installLocalRemoteConnection reg sid c build_lease))"
  using assms
  by (fastforce simp: evolves_def wf_registry_def current_lease_Some installLocalRemoteConnection_def
      build_lease_def split: if_splits)

lemma local_evolves:
  assumes "wf_registry reg" and "\<And>sid idt. D sid idt 0"
  shows "evolves P D reg (snd (bindRemoteConnection reg sid idt ws))"
    and "evolves P D reg (snd (renew_begin reg sid idt ows))"
    and "evolves P D reg (snd (expireExactRemoteConnectionForwarding reg sid idt))"
    and "evolves P D reg (snd (close_local reg sid idt ows))"
    and "evolves P D reg (snd (expire_begin reg sid idt))"
    and "evolves P D reg (snd (expire_finish reg sid idt a))"
    and "evolves P D reg (snd (removeExactLocalRemoteConnection reg sid idt))"
  using assms
  by (auto simp: bindRemoteConnection_def renew_begin_def expireExactRemoteConnectionForwarding_def
      close_local_def expire_begin_def expire_finish_def removeExactLocalRemoteConnection_def
      split: option.split intro: evolves_set_lease evolves_remove)

lemma renew_finish_evolves:
  assumes "wf_registry reg"
    and "\<And>l d. current_lease reg sid = Some (fst started, l) \<Longrightarrow> ln_identity l = idt \<Longrightarrow> ln_state l = snd started
           \<Longrightarrow> cl_sessionId c = sid \<Longrightarrow> cl_identity c = idt \<Longrightarrow> cl_deadline c = Some d \<Longrightarrow> D sid idt d"
    and "snd started \<noteq> Closing"
  shows "evolves P D reg (snd (renew_finish reg sid idt ows started c))"
  using assms
  by (auto simp: renew_finish_def split: option.split intro: evolves_set_lease)

section \<open>The invariant is preserved\<close>

definition lease_inv :: "remote_ws_kind \<Rightarrow> (id \<Rightarrow> int \<Rightarrow> int) \<Rightarrow> lease_world \<Rightarrow> bool" where
  "lease_inv kind clock w =
     (owners_expire kind (lw_time w) (lw_store w)
      \<and> (\<forall>i. wf_registry (lw_local w i))
      \<and> (\<forall>i sid a l. current_lease (lw_local w i) sid = Some (a, l) \<longrightarrow>
           plain_identity i (ln_identity l)
           \<and> (ln_state l \<noteq> Closing \<longrightarrow>
                covered kind clock (lw_time w) (lw_store w) i sid (owner_of (ln_identity l)) (ln_deadline l)))
      \<and> (\<forall>i c. (i, c) \<in> lw_flight w \<longrightarrow>
           plain_identity i (cl_identity c)
           \<and> (\<exists>d. cl_deadline c = Some d
                \<and> covered kind clock (lw_time w) (lw_store w) i (cl_sessionId c) (owner_of (cl_identity c)) d))
      \<and> (\<forall>rn. rn \<in> lw_begun w \<longrightarrow>
           plain_identity (rn_instance rn) (rn_identity rn) \<and> snd (rn_started rn) \<noteq> Closing
           \<and> fst (rn_started rn) < rg_next (lw_local w (rn_instance rn)))
      \<and> (\<forall>rn c. (rn, c) \<in> lw_renewed w \<longrightarrow>
           rn \<in> lw_begun w \<and> cl_sessionId c = rn_session rn
           \<and> (\<forall>l d. current_lease (lw_local w (rn_instance rn)) (rn_session rn) = Some (fst (rn_started rn), l)
                \<longrightarrow> ln_identity l = rn_identity rn \<longrightarrow> ln_state l \<noteq> Closing \<longrightarrow> cl_deadline c = Some d
                \<longrightarrow> covered kind clock (lw_time w) (lw_store w) (rn_instance rn) (rn_session rn)
                      (owner_of (rn_identity rn)) d)))"

lemma covered_zero [simp]: "clocks_ok clock \<Longrightarrow> covered kind clock now store i sid v 0"
  by (auto simp: covered_def clocks_ok_def not_less)

lemma covered_later: "covered kind clock now store i sid v d \<Longrightarrow> now \<le> now' \<Longrightarrow> covered kind clock now' store i sid v d"
  unfolding covered_def by (meson order_trans)

lemma covered_kept:
  assumes "covered kind clock now store i sid v d" and "keeps_owner kind now store store' sid"
  shows "covered kind clock now store' i sid v d"
proof (cases "\<forall>t. now \<le> t \<longrightarrow> 0 \<le> t \<longrightarrow> \<not> clock i t < d")
  case True
  then show ?thesis by (simp add: covered_def)
next
  case False
  with assms(1) obtain x where x: "store (owner_key kind sid) = Some \<lparr>re_value = v, re_expires = Some x\<rparr>"
      "\<And>t. now \<le> t \<Longrightarrow> 0 \<le> t \<Longrightarrow> clock i t < d \<Longrightarrow> t < x"
    by (auto simp: covered_def)
  with False have "now < x" by (meson le_less_trans)
  with assms(2) x(1) obtain x' where "x \<le> x'" "store' (owner_key kind sid) = Some \<lparr>re_value = v, re_expires = Some x'\<rparr>"
    unfolding keeps_owner_def by blast
  with x(2) show ?thesis unfolding covered_def by (intro disjI1) (auto intro: less_le_trans)
qed

text \<open>The margin pays for the clock: a deadline computed before the key was written ends before the key.\<close>

lemma covered_written:
  assumes "clocks_ok clock" and "0 \<le> r" "r \<le> now"
    and "store (owner_key kind sid) = Some \<lparr>re_value = v, re_expires = Some (now + REMOTE_WS_SHARED_LEASE_TTL_MS)\<rparr>"
  shows "covered kind clock now store i sid v (forwarding_deadline (clock i r))"
proof -
  have "t < now + REMOTE_WS_SHARED_LEASE_TTL_MS" if "clock i t < forwarding_deadline (clock i r)" for t
  proof (rule ccontr)
    assume "\<not> t < now + REMOTE_WS_SHARED_LEASE_TTL_MS"
    with assms(3) have "r + REMOTE_WS_SHARED_LEASE_TTL_MS \<le> t" by simp
    with assms(1,2) have "clock i (r + REMOTE_WS_SHARED_LEASE_TTL_MS) \<le> clock i t" by (simp add: clocks_ok_def REMOTE_WS_SHARED_LEASE_TTL_MS_def)
    moreover have "forwarding_deadline (clock i r) \<le> clock i (r + REMOTE_WS_SHARED_LEASE_TTL_MS)"
      using assms(1,2) unfolding clocks_ok_def forwarding_deadline_def by blast
    ultimately show False using that by simp
  qed
  with assms(4) show ?thesis by (auto simp: covered_def)
qed

lemma lease_invI:
  assumes "owners_expire kind (lw_time w) (lw_store w)" and "\<And>i. wf_registry (lw_local w i)"
    and "\<And>i sid a l. current_lease (lw_local w i) sid = Some (a, l) \<Longrightarrow> plain_identity i (ln_identity l)"
    and "\<And>i sid a l. current_lease (lw_local w i) sid = Some (a, l) \<Longrightarrow> ln_state l \<noteq> Closing
           \<Longrightarrow> covered kind clock (lw_time w) (lw_store w) i sid (owner_of (ln_identity l)) (ln_deadline l)"
    and "\<And>i c. (i, c) \<in> lw_flight w \<Longrightarrow> plain_identity i (cl_identity c)
           \<and> (\<exists>d. cl_deadline c = Some d
                \<and> covered kind clock (lw_time w) (lw_store w) i (cl_sessionId c) (owner_of (cl_identity c)) d)"
    and "\<And>rn. rn \<in> lw_begun w \<Longrightarrow> plain_identity (rn_instance rn) (rn_identity rn) \<and> snd (rn_started rn) \<noteq> Closing
           \<and> fst (rn_started rn) < rg_next (lw_local w (rn_instance rn))"
    and "\<And>rn c. (rn, c) \<in> lw_renewed w \<Longrightarrow> rn \<in> lw_begun w \<and> cl_sessionId c = rn_session rn"
    and "\<And>rn c l d. (rn, c) \<in> lw_renewed w
           \<Longrightarrow> current_lease (lw_local w (rn_instance rn)) (rn_session rn) = Some (fst (rn_started rn), l)
           \<Longrightarrow> ln_identity l = rn_identity rn \<Longrightarrow> ln_state l \<noteq> Closing \<Longrightarrow> cl_deadline c = Some d
           \<Longrightarrow> covered kind clock (lw_time w) (lw_store w) (rn_instance rn) (rn_session rn) (owner_of (rn_identity rn)) d"
  shows "lease_inv kind clock w"
  unfolding lease_inv_def using assms by auto

lemma lease_invD:
  assumes "lease_inv kind clock w"
  shows "owners_expire kind (lw_time w) (lw_store w)" and "wf_registry (lw_local w i)"
    and "current_lease (lw_local w i) sid = Some (a, l) \<Longrightarrow> plain_identity i (ln_identity l)"
    and "current_lease (lw_local w i) sid = Some (a, l) \<Longrightarrow> ln_state l \<noteq> Closing
           \<Longrightarrow> covered kind clock (lw_time w) (lw_store w) i sid (owner_of (ln_identity l)) (ln_deadline l)"
    and "(i, c) \<in> lw_flight w \<Longrightarrow> plain_identity i (cl_identity c)
           \<and> (\<exists>d. cl_deadline c = Some d
                \<and> covered kind clock (lw_time w) (lw_store w) i (cl_sessionId c) (owner_of (cl_identity c)) d)"
    and "rn \<in> lw_begun w \<Longrightarrow> plain_identity (rn_instance rn) (rn_identity rn) \<and> snd (rn_started rn) \<noteq> Closing
           \<and> fst (rn_started rn) < rg_next (lw_local w (rn_instance rn))"
    and "(rn, c) \<in> lw_renewed w \<Longrightarrow> rn \<in> lw_begun w \<and> cl_sessionId c = rn_session rn"
    and "(rn, c) \<in> lw_renewed w
           \<Longrightarrow> current_lease (lw_local w (rn_instance rn)) (rn_session rn) = Some (fst (rn_started rn), l)
           \<Longrightarrow> ln_identity l = rn_identity rn \<Longrightarrow> ln_state l \<noteq> Closing \<Longrightarrow> cl_deadline c = Some d
           \<Longrightarrow> covered kind clock (lw_time w) (lw_store w) (rn_instance rn) (rn_session rn) (owner_of (rn_identity rn)) d"
  using assms unfolding lease_inv_def by simp_all

lemma inv_store_keeps:
  assumes inv: "lease_inv kind clock w" and ex: "owners_expire kind (lw_time w) store'"
    and L: "\<And>i sid a l. current_lease (lw_local w i) sid = Some (a, l) \<Longrightarrow> ln_state l \<noteq> Closing
        \<Longrightarrow> covered kind clock (lw_time w) store' i sid (owner_of (ln_identity l)) (ln_deadline l)"
    and F: "\<And>i c d. (i, c) \<in> lw_flight w \<Longrightarrow> cl_deadline c = Some d
        \<Longrightarrow> covered kind clock (lw_time w) store' i (cl_sessionId c) (owner_of (cl_identity c)) d"
    and N: "\<And>rn c l d. (rn, c) \<in> lw_renewed w
           \<Longrightarrow> current_lease (lw_local w (rn_instance rn)) (rn_session rn) = Some (fst (rn_started rn), l)
           \<Longrightarrow> ln_identity l = rn_identity rn \<Longrightarrow> ln_state l \<noteq> Closing \<Longrightarrow> cl_deadline c = Some d
           \<Longrightarrow> covered kind clock (lw_time w) store' (rn_instance rn) (rn_session rn) (owner_of (rn_identity rn)) d"
  shows "lease_inv kind clock (w\<lparr>lw_store := store'\<rparr>)"
proof (rule lease_invI, goal_cases)
  case (5 i c)
  then show ?case using lease_invD(5) [OF inv, of i c] F [of i c] by auto
qed (use lease_invD [OF inv] ex L N in auto)

lemma inv_store:
  assumes inv: "lease_inv kind clock w" and safe: "owner_safe kind (lw_time w) (lw_store w) store'"
  shows "lease_inv kind clock (w\<lparr>lw_store := store'\<rparr>)"
proof -
  have keep: "covered kind clock (lw_time w) (lw_store w) i sid v d \<Longrightarrow> covered kind clock (lw_time w) store' i sid v d"
    for i sid v d using covered_kept safe by (auto simp: owner_safe_def)
  show ?thesis
  proof (rule inv_store_keeps [OF inv])
    show "owners_expire kind (lw_time w) store'" using safe lease_invD(1) [OF inv] by (simp add: owner_safe_def)
    show "covered kind clock (lw_time w) store' i (cl_sessionId c) (owner_of (cl_identity c)) d"
      if "(i, c) \<in> lw_flight w" "cl_deadline c = Some d" for i c d
      using lease_invD(5) [OF inv that(1)] that(2) keep by auto
  qed (use lease_invD(4,8) [OF inv] keep in blast)+
qed

lemma inv_tick:
  assumes inv: "lease_inv kind clock w" and "lw_time w \<le> t"
  shows "lease_inv kind clock (w\<lparr>lw_time := t\<rparr>)"
proof -
  note later = covered_later [OF _ assms(2)]
  have "owners_expire kind t (lw_store w)"
    using lease_invD(1) [OF inv] assms(2) by (fastforce simp: owners_expire_def)
  then show ?thesis
  proof (intro lease_invI, goal_cases)
    case (5 i c)
    then show ?case using lease_invD(5) [OF inv, of i c] later by auto
  qed (use lease_invD [OF inv] later in auto)
qed

lemma inv_local:
  assumes inv: "lease_inv kind clock w"
    and ev: "evolves (plain_identity i) (\<lambda>sid idt. covered kind clock (lw_time w) (lw_store w) i sid (owner_of idt))
               (lw_local w i) reg'"
  shows "lease_inv kind clock (set_local w i reg')"
proof -
  have old: "\<exists>l0. current_lease (lw_local w i) sid = Some (a, l0) \<and> ln_identity l = ln_identity l0
      \<and> (ln_state l \<noteq> Closing \<longrightarrow> ln_state l0 \<noteq> Closing)"
    if "current_lease reg' sid = Some (a, l)" "a < rg_next (lw_local w i)" for sid a l
    using ev that unfolding evolves_def by (meson not_le)
  have plain: "plain_identity i (ln_identity l)" if "current_lease reg' sid = Some (a, l)" for sid a l
    using ev that lease_invD(3) [OF inv] unfolding evolves_def by metis
  have cov: "covered kind clock (lw_time w) (lw_store w) i sid (owner_of (ln_identity l)) (ln_deadline l)"
    if "current_lease reg' sid = Some (a, l)" "ln_state l \<noteq> Closing" for sid a l
    using ev that lease_invD(4) [OF inv] unfolding evolves_def by metis
  have wf: "wf_registry reg'" "rg_next (lw_local w i) \<le> rg_next reg'" using ev by (simp_all add: evolves_def)
  show ?thesis
  proof (rule lease_invI, goal_cases)
    case (6 rn)
    then show ?case using lease_invD(6) [OF inv, of rn] wf(2) by (auto simp: set_local_def)
  next
    case (8 rn c l d)
    then have "rn \<in> lw_begun w" using lease_invD(7) [OF inv, of rn c] by (simp add: set_local_def)
    then have "fst (rn_started rn) < rg_next (lw_local w (rn_instance rn))" using lease_invD(6) [OF inv] by blast
    with 8 old [of "rn_session rn" "fst (rn_started rn)" l] show ?case
      using lease_invD(8) [OF inv, of rn c] by (cases "rn_instance rn = i") (auto simp: set_local_def)
  qed (use lease_invD [OF inv] plain cov wf in \<open>auto simp: set_local_def split: if_splits\<close>)
qed

lemma inv_flight_diff: "lease_inv kind clock w \<Longrightarrow> lease_inv kind clock (w\<lparr>lw_flight := lw_flight w - S\<rparr>)"
  unfolding lease_inv_def by auto

lemma inv_flight_insert:
  "lease_inv kind clock w \<Longrightarrow> plain_identity i (cl_identity c) \<Longrightarrow> cl_deadline c = Some d
     \<Longrightarrow> covered kind clock (lw_time w) (lw_store w) i (cl_sessionId c) (owner_of (cl_identity c)) d
     \<Longrightarrow> lease_inv kind clock (w\<lparr>lw_flight := insert (i, c) (lw_flight w)\<rparr>)"
  unfolding lease_inv_def by auto

lemma inv_begun_insert:
  "lease_inv kind clock w \<Longrightarrow> plain_identity (rn_instance rn) (rn_identity rn) \<Longrightarrow> snd (rn_started rn) \<noteq> Closing
     \<Longrightarrow> fst (rn_started rn) < rg_next (lw_local w (rn_instance rn))
     \<Longrightarrow> lease_inv kind clock (w\<lparr>lw_begun := insert rn (lw_begun w)\<rparr>)"
  unfolding lease_inv_def by auto

lemma inv_renewed_insert:
  "lease_inv kind clock w \<Longrightarrow> rn \<in> lw_begun w \<Longrightarrow> cl_sessionId c = rn_session rn \<Longrightarrow> cl_deadline c = Some d
     \<Longrightarrow> covered kind clock (lw_time w) (lw_store w) (rn_instance rn) (rn_session rn) (owner_of (rn_identity rn)) d
     \<Longrightarrow> lease_inv kind clock (w\<lparr>lw_renewed := insert (rn, c) (lw_renewed w)\<rparr>)"
  unfolding lease_inv_def by auto

lemma covered_release:
  assumes "covered kind clock now store i sid v d" and "sid \<noteq> cl_sessionId c \<or> v \<noteq> cl_ownerValue c"
    and "st = store \<or> st = snd (script_release (owner_key kind (cl_sessionId c)) (cl_ownerValue c) store now)"
  shows "covered kind clock now st i sid v d"
proof (cases "\<exists>e. store (owner_key kind sid) = Some e \<and> re_value e = v")
  case True
  then have "keeps_owner kind now store (snd (script_release (owner_key kind (cl_sessionId c)) (cl_ownerValue c) store now)) sid"
    using assms(2) by (intro release_keeps) auto
  then have "keeps_owner kind now store st sid" using assms(3) by auto
  with assms(1) show ?thesis by (rule covered_kept)
next
  case False
  with assms(1) show ?thesis by (auto simp: covered_def)
qed

lemma inv_release:
  assumes inv: "lease_inv kind clock w" and at: "rq_at rq = lw_time w" and pl: "plain_identity i (cl_identity c)"
    and closed: "\<And>a l. current_lease (lw_local w i) (cl_sessionId c) = Some (a, l) \<Longrightarrow> ln_identity l = cl_identity c
                   \<Longrightarrow> ln_state l = Closing"
    and landed: "\<And>d. (i, d) \<in> lw_flight w \<Longrightarrow> cl_identity d \<noteq> cl_identity c"
    and rel: "Shared_Lease.release kind rq c (lw_store w) = (b, c', store')"
  shows "lease_inv kind clock (w\<lparr>lw_store := store'\<rparr>)"
proof (cases "store' = lw_store w")
  case True
  with inv show ?thesis by simp
next
  case False
  have st: "store' = lw_store w
      \<or> store' = snd (script_release (owner_key kind (cl_sessionId c)) (cl_ownerValue c) (lw_store w) (lw_time w))"
    using release_store(1) [of kind rq c "lw_store w"] rel at by simp
  have v: "cl_ownerValue c = owner_of (cl_identity c)"
    using release_store(2) [of kind rq c "lw_store w"] rel False by (simp add: hasCanonicalOwnerValue_def owner_of_def)
  have keep: "covered kind clock (lw_time w) store' j sid (owner_of idt) d"
    if "covered kind clock (lw_time w) (lw_store w) j sid (owner_of idt) d" "plain_identity j idt"
      "j = i \<Longrightarrow> sid = cl_sessionId c \<Longrightarrow> idt \<noteq> cl_identity c" for j sid idt d
    using that(1) by (rule covered_release [OF _ _ st]) (use owner_of_inj [OF that(2) pl] that(3) v in metis)
  show ?thesis
  proof (rule inv_store_keeps [OF inv])
    show "owners_expire kind (lw_time w) store'" using st lease_invD(1) [OF inv] release_expire by auto
    show "covered kind clock (lw_time w) store' j sid (owner_of (ln_identity l)) (ln_deadline l)"
      if l: "current_lease (lw_local w j) sid = Some (a, l)" "ln_state l \<noteq> Closing" for j sid a l
      by (rule keep [OF lease_invD(4) [OF inv l] lease_invD(3) [OF inv l(1)]]) (use closed l in blast)
    show "covered kind clock (lw_time w) store' j (cl_sessionId e) (owner_of (cl_identity e)) x"
      if e: "(j, e) \<in> lw_flight w" "cl_deadline e = Some x" for j e x
      using lease_invD(5) [OF inv e(1)] e landed by (intro keep) auto
    show "covered kind clock (lw_time w) store' (rn_instance rn) (rn_session rn) (owner_of (rn_identity rn)) d"
      if rn: "(rn, e) \<in> lw_renewed w"
        and l: "current_lease (lw_local w (rn_instance rn)) (rn_session rn) = Some (fst (rn_started rn), l)"
          "ln_identity l = rn_identity rn" "ln_state l \<noteq> Closing" "cl_deadline e = Some d" for rn e l d
      by (rule keep [OF lease_invD(8) [OF inv rn l]]) (use lease_invD(3) [OF inv l(1)] l closed in auto)
  qed
qed

lemma lease_inv_init: "lease_inv kind clock init_lease_world"
  by (auto simp: lease_inv_def init_lease_world_def init_registry_def owners_expire_def wf_registry_def current_lease_def)

lemma renew_begin_Some:
  assumes "renew_begin reg sid idt ws = (Some started, reg')"
  shows "\<exists>l. current_lease reg sid = Some (fst started, l) \<and> ln_identity l = idt" and "snd started \<noteq> Closing"
    and "rg_next reg' = rg_next reg"
  using assms by (auto simp: renew_begin_def split: option.splits if_splits)

lemma inv_local_of:
  assumes "clocks_ok clock" and "lease_inv kind clock w"
    and "\<And>D. wf_registry (lw_local w i) \<Longrightarrow> (\<And>sid idt. D sid idt 0) \<Longrightarrow> evolves (plain_identity i) D (lw_local w i) reg'"
  shows "lease_inv kind clock (set_local w i reg')"
  using assms(1) lease_invD(2) [OF assms(2)] by (intro inv_local [OF assms(2)] assms(3)) auto

lemma inv_acquired:
  assumes "clocks_ok clock" and inv: "lease_inv kind clock w" and rq: "request_ok clock i w rq"
    and plain: "plain_id i" "plain_id conn" "plain_id token"
    and acq: "acquire i kind rq conn token sid (lw_store w) = (Acquired c, store')"
  shows "lease_inv kind clock (w\<lparr>lw_store := store', lw_flight := insert (i, c) (lw_flight w)\<rparr>)"
proof -
  obtain r where r: "rq_at rq = lw_time w" "0 \<le> r" "r \<le> lw_time w" "rq_start rq = clock i r"
    using rq by (auto simp: request_ok_def)
  obtain g where g: "c = acquired_claim i sid conn token g (rq_start rq)"
      "store' (owner_key kind sid)
         = Some \<lparr>re_value = cl_ownerValue c, re_expires = Some (rq_at rq + REMOTE_WS_SHARED_LEASE_TTL_MS)\<rparr>"
    using acquire_Acquired [OF acq plain] by blast
  have c: "plain_identity i (cl_identity c)" "cl_deadline c = Some (forwarding_deadline (clock i r))"
      "cl_sessionId c = sid" "cl_ownerValue c = owner_of (cl_identity c)"
    using g(1) plain r(4) by (simp_all add: acquired_claim_def plain_identity_def owner_of_def)
  have "lease_inv kind clock (w\<lparr>lw_store := store'\<rparr>)"
    using acquire_safe [OF lease_invD(1) [OF inv, folded r(1)], of i conn token sid] acq r(1) by (intro inv_store [OF inv]) simp
  from inv_flight_insert [OF this c(1,2)] show ?thesis
    using covered_written [OF assms(1) r(2,3), of store' kind sid "cl_ownerValue c" i] g(2) r(1) c(3,4) by simp
qed

lemma inv_renewed:
  assumes "clocks_ok clock" and inv: "lease_inv kind clock w" and rq: "request_ok clock (rn_instance rn) w rq"
    and rn: "rn \<in> lw_begun w" "cl_identity c = rn_identity rn" "cl_sessionId c = rn_session rn"
    and ren: "renew kind rq c (lw_store w) = (Some c', store')"
  shows "lease_inv kind clock (w\<lparr>lw_store := store', lw_renewed := insert (rn, c') (lw_renewed w)\<rparr>)"
proof -
  obtain r where r: "rq_at rq = lw_time w" "0 \<le> r" "r \<le> lw_time w" "rq_start rq = clock (rn_instance rn) r"
    using rq by (auto simp: request_ok_def)
  note ex = lease_invD(1) [OF inv, folded r(1)]
  note c = renew_Some [OF ren ex]
  have "lease_inv kind clock (w\<lparr>lw_store := store'\<rparr>)"
    using renew_safe [OF ex, of c] ren r(1) by (intro inv_store [OF inv]) simp
  from inv_renewed_insert [OF this, of rn c'] show ?thesis
    using covered_written [OF assms(1) r(2,3), of store' kind "rn_session rn" "cl_ownerValue c" "rn_instance rn"] c r rn
    by (simp add: hasCanonicalOwnerValue_def owner_of_def)
qed

lemma inv_install:
  assumes "clocks_ok clock" and inv: "lease_inv kind clock w" and c: "(i, c) \<in> lw_flight w"
  shows "lease_inv kind clock (set_local w i (snd (installLocalRemoteConnection (lw_local w i) sid c build_lease)))"
  using lease_invD(5) [OF inv c] assms(1) lease_invD(2) [OF inv, of i]
  by (auto intro!: inv_local [OF inv] evolves_install)

lemma inv_finish_renewal:
  assumes inv: "lease_inv kind clock w" and rn: "(rn, c) \<in> lw_renewed w"
  shows "lease_inv kind clock (set_local w (rn_instance rn)
           (snd (renew_finish (lw_local w (rn_instance rn)) (rn_session rn) (rn_identity rn) (rn_ws rn) (rn_started rn) c)))"
  using lease_invD(8) [OF inv rn] lease_invD(6) [OF inv, of rn] lease_invD(7) [OF inv rn] lease_invD(2) [OF inv]
  by (intro inv_local [OF inv] renew_finish_evolves) auto

lemma inv_begin_renewal:
  assumes "clocks_ok clock" and inv: "lease_inv kind clock w"
    and rb: "renew_begin (lw_local w i) sid idt ws = (Some started, reg')"
  shows "lease_inv kind clock ((set_local w i reg')
           \<lparr>lw_begun := insert \<lparr>rn_instance = i, rn_session = sid, rn_identity = idt, rn_ws = ws, rn_started = started\<rparr>
              (lw_begun w)\<rparr>)"
proof -
  obtain l where l: "current_lease (lw_local w i) sid = Some (fst started, l)" "ln_identity l = idt"
    using renew_begin_Some(1) [OF rb] by blast
  have "fst started < rg_next reg'"
    using l(1) lease_invD(2) [OF inv, of i] renew_begin_Some(3) [OF rb] by (auto simp: wf_registry_def current_lease_Some)
  moreover have "lease_inv kind clock (set_local w i reg')"
    using local_evolves(2) [of "lw_local w i" _ _ sid idt ws] rb by (intro inv_local_of [OF assms(1) inv]) simp
  ultimately show ?thesis
    using inv_begun_insert [of kind clock "set_local w i reg'"
        "\<lparr>rn_instance = i, rn_session = sid, rn_identity = idt, rn_ws = ws, rn_started = started\<rparr>"]
      lease_invD(3) [OF inv l(1)] l(2) renew_begin_Some(2) [OF rb]
    by (simp add: set_local_def)
qed

lemma inv_local_snd:
  assumes "clocks_ok clock" and "lease_inv kind clock w" and "p = (b, reg')"
    and "\<And>D. wf_registry (lw_local w i) \<Longrightarrow> (\<And>sid idt. D sid idt 0) \<Longrightarrow> evolves (plain_identity i) D (lw_local w i) (snd p)"
  shows "lease_inv kind clock (set_local w i reg')"
  using assms(3,4) by (intro inv_local_of [OF assms(1,2)]) simp

lemma inv_store_snd:
  assumes "lease_inv kind clock w" and "rq_at rq = lw_time w" and "q = (b, store')"
    and "owners_expire kind (rq_at rq) (lw_store w) \<Longrightarrow> owner_safe kind (rq_at rq) (lw_store w) (snd q)"
  shows "lease_inv kind clock (w\<lparr>lw_store := store'\<rparr>)"
  using assms(2-4) lease_invD(1) [OF assms(1)] by (intro inv_store [OF assms(1)]) simp

lemma lease_step_inv:
  assumes ok: "clocks_ok clock" and "lease_step kind clock w w'" and inv: "lease_inv kind clock w"
  shows "lease_inv kind clock w'"
  using assms(2)
proof cases
  case (tick t)
  with inv show ?thesis by (simp add: inv_tick)
next
  case (acquired i rq conn token sid c store')
  with ok inv show ?thesis by (simp add: inv_acquired)
next
  case (not_acquired i rq conn token sid reason store')
  then show ?thesis using inv_store_snd [OF inv _ not_acquired(3) acquire_safe] by (simp add: request_ok_def)
next
  case (install i c sid res reg')
  with inv_flight_diff [OF inv_install [OF ok inv install(2), of sid], of "{(i, c)}"]
  show ?thesis by (simp add: set_local_def)
next
  case (drop_claim i c)
  with inv show ?thesis by (simp add: inv_flight_diff)
next
  case (bind i sid idt ws b reg')
  then show ?thesis using inv_local_snd [OF ok inv bind(2) local_evolves(1)] by simp
next
  case (begin_renewal i sid idt ws started reg')
  with ok inv show ?thesis by (simp add: inv_begin_renewal)
next
  case (renewed rn rq c c' store')
  with ok inv show ?thesis by (simp add: inv_renewed)
next
  case (not_renewed i rq c store')
  then show ?thesis using inv_store_snd [OF inv _ not_renewed(3) renew_safe] by (simp add: request_ok_def)
next
  case (finish_renewal rn c b reg')
  with inv_finish_renewal [OF inv finish_renewal(2)] show ?thesis by simp
next
  case (expire_forwarding i sid idt b reg')
  then show ?thesis using inv_local_snd [OF ok inv expire_forwarding(2) local_evolves(3)] by simp
next
  case (close i sid idt ws b reg')
  then show ?thesis using inv_local_snd [OF ok inv close(2) local_evolves(4)] by simp
next
  case (expire_opening i sid idt started reg')
  then show ?thesis using inv_local_snd [OF ok inv expire_opening(2) local_evolves(5)] by simp
next
  case (expire_opening_end i sid idt a b reg')
  then show ?thesis using inv_local_snd [OF ok inv expire_opening_end(2) local_evolves(6)] by simp
next
  case (remove i sid idt b reg')
  then show ?thesis using inv_local_snd [OF ok inv remove(2) local_evolves(7)] by simp
next
  case (begin_close i rq c res c' store')
  then show ?thesis using inv_store [OF inv, of store'] beginClose_safe [of kind rq "lw_store w" c] lease_invD(1) [OF inv]
    by (simp add: request_ok_def)
next
  case (release i rq c b c' store')
  with inv_release [OF inv _ release(3,4,5,6)] show ?thesis by (simp add: request_ok_def)
next
  case (write_intent rq c fid payload r store')
  then show ?thesis using inv_store_snd [OF inv _ write_intent(2) intents_safe(1)] by simp
next
  case (claim_orphan rq sid fid payload r store')
  then show ?thesis using inv_store_snd [OF inv _ claim_orphan(2) intents_safe(2)] by simp
next
  case (release_intent rq sid fid payload b store')
  then show ?thesis using inv_store_snd [OF inv _ release_intent(2) intents_safe(3)] by simp
qed

lemma lease_step_time: "lease_step kind clock w w' \<Longrightarrow> lw_time w \<le> lw_time w'"
  by (induction rule: lease_step.induct) (simp_all add: set_local_def)

lemma lease_inv_reachable:
  assumes "clocks_ok clock" and "(lease_step kind clock)\<^sup>*\<^sup>* init_lease_world w"
  shows "lease_inv kind clock w \<and> 0 \<le> lw_time w"
  using assms(2)
proof (induction rule: rtranclp_induct)
  case base
  then show ?case by (simp add: lease_inv_init) (simp add: init_lease_world_def)
next
  case (step w w')
  then show ?case using lease_step_inv [OF assms(1)] lease_step_time [of kind clock w w'] by auto
qed

text \<open>While a process may forward, the owner key names its connection.\<close>

lemma owner_while_forwarding:
  assumes "lease_inv kind clock w" and "0 \<le> lw_time w"
    and "ownsSafeRemoteConnection (lw_local w i) sid idt ws (clock i (lw_time w))"
  shows "rget (lw_store w) (lw_time w) (owner_key kind sid) = Some (owner_of idt)" and "plain_identity i idt"
proof -
  obtain a l where l: "current_lease (lw_local w i) sid = Some (a, l)" "ln_state l = Active" "ln_identity l = idt"
      "clock i (lw_time w) < ln_deadline l"
    using assms(3) by (auto simp: ownsSafeRemoteConnection_def split: option.splits)
  have "covered kind clock (lw_time w) (lw_store w) i sid (owner_of idt) (ln_deadline l)"
    using lease_invD(4) [OF assms(1) l(1)] l by simp
  with l(4) assms(2) show "rget (lw_store w) (lw_time w) (owner_key kind sid) = Some (owner_of idt)"
    by (auto simp: covered_def rget_def)
  show "plain_identity i idt" using lease_invD(3) [OF assms(1) l(1)] l(3) by simp
qed

section \<open>Properties\<close>

text \<open>C14: however requests of API processes interleave, fail or are answered late, at any moment at
  most one process passes the forwarding check for a session, and there for one connection and one
  socket, provided no process's clock falls more than the safety margin behind during a lease's
  lifetime; and while it passes, the Redis owner key holds that connection's identity.\<close>

theorem one_forwarder:
  assumes "clocks_ok clock" and "(lease_step kind clock)\<^sup>*\<^sup>* init_lease_world w"
    and "ownsSafeRemoteConnection (lw_local w i) sid idt ws (clock i (lw_time w))"
  shows "rget (lw_store w) (lw_time w) (owner_key kind sid) = Some (owner_of idt) \<and> ci_instanceId idt = i
    \<and> (\<forall>j idt' ws'. ownsSafeRemoteConnection (lw_local w j) sid idt' ws' (clock j (lw_time w))
          \<longrightarrow> j = i \<and> idt' = idt \<and> ws' = ws)"
proof -
  from lease_inv_reachable [OF assms(1,2)] have inv: "lease_inv kind clock w" "0 \<le> lw_time w" by simp_all
  note mine = owner_while_forwarding [OF inv assms(3)]
  have "j = i \<and> idt' = idt \<and> ws' = ws"
    if o': "ownsSafeRemoteConnection (lw_local w j) sid idt' ws' (clock j (lw_time w))" for j idt' ws'
  proof -
    have "i = j \<and> idt = idt'"
      using owner_while_forwarding [OF inv o'] mine by (intro owner_of_inj) auto
    with o' assms(3) show ?thesis by (auto simp: ownsSafeRemoteConnection_def split: option.splits)
  qed
  with mine show ?thesis by (auto simp: plain_identity_def)
qed

text \<open>A session acquired, installed and bound by process p.\<close>

definition demo_request :: request where
  "demo_request = \<lparr>rq_topology = None, rq_start = 0, rq_at = 0, rq_reply = 3, rq_outcome = Executed\<rparr>"

definition demo_claim :: shared_claim where
  "demo_claim = acquired_claim ''p'' ''s'' ''c'' ''t'' 1 0"

lemma demo_acquire:
  "acquire ''p'' Terminal demo_request ''c'' ''t'' ''s'' Map.empty
     = (Acquired demo_claim, snd (acquire ''p'' Terminal demo_request ''c'' ''t'' ''s'' Map.empty))"
proof -
  have "fst (acquire ''p'' Terminal demo_request ''c'' ''t'' ''s'' Map.empty) = Acquired demo_claim"
    by code_simp
  then show ?thesis by (simp add: prod_eq_iff)
qed

lemma demo_clocks: "clocks_ok (\<lambda>_ t. t)"
  by (simp add: clocks_ok_def REMOTE_WS_SHARED_LEASE_TTL_MS_def REMOTE_WS_FORWARDING_SAFETY_MARGIN_MS_def)

lemma demo_reachable:
  "\<exists>w. (lease_step Terminal (\<lambda>_ t. t))\<^sup>*\<^sup>* init_lease_world w \<and> lw_time w = 0
     \<and> ownsSafeRemoteConnection (lw_local w ''p'') ''s'' (cl_identity demo_claim) 7 0"
proof -
  let ?step = "lease_step Terminal (\<lambda>_ t. t)"
  let ?w1 = "init_lease_world\<lparr>lw_store := snd (acquire ''p'' Terminal demo_request ''c'' ''t'' ''s'' Map.empty),
               lw_flight := {(''p'', demo_claim)}\<rparr>"
  let ?reg2 = "snd (installLocalRemoteConnection init_registry ''s'' demo_claim build_lease)"
  let ?w2 = "(set_local ?w1 ''p'' ?reg2)\<lparr>lw_flight := {}\<rparr>"
  let ?reg3 = "snd (bindRemoteConnection ?reg2 ''s'' (cl_identity demo_claim) 7)"
  let ?w3 = "set_local ?w2 ''p'' ?reg3"
  have init: "lw_store init_lease_world = Map.empty" "lw_flight init_lease_world = {}" "lw_time init_lease_world = 0"
      "lw_local init_lease_world ''p'' = init_registry"
    by (simp_all add: init_lease_world_def)
  have "?step init_lease_world ?w1"
    using lease_step.acquired [of "\<lambda>_ t. t" "''p''" init_lease_world demo_request "''c''" "''t''" Terminal "''s''" demo_claim]
      demo_acquire init by (simp add: request_ok_def demo_request_def plain_id_def)
  moreover have "?step ?w1 ?w2"
    using lease_step.install [of "''p''" demo_claim ?w1 "''s''"] init by (simp add: set_local_def prod_eq_iff)
  moreover have "?step ?w2 ?w3"
    using lease_step.bind [of ?w2 "''p''" "''s''" "cl_identity demo_claim" 7] by (simp add: set_local_def prod_eq_iff)
  moreover have "ownsSafeRemoteConnection ?reg3 ''s'' (cl_identity demo_claim) 7 0" by code_simp
  then have "lw_time ?w3 = 0 \<and> ownsSafeRemoteConnection (lw_local ?w3 ''p'') ''s'' (cl_identity demo_claim) 7 0"
    using init by (simp add: set_local_def)
  ultimately show ?thesis by (meson converse_rtranclp_into_rtranclp rtranclp.rtrancl_refl)
qed

theorem one_forwarder_witness:
  "\<exists>w. (lease_step Terminal (\<lambda>_ t. t))\<^sup>*\<^sup>* init_lease_world w
     \<and> ownsSafeRemoteConnection (lw_local w ''p'') ''s'' (cl_identity demo_claim) 7 (lw_time w)
     \<and> rget (lw_store w) (lw_time w) (owner_key Terminal ''s'') = Some (owner_of (cl_identity demo_claim))
     \<and> \<not> ownsSafeRemoteConnection (lw_local w ''q'') ''s'' (cl_identity demo_claim) 7 (lw_time w)"
proof -
  obtain w where w: "(lease_step Terminal (\<lambda>_ t. t))\<^sup>*\<^sup>* init_lease_world w"
      "ownsSafeRemoteConnection (lw_local w ''p'') ''s'' (cl_identity demo_claim) 7 (lw_time w)"
    using demo_reachable by auto
  have "(''q'' :: string) \<noteq> ''p''" by simp
  then have "\<not> ownsSafeRemoteConnection (lw_local w ''q'') ''s'' (cl_identity demo_claim) 7 (lw_time w)"
    using one_forwarder [OF demo_clocks w] by blast
  with one_forwarder [OF demo_clocks w] w show ?thesis by blast
qed

end
