(* ===== verification/Desktop_Fence.thy ===== *)
theory Desktop_Fence
  imports Remote_Lease
begin

text \<open>
  The finalization fence of desktop sessions, kept by the desktop scripts of
  apps/api/src/services/remoteWsSharedLease.ts: while a finalization intent is stored, no connection
  acquires the session, and only the release of that very intent removes it. The operations of the
  lease managers of all API processes and all session kinds are run as one sequence.
\<close>

section \<open>Sequences of manager operations\<close>

datatype manager_op =
    OpAcquire id remote_ws_kind request id id id
  | OpRenew remote_ws_kind request shared_claim
  | OpBeginClose remote_ws_kind request shared_claim
  | OpRelease remote_ws_kind request shared_claim
  | OpWriteIntent remote_ws_kind request shared_claim string string
  | OpClaimOrphan request id string string
  | OpReleaseIntent request id string string
  | OpObserve request id

fun run_manager_op :: "manager_op \<Rightarrow> redis_store \<Rightarrow> redis_store" where
  "run_manager_op (OpAcquire i kind rq conn token sid) store = snd (acquire i kind rq conn token sid store)"
| "run_manager_op (OpRenew kind rq c) store = snd (renew kind rq c store)"
| "run_manager_op (OpBeginClose kind rq c) store = snd (snd (beginClose kind rq c store))"
| "run_manager_op (OpRelease kind rq c) store = snd (snd (release kind rq c store))"
| "run_manager_op (OpWriteIntent kind rq c fid payload) store
     = snd (writeDesktopFinalizationIntent kind rq c fid payload store)"
| "run_manager_op (OpClaimOrphan rq sid fid payload) store = snd (claimDesktopOrphan rq sid fid payload store)"
| "run_manager_op (OpReleaseIntent rq sid fid payload) store
     = snd (releaseDesktopFinalizationIntent rq sid fid payload store)"
| "run_manager_op (OpObserve rq sid) store = snd (observeDesktopFinalization rq sid store)"

fun releases_intent :: "id \<Rightarrow> string \<Rightarrow> string \<Rightarrow> manager_op \<Rightarrow> bool" where
  "releases_intent sid fid payload (OpReleaseIntent rq sid' fid' payload') = (sid' = sid \<and> fid' = fid \<and> payload' = payload)"
| "releases_intent sid fid payload _ = False"

definition fence_key :: "id \<Rightarrow> string" where
  "fence_key sid = key_base Desktop sid @ '':finalizing''"

definition payload_key :: "id \<Rightarrow> string" where
  "payload_key sid = key_base Desktop sid @ '':finalization-payload''"

definition fenced :: "id \<Rightarrow> string \<Rightarrow> string \<Rightarrow> redis_store \<Rightarrow> bool" where
  "fenced sid fid payload store =
     (store (fence_key sid) = Some \<lparr>re_value = fid, re_expires = None\<rparr>
      \<and> store (payload_key sid) = Some \<lparr>re_value = payload, re_expires = None\<rparr>)"

section \<open>Lemmas\<close>

lemma desktop_keys_fence: "desktop_keys sid = (owner_key Desktop sid, fence_key sid, payload_key sid)"
  by (simp add: desktop_keys_def owner_key_def getRemoteWsRedisKeys_def fence_key_def payload_key_def)

lemma fence_keys_inj [simp]:
  "fence_key s = fence_key t \<longleftrightarrow> s = t" "payload_key s = payload_key t \<longleftrightarrow> s = t"
  "fence_key s \<noteq> payload_key t" "payload_key s \<noteq> fence_key t"
  unfolding fence_key_def payload_key_def by (simp_all add: suffix_neq)

lemma fence_keys_other [simp]:
  "fence_key s \<noteq> owner_key kind t" "payload_key s \<noteq> owner_key kind t"
  "fence_key s \<noteq> rk_generation (getRemoteWsRedisKeys kind t)"
  "payload_key s \<noteq> rk_generation (getRemoteWsRedisKeys kind t)"
  unfolding fence_key_def payload_key_def owner_key_def getRemoteWsRedisKeys_def redis_keys.simps
  by (rule suffix_neq; simp)+

lemma fenced_same:
  "fenced sid fid payload store \<Longrightarrow> store' (fence_key sid) = store (fence_key sid)
     \<Longrightarrow> store' (payload_key sid) = store (payload_key sid) \<Longrightarrow> fenced sid fid payload store'"
  by (simp add: fenced_def)

lemma fenced_rget:
  assumes "fenced sid fid payload store"
  shows "rget store at (fence_key sid) = Some fid" "rget store at (payload_key sid) = Some payload"
  using assms by (simp_all add: fenced_def rget_def)

lemma rincr_other: "rincr store at k = Some (g, store') \<Longrightarrow> k' \<noteq> k \<Longrightarrow> store' k' = store k'"
  by (auto simp: rincr_def split: option.splits)

lemma fenced_acquire_script:
  assumes "fenced sid fid payload store"
  shows "fenced sid fid payload (snd (script_acquire (getRemoteWsRedisKeys kind s) template ttl store at))"
proof -
  obtain r store' where eq: "script_acquire (getRemoteWsRedisKeys kind s) template ttl store at = (r, store')"
    by fastforce
  then show ?thesis
  proof (cases rule: script_acquire_cases)
    case (acquired g st)
    note keep = rincr_other [OF acquired(2)]
    show ?thesis
      unfolding eq acquired(4) using assms keep [of "fence_key sid"] keep [of "payload_key sid"]
      by (auto intro!: fenced_same [OF assms])
  qed (simp add: eq assms)
qed

lemma fenced_owner_scripts:
  assumes "fenced sid fid payload store"
  shows "fenced sid fid payload (snd (script_renew (owner_key kind s) v ttl store at))"
    and "fenced sid fid payload (snd (script_beginClose (owner_key kind s) v ttl store at))"
    and "fenced sid fid payload (snd (script_release (owner_key kind s) v store at))"
  using assms fenced_same [OF assms]
  by (auto simp: script_renew_def script_beginClose_def script_release_def rpexpire_def rdel_def split: option.split)

lemma fenced_intent_scripts:
  assumes "fenced sid fid payload store"
  shows "fenced sid fid payload
           (snd (script_writeDesktopIntent (owner_key Desktop s) (fence_key s) (payload_key s) v f p store at))"
    and "fenced sid fid payload
           (snd (script_claimDesktopOrphan (owner_key Desktop s) (fence_key s) (payload_key s) f p store at))"
    and "\<not> (s = sid \<and> f = fid \<and> p = payload) \<Longrightarrow> fenced sid fid payload
           (snd (script_releaseDesktopIntent (fence_key s) (payload_key s) f p store at))"
  using fenced_rget [OF assms, of at] assms
  by (cases "s = sid"; force simp: script_writeDesktopIntent_def script_claimDesktopOrphan_def
      script_releaseDesktopIntent_def rset_def rdel_def intro!: fenced_same [OF assms])+

text \<open>Every operation but the release of this very intent keeps the fence.\<close>

interpretation fence: script_contract UNIV "\<lambda>_ _. True" "\<lambda>s f p. \<not> (s = sid \<and> f = fid \<and> p = payload)"
  "\<lambda>_ s s'. fenced sid fid payload s \<longrightarrow> fenced sid fid payload s'" for sid fid payload
  by unfold_locales
    (auto simp: fenced_acquire_script fenced_owner_scripts desktop_keys_fence intro: fenced_intent_scripts)

lemmas fence_rels = fence.acquire_rel fence.renew_rel fence.beginClose_rel fence.release_rel fence.intent_rel

lemma run_manager_op_fenced:
  assumes "fenced sid fid payload store" and "\<not> releases_intent sid fid payload op"
  shows "fenced sid fid payload (run_manager_op op store)"
  using assms fence_rels by (cases op) auto

lemma run_ops_fenced:
  "fenced sid fid payload store \<Longrightarrow> \<forall>op \<in> set ops. \<not> releases_intent sid fid payload op
     \<Longrightarrow> fenced sid fid payload (fold run_manager_op ops store)"
  by (induction ops arbitrary: store) (simp_all add: run_manager_op_fenced)

lemma fenced_not_acquired:
  assumes "fenced sid fid payload store"
  shows "\<exists>reason. fst (acquire i Desktop rq conn token sid store) = NotAcquired reason"
proof -
  have sc: "script_acquire (getRemoteWsRedisKeys Desktop sid) template ttl store at
      \<in> {(Some [''already_owned''], store), (Some [''desktop_orphan_recovery''], store), (Some [''desktop_finalizing''], store)}"
    for template ttl at
    using fenced_rget [OF assms, of at]
    by (simp add: script_acquire_def getRemoteWsRedisKeys_def fence_key_def payload_key_def)
  let ?ev = "evalTimed rq (script_acquire (getRemoteWsRedisKeys Desktop sid) (buildOwnerTemplate i conn token)
          REMOTE_WS_SHARED_LEASE_TTL_MS) store"
  have "hd rs \<noteq> ''acquired''" if "fst ?ev = Some rs" for rs
  proof -
    from that have "?ev = (Some rs, snd ?ev)" by (simp add: prod_eq_iff)
    from sc [of "buildOwnerTemplate i conn token" REMOTE_WS_SHARED_LEASE_TTL_MS "rq_at rq", unfolded evalTimed_Some [OF this]] show ?thesis by auto
  qed
  then show ?thesis
    by (auto simp: acquire_def Let_def split_def split: option.split)
qed

section \<open>Properties\<close>

text \<open>C15: once a finalization intent of a desktop session is stored, no sequence of operations of any
  number of processes lets a connection acquire the session until that very intent (its id and its
  payload) is released; and every attempt to store another intent in between leaves it in place.\<close>

theorem finalization_fence:
  assumes "fenced sid fid payload store"
    and "\<forall>op \<in> set ops. \<not> releases_intent sid fid payload op"
  shows "fenced sid fid payload (fold run_manager_op ops store)
    \<and> (\<exists>reason. fst (acquire i Desktop rq conn token sid (fold run_manager_op ops store)) = NotAcquired reason)"
  using run_ops_fenced [OF assms] fenced_not_acquired by blast

theorem finalization_fence_witness:
  "fst (acquire ''p'' Desktop demo_request ''c'' ''t'' ''s''
      (fold run_manager_op [OpReleaseIntent demo_request ''s'' ''f2'' ''{}'']
         (snd (claimDesktopOrphan demo_request ''s'' ''f'' ''{}'' Map.empty)))) = NotAcquired ''desktop_finalizing''
   \<and> fenced ''s'' ''f'' ''{}'' (fold run_manager_op [OpReleaseIntent demo_request ''s'' ''f2'' ''{}'']
         (snd (claimDesktopOrphan demo_request ''s'' ''f'' ''{}'' Map.empty)))"
proof -
  let ?st = "snd (claimDesktopOrphan demo_request ''s'' ''f'' ''{}'' Map.empty)"
  let ?ops = "[OpReleaseIntent demo_request ''s'' ''f2'' ''{}'']"
  have "fenced ''s'' ''f'' ''{}'' ?st" by code_simp
  moreover have "\<forall>op \<in> set ?ops. \<not> releases_intent ''s'' ''f'' ''{}'' op" by simp
  ultimately have "fenced ''s'' ''f'' ''{}'' (fold run_manager_op ?ops ?st)"
    using finalization_fence [of "''s''" "''f''" "''{}''" ?st ?ops] by blast
  moreover have "fst (acquire ''p'' Desktop demo_request ''c'' ''t'' ''s'' (fold run_manager_op ?ops ?st))
      = NotAcquired ''desktop_finalizing''"
    by code_simp
  ultimately show ?thesis by simp
qed

end
