(* ===== verification/Ip_Match.thy ===== *)
theory Ip_Match
  imports Js_Text "HOL-Library.Word"
begin

unbundle bit_operations_syntax

text \<open>
  apps/api/src/services/ipMatch.ts: parsing of IPv4 and IPv6 addresses and matching of an address
  against entries of an allowlist, single addresses or CIDR ranges. \<open>BigInt\<close> values are integers,
  with the shifts and masks of the source.
\<close>

section \<open>Addresses\<close>

text \<open>\<open>/^\d{1,3}$/\<close>.\<close>

definition octet_text :: "string \<Rightarrow> bool" where
  "octet_text p = (1 \<le> length p \<and> length p \<le> 3 \<and> list_all is_dec_digit p)"

fun ipv4_loop :: "int \<Rightarrow> string list \<Rightarrow> int option" where
  "ipv4_loop result [] = Some result"
| "ipv4_loop result (part # parts) =
     (if \<not> octet_text part then None
      else (case parse_dec part of
              None \<Rightarrow> None
            | Some n \<Rightarrow> if n > 255 then None else ipv4_loop (push_bit 8 result OR int n) parts))"

definition ipv4ToInt :: "string \<Rightarrow> int option" where
  "ipv4ToInt ip =
     (let parts = split_on (CHR ''.'') ip
      in if length parts \<noteq> 4 then None else ipv4_loop 0 parts)"

definition strip_zone :: "string \<Rightarrow> string" where
  "strip_zone ip = takeWhile (\<lambda>c. c \<noteq> CHR ''%'') ip"

fun expand_parts :: "string list \<Rightarrow> string list option" where
  "expand_parts [] = Some []"
| "expand_parts (p # ps) =
     (if CHR ''.'' \<in> set p then
        (case ipv4ToInt p of
           None \<Rightarrow> None
         | Some v4 \<Rightarrow>
             map_option (\<lambda>out. hex_string (nat (drop_bit 16 v4 AND 0xffff)) # hex_string (nat (v4 AND 0xffff)) # out)
               (expand_parts ps))
      else map_option (\<lambda>out. p # out) (expand_parts ps))"

definition expand :: "string \<Rightarrow> string list option" where
  "expand segment = (if segment = [] then Some [] else expand_parts (split_on (CHR '':'') segment))"

text \<open>\<open>/^[0-9a-fA-F]{1,4}$/\<close> and the fold over the groups.\<close>

definition group_text :: "string \<Rightarrow> bool" where
  "group_text g = (1 \<le> length g \<and> length g \<le> 4 \<and> list_all (\<lambda>c. hex_digit c \<noteq> None) g)"

fun ipv6_loop :: "int \<Rightarrow> string list \<Rightarrow> int option" where
  "ipv6_loop result [] = Some result"
| "ipv6_loop result (g # gs) =
     (if \<not> group_text g then None
      else (case hex_value_from 0 g of
              None \<Rightarrow> None
            | Some n \<Rightarrow> ipv6_loop (push_bit 16 result OR int n) gs))"

definition ipv6_groups :: "string \<Rightarrow> string list option" where
  "ipv6_groups ip =
     (let halves = split_str ''::'' (strip_zone ip)
      in if length halves > 2 then None
         else (case (expand (halves ! 0), if length halves = 2 then expand (halves ! 1) else Some []) of
                 (Some head, Some tail) \<Rightarrow>
                   if length halves = 2 then
                     (if length head + length tail > 8 then None
                      else Some (head @ replicate (8 - (length head + length tail)) ''0'' @ tail))
                   else Some head
               | _ \<Rightarrow> None))"

definition ipv6ToInt :: "string \<Rightarrow> int option" where
  "ipv6ToInt ip =
     (case ipv6_groups ip of
        None \<Rightarrow> None
      | Some groups \<Rightarrow> if length groups \<noteq> 8 then None else ipv6_loop 0 groups)"

definition isV6 :: "string \<Rightarrow> bool" where
  "isV6 s = (CHR '':'' \<in> set s)"

definition toInt :: "bool \<Rightarrow> string \<Rightarrow> int option" where
  "toInt v6 s = (if v6 then ipv6ToInt s else ipv4ToInt s)"

definition maxBits :: "bool \<Rightarrow> nat" where
  "maxBits v6 = (if v6 then 128 else 32)"

section \<open>Entries\<close>

text \<open>The text before the first slash and the text after it, if there is one.\<close>

definition entry_network :: "string \<Rightarrow> string" where
  "entry_network entry = takeWhile (\<lambda>c. c \<noteq> CHR ''/'') entry"

definition entry_bits :: "string \<Rightarrow> string option" where
  "entry_bits entry =
     (case dropWhile (\<lambda>c. c \<noteq> CHR ''/'') entry of [] \<Rightarrow> None | _ # rest \<Rightarrow> Some rest)"

definition cidr_mask :: "nat \<Rightarrow> nat \<Rightarrow> int" where
  "cidr_mask totalBits bits = (if bits = 0 then 0 else push_bit (totalBits - bits) (push_bit bits 1 - 1))"

definition matchOne :: "string \<Rightarrow> string \<Rightarrow> bool" where
  "matchOne ip entry =
     (let network = entry_network entry; entryIsV6 = isV6 network
      in if entryIsV6 \<noteq> isV6 ip then False
         else (case (toInt entryIsV6 ip, toInt entryIsV6 network) of
                 (Some ipNum, Some netNum) \<Rightarrow>
                   (case entry_bits entry of
                      None \<Rightarrow> ipNum = netNum
                    | Some bitsRaw \<Rightarrow>
                        (case parse_dec bitsRaw of
                           None \<Rightarrow> False
                         | Some bits \<Rightarrow>
                             if bits > maxBits entryIsV6 then False
                             else (ipNum AND cidr_mask (maxBits entryIsV6) bits)
                                    = (netNum AND cidr_mask (maxBits entryIsV6) bits)))
               | _ \<Rightarrow> False))"

fun ipMatchesAny :: "string \<Rightarrow> string list \<Rightarrow> bool" where
  "ipMatchesAny ip [] = False"
| "ipMatchesAny ip (raw # entries) =
     (let entry = trim raw
      in if entry = [] then ipMatchesAny ip entries
         else if matchOne ip entry then True
         else ipMatchesAny ip entries)"

definition isValidIpOrCidr :: "string \<Rightarrow> bool" where
  "isValidIpOrCidr entry =
     (let trimmed = trim entry
      in if trimmed = [] then False
         else
           (let network = entry_network trimmed; v6 = isV6 network
            in case toInt v6 network of
                 None \<Rightarrow> False
               | Some parsed \<Rightarrow>
                   (case entry_bits trimmed of
                      None \<Rightarrow> True
                    | Some bitsRaw \<Rightarrow>
                        (case parse_dec bitsRaw of None \<Rightarrow> False | Some bits \<Rightarrow> bits \<le> maxBits v6))))"

section \<open>The specification\<close>

text \<open>
  A network is an address family, an address and a prefix length; an address is in it when it is of
  the family and agrees with it on the leading bits.
\<close>

definition parse_network :: "string \<Rightarrow> (bool \<times> int \<times> nat) option" where
  "parse_network entry =
     (let v6 = isV6 (entry_network entry)
      in case toInt v6 (entry_network entry) of
           None \<Rightarrow> None
         | Some net \<Rightarrow>
             (case entry_bits entry of
                None \<Rightarrow> Some (v6, net, maxBits v6)
              | Some raw \<Rightarrow>
                  (case parse_dec raw of
                     None \<Rightarrow> None
                   | Some bits \<Rightarrow> if bits \<le> maxBits v6 then Some (v6, net, bits) else None)))"

definition in_network :: "string \<Rightarrow> bool \<times> int \<times> nat \<Rightarrow> bool" where
  "in_network ip n =
     (case n of (v6, net, bits) \<Rightarrow>
        isV6 ip = v6
        \<and> (case toInt v6 ip of
             None \<Rightarrow> False
           | Some a \<Rightarrow> a div 2 ^ (maxBits v6 - bits) = net div 2 ^ (maxBits v6 - bits)))"

section \<open>Lemmas\<close>

lemma parse_dec_octet: "octet_text p \<Longrightarrow> \<exists>n. parse_dec p = Some n"
  by (auto simp: octet_text_def parse_dec_def)

text \<open>Appending a group to a number is a shift and an addition.\<close>

lemma shift_or: "0 \<le> n \<Longrightarrow> n < 2 ^ k \<Longrightarrow> push_bit k r OR n = 2 ^ k * r + (n :: int)"
proof -
  assume n: "0 \<le> n" "n < 2 ^ k"
  have "push_bit k r AND n = 0"
  proof (rule bit_eqI)
    fix i
    have "i < k" if "bit n i"
    proof (rule ccontr)
      assume "\<not> i < k"
      with n have "n < 2 ^ i" by (meson less_le_trans not_less one_le_numeral power_increasing)
      with n that show False by (simp add: bit_iff_odd)
    qed
    then show "bit (push_bit k r AND n) i \<longleftrightarrow> bit 0 i" by (auto simp: bit_simps)
  qed
  then have "push_bit k r OR n = push_bit k r + n" by (simp add: disjunctive_add_eq_or)
  then show ?thesis by (simp add: push_bit_eq_mult mult.commute)
qed

lemma ipv4_loop_bound:
  "ipv4_loop r parts = Some v \<Longrightarrow> 0 \<le> r \<Longrightarrow> r < 2 ^ k \<Longrightarrow> 0 \<le> v \<and> v < 2 ^ (k + 8 * length parts)"
proof (induction r parts arbitrary: k rule: ipv4_loop.induct)
  case (2 r p ps)
  then obtain n where n: "octet_text p" "parse_dec p = Some n" "n \<le> 255"
      "ipv4_loop (push_bit 8 r OR int n) ps = Some v"
    by (auto split: if_splits option.splits)
  have "0 \<le> push_bit 8 r OR int n \<and> push_bit 8 r OR int n < 2 ^ (k + 8)"
    using n(3) 2(3,4) by (simp add: shift_or power_add)
  with 2(1)[OF _ n(2) _ n(4), of "k + 8"] n have "0 \<le> v \<and> v < 2 ^ (k + 8 + 8 * length ps)" by simp
  then show ?case by (simp add: algebra_simps)
qed simp

lemma ipv6_loop_bound:
  "ipv6_loop r gs = Some v \<Longrightarrow> 0 \<le> r \<Longrightarrow> r < 2 ^ k \<Longrightarrow> 0 \<le> v \<and> v < 2 ^ (k + 16 * length gs)"
proof (induction r gs arbitrary: k rule: ipv6_loop.induct)
  case (2 r g gs)
  then obtain n where n: "group_text g" "hex_value_from 0 g = Some n"
      "ipv6_loop (push_bit 16 r OR int n) gs = Some v"
    by (auto split: if_splits option.splits)
  have "n < 1 * 16 ^ length g" by (rule hex_value_from_bound [OF n(2)]) simp
  also have "(16 :: nat) ^ length g \<le> 16 ^ 4" using n(1) by (intro power_increasing) (simp_all add: group_text_def)
  finally have "n < 2 ^ 16" by simp
  then have "0 \<le> push_bit 16 r OR int n \<and> push_bit 16 r OR int n < 2 ^ (k + 16)"
    using 2(3,4) by (simp add: shift_or power_add)
  with 2(1)[OF _ n(2) n(3), of "k + 16"] n have "0 \<le> v \<and> v < 2 ^ (k + 16 + 16 * length gs)" by simp
  then show ?case by (simp add: algebra_simps)
qed simp

lemma ipv4_bound: "ipv4ToInt ip = Some v \<Longrightarrow> 0 \<le> v \<and> v < 2 ^ 32"
  using ipv4_loop_bound [of 0 "split_on (CHR ''.'') ip" v 0]
  by (auto simp: ipv4ToInt_def Let_def split: if_splits)

lemma ipv6_bound: "ipv6ToInt ip = Some v \<Longrightarrow> 0 \<le> v \<and> v < 2 ^ 128"
  using ipv6_loop_bound [of 0 "the (ipv6_groups ip)" v 0]
  by (auto simp: ipv6ToInt_def split: if_splits option.splits)

lemma toInt_bound: "toInt v6 ip = Some v \<Longrightarrow> 0 \<le> v \<and> v < 2 ^ maxBits v6"
  using ipv4_bound ipv6_bound by (auto simp: toInt_def maxBits_def split: if_splits)

text \<open>Masking keeps the leading bits.\<close>

lemma bit_cidr_mask: "b \<le> t \<Longrightarrow> bit (cidr_mask t b) i \<longleftrightarrow> t - b \<le> i \<and> i < t"
proof -
  have "push_bit b 1 - 1 = (mask b :: int)" by (simp add: mask_eq_exp_minus_1 push_bit_eq_mult)
  then show "b \<le> t \<Longrightarrow> bit (cidr_mask t b) i \<longleftrightarrow> t - b \<le> i \<and> i < t"
    by (auto simp: cidr_mask_def bit_simps)
qed

lemma masked_eq:
  assumes "b \<le> t" and "0 \<le> x" "x < 2 ^ t" and "0 \<le> y" "y < 2 ^ t"
  shows "(x AND cidr_mask t b) = (y AND cidr_mask t b) \<longleftrightarrow> x div 2 ^ (t - b) = y div 2 ^ (t - b)"
proof -
  have top: "i < t" if "0 \<le> z" "z < 2 ^ t" "bit z i" for z :: int and i
  proof (rule ccontr)
    assume "\<not> i < t"
    with that have "z < 2 ^ i" by (meson less_le_trans not_less one_le_numeral power_increasing)
    with that show False by (simp add: bit_iff_odd)
  qed
  have "(x AND cidr_mask t b) = (y AND cidr_mask t b) \<longleftrightarrow> (\<forall>i. t - b \<le> i \<longrightarrow> bit x i = bit y i)"
    unfolding bit_eq_iff using top assms by (auto simp: bit_and_iff bit_cidr_mask)
  also have "\<dots> \<longleftrightarrow> (\<forall>j. bit x (t - b + j) = bit y (t - b + j))" by (metis le_add1 le_Suc_ex)
  also have "\<dots> \<longleftrightarrow> drop_bit (t - b) x = drop_bit (t - b) y" by (simp add: bit_eq_iff bit_drop_bit_eq)
  finally show ?thesis by (simp add: drop_bit_eq_div)
qed

lemma matchOne_spec: "matchOne ip entry = (case parse_network entry of None \<Rightarrow> False | Some n \<Rightarrow> in_network ip n)"
proof -
  let ?v6 = "isV6 (entry_network entry)"
  have "matchOne ip entry = (case parse_network entry of None \<Rightarrow> False | Some n \<Rightarrow> in_network ip n)"
    if "isV6 ip = ?v6" "toInt ?v6 ip = Some a" "toInt ?v6 (entry_network entry) = Some n" for a n
  proof -
    note b = toInt_bound [OF that(2)] toInt_bound [OF that(3)]
    have "(a AND cidr_mask (maxBits ?v6) bits) = (n AND cidr_mask (maxBits ?v6) bits)
        \<longleftrightarrow> a div 2 ^ (maxBits ?v6 - bits) = n div 2 ^ (maxBits ?v6 - bits)" if "bits \<le> maxBits ?v6" for bits
      using that b by (intro masked_eq) auto
    with that show ?thesis
      by (auto simp: matchOne_def parse_network_def in_network_def Let_def split: option.split)
  qed
  then show ?thesis
    by (cases "isV6 ip = ?v6"; cases "toInt ?v6 ip"; cases "toInt ?v6 (entry_network entry)")
       (auto simp: matchOne_def parse_network_def in_network_def Let_def split: option.split)
qed

lemma valid_parses: "isValidIpOrCidr entry \<longleftrightarrow> trim entry \<noteq> [] \<and> parse_network (trim entry) \<noteq> None"
  by (simp add: isValidIpOrCidr_def parse_network_def Let_def split: option.split)

lemma ipMatchesAny_spec:
  "ipMatchesAny ip entries \<longleftrightarrow>
     (\<exists>e \<in> set entries. isValidIpOrCidr e \<and> in_network ip (the (parse_network (trim e))))"
  by (induction entries) (auto simp: Let_def matchOne_spec valid_parses split: option.splits)

text \<open>The network address of a parsed entry is in it.\<close>

lemma network_in_itself: "parse_network entry = Some n \<Longrightarrow> in_network (entry_network entry) n"
  by (auto simp: parse_network_def in_network_def Let_def split: option.splits if_splits)

section \<open>Properties\<close>

text \<open>C18: an address matches an allowlist exactly when some entry of it is valid and the address is of
  the entry's family and agrees with it on the prefix, bit for bit, whatever their spelling; and an
  entry passes validation exactly when some address matches it, so that no accepted entry is dead and
  no rejected entry would have let anyone in.\<close>

theorem allowlist_match_exact:
  "(ipMatchesAny ip entries \<longleftrightarrow>
      (\<exists>e. e \<in> set entries \<and> isValidIpOrCidr e \<and> in_network ip (the (parse_network (trim e)))))
   \<and> (isValidIpOrCidr entry \<longleftrightarrow> (\<exists>a. ipMatchesAny a [entry]))"
proof
  show "ipMatchesAny ip entries \<longleftrightarrow>
      (\<exists>e. e \<in> set entries \<and> isValidIpOrCidr e \<and> in_network ip (the (parse_network (trim e))))"
    by (auto simp: ipMatchesAny_spec)
  show "isValidIpOrCidr entry \<longleftrightarrow> (\<exists>a. ipMatchesAny a [entry])"
    using network_in_itself [of "trim entry"] by (auto simp: ipMatchesAny_spec valid_parses)
qed

text \<open>Dotted quads.\<close>

definition dotted_quad :: "int \<Rightarrow> string" where
  "dotted_quad v =
     join ''.'' (map (\<lambda>k. dec_string (nat (v div 2 ^ k mod 256))) [24, 16, 8, 0])"

lemma octet_text_dec: "n < 256 \<Longrightarrow> octet_text (dec_string n)"
  using length_dec_string [of n 3] by (simp add: octet_text_def list_all_dec_string)

lemma dec_string_no_dot: "CHR ''.'' \<notin> set (dec_string n)"
  by (auto dest!: dec_string_chars simp: is_dec_digit_def)

lemma ipv4_loop_dec: "n < 256 \<Longrightarrow> ipv4_loop r (dec_string n # ps) = ipv4_loop (256 * r + int n) ps"
  using shift_or [of "int n" 8 r] by (simp add: octet_text_dec)

lemma ipv4ToInt_quad:
  assumes "a < 256" and "b < 256" and "c < 256" and "d < 256"
  shows "ipv4ToInt (join ''.'' (map dec_string [a, b, c, d]))
           = Some (256 * (256 * (256 * int a + int b) + int c) + int d)"
proof -
  have "split_on (CHR ''.'') (join ''.'' (map dec_string [a, b, c, d])) = map dec_string [a, b, c, d]"
    by (rule split_on_join) (auto simp: dec_string_no_dot)
  with assms show ?thesis by (simp add: ipv4ToInt_def ipv4_loop_dec del: ipv4_loop.simps(2))
qed

text \<open>Every 32-bit address has a dotted-quad text that the parser reads back, and what the parser
  reads from any text fits the width of its family.\<close>

theorem ipv4_round_trip:
  assumes "0 \<le> v" and "v < 2 ^ 32"
  shows "ipv4ToInt (dotted_quad v) = Some v
    \<and> (\<forall>v6 s n. toInt v6 s = Some n \<longrightarrow> 0 \<le> n \<and> n < 2 ^ maxBits v6)"
proof -
  let ?q = "\<lambda>k. nat (v div 2 ^ k mod 256)"
  have q: "?q k < 256" for k by (simp add: nat_less_iff)
  have int_q: "int (?q k) = v div 2 ^ k mod 256" for k by simp
  have q24: "v div 2 ^ 24 mod 256 = v div 2 ^ 24" using assms by (intro mod_pos_pos_trivial) auto
  have q16: "256 * (v div 2 ^ 24) + v div 2 ^ 16 mod 256 = v div 2 ^ 16"
    using div_mult_mod_eq [of "v div 2 ^ 16" 256] by (simp add: div_mult2_eq [symmetric] zdiv_zmult2_eq [symmetric])
  have q8: "256 * (v div 2 ^ 16) + v div 2 ^ 8 mod 256 = v div 2 ^ 8"
    using div_mult_mod_eq [of "v div 2 ^ 8" 256] by (simp add: zdiv_zmult2_eq [symmetric])
  have q0: "256 * (v div 2 ^ 8) + v div 2 ^ 0 mod 256 = v"
    using div_mult_mod_eq [of v 256] by simp
  have eq: "256 * (256 * (256 * int (?q 24) + int (?q 16)) + int (?q 8)) + int (?q 0) = v"
    unfolding int_q unfolding q24 unfolding q16 unfolding q8 unfolding q0 ..
  have "ipv4ToInt (dotted_quad v) = Some (256 * (256 * (256 * int (?q 24) + int (?q 16)) + int (?q 8)) + int (?q 0))"
    using ipv4ToInt_quad [OF q [of 24] q [of 16] q [of 8] q [of 0]] by (simp only: dotted_quad_def list.map)
  then show ?thesis unfolding eq using toInt_bound by blast
qed

theorem ipv4_round_trip_witness: "ipv4ToInt (dotted_quad 3232235777) = Some 3232235777
    \<and> dotted_quad 3232235777 = ''192.168.1.1''"
proof -
  have "dotted_quad 3232235777 = ''192.168.1.1''" by code_simp
  with ipv4_round_trip [of 3232235777] show ?thesis by simp
qed

end
