(* ===== verification/Client_Ip.thy ===== *)
theory Client_Ip
  imports Ip_Match "HOL-Library.AList"
begin

text \<open>
  apps/api/src/services/clientIp.ts: which address a request counts as coming from. Forwarded headers
  are believed only when the TCP peer is a trusted proxy. The environment is an argument, and so is
  \<open>isIP\<close> of Node's \<open>net\<close> module (4, 6, or 0 for a text that is no address). The map of the peers last
  warned about is passed and returned; it keeps the order of insertion.
\<close>

section \<open>Environment and requests\<close>

record environment =
  TRUST_PROXY_HEADERS :: "string option"
  NODE_ENV :: "string option"
  TRUST_CF_CONNECTING_IP :: "string option"
  TRUSTED_PROXY_CIDRS :: "string option"
  IP_ALLOWLIST_ENFORCEMENT_MODE :: "string option"

record request_like =
  hr_header :: "string \<Rightarrow> string option"
  hr_remoteAddress :: "string option"

definition isTruthy :: "string option \<Rightarrow> bool" where
  "isTruthy value =
     (case value of
        None \<Rightarrow> False
      | Some v \<Rightarrow> v \<noteq> [] \<and> toLowerCase (trim v) \<in> set [''1'', ''true'', ''yes'', ''on''])"

definition in_production :: "environment \<Rightarrow> bool" where
  "in_production env = (NODE_ENV env = Some ''production'')"

definition shouldTrustProxyHeaders :: "environment \<Rightarrow> bool" where
  "shouldTrustProxyHeaders env =
     (let mode = toLowerCase (trim (case TRUST_PROXY_HEADERS env of None \<Rightarrow> ''auto'' | Some v \<Rightarrow> v))
      in if mode = ''auto'' then \<not> in_production env else isTruthy (Some mode))"

definition trustCloudflareConnectingIp :: "environment \<Rightarrow> bool" where
  "trustCloudflareConnectingIp env = isTruthy (TRUST_CF_CONNECTING_IP env)"

definition trustedProxyCidrs :: "environment \<Rightarrow> string list" where
  "trustedProxyCidrs env =
     (let configured =
            filter (\<lambda>v. v \<noteq> [])
              (map trim (split_on (CHR '','') (case TRUSTED_PROXY_CIDRS env of None \<Rightarrow> [] | Some v \<Rightarrow> v)))
      in if configured = [] \<and> shouldTrustProxyHeaders env \<and> in_production env
         then [''127.0.0.1/32'', ''::1/128'']
         else configured)"

section \<open>Candidates\<close>

definition all_digits :: "string \<Rightarrow> bool" where
  "all_digits s = (s \<noteq> [] \<and> list_all is_dec_digit s)"

text \<open>\<open>const [host, port] = trimmed.split(':')\<close>.\<close>

definition host_and_port :: "string \<Rightarrow> string \<times> string option" where
  "host_and_port s =
     (case split_on (CHR '':'') s of
        h # p # _ \<Rightarrow> (h, Some p)
      | [h] \<Rightarrow> (h, None)
      | [] \<Rightarrow> ([], None))"

definition normalizeIpCandidate :: "(string \<Rightarrow> nat) \<Rightarrow> string \<Rightarrow> string option" where
  "normalizeIpCandidate isIP value =
     (let trimmed = trim value;
          plain = (if isIP trimmed \<noteq> 0 then Some trimmed else None);
          with_port =
            (if CHR '':'' \<in> set trimmed \<and> isIP trimmed \<noteq> 6 then
               (case host_and_port trimmed of
                  (host, Some port) \<Rightarrow> if host \<noteq> [] \<and> all_digits port \<and> isIP host = 4 then Some host else plain
                | _ \<Rightarrow> plain)
             else plain);
          closing = length (takeWhile (\<lambda>c. c \<noteq> CHR '']'') trimmed)
      in if trimmed = [] then None
         else if hd trimmed = CHR ''['' \<and> closing < length trimmed \<and> closing > 1
         then (let ip = drop 1 (take closing trimmed) in if isIP ip \<noteq> 0 then Some ip else None)
         else with_port)"

fun first_candidate :: "(string \<Rightarrow> nat) \<Rightarrow> string list \<Rightarrow> string option" where
  "first_candidate isIP [] = None"
| "first_candidate isIP (c # cs) =
     (case normalizeIpCandidate isIP c of
        Some n \<Rightarrow> if n \<noteq> [] then Some n else first_candidate isIP cs
      | None \<Rightarrow> first_candidate isIP cs)"

definition firstValidIpFromCsv :: "(string \<Rightarrow> nat) \<Rightarrow> string option \<Rightarrow> string option" where
  "firstValidIpFromCsv isIP value =
     (case value of
        None \<Rightarrow> None
      | Some v \<Rightarrow> if v = [] then None else first_candidate isIP (split_on (CHR '','') v))"

text \<open>\<open>/^::ffff:(\d{1,3}(?:\.\d{1,3}){3})$/i\<close>.\<close>

definition ipv4MappedToV4 :: "(string \<Rightarrow> nat) \<Rightarrow> string \<Rightarrow> string option" where
  "ipv4MappedToV4 isIP ip =
     (let rest = drop 7 ip
      in if toLowerCase (take 7 ip) = ''::ffff:'' \<and> length (split_on (CHR ''.'') rest) = 4
            \<and> list_all octet_text (split_on (CHR ''.'') rest) \<and> isIP rest = 4
         then Some rest else None)"

text \<open>The texts a trusted-proxy entry is compared with.\<close>

definition source_candidates :: "(string \<Rightarrow> nat) \<Rightarrow> string \<Rightarrow> string list" where
  "source_candidates isIP s = s # (case ipv4MappedToV4 isIP s of None \<Rightarrow> [] | Some m \<Rightarrow> [m])"

definition proxy_entry :: "(string \<Rightarrow> nat) \<Rightarrow> string \<Rightarrow> string option" where
  "proxy_entry isIP cidr =
     str_or_none (if CHR ''/'' \<in> set cidr then Some cidr else normalizeIpCandidate isIP cidr)"

definition isTrustedProxySource :: "(string \<Rightarrow> nat) \<Rightarrow> environment \<Rightarrow> string option \<Rightarrow> bool" where
  "isTrustedProxySource isIP env sourceIp =
     (let cidrs = trustedProxyCidrs env
      in if cidrs = [] then \<not> in_production env
         else (case str_or_none (Option.bind (str_or_none sourceIp) (normalizeIpCandidate isIP)) of
                 None \<Rightarrow> False
               | Some normalizedSource \<Rightarrow>
                   list_ex (\<lambda>cidr. case proxy_entry isIP cidr of
                                     None \<Rightarrow> False
                                   | Some entry \<Rightarrow>
                                       list_ex (\<lambda>ip. ipMatchesAny ip [entry]) (source_candidates isIP normalizedSource))
                     cidrs))"

definition getImmediatePeerIp :: "(string \<Rightarrow> nat) \<Rightarrow> request_like \<Rightarrow> string \<Rightarrow> string option" where
  "getImmediatePeerIp isIP c fallback =
     nullish (normalizeIpCandidate isIP (case hr_remoteAddress c of None \<Rightarrow> [] | Some a \<Rightarrow> a))
       (normalizeIpCandidate isIP fallback)"

section \<open>Warnings about untrusted peers\<close>

definition UNTRUSTED_PEER_WARN_INTERVAL_MS :: int where
  "UNTRUSTED_PEER_WARN_INTERVAL_MS = 15 * 60 * 1000"

definition UNTRUSTED_PEER_WARN_MAX_TRACKED :: nat where
  "UNTRUSTED_PEER_WARN_MAX_TRACKED = 1024"

type_synonym warn_map = "(string \<times> int) list"

text \<open>\<open>header(lower) ?? header(Upper)\<close>.\<close>

definition either_header :: "request_like \<Rightarrow> string \<Rightarrow> string \<Rightarrow> string option" where
  "either_header c lower upper = nullish (hr_header c lower) (hr_header c upper)"

abbreviation cf_header :: "request_like \<Rightarrow> string option" where
  "cf_header c \<equiv> either_header c ''cf-connecting-ip'' ''CF-Connecting-IP''"

abbreviation forwarded_header :: "request_like \<Rightarrow> string option" where
  "forwarded_header c \<equiv> either_header c ''x-forwarded-for'' ''X-Forwarded-For''"

abbreviation real_ip_header :: "request_like \<Rightarrow> string option" where
  "real_ip_header c \<equiv> either_header c ''x-real-ip'' ''X-Real-IP''"

definition hasForwardedIpHeaders :: "request_like \<Rightarrow> bool" where
  "hasForwardedIpHeaders c =
     (truthy_str (cf_header c) \<or> truthy_str (forwarded_header c) \<or> truthy_str (real_ip_header c))"

text \<open>Whether the warning is written, and the map afterwards.\<close>

definition warnForwardedHeadersFromUntrustedPeer :: "int \<Rightarrow> string option \<Rightarrow> warn_map \<Rightarrow> bool \<times> warn_map" where
  "warnForwardedHeadersFromUntrustedPeer now peerIp tracked =
     (let key = (case peerIp of None \<Rightarrow> ''unknown'' | Some p \<Rightarrow> p);
          recent = (\<lambda>at. now - at < UNTRUSTED_PEER_WARN_INTERVAL_MS)
      in case map_of tracked key of
           Some lastWarnAt \<Rightarrow>
             if recent lastWarnAt then (False, tracked) else (True, AList.update key now tracked)
         | None \<Rightarrow>
             (let pruned = (if length tracked \<ge> UNTRUSTED_PEER_WARN_MAX_TRACKED
                            then filter (\<lambda>(p, at). recent at) tracked else tracked)
              in if length pruned < UNTRUSTED_PEER_WARN_MAX_TRACKED
                 then (True, AList.update key now pruned) else (True, pruned)))"

section \<open>The client address\<close>

text \<open>The address the headers of a trusted proxy give, in the order the code reads them.\<close>

definition header_address :: "(string \<Rightarrow> nat) \<Rightarrow> environment \<Rightarrow> request_like \<Rightarrow> string option" where
  "header_address isIP env c =
     (let cloudflare =
            (if trustCloudflareConnectingIp env
             then normalizeIpCandidate isIP (case cf_header c of None \<Rightarrow> [] | Some h \<Rightarrow> h) else None);
          forwarded = firstValidIpFromCsv isIP (forwarded_header c);
          realIp = normalizeIpCandidate isIP (case real_ip_header c of None \<Rightarrow> [] | Some h \<Rightarrow> h)
      in nullish (str_or_none cloudflare) (nullish (str_or_none forwarded) (str_or_none realIp)))"

definition getTrustedClientIp ::
  "(string \<Rightarrow> nat) \<Rightarrow> environment \<Rightarrow> int \<Rightarrow> request_like \<Rightarrow> string \<Rightarrow> warn_map \<Rightarrow> string \<times> warn_map" where
  "getTrustedClientIp isIP env now c fallback tracked =
     (if \<not> shouldTrustProxyHeaders env then (fallback, tracked)
      else
        (let peerIp = getImmediatePeerIp isIP c fallback
         in if \<not> isTrustedProxySource isIP env peerIp
            then (fallback,
                  if hasForwardedIpHeaders c
                  then snd (warnForwardedHeadersFromUntrustedPeer now peerIp tracked) else tracked)
            else (case header_address isIP env c of Some ip \<Rightarrow> ip | None \<Rightarrow> fallback, tracked)))"

definition getTrustedClientIpOrUndefined ::
  "(string \<Rightarrow> nat) \<Rightarrow> environment \<Rightarrow> int \<Rightarrow> request_like \<Rightarrow> warn_map \<Rightarrow> string option \<times> warn_map" where
  "getTrustedClientIpOrUndefined isIP env now c tracked =
     (let (ip, tracked') = getTrustedClientIp isIP env now c [] tracked
      in (if ip = [] then None else Some ip, tracked'))"

definition trustsForwardedHeadersFrom :: "(string \<Rightarrow> nat) \<Rightarrow> environment \<Rightarrow> request_like \<Rightarrow> bool" where
  "trustsForwardedHeadersFrom isIP env c =
     (if \<not> shouldTrustProxyHeaders env then False
      else isTrustedProxySource isIP env (getImmediatePeerIp isIP c []))"

definition getImmediatePeerIpOrUndefined :: "(string \<Rightarrow> nat) \<Rightarrow> request_like \<Rightarrow> string option" where
  "getImmediatePeerIpOrUndefined isIP c =
     normalizeIpCandidate isIP (case hr_remoteAddress c of None \<Rightarrow> [] | Some a \<Rightarrow> a)"

section \<open>Lemmas\<close>

lemma normalizeIpCandidate_valid: "normalizeIpCandidate isIP v = Some ip \<Longrightarrow> isIP ip \<noteq> 0"
  by (auto simp: normalizeIpCandidate_def Let_def split: if_splits prod.splits option.splits)

lemma first_candidate_valid: "first_candidate isIP cs = Some ip \<Longrightarrow> isIP ip \<noteq> 0"
  by (induction cs) (auto split: option.splits if_splits dest: normalizeIpCandidate_valid)

lemma firstValidIpFromCsv_valid: "firstValidIpFromCsv isIP v = Some ip \<Longrightarrow> isIP ip \<noteq> 0"
  by (auto simp: firstValidIpFromCsv_def split: option.splits if_splits dest: first_candidate_valid)

lemma length_update: "length (AList.update k v xs) \<le> Suc (length xs)"
  by (induction xs) auto

lemma length_update_present: "map_of xs k = Some w \<Longrightarrow> length (AList.update k v xs) = length xs"
  by (induction xs) (auto split: if_splits)

lemma length_update_less: "length xs < n \<Longrightarrow> length (AList.update k v xs) \<le> n"
  using length_update [of k v xs] by simp

lemma warn_map_bounded:
  assumes "length tracked \<le> UNTRUSTED_PEER_WARN_MAX_TRACKED"
  shows "length (snd (warnForwardedHeadersFromUntrustedPeer now peer tracked)) \<le> UNTRUSTED_PEER_WARN_MAX_TRACKED"
proof (cases "map_of tracked (case peer of None \<Rightarrow> ''unknown'' | Some p \<Rightarrow> p)")
  case None
  have "length (filter P tracked) \<le> UNTRUSTED_PEER_WARN_MAX_TRACKED" for P
    using assms length_filter_le le_trans by blast
  with assms show ?thesis unfolding warnForwardedHeadersFromUntrustedPeer_def Let_def None
    by (auto simp: length_update_less not_less intro: le_antisym)
next
  case (Some t)
  then show ?thesis unfolding warnForwardedHeadersFromUntrustedPeer_def Let_def Some
    using assms length_update_present [OF Some, of now] by simp
qed

text \<open>The answer is the fallback, or a valid address taken from a header that may be believed.\<close>

lemma header_address_valid: "header_address isIP env c = Some ip \<Longrightarrow> ip \<noteq> [] \<and> isIP ip \<noteq> 0"
  unfolding header_address_def Let_def nullish_def
  by (auto simp: str_or_none_Some split: option.splits if_splits
      dest: normalizeIpCandidate_valid firstValidIpFromCsv_valid)

lemma client_ip_or_undefined:
  "fst (getTrustedClientIpOrUndefined isIP env now c tracked)
     = (if trustsForwardedHeadersFrom isIP env c then header_address isIP env c else None)"
  by (auto simp: getTrustedClientIpOrUndefined_def getTrustedClientIp_def trustsForwardedHeadersFrom_def Let_def
      dest: header_address_valid split: option.split)

text \<open>A trusted peer in production lies in a configured network.\<close>

lemma trusted_source:
  assumes "isTrustedProxySource isIP env peer" and "in_production env"
  shows "\<exists>p s cidr entry cand. peer = Some p \<and> normalizeIpCandidate isIP p = Some s
    \<and> cidr \<in> set (trustedProxyCidrs env) \<and> proxy_entry isIP cidr = Some entry
    \<and> cand \<in> set (source_candidates isIP s) \<and> in_network cand (the (parse_network (trim entry)))"
proof -
  have "trustedProxyCidrs env \<noteq> []" using assms by (auto simp: isTrustedProxySource_def Let_def)
  then obtain s where s: "str_or_none (Option.bind (str_or_none peer) (normalizeIpCandidate isIP)) = Some s"
    using assms(1) by (auto simp: isTrustedProxySource_def Let_def split: option.splits)
  then obtain p where p: "peer = Some p" "normalizeIpCandidate isIP p = Some s"
    by (auto simp: str_or_none_Some bind_eq_Some_conv)
  from assms(1) \<open>trustedProxyCidrs env \<noteq> []\<close> s obtain cidr entry cand where
    "cidr \<in> set (trustedProxyCidrs env)" "proxy_entry isIP cidr = Some entry"
    "cand \<in> set (source_candidates isIP s)" "ipMatchesAny cand [entry]"
    by (auto simp: isTrustedProxySource_def Let_def list_ex_iff simp del: ipMatchesAny.simps split: option.splits)
  with p show ?thesis by (auto simp: ipMatchesAny_spec)
qed

section \<open>Properties\<close>

text \<open>C17: in production a client address other than the socket's is believed only if the TCP peer itself
  lies in a network of the trusted-proxy list, which is the loopback when none is configured; it is
  then a valid address taken from a header, and from the Cloudflare header only when that is enabled.
  From any other peer no header has an effect.\<close>

theorem client_ip_not_spoofable:
  assumes "in_production env"
    and "fst (getTrustedClientIpOrUndefined isIP env now c tracked) = Some ip"
  shows "isIP ip \<noteq> 0 \<and> header_address isIP env c = Some ip
    \<and> (\<exists>p s cidr entry cand. getImmediatePeerIpOrUndefined isIP c = Some p \<and> normalizeIpCandidate isIP p = Some s
         \<and> cidr \<in> set (trustedProxyCidrs env) \<and> proxy_entry isIP cidr = Some entry
         \<and> cand \<in> set (source_candidates isIP s)
         \<and> in_network cand (the (parse_network (trim entry))))
    \<and> (\<forall>c'. hr_remoteAddress c' = hr_remoteAddress c \<longrightarrow> trustsForwardedHeadersFrom isIP env c')"
proof -
  have t: "trustsForwardedHeadersFrom isIP env c" and h: "header_address isIP env c = Some ip"
    using assms(2) by (simp_all add: client_ip_or_undefined split: if_splits)
  have empty: "normalizeIpCandidate isIP [] = None" by (simp add: normalizeIpCandidate_def Let_def trim_def)
  have peer: "getImmediatePeerIp isIP c' [] = getImmediatePeerIpOrUndefined isIP c'" for c'
    by (simp add: getImmediatePeerIp_def getImmediatePeerIpOrUndefined_def empty nullish_def split: option.split)
  have tr: "shouldTrustProxyHeaders env" "isTrustedProxySource isIP env (getImmediatePeerIpOrUndefined isIP c)"
    using t by (simp_all add: trustsForwardedHeadersFrom_def peer split: if_splits)
  note trusted_source [OF tr(2) assms(1)]
  moreover have "trustsForwardedHeadersFrom isIP env c'" if "hr_remoteAddress c' = hr_remoteAddress c" for c'
    using tr that by (simp add: trustsForwardedHeadersFrom_def peer getImmediatePeerIpOrUndefined_def)
  ultimately show ?thesis using h header_address_valid [OF h] by blast
qed

text \<open>A stand-in for \<open>isIP\<close> that accepts what the parsers accept, and a request through a loopback proxy.\<close>

definition demo_isIP :: "string \<Rightarrow> nat" where
  "demo_isIP s = (if isV6 s then (if ipv6ToInt s \<noteq> None then 6 else 0) else if ipv4ToInt s \<noteq> None then 4 else 0)"

definition demo_env :: environment where
  "demo_env = \<lparr>TRUST_PROXY_HEADERS = Some ''true'', NODE_ENV = Some ''production'', TRUST_CF_CONNECTING_IP = None,
               TRUSTED_PROXY_CIDRS = None, IP_ALLOWLIST_ENFORCEMENT_MODE = None\<rparr>"

definition demo_http :: "string \<Rightarrow> request_like" where
  "demo_http peer =
     \<lparr>hr_header = [''x-forwarded-for'' \<mapsto> ''bogus, 203.0.113.9, 10.0.0.1'', ''cf-connecting-ip'' \<mapsto> ''6.6.6.6''],
      hr_remoteAddress = Some peer\<rparr>"

theorem client_ip_not_spoofable_witness:
  "header_address demo_isIP demo_env (demo_http ''127.0.0.1'') = Some ''203.0.113.9''
   \<and> fst (getTrustedClientIpOrUndefined demo_isIP demo_env 0 (demo_http ''10.1.1.1'') []) = None"
proof -
  have "in_production demo_env" by code_simp
  moreover have "fst (getTrustedClientIpOrUndefined demo_isIP demo_env 0 (demo_http ''127.0.0.1'') [])
      = Some ''203.0.113.9''" by code_simp
  ultimately have "header_address demo_isIP demo_env (demo_http ''127.0.0.1'') = Some ''203.0.113.9''"
    using client_ip_not_spoofable by blast
  moreover have "fst (getTrustedClientIpOrUndefined demo_isIP demo_env 0 (demo_http ''10.1.1.1'') []) = None"
    by code_simp
  ultimately show ?thesis by simp
qed

end
