(* ===== verification/Ip_Allowlist.thy ===== *)
theory Ip_Allowlist
  imports Client_Ip Db_Context
begin

text \<open>
  apps/api/src/services/ipAllowlist.ts: the IP allowlist of a partner. The list is read from the
  partner's settings with system visibility and kept in a cache of the process for 30 seconds; a
  request is denied when its trusted address is not on a list that has entries. The cache is passed
  and returned; an audit event is a value of the result.
\<close>

section \<open>Decisions\<close>

datatype ip_allowlist_mode = Enforce | Off

datatype deny_reason = NotInList | UntrustedIp

datatype skip_reason = ModeOff | EmptyList | PlatformAdmin | NoPartner

datatype ip_decision = Allow | Deny deny_reason | Skip skip_reason

fun isBlocked :: "ip_decision \<Rightarrow> bool" where
  "isBlocked (Deny _) = True"
| "isBlocked _ = False"

definition evaluateIpAllowlist ::
  "ip_allowlist_mode \<Rightarrow> string list option \<Rightarrow> string option \<Rightarrow> bool \<Rightarrow> ip_decision" where
  "evaluateIpAllowlist mode allowlist clientIp isPlatformAdmin =
     (if mode = Off then Skip ModeOff
      else (case allowlist of
              None \<Rightarrow> Skip EmptyList
            | Some list \<Rightarrow>
                if list = [] then Skip EmptyList
                else if isPlatformAdmin then Skip PlatformAdmin
                else (case clientIp of
                        None \<Rightarrow> Deny UntrustedIp
                      | Some ip \<Rightarrow> if ipMatchesAny ip list then Allow else Deny NotInList)))"

definition ipAllowlistMode :: "environment \<Rightarrow> ip_allowlist_mode" where
  "ipAllowlistMode env = (if IP_ALLOWLIST_ENFORCEMENT_MODE env = Some ''off'' then Off else Enforce)"

section \<open>Reading the list\<close>

definition CACHE_TTL_MS :: int where
  "CACHE_TTL_MS = 30000"

type_synonym allowlist_cache = "id \<rightharpoonup> string list \<times> int"

text \<open>The strings of \<open>settings.security.ipAllowlist\<close>.\<close>

definition settings_allowlist :: "json option \<Rightarrow> string list" where
  "settings_allowlist settings =
     (case json_prop (json_prop settings ''security'') ''ipAllowlist'' of
        Some (JArr vs) \<Rightarrow> concat (map (\<lambda>v. case v of JStr s \<Rightarrow> [s] | _ \<Rightarrow> []) vs)
      | _ \<Rightarrow> [])"

text \<open>\<open>Inl\<close> is the error thrown for a partner that is not found.\<close>

definition readPartnerAllowlist ::
  "database \<Rightarrow> id \<Rightarrow> int \<Rightarrow> allowlist_cache \<Rightarrow> ((string + string list) \<times> allowlist_cache) dbm" where
  "readPartnerAllowlist d partnerId now cache amb =
     (case (case cache partnerId of Some (v, expiresAt) \<Rightarrow> if expiresAt > now then Some v else None | None \<Rightarrow> None) of
        Some hit \<Rightarrow> (Inr hit, cache)
      | None \<Rightarrow>
          (case find (\<lambda>p. pa_id p = partnerId) (select_partners (current_gucs amb) d) of
             None \<Rightarrow> (Inl (''ipAllowlist: partner '' @ partnerId @ '' not found''), cache)
           | Some row \<Rightarrow>
               (let v = settings_allowlist (pa_settings row)
                in (Inr v, cache(partnerId \<mapsto> (v, now + CACHE_TTL_MS))))))"

definition clearPartnerAllowlistCache :: "id \<Rightarrow> allowlist_cache \<Rightarrow> allowlist_cache" where
  "clearPartnerAllowlistCache partnerId cache = cache(partnerId := None)"

section \<open>Enforcement\<close>

definition INACTIVE_ALLOWLIST_WARN_INTERVAL_MS :: int where
  "INACTIVE_ALLOWLIST_WARN_INTERVAL_MS = 60000"

definition warnInactiveAllowlist :: "id \<Rightarrow> int \<Rightarrow> (id \<rightharpoonup> int) \<Rightarrow> bool \<times> (id \<rightharpoonup> int)" where
  "warnInactiveAllowlist partnerId now warnedAt =
     (let lastWarnedAt = (case warnedAt partnerId of None \<Rightarrow> 0 | Some t \<Rightarrow> t)
      in if now - lastWarnedAt < INACTIVE_ALLOWLIST_WARN_INTERVAL_MS then (False, warnedAt)
         else (True, warnedAt(partnerId \<mapsto> now)))"

record allowlist_state =
  as_cache :: allowlist_cache
  as_warnedAt :: "id \<rightharpoonup> int"
  as_peers :: warn_map

datatype audit_event = AuditDenied id "string option" deny_reason | AuditBypass id "string option"

definition enforceIpAllowlist ::
  "(string \<Rightarrow> nat) \<Rightarrow> environment \<Rightarrow> database \<Rightarrow> int \<Rightarrow> request_like \<Rightarrow> id option \<Rightarrow> bool \<Rightarrow> allowlist_state
     \<Rightarrow> ((string + ip_decision \<times> audit_event list) \<times> allowlist_state) dbm" where
  "enforceIpAllowlist isIP env d now c partnerId isPlatformAdmin st amb =
     (case str_or_none partnerId of
        None \<Rightarrow> (Inr (Skip NoPartner, []), st)
      | Some pid \<Rightarrow>
          (let mode = ipAllowlistMode env;
               (read, cache') =
                 (if mode = Off then (Inr [], as_cache st)
                  else runOutsideDbContext
                         (withSystemDbAccessContext (readPartnerAllowlist d pid now (as_cache st))) amb)
           in case read of
                Inl err \<Rightarrow> (Inl err, st\<lparr>as_cache := cache'\<rparr>)
              | Inr allowlist \<Rightarrow>
                  (let (clientIp, peers') = getTrustedClientIpOrUndefined isIP env now c (as_peers st);
                       decision = evaluateIpAllowlist mode (Some allowlist) clientIp isPlatformAdmin;
                       warned' = (if decision = Deny UntrustedIp
                                  then snd (warnInactiveAllowlist pid now (as_warnedAt st)) else as_warnedAt st);
                       audit = (case decision of
                                  Deny reason \<Rightarrow> [AuditDenied pid clientIp reason]
                                | Skip reason \<Rightarrow> if reason = PlatformAdmin then [AuditBypass pid clientIp] else []
                                | Allow \<Rightarrow> [])
                   in (Inr (decision, audit),
                       \<lparr>as_cache = cache', as_warnedAt = warned', as_peers = peers'\<rparr>))))"

section \<open>Lemmas\<close>

definition partner_allowlist :: "database \<Rightarrow> id \<Rightarrow> string list option" where
  "partner_allowlist d pid =
     map_option (\<lambda>p. settings_allowlist (pa_settings p)) (find (\<lambda>p. pa_id p = pid) (partners d))"

text \<open>Every cached list is the one the table had when it was read, at most the lifetime before its expiry.\<close>

definition allowlist_cache_ok :: "(int \<Rightarrow> database) \<Rightarrow> int \<Rightarrow> allowlist_cache \<Rightarrow> bool" where
  "allowlist_cache_ok db_at now cache =
     (\<forall>pid v e. cache pid = Some (v, e) \<longrightarrow>
        e - CACHE_TTL_MS \<le> now \<and> partner_allowlist (db_at (e - CACHE_TTL_MS)) pid = Some v)"

text \<open>
  The states of one process: it starts with nothing cached, decides requests one after another under
  a clock that does not go back, over tables that change with time, reads a list under the caller's
  own context for the status page of routes/orgs.ts, and drops a partner's entry when that partner's
  settings are saved there. The addresses warned about belong to every caller of \<open>Client_Ip\<close>.
\<close>

inductive allowlist_reach ::
  "(string \<Rightarrow> nat) \<Rightarrow> environment \<Rightarrow> (int \<Rightarrow> database) \<Rightarrow> int \<Rightarrow> allowlist_state \<Rightarrow> bool"
  for isIP env db_at where
  boot: "allowlist_reach isIP env db_at now \<lparr>as_cache = Map.empty, as_warnedAt = Map.empty, as_peers = []\<rparr>"
| decide:
    "allowlist_reach isIP env db_at now st \<Longrightarrow> now \<le> now'
     \<Longrightarrow> enforceIpAllowlist isIP env (db_at now') now' c partnerId isPlatformAdmin st amb = (r, st')
     \<Longrightarrow> allowlist_reach isIP env db_at now' st'"
| status:
    "allowlist_reach isIP env db_at now st \<Longrightarrow> now \<le> now'
     \<Longrightarrow> readPartnerAllowlist (db_at now') pid now' (as_cache st) amb = (r, cache')
     \<Longrightarrow> allowlist_reach isIP env db_at now' (st\<lparr>as_cache := cache', as_peers := peers\<rparr>)"
| save:
    "allowlist_reach isIP env db_at now st
     \<Longrightarrow> allowlist_reach isIP env db_at now (st\<lparr>as_cache := clearPartnerAllowlistCache pid (as_cache st)\<rparr>)"

lemma read_system:
  "readPartnerAllowlist d pid now cache (Some SYSTEM_DB_ACCESS_CONTEXT) =
     (case (case cache pid of Some (v, e) \<Rightarrow> if e > now then Some v else None | None \<Rightarrow> None) of
        Some v \<Rightarrow> (Inr v, cache)
      | None \<Rightarrow> (case partner_allowlist d pid of
                  None \<Rightarrow> (Inl (''ipAllowlist: partner '' @ pid @ '' not found''), cache)
                | Some l \<Rightarrow> (Inr l, cache(pid \<mapsto> (l, now + CACHE_TTL_MS)))))"
  unfolding readPartnerAllowlist_def partner_allowlist_def Let_def
  by (simp split: option.split)

lemma read_result:
  assumes ok: "allowlist_cache_ok db_at now cache"
    and "readPartnerAllowlist (db_at now) pid now cache (Some SYSTEM_DB_ACCESS_CONTEXT) = (Inr l, cache')"
  shows "\<exists>t. now - CACHE_TTL_MS < t \<and> t \<le> now \<and> partner_allowlist (db_at t) pid = Some l"
proof -
  have hit: "\<exists>t. now - CACHE_TTL_MS < t \<and> t \<le> now \<and> partner_allowlist (db_at t) pid = Some v"
    if "cache pid = Some (v, e)" "now < e" for v e
    using ok that by (intro exI [of _ "e - CACHE_TTL_MS"]) (auto simp: allowlist_cache_ok_def)
  have fresh: "\<exists>t. now - CACHE_TTL_MS < t \<and> t \<le> now \<and> partner_allowlist (db_at t) pid = Some v"
    if "partner_allowlist (db_at now) pid = Some v" for v
    using that by (intro exI [of _ now]) (simp add: CACHE_TTL_MS_def)
  show ?thesis using assms(2) hit fresh unfolding read_system by (auto split: option.splits if_splits)
qed

lemma visible_partner:
  "find (\<lambda>p. pa_id p = pid) (select_partners g d) = Some row \<Longrightarrow> find (\<lambda>p. pa_id p = pid) (partners d) = Some row"
  unfolding select_partners_def find_filter find_Some_iff by (metis (mono_tags, lifting))

lemma read_cache_ok:
  assumes "allowlist_cache_ok db_at now cache" and "readPartnerAllowlist (db_at now) pid now cache amb = (r, cache')"
  shows "allowlist_cache_ok db_at now cache'"
  using assms
  by (auto simp: readPartnerAllowlist_def Let_def allowlist_cache_ok_def partner_allowlist_def dest!: visible_partner
      split: option.splits if_splits)

lemma allowlist_cache_ok_mono: "allowlist_cache_ok db_at now cache \<Longrightarrow> now \<le> now' \<Longrightarrow> allowlist_cache_ok db_at now' cache"
  by (fastforce simp: allowlist_cache_ok_def)

lemma enforce_cache_ok:
  assumes "allowlist_cache_ok db_at now (as_cache st)"
    and "enforceIpAllowlist isIP env (db_at now) now c partnerId admin st amb = (r, st')"
  shows "allowlist_cache_ok db_at now (as_cache st')"
proof (cases "str_or_none partnerId")
  case (Some pid)
  obtain q cache' where rd: "readPartnerAllowlist (db_at now) pid now (as_cache st) (Some SYSTEM_DB_ACCESS_CONTEXT) = (q, cache')"
    by fastforce
  from assms read_cache_ok [OF assms(1) rd] Some rd show ?thesis
    by (auto simp: enforceIpAllowlist_def Let_def split: sum.splits if_splits prod.splits)
qed (use assms in \<open>auto simp: enforceIpAllowlist_def\<close>)

lemma allowlist_reach_ok:
  "allowlist_reach isIP env db_at now st \<Longrightarrow> allowlist_cache_ok db_at now (as_cache st)"
proof (induction rule: allowlist_reach.induct)
  case (decide now st now' c partnerId admin amb r st')
  from enforce_cache_ok [OF allowlist_cache_ok_mono [OF decide.IH decide.hyps(2)] decide.hyps(3)] show ?case .
next
  case (status now st now' pid amb r cache' peers)
  from read_cache_ok [OF allowlist_cache_ok_mono [OF status.IH status.hyps(2)] status.hyps(3)] show ?case by simp
qed (auto simp: allowlist_cache_ok_def clearPartnerAllowlistCache_def split: if_splits)

section \<open>Properties\<close>

text \<open>C16: while enforcement is on, a process that decides a request for a partner, at any moment of its life, lets it
  past the allowlist exactly when the partner's list, as the table had it at some moment less than 30 seconds ago, is
  empty, or the user is a platform administrator, or a valid entry of the list is a network that holds the request's
  trusted address; so a request whose address cannot be trusted is denied. Every denial is audited, and so is every
  bypass by an administrator and nothing else. The answer does not depend on the ambient database context.\<close>

theorem allowlist_enforced:
  assumes "ipAllowlistMode env = Enforce" and "pid \<noteq> []"
    and "allowlist_reach isIP env db_at earlier st" and "earlier \<le> now"
    and run: "enforceIpAllowlist isIP env (db_at now) now c (Some pid) isPlatformAdmin st amb = (Inr (decision, audit), st')"
  shows "enforceIpAllowlist isIP env (db_at now) now c (Some pid) isPlatformAdmin st amb' = (Inr (decision, audit), st')
    \<and> (\<exists>t l ip. now - CACHE_TTL_MS < t \<and> t \<le> now \<and> partner_allowlist (db_at t) pid = Some l
         \<and> ip = fst (getTrustedClientIpOrUndefined isIP env now c (as_peers st))
         \<and> (\<not> isBlocked decision \<longleftrightarrow>
              l = [] \<or> isPlatformAdmin
              \<or> (\<exists>a e. ip = Some a \<and> e \<in> set l \<and> isValidIpOrCidr e \<and> in_network a (the (parse_network (trim e)))))
         \<and> audit = (if isBlocked decision then [AuditDenied pid ip (if ip = None then UntrustedIp else NotInList)]
                    else if l \<noteq> [] \<and> isPlatformAdmin then [AuditBypass pid ip] else []))"
proof -
  note ok = allowlist_cache_ok_mono [OF allowlist_reach_ok [OF assms(3)] assms(4)]
  obtain r cache' where rd: "readPartnerAllowlist (db_at now) pid now (as_cache st) (Some SYSTEM_DB_ACCESS_CONTEXT) = (r, cache')"
    by fastforce
  obtain ip peers where ci: "getTrustedClientIpOrUndefined isIP env now c (as_peers st) = (ip, peers)" by fastforce
  have pid: "str_or_none (Some pid) = Some pid" using assms(2) by (simp add: str_or_none_def)
  have same: "enforceIpAllowlist isIP env (db_at now) now c (Some pid) isPlatformAdmin st amb' = (Inr (decision, audit), st')"
    using run assms(1) by (simp add: enforceIpAllowlist_def pid)
  obtain l where l: "r = Inr l" "decision = evaluateIpAllowlist Enforce (Some l) ip isPlatformAdmin"
    and audit: "audit = (case decision of Deny reason \<Rightarrow> [AuditDenied pid ip reason]
        | Skip reason \<Rightarrow> if reason = PlatformAdmin then [AuditBypass pid ip] else [] | Allow \<Rightarrow> [])"
    using run assms(1) by (auto simp: enforceIpAllowlist_def pid rd ci Let_def split: sum.splits)
  have "\<not> isBlocked decision \<longleftrightarrow> l = [] \<or> isPlatformAdmin \<or> (\<exists>a. ip = Some a \<and> ipMatchesAny a l)"
    unfolding l(2) by (auto simp: evaluateIpAllowlist_def split: option.split)
  moreover have "audit = (if isBlocked decision then [AuditDenied pid ip (if ip = None then UntrustedIp else NotInList)]
      else if l \<noteq> [] \<and> isPlatformAdmin then [AuditBypass pid ip] else [])"
    unfolding audit l(2) by (auto simp: evaluateIpAllowlist_def split: option.split)
  ultimately show ?thesis
    using same read_result [OF ok rd [unfolded l(1)]] unfolding ci by (auto simp: ipMatchesAny_spec)
qed

text \<open>A partner with one listed network, and a request from inside it through a loopback proxy.\<close>

definition demo_partner :: partner_row where
  "demo_partner =
     \<lparr>pa_id = ''p'', pa_status = PActive, pa_deletedAt = None,
      pa_settings = Some (JObj [(''security'', JObj [(''ipAllowlist'', JArr [JNum 1, JStr ''203.0.113.0/24''])])])\<rparr>"

definition demo_db :: database where
  "demo_db = \<lparr>users = [], partners = [demo_partner], organizations = [], roles = [], permissions_table = [],
     role_permissions = [], organization_users = [], partner_users = [], ai_budgets = []\<rparr>"

definition demo_state :: allowlist_state where
  "demo_state = \<lparr>as_cache = Map.empty, as_warnedAt = Map.empty, as_peers = []\<rparr>"

theorem allowlist_enforced_witness:
  "partner_allowlist demo_db ''p'' = Some [''203.0.113.0/24'']
   \<and> (\<exists>e. e \<in> set [''203.0.113.0/24''] \<and> isValidIpOrCidr e
         \<and> in_network ''203.0.113.9'' (the (parse_network (trim e))))"
proof -
  let ?run = "enforceIpAllowlist demo_isIP demo_env demo_db 0 (demo_http ''127.0.0.1'') (Some ''p'') False demo_state None"
  have "fst ?run = Inr (Allow, [])" by code_simp
  then have run: "?run = (Inr (Allow, []), snd ?run)" by (simp add: prod_eq_iff)
  have mode: "ipAllowlistMode demo_env = Enforce" by code_simp
  have list: "partner_allowlist demo_db ''p'' = Some [''203.0.113.0/24'']" by code_simp
  have ip: "fst (getTrustedClientIpOrUndefined demo_isIP demo_env 0 (demo_http ''127.0.0.1'') (as_peers demo_state))
      = Some ''203.0.113.9''" by code_simp
  have "allowlist_reach demo_isIP demo_env (\<lambda>_. demo_db) 0 demo_state"
    unfolding demo_state_def by (rule allowlist_reach.boot)
  from allowlist_enforced [of demo_env "''p''" demo_isIP "\<lambda>_. demo_db", OF mode _ this order_refl run] list ip
  show ?thesis by auto
qed

end
