(* ===== verification/Contract_Math.thy ===== *)
theory Contract_Math
  imports Js_Text
begin

text \<open>
  apps/api/src/services/contractMath.ts: the calendar of recurring contracts. Dates are ISO texts,
  compared as texts; a number that is \<open>NaN\<close> is \<open>None\<close>. The inputs are dates of the database, whose
  segments are digits.
\<close>

section \<open>Dates as texts\<close>

definition js_rem :: "int \<Rightarrow> int \<Rightarrow> int" where
  "js_rem a b = a - b * (sgn a * sgn b * (abs a div abs b))"

definition parts :: "string \<Rightarrow> int option \<times> int option \<times> int option" where
  "parts text =
     (let segments = split_on (CHR ''-'') text;
          num = (\<lambda>k. if k < length segments then map_option int (parse_dec (segments ! k)) else None)
      in (num 0, num 1, num 2))"

text \<open>\<open>Date.UTC\<close> reads the years 0 to 99 as 1900 to 1999.\<close>

definition utc_year :: "int \<Rightarrow> int" where
  "utc_year y = (if 0 \<le> y \<and> y \<le> 99 then 1900 + y else y)"

definition leap_year :: "int \<Rightarrow> bool" where
  "leap_year y = (y mod 4 = 0 \<and> (y mod 100 \<noteq> 0 \<or> y mod 400 = 0))"

definition month_days :: "int \<Rightarrow> int \<Rightarrow> int" where
  "month_days y m =
     (if m = 2 then (if leap_year y then 29 else 28) else if m \<in> {4, 6, 9, 11} then 30 else 31)"

definition daysInMonth :: "int \<Rightarrow> int \<Rightarrow> int" where
  "daysInMonth year month1 = month_days (utc_year year) month1"

definition nan_text :: "int option \<Rightarrow> string" where
  "nan_text n = (case n of None \<Rightarrow> ''NaN'' | Some i \<Rightarrow> number_text i)"

definition padStart2 :: "string \<Rightarrow> string" where
  "padStart2 s = replicate (2 - length s) (CHR ''0'') @ s"

definition fmt :: "int option \<Rightarrow> int option \<Rightarrow> int option \<Rightarrow> string" where
  "fmt y m1 d = nan_text y @ ''-'' @ padStart2 (nan_text m1) @ ''-'' @ padStart2 (nan_text d)"

section \<open>Months and periods\<close>

definition addMonthsClamped :: "string \<Rightarrow> int \<Rightarrow> string" where
  "addMonthsClamped text months =
     (case parts text of (y, m, d) \<Rightarrow>
        (case m of
           None \<Rightarrow> fmt None None None
         | Some m' \<Rightarrow>
             (let zeroBased = (m' - 1) + months;
                  ny = map_option (\<lambda>y'. y' + zeroBased div 12) y;
                  nm1 = js_rem (js_rem zeroBased 12 + 12) 12 + 1;
                  clampedDay = (case (d, ny) of (Some d', Some n) \<Rightarrow> Some (min d' (daysInMonth n nm1)) | _ \<Rightarrow> None)
              in fmt ny (Some nm1) clampedDay)))"

record period =
  periodStart :: string
  periodEnd :: string

definition computePeriod :: "string \<Rightarrow> int \<Rightarrow> int \<Rightarrow> period" where
  "computePeriod startDate intervalMonths periodIndex =
     \<lparr>periodStart = addMonthsClamped startDate (intervalMonths * periodIndex),
      periodEnd = addMonthsClamped startDate (intervalMonths * (periodIndex + 1))\<rparr>"

text \<open>The loop ends when the next period starts after the date, or past the runaway guard.\<close>

function period_loop :: "string \<Rightarrow> int \<Rightarrow> string \<Rightarrow> int \<Rightarrow> int" where
  "period_loop startDate intervalMonths asOf idx =
     (if str_le (periodStart (computePeriod startDate intervalMonths (idx + 1))) asOf
      then (if idx + 1 > 100000 then idx + 1 else period_loop startDate intervalMonths asOf (idx + 1))
      else idx)"
  by pat_completeness auto

termination
  by (relation "measure (\<lambda>(s, n, a, idx). nat (100001 - idx))") auto

definition periodIndexFor :: "string \<Rightarrow> int \<Rightarrow> string \<Rightarrow> int" where
  "periodIndexFor startDate intervalMonths asOf = period_loop startDate intervalMonths asOf 0"

datatype billing_timing = Advance | Arrears

definition nextBillingDate :: "string \<Rightarrow> int \<Rightarrow> billing_timing \<Rightarrow> int \<Rightarrow> string" where
  "nextBillingDate startDate intervalMonths billingTiming periodIndex =
     (let p = computePeriod startDate intervalMonths periodIndex
      in if billingTiming = Advance then periodStart p else periodEnd p)"

definition isExpired :: "string option \<Rightarrow> string \<Rightarrow> bool" where
  "isExpired endDate start = (case endDate of None \<Rightarrow> False | Some e \<Rightarrow> str_le e start)"

section \<open>Days, notice and renewal\<close>

lemma month_days_bounds: "28 \<le> month_days y m" "month_days y m \<le> 31"
  by (simp_all add: month_days_def)

text \<open>The day of a month beyond its end or before its start, as \<open>Date.UTC\<close> carries it.\<close>

function norm_day :: "int \<Rightarrow> int \<Rightarrow> int \<Rightarrow> int \<times> int \<times> int" where
  "norm_day y m d =
     (if d < 1 then (if m = 1 then norm_day (y - 1) 12 (d + month_days (y - 1) 12)
                     else norm_day y (m - 1) (d + month_days y (m - 1)))
      else if d > month_days y m then (if m = 12 then norm_day (y + 1) 1 (d - month_days y m)
                                       else norm_day y (m + 1) (d - month_days y m))
      else (y, m, d))"
  by pat_completeness auto

termination
proof (relation "measure (\<lambda>(y, m, d). nat (if d < 1 then 32 - d else d))")
  fix y m d :: int
  note b = month_days_bounds [of "y - 1" 12] month_days_bounds [of y "m - 1"] month_days_bounds [of y m]
  show "((y - 1, 12, d + month_days (y - 1) 12), y, m, d) \<in> measure (\<lambda>(y, m, d). nat (if d < 1 then 32 - d else d))"
    if "d < 1" using that b by simp
  show "((y, m - 1, d + month_days y (m - 1)), y, m, d) \<in> measure (\<lambda>(y, m, d). nat (if d < 1 then 32 - d else d))"
    if "d < 1" using that b by simp
  show "((y + 1, 1, d - month_days y m), y, m, d) \<in> measure (\<lambda>(y, m, d). nat (if d < 1 then 32 - d else d))"
    if "\<not> d < 1" "month_days y m < d" using that b by simp
  show "((y, m + 1, d - month_days y m), y, m, d) \<in> measure (\<lambda>(y, m, d). nat (if d < 1 then 32 - d else d))"
    if "\<not> d < 1" "month_days y m < d" using that b by simp
qed simp

definition addDaysISO :: "string \<Rightarrow> int \<Rightarrow> string" where
  "addDaysISO text days =
     (case parts text of
        (Some y, Some m, Some d) \<Rightarrow>
          (case norm_day (utc_year y) m (d + days) of (y', m', d') \<Rightarrow> fmt (Some y') (Some m') (Some d'))
      | _ \<Rightarrow> fmt None None None)"

definition duePeriodStartFor :: "billing_timing \<Rightarrow> string \<Rightarrow> int \<Rightarrow> string" where
  "duePeriodStartFor billingTiming nextBillingAt intervalMonths =
     (if billingTiming = Advance then nextBillingAt else addMonthsClamped nextBillingAt (- intervalMonths))"

definition isWithinNoticeWindow :: "string \<Rightarrow> string \<Rightarrow> int \<Rightarrow> bool" where
  "isWithinNoticeWindow asOf endDate noticeDays =
     (let windowStart = addDaysISO endDate (- noticeDays)
      in str_le windowStart asOf \<and> \<not> str_le endDate asOf)"

function extend_loop :: "string \<Rightarrow> int \<Rightarrow> nat \<Rightarrow> string \<Rightarrow> bool \<Rightarrow> string \<times> bool" where
  "extend_loop due termMonths guard endDate renewed =
     (if isExpired (Some endDate) due
      then (if guard + 1 > 100000 then (addMonthsClamped endDate termMonths, True)
            else extend_loop due termMonths (guard + 1) (addMonthsClamped endDate termMonths) True)
      else (endDate, renewed))"
  by pat_completeness auto

termination
  by (relation "measure (\<lambda>(d, t, guard, e, r). 100001 - guard)") auto

definition extendTermPastDue :: "string \<Rightarrow> string \<Rightarrow> int \<Rightarrow> string \<times> bool" where
  "extendTermPastDue endDate duePeriodStart termMonths = extend_loop duePeriodStart termMonths 0 endDate False"

declare period_loop.simps [simp del] norm_day.simps [simp del] extend_loop.simps [simp del]

section \<open>The order of date texts\<close>

definition dec_value :: "string \<Rightarrow> nat" where
  "dec_value s = foldl (\<lambda>n c. 10 * n + (of_char c - 48)) 0 s"

lemma foldl_dec: "foldl (\<lambda>n c. 10 * n + (of_char c - 48)) a s = a * 10 ^ length s + (dec_value s :: nat)"
proof (induction s arbitrary: a)
  case (Cons c s)
  show ?case using Cons [of "10 * a + (of_char c - 48)"] Cons [of "of_char c - 48"]
    by (simp add: dec_value_def algebra_simps)
qed (simp add: dec_value_def)

lemma dec_value_Cons: "dec_value (c # s) = (of_char c - 48) * 10 ^ length s + dec_value s"
  using foldl_dec [of "of_char c - 48" s] by (simp add: dec_value_def)

lemma dec_value_Nil [simp]: "dec_value [] = 0"
  by (simp add: dec_value_def)

lemma dec_value_bound: "list_all is_dec_digit s \<Longrightarrow> dec_value s < 10 ^ length s"
proof (induction s)
  case (Cons c s)
  then have "of_char c \<le> (57 :: nat)" by (simp add: is_dec_digit_def)
  then have "of_char c - 48 \<le> (9 :: nat)" by linarith
  then have "(of_char c - 48) * 10 ^ length s \<le> (9 :: nat) * 10 ^ length s" by (rule mult_le_mono1)
  moreover have "dec_value s < 10 ^ length s" using Cons by simp
  ultimately have "dec_value (c # s) < 9 * 10 ^ length s + 10 ^ length s"
    unfolding dec_value_Cons by (rule add_le_less_mono)
  then show ?case by simp
qed simp

lemma str_le_digits:
  assumes "length s = length t" and "list_all is_dec_digit s" and "list_all is_dec_digit t"
  shows "str_le s t \<longleftrightarrow> dec_value s \<le> dec_value t"
  using assms
proof (induction s t rule: list_induct2)
  case (Cons c s d t)
  let ?p = "10 ^ length s :: nat" and ?c = "of_char c - 48 :: nat" and ?d = "of_char d - 48 :: nat"
  note b = dec_value_bound [of s] dec_value_bound [of t]
  have dig: "48 \<le> (of_char c :: nat)" "48 \<le> (of_char d :: nat)" using Cons.prems by (simp_all add: is_dec_digit_def)
  consider "?c < ?d" | "?d < ?c" | "?c = ?d" by linarith
  then show ?case
  proof cases
    case 1
    then have "?c * ?p + ?p \<le> ?d * ?p" by (metis Suc_leI mult_Suc mult_le_mono1 add.commute)
    moreover from 1 have "of_char c < (of_char d :: nat)" by linarith
    ultimately show ?thesis using b Cons by (simp add: dec_value_Cons)
  next
    case 2
    then have "?d * ?p + ?p \<le> ?c * ?p" by (metis Suc_leI mult_Suc mult_le_mono1 add.commute)
    moreover from 2 have "c \<noteq> d" "\<not> of_char c < (of_char d :: nat)" by (metis less_irrefl, linarith)
    ultimately show ?thesis using b Cons by (simp add: dec_value_Cons)
  next
    case 3
    with dig have "of_char c = (of_char d :: nat)" by linarith
    then have "c = d" by simp
    with Cons show ?thesis by (simp add: dec_value_Cons)
  qed
qed simp

declare str_le_refl [simp]

lemma str_le_antisym: "str_le s t \<Longrightarrow> str_le t s \<Longrightarrow> s = t"
  by (induction s t rule: str_le.induct) (auto elim: str_le.elims)

lemma str_le_append:
  "length a = length b \<Longrightarrow> str_le (a @ x) (b @ y) \<longleftrightarrow> (if a = b then str_le x y else str_le a b)"
  by (induction a b rule: list_induct2) auto

lemma digits_inj:
  assumes "length s = length t" and "list_all is_dec_digit s" and "list_all is_dec_digit t"
  shows "s = t \<longleftrightarrow> dec_value s = dec_value t"
  using str_le_digits [OF assms] str_le_digits [OF assms(1)[symmetric] assms(3,2)] str_le_antisym by force

text \<open>Numbers printed with a fixed width.\<close>

lemma dec_value_dec_string [simp]: "dec_value (dec_string n) = n"
  by (simp add: dec_value_def foldl_dec_string)

lemma dec_value_pad [simp]: "dec_value (replicate k (CHR ''0'') @ s) = dec_value s"
  by (induction k) (simp_all add: dec_value_Cons)

lemma digits_replicate [simp]: "list_all is_dec_digit (replicate k (CHR ''0''))"
  by (induction k) (simp_all add: is_dec_digit_def)

lemma parse_dec_value: "list_all is_dec_digit s \<Longrightarrow> s \<noteq> [] \<Longrightarrow> parse_dec s = Some (dec_value s)"
  by (simp add: parse_dec_def dec_value_def)

section \<open>Valid dates\<close>

definition iso_date :: "int \<Rightarrow> int \<Rightarrow> int \<Rightarrow> string" where
  "iso_date y m d = fmt (Some y) (Some m) (Some d)"

definition valid_date :: "int \<Rightarrow> int \<Rightarrow> int \<Rightarrow> bool" where
  "valid_date y m d = (1000 \<le> y \<and> y \<le> 9999 \<and> 1 \<le> m \<and> m \<le> 12 \<and> 1 \<le> d \<and> d \<le> month_days y m)"

lemma pad_two:
  assumes "0 \<le> n" and "n < 100"
  shows "length (padStart2 (number_text n)) = 2" and "list_all is_dec_digit (padStart2 (number_text n))"
    and "dec_value (padStart2 (number_text n)) = nat n"
proof -
  have "nat n < 10 ^ 2" using assms by simp
  from length_dec_string [OF this] show "length (padStart2 (number_text n)) = 2"
    using assms by (simp add: padStart2_def number_text_def)
qed (use assms in \<open>simp_all add: padStart2_def number_text_def list_all_dec_string\<close>)

lemma year_text:
  assumes "1000 \<le> n" and "n \<le> 9999"
  shows "length (number_text n) = 4" and "list_all is_dec_digit (number_text n)" and "dec_value (number_text n) = nat n"
proof -
  have "nat n < 10 ^ 4" "10 ^ 3 \<le> nat n" using assms by simp_all
  with length_dec_string [of "nat n" 4] length_dec_string_ge [of 3 "nat n"] show "length (number_text n) = 4"
    using assms by (simp add: number_text_def)
qed (use assms in \<open>simp_all add: number_text_def list_all_dec_string\<close>)

lemma digits_no_dash: "list_all is_dec_digit s \<Longrightarrow> CHR ''-'' \<notin> set s"
  by (auto simp: list_all_iff is_dec_digit_def)

lemma valid_dateD:
  assumes "valid_date y m d"
  shows "1000 \<le> y" "y \<le> 9999" "0 \<le> m" "m < 100" "0 \<le> d" "d < 100"
  using assms month_days_bounds(2) [of y m] by (auto simp: valid_date_def)

lemma parts_iso_date:
  assumes "valid_date y m d"
  shows "parts (iso_date y m d) = (Some y, Some m, Some d)"
proof -
  note v = valid_dateD [OF assms]
  note Y = year_text [OF v(1,2)] and M = pad_two [OF v(3,4)] and D = pad_two [OF v(5,6)]
  have ne: "number_text y \<noteq> []" "padStart2 (number_text m) \<noteq> []" "padStart2 (number_text d) \<noteq> []"
    using Y(1) M(1) D(1) by auto
  have "split_on (CHR ''-'') (iso_date y m d) = [number_text y, padStart2 (number_text m), padStart2 (number_text d)]"
    using digits_no_dash [OF Y(2)] digits_no_dash [OF M(2)] digits_no_dash [OF D(2)]
    by (simp add: iso_date_def fmt_def nan_text_def split_on_append_sep split_on_no_sep)
  with ne v show ?thesis
    by (simp add: parts_def Let_def parse_dec_value [OF Y(2)] parse_dec_value [OF M(2)] parse_dec_value [OF D(2)]
        Y(3) M(3) D(3))
qed

text \<open>The order of the texts is the order of the dates: by month index, then by day.\<close>

definition month_index :: "int \<Rightarrow> int \<Rightarrow> int" where
  "month_index y m = 12 * y + (m - 1)"

definition date_le :: "int \<times> int \<Rightarrow> int \<times> int \<Rightarrow> bool" where
  "date_le a b = (fst a < fst b \<or> fst a = fst b \<and> snd a \<le> snd b)"

lemma iso_date_le:
  assumes a: "valid_date y m d" and b: "valid_date y' m' d'"
  shows "str_le (iso_date y m d) (iso_date y' m' d') \<longleftrightarrow> date_le (month_index y m, d) (month_index y' m', d')"
proof -
  note va = valid_dateD [OF a] and vb = valid_dateD [OF b]
  note Y = year_text [OF va(1,2)] year_text [OF vb(1,2)]
  note M = pad_two [OF va(3,4)] pad_two [OF vb(3,4)]
  note D = pad_two [OF va(5,6)] pad_two [OF vb(5,6)]
  have "str_le (iso_date y m d) (iso_date y' m' d') \<longleftrightarrow> y < y' \<or> y = y' \<and> (m < m' \<or> m = m' \<and> d \<le> d')"
    using Y M D va vb
    by (simp add: iso_date_def fmt_def nan_text_def str_le_append digits_inj str_le_digits nat_le_eq_zle)
       (auto simp: nat_eq_iff)
  also have "\<dots> \<longleftrightarrow> date_le (month_index y m, d) (month_index y' m', d')"
    using a b by (auto simp: date_le_def month_index_def valid_date_def)
  finally show ?thesis .
qed

section \<open>Adding months\<close>

text \<open>The date with day \<open>d\<close>, clamped, in the month of index \<open>k\<close>.\<close>

definition month_date :: "int \<Rightarrow> int \<Rightarrow> string" where
  "month_date k d = iso_date (k div 12) (k mod 12 + 1) (min d (month_days (k div 12) (k mod 12 + 1)))"

definition month_ok :: "int \<Rightarrow> bool" where
  "month_ok k = (12000 \<le> k \<and> k \<le> 119999)"

lemma js_rem_mod: "js_rem (js_rem z 12 + 12) 12 = z mod 12"
proof -
  have "js_rem z 12 = (if 0 \<le> z then z mod 12 else - ((- z) mod 12))"
    by (simp add: js_rem_def sgn_if minus_mult_div_eq_mod [symmetric] abs_if)
  moreover have "js_rem (a + 12) 12 = (a + 12) mod 12" if "-12 < a" for a
    using that by (simp add: js_rem_def sgn_if minus_mult_div_eq_mod [symmetric])
  moreover have "- ((- z) mod 12) > - 12" "- 12 < z mod 12"
    using pos_mod_bound [of 12 "- z"] pos_mod_sign [of 12 z] by linarith+
  ultimately show ?thesis by (simp add: mod_simps)
qed

lemma month_ok_year: "month_ok k \<Longrightarrow> 1000 \<le> k div 12 \<and> k div 12 \<le> 9999"
  by (auto simp: month_ok_def)

lemma valid_month_date: "month_ok k \<Longrightarrow> 1 \<le> d \<Longrightarrow> valid_date (k div 12) (k mod 12 + 1) (min d (month_days (k div 12) (k mod 12 + 1)))"
  using month_ok_year [of k] month_days_bounds(1) [of "k div 12" "k mod 12 + 1"] by (auto simp: valid_date_def)

lemma month_index_of: "month_index (k div 12) (k mod 12 + 1) = k"
  by (simp add: month_index_def)

lemma month_index_div: "1 \<le> m \<Longrightarrow> m \<le> 12 \<Longrightarrow> month_index y m div 12 = y \<and> month_index y m mod 12 + 1 = m"
  by (simp add: month_index_def)

lemma valid_month_ok: "valid_date y m d \<Longrightarrow> month_ok (month_index y m)"
  by (auto simp: valid_date_def month_ok_def month_index_def)

lemma iso_date_month_date: "valid_date y m d \<Longrightarrow> iso_date y m d = month_date (month_index y m) d"
  by (auto simp: month_date_def month_index_def valid_date_def min_def)

lemma month_date_clamped:
  "month_date k (min d (month_days (k div 12) (k mod 12 + 1))) = month_date k d"
  by (simp add: month_date_def)

lemma addMonthsClamped_iso:
  assumes "valid_date y m d" and "month_ok (month_index y m + n)"
  shows "addMonthsClamped (iso_date y m d) n = month_date (month_index y m + n) d"
proof -
  have "y + (m - 1 + n) div 12 = (month_index y m + n) div 12"
    unfolding month_index_def by (simp add: div_plus_div_distrib_dvd_left add.assoc)
  moreover have "(m - 1 + n) mod 12 = (month_index y m + n) mod 12"
    unfolding month_index_def by (simp add: add.assoc)
  moreover have "utc_year ((month_index y m + n) div 12) = (month_index y m + n) div 12"
    using month_ok_year [OF assms(2)] by (simp add: utc_year_def)
  ultimately show ?thesis
    unfolding addMonthsClamped_def parts_iso_date [OF assms(1)] month_date_def
    by (simp add: iso_date_def Let_def js_rem_mod daysInMonth_def)
qed

lemma addMonthsClamped_month_date:
  assumes "month_ok k" and "1 \<le> d" and "month_ok (k + n)"
  shows "addMonthsClamped (month_date k d) n = month_date (k + n) (min d (month_days (k div 12) (k mod 12 + 1)))"
  using addMonthsClamped_iso [OF valid_month_date [OF assms(1,2)], of n] assms(3)
  by (simp add: month_date_def month_index_of)

text \<open>Texts of dates in different months are ordered as the months are.\<close>

lemma month_date_le:
  assumes "month_ok a" and "month_ok b" and "1 \<le> d" and "1 \<le> e"
  shows "str_le (month_date a d) (month_date b e)
    \<longleftrightarrow> date_le (a, min d (month_days (a div 12) (a mod 12 + 1))) (b, min e (month_days (b div 12) (b mod 12 + 1)))"
  using iso_date_le [OF valid_month_date [OF assms(1,3)] valid_month_date [OF assms(2,4)]]
  by (simp add: month_date_def month_index_of)

section \<open>Periods\<close>

lemma period_start_eq:
  assumes "valid_date y m d" and "month_ok (month_index y m + k * i)"
  shows "periodStart (computePeriod (iso_date y m d) k i) = month_date (month_index y m + k * i) d"
  using addMonthsClamped_iso [OF assms] by (simp add: computePeriod_def)

lemma period_end_start: "periodEnd (computePeriod s k i) = periodStart (computePeriod s k (i + 1))"
  by (simp add: computePeriod_def)

text \<open>The month index of the start of period \<open>i\<close> decides against a date in another month.\<close>

lemma period_start_le:
  assumes v: "valid_date y m d" and a: "valid_date y' m' d'" and k: "month_ok (month_index y m + k * i)"
  shows "str_le (periodStart (computePeriod (iso_date y m d) k i)) (iso_date y' m' d')
     \<longleftrightarrow> month_index y m + k * i < month_index y' m'
        \<or> month_index y m + k * i = month_index y' m' \<and> min d (month_days y' m') \<le> d'"
proof -
  have d: "1 \<le> d" "1 \<le> d'" "d' \<le> month_days y' m'" "1 \<le> m'" "m' \<le> 12" using v a by (auto simp: valid_date_def)
  have *: "month_index y' m' div 12 = y'" "month_index y' m' mod 12 + 1 = m'" using month_index_div [OF d(4,5)] by auto
  show ?thesis
    unfolding period_start_eq [OF v k] iso_date_month_date [OF a]
    using month_date_le [OF k valid_month_ok [OF a] d(1,2)] d(3) by (auto simp: date_le_def *)
qed

lemma period_loop_spec:
  assumes v: "valid_date y m d" and a: "valid_date y' m' d'" and "1 \<le> k"
    and far: "month_ok (month_index y' m' + k)" and short: "month_index y' m' - month_index y m < 100000"
    and "0 \<le> idx" and "str_le (periodStart (computePeriod (iso_date y m d) k idx)) (iso_date y' m' d')"
    and "month_index y m + k * idx \<le> month_index y' m'"
  shows "let r = period_loop (iso_date y m d) k (iso_date y' m' d') idx
         in idx \<le> r \<and> str_le (periodStart (computePeriod (iso_date y m d) k r)) (iso_date y' m' d')
            \<and> month_index y m + k * r \<le> month_index y' m'
            \<and> \<not> str_le (periodStart (computePeriod (iso_date y m d) k (r + 1))) (iso_date y' m' d')"
  using assms(6-8)
proof (induction "nat (100001 - idx)" arbitrary: idx rule: less_induct)
  case less
  let ?P = "\<lambda>i. str_le (periodStart (computePeriod (iso_date y m d) k i)) (iso_date y' m' d')"
  have m0: "month_ok (month_index y m)" using valid_month_ok [OF v] .
  have "0 \<le> k * idx" using assms(3) less.prems(1) by simp
  then have next_ok: "month_ok (month_index y m + k * (idx + 1))"
    using m0 far less.prems(3) assms(3) by (simp add: month_ok_def distrib_left)
  show ?case
  proof (cases "?P (idx + 1)")
    case True
    then have le: "month_index y m + k * (idx + 1) \<le> month_index y' m'"
      using period_start_le [OF v a next_ok] by auto
    have "idx + 1 \<le> k * (idx + 1)" using assms(3) less.prems(1) by (simp add: mult_le_cancel_right1)
    with le short have small: "idx + 1 < 100000" by linarith
    with True have "period_loop (iso_date y m d) k (iso_date y' m' d') idx
        = period_loop (iso_date y m d) k (iso_date y' m' d') (idx + 1)"
      by (subst period_loop.simps) simp
    with less.hyps [of "idx + 1"] True le small less.prems(1) show ?thesis by (simp add: Let_def)
  next
    case False
    then have "period_loop (iso_date y m d) k (iso_date y' m' d') idx = idx" by (subst period_loop.simps) simp
    with False less.prems show ?thesis by simp
  qed
qed

lemma period_start_antimono:
  assumes v: "valid_date y m d" and a: "valid_date y' m' d'" and "1 \<le> k" and "j \<le> i"
    and j: "month_ok (month_index y m + k * j)" and i: "month_ok (month_index y m + k * i)"
    and "str_le (periodStart (computePeriod (iso_date y m d) k i)) (iso_date y' m' d')"
  shows "str_le (periodStart (computePeriod (iso_date y m d) k j)) (iso_date y' m' d')"
proof (cases "j = i")
  case False
  with assms(3,4) have "k * j < k * i" by simp
  with assms(7) show ?thesis unfolding period_start_le [OF v a j] period_start_le [OF v a i] by linarith
qed (use assms(7) in simp)

lemma period_zero: "valid_date y m d \<Longrightarrow> periodStart (computePeriod (iso_date y m d) k 0) = iso_date y m d"
  using period_start_eq [of y m d k 0] by (simp add: valid_month_ok iso_date_month_date)

lemma periodIndexFor_spec:
  assumes v: "valid_date y m d" and a: "valid_date y' m' d'" and k: "1 \<le> k"
    and "month_ok (month_index y' m' + k)" and "month_index y' m' - month_index y m < 100000"
    and "str_le (iso_date y m d) (iso_date y' m' d')"
  defines "r \<equiv> periodIndexFor (iso_date y m d) k (iso_date y' m' d')"
  shows "0 \<le> r" and "month_index y m + k * r \<le> month_index y' m'"
    and "str_le (periodStart (computePeriod (iso_date y m d) k r)) (iso_date y' m' d')"
    and "\<not> str_le (periodEnd (computePeriod (iso_date y m d) k r)) (iso_date y' m' d')"
proof -
  have "month_index y m + k * 0 \<le> month_index y' m'"
    using assms(6) iso_date_le [OF v a] by (auto simp: date_le_def)
  then have "let r = r in 0 \<le> r \<and> str_le (periodStart (computePeriod (iso_date y m d) k r)) (iso_date y' m' d')
            \<and> month_index y m + k * r \<le> month_index y' m'
            \<and> \<not> str_le (periodStart (computePeriod (iso_date y m d) k (r + 1))) (iso_date y' m' d')"
    unfolding r_def periodIndexFor_def using assms(6) period_zero [OF v, of k]
    by (intro period_loop_spec [OF v a k assms(4,5)]) simp_all
  then show "0 \<le> r" and "month_index y m + k * r \<le> month_index y' m'"
    and "str_le (periodStart (computePeriod (iso_date y m d) k r)) (iso_date y' m' d')"
    and "\<not> str_le (periodEnd (computePeriod (iso_date y m d) k r)) (iso_date y' m' d')"
    by (simp_all add: Let_def period_end_start)
qed

lemma period_unique:
  assumes v: "valid_date y m d" and a: "valid_date y' m' d'" and k: "1 \<le> k" and "0 \<le> i" "0 \<le> j"
    and ok: "month_ok (month_index y m + k * (i + 1))" "month_ok (month_index y m + k * (j + 1))"
    and i: "str_le (periodStart (computePeriod (iso_date y m d) k i)) (iso_date y' m' d')"
      "\<not> str_le (periodEnd (computePeriod (iso_date y m d) k i)) (iso_date y' m' d')"
    and j: "str_le (periodStart (computePeriod (iso_date y m d) k j)) (iso_date y' m' d')"
      "\<not> str_le (periodEnd (computePeriod (iso_date y m d) k j)) (iso_date y' m' d')"
  shows "i = j"
proof -
  have okn: "month_ok (month_index y m + k * n)" if "0 \<le> n" "month_ok (month_index y m + k * (n + 1))" for n
  proof -
    have "0 \<le> k * n" using that(1) k by simp
    with that(2) k valid_month_ok [OF v] show ?thesis by (simp add: month_ok_def distrib_left)
  qed
  have "\<not> i < j"
    using period_start_antimono [OF v a k, of "i + 1" j] ok(1) okn [OF assms(5) ok(2)] i(2) j(1)
    by (auto simp: period_end_start)
  moreover have "\<not> j < i"
    using period_start_antimono [OF v a k, of "j + 1" i] ok(2) okn [OF assms(4) ok(1)] j(2) i(1)
    by (auto simp: period_end_start)
  ultimately show ?thesis by simp
qed

section \<open>Day numbers\<close>

definition days_before :: "int \<Rightarrow> int \<Rightarrow> int" where
  "days_before y m = sum_list (map (month_days y) [1..m - 1])"

text \<open>The leap days up to the end of a year.\<close>

definition leaps :: "int \<Rightarrow> int" where
  "leaps y = y div 4 - y div 100 + y div 400"

definition day_number :: "int \<Rightarrow> int \<Rightarrow> int \<Rightarrow> int" where
  "day_number y m d = 365 * (y - 1) + leaps (y - 1) + days_before y m + d"

lemma days_before_step: "1 \<le> m \<Longrightarrow> days_before y (m + 1) = days_before y m + month_days y m"
  using upto_rec2 [of 1 m] by (simp add: days_before_def)

lemma div_pred:
  fixes y n :: int
  assumes "0 < n"
  shows "y div n = (y - 1) div n + (if y mod n = 0 then 1 else 0)"
proof (cases "y mod n = 0")
  case True
  then obtain q where q: "y = n * q" by (auto simp: mod_eq_0_iff_dvd)
  have "(n * q - 1) div n = (n * (q - 1) + (n - 1)) div n" by (simp add: algebra_simps)
  also have "\<dots> = q - 1" using assms by simp
  finally show ?thesis using q assms by simp
next
  case False
  then have "1 \<le> y mod n" using assms pos_mod_sign [of n y] by linarith
  moreover have "y - 1 = n * (y div n) + (y mod n - 1)" by (simp add: algebra_simps)
  ultimately have "(y - 1) div n = y div n"
    using pos_mod_bound [OF assms, of y] by (intro int_div_pos_eq [where r = "y mod n - 1"]) linarith+
  with False show ?thesis by simp
qed

lemma count_step:
  fixes a b c a' b' c' :: int
  assumes "a' = a + (if p then 1 else 0)" and "b' = b + (if q then 1 else 0)" and "c' = c + (if r then 1 else 0)"
    and "q \<Longrightarrow> p" and "r \<Longrightarrow> q"
  shows "a' - b' + c' = a - b + c + (if p \<and> (\<not> q \<or> r) then 1 else 0)"
  using assms by (cases p; cases q; cases r; simp)

lemma leap_count: "leaps y = leaps (y - 1) + (if leap_year y then 1 else 0)"
proof -
  have "y mod 100 = 0 \<Longrightarrow> y mod 4 = 0" "y mod 400 = 0 \<Longrightarrow> y mod 100 = 0"
    using dvd_trans [of 4 100 y] dvd_trans [of 100 400 y] by (simp_all add: mod_eq_0_iff_dvd)
  then show ?thesis unfolding leap_year_def leaps_def by (intro count_step div_pred) simp_all
qed

lemma day_number_add: "day_number y m (d + e) = day_number y m d + e"
  by (simp only: day_number_def add.assoc)

lemma day_number_year: "day_number (y + 1) 1 (d - month_days y 12) = day_number y 12 d"
proof -
  have "days_before y 12 = 334 + (if leap_year y then 1 else 0)"
    by (simp add: days_before_def upto_rec1 month_days_def)
  moreover have "days_before (y + 1) 1 = 0" "month_days y 12 = 31" by (simp_all add: days_before_def month_days_def)
  ultimately show ?thesis using leap_count [of y] by (simp add: day_number_def)
qed

lemma day_number_month: "1 \<le> m \<Longrightarrow> day_number y (m + 1) (d - month_days y m) = day_number y m d"
  by (simp add: day_number_def days_before_step)

lemma norm_day_cases:
  obtains (last_year) "d < 1" "m = 1" "norm_day y m d = norm_day (y - 1) 12 (d + month_days (y - 1) 12)"
  | (last_month) "d < 1" "m \<noteq> 1" "norm_day y m d = norm_day y (m - 1) (d + month_days y (m - 1))"
  | (next_year) "\<not> d < 1" "d > month_days y m" "m = 12" "norm_day y m d = norm_day (y + 1) 1 (d - month_days y m)"
  | (next_month) "\<not> d < 1" "d > month_days y m" "m \<noteq> 12" "norm_day y m d = norm_day y (m + 1) (d - month_days y m)"
  | (here) "\<not> d < 1" "\<not> d > month_days y m" "norm_day y m d = (y, m, d)"
  using norm_day.simps [of y m d] by metis

lemma norm_day_spec:
  assumes "1 \<le> m" and "m \<le> 12" and "norm_day y m d = (y', m', d')"
  shows "day_number y' m' d' = day_number y m d \<and> 1 \<le> m' \<and> m' \<le> 12 \<and> 1 \<le> d' \<and> d' \<le> month_days y' m'"
  using assms
proof (induction y m d rule: norm_day.induct)
  case (1 y m d)
  show ?case
  proof (cases rule: norm_day_cases [of d m y])
    case last_year
    have "day_number y 1 d = day_number (y - 1) 12 (d + month_days (y - 1) 12)"
      using day_number_year [of "y - 1" "d + month_days (y - 1) 12"] by simp
    with 1(1) [OF last_year(1,2)] 1(7) last_year show ?thesis by simp
  next
    case last_month
    have "day_number y m d = day_number y (m - 1) (d + month_days y (m - 1))"
      using day_number_month [of "m - 1" y "d + month_days y (m - 1)"] last_month(2) 1(5) by simp
    with 1(2) [OF last_month(1,2)] 1(5-7) last_month show ?thesis by simp
  next
    case next_year
    with 1(3) [OF next_year(1-3)] 1(7) day_number_year [of y d] show ?thesis by simp
  next
    case next_month
    with 1(4) [OF next_month(1-3)] 1(5-7) day_number_month [of m y d] show ?thesis by simp
  next
    case here
    with 1(5-7) show ?thesis by simp
  qed
qed

text \<open>Day numbers grow with the dates.\<close>

definition first_day :: "int \<Rightarrow> int" where
  "first_day k = day_number (k div 12) (k mod 12 + 1) 1"

lemma month_succ:
  fixes k :: int
  shows "k mod 12 = 11 \<Longrightarrow> (k + 1) div 12 = k div 12 + 1 \<and> (k + 1) mod 12 = 0"
    and "k mod 12 \<noteq> 11 \<Longrightarrow> (k + 1) div 12 = k div 12 \<and> (k + 1) mod 12 = k mod 12 + 1"
proof -
  have b: "0 \<le> k mod 12" "k mod 12 < 12" by simp_all
  have e: "(k + 1) div 12 = k div 12 + (k mod 12 + 1) div 12" "(k + 1) mod 12 = (k mod 12 + 1) mod 12"
    by (subst div_add1_eq, simp) (rule mod_add_left_eq [symmetric])
  show "k mod 12 = 11 \<Longrightarrow> (k + 1) div 12 = k div 12 + 1 \<and> (k + 1) mod 12 = 0" unfolding e by simp
  assume "k mod 12 \<noteq> 11"
  with b have "0 \<le> k mod 12 + 1" "k mod 12 + 1 < 12" by linarith+
  then have "(k mod 12 + 1) div 12 = 0" "(k mod 12 + 1) mod 12 = k mod 12 + 1"
    by (rule div_pos_pos_trivial, rule mod_pos_pos_trivial)
  then show "(k + 1) div 12 = k div 12 \<and> (k + 1) mod 12 = k mod 12 + 1" unfolding e by simp
qed

lemma first_day_step: "first_day (k + 1) = first_day k + month_days (k div 12) (k mod 12 + 1)"
proof -
  define q r md where "q = k div 12" and "r = k mod 12 + 1" and "md = month_days q r"
  have r: "1 \<le> r" by (simp add: r_def)
  have "first_day (k + 1) = day_number q r (1 + md)"
  proof (cases "k mod 12 = 11")
    case True
    then have "first_day (k + 1) = day_number (q + 1) 1 1" "r = 12"
      unfolding first_day_def using month_succ(1) [OF True] by (simp_all add: q_def r_def)
    with day_number_year [of q "1 + md"] show ?thesis by (simp add: md_def)
  next
    case False
    then have "first_day (k + 1) = day_number q (r + 1) 1"
      unfolding first_day_def using month_succ(2) [OF False] by (simp add: q_def r_def)
    with day_number_month [OF r, of q "1 + md"] show ?thesis by (simp add: md_def)
  qed
  then show ?thesis unfolding day_number_add by (simp add: first_day_def q_def r_def md_def)
qed

lemma first_day_mono: "a \<le> b \<Longrightarrow> first_day a \<le> first_day b"
proof (induction b rule: int_ge_induct [where k = a])
  case (step i)
  then show ?case using first_day_step [of i] month_days_bounds(1) [of "i div 12" "i mod 12 + 1"] by simp
qed simp

lemma day_number_le:
  assumes a: "valid_date y m d" and b: "valid_date y' m' d'"
  shows "date_le (month_index y m, d) (month_index y' m', d') \<longleftrightarrow> day_number y m d \<le> day_number y' m' d'"
proof -
  have n: "day_number z k e = first_day (month_index z k) + e - 1" if "valid_date z k e" for z k e
    using day_number_add [of z k 1 "e - 1"] month_index_div [of k z] that
    by (simp add: first_day_def valid_date_def)
  have less: "day_number z k e < day_number z' k' e'"
    if v: "valid_date z k e" "valid_date z' k' e'" "month_index z k < month_index z' k'" for z k e z' k' e'
  proof -
    have "first_day (month_index z k) + month_days z k \<le> first_day (month_index z' k')"
      using first_day_step [of "month_index z k"] first_day_mono [of "month_index z k + 1" "month_index z' k'"] v
        month_index_div [of k z] by (simp add: valid_date_def)
    then show ?thesis using v by (simp add: n) (simp add: valid_date_def)
  qed
  show ?thesis
    using less [OF a b] less [OF b a] n [OF a] n [OF b] by (cases "month_index y m" "month_index y' m'" rule: linorder_cases)
      (auto simp: date_le_def)
qed

section \<open>Renewal\<close>

lemma date_text_le_month:
  assumes "month_ok k" and "1 \<le> d" and a: "valid_date y' m' d'" and "str_le (month_date k d) (iso_date y' m' d')"
  shows "k \<le> month_index y' m'"
proof -
  have "1 \<le> d'" using a by (simp add: valid_date_def)
  with assms show ?thesis
    using month_date_le [OF assms(1) valid_month_ok [OF a] assms(2), of d'] iso_date_month_date [OF a]
    by (auto simp: date_le_def)
qed

lemma extend_loop_spec:
  assumes a: "valid_date y' m' d'" and n: "1 \<le> n" and far: "month_ok (month_index y' m' + n)"
    and "month_ok k" and "1 \<le> d" and "int guard + (month_index y' m' - k) < 99999"
  shows "let (e, r) = extend_loop (iso_date y' m' d') n guard (month_date k d) ren
         in \<not> isExpired (Some e) (iso_date y' m' d')
            \<and> (r \<longleftrightarrow> ren \<or> isExpired (Some (month_date k d)) (iso_date y' m' d'))
            \<and> (\<not> isExpired (Some (month_date k d)) (iso_date y' m' d') \<longrightarrow> e = month_date k d)"
  using assms(4-6)
proof (induction "nat (month_index y' m' + 1 - k)" arbitrary: k d guard ren rule: less_induct)
  case less
  let ?due = "iso_date y' m' d'" and ?md = "month_days (k div 12) (k mod 12 + 1)"
  show ?case
  proof (cases "isExpired (Some (month_date k d)) ?due")
    case True
    then have le: "k \<le> month_index y' m'"
      using date_text_le_month [OF less.prems(1,2) a] by (simp add: isExpired_def)
    then have ok: "month_ok (k + n)" using less.prems(1) far n by (simp add: month_ok_def)
    have adv: "addMonthsClamped (month_date k d) n = month_date (k + n) (min d ?md)"
      by (rule addMonthsClamped_month_date [OF less.prems(1,2) ok])
    have "1 \<le> min d ?md" using less.prems(2) month_days_bounds(1) [of "k div 12" "k mod 12 + 1"] by simp
    with less.hyps [of "k + n" "min d ?md" "guard + 1" True] le ok n less.prems(3)
    have "let (e, r) = extend_loop ?due n (guard + 1) (month_date (k + n) (min d ?md)) True
         in \<not> isExpired (Some e) ?due \<and> r" by (auto simp: Let_def split_def)
    moreover have "extend_loop ?due n guard (month_date k d) ren
        = extend_loop ?due n (guard + 1) (month_date (k + n) (min d ?md)) True"
      using True adv le less.prems(3) by (subst extend_loop.simps) simp
    ultimately show ?thesis using True by (auto simp: Let_def split_def)
  next
    case False
    then have "extend_loop ?due n guard (month_date k d) ren = (month_date k d, ren)"
      by (subst extend_loop.simps) simp
    with False show ?thesis by simp
  qed
qed

section \<open>Properties\<close>

lemmas date_eval = iso_date_def fmt_def nan_text_def number_text_def padStart2_def dec_string.simps [of "numeral w" for w]
  dec_string.simps [of "Suc 0"] dec_string.simps [of 0] char_of_def bit_numeral_rec bit_0

text \<open>C31: the loop that looks for a contract's billing period ends, and from the start date on every date
  lies in exactly one period, the one it returns: the periods follow one another without gap or
  overlap although each end is clamped to the length of its month.\<close>

theorem billing_periods_partition:
  assumes "valid_date y m d" and "valid_date y' m' d'" and "1 \<le> k"
    and "month_ok (month_index y' m' + k)" and "month_index y' m' - month_index y m < 100000"
    and "str_le (iso_date y m d) (iso_date y' m' d')"
  shows "\<exists>r. periodIndexFor (iso_date y m d) k (iso_date y' m' d') = r \<and> 0 \<le> r
    \<and> (\<forall>i. 0 \<le> i \<and> month_ok (month_index y m + k * (i + 1)) \<longrightarrow>
          (str_le (periodStart (computePeriod (iso_date y m d) k i)) (iso_date y' m' d')
           \<and> \<not> str_le (periodEnd (computePeriod (iso_date y m d) k i)) (iso_date y' m' d') \<longleftrightarrow> i = r))"
proof -
  let ?r = "periodIndexFor (iso_date y m d) k (iso_date y' m' d')"
  note r = periodIndexFor_spec [OF assms]
  have "0 \<le> k * ?r" using r(1) assms(3) by simp
  then have "month_ok (month_index y m + k * (?r + 1))"
    using r(2) assms(3,4) valid_month_ok [OF assms(1)] by (simp add: month_ok_def distrib_left)
  then have "i = ?r" if "0 \<le> i" "month_ok (month_index y m + k * (i + 1))"
    "str_le (periodStart (computePeriod (iso_date y m d) k i)) (iso_date y' m' d')"
    "\<not> str_le (periodEnd (computePeriod (iso_date y m d) k i)) (iso_date y' m' d')" for i
    using period_unique [OF assms(1,2,3) that(1) r(1) that(2) _ that(3,4) r(3,4)] by blast
  with r(1,3,4) show ?thesis by (intro exI [of _ ?r]) blast
qed

theorem billing_periods_partition_witness:
  "\<exists>r. periodIndexFor ''2024-01-31'' 1 ''2024-03-15'' = r \<and> 0 \<le> r
     \<and> str_le (periodStart (computePeriod ''2024-01-31'' 1 1)) ''2024-03-15''
     \<and> (\<not> str_le (periodEnd (computePeriod ''2024-01-31'' 1 1)) ''2024-03-15'' \<longleftrightarrow> r = 1)"
proof -
  have t: "iso_date 2024 1 31 = ''2024-01-31''" "iso_date 2024 3 15 = ''2024-03-15''" by (simp_all add: date_eval)
  have v: "valid_date 2024 1 31" "valid_date 2024 3 15" by (simp_all add: valid_date_def month_days_def)
  have "str_le ''2024-01-31'' ''2024-03-15''" by simp
  with billing_periods_partition [OF v, of 1] t
  obtain r where r: "periodIndexFor ''2024-01-31'' 1 ''2024-03-15'' = r" "0 \<le> r"
    "str_le (periodStart (computePeriod ''2024-01-31'' 1 1)) ''2024-03-15''
           \<and> \<not> str_le (periodEnd (computePeriod ''2024-01-31'' 1 1)) ''2024-03-15'' \<longleftrightarrow> 1 = r"
    by (auto simp: month_ok_def month_index_def)
  moreover have "str_le (periodStart (computePeriod ''2024-01-31'' 1 1)) ''2024-03-15''"
    using period_start_le [OF v, of 1 1] t by (simp add: month_ok_def month_index_def)
  ultimately show ?thesis by auto
qed

text \<open>A contract is inside its notice window exactly when its end is at least one and at most the
  given number of days ahead, counted in calendar days across months and leap years.\<close>

theorem notice_window_exact:
  assumes "valid_date y m d" and "valid_date y' m' d'" and "0 \<le> n"
    and "norm_day y m (d - n) = (y0, m0, d0)" and "1000 \<le> y0" and "y0 \<le> 9999"
  shows "isWithinNoticeWindow (iso_date y' m' d') (iso_date y m d) n
    \<longleftrightarrow> 0 < day_number y m d - day_number y' m' d' \<and> day_number y m d - day_number y' m' d' \<le> n"
proof -
  have m: "1 \<le> m" "m \<le> 12" using assms(1) by (simp_all add: valid_date_def)
  note spec = norm_day_spec [OF m assms(4)]
  have v0: "valid_date y0 m0 d0" using spec assms(5,6) by (simp add: valid_date_def)
  have "utc_year y = y" using assms(1) by (simp add: utc_year_def valid_date_def)
  then have "addDaysISO (iso_date y m d) (- n) = iso_date y0 m0 d0"
    unfolding addDaysISO_def parts_iso_date [OF assms(1)] using assms(4) by (simp add: iso_date_def)
  moreover have "day_number y0 m0 d0 = day_number y m d - n" using spec day_number_add [of y m d "- n"] by simp
  ultimately show ?thesis
    unfolding isWithinNoticeWindow_def Let_def
    by (simp add: iso_date_le [OF v0 assms(2)] iso_date_le [OF assms(1,2)] day_number_le [OF v0 assms(2)]
        day_number_le [OF assms(1,2)]) linarith
qed

theorem notice_window_exact_witness:
  "isWithinNoticeWindow ''2024-02-28'' ''2024-03-01'' 2 \<and> \<not> isWithinNoticeWindow ''2023-02-26'' ''2023-03-01'' 2"
proof -
  have t: "iso_date 2024 3 1 = ''2024-03-01''" "iso_date 2024 2 28 = ''2024-02-28''"
      "iso_date 2023 3 1 = ''2023-03-01''" "iso_date 2023 2 26 = ''2023-02-26''" by (simp_all add: date_eval)
  have v: "valid_date 2024 3 1" "valid_date 2024 2 28" "valid_date 2023 3 1" "valid_date 2023 2 26"
    by (simp_all add: valid_date_def month_days_def leap_year_def)
  have n: "norm_day 2024 3 (1 - 2) = (2024, 2, 28)" "norm_day 2023 3 (1 - 2) = (2023, 2, 27)"
    by (simp_all add: norm_day.simps month_days_def leap_year_def)
  have "day_number 2024 3 1 - day_number 2024 2 28 = 2" "day_number 2023 3 1 - day_number 2023 2 26 = 3"
    by (simp_all add: day_number_def leaps_def days_before_def upto_rec1 month_days_def leap_year_def)
  with notice_window_exact [OF v(1,2) _ n(1)] notice_window_exact [OF v(3,4) _ n(2)] t show ?thesis by simp
qed

end
