(* ===== verification/Contracts.thy ===== *)
theory Contracts
  imports Contract_Math
begin

text \<open>
  Recurring contracts: the life cycle and the billing of apps/api/src/services/contractService.ts, the
  renewal sweep of contractRenewal.ts and the daily job of jobs/contractWorker.ts. The tables are a
  record; a handler gives its result or a thrown error, which leaves the tables as they were, and the
  new tables. The counts of devices and seats, the pricing of an invoice line (which may refuse it) and
  the id of a new invoice are arguments; today's date is an ISO text. Time stamps, events, names and
  notices to users are not modelled.
\<close>

section \<open>Tables\<close>

datatype contract_status = CDraft | CActive | CPaused | CCancelled | CExpired

datatype contract_line_type = FlatLine | PerDevice | PerSeat | ManualLine

record contract =
  ct_partnerId :: id
  ct_orgId :: id
  ct_status :: contract_status
  ct_billingTiming :: billing_timing
  ct_intervalMonths :: int
  ct_startDate :: string
  ct_endDate :: "string option"
  ct_nextBillingAt :: "string option"
  ct_autoIssue :: bool
  ct_autoRenew :: bool
  ct_renewalTermMonths :: "int option"
  ct_renewalNoticeDays :: "int option"

record contract_line =
  kl_id :: id
  kl_contractId :: id
  kl_lineType :: contract_line_type
  kl_manualQuantity :: "string option"
  kl_siteId :: "id option"
  kl_catalogItemId :: "id option"
  kl_sortOrder :: int

record billing_period =
  bp_contractId :: id
  bp_periodStart :: string
  bp_periodEnd :: string
  bp_invoiceId :: id

datatype notice_kind = AdvanceNotice | RenewedNotice

record invoice_draft =
  iv_id :: id
  iv_orgId :: id
  iv_lines :: "(id \<times> string) list"

record billing_db =
  bd_orgs :: "id \<rightharpoonup> id"
  bd_contracts :: "id \<rightharpoonup> contract"
  bd_lines :: "contract_line list"
  bd_periods :: "billing_period list"
  bd_invoices :: "invoice_draft list"
  bd_notices :: "(id \<times> string \<times> notice_kind) list"

definition set_contract :: "billing_db \<Rightarrow> id \<Rightarrow> contract \<Rightarrow> billing_db" where
  "set_contract db i c = db\<lparr>bd_contracts := (bd_contracts db)(i \<mapsto> c)\<rparr>"

text \<open>The lines in the order they are billed.\<close>

definition contract_lines :: "billing_db \<Rightarrow> id \<Rightarrow> contract_line list" where
  "contract_lines db i = sort_key kl_sortOrder (filter (\<lambda>l. kl_contractId l = i) (bd_lines db))"

definition given :: "'a option \<Rightarrow> 'a \<Rightarrow> 'a" where
  "given p old = (case p of None \<Rightarrow> old | Some v \<Rightarrow> v)"

section \<open>Access and life cycle\<close>

record contract_actor =
  ac_partnerId :: "id option"
  ac_accessibleOrgIds :: "id list option"

definition requireOrgAccess :: "contract_actor \<Rightarrow> id \<Rightarrow> bool" where
  "requireOrgAccess actor orgId =
     (case ac_accessibleOrgIds actor of None \<Rightarrow> True | Some ids \<Rightarrow> orgId \<in> set ids)"

definition getOwnedContractOr404 :: "billing_db \<Rightarrow> id \<Rightarrow> contract_actor \<Rightarrow> string + contract" where
  "getOwnedContractOr404 db i actor =
     (case bd_contracts db i of
        None \<Rightarrow> Inl ''CONTRACT_NOT_FOUND''
      | Some c \<Rightarrow> if requireOrgAccess actor (ct_orgId c) then Inr c else Inl ''ORG_DENIED'')"

text \<open>The partner of a new contract is that of its organization; \<open>i\<close> is the id the database gives it.\<close>

record contract_input =
  in_orgId :: id
  in_billingTiming :: billing_timing
  in_intervalMonths :: int
  in_startDate :: string
  in_endDate :: "string option"
  in_autoIssue :: "bool option"
  in_autoRenew :: "bool option"
  in_renewalTermMonths :: "int option"
  in_renewalNoticeDays :: "int option"

definition createContract ::
  "id \<Rightarrow> contract_input \<Rightarrow> contract_actor \<Rightarrow> billing_db \<Rightarrow> (string + contract) \<times> billing_db" where
  "createContract i input actor db =
     (if \<not> requireOrgAccess actor (in_orgId input) then (Inl ''ORG_DENIED'', db)
      else if ac_partnerId actor = None then (Inl ''ORG_DENIED'', db)
      else (case bd_orgs db (in_orgId input) of
              None \<Rightarrow> (Inl ''CONTRACT_NOT_FOUND'', db)
            | Some partnerId \<Rightarrow>
                (let c = \<lparr>ct_partnerId = partnerId, ct_orgId = in_orgId input, ct_status = CDraft,
                          ct_billingTiming = in_billingTiming input, ct_intervalMonths = in_intervalMonths input,
                          ct_startDate = in_startDate input, ct_endDate = in_endDate input, ct_nextBillingAt = None,
                          ct_autoIssue = given (in_autoIssue input) False, ct_autoRenew = given (in_autoRenew input) False,
                          ct_renewalTermMonths = in_renewalTermMonths input,
                          ct_renewalNoticeDays = in_renewalNoticeDays input\<rparr>
                 in (Inr c, set_contract db i c))))"

text \<open>A line as it is stored: only a manual line has a quantity, only a device line a site.\<close>

record line_input =
  li_lineType :: contract_line_type
  li_manualQuantity :: "string option"
  li_siteId :: "id option"
  li_catalogItemId :: "id option"
  li_sortOrder :: "int option"

definition stored_line :: "id \<Rightarrow> id \<Rightarrow> line_input \<Rightarrow> int \<Rightarrow> contract_line" where
  "stored_line lineId i input position =
     \<lparr>kl_id = lineId, kl_contractId = i, kl_lineType = li_lineType input,
      kl_manualQuantity = (if li_lineType input = ManualLine then Some (given (li_manualQuantity input) ''0'') else None),
      kl_siteId = (if li_lineType input = PerDevice then li_siteId input else None),
      kl_catalogItemId = li_catalogItemId input, kl_sortOrder = given (li_sortOrder input) position\<rparr>"

text \<open>A contract made from an accepted quote; its lines keep their positions, and the result names the
  quote line each came from. An insert the database
  rejects raises an error and undoes the transaction; the model is of the inserts that pass.\<close>

record contract_spec =
  sp_partnerId :: id
  sp_orgId :: id
  sp_billingTiming :: billing_timing
  sp_intervalMonths :: int
  sp_startDate :: string
  sp_endDate :: "string option"
  sp_lines :: "(id option \<times> line_input) list"

definition createContractWithLinesDetailed ::
  "id \<Rightarrow> (nat \<Rightarrow> id) \<Rightarrow> contract_spec \<Rightarrow> billing_db \<Rightarrow> (contract \<times> (id \<times> id option \<times> int) list) \<times> billing_db" where
  "createContractWithLinesDetailed i newLine spec db =
     (let c = \<lparr>ct_partnerId = sp_partnerId spec, ct_orgId = sp_orgId spec, ct_status = CDraft,
               ct_billingTiming = sp_billingTiming spec, ct_intervalMonths = sp_intervalMonths spec,
               ct_startDate = sp_startDate spec, ct_endDate = sp_endDate spec, ct_nextBillingAt = None,
               ct_autoIssue = False, ct_autoRenew = False, ct_renewalTermMonths = None,
               ct_renewalNoticeDays = None\<rparr>;
          row = (\<lambda>(k, _, input). stored_line (newLine k) i input (int k));
          created = map (\<lambda>(k, source, input). (newLine k, source, given (li_sortOrder input) (int k)))
                      (enumerate 0 (sp_lines spec))
      in ((c, created), (set_contract db i c)\<lparr>bd_lines := bd_lines db @ map row (enumerate 0 (sp_lines spec))\<rparr>))"

definition createContractWithLines ::
  "id \<Rightarrow> (nat \<Rightarrow> id) \<Rightarrow> contract_spec \<Rightarrow> billing_db \<Rightarrow> contract \<times> billing_db" where
  "createContractWithLines i newLine spec db =
     (case createContractWithLinesDetailed i newLine spec db of ((c, _), db') \<Rightarrow> (c, db'))"

definition activateContract ::
  "id \<Rightarrow> contract_actor \<Rightarrow> string \<Rightarrow> billing_db \<Rightarrow> (string + contract) \<times> billing_db" where
  "activateContract i actor today db =
     (case getOwnedContractOr404 db i actor of
        Inl e \<Rightarrow> (Inl e, db)
      | Inr c \<Rightarrow>
          if ct_status c \<noteq> CDraft \<and> ct_status c \<noteq> CPaused then (Inl ''INVALID_STATE'', db)
          else if contract_lines db i = [] then (Inl ''NO_LINES'', db)
          else (let idx = periodIndexFor (ct_startDate c) (ct_intervalMonths c) today;
                    nextAt = nextBillingDate (ct_startDate c) (ct_intervalMonths c) (ct_billingTiming c) idx;
                    c' = c\<lparr>ct_status := CActive, ct_nextBillingAt := Some nextAt\<rparr>
                in (Inr c', set_contract db i c')))"

definition pauseContract :: "id \<Rightarrow> contract_actor \<Rightarrow> billing_db \<Rightarrow> (string + contract) \<times> billing_db" where
  "pauseContract i actor db =
     (case getOwnedContractOr404 db i actor of
        Inl e \<Rightarrow> (Inl e, db)
      | Inr c \<Rightarrow>
          if ct_status c \<noteq> CActive then (Inl ''INVALID_STATE'', db)
          else (let c' = c\<lparr>ct_status := CPaused, ct_nextBillingAt := None\<rparr> in (Inr c', set_contract db i c')))"

definition resumeContract ::
  "id \<Rightarrow> contract_actor \<Rightarrow> string \<Rightarrow> billing_db \<Rightarrow> (string + contract) \<times> billing_db" where
  "resumeContract i actor today db =
     (case getOwnedContractOr404 db i actor of
        Inl e \<Rightarrow> (Inl e, db)
      | Inr c \<Rightarrow>
          if ct_status c \<noteq> CPaused then (Inl ''INVALID_STATE'', db)
          else (let idx = periodIndexFor (ct_startDate c) (ct_intervalMonths c) today;
                    nextAt = nextBillingDate (ct_startDate c) (ct_intervalMonths c) (ct_billingTiming c) idx;
                    c' = c\<lparr>ct_status := CActive, ct_nextBillingAt := Some nextAt\<rparr>
                in (Inr c', set_contract db i c')))"

definition cancelContract :: "id \<Rightarrow> contract_actor \<Rightarrow> billing_db \<Rightarrow> (string + contract) \<times> billing_db" where
  "cancelContract i actor db =
     (case getOwnedContractOr404 db i actor of
        Inl e \<Rightarrow> (Inl e, db)
      | Inr c \<Rightarrow>
          if ct_status c = CCancelled then (Inr c, db)
          else (let c' = c\<lparr>ct_status := CCancelled, ct_nextBillingAt := None\<rparr> in (Inr c', set_contract db i c')))"

definition deleteDraftContract :: "id \<Rightarrow> contract_actor \<Rightarrow> billing_db \<Rightarrow> (string + unit) \<times> billing_db" where
  "deleteDraftContract i actor db =
     (case getOwnedContractOr404 db i actor of
        Inl e \<Rightarrow> (Inl e, db)
      | Inr c \<Rightarrow>
          if ct_status c \<noteq> CDraft then (Inl ''NOT_A_DRAFT'', db)
          else (Inr (), db\<lparr>bd_contracts := (bd_contracts db)(i := None),
                           bd_lines := filter (\<lambda>l. kl_contractId l \<noteq> i) (bd_lines db),
                           bd_periods := filter (\<lambda>p. bp_contractId p \<noteq> i) (bd_periods db),
                           bd_notices := filter (\<lambda>n. fst n \<noteq> i) (bd_notices db)\<rparr>))"

text \<open>Lines may be edited on draft and active contracts.\<close>

definition addContractLineToContract ::
  "id \<Rightarrow> id \<Rightarrow> line_input \<Rightarrow> contract_actor \<Rightarrow> billing_db \<Rightarrow> (string + contract_line) \<times> billing_db" where
  "addContractLineToContract i lineId input actor db =
     (case getOwnedContractOr404 db i actor of
        Inl e \<Rightarrow> (Inl e, db)
      | Inr c \<Rightarrow>
          if ct_status c \<noteq> CDraft \<and> ct_status c \<noteq> CActive then (Inl ''INVALID_STATE'', db)
          else (let l = stored_line lineId i input 0 in (Inr l, db\<lparr>bd_lines := bd_lines db @ [l]\<rparr>)))"

definition removeContractLine :: "id \<Rightarrow> id \<Rightarrow> contract_actor \<Rightarrow> billing_db \<Rightarrow> (string + unit) \<times> billing_db" where
  "removeContractLine i lineId actor db =
     (case getOwnedContractOr404 db i actor of
        Inl e \<Rightarrow> (Inl e, db)
      | Inr c \<Rightarrow>
          if ct_status c \<noteq> CDraft \<and> ct_status c \<noteq> CActive then (Inl ''INVALID_STATE'', db)
          else (Inr (), db\<lparr>bd_lines := filter (\<lambda>l. \<not> (kl_id l = lineId \<and> kl_contractId l = i)) (bd_lines db)\<rparr>))"

text \<open>The members of an update the schedule depends on; \<open>None\<close> is a member the patch does not have.\<close>

record contract_patch =
  pt_billingTiming :: "billing_timing option"
  pt_intervalMonths :: "int option"
  pt_startDate :: "string option"
  pt_endDate :: "string option option"
  pt_autoIssue :: "bool option"
  pt_autoRenew :: "bool option"
  pt_renewalTermMonths :: "int option option"
  pt_renewalNoticeDays :: "int option option"

definition updateContract ::
  "id \<Rightarrow> contract_patch \<Rightarrow> contract_actor \<Rightarrow> billing_db \<Rightarrow> (string + contract) \<times> billing_db" where
  "updateContract i patch actor db =
     (case getOwnedContractOr404 db i actor of
        Inl e \<Rightarrow> (Inl e, db)
      | Inr c \<Rightarrow>
          if ct_status c \<noteq> CDraft \<and> ct_status c \<noteq> CActive then (Inl ''INVALID_STATE'', db)
          else if ct_status c \<noteq> CDraft
                  \<and> (pt_billingTiming patch \<noteq> None \<or> pt_intervalMonths patch \<noteq> None \<or> pt_startDate patch \<noteq> None)
          then (Inl ''INVALID_STATE'', db)
          else (let c' = c\<lparr>ct_billingTiming := given (pt_billingTiming patch) (ct_billingTiming c),
                           ct_intervalMonths := given (pt_intervalMonths patch) (ct_intervalMonths c),
                           ct_startDate := given (pt_startDate patch) (ct_startDate c),
                           ct_endDate := given (pt_endDate patch) (ct_endDate c),
                           ct_autoIssue := given (pt_autoIssue patch) (ct_autoIssue c),
                           ct_autoRenew := given (pt_autoRenew patch) (ct_autoRenew c),
                           ct_renewalTermMonths := given (pt_renewalTermMonths patch) (ct_renewalTermMonths c),
                           ct_renewalNoticeDays := given (pt_renewalNoticeDays patch) (ct_renewalNoticeDays c)\<rparr>
                in if ct_autoRenew c' \<and> (ct_endDate c' = None \<or> ct_renewalTermMonths c' = None)
                   then (Inl ''auto-renew requires an end date and renewal term'', db)
                   else (Inr c', set_contract db i c')))"

section \<open>Billing\<close>

record billing_env =
  be_devices :: "id \<Rightarrow> id option \<Rightarrow> nat"
  be_seats :: "id \<Rightarrow> nat"
  be_draftError :: "id \<Rightarrow> string option"
  be_lineError :: "contract_line \<Rightarrow> string \<Rightarrow> string option"

definition line_quantity :: "billing_env \<Rightarrow> id \<Rightarrow> contract_line \<Rightarrow> string" where
  "line_quantity env orgId l =
     (case kl_lineType l of
        FlatLine \<Rightarrow> ''1''
      | ManualLine \<Rightarrow> (case kl_manualQuantity l of None \<Rightarrow> ''0'' | Some q \<Rightarrow> q)
      | PerDevice \<Rightarrow> dec_string (be_devices env orgId (kl_siteId l))
      | PerSeat \<Rightarrow> dec_string (be_seats env orgId))"

text \<open>The lines of the draft in their order, or the first error.\<close>

fun invoice_lines :: "billing_env \<Rightarrow> id \<Rightarrow> contract_line list \<Rightarrow> string + (id \<times> string) list" where
  "invoice_lines env orgId [] = Inr []"
| "invoice_lines env orgId (l # ls) =
     (let q = line_quantity env orgId l
      in case be_lineError env l q of
           Some e \<Rightarrow> Inl e
         | None \<Rightarrow> (case invoice_lines env orgId ls of Inl e \<Rightarrow> Inl e | Inr rest \<Rightarrow> Inr ((kl_id l, q) # rest)))"

definition draft_invoice :: "billing_env \<Rightarrow> id \<Rightarrow> contract_line list \<Rightarrow> string + (id \<times> string) list" where
  "draft_invoice env orgId ls =
     (case be_draftError env orgId of Some e \<Rightarrow> Inl e | None \<Rightarrow> invoice_lines env orgId ls)"

datatype generate_skip = AlreadyBilled | SkipExpired | NotDue

datatype generate_result = Generated id bool | Skipped generate_skip

text \<open>Which period a billing run covers.\<close>

definition billed_index :: "contract \<Rightarrow> string \<Rightarrow> int" where
  "billed_index c nextBillingAt =
     (let idxAt = periodIndexFor (ct_startDate c) (ct_intervalMonths c) nextBillingAt
      in max 0 (if ct_billingTiming c = Advance then idxAt else idxAt - 1))"

definition period_claimed :: "billing_db \<Rightarrow> id \<Rightarrow> string \<Rightarrow> bool" where
  "period_claimed db i start = list_ex (\<lambda>p. bp_contractId p = i \<and> bp_periodStart p = start) (bd_periods db)"

text \<open>The contract after a period was billed: its pointer moves to the next period, or it expires.\<close>

definition advance_pointer :: "contract \<Rightarrow> int \<Rightarrow> contract" where
  "advance_pointer c nextIdx =
     (let nextPeriod = computePeriod (ct_startDate c) (ct_intervalMonths c) nextIdx
      in if isExpired (ct_endDate c) (periodStart nextPeriod)
         then c\<lparr>ct_status := CExpired, ct_nextBillingAt := None\<rparr>
         else c\<lparr>ct_nextBillingAt :=
                  Some (if ct_billingTiming c = Advance then periodStart nextPeriod else periodEnd nextPeriod)\<rparr>)"

definition generateDueInvoice ::
  "billing_env \<Rightarrow> id \<Rightarrow> id \<Rightarrow> string \<Rightarrow> billing_db \<Rightarrow> (string + generate_result) \<times> billing_db" where
  "generateDueInvoice env newInvoice i today db =
     (case bd_contracts db i of
        None \<Rightarrow> (Inl ''CONTRACT_NOT_FOUND'', db)
      | Some c \<Rightarrow>
          (case ct_nextBillingAt c of
             None \<Rightarrow> (Inr (Skipped NotDue), db)
           | Some nextBillingAt \<Rightarrow>
               if ct_status c \<noteq> CActive then (Inr (Skipped NotDue), db)
               else if \<not> str_le nextBillingAt today then (Inr (Skipped NotDue), db)
               else
                 (let idx = billed_index c nextBillingAt;
                      period = computePeriod (ct_startDate c) (ct_intervalMonths c) idx
                  in if isExpired (ct_endDate c) (periodStart period)
                     then (Inr (Skipped SkipExpired),
                           set_contract db i (c\<lparr>ct_status := CExpired, ct_nextBillingAt := None\<rparr>))
                     else if contract_lines db i = [] then (Inr (Skipped NotDue), db)
                     else (case draft_invoice env (ct_orgId c) (contract_lines db i) of
                             Inl e \<Rightarrow> (Inl e, db)
                           | Inr lines \<Rightarrow>
                               if period_claimed db i (periodStart period) then (Inr (Skipped AlreadyBilled), db)
                               else (Inr (Generated newInvoice (ct_autoIssue c)),
                                     set_contract
                                       (db\<lparr>bd_invoices := bd_invoices db
                                             @ [\<lparr>iv_id = newInvoice, iv_orgId = ct_orgId c, iv_lines = lines\<rparr>],
                                           bd_periods := bd_periods db
                                             @ [\<lparr>bp_contractId = i, bp_periodStart = periodStart period,
                                                 bp_periodEnd = periodEnd period, bp_invoiceId = newInvoice\<rparr>]\<rparr>)
                                       i (advance_pointer c (idx + 1)))))))"

section \<open>Renewal and the daily job\<close>

definition claimNotice :: "billing_db \<Rightarrow> id \<Rightarrow> string \<Rightarrow> notice_kind \<Rightarrow> bool \<times> billing_db" where
  "claimNotice db i endDate kind =
     (if (i, endDate, kind) \<in> set (bd_notices db) then (False, db)
      else (True, db\<lparr>bd_notices := bd_notices db @ [(i, endDate, kind)]\<rparr>))"

definition is_renewal_candidate :: "contract \<Rightarrow> bool" where
  "is_renewal_candidate c = (ct_status c = CActive \<and> ct_autoRenew c \<and> ct_endDate c \<noteq> None)"

text \<open>One contract of the renewal sweep, as it was selected.\<close>

definition renew_one :: "string \<Rightarrow> id \<times> contract \<Rightarrow> billing_db \<Rightarrow> billing_db" where
  "renew_one today ic db =
     (case ic of (i, c) \<Rightarrow>
        (case (ct_endDate c, ct_renewalTermMonths c) of
           (Some endDate, Some term) \<Rightarrow>
             (let noticeDays = given (ct_renewalNoticeDays c) 30;
                  db1 = (if isWithinNoticeWindow today endDate noticeDays
                         then snd (claimNotice db i endDate AdvanceNotice) else db)
              in (case ct_nextBillingAt c of
                    None \<Rightarrow> db1
                  | Some next \<Rightarrow>
                      if \<not> str_le next today then db1
                      else (let due = duePeriodStartFor (ct_billingTiming c) next (ct_intervalMonths c);
                                (newEndDate, renewed) = extendTermPastDue endDate due term
                            in if renewed
                               then (case bd_contracts db1 i of
                                       None \<Rightarrow> db1
                                     | Some c' \<Rightarrow>
                                         snd (claimNotice (set_contract db1 i (c'\<lparr>ct_endDate := Some newEndDate\<rparr>))
                                                i newEndDate RenewedNotice))
                               else db1)))
         | _ \<Rightarrow> db))"

text \<open>\<open>ids\<close> lists the rows in the order the queries give them.\<close>

definition runContractRenewalSweep :: "id list \<Rightarrow> string \<Rightarrow> billing_db \<Rightarrow> billing_db" where
  "runContractRenewalSweep ids today db =
     (let candidates = concat (map (\<lambda>i. case bd_contracts db i of
                                          Some c \<Rightarrow> if is_renewal_candidate c then [(i, c)] else []
                                        | None \<Rightarrow> []) ids)
      in fold (renew_one today) candidates db)"

definition is_due :: "string \<Rightarrow> contract \<Rightarrow> bool" where
  "is_due today c =
     (ct_status c = CActive \<and> (case ct_nextBillingAt c of None \<Rightarrow> False | Some n \<Rightarrow> str_le n today))"

definition runContractBillingSweep ::
  "billing_env \<Rightarrow> (id \<Rightarrow> id) \<Rightarrow> id list \<Rightarrow> string \<Rightarrow> billing_db \<Rightarrow> billing_db" where
  "runContractBillingSweep env newInvoice ids today db =
     (let due = filter (\<lambda>i. case bd_contracts db i of None \<Rightarrow> False | Some c \<Rightarrow> is_due today c) ids
      in fold (\<lambda>i d. snd (generateDueInvoice env (newInvoice i) i today d)) due db)"

record billing_day =
  dy_env :: billing_env
  dy_invoices :: "id \<Rightarrow> id"
  dy_ids :: "id list"
  dy_today :: string

definition daily_job :: "billing_day \<Rightarrow> billing_db \<Rightarrow> billing_db" where
  "daily_job day db =
     runContractBillingSweep (dy_env day) (dy_invoices day) (dy_ids day) (dy_today day)
       (runContractRenewalSweep (dy_ids day) (dy_today day) db)"

section \<open>Schedules\<close>

text \<open>The schedule of a contract is usable up to period \<open>n\<close>: its dates stay within the range of ISO texts
  and the period search stays below its guard.\<close>

definition in_horizon :: "contract \<Rightarrow> int \<Rightarrow> bool" where
  "in_horizon c n =
     (\<exists>y m d. ct_startDate c = iso_date y m d \<and> valid_date y m d \<and> 1 \<le> ct_intervalMonths c
        \<and> month_ok (month_index y m + ct_intervalMonths c * (n + 3)) \<and> ct_intervalMonths c * (n + 2) < 100000)"

definition bill_date :: "contract \<Rightarrow> int \<Rightarrow> string" where
  "bill_date c n = nextBillingDate (ct_startDate c) (ct_intervalMonths c) (ct_billingTiming c) n"

definition period_of :: "contract \<Rightarrow> int \<Rightarrow> period" where
  "period_of c n = computePeriod (ct_startDate c) (ct_intervalMonths c) n"

lemma period_month_ok:
  assumes "valid_date y m d" and "1 \<le> k" and "0 \<le> i" and "i \<le> j" and "month_ok (month_index y m + k * j)"
  shows "month_ok (month_index y m + k * i)"
proof -
  have "0 \<le> k * i" "k * i \<le> k * j" using assms(2-4) by (simp_all add: mult_left_mono)
  with assms(5) valid_month_ok [OF assms(1)] show ?thesis by (simp add: month_ok_def)
qed

text \<open>The period of a period's first day is that period.\<close>

lemma periodIndexFor_period:
  assumes v: "valid_date y m d" and k: "1 \<le> k" and n: "0 \<le> n"
    and far: "month_ok (month_index y m + k * (n + 1))" and "k * n < 100000"
  shows "periodIndexFor (iso_date y m d) k (periodStart (computePeriod (iso_date y m d) k n)) = n"
proof -
  let ?M = "month_index y m + k * n"
  let ?y = "?M div 12" and ?m = "?M mod 12 + 1"
  let ?d = "min d (month_days ?y ?m)"
  have ok: "month_ok ?M" using period_month_ok [OF v k n _ far] by simp
  have d: "1 \<le> d" using v by (simp add: valid_date_def)
  have start: "periodStart (computePeriod (iso_date y m d) k n) = iso_date ?y ?m ?d"
    unfolding period_start_eq [OF v ok] by (simp add: month_date_def)
  have a: "valid_date ?y ?m ?d" by (rule valid_month_date [OF ok d])
  have mi: "month_index ?y ?m = ?M" by (rule month_index_of)
  have le: "str_le (iso_date y m d) (iso_date ?y ?m ?d)"
  proof (cases "n = 0")
    case True
    then show ?thesis using start period_zero [OF v, of k] by simp
  next
    case False
    with n k have "0 < k * n" by simp
    then show ?thesis using iso_date_le [OF v a] by (simp add: date_le_def mi)
  qed
  have far': "month_ok (month_index ?y ?m + k)" using far by (simp add: mi distrib_left add.assoc)
  have short: "month_index ?y ?m - month_index y m < 100000" using assms(5) by (simp add: mi)
  note r = periodIndexFor_spec [OF v a k far' short le]
  let ?r = "periodIndexFor (iso_date y m d) k (iso_date ?y ?m ?d)"
  have step: "k * (?r + 1) \<le> k * (n + 1)" using r(2) by (simp only: mi distrib_left)
  have "0 \<le> k * (?r + 1)" using r(1) k by simp
  then have okr: "month_ok (month_index y m + k * (?r + 1))"
    using step far valid_month_ok [OF v] unfolding month_ok_def by linarith
  have "\<not> str_le (periodEnd (computePeriod (iso_date y m d) k n)) (iso_date ?y ?m ?d)"
    unfolding period_end_start period_start_le [OF v a far] mi using k by (simp add: distrib_left)
  with period_unique [OF v a k r(1) n okr far r(3,4)] start show ?thesis by simp
qed

lemma period_index_at:
  assumes "in_horizon c n" and "0 \<le> j" and "j \<le> n + 1"
  shows "periodIndexFor (ct_startDate c) (ct_intervalMonths c) (periodStart (period_of c j)) = j"
proof -
  obtain y m d where s: "ct_startDate c = iso_date y m d" and v: "valid_date y m d" and k: "1 \<le> ct_intervalMonths c"
      and ok: "month_ok (month_index y m + ct_intervalMonths c * (n + 3))" and b: "ct_intervalMonths c * (n + 2) < 100000"
    using assms(1) unfolding in_horizon_def by blast
  have "ct_intervalMonths c * j \<le> ct_intervalMonths c * (n + 2)" using assms(3) k by (intro mult_left_mono) linarith+
  with b have "ct_intervalMonths c * j < 100000" by linarith
  moreover have "month_ok (month_index y m + ct_intervalMonths c * (j + 1))"
    using assms(2,3) by (intro period_month_ok [OF v k _ _ ok]) linarith+
  ultimately show ?thesis unfolding period_of_def s by (intro periodIndexFor_period [OF v k assms(2)])
qed

lemma bill_date_start:
  "bill_date c n = periodStart (period_of c (if ct_billingTiming c = Advance then n else n + 1))"
  by (simp add: bill_date_def nextBillingDate_def period_of_def period_end_start Let_def)

lemma billed_index_bill_date:
  assumes "in_horizon c n" and "0 \<le> n"
  shows "billed_index c (bill_date c n) = n"
proof -
  let ?j = "if ct_billingTiming c = Advance then n else n + 1"
  have "periodIndexFor (ct_startDate c) (ct_intervalMonths c) (bill_date c n) = ?j"
    unfolding bill_date_start using assms(2) by (intro period_index_at [OF assms(1)]) simp_all
  with assms(2) show ?thesis unfolding billed_index_def by (simp only: Let_def) simp
qed

lemma period_of_inj:
  assumes "in_horizon c n" and "0 \<le> i" and "i \<le> n" and "0 \<le> j" and "j \<le> n"
    and "periodStart (period_of c i) = periodStart (period_of c j)"
  shows "i = j"
proof -
  have "i \<le> n + 1" "j \<le> n + 1" using assms(3,5) by simp_all
  from period_index_at [OF assms(1,2) this(1)] period_index_at [OF assms(1,4) this(2)]
  show ?thesis unfolding assms(6) by (rule trans [OF sym])
qed

end
