(* ===== verification/Contract_Billing.thy ===== *)
theory Contract_Billing
  imports Contracts
begin

text \<open>
  The daily contract job seen from one contract: which periods are billed, when, and what becomes of the
  contract at the end of its term (apps/api/src/services/contractService.ts, contractRenewal.ts and
  jobs/contractWorker.ts).
\<close>

section \<open>One contract\<close>

definition billed_starts :: "billing_db \<Rightarrow> id \<Rightarrow> string list" where
  "billed_starts db i = map bp_periodStart (filter (\<lambda>p. bp_contractId p = i) (bd_periods db))"

text \<open>The contract once the periods before \<open>n\<close> are settled.\<close>

definition contract_at :: "contract \<Rightarrow> int \<Rightarrow> contract" where
  "contract_at c n =
     (if isExpired (ct_endDate c) (periodStart (period_of c n))
      then c\<lparr>ct_status := CExpired, ct_nextBillingAt := None\<rparr>
      else c\<lparr>ct_status := CActive, ct_nextBillingAt := Some (bill_date c n)\<rparr>)"

text \<open>When a run bills period \<open>n\<close>.\<close>

definition bills :: "billing_env \<Rightarrow> string \<Rightarrow> id \<Rightarrow> contract \<Rightarrow> int \<Rightarrow> billing_db \<Rightarrow> bool" where
  "bills env today i c n db =
     (\<not> isExpired (ct_endDate c) (periodStart (period_of c n)) \<and> str_le (bill_date c n) today
      \<and> contract_lines db i \<noteq> [] \<and> (\<exists>ls. draft_invoice env (ct_orgId c) (contract_lines db i) = Inr ls)
      \<and> periodStart (period_of c n) \<notin> set (billed_starts db i))"

lemma period_claimed_billed: "period_claimed db i s \<longleftrightarrow> s \<in> set (billed_starts db i)"
  by (auto simp: period_claimed_def billed_starts_def list_ex_iff)

lemma period_of_update [simp]:
  "period_of (c\<lparr>ct_status := a, ct_nextBillingAt := b\<rparr>) n = period_of c n"
  "bill_date (c\<lparr>ct_status := a, ct_nextBillingAt := b\<rparr>) n = bill_date c n"
  by (simp_all add: period_of_def bill_date_def)

lemma billed_index_update [simp]: "billed_index (c\<lparr>ct_status := a, ct_nextBillingAt := b\<rparr>) s = billed_index c s"
  by (simp add: billed_index_def)

lemma advance_pointer_contract_at:
  "advance_pointer (c\<lparr>ct_status := CActive, ct_nextBillingAt := b\<rparr>) n = contract_at c n"
  by (simp add: advance_pointer_def contract_at_def period_of_def bill_date_def nextBillingDate_def Let_def)

text \<open>A run for another contract leaves this one alone.\<close>

lemma generate_other:
  fixes env :: billing_env and nid today :: string and db :: billing_db
  assumes "j \<noteq> i"
  defines "db' \<equiv> snd (generateDueInvoice env nid j today db)"
  shows "bd_contracts db' i = bd_contracts db i" and "billed_starts db' i = billed_starts db i"
  using assms(1) unfolding db'_def generateDueInvoice_def
  by (simp_all add: set_contract_def billed_starts_def Let_def split: option.split sum.split)

lemma generate_lines [simp]: "bd_lines (snd (generateDueInvoice env nid j today db)) = bd_lines db"
  unfolding generateDueInvoice_def by (simp add: set_contract_def Let_def split: option.split sum.split)

text \<open>A run for this contract bills period \<open>n\<close> or does nothing.\<close>

lemma generate_self:
  fixes env :: billing_env and nid today :: string
  assumes at: "bd_contracts db i = Some (contract_at c n)" and hor: "in_horizon c n" and n: "0 \<le> n"
  defines "db' \<equiv> snd (generateDueInvoice env nid i today db)"
  shows "bd_contracts db' i = Some (contract_at c (if bills env today i c n db then n + 1 else n))"
    and "billed_starts db' i
       = billed_starts db i @ (if bills env today i c n db then [periodStart (period_of c n)] else [])"
proof -
  note idx = billed_index_bill_date [OF hor n]
  have "bd_contracts db' i = Some (contract_at c (if bills env today i c n db then n + 1 else n))
    \<and> billed_starts db' i
       = billed_starts db i @ (if bills env today i c n db then [periodStart (period_of c n)] else [])"
  proof (cases "isExpired (ct_endDate c) (periodStart (period_of c n))")
    case True
    then show ?thesis using at by (simp add: db'_def generateDueInvoice_def contract_at_def bills_def)
  next
    case False
    then have c: "contract_at c n = c\<lparr>ct_status := CActive, ct_nextBillingAt := Some (bill_date c n)\<rparr>"
      by (simp add: contract_at_def)
    show ?thesis
      using False at
      by (cases "draft_invoice env (ct_orgId c) (contract_lines db i)")
        (auto simp: db'_def generateDueInvoice_def c idx period_of_def [symmetric] bills_def set_contract_def
          period_claimed_billed advance_pointer_contract_at Let_def billed_starts_def)
  qed
  then show "bd_contracts db' i = Some (contract_at c (if bills env today i c n db then n + 1 else n))"
    and "billed_starts db' i
       = billed_starts db i @ (if bills env today i c n db then [periodStart (period_of c n)] else [])" by simp_all
qed

section \<open>The billing sweep\<close>

lemma contract_lines_generate [simp]:
  "contract_lines (snd (generateDueInvoice env nid j today db)) i = contract_lines db i"
  by (simp add: contract_lines_def)

lemma bills_other:
  assumes "j \<noteq> i"
  shows "bills env today i c n (snd (generateDueInvoice env nid j today db)) = bills env today i c n db"
  using generate_other(2) [OF assms, of env nid today db] by (simp add: bills_def)

lemma bill_others:
  fixes env :: billing_env and nid :: "id \<Rightarrow> id" and today :: string and db :: billing_db
  assumes "i \<notin> set js"
  defines "db' \<equiv> fold (\<lambda>j d. snd (generateDueInvoice env (nid j) j today d)) js db"
  shows "bd_contracts db' i = bd_contracts db i" and "billed_starts db' i = billed_starts db i"
  using assms(1) unfolding db'_def by (induction js arbitrary: db) (simp_all add: generate_other [OF not_sym])

lemma bill_each:
  fixes env :: billing_env and nid :: "id \<Rightarrow> id" and today :: string
  assumes "distinct js" and at: "bd_contracts db i = Some (contract_at c n)" and hor: "in_horizon c n" and n: "0 \<le> n"
  defines "db' \<equiv> fold (\<lambda>j d. snd (generateDueInvoice env (nid j) j today d)) js db"
    and "b \<equiv> i \<in> set js \<and> bills env today i c n db"
  shows "bd_contracts db' i = Some (contract_at c (if b then n + 1 else n))"
    and "billed_starts db' i = billed_starts db i @ (if b then [periodStart (period_of c n)] else [])"
proof -
  have "bd_contracts db' i = Some (contract_at c (if b then n + 1 else n))
    \<and> billed_starts db' i = billed_starts db i @ (if b then [periodStart (period_of c n)] else [])"
    using assms(1) at unfolding db'_def b_def
  proof (induction js arbitrary: db)
    case (Cons j js)
    show ?case
    proof (cases "j = i")
      case True
      with Cons.prems have "i \<notin> set js" by simp
      with True show ?thesis using generate_self [OF Cons.prems(2) hor n] by (simp add: bill_others)
    next
      case False
      note other = generate_other [OF False, of env "nid j" today db] bills_other [OF False, of env today c n "nid j" db]
      from False Cons.IH [of "snd (generateDueInvoice env (nid j) j today db)"] Cons.prems other show ?thesis by simp
    qed
  qed simp
  then show "bd_contracts db' i = Some (contract_at c (if b then n + 1 else n))"
    and "billed_starts db' i = billed_starts db i @ (if b then [periodStart (period_of c n)] else [])" by simp_all
qed

text \<open>A contract that \<open>bills\<close> selects is one the sweep finds due.\<close>

lemma bills_due:
  assumes "bills env today i c n db"
  shows "is_due today (contract_at c n)"
  using assms by (simp add: bills_def contract_at_def is_due_def)

lemma billing_sweep_step:
  fixes env :: billing_env and nid :: "id \<Rightarrow> id" and today :: string
  assumes "distinct ids" and at: "bd_contracts db i = Some (contract_at c n)" and "in_horizon c n" and "0 \<le> n"
  defines "db' \<equiv> runContractBillingSweep env nid ids today db"
    and "b \<equiv> i \<in> set ids \<and> bills env today i c n db"
  shows "bd_contracts db' i = Some (contract_at c (if b then n + 1 else n))"
    and "billed_starts db' i = billed_starts db i @ (if b then [periodStart (period_of c n)] else [])"
proof -
  let ?due = "filter (\<lambda>i. case bd_contracts db i of None \<Rightarrow> False | Some c \<Rightarrow> is_due today c) ids"
  have b: "b \<longleftrightarrow> i \<in> set ?due \<and> bills env today i c n db" using at bills_due by (auto simp: b_def)
  have "distinct ?due" using assms(1) by simp
  note step = bill_each [OF this at assms(3,4), of env nid today, folded b]
  from step(1) show "bd_contracts db' i = Some (contract_at c (if b then n + 1 else n))"
    unfolding db'_def runContractBillingSweep_def Let_def .
  from step(2) show "billed_starts db' i = billed_starts db i @ (if b then [periodStart (period_of c n)] else [])"
    unfolding db'_def runContractBillingSweep_def Let_def .
qed

section \<open>The renewal sweep\<close>

lemma str_le_trans: "str_le s t \<Longrightarrow> str_le t u \<Longrightarrow> str_le s u"
proof (induction s arbitrary: t u)
  case (Cons a s)
  then obtain b t' d u' where tu: "t = b # t'" "u = d # u'" by (cases t; cases u) auto
  with Cons.prems have ab: "of_char a < (of_char b :: nat) \<or> a = b \<and> str_le s t'"
    and bd: "of_char b < (of_char d :: nat) \<or> b = d \<and> str_le t' u'" by simp_all
  show ?case
  proof (cases "a = b \<and> b = d")
    case True
    with ab bd Cons.IH tu show ?thesis by auto
  next
    case False
    with ab bd have "of_char a < (of_char d :: nat)" by auto
    with tu show ?thesis by simp
  qed
qed simp

text \<open>The period start the renewal sweep computes from the billing date is never after the true one.\<close>

lemma due_period_start_le:
  assumes "in_horizon c n" and "0 \<le> n"
  shows "str_le (duePeriodStartFor (ct_billingTiming c) (bill_date c n) (ct_intervalMonths c)) (periodStart (period_of c n))"
proof (cases "ct_billingTiming c = Advance")
  case True
  then show ?thesis by (simp add: duePeriodStartFor_def bill_date_start)
next
  case False
  let ?k = "ct_intervalMonths c"
  obtain y m d where s: "ct_startDate c = iso_date y m d" and v: "valid_date y m d" and k: "1 \<le> ?k"
      and ok: "month_ok (month_index y m + ?k * (n + 3))"
    using assms(1) unfolding in_horizon_def by blast
  have d: "1 \<le> d" using v by (simp add: valid_date_def)
  let ?M = "month_index y m + ?k * (n + 1)" and ?N = "month_index y m + ?k * n"
  have M: "month_ok ?M" and N: "month_ok ?N" using assms(2) by (intro period_month_ok [OF v k _ _ ok]; simp)+
  let ?e = "min d (month_days (?M div 12) (?M mod 12 + 1))"
  have e: "1 \<le> ?e" using d month_days_bounds(1) [of "?M div 12" "?M mod 12 + 1"] by linarith
  have MN: "?M + - ?k = ?N" by (simp add: distrib_left)
  have "duePeriodStartFor (ct_billingTiming c) (bill_date c n) ?k = addMonthsClamped (month_date ?M d) (- ?k)"
    using False by (simp add: duePeriodStartFor_def bill_date_start period_of_def s period_start_eq [OF v M])
  also have "\<dots> = month_date ?N ?e"
    using addMonthsClamped_month_date [OF M d, of "- ?k"] N unfolding MN by simp
  finally have due: "duePeriodStartFor (ct_billingTiming c) (bill_date c n) ?k = month_date ?N ?e" .
  show ?thesis unfolding due period_of_def s period_start_eq [OF v N] month_date_le [OF N N e d]
    by (simp add: date_le_def min_le_iff_disj)
qed

lemma extendTermPastDue_keeps: "\<not> isExpired (Some e) due \<Longrightarrow> extendTermPastDue e due t = (e, False)"
  unfolding extendTermPastDue_def by (subst extend_loop.simps) simp

lemma claimNotice_tables [simp]:
  "bd_contracts (snd (claimNotice db i e k)) = bd_contracts db" "bd_periods (snd (claimNotice db i e k)) = bd_periods db"
  "bd_lines (snd (claimNotice db i e k)) = bd_lines db"
  by (simp_all add: claimNotice_def)

lemma renew_one_tables [simp]:
  "bd_periods (renew_one today ic db) = bd_periods db" "bd_lines (renew_one today ic db) = bd_lines db"
  by (simp_all add: renew_one_def set_contract_def Let_def split: prod.split option.split)

lemma renew_one_other:
  assumes "fst ic \<noteq> i"
  shows "bd_contracts (renew_one today ic db) i = bd_contracts db i"
  using assms by (auto simp: renew_one_def set_contract_def Let_def split: prod.split option.split)

text \<open>A contract whose pointer follows its schedule is never extended.\<close>

lemma renew_one_self:
  assumes hor: "in_horizon c n" and n: "0 \<le> n" and open_term: "\<not> isExpired (ct_endDate c) (periodStart (period_of c n))"
  shows "bd_contracts (renew_one today (i, contract_at c n) db) = bd_contracts db"
proof -
  let ?due = "duePeriodStartFor (ct_billingTiming c) (bill_date c n) (ct_intervalMonths c)"
  have "\<not> isExpired (Some e) ?due" if "ct_endDate c = Some e" for e
    using open_term that due_period_start_le [OF hor n] str_le_trans by (auto simp: isExpired_def)
  then have keeps: "extendTermPastDue e ?due t = (e, False)" if "ct_endDate c = Some e" for e t
    using that by (intro extendTermPastDue_keeps)
  show ?thesis
    using open_term by (simp add: contract_at_def renew_one_def Let_def keeps split: option.split)
qed

lemma renewal_sweep_tables:
  "bd_periods (runContractRenewalSweep ids today db) = bd_periods db"
  "bd_lines (runContractRenewalSweep ids today db) = bd_lines db"
proof -
  have "bd_periods (fold (renew_one today) ics db) = bd_periods db
      \<and> bd_lines (fold (renew_one today) ics db) = bd_lines db" for ics
    by (induction ics arbitrary: db) simp_all
  then show "bd_periods (runContractRenewalSweep ids today db) = bd_periods db"
    and "bd_lines (runContractRenewalSweep ids today db) = bd_lines db"
    by (simp_all add: runContractRenewalSweep_def)
qed

lemma renewal_sweep_self:
  assumes at: "bd_contracts db i = Some (contract_at c n)" and hor: "in_horizon c n" and n: "0 \<le> n"
  shows "bd_contracts (runContractRenewalSweep ids today db) i = Some (contract_at c n)"
proof -
  have keep: "bd_contracts (fold (renew_one today) ics d) i = bd_contracts d i"
    if "\<forall>ic\<in>set ics. fst ic = i \<longrightarrow> snd ic = contract_at c n \<and> is_renewal_candidate (snd ic)" for ics d
    using that
  proof (induction ics arbitrary: d)
    case (Cons ic ics)
    have "bd_contracts (renew_one today ic d) i = bd_contracts d i"
    proof (cases "fst ic = i")
      case True
      with Cons.prems have "ic = (i, contract_at c n)" "is_renewal_candidate (contract_at c n)" by (cases ic; auto)+
      then show ?thesis
        using renew_one_self [OF hor n, of today i d] by (auto simp: is_renewal_candidate_def contract_at_def split: if_splits)
    qed (rule renew_one_other)
    moreover have "bd_contracts (fold (renew_one today) ics (renew_one today ic d)) i = bd_contracts (renew_one today ic d) i"
      by (rule Cons.IH) (meson Cons.prems list.set_intros(2))
    ultimately show ?case by simp
  qed simp
  show ?thesis
    unfolding runContractRenewalSweep_def Let_def using at
    by (subst keep) (auto split: option.splits if_splits)
qed

section \<open>Days\<close>

definition day_bills :: "billing_day \<Rightarrow> id \<Rightarrow> contract \<Rightarrow> int \<Rightarrow> billing_db \<Rightarrow> bool" where
  "day_bills day i c n db = (i \<in> set (dy_ids day) \<and> bills (dy_env day) (dy_today day) i c n db)"

lemma daily_job_step:
  assumes "distinct (dy_ids day)" and at: "bd_contracts db i = Some (contract_at c n)" and hor: "in_horizon c n" and n: "0 \<le> n"
  shows "bd_contracts (daily_job day db) i = Some (contract_at c (if day_bills day i c n db then n + 1 else n))"
    and "billed_starts (daily_job day db) i
       = billed_starts db i @ (if day_bills day i c n db then [periodStart (period_of c n)] else [])"
proof -
  let ?db = "runContractRenewalSweep (dy_ids day) (dy_today day) db"
  note keep = renewal_sweep_tables [of "dy_ids day" "dy_today day" db]
  have s: "billed_starts ?db i = billed_starts db i" by (simp add: billed_starts_def keep)
  then have b: "bills (dy_env day) (dy_today day) i c n ?db = bills (dy_env day) (dy_today day) i c n db"
    by (simp add: bills_def contract_lines_def keep)
  note step = billing_sweep_step [OF assms(1) renewal_sweep_self [OF at hor n, of "dy_ids day" "dy_today day"] hor n,
      of "dy_env day" "dy_invoices day" "dy_today day", unfolded b s]
  from step show "bd_contracts (daily_job day db) i = Some (contract_at c (if day_bills day i c n db then n + 1 else n))"
    and "billed_starts (daily_job day db) i
       = billed_starts db i @ (if day_bills day i c n db then [periodStart (period_of c n)] else [])"
    unfolding daily_job_def day_bills_def .
qed

lemma in_horizon_mono:
  assumes "in_horizon c n" and "0 \<le> k" and "k \<le> n"
  shows "in_horizon c k"
proof -
  obtain y m d where s: "ct_startDate c = iso_date y m d" and v: "valid_date y m d" and i: "1 \<le> ct_intervalMonths c"
      and ok: "month_ok (month_index y m + ct_intervalMonths c * (n + 3))" and b: "ct_intervalMonths c * (n + 2) < 100000"
    using assms(1) unfolding in_horizon_def by blast
  have "ct_intervalMonths c * (k + 2) \<le> ct_intervalMonths c * (n + 2)" using assms(3) i by (intro mult_left_mono) linarith+
  with b have "ct_intervalMonths c * (k + 2) < 100000" by linarith
  moreover have "month_ok (month_index y m + ct_intervalMonths c * (k + 3))"
    using assms(2,3) by (intro period_month_ok [OF v i _ _ ok]) linarith+
  ultimately show ?thesis using s v i unfolding in_horizon_def by blast
qed

text \<open>Where the pointer stands on a settled period, no day bills the contract again.\<close>

lemma days_stay:
  assumes "bd_contracts db i = Some (contract_at c n)" and hor: "in_horizon c n" and n: "0 \<le> n"
    and "isExpired (ct_endDate c) (periodStart (period_of c n)) \<or> periodStart (period_of c n) \<in> set (billed_starts db i)"
    and "\<forall>day\<in>set days. distinct (dy_ids day)"
  shows "bd_contracts (fold daily_job days db) i = Some (contract_at c n)"
    and "billed_starts (fold daily_job days db) i = billed_starts db i"
proof -
  have "bd_contracts (fold daily_job days db) i = Some (contract_at c n)
    \<and> billed_starts (fold daily_job days db) i = billed_starts db i"
    using assms(1,4,5)
  proof (induction days arbitrary: db)
    case (Cons day days)
    have "\<not> day_bills day i c n db" using Cons.prems(2) by (auto simp: day_bills_def bills_def)
    with daily_job_step [OF _ Cons.prems(1) hor n, of day] Cons.prems(3)
    have "bd_contracts (daily_job day db) i = Some (contract_at c n)" "billed_starts (daily_job day db) i = billed_starts db i"
      by simp_all
    with Cons.IH [of "daily_job day db"] Cons.prems(2,3) show ?case by simp
  qed simp
  then show "bd_contracts (fold daily_job days db) i = Some (contract_at c n)"
    and "billed_starts (fold daily_job days db) i = billed_starts db i" by simp_all
qed

text \<open>The periods billed over a run of days follow each other.\<close>

lemma days_in_order:
  assumes "bd_contracts db i = Some (contract_at c n)" and "0 \<le> n" and "in_horizon c (n + int (length days))"
    and "\<forall>day\<in>set days. distinct (dy_ids day)"
  shows "\<exists>k\<le>length days. bd_contracts (fold daily_job days db) i = Some (contract_at c (n + int k))
    \<and> billed_starts (fold daily_job days db) i
      = billed_starts db i @ map (\<lambda>j. periodStart (period_of c (n + int j))) [0..<k]
    \<and> (distinct (billed_starts db i) \<longrightarrow> distinct (billed_starts (fold daily_job days db) i))"
  using assms
proof (induction days arbitrary: db n)
  case (Cons day days)
  have hor: "in_horizon c n" using in_horizon_mono [OF Cons.prems(3,2)] by simp
  have dist: "distinct (dy_ids day)" "\<forall>day\<in>set days. distinct (dy_ids day)" using Cons.prems(4) by simp_all
  note step = daily_job_step [OF dist(1) Cons.prems(1) hor Cons.prems(2)]
  show ?case
  proof (cases "day_bills day i c n db")
    case True
    let ?db = "daily_job day db"
    have at: "bd_contracts ?db i = Some (contract_at c (n + 1))"
      and starts: "billed_starts ?db i = billed_starts db i @ [periodStart (period_of c n)]" using step True by simp_all
    have "in_horizon c (n + 1 + int (length days))" using Cons.prems(3) by (simp add: algebra_simps)
    from Cons.IH [OF at _ this dist(2)] Cons.prems(2) obtain k where k: "k \<le> length days"
      "bd_contracts (fold daily_job days ?db) i = Some (contract_at c (n + 1 + int k))"
      "billed_starts (fold daily_job days ?db) i
        = billed_starts ?db i @ map (\<lambda>j. periodStart (period_of c (n + 1 + int j))) [0..<k]"
      "distinct (billed_starts ?db i) \<longrightarrow> distinct (billed_starts (fold daily_job days ?db) i)" by auto
    have "map (\<lambda>j. periodStart (period_of c (n + int j))) [0..<Suc k]
        = periodStart (period_of c n) # map (\<lambda>j. periodStart (period_of c (n + 1 + int j))) [0..<k]"
      by (simp add: upt_conv_Cons map_Suc_upt [symmetric] add.assoc del: upt_Suc)
    moreover have "distinct (billed_starts db i) \<longrightarrow> distinct (billed_starts ?db i)"
      using True starts by (simp add: day_bills_def bills_def)
    ultimately show ?thesis using k starts by (intro exI [of _ "Suc k"]) (simp add: add.assoc del: upt_Suc)
  next
    case False
    have "in_horizon c (n + int (length days))" using in_horizon_mono [OF Cons.prems(3)] Cons.prems(2) by simp
    moreover have "bd_contracts (daily_job day db) i = Some (contract_at c n)"
      "billed_starts (daily_job day db) i = billed_starts db i" using step False by simp_all
    ultimately obtain k where "k \<le> length days"
      and "bd_contracts (fold daily_job days (daily_job day db)) i = Some (contract_at c (n + int k))
        \<and> billed_starts (fold daily_job days (daily_job day db)) i
          = billed_starts db i @ map (\<lambda>j. periodStart (period_of c (n + int j))) [0..<k]
        \<and> (distinct (billed_starts db i) \<longrightarrow> distinct (billed_starts (fold daily_job days (daily_job day db)) i))"
      using Cons.IH [of "daily_job day db" n] Cons.prems(2) dist(2) by metis
    then show ?thesis unfolding fold_simps by (metis le_SucI length_Cons)
  qed
qed simp

lemma period_loop_ge: "idx \<le> period_loop s k a idx"
proof (induction s k a idx rule: period_loop.induct)
  case (1 s k a idx)
  then show ?case by (subst period_loop.simps) (auto intro: order_trans [of _ "idx + 1"])
qed

lemma periodIndexFor_nonneg: "0 \<le> periodIndexFor s k a"
  unfolding periodIndexFor_def by (rule period_loop_ge)

lemma contract_at_open:
  "\<not> isExpired (ct_endDate c) (periodStart (period_of c n)) \<Longrightarrow>
   contract_at c n = c\<lparr>ct_status := CActive, ct_nextBillingAt := Some (bill_date c n)\<rparr>"
  by (simp add: contract_at_def)

section \<open>Sample contract\<close>

text \<open>A monthly contract of two periods, billed in advance, that is to renew for a year.\<close>

definition sample_contract :: contract where
  "sample_contract =
     \<lparr>ct_partnerId = ''p'', ct_orgId = ''o'', ct_status = CActive, ct_billingTiming = Advance, ct_intervalMonths = 1,
      ct_startDate = ''2024-01-31'', ct_endDate = Some ''2024-03-31'', ct_nextBillingAt = Some ''2024-02-29'',
      ct_autoIssue = False, ct_autoRenew = True, ct_renewalTermMonths = Some 12, ct_renewalNoticeDays = None\<rparr>"

definition sample_db :: "contract \<Rightarrow> string list \<Rightarrow> billing_db" where
  "sample_db c starts =
     \<lparr>bd_orgs = [''o'' \<mapsto> ''p''], bd_contracts = [''k'' \<mapsto> c],
      bd_lines = [\<lparr>kl_id = ''l'', kl_contractId = ''k'', kl_lineType = FlatLine, kl_manualQuantity = None,
                   kl_siteId = None, kl_catalogItemId = None, kl_sortOrder = 0\<rparr>],
      bd_periods = map (\<lambda>s. \<lparr>bp_contractId = ''k'', bp_periodStart = s, bp_periodEnd = s, bp_invoiceId = ''v''\<rparr>) starts,
      bd_invoices = [], bd_notices = []\<rparr>"

definition sample_day :: "string \<Rightarrow> billing_day" where
  "sample_day today =
     \<lparr>dy_env = \<lparr>be_devices = \<lambda>_ _. 0, be_seats = \<lambda>_. 0, be_draftError = \<lambda>_. None, be_lineError = \<lambda>_ _. None\<rparr>,
      dy_invoices = \<lambda>i. ''w'', dy_ids = [''k''], dy_today = today\<rparr>"

lemma sample_dates: "iso_date 2024 1 31 = ''2024-01-31''" "iso_date 2024 2 29 = ''2024-02-29''" "iso_date 2024 3 31 = ''2024-03-31''"
  by (simp_all add: date_eval)

lemma sample_valid: "valid_date 2024 1 31"
  by (simp add: valid_date_def month_days_def)

lemma sample_horizon: "n \<le> 1000 \<Longrightarrow> 0 \<le> n \<Longrightarrow> in_horizon sample_contract n"
  unfolding in_horizon_def sample_contract_def using sample_valid
  by (intro exI [of _ 2024] exI [of _ 1] exI [of _ 31]) (simp add: month_ok_def month_index_def sample_dates)

lemma sample_periods:
  "periodStart (period_of sample_contract 0) = ''2024-01-31''"
  "periodStart (period_of sample_contract 1) = ''2024-02-29''"
  "periodStart (period_of sample_contract 2) = ''2024-03-31''"
  using period_start_eq [OF sample_valid, of 1 0] period_start_eq [OF sample_valid, of 1 1]
    period_start_eq [OF sample_valid, of 1 2]
  by (simp_all add: period_of_def sample_contract_def sample_dates month_ok_def month_index_def month_date_def
      month_days_def leap_year_def)

lemma sample_contract_at: "contract_at sample_contract 1 = sample_contract"
  by (simp add: contract_at_def sample_periods bill_date_start) (simp add: sample_contract_def isExpired_def)

lemma sample_db_simps [simp]:
  "bd_contracts (sample_db c starts) ''k'' = Some c" "billed_starts (sample_db c starts) ''k'' = starts"
  by (simp_all add: sample_db_def billed_starts_def filter_map o_def)

lemma sample_day_ids [simp]: "dy_ids (sample_day today) = [''k'']" "dy_today (sample_day today) = today"
  by (simp_all add: sample_day_def)

lemma sample_bills:
  "day_bills (sample_day ''2024-02-29'') ''k'' sample_contract 1 (sample_db c [''2024-01-31''])"
  by (simp add: day_bills_def bills_def sample_periods bill_date_start)
     (simp add: sample_contract_def isExpired_def sample_db_def sample_day_def contract_lines_def
        draft_invoice_def line_quantity_def)

section \<open>Properties\<close>

text \<open>C19: Over any run of daily jobs, a contract whose pointer stands on its schedule is billed for
  consecutive periods, at most one a day and none twice, and its pointer stays on the schedule (or the
  contract has expired).\<close>

theorem billing_exactly_once:
  assumes "bd_contracts db i = Some (contract_at c n)" and "0 \<le> n" and "in_horizon c (n + int (length days))"
    and "\<forall>day\<in>set days. distinct (dy_ids day)" and "distinct (billed_starts db i)"
  shows "\<exists>k\<le>length days. bd_contracts (fold daily_job days db) i = Some (contract_at c (n + int k))
    \<and> billed_starts (fold daily_job days db) i
      = billed_starts db i @ map (\<lambda>j. periodStart (period_of c (n + int j))) [0..<k]
    \<and> distinct (billed_starts (fold daily_job days db) i)"
  using days_in_order [OF assms(1-4)] assms(5) by blast

theorem billing_exactly_once_witness:
  "distinct (billed_starts (fold daily_job [sample_day ''2024-02-29'', sample_day ''2024-03-01'']
      (sample_db sample_contract [''2024-01-31''])) ''k'')"
proof -
  let ?days = "[sample_day ''2024-02-29'', sample_day ''2024-03-01'']"
  have "bd_contracts (sample_db sample_contract [''2024-01-31'']) ''k'' = Some (contract_at sample_contract 1)"
    "in_horizon sample_contract (1 + int (length ?days))" "\<forall>day\<in>set ?days. distinct (dy_ids day)"
    "distinct (billed_starts (sample_db sample_contract [''2024-01-31'']) ''k'')"
    using sample_horizon [of 3] by (simp_all add: sample_contract_at)
  from billing_exactly_once [OF this(1) _ this(2-4)] show ?thesis by (meson zero_le_one)
qed

text \<open>C28: The daily job bills the period at the pointer exactly when the contract is among the rows, its term
  is open, its billing date has come, it has lines, the invoice can be drafted and the period is not in
  the ledger; then the period joins the ledger and the pointer moves on, and otherwise nothing changes.\<close>

theorem daily_job_bills_due:
  assumes "distinct (dy_ids day)" and "bd_contracts db i = Some (contract_at c n)" and "in_horizon c n" and "0 \<le> n"
  shows "(bd_contracts (daily_job day db) i, billed_starts (daily_job day db) i)
    = (if i \<in> set (dy_ids day) \<and> \<not> isExpired (ct_endDate c) (periodStart (period_of c n))
          \<and> str_le (bill_date c n) (dy_today day) \<and> contract_lines db i \<noteq> []
          \<and> (\<exists>ls. draft_invoice (dy_env day) (ct_orgId c) (contract_lines db i) = Inr ls)
          \<and> periodStart (period_of c n) \<notin> set (billed_starts db i)
       then (Some (contract_at c (n + 1)), billed_starts db i @ [periodStart (period_of c n)])
       else (Some (contract_at c n), billed_starts db i))"
  unfolding bills_def [of "dy_env day" "dy_today day" i c n db, symmetric] day_bills_def [symmetric]
  using daily_job_step [OF assms] by simp

theorem daily_job_bills_due_witness:
  "billed_starts (daily_job (sample_day ''2024-02-29'') (sample_db sample_contract [''2024-01-31''])) ''k''
     = [''2024-01-31'', ''2024-02-29'']"
  using daily_job_bills_due [of "sample_day ''2024-02-29''" "sample_db sample_contract [''2024-01-31'']" "''k''" sample_contract 1]
    sample_horizon [of 1] sample_bills [of sample_contract]
  by (simp add: sample_contract_at day_bills_def bills_def sample_periods)

text \<open>C29: A contract set to renew is not renewed by the daily job: the run that bills the last period
  of the term ends it, before the renewal sweep has looked at it, and no later day brings it back.\<close>

theorem auto_renew_lapses:
  assumes "bd_contracts db i = Some (contract_at c n)" and "0 \<le> n" and "in_horizon c (n + 1)"
    and "ct_autoRenew c" and "ct_endDate c = Some e" and "str_le e (periodStart (period_of c (n + 1)))"
    and "day_bills day i c n db" and "\<forall>d\<in>set (day # days). distinct (dy_ids d)"
  shows "bd_contracts (fold daily_job (day # days) db) i = Some (c\<lparr>ct_status := CExpired, ct_nextBillingAt := None\<rparr>)
    \<and> billed_starts (fold daily_job (day # days) db) i = billed_starts db i @ [periodStart (period_of c n)]"
proof -
  have hor: "in_horizon c n" using in_horizon_mono [OF assms(3,2)] by simp
  have dist: "distinct (dy_ids day)" "\<forall>d\<in>set days. distinct (dy_ids d)" using assms(8) by simp_all
  have expired: "isExpired (ct_endDate c) (periodStart (period_of c (n + 1)))" using assms(5,6) by (simp add: isExpired_def)
  note step = daily_job_step [OF dist(1) assms(1) hor assms(2)]
  have at: "bd_contracts (daily_job day db) i = Some (contract_at c (n + 1))"
    and starts: "billed_starts (daily_job day db) i = billed_starts db i @ [periodStart (period_of c n)]"
    using step assms(7) by simp_all
  note stay = days_stay [OF at assms(3) _ disjI1 [OF expired] dist(2)]
  show ?thesis using stay assms(2) starts expired by (simp add: contract_at_def)
qed

theorem auto_renew_lapses_witness:
  "bd_contracts (fold daily_job [sample_day ''2024-02-29'', sample_day ''2024-03-31'']
       (sample_db sample_contract [''2024-01-31''])) ''k''
     = Some (sample_contract\<lparr>ct_status := CExpired, ct_nextBillingAt := None\<rparr>)"
proof -
  have "ct_autoRenew sample_contract" "ct_endDate sample_contract = Some ''2024-03-31''" by (simp_all add: sample_contract_def)
  then show ?thesis
    using auto_renew_lapses [of "sample_db sample_contract [''2024-01-31'']" "''k''" sample_contract 1 "''2024-03-31''"
        "sample_day ''2024-02-29''" "[sample_day ''2024-03-31'']"] sample_horizon [of 2] sample_bills [of sample_contract]
    by (simp add: sample_contract_at sample_periods)
qed

text \<open>C30: A contract billed in advance that is resumed within a period already billed is never billed
  again: it stays active, with its pointer on that period, whatever days follow.\<close>

theorem resume_stalls:
  assumes "bd_contracts db i = Some c" and "ct_status c = CPaused" and "requireOrgAccess actor (ct_orgId c)"
    and "ct_billingTiming c = Advance" and n: "n = periodIndexFor (ct_startDate c) (ct_intervalMonths c) today"
    and hor: "in_horizon c n" and open_term: "\<not> isExpired (ct_endDate c) (periodStart (period_of c n))"
    and "periodStart (period_of c n) \<in> set (billed_starts db i)"
    and "\<forall>day\<in>set days. distinct (dy_ids day)"
  shows "let db' = fold daily_job days (snd (resumeContract i actor today db))
    in bd_contracts db' i = Some (c\<lparr>ct_status := CActive, ct_nextBillingAt := Some (periodStart (period_of c n))\<rparr>)
       \<and> billed_starts db' i = billed_starts db i"
proof -
  let ?db = "snd (resumeContract i actor today db)"
  have "?db = set_contract db i (contract_at c n)"
    using assms(1-3) contract_at_open [OF open_term]
    by (simp add: resumeContract_def getOwnedContractOr404_def Let_def n [symmetric] bill_date_def)
  then have at: "bd_contracts ?db i = Some (contract_at c n)" and starts: "billed_starts ?db i = billed_starts db i"
    by (simp_all add: set_contract_def billed_starts_def)
  have "0 \<le> n" unfolding n by (rule periodIndexFor_nonneg)
  from days_stay [OF at hor this _ assms(9)] assms(4,8) show ?thesis
    by (simp add: starts contract_at_open [OF open_term] bill_date_start)
qed

theorem resume_stalls_witness:
  "let c = sample_contract\<lparr>ct_status := CPaused, ct_nextBillingAt := None\<rparr>;
       db' = fold daily_job [sample_day ''2024-02-29'', sample_day ''2024-03-31'']
               (snd (resumeContract ''k'' \<lparr>ac_partnerId = None, ac_accessibleOrgIds = None\<rparr> ''2024-02-15''
                 (sample_db c [''2024-01-31''])))
   in billed_starts db' ''k'' = [''2024-01-31'']"
proof -
  let ?c = "sample_contract\<lparr>ct_status := CPaused, ct_nextBillingAt := None\<rparr>"
  have t: "iso_date 2024 2 15 = ''2024-02-15''" by (simp add: date_eval)
  have v: "valid_date 2024 2 15" by (simp add: valid_date_def month_days_def)
  have s: "ct_startDate ?c = iso_date 2024 1 31" "ct_intervalMonths ?c = 1" "ct_billingTiming ?c = Advance"
    by (simp_all add: sample_contract_def sample_dates)
  have p: "period_of ?c 0 = period_of sample_contract 0" by (simp add: period_of_def)
  have idx: "periodIndexFor (ct_startDate ?c) (ct_intervalMonths ?c) ''2024-02-15'' = 0"
    unfolding s t [symmetric] periodIndexFor_def
    using period_start_le [OF sample_valid v, of 1 1]
    by (subst period_loop.simps) (simp add: month_ok_def month_index_def month_days_def leap_year_def)
  have "in_horizon ?c 0" using sample_horizon [of 0] by (simp add: in_horizon_def)
  moreover have "\<not> isExpired (ct_endDate ?c) (periodStart (period_of ?c 0))"
    by (simp add: p sample_periods) (simp add: sample_contract_def isExpired_def)
  ultimately show ?thesis
    using resume_stalls [of "sample_db ?c [''2024-01-31'']" "''k''" ?c "\<lparr>ac_partnerId = None, ac_accessibleOrgIds = None\<rparr>"
        0 "''2024-02-15''" "[sample_day ''2024-02-29'', sample_day ''2024-03-31'']"] idx s(3)
    by (simp add: Let_def requireOrgAccess_def p sample_periods)
qed

end
