(* ===== verification/Quote_To_Contract.thy ===== *)
theory Quote_To_Contract
  imports Contract_Billing
begin

text \<open>
  apps/api/src/services/quoteToContract.ts: the draft contracts made from the recurring lines of an
  accepted quote. The labels, prices and tax marks of the lines are copied and not modelled.
\<close>

section \<open>The end of a term\<close>

definition iso_shape :: "string \<Rightarrow> bool" where
  "iso_shape s = (length s = 10 \<and> (\<forall>k<10. if k \<in> {4, 7} then s ! k = CHR ''-'' else is_dec_digit (s ! k)))"

definition utc_carry :: "int \<Rightarrow> int \<Rightarrow> int \<times> int \<times> int" where
  "utc_carry monthIndex d = norm_day (monthIndex div 12) (monthIndex mod 12 + 1) d"

text \<open>\<open>toISOString\<close> writes years beyond 9999 with a sign and six digits; the last day it can write is
  13 September 275760. The first ten characters are kept.\<close>

definition iso_day_text :: "int \<times> int \<times> int \<Rightarrow> string + string" where
  "iso_day_text ymd =
     (case ymd of (y, m, d) \<Rightarrow>
        if y > 275760 \<or> (y = 275760 \<and> (m > 9 \<or> (m = 9 \<and> d > 13))) then Inl ''Invalid time value''
        else if y > 9999
        then Inr (take 10 (''+'' @ replicate (6 - length (number_text y)) (CHR ''0'') @ number_text y
                           @ ''-'' @ padStart2 (number_text m)))
        else Inr (replicate (4 - length (number_text y)) (CHR ''0'') @ number_text y
                  @ ''-'' @ padStart2 (number_text m) @ ''-'' @ padStart2 (number_text d)))"

definition addMonthsToDate :: "string \<Rightarrow> int \<Rightarrow> string + string" where
  "addMonthsToDate dateStr months =
     (if \<not> iso_shape dateStr then Inl ''expected YYYY-MM-DD''
      else if months < 1 then Inl ''months must be a positive integer''
      else (case parts dateStr of
              (Some y, Some m, Some d) \<Rightarrow>
                (case utc_carry (12 * utc_year y + (m - 1)) d of (y1, m1, d1) \<Rightarrow>
                   iso_day_text (utc_carry (12 * y1 + (m1 - 1) + months) d1))
            | _ \<Rightarrow> Inl ''Invalid time value''))"

section \<open>Specs\<close>

datatype recurrence = OneTime | Monthly | Annual

record quote_line =
  ql_id :: id
  ql_recurrence :: recurrence
  ql_customerVisible :: bool
  ql_quantity :: string
  ql_termMonths :: "int option"

definition spec_line :: "nat \<times> quote_line \<Rightarrow> id option \<times> line_input" where
  "spec_line p =
     (case p of (k, l) \<Rightarrow>
        (Some (ql_id l),
         \<lparr>li_lineType = ManualLine, li_manualQuantity = Some (ql_quantity l), li_siteId = None,
          li_catalogItemId = None, li_sortOrder = Some (int k)\<rparr>))"

text \<open>The distinct terms of a group, lines without a term left out.\<close>

definition distinct_terms :: "quote_line list \<Rightarrow> int list" where
  "distinct_terms members = remdups (List.map_filter ql_termMonths members)"

definition cadence_spec :: "id \<Rightarrow> id \<Rightarrow> string \<Rightarrow> int \<Rightarrow> quote_line list \<Rightarrow> string + contract_spec" where
  "cadence_spec orgId partnerId startDate intervalMonths members =
     (case (case distinct_terms members of [t] \<Rightarrow> map_sum id Some (addMonthsToDate startDate t) | _ \<Rightarrow> Inr None) of
        Inl e \<Rightarrow> Inl e
      | Inr endDate \<Rightarrow>
          Inr \<lparr>sp_partnerId = partnerId, sp_orgId = orgId, sp_billingTiming = Advance,
               sp_intervalMonths = intervalMonths, sp_startDate = startDate, sp_endDate = endDate,
               sp_lines = map spec_line (enumerate 0 members)\<rparr>)"

fun cadence_specs ::
  "id \<Rightarrow> id \<Rightarrow> string \<Rightarrow> quote_line list \<Rightarrow> (recurrence \<times> int) list \<Rightarrow> string + contract_spec list" where
  "cadence_specs orgId partnerId startDate ls [] = Inr []"
| "cadence_specs orgId partnerId startDate ls ((key, intervalMonths) # cadences) =
     (let members = filter (\<lambda>l. ql_recurrence l = key \<and> ql_customerVisible l) ls;
          rest = cadence_specs orgId partnerId startDate ls cadences
      in if members = [] then rest
         else (case cadence_spec orgId partnerId startDate intervalMonths members of
                 Inl e \<Rightarrow> Inl e
               | Inr spec \<Rightarrow> map_sum id (\<lambda>specs. spec # specs) rest))"

definition buildContractSpecsFromQuote :: "id \<Rightarrow> id \<Rightarrow> quote_line list \<Rightarrow> string \<Rightarrow> string + contract_spec list" where
  "buildContractSpecsFromQuote orgId partnerId ls startDate =
     cadence_specs orgId partnerId startDate ls [(Monthly, 1), (Annual, 12)]"

section \<open>The end against the periods\<close>

lemma iso_shape_iso_date:
  assumes "valid_date y m d"
  shows "iso_shape (iso_date y m d)"
proof -
  note v = valid_dateD [OF assms]
  note Y = year_text [OF v(1,2)] and M = pad_two [OF v(3,4)] and D = pad_two [OF v(5,6)]
  obtain a b c e where y: "number_text y = [a, b, c, e]" using Y(1) by (auto simp: numeral_eq_Suc length_Suc_conv)
  obtain f g where mm: "padStart2 (number_text m) = [f, g]" using M(1) by (auto simp: numeral_eq_Suc length_Suc_conv)
  obtain h i where dd: "padStart2 (number_text d) = [h, i]" using D(1) by (auto simp: numeral_eq_Suc length_Suc_conv)
  have "iso_date y m d = [a, b, c, e, CHR ''-'', f, g, CHR ''-'', h, i]"
    by (simp add: iso_date_def fmt_def nan_text_def y mm dd)
  then show ?thesis using Y(2) M(2) D(2) unfolding y mm dd iso_shape_def
    by (simp add: numeral_eq_Suc less_Suc_eq all_conj_distrib)
qed

lemma iso_day_text_iso:
  assumes "valid_date y m d"
  shows "iso_day_text (y, m, d) = Inr (iso_date y m d)"
  using valid_dateD [OF assms] year_text(1) [of y] by (simp add: iso_day_text_def iso_date_def fmt_def nan_text_def)

lemma norm_day_valid: "1 \<le> d \<Longrightarrow> d \<le> month_days y m \<Longrightarrow> norm_day y m d = (y, m, d)"
  by (subst norm_day.simps) simp

lemma norm_day_overflow:
  assumes "m \<le> 12" and "d \<le> 31" and "month_days y m < d"
  shows "norm_day y m d = (y, m + 1, d - month_days y m)" and "m < 12"
proof -
  show m: "m < 12" using assms by (cases "m = 12") (simp_all add: month_days_def)
  have "1 \<le> d - month_days y m" "d - month_days y m \<le> month_days y (m + 1)"
    using assms month_days_bounds(1) [of y m] month_days_bounds(1) [of y "m + 1"] by linarith+
  from norm_day_valid [OF this] show "norm_day y m d = (y, m + 1, d - month_days y m)"
    using assms m month_days_bounds(1) [of y m] by (subst norm_day.simps) simp
qed

text \<open>The end of a term of \<open>t\<close> months: the same day of the month, or the first days of the next one.\<close>

definition term_end :: "int \<Rightarrow> int \<Rightarrow> int \<times> int" where
  "term_end k d = (let n = month_days (k div 12) (k mod 12 + 1) in if d \<le> n then (k, d) else (k + 1, d - n))"

lemma addMonthsToDate_iso:
  assumes v: "valid_date y m d" and t: "1 \<le> t" and ok: "month_ok (month_index y m + t)"
  defines "k \<equiv> month_index y m + t"
  shows "\<exists>y' m' d'. addMonthsToDate (iso_date y m d) t = Inr (iso_date y' m' d') \<and> valid_date y' m' d'
    \<and> (month_index y' m', d') = term_end k d"
proof -
  have m: "1 \<le> m" "m \<le> 12" and d: "1 \<le> d" "d \<le> month_days y m" "d \<le> 31" and u: "utc_year y = y"
    using v month_days_bounds(2) [of y m] by (auto simp: valid_date_def utc_year_def)
  have "utc_carry (12 * utc_year y + (m - 1)) d = (y, m, d)"
    unfolding u month_index_def [symmetric] utc_carry_def using month_index_div [OF m] norm_day_valid [OF d(1,2)] by simp
  then have eq: "addMonthsToDate (iso_date y m d) t = iso_day_text (utc_carry k d)"
    unfolding addMonthsToDate_def parts_iso_date [OF v] k_def month_index_def
    using iso_shape_iso_date [OF v] t by simp
  let ?y = "k div 12" and ?m = "k mod 12 + 1"
  have year: "1000 \<le> ?y" "?y \<le> 9999" and m12: "1 \<le> ?m" "?m \<le> 12" and mi: "month_index ?y ?m = k"
    using month_ok_year [OF ok] month_index_of [of k] by (simp_all add: k_def)
  show ?thesis
  proof (cases "d \<le> month_days ?y ?m")
    case True
    then have "valid_date ?y ?m d" using year m12 d(1) by (simp add: valid_date_def)
    with True show ?thesis
      using iso_day_text_iso [of ?y ?m d] norm_day_valid [OF d(1) True] mi
      by (intro exI [of _ ?y] exI [of _ ?m] exI [of _ d]) (simp add: eq utc_carry_def term_end_def)
  next
    case False
    let ?d = "d - month_days ?y ?m"
    have over: "month_days ?y ?m < d" using False by simp
    note carry = norm_day_overflow [OF m12(2) d(3) over]
    have "1 \<le> ?d" "?d \<le> month_days ?y (?m + 1)"
      using over d(3) month_days_bounds(1) [of ?y ?m] month_days_bounds(1) [of ?y "?m + 1"] by linarith+
    then have v': "valid_date ?y (?m + 1) ?d" using year m12(1) carry(2) unfolding valid_date_def by linarith
    have "month_index ?y (?m + 1) = k + 1" using mi unfolding month_index_def by linarith
    with False show ?thesis
      using iso_day_text_iso [OF v'] carry(1) v'
      by (intro exI [of _ ?y] exI [of _ "?m + 1"] exI [of _ ?d]) (simp add: eq utc_carry_def term_end_def Let_def)
  qed
qed

lemma term_end_expired:
  assumes v: "valid_date y m d" and e: "valid_date y' m' d'" and b: "month_ok (month_index y m + k * i)"
    and "(month_index y' m', d') = term_end (month_index y m + t) d"
  shows "isExpired (Some (iso_date y' m' d')) (periodStart (computePeriod (iso_date y m d) k i))
    \<longleftrightarrow> (if d \<le> month_days ((month_index y m + t) div 12) ((month_index y m + t) mod 12 + 1) then t \<le> k * i else t < k * i)"
proof -
  let ?K = "month_index y m + t" and ?B = "month_index y m + k * i"
  let ?n = "month_days (?K div 12) (?K mod 12 + 1)" and ?nb = "month_days (?B div 12) (?B mod 12 + 1)"
  have d: "1 \<le> d" "1 \<le> d'" "d \<le> 31" "d' \<le> month_days y' m'" "1 \<le> m'" "m' \<le> 12"
    using v e month_days_bounds(2) [of y m] by (auto simp: valid_date_def)
  have a: "month_index y' m' div 12 = y'" "month_index y' m' mod 12 + 1 = m'" using month_index_div [OF d(5,6)] by auto
  have "isExpired (Some (iso_date y' m' d')) (periodStart (computePeriod (iso_date y m d) k i))
      \<longleftrightarrow> date_le (month_index y' m', d') (?B, min d ?nb)"
    unfolding isExpired_def option.case period_start_eq [OF v b] iso_date_month_date [OF e]
      month_date_le [OF valid_month_ok [OF e] b d(2,1)] a using d(4) by (simp add: min_def)
  also have "\<dots> \<longleftrightarrow> (if d \<le> ?n then t \<le> k * i else t < k * i)"
  proof (cases "d \<le> ?n")
    case True
    with assms(4) have "month_index y' m' = ?K" "d' = d" by (simp_all add: term_end_def)
    moreover have "d \<le> min d ?nb" if "?B = ?K" unfolding that using True by simp
    ultimately show ?thesis using True unfolding date_le_def by auto
  next
    case False
    then have "month_index y' m' = ?K + 1" "d' = d - ?n" using assms(4) by (simp_all add: term_end_def Let_def)
    moreover have "d - ?n \<le> min d ?nb"
      using d(3) False month_days_bounds(1) [of "?K div 12" "?K mod 12 + 1"] month_days_bounds(1) [of "?B div 12" "?B mod 12 + 1"]
      by linarith
    ultimately show ?thesis using False unfolding date_le_def fst_conv snd_conv by simp linarith
  qed
  finally show ?thesis .
qed

section \<open>Properties\<close>

text \<open>C32: A contract made from quote lines that agree on a term of \<open>t\<close> months ends with it, so that exactly the
  periods that start less than \<open>t\<close> months after the start date are billed; but when the month the term
  ends in has no such day, the end falls into the month after, and the period that starts at \<open>t\<close> months is
  billed as well.\<close>

theorem quote_term_periods:
  assumes "valid_date y m d" and "1 \<le> t" and "month_ok (month_index y m + t)" and "month_ok (month_index y m + k * i)"
    and "distinct_terms members = [t]"
  shows "\<exists>spec. cadence_spec orgId partnerId (iso_date y m d) k members = Inr spec
    \<and> (isExpired (sp_endDate spec) (periodStart (computePeriod (sp_startDate spec) (sp_intervalMonths spec) i))
       \<longleftrightarrow> (if d \<le> month_days ((month_index y m + t) div 12) ((month_index y m + t) mod 12 + 1)
            then t \<le> k * i else t < k * i))"
proof -
  obtain y' m' d' where e: "addMonthsToDate (iso_date y m d) t = Inr (iso_date y' m' d')" "valid_date y' m' d'"
    "(month_index y' m', d') = term_end (month_index y m + t) d" using addMonthsToDate_iso [OF assms(1-3)] by blast
  show ?thesis using term_end_expired [OF assms(1) e(2) assms(4) e(3)] assms(5) e(1) by (simp add: cadence_spec_def)
qed

theorem quote_term_periods_witness:
  "\<exists>spec. cadence_spec ''o'' ''p'' ''2024-01-31'' 1
       [\<lparr>ql_id = ''l'', ql_recurrence = Monthly, ql_customerVisible = True, ql_quantity = ''1'', ql_termMonths = Some 1\<rparr>] = Inr spec
     \<and> \<not> isExpired (sp_endDate spec) (periodStart (computePeriod (sp_startDate spec) (sp_intervalMonths spec) 1))"
  using quote_term_periods [OF sample_valid, of 1 1 1
      "[\<lparr>ql_id = ''l'', ql_recurrence = Monthly, ql_customerVisible = True, ql_quantity = ''1'', ql_termMonths = Some 1\<rparr>]" "''o''" "''p''"]
  by (simp add: month_ok_def month_index_def sample_dates month_days_def leap_year_def distinct_terms_def map_filter_simps)

text \<open>Every visible recurring line of a quote becomes exactly one line of the contracts made from it,
  monthly lines first and in their order, as a manual line with the quoted quantity and without a link to
  the catalog.\<close>

theorem quote_lines_conserved:
  assumes "buildContractSpecsFromQuote orgId partnerId ls startDate = Inr specs"
  shows "map (\<lambda>(source, l). (source, li_lineType l, li_manualQuantity l, li_catalogItemId l)) (concat (map sp_lines specs))
    = map (\<lambda>l. (Some (ql_id l), ManualLine, Some (ql_quantity l), None))
        (filter (\<lambda>l. ql_recurrence l = Monthly \<and> ql_customerVisible l) ls
         @ filter (\<lambda>l. ql_recurrence l = Annual \<and> ql_customerVisible l) ls)"
proof -
  let ?row = "\<lambda>(source, l). (source, li_lineType l, li_manualQuantity l, li_catalogItemId l)"
  let ?made = "\<lambda>l. (Some (ql_id l), ManualLine, Some (ql_quantity l), None)"
  have "map (?row \<circ> spec_line) (enumerate n members) = map ?made members" for n members
    by (induction members arbitrary: n) (simp_all add: spec_line_def)
  then have lines: "map ?row (sp_lines spec) = map ?made members"
    if "cadence_spec orgId partnerId startDate k members = Inr spec" for k members spec
    using that by (auto simp: cadence_spec_def split: sum.splits)
  have all: "map ?row (concat (map sp_lines specs))
      = map ?made (concat (map (\<lambda>(key, _). filter (\<lambda>l. ql_recurrence l = key \<and> ql_customerVisible l) ls) cadences))"
    if "cadence_specs orgId partnerId startDate ls cadences = Inr specs" for cadences specs
    using that
  proof (induction cadences arbitrary: specs)
    case (Cons c cadences)
    obtain key k where c: "c = (key, k)" by (cases c)
    let ?g = "filter (\<lambda>l. ql_recurrence l = key \<and> ql_customerVisible l) ls"
    show ?case
    proof (cases "?g = []")
      case True
      with Cons c show ?thesis by (simp add: Let_def)
    next
      case False
      with Cons.prems c obtain spec rest where r: "cadence_spec orgId partnerId startDate k ?g = Inr spec"
          "cadence_specs orgId partnerId startDate ls cadences = Inr rest" "specs = spec # rest"
        by (cases "cadence_specs orgId partnerId startDate ls cadences") (auto simp: Let_def split: sum.splits)
      from lines [OF r(1)] Cons.IH [OF r(2)] show ?thesis by (simp add: c r(3))
    qed
  qed simp
  show ?thesis using all [OF assms [unfolded buildContractSpecsFromQuote_def]] by simp
qed

theorem quote_lines_conserved_witness:
  "\<exists>specs. buildContractSpecsFromQuote ''o'' ''p''
       [\<lparr>ql_id = ''l'', ql_recurrence = Annual, ql_customerVisible = True, ql_quantity = ''2'', ql_termMonths = None\<rparr>,
        \<lparr>ql_id = ''n'', ql_recurrence = OneTime, ql_customerVisible = True, ql_quantity = ''1'', ql_termMonths = None\<rparr>]
       ''2024-01-31'' = Inr specs
     \<and> map (fst) (concat (map sp_lines specs)) = [Some ''l'']"
proof -
  let ?ls = "[\<lparr>ql_id = ''l'', ql_recurrence = Annual, ql_customerVisible = True, ql_quantity = ''2'', ql_termMonths = None\<rparr>,
        \<lparr>ql_id = ''n'', ql_recurrence = OneTime, ql_customerVisible = True, ql_quantity = ''1'', ql_termMonths = None\<rparr>]"
  obtain specs where s: "buildContractSpecsFromQuote ''o'' ''p'' ?ls ''2024-01-31'' = Inr specs"
    by (simp add: buildContractSpecsFromQuote_def cadence_spec_def distinct_terms_def map_filter_simps)
  have "map fst (map (\<lambda>(source, l). (source, li_lineType l, li_manualQuantity l, li_catalogItemId l))
      (concat (map sp_lines specs))) = [Some ''l'']" unfolding quote_lines_conserved [OF s] by simp
  with s show ?thesis by (simp add: o_def case_prod_unfold)
qed

end
