(* ===== verification/Contract_Ledger.thy ===== *)
theory Contract_Ledger
  imports Quote_To_Contract
begin

text \<open>
  Every operation on the contract tables as one step relation, and the invariant of the tables: the
  pointer of a contract is there exactly while it is active, the ledger and the notices have unique keys
  and refer to contracts that exist, and a draft has no billing history.
\<close>

section \<open>Steps\<close>

text \<open>An inserted contract has a new id.\<close>

inductive billing_step :: "billing_db \<Rightarrow> billing_db \<Rightarrow> bool" where
  create: "bd_contracts db i = None \<Longrightarrow> billing_step db (snd (createContract i input actor db))"
| from_quote: "bd_contracts db i = None \<Longrightarrow> billing_step db (snd (createContractWithLinesDetailed i newLine spec db))"
| activate: "billing_step db (snd (activateContract i actor today db))"
| pause: "billing_step db (snd (pauseContract i actor db))"
| resume: "billing_step db (snd (resumeContract i actor today db))"
| cancel: "billing_step db (snd (cancelContract i actor db))"
| delete_draft: "billing_step db (snd (deleteDraftContract i actor db))"
| update: "billing_step db (snd (updateContract i patch actor db))"
| add_line: "billing_step db (snd (addContractLineToContract i lineId input actor db))"
| remove_line: "billing_step db (snd (removeContractLine i lineId actor db))"
| generate: "billing_step db (snd (generateDueInvoice env nid i today db))"
| renewal: "billing_step db (renew_one today (i, c) db)" if "bd_contracts db i \<noteq> None"

text \<open>The daily job is a sequence of steps: one for each renewal candidate, then one for each due contract.\<close>

definition contract_ok :: "contract \<Rightarrow> bool" where
  "contract_ok c = ((ct_nextBillingAt c \<noteq> None) = (ct_status c = CActive))"

definition has_history :: "billing_db \<Rightarrow> id \<Rightarrow> bool" where
  "has_history db i = (case bd_contracts db i of None \<Rightarrow> False | Some c \<Rightarrow> ct_status c \<noteq> CDraft)"

definition billing_inv :: "billing_db \<Rightarrow> bool" where
  "billing_inv db =
     ((\<forall>i c. bd_contracts db i = Some c \<longrightarrow> contract_ok c)
      \<and> distinct (map (\<lambda>p. (bp_contractId p, bp_periodStart p)) (bd_periods db))
      \<and> distinct (bd_notices db)
      \<and> (\<forall>l\<in>set (bd_lines db). bd_contracts db (kl_contractId l) \<noteq> None)
      \<and> (\<forall>p\<in>set (bd_periods db). has_history db (bp_contractId p))
      \<and> (\<forall>n\<in>set (bd_notices db). bd_contracts db (fst n) \<noteq> None))"

lemma inv_set_contract:
  assumes "billing_inv db" and "contract_ok c"
    and "ct_status c = CDraft \<longrightarrow> (\<forall>c0. bd_contracts db i = Some c0 \<longrightarrow> ct_status c0 = CDraft)"
  shows "billing_inv (set_contract db i c)"
proof -
  have h: "has_history (set_contract db i c) j" if "has_history db j" for j
    using that assms(3) by (auto simp: has_history_def set_contract_def split: option.splits)
  show ?thesis using assms(1,2) h unfolding billing_inv_def by (auto simp: set_contract_def)
qed

lemma inv_lines:
  assumes "billing_inv db" and "\<forall>l\<in>set ls. bd_contracts db (kl_contractId l) \<noteq> None"
  shows "billing_inv (db\<lparr>bd_lines := ls\<rparr>)"
  using assms unfolding billing_inv_def by (simp add: has_history_def)

lemma inv_lookup: "billing_inv db \<Longrightarrow> bd_contracts db i = Some c \<Longrightarrow> contract_ok c"
  by (simp add: billing_inv_def)

lemma owned_lookup: "getOwnedContractOr404 db i actor = Inr c \<Longrightarrow> bd_contracts db i = Some c"
  by (auto simp: getOwnedContractOr404_def split: option.splits if_splits)

section \<open>Each step keeps the invariant\<close>

lemmas handler_defs = activateContract_def pauseContract_def resumeContract_def cancelContract_def updateContract_def

lemma inv_schedule_handlers:
  assumes "billing_inv db"
  shows "billing_inv (snd (activateContract i actor today db))" "billing_inv (snd (pauseContract i actor db))"
    "billing_inv (snd (resumeContract i actor today db))" "billing_inv (snd (cancelContract i actor db))"
  using assms
  by (auto simp: handler_defs Let_def contract_ok_def split: sum.split intro!: inv_set_contract)

lemma inv_updateContract:
  assumes "billing_inv db"
  shows "billing_inv (snd (updateContract i patch actor db))"
proof (cases "getOwnedContractOr404 db i actor")
  case (Inr c)
  note c = owned_lookup [OF Inr]
  have "contract_ok c" by (rule inv_lookup [OF assms c])
  then show ?thesis
    using assms c Inr by (auto simp: updateContract_def Let_def contract_ok_def intro!: inv_set_contract)
qed (use assms in \<open>simp add: updateContract_def\<close>)

lemma inv_create:
  assumes "billing_inv db" and "bd_contracts db i = None"
  shows "billing_inv (snd (createContract i input actor db))"
    and "billing_inv (snd (createContractWithLinesDetailed i newLine spec db))"
proof -
  show "billing_inv (snd (createContract i input actor db))"
    using assms by (auto simp: createContract_def Let_def contract_ok_def split: option.split intro!: inv_set_contract)
  have old: "\<forall>l\<in>set (bd_lines db). bd_contracts db (kl_contractId l) \<noteq> None" using assms(1) by (simp add: billing_inv_def)
  have draft: "billing_inv (set_contract db i c)" if "ct_status c = CDraft" "ct_nextBillingAt c = None" for c
    using that assms by (intro inv_set_contract) (simp_all add: contract_ok_def)
  show "billing_inv (snd (createContractWithLinesDetailed i newLine spec db))"
    unfolding createContractWithLinesDetailed_def Let_def snd_conv
    by (intro inv_lines draft) (use old in \<open>auto simp: set_contract_def stored_line_def\<close>)
qed

lemma inv_line_handlers:
  assumes "billing_inv db"
  shows "billing_inv (snd (addContractLineToContract i lineId input actor db))"
    and "billing_inv (snd (removeContractLine i lineId actor db))"
proof -
  have old: "\<forall>l\<in>set (bd_lines db). bd_contracts db (kl_contractId l) \<noteq> None" using assms by (simp add: billing_inv_def)
  show "billing_inv (snd (addContractLineToContract i lineId input actor db))"
    using assms old owned_lookup [of db i actor]
    by (auto simp: addContractLineToContract_def Let_def stored_line_def split: sum.split intro!: inv_lines)
  show "billing_inv (snd (removeContractLine i lineId actor db))"
    using assms old by (auto simp: removeContractLine_def split: sum.split intro!: inv_lines)
qed

lemma inv_deleteDraftContract:
  assumes "billing_inv db"
  shows "billing_inv (snd (deleteDraftContract i actor db))"
proof -
  have "billing_inv (db\<lparr>bd_contracts := (bd_contracts db)(i := None),
      bd_lines := filter (\<lambda>l. kl_contractId l \<noteq> i) (bd_lines db),
      bd_periods := filter (\<lambda>p. bp_contractId p \<noteq> i) (bd_periods db),
      bd_notices := filter (\<lambda>n. fst n \<noteq> i) (bd_notices db)\<rparr>)"
    using assms unfolding billing_inv_def by (auto simp: has_history_def distinct_map inj_on_def)
  with assms show ?thesis by (auto simp: deleteDraftContract_def split: sum.split)
qed

lemma inv_generateDueInvoice:
  assumes "billing_inv db"
  shows "billing_inv (snd (generateDueInvoice env nid i today db))"
proof (cases "bd_contracts db i")
  case (Some c)
  have ledger: "billing_inv (db\<lparr>bd_invoices := vs, bd_periods := bd_periods db @ [p]\<rparr>)"
    if "bp_contractId p = i" "\<not> period_claimed db i (bp_periodStart p)" "ct_status c = CActive" for p vs
    using that assms Some unfolding billing_inv_def
    by (auto simp: has_history_def period_claimed_def list_ex_iff)
  have moved: "contract_ok (advance_pointer c k)" "ct_status (advance_pointer c k) \<noteq> CDraft" if "ct_status c = CActive" for k
    using that by (auto simp: advance_pointer_def contract_ok_def Let_def)
  show ?thesis
    using assms Some moved
    by (auto simp: generateDueInvoice_def Let_def contract_ok_def split: option.split sum.split
        intro!: inv_set_contract ledger)
qed (use assms in \<open>simp add: generateDueInvoice_def\<close>)

lemma inv_claimNotice:
  assumes "billing_inv db" and "bd_contracts db i \<noteq> None"
  shows "billing_inv (snd (claimNotice db i e k))"
  using assms unfolding billing_inv_def by (auto simp: claimNotice_def has_history_def)

lemma inv_renew_one:
  assumes "billing_inv db" and "bd_contracts db i \<noteq> None"
  shows "billing_inv (renew_one today (i, c) db)"
proof -
  have extended: "billing_inv (snd (claimNotice (set_contract d i (c'\<lparr>ct_endDate := e\<rparr>)) i e' k))"
    if "billing_inv d" "bd_contracts d i = Some c'" for d c' e e' k
  proof (rule inv_claimNotice)
    show "billing_inv (set_contract d i (c'\<lparr>ct_endDate := e\<rparr>))"
      using that inv_lookup [OF that] by (intro inv_set_contract) (simp_all add: contract_ok_def)
  qed (simp add: set_contract_def)
  show ?thesis
    using assms inv_claimNotice [OF assms]
    by (auto simp: renew_one_def Let_def split: option.split prod.split intro!: extended)
qed

interpretation contract_tables: step_invariant billing_step billing_inv
proof
  fix a b assume "billing_step a b" and "billing_inv a"
  then show "billing_inv b"
    by cases (auto intro: inv_create inv_schedule_handlers inv_updateContract inv_line_handlers
        inv_deleteDraftContract inv_generateDueInvoice inv_renew_one)
qed

section \<open>The daily job as steps\<close>

lemma renew_steps:
  assumes "\<forall>ic\<in>set ics. bd_contracts db (fst ic) \<noteq> None"
  shows "billing_step\<^sup>*\<^sup>* db (fold (renew_one today) ics db)"
  using assms
proof (induction ics arbitrary: db)
  case (Cons ic ics)
  have "billing_step db (renew_one today ic db)"
    using billing_step.renewal [of db "fst ic" today "snd ic"] Cons.prems by simp
  moreover have "bd_contracts (renew_one today ic db) j \<noteq> None" if "bd_contracts db j \<noteq> None" for j
    using that by (auto simp: renew_one_def set_contract_def Let_def split: prod.split option.split)
  ultimately show ?case using Cons.IH [of "renew_one today ic db"] Cons.prems
    by (auto intro: converse_rtranclp_into_rtranclp)
qed simp

lemma generate_steps: "billing_step\<^sup>*\<^sup>* db (fold (\<lambda>j d. snd (generateDueInvoice env (nid j) j today d)) js db)"
  by (induction js arbitrary: db) (auto intro: converse_rtranclp_into_rtranclp billing_step.generate)

lemma daily_job_steps: "billing_step\<^sup>*\<^sup>* db (daily_job day db)"
proof -
  have "billing_step\<^sup>*\<^sup>* db (runContractRenewalSweep (dy_ids day) (dy_today day) db)"
    unfolding runContractRenewalSweep_def Let_def by (rule renew_steps) (auto split: option.splits if_splits dest: sym [of "Some _"])
  then show ?thesis unfolding daily_job_def runContractBillingSweep_def Let_def
    using generate_steps by (rule rtranclp_trans)
qed

section \<open>The ledger only grows\<close>

lemma step_ledger:
  assumes "billing_step db db'" and "billing_inv db"
  shows "prefix (bd_periods db) (bd_periods db')"
  using assms
proof cases
  case (delete_draft i actor)
  have "filter (\<lambda>p. bp_contractId p \<noteq> i) (bd_periods db) = bd_periods db"
    if "bd_contracts db i = Some c" "ct_status c = CDraft" for c
    using assms(2) that by (auto simp: billing_inv_def has_history_def filter_id_conv split: option.splits)
  then show ?thesis
    using owned_lookup [of db i actor] by (auto simp: delete_draft deleteDraftContract_def split: sum.split)
next
  case (generate env nid i today)
  then show ?thesis
    by (auto simp: generateDueInvoice_def set_contract_def Let_def split: option.split sum.split)
qed (auto simp: createContract_def createContractWithLinesDetailed_def handler_defs addContractLineToContract_def
    removeContractLine_def set_contract_def Let_def split: option.split sum.split)

definition empty_tables :: "(id \<rightharpoonup> id) \<Rightarrow> billing_db" where
  "empty_tables orgs = \<lparr>bd_orgs = orgs, bd_contracts = Map.empty, bd_lines = [], bd_periods = [], bd_invoices = [], bd_notices = []\<rparr>"

lemma empty_tables_inv: "billing_inv (empty_tables orgs)"
  by (simp add: billing_inv_def empty_tables_def)

section \<open>Properties\<close>

text \<open>C20: Whatever operations and daily jobs run, in every state of the tables a contract has a next billing
  date exactly while it is active, no contract has two ledger rows for one period start, and every
  ledger row belongs to a contract that is no longer a draft.\<close>

theorem contract_tables_invariant:
  assumes "billing_step\<^sup>*\<^sup>* (empty_tables orgs) db"
  shows "(\<forall>i c. bd_contracts db i = Some c \<longrightarrow> (ct_nextBillingAt c \<noteq> None \<longleftrightarrow> ct_status c = CActive))
    \<and> distinct (map (\<lambda>p. (bp_contractId p, bp_periodStart p)) (bd_periods db))
    \<and> (\<forall>p\<in>set (bd_periods db). \<exists>c. bd_contracts db (bp_contractId p) = Some c \<and> ct_status c \<noteq> CDraft)"
  using contract_tables.reachable_keeps [OF assms empty_tables_inv]
  by (auto simp: billing_inv_def contract_ok_def has_history_def split: option.splits)

theorem contract_tables_invariant_witness:
  "\<exists>c. bd_contracts (snd (createContract ''k'' \<lparr>in_orgId = ''o'', in_billingTiming = Advance, in_intervalMonths = 1,
        in_startDate = ''2024-01-31'', in_endDate = None, in_autoIssue = None, in_autoRenew = None,
        in_renewalTermMonths = None, in_renewalNoticeDays = None\<rparr> \<lparr>ac_partnerId = Some ''p'', ac_accessibleOrgIds = None\<rparr>
        (empty_tables [''o'' \<mapsto> ''p'']))) ''k'' = Some c \<and> (ct_nextBillingAt c \<noteq> None) = (ct_status c = CActive)"
proof -
  let ?db = "snd (createContract ''k'' \<lparr>in_orgId = ''o'', in_billingTiming = Advance, in_intervalMonths = 1,
        in_startDate = ''2024-01-31'', in_endDate = None, in_autoIssue = None, in_autoRenew = None,
        in_renewalTermMonths = None, in_renewalNoticeDays = None\<rparr> \<lparr>ac_partnerId = Some ''p'', ac_accessibleOrgIds = None\<rparr>
        (empty_tables [''o'' \<mapsto> ''p'']))"
  have "bd_contracts (empty_tables [''o'' \<mapsto> ''p'']) ''k'' = None" by (simp add: empty_tables_def)
  note inv = contract_tables_invariant [OF r_into_rtranclp [where r = billing_step, OF billing_step.create [OF this]]]
  obtain c where "bd_contracts ?db ''k'' = Some c"
    by (simp add: createContract_def requireOrgAccess_def empty_tables_def set_contract_def Let_def)
  with inv show ?thesis by blast
qed

text \<open>No operation and no daily job removes or rewrites a row of the billing ledger, although deleting a
  draft cascades to it; the ledger only grows at its end.\<close>

theorem ledger_append_only:
  assumes "billing_step\<^sup>*\<^sup>* (empty_tables orgs) db" and "billing_step\<^sup>*\<^sup>* db db'"
  shows "prefix (bd_periods db) (bd_periods db')"
  using assms(2)
proof (induction rule: rtranclp_induct)
  case (step a b)
  have "billing_inv a"
    using contract_tables.reachable_keeps [OF rtranclp_trans [OF assms(1) step.hyps(1)] empty_tables_inv] .
  with step_ledger [OF step.hyps(2)] step.IH show ?case by (metis prefix_order.trans)
qed simp

theorem ledger_append_only_witness:
  "prefix (bd_periods (empty_tables [''o'' \<mapsto> ''p'']))
     (bd_periods (daily_job (sample_day ''2024-02-29'') (empty_tables [''o'' \<mapsto> ''p''])))"
  using ledger_append_only [OF rtranclp.rtrancl_refl daily_job_steps] .

end
