(* ===== verification/Action_Intents.thy ===== *)
theory Action_Intents
  imports Ai_Guardrails Tenant_Status
begin

text \<open>
  Action intents: privileged AI tool calls that wait for a human decision. The operations of
  apps/api/src/services/actionIntents (intentService.ts, intentApprovers.ts, actorContext.ts,
  revalidateRelease.ts), the decision handlers of routes/approvals.ts, as far as they concern intents,
  and the reaper of jobs/intentExpiryReaper.ts. The digest of the arguments, the tier of a tool, the
  organization a call resolves to, the assurance proof of a decision and the ids of new rows are
  arguments. Texts for display, audit events and push messages are not modelled.
\<close>

section \<open>Tables\<close>

datatype intent_status = IPending | IApproved | IExecuting | ICompleted | IFailed | IRejected | IExpired | ICancelled

datatype intent_source = ChatSource | McpApi

record action_intent =
  nt_id :: id
  nt_orgId :: id
  nt_partnerId :: "id option"
  nt_requestedByUserId :: "id option"
  nt_requestingApiKeyId :: "id option"
  nt_source :: intent_source
  nt_actionName :: string
  nt_arguments :: json
  nt_argumentDigest :: string
  nt_riskTier :: nat
  nt_idempotencyKey :: string
  nt_status :: intent_status
  nt_expiresAt :: int
  nt_decidedAt :: "int option"
  nt_decidedByUserId :: "id option"
  nt_executionStartedAt :: "int option"
  nt_executedAt :: "int option"
  nt_errorCode :: "string option"

datatype approval_status = APending | AApproved | ADenied | AExpired | AReported

record approval_request =
  ar_id :: id
  ar_userId :: id
  ar_status :: approval_status
  ar_expiresAt :: int
  ar_intentId :: "id option"
  ar_boundArgumentDigest :: "string option"
  ar_decidedAssuranceLevel :: "nat option"

datatype outbox_event = IntentCreated | IntentApproved

record intent_tables =
  it_intents :: "action_intent list"
  it_approvals :: "approval_request list"
  it_outbox :: "(id \<times> outbox_event) list"

definition LIVE_INTENT_STATUSES :: "intent_status list" where
  "LIVE_INTENT_STATUSES = [IPending, IApproved, IExecuting]"

text \<open>An update of the rows that meet a condition, and whether there was one.\<close>

definition update_intents ::
  "(action_intent \<Rightarrow> bool) \<Rightarrow> (action_intent \<Rightarrow> action_intent) \<Rightarrow> intent_tables \<Rightarrow> bool \<times> intent_tables" where
  "update_intents P f t =
     (list_ex P (it_intents t), t\<lparr>it_intents := map (\<lambda>x. if P x then f x else x) (it_intents t)\<rparr>)"

definition update_approvals ::
  "(approval_request \<Rightarrow> bool) \<Rightarrow> (approval_request \<Rightarrow> approval_request) \<Rightarrow> intent_tables \<Rightarrow> bool \<times> intent_tables" where
  "update_approvals P f t =
     (list_ex P (it_approvals t), t\<lparr>it_approvals := map (\<lambda>x. if P x then f x else x) (it_approvals t)\<rparr>)"

text \<open>The compare-and-set on the status. \<open>patch\<close> gives the other columns that are set.\<close>

definition transitionIntent ::
  "id \<Rightarrow> intent_status list \<Rightarrow> intent_status \<Rightarrow> (action_intent \<Rightarrow> action_intent) \<Rightarrow> bool \<Rightarrow> int
     \<Rightarrow> intent_tables \<Rightarrow> bool \<times> intent_tables" where
  "transitionIntent intentId from to patch requireNotExpired now t =
     update_intents
       (\<lambda>x. nt_id x = intentId \<and> nt_status x \<in> set from \<and> (requireNotExpired \<longrightarrow> now < nt_expiresAt x))
       (\<lambda>x. (patch x)\<lparr>nt_status := to\<rparr>) t"

text \<open>The \<open>action\<close> argument of a call.\<close>

definition json_action :: "json \<Rightarrow> string option" where
  "json_action arguments = (case json_prop (Some arguments) ''action'' of Some (JStr s) \<Rightarrow> Some s | _ \<Rightarrow> None)"

section \<open>Eligible approvers\<close>

definition granting_role_ids :: "database \<Rightarrow> id list dbm" where
  "granting_role_ids d amb =
     js_dedup (concat (map (\<lambda>rp. map (\<lambda>_. rp_roleId rp)
         (filter (\<lambda>p. pe_id p = rp_permissionId rp \<and> pe_resource p \<in> {''approvals'', ''*''}
                        \<and> pe_action p \<in> {''decide'', ''*''}) (permissions_table d)))
       (select_role_permissions (current_gucs amb) d)))"

definition partner_covers :: "id \<Rightarrow> partner_user_row \<Rightarrow> bool" where
  "partner_covers orgId m =
     (case pu_orgAccess m of
        OrgAccessAll \<Rightarrow> True
      | OrgAccessSelected \<Rightarrow> (case pu_orgIds m of None \<Rightarrow> False | Some ids \<Rightarrow> orgId \<in> set ids)
      | _ \<Rightarrow> False)"

definition resolveIntentApprovers :: "database \<Rightarrow> id \<Rightarrow> id list dbm" where
  "resolveIntentApprovers d orgId =
     withSystemDbAccessContext (\<lambda>amb.
       let grantingRoleIds = granting_role_ids d amb
       in if grantingRoleIds = [] then []
          else (let orgMembers = filter (\<lambda>u. ou_orgId u = orgId \<and> ou_roleId u \<in> set grantingRoleIds)
                                   (select_organization_users (current_gucs amb) d);
                    partnerMembers =
                      (case find (\<lambda>o'. og_id o' = orgId) (select_organizations (current_gucs amb) d) of
                         None \<Rightarrow> []
                       | Some org \<Rightarrow>
                           if og_partnerId org = [] then []
                           else filter (\<lambda>m. pu_partnerId m = og_partnerId org \<and> pu_roleId m \<in> set grantingRoleIds)
                                  (select_partner_users (current_gucs amb) d))
                in js_dedup (map ou_userId orgMembers @ map pu_userId (filter (partner_covers orgId) partnerMembers))))"

section \<open>Creation\<close>

definition canonical_uuid_lower :: "string \<Rightarrow> bool" where
  "canonical_uuid_lower s = (uuid_text s \<and> s ! 14 \<in> set ''12345'' \<and> s ! 19 \<in> set ''89ab'')"

definition CHAT_EXPIRY_MS :: int where
  "CHAT_EXPIRY_MS = 5 * 60 * 1000"

definition MCP_EXPIRY_MS :: int where
  "MCP_EXPIRY_MS = 24 * 60 * 60 * 1000"

definition computeExpiresAt :: "intent_source \<Rightarrow> int \<Rightarrow> int" where
  "computeExpiresAt source now = now + (if source = ChatSource then CHAT_EXPIRY_MS else MCP_EXPIRY_MS)"

record intent_input =
  ii_toolName :: string
  ii_arguments :: json
  ii_source :: intent_source
  ii_idempotencyKey :: "string option"
  ii_binding :: "(string \<times> string) option"

record intent_env =
  ne_getToolTier :: "string \<Rightarrow> nat option"
  ne_digest :: "json \<Rightarrow> string"
  ne_sha256 :: "string \<Rightarrow> string"
  ne_newIntent :: id
  ne_newApproval :: "nat \<Rightarrow> id"

definition deriveIdempotencyKey :: "intent_env \<Rightarrow> id \<Rightarrow> string \<Rightarrow> string \<Rightarrow> string" where
  "deriveIdempotencyKey env actorId actionName digest = ne_sha256 env (actorId @ '':'' @ actionName @ '':'' @ digest)"

definition approval_row_for :: "intent_env \<Rightarrow> id \<Rightarrow> int \<Rightarrow> string \<Rightarrow> nat \<times> id \<Rightarrow> approval_request" where
  "approval_row_for env intentId expiresAt digest p =
     \<lparr>ar_id = ne_newApproval env (fst p), ar_userId = snd p, ar_status = APending, ar_expiresAt = expiresAt,
      ar_intentId = Some intentId, ar_boundArgumentDigest = Some digest, ar_decidedAssuranceLevel = None\<rparr>"

definition live_duplicate :: "id \<Rightarrow> string \<Rightarrow> action_intent \<Rightarrow> bool" where
  "live_duplicate orgId key x = (nt_orgId x = orgId \<and> nt_idempotencyKey x = key \<and> nt_status x \<in> set LIVE_INTENT_STATUSES)"

text \<open>The users a new intent is put before: everybody eligible but the requester, or the requester alone.\<close>

definition fan_out_users :: "id list \<Rightarrow> id \<Rightarrow> id list" where
  "fan_out_users eligibleAll requesterId =
     (let eligibleApprovers = filter (\<lambda>u. u \<noteq> requesterId) eligibleAll
      in if eligibleApprovers \<noteq> [] then eligibleApprovers
         else if requesterId \<in> set eligibleAll then [requesterId] else [])"

definition insert_intent :: "intent_env \<Rightarrow> action_intent \<Rightarrow> id list \<Rightarrow> id \<Rightarrow> int \<Rightarrow> intent_tables \<Rightarrow> action_intent \<times> intent_tables" where
  "insert_intent env x eligibleAll requesterId now t =
     (case find (live_duplicate (nt_orgId x) (nt_idempotencyKey x)) (it_intents t) of
        Some existing \<Rightarrow> (existing, t)
      | None \<Rightarrow>
          (let fanOut = fan_out_users eligibleAll requesterId;
               finalIntent = (if fanOut = []
                              then x\<lparr>nt_status := ICancelled, nt_errorCode := Some ''no_eligible_approvers'', nt_decidedAt := Some now\<rparr>
                              else x)
           in (finalIntent,
               t\<lparr>it_intents := it_intents t @ [finalIntent],
                 it_approvals := it_approvals t
                   @ map (approval_row_for env (nt_id x) (nt_expiresAt x) (nt_argumentDigest x)) (enumerate 0 fanOut),
                 it_outbox := it_outbox t @ [(nt_id x, IntentCreated)]\<rparr>)))"

definition createActionIntent ::
  "intent_env \<Rightarrow> database \<Rightarrow> id \<Rightarrow> id option \<Rightarrow> string + id \<Rightarrow> intent_input \<Rightarrow> int \<Rightarrow> intent_tables
     \<Rightarrow> ((string + action_intent) \<times> intent_tables) dbm" where
  "createActionIntent env d requesterId partnerId resolvedOrg input now t amb =
     (let guardrail = checkGuardrails (ne_getToolTier env) (ii_toolName input) (json_action (ii_arguments input))
      in if \<not> gc_allowed guardrail \<or> gc_tier guardrail \<ge> 4 then (Inl ''tool_blocked'', t)
         else if gc_tier guardrail \<le> 2 then (Inl ''tool_not_tier3'', t)
         else (case resolvedOrg of
                 Inl e \<Rightarrow> (Inl ''org_resolution_failed'', t)
               | Inr orgId \<Rightarrow>
                   if (case ii_binding input of
                         None \<Rightarrow> False
                       | Some (connectionId, tenantId) \<Rightarrow>
                           \<not> canonical_uuid_lower connectionId \<or> \<not> canonical_uuid_lower tenantId)
                   then (Inl ''invalid_binding'', t)
                   else (let digest = ne_digest env (ii_arguments input);
                             key = (case ii_idempotencyKey input of
                                      Some k \<Rightarrow> k
                                    | None \<Rightarrow> deriveIdempotencyKey env requesterId (ii_toolName input) digest);
                             eligibleAll = resolveIntentApprovers d orgId amb;
                             x = \<lparr>nt_id = ne_newIntent env, nt_orgId = orgId, nt_partnerId = partnerId,
                                  nt_requestedByUserId = Some requesterId, nt_requestingApiKeyId = None,
                                  nt_source = ii_source input, nt_actionName = ii_toolName input,
                                  nt_arguments = ii_arguments input, nt_argumentDigest = digest,
                                  nt_riskTier = gc_tier guardrail, nt_idempotencyKey = key, nt_status = IPending,
                                  nt_expiresAt = computeExpiresAt (ii_source input) now, nt_decidedAt = None,
                                  nt_decidedByUserId = None, nt_executionStartedAt = None, nt_executedAt = None,
                                  nt_errorCode = None\<rparr>;
                             (stored, t') = insert_intent env x eligibleAll requesterId now t
                         in (Inr stored, t'))))"

section \<open>Decisions\<close>

text \<open>The services the permission check of a decision and of a release asks.\<close>

record perm_service =
  ps_redis :: redis_client
  ps_store :: version_store
  ps_db :: database
  ps_cache :: perm_cache

definition ask_permissions :: "perm_service \<Rightarrow> int \<Rightarrow> id \<Rightarrow> perm_context \<Rightarrow> (user_permissions option \<times> perm_cache) dbm" where
  "ask_permissions ps now = getUserPermissions (ps_redis ps) (ps_store ps) now (ps_db ps) (ps_cache ps)"

text \<open>What the handler checks before it writes: the row, its intent and, for an approval, the decider. The
  result is the intent of the row, if it has one.\<close>

definition decider_allowed :: "perm_service \<Rightarrow> int \<Rightarrow> id \<Rightarrow> id option \<Rightarrow> action_intent \<Rightarrow> bool dbm" where
  "decider_allowed ps now userId partnerId x amb =
     (case fst (runOutsideDbContext (withSystemDbAccessContext
                  (ask_permissions ps now userId \<lparr>pc_partnerId = partnerId, pc_orgId = Some (nt_orgId x)\<rparr>)) amb) of
        None \<Rightarrow> False
      | Some p \<Rightarrow> canAccessOrg p (nt_orgId x) \<and> userCanDecideApprovals p)"

definition sole_approver :: "perm_service \<Rightarrow> id \<Rightarrow> action_intent \<Rightarrow> bool dbm" where
  "sole_approver ps userId x amb =
     (let eligibleNow = runOutsideDbContext (resolveIntentApprovers (ps_db ps) (nt_orgId x)) amb
      in filter (\<lambda>u. u \<noteq> userId) eligibleNow = [] \<and> userId \<in> set eligibleNow)"

definition decide_checks ::
  "perm_service \<Rightarrow> int \<Rightarrow> id \<Rightarrow> id option \<Rightarrow> id \<Rightarrow> bool \<Rightarrow> intent_tables \<Rightarrow> (string + action_intent option) dbm" where
  "decide_checks ps now userId partnerId rowId approve t amb =
     (case find (\<lambda>r. ar_id r = rowId \<and> ar_userId r = userId) (it_approvals t) of
        None \<Rightarrow> Inl ''Not found''
      | Some existing \<Rightarrow>
          if ar_status existing \<noteq> APending then Inl ''Already decided''
          else if ar_expiresAt existing \<le> now then Inl ''Expired''
          else (case ar_intentId existing of
                  None \<Rightarrow> Inr None
                | Some i \<Rightarrow>
                    (case find (\<lambda>x. nt_id x = i) (it_intents t) of
                       None \<Rightarrow> Inl ''intent_not_found''
                     | Some x \<Rightarrow>
                         if truthy_str (ar_boundArgumentDigest existing)
                            \<and> ar_boundArgumentDigest existing \<noteq> Some (nt_argumentDigest x) then Inl ''digest_mismatch''
                         else if approve \<and> \<not> decider_allowed ps now userId partnerId x amb then Inl ''forbidden''
                         else if approve \<and> nt_requestedByUserId x = Some userId \<and> \<not> sole_approver ps userId x amb
                         then Inl ''not_sole_approver''
                         else Inr (Some x))))"

text \<open>The proof of presence gives a level or an error; approving one's own intent takes level 3.\<close>

definition assurance_ok :: "id \<Rightarrow> bool \<Rightarrow> action_intent option \<Rightarrow> nat option \<Rightarrow> bool" where
  "assurance_ok userId approve linked level =
     (case linked of
        None \<Rightarrow> True
      | Some x \<Rightarrow>
          \<not> (approve \<and> nt_requestedByUserId x = Some userId
             \<and> (case level of None \<Rightarrow> 0 | Some l \<Rightarrow> l) < 3))"

definition decide_row ::
  "id \<Rightarrow> id \<Rightarrow> bool \<Rightarrow> nat option \<Rightarrow> int \<Rightarrow> intent_tables \<Rightarrow> bool \<times> intent_tables" where
  "decide_row rowId userId approve level now =
     update_approvals
       (\<lambda>r. ar_id r = rowId \<and> ar_userId r = userId \<and> ar_status r = APending \<and> now < ar_expiresAt r)
       (\<lambda>r. r\<lparr>ar_status := (if approve then AApproved else ADenied), ar_decidedAssuranceLevel := level\<rparr>)"

text \<open>One transaction: the first decision wins, its siblings expire, an approval is announced.\<close>

definition intent_fan_in :: "id \<Rightarrow> id \<Rightarrow> id \<Rightarrow> bool \<Rightarrow> int \<Rightarrow> intent_tables \<Rightarrow> bool \<times> intent_tables" where
  "intent_fan_in intentId rowId userId approve now t =
     (let (won, t1) = transitionIntent intentId [IPending] (if approve then IApproved else IRejected)
                        (\<lambda>x. x\<lparr>nt_decidedAt := Some now, nt_decidedByUserId := Some userId\<rparr>) False now t
      in if \<not> won then (False, t)
         else (let t2 = snd (update_approvals
                          (\<lambda>r. ar_intentId r = Some intentId \<and> ar_status r = APending \<and> ar_id r \<noteq> rowId)
                          (\<lambda>r. r\<lparr>ar_status := AExpired\<rparr>) t1)
               in (True, if approve then t2\<lparr>it_outbox := it_outbox t2 @ [(intentId, IntentApproved)]\<rparr> else t2)))"

text \<open>The whole handler, when nothing else runs in between; \<open>assurance\<close> is the outcome of the proof.\<close>

definition decideHandler ::
  "perm_service \<Rightarrow> int \<Rightarrow> id \<Rightarrow> id option \<Rightarrow> id \<Rightarrow> bool \<Rightarrow> string + nat option \<Rightarrow> intent_tables
     \<Rightarrow> ((string + unit) \<times> intent_tables) dbm" where
  "decideHandler ps now userId partnerId rowId approve assurance t amb =
     (case decide_checks ps now userId partnerId rowId approve t amb of
        Inl e \<Rightarrow> (Inl e, t)
      | Inr linked \<Rightarrow>
          (case assurance of
             Inl e \<Rightarrow> (Inl e, t)
           | Inr level \<Rightarrow>
               if \<not> assurance_ok userId approve linked level then (Inl ''step_up_required'', t)
               else (case decide_row rowId userId approve level now t of
                       (False, t1) \<Rightarrow> (Inl ''Already decided'', t)
                     | (True, t1) \<Rightarrow>
                         (Inr (), case linked of
                                    None \<Rightarrow> t1
                                  | Some x \<Rightarrow> snd (intent_fan_in (nt_id x) rowId userId approve now t1)))))"

text \<open>A report as suspicious denies a row that is still pending, and with it the intent.\<close>

definition report_row :: "id \<Rightarrow> id \<Rightarrow> intent_tables \<Rightarrow> intent_tables" where
  "report_row rowId userId t =
     snd (update_approvals (\<lambda>r. ar_id r = rowId \<and> ar_userId r = userId) (\<lambda>r. r\<lparr>ar_status := AReported\<rparr>) t)"

definition reportSuspicious :: "id \<Rightarrow> id \<Rightarrow> int \<Rightarrow> intent_tables \<Rightarrow> (string + unit) \<times> intent_tables" where
  "reportSuspicious rowId userId now t =
     (case find (\<lambda>r. ar_id r = rowId \<and> ar_userId r = userId) (it_approvals t) of
        None \<Rightarrow> (Inl ''Not found'', t)
      | Some existing \<Rightarrow>
          if ar_status existing \<noteq> APending then (Inr (), t)
          else (let t1 = report_row rowId userId t
                in (Inr (), case ar_intentId existing of
                              None \<Rightarrow> t1
                            | Some i \<Rightarrow> snd (intent_fan_in i rowId userId False now t1))))"

section \<open>Cancelling and expiry\<close>

definition cancelActionIntent ::
  "perm_service \<Rightarrow> db_access_context \<Rightarrow> int \<Rightarrow> id \<Rightarrow> id \<Rightarrow> intent_tables \<Rightarrow> ((string + bool \<times> intent_status) \<times> intent_tables) dbm" where
  "cancelActionIntent ps context now userId intentId t amb =
     (case find (\<lambda>x. nt_id x = intentId)
             (filter (\<lambda>x. breeze_has_org_access (current_gucs (Some context)) (Some (nt_orgId x))) (it_intents t)) of
        None \<Rightarrow> (Inl ''not_found'', t)
      | Some x \<Rightarrow>
          if nt_requestedByUserId x \<noteq> Some userId
             \<and> \<not> (case fst (ask_permissions ps now userId \<lparr>pc_partnerId = None, pc_orgId = Some (nt_orgId x)\<rparr> amb) of
                   None \<Rightarrow> False | Some p \<Rightarrow> userCanDecideApprovals p)
          then (Inl ''forbidden'', t)
          else (case transitionIntent intentId [IPending, IApproved] ICancelled (\<lambda>x. x) False now t of
                  (True, t') \<Rightarrow> (Inr (True, ICancelled), t')
                | (False, t') \<Rightarrow> (Inr (False, nt_status x), t)))"

definition MAX_REAP_PER_RUN :: nat where
  "MAX_REAP_PER_RUN = 500"

definition STALE_EXECUTING_TIMEOUT_MS :: int where
  "STALE_EXECUTING_TIMEOUT_MS = 20 * 60 * 1000"

definition intent_expired :: "int \<Rightarrow> action_intent \<Rightarrow> bool" where
  "intent_expired now x = (nt_status x \<in> {IPending, IApproved} \<and> nt_expiresAt x < now)"

text \<open>Rows another transaction holds are skipped. The update of the approval rows may fail on its own.\<close>

definition reapExpiredIntents :: "(id \<Rightarrow> bool) \<Rightarrow> bool \<Rightarrow> int \<Rightarrow> intent_tables \<Rightarrow> intent_tables" where
  "reapExpiredIntents locked approvalsFail now t =
     (let due = map nt_id (take MAX_REAP_PER_RUN
                  (sort_key nt_expiresAt (filter (\<lambda>x. intent_expired now x \<and> \<not> locked (nt_id x)) (it_intents t))));
          t1 = snd (update_intents (\<lambda>x. nt_id x \<in> set due \<and> nt_status x \<in> {IPending, IApproved})
                      (\<lambda>x. x\<lparr>nt_status := IExpired\<rparr>) t)
      in if due = [] \<or> approvalsFail then t1
         else snd (update_approvals (\<lambda>r. ar_status r = APending \<and> (\<exists>i\<in>set due. ar_intentId r = Some i))
                     (\<lambda>r. r\<lparr>ar_status := AExpired\<rparr>) t1))"

definition execution_stale :: "int \<Rightarrow> action_intent \<Rightarrow> bool" where
  "execution_stale now x =
     (nt_status x = IExecuting \<and> nt_executedAt x = None
      \<and> (case nullish (nt_executionStartedAt x) (nt_decidedAt x) of
           None \<Rightarrow> False | Some s \<Rightarrow> s < now - STALE_EXECUTING_TIMEOUT_MS))"

definition reapStaleExecutingIntents :: "(id \<Rightarrow> bool) \<Rightarrow> int \<Rightarrow> intent_tables \<Rightarrow> intent_tables" where
  "reapStaleExecutingIntents locked now t =
     (let due = map nt_id (take MAX_REAP_PER_RUN
                  (sort_key (\<lambda>x. case nullish (nt_executionStartedAt x) (nt_decidedAt x) of None \<Rightarrow> 0 | Some s \<Rightarrow> s)
                    (filter (\<lambda>x. execution_stale now x \<and> \<not> locked (nt_id x)) (it_intents t))))
      in snd (update_intents (\<lambda>x. nt_id x \<in> set due \<and> nt_status x = IExecuting \<and> nt_executedAt x = None)
                (\<lambda>x. x\<lparr>nt_status := IFailed, nt_errorCode := Some ''execution_lost''\<rparr>) t))"

section \<open>Release\<close>

text \<open>The actor of an intent, rebuilt from the tables: the session the tool runs under. An intent of an
  API key has none.\<close>

definition buildUserOwnedAuthContext ::
  "perm_service \<Rightarrow> int \<Rightarrow> action_intent \<Rightarrow> id \<Rightarrow> (guard_session option \<times> perm_cache) dbm" where
  "buildUserOwnedAuthContext ps now x userId =
     withSystemDbAccessContext (\<lambda>amb.
       case find (\<lambda>u. us_id u = userId) (select_users (current_gucs amb) (ps_db ps)) of
         None \<Rightarrow> (None, ps_cache ps)
       | Some user \<Rightarrow>
           if us_status user \<noteq> UActive then (None, ps_cache ps)
           else (case ask_permissions ps now userId \<lparr>pc_partnerId = nt_partnerId x, pc_orgId = Some (nt_orgId x)\<rparr> amb of
                   (None, cache) \<Rightarrow> (None, cache)
                 | (Some perms, cache) \<Rightarrow>
                     if \<not> canAccessOrg perms (nt_orgId x) then (None, cache)
                     else (Some \<lparr>gs_userId = us_id user, gs_partnerId = nt_partnerId x, gs_orgId = Some (nt_orgId x),
                                 gs_token = Some (Some (up_roleId perms))\<rparr>, cache)))"

definition buildAuthContextForIntent :: "perm_service \<Rightarrow> int \<Rightarrow> action_intent \<Rightarrow> (guard_session option \<times> perm_cache) dbm" where
  "buildAuthContextForIntent ps now x amb =
     (case str_or_none (nt_requestedByUserId x) of
        Some userId \<Rightarrow> buildUserOwnedAuthContext ps now x userId amb
      | None \<Rightarrow> (None, ps_cache ps))"

definition revalidateApprovedIntentForRelease ::
  "intent_env \<Rightarrow> perm_service \<Rightarrow> int \<Rightarrow> action_intent \<Rightarrow> approval_request option \<Rightarrow> (string + guard_session) dbm" where
  "revalidateApprovedIntentForRelease env ps now x winningApproval amb =
     (case winningApproval of
        None \<Rightarrow> Inl ''digest_mismatch''
      | Some r \<Rightarrow>
          if ar_boundArgumentDigest r \<noteq> Some (nt_argumentDigest x) then Inl ''digest_mismatch''
          else if ne_digest env (nt_arguments x) \<noteq> nt_argumentDigest x then Inl ''digest_mismatch''
          else if (case ne_getToolTier env (nt_actionName x) of None \<Rightarrow> True | Some tier \<Rightarrow> tier > nt_riskTier x)
          then Inl ''tier_escalated''
          else (case buildAuthContextForIntent ps now x amb of
                  (None, _) \<Rightarrow> Inl ''actor_invalid''
                | (Some auth, cache) \<Rightarrow>
                    (case getActiveOrgTenant (ps_db ps) (nt_orgId x) amb of
                       None \<Rightarrow> Inl ''org_inactive''
                     | Some _ \<Rightarrow>
                         (case fst (checkToolPermission (ps_redis ps) (ps_store ps) now (ps_db ps) cache
                                      (nt_actionName x) (json_action (nt_arguments x)) auth amb) of
                            Some reason \<Rightarrow> Inl ''rbac_denied''
                          | None \<Rightarrow> Inr auth))))"

text \<open>The claim of an approved intent, by the worker or by a live session.\<close>

definition claim_intent :: "id \<Rightarrow> int \<Rightarrow> intent_tables \<Rightarrow> bool \<times> intent_tables" where
  "claim_intent intentId now =
     transitionIntent intentId [IApproved] IExecuting
       (\<lambda>x. x\<lparr>nt_executedAt := None, nt_executionStartedAt := Some now\<rparr>) True now"

definition winning_approval :: "id \<Rightarrow> intent_tables \<Rightarrow> approval_request option" where
  "winning_approval intentId t = find (\<lambda>r. ar_intentId r = Some intentId \<and> ar_status r = AApproved) (it_approvals t)"

text \<open>The end of an execution: \<open>None\<close> is success, otherwise the code of the failure and whether the tool ran.\<close>

definition finish_intent :: "id \<Rightarrow> (string \<times> bool) option \<Rightarrow> int \<Rightarrow> intent_tables \<Rightarrow> intent_tables" where
  "finish_intent intentId failure now t =
     snd (transitionIntent intentId [IExecuting] (if failure = None then ICompleted else IFailed)
            (\<lambda>x. case failure of
                   None \<Rightarrow> x\<lparr>nt_executedAt := Some now\<rparr>
                 | Some (code, executed) \<Rightarrow>
                     x\<lparr>nt_errorCode := Some code, nt_executedAt := (if executed then Some now else nt_executedAt x)\<rparr>)
            False now t)"

text \<open>The worker, when nothing else runs in between. A tool that needs a live session is refused;
  otherwise \<open>execute\<close> runs it and tells how it ended. The second component says whether it ran.\<close>

definition releaseApprovedIntent ::
  "intent_env \<Rightarrow> perm_service \<Rightarrow> (string \<Rightarrow> bool) \<Rightarrow> (action_intent \<Rightarrow> guard_session \<Rightarrow> (string \<times> bool) option)
     \<Rightarrow> id \<Rightarrow> int \<Rightarrow> intent_tables \<Rightarrow> (bool \<times> intent_tables) dbm" where
  "releaseApprovedIntent env ps needsSession execute intentId now t amb =
     (case claim_intent intentId now t of
        (False, _) \<Rightarrow> (False, t)
      | (True, t1) \<Rightarrow>
          (case find (\<lambda>x. nt_id x = intentId) (it_intents t1) of
             None \<Rightarrow> (False, t1)
           | Some x \<Rightarrow>
               (case revalidateApprovedIntentForRelease env ps now x (winning_approval intentId t1) amb of
                  Inl code \<Rightarrow> (False, finish_intent intentId (Some (code, False)) now t1)
                | Inr auth \<Rightarrow>
                    if needsSession (nt_actionName x)
                    then (False, finish_intent intentId (Some (''session_required'', False)) now t1)
                    else (True, finish_intent intentId (execute x auth) now t1))))"

end
