(* ===== verification/Intent_Authority.thy ===== *)
theory Intent_Authority
  imports Action_Intents
begin

text \<open>
  Who may approve, release and cancel an action intent: the approvers an intent is put before
  (services/actionIntents/intentApprovers.ts) against the permission check of the decision handler
  (routes/approvals.ts), the checks of a release (revalidateRelease.ts, actorContext.ts) against the tenant
  gate, the permission resolver and the tool table, and the permission check of a cancellation.
\<close>

abbreviation system_amb :: "db_access_context option" where
  "system_amb \<equiv> Some SYSTEM_DB_ACCESS_CONTEXT"


section \<open>Approvers\<close>





lemma partner_covers_iff:
  "partner_covers orgId m
   \<longleftrightarrow> pu_orgAccess m = OrgAccessAll \<or> pu_orgAccess m = OrgAccessSelected \<and> (\<exists>ids. pu_orgIds m = Some ids \<and> orgId \<in> set ids)"
  by (auto simp: partner_covers_def split: org_access.split option.split)

section \<open>Deciders\<close>

text \<open>A permission service whose cache has nothing answers from the tables.\<close>

lemma ask_permissions_cold:
  assumes "wf_memberships (ps_db ps)" and "wf_ambient amb" and "ps_cache ps = Map.empty"
  shows "fst (ask_permissions ps now userId context amb) = resolveSpec (ps_db ps) userId context"
  using resolve_refines_spec [OF assms(1,2)] assms(3)
  by (simp add: ask_permissions_def getUserPermissions_def permissionCacheHit_def Let_def split: option.split)






section \<open>Release\<close>

lemma versions_match_self [simp]: "cacheVersionsMatch v v"
  by (simp add: cacheVersionsMatch_def split: option.split)

text \<open>A second look-up at the same moment is answered by the cache.\<close>

lemma getUserPermissions_again:
  assumes "getUserPermissions redis store now d cache userId context amb = (Some p, cache')"
  shows "getUserPermissions redis store now d cache' userId context amb' = (Some p, cache')"
proof (cases "permissionCacheHit cache (permissionCacheKey userId context) now (getPermissionCacheVersions redis store userId)")
  case None
  then have "cache' = permissionCacheStore cache (permissionCacheKey userId context) now (getPermissionCacheVersions redis store userId) p"
    using assms by (auto simp: getUserPermissions_def Let_def split: option.splits)
  then show ?thesis by (simp add: getUserPermissions_def Let_def permissionCacheHit_def permissionCacheStore_def CACHE_TTL_def)
next
  case (Some q)
  then show ?thesis using assms by (simp add: getUserPermissions_def Let_def)
qed

definition intent_context :: "action_intent \<Rightarrow> perm_context" where
  "intent_context x = \<lparr>pc_partnerId = nt_partnerId x, pc_orgId = Some (nt_orgId x)\<rparr>"

lemma actor_built_iff:
  "buildAuthContextForIntent ps now x None = (Some auth, cache)
   \<longleftrightarrow> (\<exists>userId user p. nt_requestedByUserId x = Some userId \<and> userId \<noteq> []
        \<and> find (\<lambda>u. us_id u = userId) (users (ps_db ps)) = Some user \<and> us_status user = UActive
        \<and> ask_permissions ps now userId (intent_context x) system_amb = (Some p, cache) \<and> canAccessOrg p (nt_orgId x)
        \<and> auth = \<lparr>gs_userId = userId, gs_partnerId = nt_partnerId x, gs_orgId = Some (nt_orgId x), gs_token = Some (Some (up_roleId p))\<rparr>)"
proof (cases "str_or_none (nt_requestedByUserId x)")
  case None
  then show ?thesis by (auto simp: buildAuthContextForIntent_def str_or_none_def split: if_splits)
next
  case (Some userId)
  have u: "us_id user = userId" if "find (\<lambda>u. us_id u = userId) (users (ps_db ps)) = Some user" for user
    using that by (auto simp: find_Some_iff)
  have "buildAuthContextForIntent ps now x None = (Some auth, cache)
    \<longleftrightarrow> (\<exists>user p. find (\<lambda>u. us_id u = userId) (users (ps_db ps)) = Some user \<and> us_status user = UActive
        \<and> ask_permissions ps now userId (intent_context x) system_amb = (Some p, cache) \<and> canAccessOrg p (nt_orgId x)
        \<and> auth = \<lparr>gs_userId = us_id user, gs_partnerId = nt_partnerId x, gs_orgId = Some (nt_orgId x), gs_token = Some (Some (up_roleId p))\<rparr>)"
    unfolding buildAuthContextForIntent_def Some option.case buildUserOwnedAuthContext_def intent_context_def
    by (auto simp: withSystemDbAccessContext_def withDbAccessContext_def split: option.splits prod.splits dest: sym [of "Some _"])
  with Some u show ?thesis by (auto simp: str_or_none_Some)
qed

lemma tool_checked_iff:
  assumes "nt_orgId x \<noteq> []" and "nt_partnerId x \<noteq> Some []"
    and "ask_permissions ps now userId (intent_context x) system_amb = (Some p, cache)"
    and "auth = \<lparr>gs_userId = userId, gs_partnerId = nt_partnerId x, gs_orgId = Some (nt_orgId x), gs_token = Some (Some (up_roleId p))\<rparr>"
  shows "fst (checkToolPermission (ps_redis ps) (ps_store ps) now (ps_db ps) cache toolName action auth amb) = None
    \<longleftrightarrow> (\<exists>required. required_permission toolName action = Inr required \<and> list_all (meets_requirement p) (required # extra_permissions toolName))"
proof -
  have "guard_context auth = intent_context x"
    using assms(1,2,4) by (cases "nt_partnerId x") (auto simp: guard_context_def intent_context_def str_or_none_def)
  then have "fst (getUserPermissions (ps_redis ps) (ps_store ps) now (ps_db ps) cache (gs_userId auth) (guard_context auth) amb) = Some p"
    using getUserPermissions_again [OF assms(3) [unfolded ask_permissions_def]] assms(4) by simp
  moreover have "gs_token auth = Some (Some (up_roleId p))" using assms(4) by simp
  ultimately show ?thesis by (simp add: checkToolPermission_None)
qed

lemma revalidated_iff:
  assumes "unique_tenants (ps_db ps)" and "nt_orgId x \<noteq> []" and "nt_partnerId x \<noteq> Some []"
  shows "revalidateApprovedIntentForRelease env ps now x (Some r) None = Inr auth
    \<longleftrightarrow> ar_boundArgumentDigest r = Some (nt_argumentDigest x) \<and> ne_digest env (nt_arguments x) = nt_argumentDigest x
      \<and> (\<exists>tier. ne_getToolTier env (nt_actionName x) = Some tier \<and> tier \<le> nt_riskTier x)
      \<and> (\<exists>partnerId. live_org (ps_db ps) (nt_orgId x) partnerId)
      \<and> (\<exists>userId user p required. nt_requestedByUserId x = Some userId \<and> userId \<noteq> []
           \<and> find (\<lambda>u. us_id u = userId) (users (ps_db ps)) = Some user \<and> us_status user = UActive
           \<and> fst (ask_permissions ps now userId (intent_context x) system_amb) = Some p \<and> canAccessOrg p (nt_orgId x)
           \<and> required_permission (nt_actionName x) (json_action (nt_arguments x)) = Inr required
           \<and> list_all (meets_requirement p) (required # extra_permissions (nt_actionName x))
           \<and> auth = \<lparr>gs_userId = userId, gs_partnerId = nt_partnerId x, gs_orgId = Some (nt_orgId x), gs_token = Some (Some (up_roleId p))\<rparr>)"
    (is "_ \<longleftrightarrow> ?bound \<and> ?fresh \<and> ?tier \<and> ?live \<and> ?actor")
proof -
  let ?chk = "\<lambda>a c. fst (checkToolPermission (ps_redis ps) (ps_store ps) now (ps_db ps) c (nt_actionName x) (json_action (nt_arguments x)) a None)"
  have live: "(\<exists>t. getActiveOrgTenant (ps_db ps) (nt_orgId x) None = Some t) = ?live"
    unfolding getActiveOrgTenant_iff [OF assms(1)] by (metis org_tenant.select_convs)
  have actor: "(\<exists>cache. buildAuthContextForIntent ps now x None = (Some auth, cache) \<and> ?chk auth cache = None) = ?actor" (is "?l = _")
  proof
    assume ?l
    then obtain cache userId user p where h: "?chk auth cache = None" "nt_requestedByUserId x = Some userId" "userId \<noteq> []"
      "find (\<lambda>u. us_id u = userId) (users (ps_db ps)) = Some user" "us_status user = UActive"
      "ask_permissions ps now userId (intent_context x) system_amb = (Some p, cache)" "canAccessOrg p (nt_orgId x)"
      "auth = \<lparr>gs_userId = userId, gs_partnerId = nt_partnerId x, gs_orgId = Some (nt_orgId x), gs_token = Some (Some (up_roleId p))\<rparr>"
      unfolding actor_built_iff by blast
    with tool_checked_iff [OF assms(2,3) h(6,8)] show ?actor by auto
  next
    assume ?actor
    then obtain userId user p required where h: "nt_requestedByUserId x = Some userId" "userId \<noteq> []"
      "find (\<lambda>u. us_id u = userId) (users (ps_db ps)) = Some user" "us_status user = UActive"
      "fst (ask_permissions ps now userId (intent_context x) system_amb) = Some p" "canAccessOrg p (nt_orgId x)"
      "required_permission (nt_actionName x) (json_action (nt_arguments x)) = Inr required"
      "list_all (meets_requirement p) (required # extra_permissions (nt_actionName x))"
      "auth = \<lparr>gs_userId = userId, gs_partnerId = nt_partnerId x, gs_orgId = Some (nt_orgId x), gs_token = Some (Some (up_roleId p))\<rparr>"
      by blast
    obtain cache where c: "ask_permissions ps now userId (intent_context x) system_amb = (Some p, cache)"
      using h(5) by (metis prod.collapse)
    have "?chk auth cache = None" unfolding tool_checked_iff [OF assms(2,3) c h(9)] using h(7,8) by blast
    with h c show ?l unfolding actor_built_iff by blast
  qed
  show ?thesis
    unfolding live [symmetric] actor [symmetric] revalidateApprovedIntentForRelease_def option.case
    by (auto simp: not_less split: option.splits prod.splits if_splits dest: sym [of "Some _"])
qed

section \<open>A sample tenant\<close>

text \<open>User \<open>1\<close> of the sample organization may run commands on devices, user \<open>2\<close> of its partner decides approvals.\<close>

definition demo_intent_db :: database where
  "demo_intent_db = sample_db
     \<lparr>permissions_table := [\<lparr>pe_id = ''p1'', pe_resource = ''approvals'', pe_action = ''decide''\<rparr>,
                            \<lparr>pe_id = ''p2'', pe_resource = ''devices'', pe_action = ''execute''\<rparr>],
      role_permissions := [\<lparr>rp_roleId = sample_id CHR ''c'', rp_permissionId = ''p2''\<rparr>,
                           \<lparr>rp_roleId = sample_id CHR ''d'', rp_permissionId = ''p1''\<rparr>]\<rparr>"

definition demo_intent_env :: intent_env where
  "demo_intent_env =
     \<lparr>ne_getToolTier = (\<lambda>_. Some 3), ne_digest = (\<lambda>_. ''digest''), ne_sha256 = (\<lambda>s. s), ne_newIntent = ''intent'',
      ne_newApproval = (\<lambda>n. replicate n CHR ''a'')\<rparr>"

definition demo_ps :: perm_service where
  "demo_ps = \<lparr>ps_redis = RedisNull, ps_store = (\<lambda>_. None), ps_db = demo_intent_db, ps_cache = Map.empty\<rparr>"

definition demo_pending :: action_intent where
  "demo_pending =
     \<lparr>nt_id = ''intent'', nt_orgId = sample_id CHR ''b'', nt_partnerId = Some (sample_id CHR ''a''),
      nt_requestedByUserId = Some (sample_id CHR ''1''), nt_requestingApiKeyId = None, nt_source = ChatSource,
      nt_actionName = ''execute_command'', nt_arguments = JObj [], nt_argumentDigest = ''digest'', nt_riskTier = 3,
      nt_idempotencyKey = ''key'', nt_status = IPending, nt_expiresAt = 300000, nt_decidedAt = None, nt_decidedByUserId = None,
      nt_executionStartedAt = None, nt_executedAt = None, nt_errorCode = None\<rparr>"

section \<open>Properties\<close>

text \<open>C3: A release is authorized afresh. Under no database context of its own, the revalidation of an approved
  intent passes exactly when the winning approval is bound to the digest of the intent, the digest of the stored
  arguments is still that digest, the tool exists at no higher tier than was approved, the organization and its partner are live, and the requester
  is an active user whose current permissions reach the organization and meet the permission of the tool
  and all its extra permissions. The session the tool then runs under is the requester's, in that organization.\<close>

theorem release_reauthorizes:
  assumes "unique_tenants (ps_db ps)" and "nt_orgId x \<noteq> []" and "nt_partnerId x \<noteq> Some []"
  shows "revalidateApprovedIntentForRelease env ps now x (Some r) None = Inr auth
    \<longleftrightarrow> ar_boundArgumentDigest r = Some (nt_argumentDigest x) \<and> ne_digest env (nt_arguments x) = nt_argumentDigest x
      \<and> (\<exists>tier. ne_getToolTier env (nt_actionName x) = Some tier \<and> tier \<le> nt_riskTier x)
      \<and> (\<exists>partnerId. live_org (ps_db ps) (nt_orgId x) partnerId)
      \<and> (\<exists>userId user p required. nt_requestedByUserId x = Some userId \<and> userId \<noteq> []
           \<and> find (\<lambda>u. us_id u = userId) (users (ps_db ps)) = Some user \<and> us_status user = UActive
           \<and> fst (ask_permissions ps now userId (intent_context x) system_amb) = Some p \<and> canAccessOrg p (nt_orgId x)
           \<and> required_permission (nt_actionName x) (json_action (nt_arguments x)) = Inr required
           \<and> list_all (meets_requirement p) (required # extra_permissions (nt_actionName x))
           \<and> auth = \<lparr>gs_userId = userId, gs_partnerId = nt_partnerId x, gs_orgId = Some (nt_orgId x), gs_token = Some (Some (up_roleId p))\<rparr>)"
  using assms by (rule revalidated_iff)

theorem release_reauthorizes_witness:
  "\<exists>partnerId. live_org demo_intent_db (sample_id CHR ''b'') partnerId"
proof -
  let ?row = "approval_row_for demo_intent_env ''intent'' 300000 ''digest'' (0, sample_id CHR ''2'')"
  have "unique_tenants (ps_db demo_ps)" "nt_orgId demo_pending \<noteq> []" "nt_partnerId demo_pending \<noteq> Some []"
    "revalidateApprovedIntentForRelease demo_intent_env demo_ps 40 demo_pending (Some ?row) None
     = Inr \<lparr>gs_userId = sample_id CHR ''1'', gs_partnerId = Some (sample_id CHR ''a''), gs_orgId = Some (sample_id CHR ''b''),
            gs_token = Some (Some (sample_id CHR ''c''))\<rparr>"
    by code_simp+
  with release_reauthorizes [of demo_ps demo_pending demo_intent_env 40 ?row] show ?thesis
    by (simp add: demo_ps_def demo_pending_def)
qed











text \<open>A partner approver cannot cancel. The cancellation asks for the permissions of its caller with the
  organization alone, so with nothing cached everybody who is not the requester and has no membership in the
  intent's organization is refused and nothing changes, also when the same user may approve the intent through the
  membership in the partner.\<close>

theorem partner_approver_cannot_cancel:
  assumes "wf_memberships (ps_db ps)" and "wf_ambient amb" and "ps_cache ps = Map.empty"
    and "list_all (\<lambda>x. nt_id x = intentId \<longrightarrow> nt_requestedByUserId x \<noteq> Some userId \<and> org_membership (ps_db ps) userId (nt_orgId x) = None)
           (it_intents t)"
  shows "cancelActionIntent ps context now userId intentId t amb \<in> {(Inl ''not_found'', t), (Inl ''forbidden'', t)}"
proof (cases "find (\<lambda>x. nt_id x = intentId)
    (filter (\<lambda>x. breeze_has_org_access (current_gucs (Some context)) (Some (nt_orgId x))) (it_intents t))")
  case None
  then show ?thesis by (simp add: cancelActionIntent_def)
next
  case (Some x)
  then have "x \<in> set (it_intents t)" "nt_id x = intentId" by (auto simp: find_Some_iff dest: nth_mem)
  with assms(4) have x: "nt_requestedByUserId x \<noteq> Some userId" "org_membership (ps_db ps) userId (nt_orgId x) = None"
    by (auto simp: list_all_iff)
  have "fst (ask_permissions ps now userId \<lparr>pc_partnerId = None, pc_orgId = Some (nt_orgId x)\<rparr> amb) = None"
    unfolding ask_permissions_cold [OF assms(1-3)] using x(2)
    by (auto simp: resolveSpec_def org_spec_def str_or_none_def)
  with Some x(1) show ?thesis by (simp add: cancelActionIntent_def)
qed

theorem partner_approver_cannot_cancel_witness:
  "decider_allowed demo_ps 0 (sample_id CHR ''2'') (Some (sample_id CHR ''a'')) demo_pending None
   \<and> cancelActionIntent demo_ps sample_org_ctx 0 (sample_id CHR ''2'') ''intent''
        \<lparr>it_intents = [demo_pending], it_approvals = [], it_outbox = []\<rparr> None
      = (Inl ''forbidden'', \<lparr>it_intents = [demo_pending], it_approvals = [], it_outbox = []\<rparr>)"
proof -
  let ?t = "\<lparr>it_intents = [demo_pending], it_approvals = [], it_outbox = []\<rparr>"
  have h: "wf_memberships (ps_db demo_ps)" "ps_cache demo_ps = Map.empty" "wf_ambient None"
    by code_simp (simp_all add: demo_ps_def wf_ambient_def)
  have l: "list_all (\<lambda>x. nt_id x = ''intent'' \<longrightarrow> nt_requestedByUserId x \<noteq> Some (sample_id CHR ''2'')
      \<and> org_membership (ps_db demo_ps) (sample_id CHR ''2'') (nt_orgId x) = None) (it_intents ?t)"
    "fst (cancelActionIntent demo_ps sample_org_ctx 0 (sample_id CHR ''2'') ''intent'' ?t None) \<noteq> Inl ''not_found''"
    "decider_allowed demo_ps 0 (sample_id CHR ''2'') (Some (sample_id CHR ''a'')) demo_pending None"
    by code_simp+
  from partner_approver_cannot_cancel [OF h(1,3,2) l(1), of sample_org_ctx 0] l(2,3) show ?thesis by auto
qed

text \<open>The approvers depend on where the resolver is called. Inside a context that reaches no
  partner, the system context it opens is not entered, so it finds only members of the organization: the
  approvers of the partner are missing.\<close>

theorem approvers_in_org_context:
  assumes "wf_ctx c" and "ctx_scope c \<noteq> SystemScope" and "ctx_accessiblePartnerIds c \<in> {None, Some []}"
    and "userId \<in> set (resolveIntentApprovers d orgId (Some c))"
  shows "list_ex (\<lambda>m. ou_userId m = userId \<and> ou_orgId m = orgId) (organization_users d)"
proof -
  have "\<not> breeze_has_partner_access (set_gucs c) (Some i)" for i
    using assms(3) by (auto simp: partner_access_iff [OF assms(1,2)])
  then have "select_partner_users (set_gucs c) d = []" by (simp add: select_partner_users_def)
  with assms(4) show ?thesis
    by (auto simp: resolveIntentApprovers_def withSystemDbAccessContext_def withDbAccessContext_def Let_def
        select_organization_users_def list_ex_iff split: if_splits option.splits)
qed

theorem approvers_in_org_context_witness:
  "resolveIntentApprovers demo_intent_db (sample_id CHR ''b'') None = [sample_id CHR ''2'']
   \<and> sample_id CHR ''2'' \<notin> set (resolveIntentApprovers demo_intent_db (sample_id CHR ''b'') (Some sample_org_ctx))"
proof -
  have h: "resolveIntentApprovers demo_intent_db (sample_id CHR ''b'') None = [sample_id CHR ''2'']"
    "\<not> list_ex (\<lambda>m. ou_userId m = sample_id CHR ''2'' \<and> ou_orgId m = sample_id CHR ''b'') (organization_users demo_intent_db)"
    "ctx_scope sample_org_ctx \<noteq> SystemScope" "ctx_accessiblePartnerIds sample_org_ctx = Some []"
    by code_simp+
  have "wf_ctx sample_org_ctx" using sample_facts(2) by (simp add: wf_ambient_def)
  from approvers_in_org_context [OF this h(3), of "sample_id CHR ''2''" demo_intent_db "sample_id CHR ''b''"] h show ?thesis by auto
qed

end
