(* ===== verification/Intent_Release.thy ===== *)
theory Intent_Release
  imports Intent_Authority
begin

text \<open>
  Action intents under concurrency: the decision handlers, the release by workers and live sessions, the
  cancellation and the reapers as steps of one relation, split where the code waits. The log \<open>iw_runs\<close> has
  an entry for every tool call that was started, with the rows as they were loaded.
\<close>

section \<open>Steps\<close>

record decision =
  dn_row :: id
  dn_user :: id
  dn_approve :: bool
  dn_level :: "nat option"
  dn_intent :: "id option"

record intent_run =
  rn_intent :: action_intent
  rn_approval :: approval_request
  rn_claimedAt :: int

record intent_world =
  iw_tables :: intent_tables
  iw_checked :: "decision set"
  iw_decided :: "decision set"
  iw_claims :: "(id \<times> int) list"
  iw_runs :: "intent_run list"

text \<open>Ids the database gives to new rows are new and distinct.\<close>

definition fresh_ids :: "intent_env \<Rightarrow> intent_tables \<Rightarrow> bool" where
  "fresh_ids env t =
     (ne_newIntent env \<notin> nt_id ` set (it_intents t) \<and> inj (ne_newApproval env)
      \<and> range (ne_newApproval env) \<inter> ar_id ` set (it_approvals t) = {})"

inductive intent_step :: "intent_world \<Rightarrow> intent_world \<Rightarrow> bool" where
  create:
    "fresh_ids env (iw_tables w) \<Longrightarrow>
     intent_step w (w\<lparr>iw_tables := snd (createActionIntent env d requesterId partnerId org input now (iw_tables w) amb)\<rparr>)"
| check:
    "decide_checks ps now userId partnerId rowId approve (iw_tables w) amb = Inr linked \<Longrightarrow>
     assurance_ok userId approve linked level \<Longrightarrow>
     intent_step w (w\<lparr>iw_checked := insert \<lparr>dn_row = rowId, dn_user = userId, dn_approve = approve, dn_level = level,
                                           dn_intent = map_option nt_id linked\<rparr> (iw_checked w)\<rparr>)"
| decide:
    "dn \<in> iw_checked w \<Longrightarrow>
     decide_row (dn_row dn) (dn_user dn) (dn_approve dn) (dn_level dn) now (iw_tables w) = (won, t) \<Longrightarrow>
     intent_step w (w\<lparr>iw_tables := t, iw_checked := iw_checked w - {dn},
                     iw_decided := (if won then insert dn (iw_decided w) else iw_decided w)\<rparr>)"
| fan_in:
    "dn \<in> iw_decided w \<Longrightarrow> dn_intent dn = Some i \<Longrightarrow>
     intent_step w (w\<lparr>iw_tables := snd (intent_fan_in i (dn_row dn) (dn_user dn) (dn_approve dn) now (iw_tables w)),
                     iw_decided := iw_decided w - {dn}\<rparr>)"
| fan_in_fails:
    "dn \<in> iw_decided w \<Longrightarrow> intent_step w (w\<lparr>iw_decided := iw_decided w - {dn}\<rparr>)"
| report:
    "r \<in> set (it_approvals (iw_tables w)) \<Longrightarrow> ar_id r = rowId \<Longrightarrow> ar_userId r = userId \<Longrightarrow>
     intent_step w (w\<lparr>iw_tables := report_row rowId userId (iw_tables w),
                     iw_decided := insert \<lparr>dn_row = rowId, dn_user = userId, dn_approve = False, dn_level = None,
                                          dn_intent = ar_intentId r\<rparr> (iw_decided w)\<rparr>)"
| cancel:
    "intent_step w (w\<lparr>iw_tables := snd (cancelActionIntent ps context now userId intentId (iw_tables w) amb)\<rparr>)"
| claim:
    "claim_intent i now (iw_tables w) = (True, t) \<Longrightarrow>
     intent_step w (w\<lparr>iw_tables := t, iw_claims := (i, now) # iw_claims w\<rparr>)"
| run:
    "(i, c) \<in> set (iw_claims w) \<Longrightarrow> find (\<lambda>x. nt_id x = i) (it_intents (iw_tables w)) = Some x \<Longrightarrow>
     winning_approval i (iw_tables w) = Some r \<Longrightarrow>
     revalidateApprovedIntentForRelease env ps now x (Some r) amb = Inr auth \<Longrightarrow>
     intent_step w (w\<lparr>iw_claims := remove1 (i, c) (iw_claims w),
                     iw_runs := iw_runs w @ [\<lparr>rn_intent = x, rn_approval = r, rn_claimedAt = c\<rparr>]\<rparr>)"
| refuse:
    "(i, c) \<in> set (iw_claims w) \<Longrightarrow>
     intent_step w (w\<lparr>iw_claims := remove1 (i, c) (iw_claims w),
                     iw_tables := finish_intent i (Some (code, False)) now (iw_tables w)\<rparr>)"
| finish:
    "rn \<in> set (iw_runs w) \<Longrightarrow>
     intent_step w (w\<lparr>iw_tables := finish_intent (nt_id (rn_intent rn)) failure now (iw_tables w)\<rparr>)"
| reap:
    "intent_step w (w\<lparr>iw_tables := reapExpiredIntents locked approvalsFail now (iw_tables w)\<rparr>)"
| reap_stale:
    "intent_step w (w\<lparr>iw_tables := reapStaleExecutingIntents locked now (iw_tables w)\<rparr>)"

section \<open>The invariant\<close>

definition started :: "intent_status \<Rightarrow> bool" where
  "started s = (s \<in> {IExecuting, ICompleted, IFailed})"

text \<open>The ends of an intent that was not executed.\<close>

definition closed_status :: "intent_status \<Rightarrow> bool" where
  "closed_status s = (s \<in> {IRejected, ICancelled, IExpired})"

definition level_of :: "nat option \<Rightarrow> nat" where
  "level_of l = (case l of None \<Rightarrow> 0 | Some n \<Rightarrow> n)"

definition claimed_ids :: "intent_world \<Rightarrow> id list" where
  "claimed_ids w = map fst (iw_claims w) @ map (nt_id \<circ> rn_intent) (iw_runs w)"

text \<open>A self approval has at least level 3.\<close>

definition self_level :: "intent_tables \<Rightarrow> approval_request \<Rightarrow> nat option \<Rightarrow> bool" where
  "self_level t r level =
     (\<forall>x\<in>set (it_intents t). ar_intentId r = Some (nt_id x) \<longrightarrow> nt_requestedByUserId x = Some (ar_userId r)
        \<longrightarrow> 3 \<le> level_of level)"

definition good_run :: "intent_run \<Rightarrow> bool" where
  "good_run rn =
     (rn_claimedAt rn < nt_expiresAt (rn_intent rn) \<and> ar_status (rn_approval rn) = AApproved
      \<and> ar_intentId (rn_approval rn) = Some (nt_id (rn_intent rn))
      \<and> ar_boundArgumentDigest (rn_approval rn) = Some (nt_argumentDigest (rn_intent rn))
      \<and> (nt_requestedByUserId (rn_intent rn) = Some (ar_userId (rn_approval rn))
           \<longrightarrow> 3 \<le> level_of (ar_decidedAssuranceLevel (rn_approval rn))))"

definition tables_ok :: "intent_tables \<Rightarrow> bool" where
  "tables_ok t =
     (distinct (map nt_id (it_intents t)) \<and> distinct (map ar_id (it_approvals t))
      \<and> (\<forall>r\<in>set (it_approvals t). \<forall>i. ar_intentId r = Some i \<longrightarrow> i \<in> nt_id ` set (it_intents t))
      \<and> (\<forall>r\<in>set (it_approvals t). ar_status r = AApproved \<longrightarrow> self_level t r (ar_decidedAssuranceLevel r)))"

definition checked_ok :: "intent_tables \<Rightarrow> decision \<Rightarrow> bool" where
  "checked_ok t dn =
     (dn_row dn \<in> ar_id ` set (it_approvals t)
      \<and> (dn_approve dn \<longrightarrow> (\<forall>r\<in>set (it_approvals t). ar_id r = dn_row dn \<longrightarrow> ar_userId r = dn_user dn \<longrightarrow> self_level t r (dn_level dn))))"

definition claims_ok :: "intent_tables \<Rightarrow> intent_world \<Rightarrow> bool" where
  "claims_ok t w =
     (distinct (claimed_ids w)
      \<and> (\<forall>i\<in>set (claimed_ids w). \<exists>x\<in>set (it_intents t). nt_id x = i \<and> started (nt_status x))
      \<and> (\<forall>(i, c)\<in>set (iw_claims w). \<forall>x\<in>set (it_intents t). nt_id x = i \<longrightarrow> c < nt_expiresAt x)
      \<and> (\<forall>rn\<in>set (iw_runs w). good_run rn))"

definition intent_inv :: "intent_world \<Rightarrow> bool" where
  "intent_inv w =
     (tables_ok (iw_tables w) \<and> (\<forall>dn\<in>iw_checked w. checked_ok (iw_tables w) dn) \<and> claims_ok (iw_tables w) w)"

section \<open>Rows evolve\<close>

definition intent_kept :: "action_intent \<Rightarrow> action_intent \<Rightarrow> bool" where
  "intent_kept x y =
     (nt_id y = nt_id x \<and> nt_requestedByUserId y = nt_requestedByUserId x \<and> nt_expiresAt y = nt_expiresAt x
      \<and> (started (nt_status x) \<longrightarrow> started (nt_status y))
      \<and> (closed_status (nt_status x) \<longrightarrow> nt_status y = nt_status x))"

definition approval_kept :: "approval_request \<Rightarrow> approval_request \<Rightarrow> bool" where
  "approval_kept r s =
     (ar_id s = ar_id r \<and> ar_userId s = ar_userId r \<and> ar_intentId s = ar_intentId r
      \<and> (ar_status s = AApproved \<longrightarrow> ar_status r = AApproved \<and> ar_decidedAssuranceLevel s = ar_decidedAssuranceLevel r))"

definition evolves :: "intent_tables \<Rightarrow> intent_tables \<Rightarrow> bool" where
  "evolves t t' =
     (list_all2 intent_kept (it_intents t) (it_intents t') \<and> list_all2 approval_kept (it_approvals t) (it_approvals t'))"

lemma kept_refl [simp]: "intent_kept x x" "approval_kept r r"
  by (simp_all add: intent_kept_def approval_kept_def)

lemma tables_evolve_refl [simp]: "evolves t t"
  by (simp add: evolves_def list_all2_refl)

lemma kept_trans:
  "intent_kept x y \<Longrightarrow> intent_kept y z \<Longrightarrow> intent_kept x z"
  "approval_kept r s \<Longrightarrow> approval_kept s u \<Longrightarrow> approval_kept r u"
  by (simp_all add: intent_kept_def approval_kept_def)

lemma list_all2_chain:
  assumes "list_all2 P xs ys" and "list_all2 P ys zs" and "\<And>x y z. P x y \<Longrightarrow> P y z \<Longrightarrow> P x z"
  shows "list_all2 P xs zs"
  using assms(1,2)
proof (induction arbitrary: zs rule: list_all2_induct)
  case (Cons x xs y ys)
  from Cons.prems obtain z zs' where "zs = z # zs'" "P y z" "list_all2 P ys zs'" by (cases zs) simp_all
  with Cons assms(3) [of x y z] show ?case by simp
qed simp

lemma evolves_trans:
  assumes "evolves t u" and "evolves u v"
  shows "evolves t v"
proof -
  from assms have "list_all2 intent_kept (it_intents t) (it_intents u)" "list_all2 intent_kept (it_intents u) (it_intents v)"
    "list_all2 approval_kept (it_approvals t) (it_approvals u)" "list_all2 approval_kept (it_approvals u) (it_approvals v)"
    by (simp_all add: evolves_def)
  from list_all2_chain [OF this(1,2) kept_trans(1)] list_all2_chain [OF this(3,4) kept_trans(2)] show ?thesis
    by (simp add: evolves_def)
qed

lemma evolves_update_intents:
  assumes "\<And>x. x \<in> set (it_intents t) \<Longrightarrow> P x \<Longrightarrow> intent_kept x (f x)"
  shows "evolves t (snd (update_intents P f t))"
  using assms by (auto simp: evolves_def update_intents_def list_all2_map2 list_all2_refl intro!: list_all2_all_nthI)

lemma evolves_update_approvals:
  assumes "\<And>r. r \<in> set (it_approvals t) \<Longrightarrow> P r \<Longrightarrow> approval_kept r (f r)"
  shows "evolves t (snd (update_approvals P f t))"
  using assms by (auto simp: evolves_def update_approvals_def list_all2_map2 list_all2_refl intro!: list_all2_all_nthI)

lemma list_all2_partner:
  "list_all2 P xs ys \<Longrightarrow> y \<in> set ys \<Longrightarrow> \<exists>x\<in>set xs. P x y"
  "list_all2 P xs ys \<Longrightarrow> x \<in> set xs \<Longrightarrow> \<exists>y\<in>set ys. P x y"
  by (induction rule: list_all2_induct) auto

lemma evolves_ids:
  assumes "evolves t t'"
  shows "map nt_id (it_intents t') = map nt_id (it_intents t)" and "map ar_id (it_approvals t') = map ar_id (it_approvals t)"
proof -
  have "list_all2 intent_kept xs ys \<Longrightarrow> map nt_id ys = map nt_id xs" for xs ys
    by (induction rule: list_all2_induct) (simp_all add: intent_kept_def)
  moreover have "list_all2 approval_kept rs ss \<Longrightarrow> map ar_id ss = map ar_id rs" for rs ss
    by (induction rule: list_all2_induct) (simp_all add: approval_kept_def)
  ultimately show "map nt_id (it_intents t') = map nt_id (it_intents t)" and "map ar_id (it_approvals t') = map ar_id (it_approvals t)"
    using assms by (auto simp: evolves_def)
qed

lemma evolves_id_sets:
  assumes "evolves t t'"
  shows "nt_id ` set (it_intents t') = nt_id ` set (it_intents t)" and "ar_id ` set (it_approvals t') = ar_id ` set (it_approvals t)"
  using evolves_ids [OF assms] by (metis set_map)+

lemma evolves_rows:
  assumes "evolves t t'"
  shows "y \<in> set (it_intents t') \<Longrightarrow> \<exists>x\<in>set (it_intents t). intent_kept x y"
    and "x \<in> set (it_intents t) \<Longrightarrow> \<exists>y\<in>set (it_intents t'). intent_kept x y"
    and "s \<in> set (it_approvals t') \<Longrightarrow> \<exists>r\<in>set (it_approvals t). approval_kept r s"
  using assms list_all2_partner by (auto simp: evolves_def)

lemma self_level_evolves:
  assumes "evolves t t'" and "ar_userId s = ar_userId r" and "ar_intentId s = ar_intentId r" and "self_level t r level"
  shows "self_level t' s level"
  unfolding self_level_def
proof (intro ballI impI)
  fix y assume y: "y \<in> set (it_intents t')" "ar_intentId s = Some (nt_id y)" "nt_requestedByUserId y = Some (ar_userId s)"
  from evolves_rows(1) [OF assms(1) y(1)] obtain x where "x \<in> set (it_intents t)" "intent_kept x y" by blast
  with y assms(2-4) show "3 \<le> level_of level" by (simp add: self_level_def intent_kept_def)
qed

lemma tables_ok_evolves:
  assumes e: "evolves t t'" and "tables_ok t"
  shows "tables_ok t'"
  unfolding tables_ok_def
proof (intro conjI ballI allI impI)
  show "distinct (map nt_id (it_intents t'))" "distinct (map ar_id (it_approvals t'))"
    using assms(2) evolves_ids [OF e] by (simp_all add: tables_ok_def)
  fix s assume s: "s \<in> set (it_approvals t')"
  from evolves_rows(3) [OF e s] obtain r where r: "r \<in> set (it_approvals t)" "approval_kept r s" by blast
  show "i \<in> nt_id ` set (it_intents t')" if "ar_intentId s = Some i" for i
    using that r assms(2) by (simp add: evolves_id_sets [OF e] tables_ok_def approval_kept_def)
  show "self_level t' s (ar_decidedAssuranceLevel s)" if "ar_status s = AApproved"
    using that r assms(2) by (intro self_level_evolves [OF e, of s r]) (simp_all add: tables_ok_def approval_kept_def)
qed

lemma checked_ok_evolves:
  assumes e: "evolves t t'" and "checked_ok t dn"
  shows "checked_ok t' dn"
  unfolding checked_ok_def
proof (intro conjI ballI impI)
  show "dn_row dn \<in> ar_id ` set (it_approvals t')" using assms(2) by (simp add: evolves_id_sets [OF e] checked_ok_def)
  fix s assume s: "dn_approve dn" "s \<in> set (it_approvals t')" "ar_id s = dn_row dn" "ar_userId s = dn_user dn"
  from evolves_rows(3) [OF e s(2)] obtain r where r: "r \<in> set (it_approvals t)" "approval_kept r s" by blast
  show "self_level t' s (dn_level dn)"
    using r s assms(2) by (intro self_level_evolves [OF e, of s r]) (simp_all add: checked_ok_def approval_kept_def)
qed

lemma claims_ok_evolves:
  assumes e: "evolves t t'" and "claims_ok t w"
  shows "claims_ok t' w"
proof -
  have "\<exists>y\<in>set (it_intents t'). nt_id y = i \<and> started (nt_status y)" if "i \<in> set (claimed_ids w)" for i
  proof -
    from that assms(2) obtain x where x: "x \<in> set (it_intents t)" "nt_id x = i" "started (nt_status x)"
      by (auto simp: claims_ok_def)
    from evolves_rows(2) [OF e x(1)] obtain y where "y \<in> set (it_intents t')" "intent_kept x y" by blast
    with x show ?thesis by (auto simp: intent_kept_def)
  qed
  moreover have "c < nt_expiresAt y" if "(i, c) \<in> set (iw_claims w)" "y \<in> set (it_intents t')" "nt_id y = i" for i c y
  proof -
    from evolves_rows(1) [OF e that(2)] obtain x where "x \<in> set (it_intents t)" "intent_kept x y" by blast
    with that assms(2) show ?thesis by (auto simp: claims_ok_def intent_kept_def)
  qed
  ultimately show ?thesis using assms(2) by (auto simp: claims_ok_def)
qed

lemma claims_ok_cong: "iw_claims w' = iw_claims w \<Longrightarrow> iw_runs w' = iw_runs w \<Longrightarrow> claims_ok t w' = claims_ok t w"
  by (simp add: claims_ok_def claimed_ids_def)

lemma intent_inv_evolves:
  assumes "intent_inv w" and "evolves (iw_tables w) t" and "C \<subseteq> iw_checked w"
  shows "intent_inv (w\<lparr>iw_tables := t, iw_checked := C, iw_decided := D\<rparr>)"
  using assms tables_ok_evolves [OF assms(2)] checked_ok_evolves [OF assms(2)] claims_ok_evolves [OF assms(2), of w]
    claims_ok_cong [of "w\<lparr>iw_tables := t, iw_checked := C, iw_decided := D\<rparr>" w t]
  by (auto simp: intent_inv_def)

lemma intent_inv_tables: "intent_inv w \<Longrightarrow> evolves (iw_tables w) t \<Longrightarrow> intent_inv (w\<lparr>iw_tables := t\<rparr>)"
  using intent_inv_evolves [of w t "iw_checked w" "iw_decided w"] by simp

section \<open>Each step keeps the invariant\<close>

lemma evolves_transition:
  assumes "\<And>x :: action_intent. intent_kept x ((patch x)\<lparr>nt_status := nt_status x\<rparr>)" and "started to \<or> (\<forall>s\<in>set from. \<not> started s)"
    and "\<forall>s\<in>set from. \<not> closed_status s"
  shows "evolves t (snd (transitionIntent i from to patch req now t))"
  unfolding transitionIntent_def
proof (rule evolves_update_intents)
  fix x :: action_intent assume "nt_id x = i \<and> nt_status x \<in> set from \<and> (req \<longrightarrow> now < nt_expiresAt x)"
  then show "intent_kept x ((patch x)\<lparr>nt_status := to\<rparr>)" using assms(1) [of x] assms(2,3) by (auto simp: intent_kept_def)
qed

lemma evolves_fan_in: "evolves t (snd (intent_fan_in i rowId userId approve now t))"
proof -
  let ?t1 = "snd (transitionIntent i [IPending] (if approve then IApproved else IRejected)
      (\<lambda>x. x\<lparr>nt_decidedAt := Some now, nt_decidedByUserId := Some userId\<rparr>) False now t)"
  let ?t2 = "snd (update_approvals (\<lambda>r. ar_intentId r = Some i \<and> ar_status r = APending \<and> ar_id r \<noteq> rowId)
      (\<lambda>r. r\<lparr>ar_status := AExpired\<rparr>) ?t1)"
  have "evolves t ?t1" by (rule evolves_transition) (simp_all add: intent_kept_def started_def closed_status_def)
  moreover have "evolves ?t1 ?t2" by (rule evolves_update_approvals) (simp add: approval_kept_def)
  ultimately have "evolves t ?t2" by (rule evolves_trans)
  then have "evolves t (?t2\<lparr>it_outbox := b\<rparr>)" for b by (simp add: evolves_def)
  with \<open>evolves t ?t2\<close> show ?thesis
    unfolding intent_fan_in_def Let_def case_prod_unfold by (cases approve) (simp_all only: if_split_asm, auto)
qed

lemma evolves_report: "evolves t (report_row rowId userId t)"
  unfolding report_row_def by (rule evolves_update_approvals) (simp add: approval_kept_def)

lemma evolves_cancel: "evolves t (snd (cancelActionIntent ps context now userId i t amb))"
proof -
  have "evolves t (snd (transitionIntent i [IPending, IApproved] ICancelled (\<lambda>x. x) False now t))"
    by (rule evolves_transition) (simp_all add: started_def closed_status_def)
  then show ?thesis unfolding cancelActionIntent_def by (auto split: option.split prod.split bool.split)
qed

lemma evolves_claim: "evolves t (snd (claim_intent i now t))"
  unfolding claim_intent_def by (rule evolves_transition) (simp_all add: intent_kept_def started_def closed_status_def)

lemma evolves_finish: "evolves t (finish_intent i failure now t)"
  unfolding finish_intent_def
  by (rule evolves_transition) (simp_all add: intent_kept_def started_def closed_status_def split: option.split)

lemma evolves_reap: "evolves t (reapExpiredIntents locked fails now t)"
proof -
  have e: "evolves t (snd (update_intents (\<lambda>x. nt_id x \<in> D \<and> nt_status x \<in> {IPending, IApproved}) (\<lambda>x. x\<lparr>nt_status := IExpired\<rparr>) t))" for D
    by (rule evolves_update_intents) (auto simp: intent_kept_def started_def closed_status_def)
  have a: "evolves u (snd (update_approvals (\<lambda>r. ar_status r = APending \<and> P r) (\<lambda>r. r\<lparr>ar_status := AExpired\<rparr>) u))" for u P
    by (rule evolves_update_approvals) (simp add: approval_kept_def)
  show ?thesis unfolding reapExpiredIntents_def Let_def using e evolves_trans [OF e a] by simp
qed

lemma evolves_reap_stale: "evolves t (reapStaleExecutingIntents locked now t)"
  unfolding reapStaleExecutingIntents_def Let_def
  by (rule evolves_update_intents) (auto simp: intent_kept_def started_def closed_status_def)

lemma find_row_unique:
  assumes "distinct (map f xs)" and "find P xs = Some x0" and "x \<in> set xs" and "f x = f x0"
  shows "x = x0"
proof -
  have "x0 \<in> set xs" using assms(2) by (auto simp: find_Some_iff in_set_conv_nth)
  with assms show ?thesis by (simp add: distinct_map inj_on_def)
qed

lemma decide_checks_linked:
  assumes "decide_checks ps now userId partnerId rowId approve t amb = Inr linked"
  obtains r where "find (\<lambda>r. ar_id r = rowId \<and> ar_userId r = userId) (it_approvals t) = Some r"
    and "linked = Option.bind (ar_intentId r) (\<lambda>i. find (\<lambda>x. nt_id x = i) (it_intents t))"
    and "ar_intentId r \<noteq> None \<longrightarrow> linked \<noteq> None"
proof -
  from assms obtain r where r: "find (\<lambda>r. ar_id r = rowId \<and> ar_userId r = userId) (it_approvals t) = Some r"
    unfolding decide_checks_def by (cases "find (\<lambda>r. ar_id r = rowId \<and> ar_userId r = userId) (it_approvals t)") simp_all
  show ?thesis
  proof (rule that [OF r])
    show "linked = Option.bind (ar_intentId r) (\<lambda>i. find (\<lambda>x. nt_id x = i) (it_intents t))"
      using assms unfolding decide_checks_def r option.case by (simp split: if_splits option.splits)
    show "ar_intentId r \<noteq> None \<longrightarrow> linked \<noteq> None"
      using assms unfolding decide_checks_def r option.case
      by (auto split: if_splits option.splits dest: sym [of "Some _"])
  qed
qed

text \<open>The checks of a handler establish what its decision relies on.\<close>

lemma checks_give_checked:
  assumes ok: "tables_ok t" and c: "decide_checks ps now userId partnerId rowId approve t amb = Inr linked"
    and a: "assurance_ok userId approve linked level"
  shows "checked_ok t \<lparr>dn_row = rowId, dn_user = userId, dn_approve = approve, dn_level = level, dn_intent = map_option nt_id linked\<rparr>"
proof -
  obtain r0 where r0: "find (\<lambda>r. ar_id r = rowId \<and> ar_userId r = userId) (it_approvals t) = Some r0"
    and l: "linked = Option.bind (ar_intentId r0) (\<lambda>i. find (\<lambda>x. nt_id x = i) (it_intents t))"
      "ar_intentId r0 \<noteq> None \<longrightarrow> linked \<noteq> None" by (rule decide_checks_linked [OF c])
  note in0 = find_SomeD [OF r0]
  have dist: "distinct (map ar_id (it_approvals t))" "distinct (map nt_id (it_intents t))" using ok by (simp_all add: tables_ok_def)
  have "self_level t r level" if r: "approve" "r \<in> set (it_approvals t)" "ar_id r = rowId" "ar_userId r = userId" for r
    unfolding self_level_def
  proof (intro ballI impI)
    fix x assume x: "x \<in> set (it_intents t)" "ar_intentId r = Some (nt_id x)" "nt_requestedByUserId x = Some (ar_userId r)"
    have "r = r0" using find_row_unique [OF dist(1) r0 r(2)] in0 r(3) by simp
    with l x(2) obtain y where y: "linked = Some y" "find (\<lambda>y. nt_id y = nt_id x) (it_intents t) = Some y" by auto
    have "x = y" using find_row_unique [OF dist(2) y(2) x(1)] find_SomeD [OF y(2)] by simp
    with a y(1) r(1,4) x(3) show "3 \<le> level_of level" by (auto simp: assurance_ok_def level_of_def split: option.splits)
  qed
  with in0 show ?thesis by (auto simp: checked_ok_def)
qed

text \<open>New rows refer to a new intent and carry no decision.\<close>

definition extends :: "intent_env \<Rightarrow> intent_tables \<Rightarrow> intent_tables \<Rightarrow> bool" where
  "extends env t t' =
     (\<exists>y us e dg. nt_id y = ne_newIntent env \<and> it_intents t' = it_intents t @ [y]
        \<and> it_approvals t' = it_approvals t @ map (approval_row_for env (nt_id y) e dg) (enumerate 0 us))"

lemma create_extends:
  "snd (createActionIntent env d requesterId partnerId org input now t amb) = t
   \<or> extends env t (snd (createActionIntent env d requesterId partnerId org input now t amb))"
proof -
  have ins: "snd (insert_intent env x us r now t) = t \<or> extends env t (snd (insert_intent env x us r now t))"
    if "nt_id x = ne_newIntent env" for x us r
  proof (cases "find (live_duplicate (nt_orgId x) (nt_idempotencyKey x)) (it_intents t)")
    case None
    let ?y = "if fan_out_users us r = [] then x\<lparr>nt_status := ICancelled, nt_errorCode := Some ''no_eligible_approvers'', nt_decidedAt := Some now\<rparr> else x"
    have "extends env t (snd (insert_intent env x us r now t))"
      unfolding extends_def
      by (intro exI [of _ ?y] exI [of _ "fan_out_users us r"] exI [of _ "nt_expiresAt x"] exI [of _ "nt_argumentDigest x"])
         (simp add: insert_intent_def None Let_def that)
    then show ?thesis ..
  qed (simp add: insert_intent_def)
  show ?thesis
    unfolding createActionIntent_def Let_def case_prod_unfold
    by (cases org) (auto simp: ins)
qed

lemma self_level_extends:
  assumes "extends env t t'" and "fresh_ids env t" and "tables_ok t" and "r \<in> set (it_approvals t)" and "self_level t r level"
  shows "self_level t' r level"
proof -
  obtain y where y: "nt_id y = ne_newIntent env" "it_intents t' = it_intents t @ [y]" using assms(1) by (auto simp: extends_def)
  have "ar_intentId r \<noteq> Some (nt_id y)" using assms(2-4) y(1) by (auto simp: tables_ok_def fresh_ids_def)
  with assms(5) y(2) show ?thesis by (auto simp: self_level_def)
qed

lemma new_approval_ids: "map ar_id (map (approval_row_for env i e dg) (enumerate n us)) = map (ne_newApproval env) [n..<n + length us]"
  by (induction us arbitrary: n) (simp_all add: approval_row_for_def upt_conv_Cons del: upt_Suc)

lemma extends_approvals:
  assumes "extends env t t'" and "fresh_ids env t" and "r \<in> set (it_approvals t')"
  shows "r \<in> set (it_approvals t) \<or> ar_id r \<in> range (ne_newApproval env) \<and> ar_intentId r = Some (ne_newIntent env) \<and> ar_status r = APending"
  using assms(1,3) by (auto simp: extends_def approval_row_for_def)

lemma tables_ok_extends:
  assumes e: "extends env t t'" and f: "fresh_ids env t" and ok: "tables_ok t"
  shows "tables_ok t'"
  unfolding tables_ok_def
proof (intro conjI ballI allI impI)
  obtain y us x dg where y: "nt_id y = ne_newIntent env" "it_intents t' = it_intents t @ [y]"
    "it_approvals t' = it_approvals t @ map (approval_row_for env (nt_id y) x dg) (enumerate 0 us)"
    using e unfolding extends_def by blast
  show "distinct (map nt_id (it_intents t'))" using ok f y by (auto simp: tables_ok_def fresh_ids_def)
  have ids: "map ar_id (it_approvals t') = map ar_id (it_approvals t) @ map (ne_newApproval env) [0..<length us]"
    unfolding y(3) map_append new_approval_ids by simp
  have "distinct (map (ne_newApproval env) [0..<length us])"
    using f by (simp add: distinct_map fresh_ids_def) (meson inj_on_subset subset_UNIV)
  moreover have "set (map ar_id (it_approvals t)) \<inter> set (map (ne_newApproval env) [0..<length us]) = {}"
    using f by (auto simp: fresh_ids_def)
  ultimately show "distinct (map ar_id (it_approvals t'))" unfolding ids using ok by (simp add: tables_ok_def)
  fix r assume r: "r \<in> set (it_approvals t')"
  note new = extends_approvals [OF e f r]
  show "i \<in> nt_id ` set (it_intents t')" if "ar_intentId r = Some i" for i
    using new that y(1,2) ok by (auto simp: tables_ok_def)
  show "self_level t' r (ar_decidedAssuranceLevel r)" if "ar_status r = AApproved"
    using new that ok self_level_extends [OF e f ok] by (auto simp: tables_ok_def)
qed

lemma checked_ok_extends:
  assumes e: "extends env t t'" and f: "fresh_ids env t" and ok: "tables_ok t" and c: "checked_ok t dn"
  shows "checked_ok t' dn"
  unfolding checked_ok_def
proof (intro conjI ballI impI)
  show "dn_row dn \<in> ar_id ` set (it_approvals t')" using c e by (auto simp: checked_ok_def extends_def)
  fix r assume r: "dn_approve dn" "r \<in> set (it_approvals t')" "ar_id r = dn_row dn" "ar_userId r = dn_user dn"
  have "ar_id r \<notin> range (ne_newApproval env)" using c f r(3) by (auto simp: checked_ok_def fresh_ids_def)
  with extends_approvals [OF e f r(2)] have "r \<in> set (it_approvals t)" by blast
  with r c show "self_level t' r (dn_level dn)" by (intro self_level_extends [OF e f ok]) (simp_all add: checked_ok_def)
qed

lemma claims_ok_extends:
  assumes e: "extends env t t'" and f: "fresh_ids env t" and c: "claims_ok t w"
  shows "claims_ok t' w"
proof -
  obtain y where y: "nt_id y = ne_newIntent env" "it_intents t' = it_intents t @ [y]" using e by (auto simp: extends_def)
  have "nt_id y \<noteq> i" if "(i, a) \<in> set (iw_claims w)" for i a
  proof -
    have "i \<in> set (claimed_ids w)" using that by (force simp: claimed_ids_def)
    with c obtain x where "x \<in> set (it_intents t)" "nt_id x = i" unfolding claims_ok_def by blast
    with f y(1) show ?thesis by (auto simp: fresh_ids_def)
  qed
  with c y(2) show ?thesis unfolding claims_ok_def by auto
qed

lemma inv_create_intent:
  assumes "intent_inv w" and "fresh_ids env (iw_tables w)"
  shows "intent_inv (w\<lparr>iw_tables := snd (createActionIntent env d requesterId partnerId org input now (iw_tables w) amb)\<rparr>)"
    (is "intent_inv (w\<lparr>iw_tables := ?t\<rparr>)")
proof (cases "?t = iw_tables w")
  case False
  with create_extends have e: "extends env (iw_tables w) ?t" by blast
  show ?thesis
    using assms tables_ok_extends [OF e assms(2)] checked_ok_extends [OF e assms(2)] claims_ok_extends [OF e assms(2)]
      claims_ok_cong [of "w\<lparr>iw_tables := ?t\<rparr>" w ?t] by (simp add: intent_inv_def)
qed (use assms in simp)

lemma inv_check:
  assumes "intent_inv w" and "decide_checks ps now userId partnerId rowId approve (iw_tables w) amb = Inr linked"
    and "assurance_ok userId approve linked level"
  shows "intent_inv (w\<lparr>iw_checked := insert \<lparr>dn_row = rowId, dn_user = userId, dn_approve = approve, dn_level = level,
                                             dn_intent = map_option nt_id linked\<rparr> (iw_checked w)\<rparr>)"
  using assms(1) checks_give_checked [OF _ assms(2,3)]
  by (simp add: intent_inv_def claims_ok_cong [of "w\<lparr>iw_checked := _\<rparr>" w])

text \<open>A denial lets the rows evolve; an approval writes the level its handler checked.\<close>

lemma decide_row_intents:
  assumes "decide_row rowId userId approve level now t = (won, t')"
  shows "it_intents t' = it_intents t"
    and "\<exists>P. (\<forall>r. P r \<longrightarrow> ar_id r = rowId \<and> ar_userId r = userId)
          \<and> it_approvals t' = map (\<lambda>r. if P r then r\<lparr>ar_status := (if approve then AApproved else ADenied), ar_decidedAssuranceLevel := level\<rparr> else r) (it_approvals t)"
  using assms unfolding decide_row_def update_approvals_def
  by (auto intro!: exI [of _ "\<lambda>r. ar_id r = rowId \<and> ar_userId r = userId \<and> ar_status r = APending \<and> now < ar_expiresAt r"])

lemma decide_row_evolves:
  assumes "decide_row rowId userId False level now t = (won, t')"
  shows "evolves t t'"
proof -
  have "evolves t (snd (decide_row rowId userId False level now t))"
    unfolding decide_row_def by (rule evolves_update_approvals) (simp add: approval_kept_def)
  with assms show ?thesis by simp
qed

lemma self_level_cong:
  "it_intents t' = it_intents t \<Longrightarrow> ar_userId s = ar_userId r \<Longrightarrow> ar_intentId s = ar_intentId r \<Longrightarrow> self_level t' s level = self_level t r level"
  by (simp add: self_level_def)

lemma approve_rows:
  assumes "decide_row rowId userId True level now t = (won, t')" and "s \<in> set (it_approvals t')"
  obtains r where "r \<in> set (it_approvals t)" and "ar_id s = ar_id r" and "ar_userId s = ar_userId r" and "ar_intentId s = ar_intentId r"
    and "s = r \<or> ar_id r = rowId \<and> ar_userId r = userId \<and> ar_decidedAssuranceLevel s = level"
proof -
  from decide_row_intents(2) [OF assms(1)] obtain P where P: "\<forall>r. P r \<longrightarrow> ar_id r = rowId \<and> ar_userId r = userId"
    and m: "it_approvals t' = map (\<lambda>r. if P r then r\<lparr>ar_status := AApproved, ar_decidedAssuranceLevel := level\<rparr> else r) (it_approvals t)"
    by auto
  from assms(2) m obtain r where "r \<in> set (it_approvals t)" "s = (if P r then r\<lparr>ar_status := AApproved, ar_decidedAssuranceLevel := level\<rparr> else r)"
    by auto
  with P that [of r] show thesis by (simp split: if_splits)
qed

lemma approve_ids:
  assumes "decide_row rowId userId approve level now t = (won, t')"
  shows "map ar_id (it_approvals t') = map ar_id (it_approvals t)" and "ar_id ` set (it_approvals t') = ar_id ` set (it_approvals t)"
proof -
  show m: "map ar_id (it_approvals t') = map ar_id (it_approvals t)"
    using assms by (auto simp: decide_row_def update_approvals_def)
  show "ar_id ` set (it_approvals t') = ar_id ` set (it_approvals t)" using m by (metis set_map)
qed

lemma approve_keeps_tables:
  assumes d: "decide_row (dn_row dn) (dn_user dn) True (dn_level dn) now t = (won, t')" and ok: "tables_ok t"
    and c: "checked_ok t dn" "dn_approve dn"
  shows "tables_ok t'"
  unfolding tables_ok_def
proof (intro conjI ballI allI impI)
  note same = decide_row_intents(1) [OF d]
  show "distinct (map nt_id (it_intents t'))" "distinct (map ar_id (it_approvals t'))"
    using ok approve_ids(1) [OF d] by (simp_all add: same tables_ok_def)
  fix s assume s: "s \<in> set (it_approvals t')"
  obtain r where r: "r \<in> set (it_approvals t)" "ar_userId s = ar_userId r" "ar_intentId s = ar_intentId r"
    "s = r \<or> ar_id r = dn_row dn \<and> ar_userId r = dn_user dn \<and> ar_decidedAssuranceLevel s = dn_level dn"
    by (rule approve_rows [OF d s])
  show "i \<in> nt_id ` set (it_intents t')" if "ar_intentId s = Some i" for i
    using that r ok by (simp add: same tables_ok_def)
  show "self_level t' s (ar_decidedAssuranceLevel s)" if "ar_status s = AApproved"
    using r(4)
  proof
    assume "s = r"
    with that r(1) ok show ?thesis by (simp add: self_level_cong [OF same, of r r] tables_ok_def)
  next
    assume "ar_id r = dn_row dn \<and> ar_userId r = dn_user dn \<and> ar_decidedAssuranceLevel s = dn_level dn"
    with r(1-3) c show ?thesis by (simp add: self_level_cong [OF same, of s r] checked_ok_def)
  qed
qed

lemma approve_keeps_checked:
  assumes d: "decide_row rowId userId True level now t = (won, t')" and c: "checked_ok t dn"
  shows "checked_ok t' dn"
  unfolding checked_ok_def
proof (intro conjI ballI impI)
  show "dn_row dn \<in> ar_id ` set (it_approvals t')" using c by (simp add: approve_ids(2) [OF d] checked_ok_def)
  fix s assume s: "dn_approve dn" "s \<in> set (it_approvals t')" "ar_id s = dn_row dn" "ar_userId s = dn_user dn"
  obtain r where r: "r \<in> set (it_approvals t)" "ar_id s = ar_id r" "ar_userId s = ar_userId r" "ar_intentId s = ar_intentId r"
    by (rule approve_rows [OF d s(2)])
  with s c show "self_level t' s (dn_level dn)"
    by (simp add: self_level_cong [OF decide_row_intents(1) [OF d], of s r] checked_ok_def)
qed

lemma inv_decide:
  assumes i: "intent_inv w" and dn: "dn \<in> iw_checked w"
    and d: "decide_row (dn_row dn) (dn_user dn) (dn_approve dn) (dn_level dn) now (iw_tables w) = (won, t)"
  shows "intent_inv (w\<lparr>iw_tables := t, iw_checked := iw_checked w - {dn}, iw_decided := D\<rparr>)"
proof (cases "dn_approve dn")
  case True
  have d': "decide_row (dn_row dn) (dn_user dn) True (dn_level dn) now (iw_tables w) = (won, t)" using d True by simp
  have c: "checked_ok (iw_tables w) dn" using i dn by (simp add: intent_inv_def)
  have "tables_ok t" using approve_keeps_tables [OF d' _ c True] i by (simp add: intent_inv_def)
  moreover have "\<forall>e\<in>iw_checked w. checked_ok t e" using i approve_keeps_checked [OF d'] by (simp add: intent_inv_def)
  moreover have "claims_ok t w" using i decide_row_intents(1) [OF d] by (simp add: intent_inv_def claims_ok_def)
  ultimately show ?thesis
    using claims_ok_cong [of "w\<lparr>iw_tables := t, iw_checked := iw_checked w - {dn}, iw_decided := D\<rparr>" w t]
    by (simp add: intent_inv_def)
next
  case False
  then have "evolves (iw_tables w) t" using d decide_row_evolves [of "dn_row dn" "dn_user dn" "dn_level dn" now "iw_tables w" won t] by simp
  then show ?thesis by (rule intent_inv_evolves [OF i]) auto
qed

text \<open>The claim takes an approved intent, so no claim and no run had it before.\<close>

lemma claim_won:
  assumes "claim_intent i now t = (True, t')"
  obtains x where "x \<in> set (it_intents t)" and "nt_id x = i" and "nt_status x = IApproved" and "now < nt_expiresAt x"
  using assms by (auto simp: claim_intent_def transitionIntent_def update_intents_def list_ex_iff)

lemma claim_started:
  assumes "claim_intent i now t = (True, t')"
  shows "\<exists>y\<in>set (it_intents t'). nt_id y = i \<and> started (nt_status y)"
proof -
  obtain x where x: "x \<in> set (it_intents t)" "nt_id x = i" "nt_status x = IApproved" "now < nt_expiresAt x" by (rule claim_won [OF assms])
  let ?y = "x\<lparr>nt_executedAt := None, nt_executionStartedAt := Some now, nt_status := IExecuting\<rparr>"
  have "?y \<in> set (it_intents t')"
    using assms x by (force simp: claim_intent_def transitionIntent_def update_intents_def image_iff)
  then show ?thesis using x(2) by (intro bexI [of _ ?y]) (simp_all add: started_def)
qed

lemma same_id_same_row:
  assumes "tables_ok t" and "x \<in> set (it_intents t)" and "y \<in> set (it_intents t)" and "nt_id x = nt_id y"
  shows "x = y"
  using assms by (simp add: tables_ok_def distinct_map inj_on_def)

lemma claim_not_claimed:
  assumes "intent_inv w" and "claim_intent i now (iw_tables w) = (True, t)"
  shows "i \<notin> set (claimed_ids w)"
proof
  assume "i \<in> set (claimed_ids w)"
  with assms(1) obtain y where y: "y \<in> set (it_intents (iw_tables w))" "nt_id y = i" "started (nt_status y)"
    unfolding intent_inv_def claims_ok_def by blast
  obtain x where x: "x \<in> set (it_intents (iw_tables w))" "nt_id x = i" "nt_status x = IApproved" by (rule claim_won [OF assms(2)])
  have "x = y" using same_id_same_row [OF _ x(1) y(1)] assms(1) x(2) y(2) by (simp add: intent_inv_def)
  with x(3) y(3) show False by (simp add: started_def)
qed

lemma claim_in_time:
  assumes "tables_ok t" and c: "claim_intent i now t = (True, t')" and "y \<in> set (it_intents t')" and "nt_id y = i"
  shows "now < nt_expiresAt y"
proof -
  obtain x where x: "x \<in> set (it_intents t)" "nt_id x = i" "now < nt_expiresAt x" by (rule claim_won [OF c])
  have e: "evolves t t'" using evolves_claim [of t i now] c by simp
  from evolves_rows(1) [OF e assms(3)] obtain z where z: "z \<in> set (it_intents t)" "intent_kept z y" by blast
  have "z = x" using same_id_same_row [OF assms(1) z(1) x(1)] z(2) x(2) assms(4) by (simp add: intent_kept_def)
  with z(2) x(3) show ?thesis by (simp add: intent_kept_def)
qed

lemma inv_claim:
  assumes i: "intent_inv w" and c: "claim_intent i now (iw_tables w) = (True, t)"
  shows "intent_inv (w\<lparr>iw_tables := t, iw_claims := (i, now) # iw_claims w\<rparr>)" (is "intent_inv ?w")
proof -
  have e: "evolves (iw_tables w) t" using evolves_claim [of "iw_tables w" i now] c by simp
  have ok: "tables_ok (iw_tables w)" "claims_ok t w" using i claims_ok_evolves [OF e] by (simp_all add: intent_inv_def)
  have ids: "claimed_ids ?w = i # claimed_ids w" by (simp add: claimed_ids_def)
  have "claims_ok t ?w"
    unfolding claims_ok_def ids
  proof (intro conjI)
    show "distinct (i # claimed_ids w)" using claim_not_claimed [OF i c] ok(2) by (simp add: claims_ok_def)
    show "\<forall>j\<in>set (i # claimed_ids w). \<exists>x\<in>set (it_intents t). nt_id x = j \<and> started (nt_status x)"
      using claim_started [OF c] ok(2) by (simp add: claims_ok_def)
    show "\<forall>(j, a)\<in>set (iw_claims ?w). \<forall>x\<in>set (it_intents t). nt_id x = j \<longrightarrow> a < nt_expiresAt x"
      using claim_in_time [OF ok(1) c] ok(2) by (simp add: claims_ok_def)
    show "\<forall>rn\<in>set (iw_runs ?w). good_run rn" using ok(2) by (simp add: claims_ok_def)
  qed
  then show ?thesis
    using i tables_ok_evolves [OF e] checked_ok_evolves [OF e] by (simp add: intent_inv_def)
qed

text \<open>A claim that is used up leaves the list.\<close>

lemma remove_claim_ids:
  assumes "distinct (map fst xs)" and "(i, c) \<in> set xs"
  shows "distinct (map fst (remove1 (i, c) xs))" and "set (map fst (remove1 (i, c) xs)) = set (map fst xs) - {i}"
proof -
  have d: "distinct xs" using assms(1) by (simp add: distinct_map)
  have s: "set (remove1 (i, c) xs) = set xs - {(i, c)}" using d by simp
  have inj: "inj_on fst (set xs)" using assms(1) by (simp add: distinct_map)
  show "distinct (map fst (remove1 (i, c) xs))"
    using d inj s by (simp add: distinct_map) (meson Diff_subset inj_on_subset)
  have "fst ` (set xs - {(i, c)}) = fst ` set xs - fst ` {(i, c)}"
    by (rule inj_on_image_set_diff [OF inj]) (use assms(2) in auto)
  then show "set (map fst (remove1 (i, c) xs)) = set (map fst xs) - {i}" by (simp add: s)
qed

lemma claims_ok_refuse:
  assumes "claims_ok t w" and "(i, c) \<in> set (iw_claims w)"
  shows "claims_ok t (w\<lparr>iw_claims := remove1 (i, c) (iw_claims w)\<rparr>)" (is "claims_ok t ?w")
proof -
  have d: "distinct (map fst (iw_claims w))" using assms(1) by (simp add: claims_ok_def claimed_ids_def)
  note rm = remove_claim_ids [OF d assms(2)]
  have sub: "set (claimed_ids ?w) \<subseteq> set (claimed_ids w)" using rm(2) by (auto simp: claimed_ids_def)
  have "distinct (claimed_ids ?w)" using assms(1) rm by (auto simp: claims_ok_def claimed_ids_def)
  moreover have "\<forall>j\<in>set (claimed_ids ?w). \<exists>x\<in>set (it_intents t). nt_id x = j \<and> started (nt_status x)"
    using assms(1) sub unfolding claims_ok_def by blast
  moreover have "\<forall>(j, a)\<in>set (iw_claims ?w). \<forall>x\<in>set (it_intents t). nt_id x = j \<longrightarrow> a < nt_expiresAt x"
    using assms(1) set_remove1_subset [of "(i, c)" "iw_claims w"] unfolding claims_ok_def by fastforce
  ultimately show ?thesis using assms(1) by (simp add: claims_ok_def)
qed

lemma inv_refuse:
  assumes i: "intent_inv w" and c: "(i, c) \<in> set (iw_claims w)"
  shows "intent_inv (w\<lparr>iw_claims := remove1 (i, c) (iw_claims w), iw_tables := finish_intent i failure now (iw_tables w)\<rparr>)"
    (is "intent_inv (w\<lparr>iw_claims := ?cs, iw_tables := ?t\<rparr>)")
proof -
  have e: "evolves (iw_tables w) ?t" by (rule evolves_finish)
  have "claims_ok ?t (w\<lparr>iw_claims := ?cs\<rparr>)"
    using claims_ok_refuse [OF claims_ok_evolves [OF e] c] i by (simp add: intent_inv_def)
  then have "claims_ok ?t (w\<lparr>iw_claims := ?cs, iw_tables := ?t\<rparr>)"
    using claims_ok_cong [of "w\<lparr>iw_claims := ?cs, iw_tables := ?t\<rparr>" "w\<lparr>iw_claims := ?cs\<rparr>" ?t] by simp
  then show ?thesis using i tables_ok_evolves [OF e] checked_ok_evolves [OF e] by (simp add: intent_inv_def)
qed

lemma revalidated_digest:
  assumes "revalidateApprovedIntentForRelease env ps now x (Some r) amb = Inr auth"
  shows "ar_boundArgumentDigest r = Some (nt_argumentDigest x)" and "ne_digest env (nt_arguments x) = nt_argumentDigest x"
  using assms by (simp_all add: revalidateApprovedIntentForRelease_def split: if_splits)

lemma run_is_good:
  assumes i: "intent_inv w" and c: "(i, c) \<in> set (iw_claims w)" and x: "find (\<lambda>x. nt_id x = i) (it_intents (iw_tables w)) = Some x"
    and r: "winning_approval i (iw_tables w) = Some r"
    and v: "revalidateApprovedIntentForRelease env ps now x (Some r) amb = Inr auth"
  shows "good_run \<lparr>rn_intent = x, rn_approval = r, rn_claimedAt = c\<rparr>"
proof -
  note x' = find_SomeD [OF x] and r' = find_SomeD [OF r [unfolded winning_approval_def]]
  have "c < nt_expiresAt x" using i c x' by (auto simp: intent_inv_def claims_ok_def)
  moreover have "self_level (iw_tables w) r (ar_decidedAssuranceLevel r)" using i r' by (simp add: intent_inv_def tables_ok_def)
  ultimately show ?thesis using x' r' revalidated_digest [OF v] by (auto simp: good_run_def self_level_def)
qed

lemma inv_run:
  assumes i: "intent_inv w" and c: "(i, c) \<in> set (iw_claims w)" and g: "good_run rn" and n: "nt_id (rn_intent rn) = i"
  shows "intent_inv (w\<lparr>iw_claims := remove1 (i, c) (iw_claims w), iw_runs := iw_runs w @ [rn]\<rparr>)" (is "intent_inv ?w")
proof -
  have cl: "claims_ok (iw_tables w) w" using i by (simp add: intent_inv_def)
  have "distinct (map fst (iw_claims w))" using cl by (simp add: claims_ok_def claimed_ids_def)
  note rm = remove_claim_ids [OF this c]
  have ic: "i \<in> set (map fst (iw_claims w))" using c by force
  have d: "distinct (claimed_ids w)" using cl by (simp add: claims_ok_def)
  have ids: "set (claimed_ids ?w) = set (claimed_ids w)" using rm(2) ic n by (auto simp: claimed_ids_def)
  have "distinct (claimed_ids ?w)" using d rm ic n by (auto simp: claimed_ids_def)
  moreover have "\<forall>j\<in>set (claimed_ids ?w). \<exists>x\<in>set (it_intents (iw_tables w)). nt_id x = j \<and> started (nt_status x)"
    using cl unfolding ids claims_ok_def by blast
  moreover have "\<forall>(j, a)\<in>set (iw_claims ?w). \<forall>x\<in>set (it_intents (iw_tables w)). nt_id x = j \<longrightarrow> a < nt_expiresAt x"
    using claims_ok_refuse [OF cl c] by (simp add: claims_ok_def)
  ultimately have "claims_ok (iw_tables w) ?w" using cl g by (simp add: claims_ok_def)
  then show ?thesis using i by (simp add: intent_inv_def)
qed

section \<open>Reachable worlds\<close>

lemma intent_step_inv: "intent_step w w' \<Longrightarrow> intent_inv w \<Longrightarrow> intent_inv w'"
proof (induction rule: intent_step.induct)
  case (run i c w x r env ps now amb auth)
  with run_is_good [OF run.prems run.hyps(1-4)] find_SomeD [OF run.hyps(2)] show ?case
    by (intro inv_run) simp_all
next
  case (decide dn w now won t)
  then show ?case by (intro inv_decide)
next
  case (fan_in dn w i now)
  show ?case using intent_inv_evolves [OF fan_in.prems evolves_fan_in subset_refl] by simp
next
  case (fan_in_fails dn w)
  show ?case using intent_inv_evolves [OF fan_in_fails.prems tables_evolve_refl subset_refl] by simp
next
  case (report r w rowId userId)
  show ?case using intent_inv_evolves [OF report.prems evolves_report subset_refl] by simp
qed (simp_all add: inv_create_intent inv_check inv_claim inv_refuse intent_inv_tables evolves_cancel evolves_finish evolves_reap evolves_reap_stale)

interpretation intents: step_invariant intent_step intent_inv
  by unfold_locales (rule intent_step_inv)

text \<open>A closed intent stays closed with the status it has.\<close>

definition closed_as :: "id \<Rightarrow> intent_status \<Rightarrow> intent_tables \<Rightarrow> bool" where
  "closed_as i s t = (closed_status s \<and> (\<exists>x\<in>set (it_intents t). nt_id x = i \<and> nt_status x = s))"

lemma closed_evolves: "evolves t t' \<Longrightarrow> closed_as i s t \<Longrightarrow> closed_as i s t'"
  using evolves_rows(2) [of t t'] unfolding closed_as_def intent_kept_def by metis

lemma closed_create:
  assumes "closed_as i s t"
  shows "closed_as i s (snd (createActionIntent env d requesterId partnerId org input now t amb))"
  using create_extends [of env d requesterId partnerId org input now t amb] assms
  by (auto simp: closed_as_def extends_def)

lemma closed_step: "intent_step w w' \<Longrightarrow> closed_as i s (iw_tables w) \<Longrightarrow> closed_as i s (iw_tables w')"
proof (induction rule: intent_step.induct)
  case (claim j now w t)
  with closed_evolves [OF evolves_claim [of "iw_tables w" j now]] show ?case by simp
next
  case (decide dn w now won t)
  with decide_row_intents(1) [OF decide.hyps(2)] show ?case by (simp add: closed_as_def)
qed (simp_all add: closed_create closed_evolves [OF evolves_fan_in] closed_evolves [OF evolves_report]
       closed_evolves [OF evolves_cancel] closed_evolves [OF evolves_finish] closed_evolves [OF evolves_reap]
       closed_evolves [OF evolves_reap_stale])

interpretation closed_intents: step_invariant intent_step "\<lambda>w. closed_as i s (iw_tables w)" for i s
  by unfold_locales (rule closed_step)

lemma closed_not_claimed:
  assumes "intent_inv w" and "closed_as i s (iw_tables w)"
  shows "i \<notin> set (claimed_ids w)"
proof
  assume "i \<in> set (claimed_ids w)"
  with assms(1) obtain y where y: "y \<in> set (it_intents (iw_tables w))" "nt_id y = i" "started (nt_status y)"
    unfolding intent_inv_def claims_ok_def by blast
  from assms(2) obtain x where x: "x \<in> set (it_intents (iw_tables w))" "nt_id x = i" "closed_status (nt_status x)"
    by (auto simp: closed_as_def)
  have "x = y" using same_id_same_row [OF _ x(1) y(1)] assms(1) x(2) y(2) by (simp add: intent_inv_def)
  with x(3) y(3) show False by (auto simp: started_def closed_status_def)
qed

definition empty_intent_world :: intent_world where
  "empty_intent_world =
     \<lparr>iw_tables = \<lparr>it_intents = [], it_approvals = [], it_outbox = []\<rparr>, iw_checked = {}, iw_decided = {}, iw_claims = [], iw_runs = []\<rparr>"

lemma empty_inv: "intent_inv empty_intent_world"
  by (simp add: intent_inv_def empty_intent_world_def tables_ok_def claims_ok_def claimed_ids_def)

section \<open>A sample release\<close>

definition demo_input :: intent_input where
  "demo_input = \<lparr>ii_toolName = ''execute_command'', ii_arguments = JObj [], ii_source = ChatSource, ii_idempotencyKey = None, ii_binding = None\<rparr>"

definition demo_created :: intent_tables where
  "demo_created = snd (createActionIntent demo_intent_env demo_intent_db (sample_id CHR ''1'') (Some (sample_id CHR ''a''))
     (Inr (sample_id CHR ''b'')) demo_input 0 (iw_tables empty_intent_world) None)"

definition demo_decided :: intent_tables where
  "demo_decided = snd (decide_row [] (sample_id CHR ''2'') True (Some 1) 10 demo_created)"

definition demo_approved :: intent_tables where
  "demo_approved = snd (intent_fan_in ''intent'' [] (sample_id CHR ''2'') True 20 demo_decided)"

definition demo_claimed :: intent_tables where
  "demo_claimed = snd (claim_intent ''intent'' 30 demo_approved)"

definition demo_decision :: decision where
  "demo_decision = \<lparr>dn_row = [], dn_user = sample_id CHR ''2'', dn_approve = True, dn_level = Some 1, dn_intent = Some ''intent''\<rparr>"

definition demo_intent :: action_intent where
  "demo_intent = hd (it_intents demo_claimed)"

definition demo_approval :: approval_request where
  "demo_approval = hd (it_approvals demo_claimed)"

definition demo_released :: intent_world where
  "demo_released = empty_intent_world
     \<lparr>iw_tables := demo_claimed, iw_runs := [\<lparr>rn_intent = demo_intent, rn_approval = demo_approval, rn_claimedAt = 30\<rparr>]\<rparr>"

lemma demo_facts:
  "decide_checks demo_ps 5 (sample_id CHR ''2'') (Some (sample_id CHR ''a'')) [] True demo_created None = Inr (Some (hd (it_intents demo_created)))"
  "nt_id (hd (it_intents demo_created)) = ''intent''"
  "assurance_ok (sample_id CHR ''2'') True (Some (hd (it_intents demo_created))) (Some 1)"
  "fst (decide_row [] (sample_id CHR ''2'') True (Some 1) 10 demo_created)" "fst (claim_intent ''intent'' 30 demo_approved)"
  "find (\<lambda>x. nt_id x = ''intent'') (it_intents demo_claimed) = Some demo_intent" "winning_approval ''intent'' demo_claimed = Some demo_approval"
  "revalidateApprovedIntentForRelease demo_intent_env demo_ps 40 demo_intent (Some demo_approval) None
     = Inr \<lparr>gs_userId = sample_id CHR ''1'', gs_partnerId = Some (sample_id CHR ''a''), gs_orgId = Some (sample_id CHR ''b''),
            gs_token = Some (Some (sample_id CHR ''c''))\<rparr>"
  by code_simp+

lemma demo_decide_won:
  "decide_row [] (sample_id CHR ''2'') True (Some 1) 10 demo_created = (True, demo_decided)"
  "claim_intent ''intent'' 30 demo_approved = (True, demo_claimed)"
  using demo_facts(4,5) by (simp_all add: prod_eq_iff demo_decided_def demo_claimed_def)

lemma demo_release_reachable: "intent_step\<^sup>*\<^sup>* empty_intent_world demo_released"
proof -
  let ?w1 = "empty_intent_world\<lparr>iw_tables := demo_created\<rparr>"
  let ?w2 = "?w1\<lparr>iw_checked := insert demo_decision (iw_checked ?w1)\<rparr>"
  let ?w3 = "?w2\<lparr>iw_tables := demo_decided, iw_checked := iw_checked ?w2 - {demo_decision}, iw_decided := insert demo_decision (iw_decided ?w2)\<rparr>"
  let ?w4 = "?w3\<lparr>iw_tables := demo_approved, iw_decided := iw_decided ?w3 - {demo_decision}\<rparr>"
  let ?w5 = "?w4\<lparr>iw_tables := demo_claimed, iw_claims := (''intent'', 30) # iw_claims ?w4\<rparr>"
  have "inj (\<lambda>n. replicate n CHR ''a'')" by (rule injI) (metis length_replicate)
  then have "fresh_ids demo_intent_env (iw_tables empty_intent_world)"
    by (simp add: fresh_ids_def demo_intent_env_def empty_intent_world_def)
  then have s1: "intent_step empty_intent_world ?w1" unfolding demo_created_def by (rule intent_step.create)
  have s2: "intent_step ?w1 ?w2"
    using intent_step.check [of demo_ps 5 "sample_id CHR ''2''" "Some (sample_id CHR ''a'')" "[]" True ?w1 None _ "Some 1"] demo_facts(1-3)
    by (simp add: demo_decision_def)
  have s3: "intent_step ?w2 ?w3"
    using intent_step.decide [of demo_decision ?w2 10 True demo_decided] demo_decide_won(1) by (simp add: demo_decision_def)
  have s4: "intent_step ?w3 ?w4"
    using intent_step.fan_in [of demo_decision ?w3 "''intent''" 20] by (simp add: demo_decision_def demo_approved_def)
  have s5: "intent_step ?w4 ?w5" using intent_step.claim [of "''intent''" 30 ?w4 demo_claimed] demo_decide_won(2) by simp
  have s6: "intent_step ?w5 demo_released"
    using intent_step.run [of "''intent''" 30 ?w5 demo_intent demo_approval] demo_facts(6-8)
    by (simp add: demo_released_def empty_intent_world_def)
  have "intent_step\<^sup>*\<^sup>* empty_intent_world ?w3"
    by (rule converse_rtranclp_into_rtranclp [OF s1 converse_rtranclp_into_rtranclp [OF s2 r_into_rtranclp [of intent_step, OF s3]]])
  moreover have "intent_step\<^sup>*\<^sup>* ?w3 demo_released"
    by (rule converse_rtranclp_into_rtranclp [OF s4 converse_rtranclp_into_rtranclp [OF s5 r_into_rtranclp [of intent_step, OF s6]]])
  ultimately show ?thesis by (rule rtranclp_trans)
qed

section \<open>Properties\<close>

text \<open>C2: An action runs at most once, and only as it was approved. In every state that intents, decisions, reports,
  cancellations, claims, releases and the reapers can reach from empty tables, in any interleaving, no two tool
  calls that were started belong to the same intent. Each of them was claimed before the intent expired, under an
  approved row of that intent that is bound to the digest of its arguments; if the requester approved it, then
  with an assurance level of at least 3. An intent that is rejected, cancelled or expired in such a state has not
  run, keeps that status, and does not run in any state that is reached from there.\<close>

theorem executed_once_and_approved:
  assumes "intent_step\<^sup>*\<^sup>* empty_intent_world w" and "intent_step\<^sup>*\<^sup>* w w'"
  shows "distinct (map (nt_id \<circ> rn_intent) (iw_runs w'))
    \<and> list_all (\<lambda>rn. rn_claimedAt rn < nt_expiresAt (rn_intent rn) \<and> ar_status (rn_approval rn) = AApproved
        \<and> ar_intentId (rn_approval rn) = Some (nt_id (rn_intent rn))
        \<and> ar_boundArgumentDigest (rn_approval rn) = Some (nt_argumentDigest (rn_intent rn))
        \<and> (nt_requestedByUserId (rn_intent rn) = Some (ar_userId (rn_approval rn))
             \<longrightarrow> (\<exists>l. ar_decidedAssuranceLevel (rn_approval rn) = Some l \<and> 3 \<le> l))
        \<and> list_ex (\<lambda>x. nt_id x = nt_id (rn_intent rn) \<and> nt_status x \<in> {IExecuting, ICompleted, IFailed}) (it_intents (iw_tables w')))
        (iw_runs w')
    \<and> (\<forall>x\<in>set (it_intents (iw_tables w)). nt_status x \<in> {IRejected, ICancelled, IExpired} \<longrightarrow>
         nt_id x \<notin> set (map (nt_id \<circ> rn_intent) (iw_runs w'))
         \<and> (\<exists>y\<in>set (it_intents (iw_tables w')). nt_id y = nt_id x \<and> nt_status y = nt_status x))"
proof -
  have "intent_step\<^sup>*\<^sup>* empty_intent_world w'" using assms by (rule rtranclp_trans)
  then have inv: "intent_inv w'" by (rule intents.reachable_keeps) (rule empty_inv)
  then have d: "distinct (claimed_ids w')" and g: "\<forall>rn\<in>set (iw_runs w'). good_run rn"
    and e: "\<forall>i\<in>set (claimed_ids w'). \<exists>x\<in>set (it_intents (iw_tables w')). nt_id x = i \<and> started (nt_status x)"
    by (simp_all add: intent_inv_def claims_ok_def)
  have l: "3 \<le> level_of a \<longleftrightarrow> (\<exists>l. a = Some l \<and> 3 \<le> l)" for a by (cases a) (simp_all add: level_of_def)
  have m: "nt_id (rn_intent rn) \<in> set (claimed_ids w')" if "rn \<in> set (iw_runs w')" for rn using that by (simp add: claimed_ids_def)
  have c: "nt_id x \<notin> set (map (nt_id \<circ> rn_intent) (iw_runs w'))
      \<and> (\<exists>y\<in>set (it_intents (iw_tables w')). nt_id y = nt_id x \<and> nt_status y = nt_status x)"
    if "x \<in> set (it_intents (iw_tables w))" "nt_status x \<in> {IRejected, ICancelled, IExpired}" for x
  proof -
    have "closed_as (nt_id x) (nt_status x) (iw_tables w)"
      using that unfolding closed_as_def closed_status_def by blast
    with assms(2) have "closed_as (nt_id x) (nt_status x) (iw_tables w')" by (rule closed_intents.reachable_keeps)
    with closed_not_claimed [OF inv this] show ?thesis by (auto simp: closed_as_def claimed_ids_def)
  qed
  show ?thesis
  proof (intro conjI)
    show "distinct (map (nt_id \<circ> rn_intent) (iw_runs w'))" using d by (simp add: claimed_ids_def)
  qed (use g e m c in \<open>simp_all add: list_all_iff list_ex_iff good_run_def l started_def\<close>)
qed

theorem executed_once_and_approved_witness:
  "iw_runs demo_released \<noteq> [] \<and> rn_claimedAt (hd (iw_runs demo_released)) < nt_expiresAt demo_intent
   \<and> ar_status demo_approval = AApproved \<and> ar_boundArgumentDigest demo_approval = Some (nt_argumentDigest demo_intent)"
  using executed_once_and_approved [OF demo_release_reachable rtranclp.rtrancl_refl] by (simp add: demo_released_def)

end
