(* ===== verification/Js_Number.thy ===== *)
theory Js_Number
  imports Js_Text "HOL-Library.Log_Nat"
begin

text \<open>
  Numbers of JavaScript as far as the money arithmetic uses them: finite binary64 values as rationals, with
  every result rounded to 53 significant bits, ties to even. \<open>None\<close> is NaN. Magnitudes stay far from the
  limits of the format, so infinities and subnormal numbers do not occur, and neither does the sign of zero.
\<close>

section \<open>Rounding\<close>

definition binary_exponent :: "rat \<Rightarrow> int" where
  "binary_exponent x =
     (let (n, d) = quotient_of x; k = bitlen n - bitlen d in if 2 powi k \<le> x then k else k - 1)"

definition round_half_even :: "rat \<Rightarrow> int" where
  "round_half_even x =
     (let f = \<lfloor>x\<rfloor>; r = x - of_int f in if r < 1 / 2 then f else if 1 / 2 < r then f + 1 else if even f then f else f + 1)"

definition fl :: "rat \<Rightarrow> rat" where
  "fl x = (if x = 0 then 0
           else let u = 2 powi (binary_exponent \<bar>x\<bar> - 52) in u * of_int (round_half_even (x / u)))"


section \<open>Operations\<close>

type_synonym jsnum = "rat option"

definition js_add :: "jsnum \<Rightarrow> jsnum \<Rightarrow> jsnum" where
  "js_add a b = (case (a, b) of (Some x, Some y) \<Rightarrow> Some (fl (x + y)) | _ \<Rightarrow> None)"

definition js_sub :: "jsnum \<Rightarrow> jsnum \<Rightarrow> jsnum" where
  "js_sub a b = (case (a, b) of (Some x, Some y) \<Rightarrow> Some (fl (x - y)) | _ \<Rightarrow> None)"

definition js_mul :: "jsnum \<Rightarrow> jsnum \<Rightarrow> jsnum" where
  "js_mul a b = (case (a, b) of (Some x, Some y) \<Rightarrow> Some (fl (x * y)) | _ \<Rightarrow> None)"

text \<open>Division by a number that is not zero.\<close>

definition js_div :: "jsnum \<Rightarrow> jsnum \<Rightarrow> jsnum" where
  "js_div a b = (case (a, b) of (Some x, Some y) \<Rightarrow> Some (fl (x / y)) | _ \<Rightarrow> None)"

text \<open>Comparisons are false on NaN.\<close>

definition js_le :: "jsnum \<Rightarrow> jsnum \<Rightarrow> bool" where
  "js_le a b = (case (a, b) of (Some x, Some y) \<Rightarrow> x \<le> y | _ \<Rightarrow> False)"

definition js_less :: "jsnum \<Rightarrow> jsnum \<Rightarrow> bool" where
  "js_less a b = (case (a, b) of (Some x, Some y) \<Rightarrow> x < y | _ \<Rightarrow> False)"

definition math_floor :: "jsnum \<Rightarrow> jsnum" where
  "math_floor a = map_option (\<lambda>x. of_int \<lfloor>x\<rfloor>) a"

text \<open>\<open>Math.round\<close> rounds the exact value, ties up.\<close>

definition math_round :: "jsnum \<Rightarrow> jsnum" where
  "math_round a = map_option (\<lambda>x. of_int \<lfloor>x + 1 / 2\<rfloor>) a"

definition js_min :: "jsnum \<Rightarrow> jsnum \<Rightarrow> jsnum" where
  "js_min a b = (case (a, b) of (Some x, Some y) \<Rightarrow> Some (min x y) | _ \<Rightarrow> None)"

section \<open>Texts\<close>

text \<open>\<open>Number(s)\<close> of decimal literals without an exponent, which is how numeric columns and \<open>toFixed\<close> write them.\<close>

definition digits_value :: "string \<Rightarrow> nat option" where
  "digits_value s = (if s = [] then Some 0 else parse_dec s)"

definition unsigned_value :: "string \<Rightarrow> rat option" where
  "unsigned_value s =
     (case split_str ''.'' s of
        [i] \<Rightarrow> map_option of_nat (parse_dec i)
      | [i, f] \<Rightarrow>
          if i = [] \<and> f = [] then None
          else (case (digits_value i, digits_value f) of
                  (Some a, Some b) \<Rightarrow> Some (of_nat a + of_nat b / 10 ^ length f)
                | _ \<Rightarrow> None)
      | _ \<Rightarrow> None)"

definition decimal_value :: "string \<Rightarrow> rat option" where
  "decimal_value s =
     (case s of
        [] \<Rightarrow> Some 0
      | c # cs \<Rightarrow> if c = CHR ''-'' then map_option uminus (unsigned_value cs)
                  else if c = CHR ''+'' then unsigned_value cs else unsigned_value s)"

definition js_Number :: "string \<Rightarrow> jsnum" where
  "js_Number s = map_option fl (decimal_value s)"

text \<open>\<open>x.toFixed(f)\<close> below \<open>10\<^sup>2\<^sup>1\<close>: the nearest multiple, the larger of two.\<close>

definition fixed_digits :: "nat \<Rightarrow> nat \<Rightarrow> string" where
  "fixed_digits f n =
     (let fraction = dec_string (n mod 10 ^ f)
      in dec_string (n div 10 ^ f) @ (if f = 0 then [] else ''.'' @ replicate (f - length fraction) CHR ''0'' @ fraction))"

definition to_fixed :: "nat \<Rightarrow> rat \<Rightarrow> string" where
  "to_fixed f x =
     (if x < 0 then CHR ''-'' # fixed_digits f (nat \<lfloor>- x * 10 ^ f + 1 / 2\<rfloor>)
      else fixed_digits f (nat \<lfloor>x * 10 ^ f + 1 / 2\<rfloor>))"

definition js_toFixed :: "nat \<Rightarrow> jsnum \<Rightarrow> string" where
  "js_toFixed f a = (case a of None \<Rightarrow> ''NaN'' | Some x \<Rightarrow> to_fixed f x)"

section \<open>Rounding is accurate\<close>

lemma bitlen_powi:
  assumes "0 < n"
  shows "2 powi (bitlen n - 1) \<le> (of_int n :: rat)" and "(of_int n :: rat) < 2 powi bitlen n"
proof -
  have b: "1 \<le> bitlen n" using assms bitlen_eq_zero_iff [of n] bitlen_nonneg [of n] by linarith
  have "of_int (2 ^ nat (bitlen n - 1)) \<le> (of_int n :: rat)" "(of_int n :: rat) < of_int (2 ^ nat (bitlen n))"
    using bitlen_bounds [OF assms] unfolding of_int_le_iff of_int_less_iff by blast+
  then show "2 powi (bitlen n - 1) \<le> (of_int n :: rat)" "(of_int n :: rat) < 2 powi bitlen n"
    using b by (simp_all add: power_int_def)
qed

lemma binary_exponent_bounds:
  assumes "0 < x"
  shows "2 powi binary_exponent x \<le> x" and "x < 2 powi (binary_exponent x + 1)"
proof -
  obtain n d where q: "quotient_of x = (n, d)" by (cases "quotient_of x")
  have x: "x = of_int n / of_int d" and d: "0 < d" using quotient_of_div [OF q] quotient_of_denom_pos [OF q] by simp_all
  have n: "0 < n" using assms d by (simp add: x zero_less_divide_iff)
  let ?k = "bitlen n - bitlen d"
  have "2 powi (bitlen n - 1) / 2 powi bitlen d \<le> x"
    unfolding x using bitlen_powi [OF n] bitlen_powi [OF d] d n by (intro frac_le) simp_all
  then have lo: "2 powi (?k - 1) \<le> x" by (simp add: power_int_diff power_int_add algebra_simps)
  have "x < 2 powi bitlen n / 2 powi (bitlen d - 1)"
    unfolding x using bitlen_powi [OF n] bitlen_powi [OF d] d n by (intro frac_less) simp_all
  then have hi: "x < 2 powi (?k + 1)" by (simp add: power_int_diff power_int_add algebra_simps)
  show "2 powi binary_exponent x \<le> x" "x < 2 powi (binary_exponent x + 1)"
    using lo hi by (auto simp: binary_exponent_def q Let_def)
qed

lemma round_half_even_error: "\<bar>of_int (round_half_even x) - x\<bar> \<le> 1 / 2"
proof -
  obtain f r where x: "x = of_int f + r" "f = \<lfloor>x\<rfloor>" "0 \<le> r" "r < 1"
    using that [of "\<lfloor>x\<rfloor>" "x - of_int \<lfloor>x\<rfloor>"] by linarith
  have "round_half_even x = (if r < 1 / 2 then f else if 1 / 2 < r then f + 1 else if even f then f else f + 1)"
    using x by (simp add: round_half_even_def Let_def)
  with x show ?thesis by (auto simp: abs_if)
qed

lemma round_half_even_of_int [simp]: "round_half_even (of_int n) = n"
  by (simp add: round_half_even_def)

lemma fl_0 [simp]: "fl 0 = 0"
  by (simp add: fl_def)

text \<open>The relative error of an operation is at most half a unit in the last place.\<close>

lemma fl_error: "\<bar>fl x - x\<bar> \<le> \<bar>x\<bar> / 2 ^ 53"
proof (cases "x = 0")
  case False
  define e u where "e = binary_exponent \<bar>x\<bar>" and "u = (2 :: rat) powi (e - 52)"
  have u: "0 < u" by (simp add: u_def)
  have "fl x - x = u * (of_int (round_half_even (x / u)) - x / u)"
    using False u by (simp add: fl_def e_def [symmetric] u_def [symmetric] field_simps)
  then have "\<bar>fl x - x\<bar> = u * \<bar>of_int (round_half_even (x / u)) - x / u\<bar>" using u by (simp add: abs_mult)
  also have "\<dots> \<le> u * (1 / 2)" using round_half_even_error [of "x / u"] u by (intro mult_left_mono) simp_all
  also have "u * (1 / 2) = 2 powi e / 2 ^ 53" by (simp add: u_def power_int_diff)
  also have "\<dots> \<le> \<bar>x\<bar> / 2 ^ 53"
    using binary_exponent_bounds(1) [of "\<bar>x\<bar>"] False by (intro divide_right_mono) (simp_all add: e_def)
  finally show ?thesis .
qed simp

text \<open>Integers up to \<open>2\<^sup>5\<^sup>3\<close> are exact.\<close>

lemma fl_of_int:
  assumes "\<bar>n\<bar> \<le> 2 ^ 53"
  shows "fl (of_int n) = of_int n"
proof (cases "n = 0")
  case False
  define e u where "e = binary_exponent \<bar>of_int n\<bar>" and "u = (2 :: rat) powi (e - 52)"
  have u: "0 < u" by (simp add: u_def)
  have lo: "2 powi e \<le> (of_int \<bar>n\<bar> :: rat)" using binary_exponent_bounds(1) [of "\<bar>of_int n\<bar>"] False by (simp add: e_def)
  also have "\<dots> \<le> of_int (2 ^ 53)" using assms unfolding of_int_le_iff .
  finally have "(2 :: rat) powi e < 2 powi 54" by simp
  then have e: "e \<le> 53" using power_int_increasing [of 54 e "2 :: rat"] by linarith
  have "\<exists>m. (of_int n :: rat) / u = of_int m"
  proof (cases "e = 53")
    case True
    with lo have "of_int (2 ^ 53) \<le> (of_int \<bar>n\<bar> :: rat)" by simp
    then have "2 ^ 53 \<le> \<bar>n\<bar>" unfolding of_int_le_iff .
    with assms have "n = 2 * (2 ^ 52) \<or> n = 2 * (- (2 ^ 52))" by auto
    then obtain m where "n = 2 * m" by blast
    then have "(of_int n :: rat) / u = of_int m" using True by (simp add: u_def)
    then show ?thesis ..
  next
    case False
    have "52 - e = int (nat (52 - e))" using False e by simp
    then have "inverse u = of_int (2 ^ nat (52 - e))"
      unfolding u_def by (metis (no_types, lifting) minus_diff_eq of_int_numeral of_int_power power_int_minus power_int_of_nat)
    then have "(of_int n :: rat) / u = of_int (n * 2 ^ nat (52 - e))" by (simp add: divide_inverse)
    then show ?thesis ..
  qed
  then obtain m where "(of_int n :: rat) / u = of_int m" ..
  with u have "u * of_int (round_half_even (of_int n / u)) = of_int n" by (simp add: field_simps)
  with False show ?thesis by (simp add: fl_def Let_def e_def [symmetric] u_def [symmetric])
qed simp


section \<open>Texts and numbers\<close>

lemma split_str_plain: "c \<notin> set s \<Longrightarrow> split_str [c] s = [s]"
  by (induction s) (auto simp: startsWith_iff_prefix)

lemma split_str_sep: "c \<notin> set a \<Longrightarrow> split_str [c] (a @ c # b) = a # split_str [c] b"
  by (induction a) (auto simp: startsWith_iff_prefix)

lemma dec_string_no_point: "CHR ''.'' \<notin> set (dec_string n)" "CHR ''-'' \<notin> set (dec_string n)" "CHR ''+'' \<notin> set (dec_string n)"
  by (auto dest!: dec_string_chars simp: is_dec_digit_def)

lemma parse_dec_zeros: "parse_dec (replicate k CHR ''0'' @ dec_string n) = Some n"
proof -
  have "foldl (\<lambda>n c. 10 * n + (of_char c - 48)) 0 (replicate k CHR ''0'') = (0 :: nat)" by (induction k) simp_all
  moreover have "list_all is_dec_digit (replicate k CHR ''0'')" by (simp add: list_all_iff is_dec_digit_def)
  ultimately show ?thesis by (simp add: parse_dec_def list_all_dec_string foldl_dec_string)
qed

lemma unsigned_fixed_digits:
  assumes "0 < f"
  shows "unsigned_value (fixed_digits f n) = Some (of_nat n / 10 ^ f)"
proof -
  define i r where "i = n div 10 ^ f" and "r = n mod 10 ^ f"
  define z where "z = replicate (f - length (dec_string r)) CHR ''0'' @ dec_string r"
  have len: "length z = f" using length_dec_string [of r f] assms by (simp add: z_def r_def)
  have "CHR ''.'' \<notin> set z" using dec_string_no_point by (auto simp: z_def)
  then have split: "split_str ''.'' (fixed_digits f n) = [dec_string i, z]"
    using assms by (simp add: fixed_digits_def Let_def z_def i_def r_def split_str_sep [OF dec_string_no_point(1)] split_str_plain)
  have "z \<noteq> []" using len assms by auto
  moreover have "parse_dec z = Some r" unfolding z_def by (rule parse_dec_zeros)
  ultimately have "unsigned_value (fixed_digits f n) = Some (of_nat i + of_nat r / 10 ^ f)"
    unfolding unsigned_value_def split by (simp add: digits_value_def len)
  moreover have "n = i * 10 ^ f + r" unfolding i_def r_def by (rule div_mult_mod_eq [symmetric])
  then have "of_nat n = (of_nat i * 10 ^ f + of_nat r :: rat)" by simp
  ultimately show ?thesis by (simp add: add_divide_distrib)
qed

text \<open>The text of an amount of \<open>c\<close> units of the last digit.\<close>

definition fixed_text :: "nat \<Rightarrow> int \<Rightarrow> string" where
  "fixed_text f c = (if c < 0 then CHR ''-'' # fixed_digits f (nat (- c)) else fixed_digits f (nat c))"

lemma fixed_digits_head: "\<exists>d ds. fixed_digits f n = d # ds \<and> is_dec_digit d"
proof -
  obtain d ds where "dec_string (n div 10 ^ f) = d # ds" by (cases "dec_string (n div 10 ^ f)") simp_all
  moreover have "is_dec_digit d" using list_all_dec_string [of "n div 10 ^ f"] calculation by simp
  ultimately show ?thesis by (simp add: fixed_digits_def Let_def)
qed

lemma decimal_fixed_text:
  assumes "0 < f"
  shows "decimal_value (fixed_text f c) = Some (of_int c / 10 ^ f)"
proof (cases "c < 0")
  case True
  then show ?thesis by (simp add: fixed_text_def decimal_value_def unsigned_fixed_digits [OF assms])
next
  case False
  obtain d ds where d: "fixed_digits f (nat c) = d # ds" "is_dec_digit d" using fixed_digits_head by blast
  have "d \<noteq> CHR ''-''" "d \<noteq> CHR ''+''" using d(2) by (auto simp: is_dec_digit_def)
  then have "decimal_value (fixed_digits f (nat c)) = unsigned_value (fixed_digits f (nat c))"
    by (simp add: decimal_value_def d(1))
  with False show ?thesis by (simp add: fixed_text_def unsigned_fixed_digits [OF assms])
qed

lemma Number_fixed_text: "0 < f \<Longrightarrow> js_Number (fixed_text f c) = Some (fl (of_int c / 10 ^ f))"
  by (simp add: js_Number_def decimal_fixed_text)

lemma fixed_digits_inj: "0 < f \<Longrightarrow> fixed_digits f m = fixed_digits f n \<longleftrightarrow> m = n"
proof
  assume "0 < f" "fixed_digits f m = fixed_digits f n"
  then have "(of_nat m :: rat) / 10 ^ f = of_nat n / 10 ^ f" by (metis option.inject unsigned_fixed_digits)
  then show "m = n" by simp
qed simp

lemma fixed_text_inj: "0 < f \<Longrightarrow> fixed_text f c = fixed_text f c' \<longleftrightarrow> c = c'"
  by (metis decimal_fixed_text divide_cancel_right of_int_eq_iff option.inject power_not_zero zero_neq_numeral)

section \<open>Nearest integers\<close>

lemma floor_half_near:
  fixes x :: rat
  assumes "\<bar>x - of_int c\<bar> < 1 / 2"
  shows "\<lfloor>x + 1 / 2\<rfloor> = c"
  using assms by (intro floor_unique) linarith+

lemma fl_pos_iff: "0 < x \<Longrightarrow> 0 < fl x"
  using fl_error [of x] by (simp add: abs_if split: if_splits)

lemma fl_uminus_sign: "x < 0 \<Longrightarrow> fl x < 0"
  using fl_error [of x] by (simp add: abs_if split: if_splits)

text \<open>\<open>toFixed\<close> of a number close to a multiple of the last digit writes that multiple.\<close>

lemma to_fixed_near:
  assumes "\<bar>x * 10 ^ f - of_int c\<bar> < 1 / 2" and "x < 0 \<longleftrightarrow> c < 0"
  shows "to_fixed f x = fixed_text f c"
proof (cases "c < 0")
  case True
  have "\<lfloor>- x * 10 ^ f + 1 / 2\<rfloor> = - c" using assms(1) by (intro floor_half_near) (simp add: abs_if split: if_splits)
  with True assms(2) show ?thesis by (simp add: to_fixed_def fixed_text_def)
next
  case False
  with assms floor_half_near [OF assms(1)] show ?thesis by (simp add: to_fixed_def fixed_text_def)
qed


section \<open>Error bounds\<close>

text \<open>\<open>a\<close> is \<open>A\<close> up to \<open>k\<close> rounding errors.\<close>

definition near :: "nat \<Rightarrow> rat \<Rightarrow> rat \<Rightarrow> bool" where
  "near k a A = (\<bar>a - A\<bar> \<le> of_nat k / 9000000000000000 * \<bar>A\<bar>)"

lemma near_fl: "near 1 (fl x) x"
proof -
  have "\<bar>x\<bar> / 2 ^ 53 \<le> 1 / 9000000000000000 * \<bar>x\<bar>" by (simp add: field_simps)
  with fl_error [of x] show ?thesis unfolding near_def by simp
qed

lemma near_refl [simp]: "near k a a"
  by (simp add: near_def)

lemma near_mult:
  assumes "near j a A" and "near k b B" and "j * k \<le> 9000000000000000"
  shows "near (j + k + 1) (a * b) (A * B)"
proof -
  let ?E = "1 / 9000000000000000 :: rat"
  define x y where "x = a - A" and "y = b - B"
  have x: "\<bar>x\<bar> \<le> of_nat j * ?E * \<bar>A\<bar>" and y: "\<bar>y\<bar> \<le> of_nat k * ?E * \<bar>B\<bar>" using assms(1,2) by (simp_all add: near_def x_def y_def)
  have "of_nat (j * k) \<le> (of_nat 9000000000000000 :: rat)" using assms(3) unfolding of_nat_le_iff .
  then have jk: "of_nat j * of_nat k * ?E \<le> 1" by simp
  have "a * b - A * B = x * B + A * y + x * y" by (simp add: x_def y_def algebra_simps)
  moreover have "\<bar>x * B + A * y + x * y\<bar> \<le> \<bar>x * B\<bar> + \<bar>A * y\<bar> + \<bar>x * y\<bar>" by linarith
  ultimately have "\<bar>a * b - A * B\<bar> \<le> \<bar>x\<bar> * \<bar>B\<bar> + \<bar>A\<bar> * \<bar>y\<bar> + \<bar>x\<bar> * \<bar>y\<bar>" by (simp only: abs_mult)
  also have "\<dots> \<le> (of_nat j * ?E * \<bar>A\<bar>) * \<bar>B\<bar> + \<bar>A\<bar> * (of_nat k * ?E * \<bar>B\<bar>) + (of_nat j * ?E * \<bar>A\<bar>) * (of_nat k * ?E * \<bar>B\<bar>)"
    using x y by (intro add_mono mult_mono) simp_all
  also have "\<dots> = (of_nat j + of_nat k + of_nat j * of_nat k * ?E) * ?E * (\<bar>A\<bar> * \<bar>B\<bar>)" by (simp add: algebra_simps)
  also have "\<dots> \<le> (of_nat j + of_nat k + 1) * ?E * (\<bar>A\<bar> * \<bar>B\<bar>)"
    using jk by (intro mult_right_mono) simp_all
  finally show ?thesis by (simp add: near_def abs_mult algebra_simps)
qed

lemma near_round:
  assumes "near k a A" and "k \<le> 9000000000000000"
  shows "near (k + 2) (fl a) A"
proof -
  let ?E = "1 / 9000000000000000 :: rat"
  have a: "\<bar>a - A\<bar> \<le> of_nat k * ?E * \<bar>A\<bar>" and f: "\<bar>fl a - a\<bar> \<le> ?E * \<bar>a\<bar>" using assms(1) near_fl [of a] by (simp_all add: near_def)
  have "of_nat k \<le> (of_nat 9000000000000000 :: rat)" using assms(2) unfolding of_nat_le_iff .
  then have "of_nat k * ?E \<le> 1" by simp
  then have "of_nat k * ?E * \<bar>A\<bar> \<le> 1 * \<bar>A\<bar>" by (intro mult_right_mono) simp_all
  with a have "\<bar>a\<bar> \<le> 2 * \<bar>A\<bar>" by linarith
  then have "?E * \<bar>a\<bar> \<le> 2 * ?E * \<bar>A\<bar>" by simp
  with a f have "\<bar>fl a - A\<bar> \<le> of_nat k * ?E * \<bar>A\<bar> + 2 * ?E * \<bar>A\<bar>" by linarith
  then show ?thesis by (simp add: near_def algebra_simps)
qed

lemma near_mono: "near j a A \<Longrightarrow> j \<le> k \<Longrightarrow> near k a A"
proof -
  assume n: "near j a A" and "j \<le> k"
  then have "of_nat j / 9000000000000000 * \<bar>A\<bar> \<le> of_nat k / 9000000000000000 * \<bar>A\<bar>" by (intro mult_right_mono divide_right_mono) simp_all
  with n show "near k a A" unfolding near_def by linarith
qed

end
