(* ===== verification/Money.thy ===== *)
theory Money
  imports Js_Number
begin

text \<open>
  Money as decimal texts and integer cents: services/invoiceMath.ts, services/catalogPricing.ts and, of
  packages/shared/src/utils, quoteMath.ts and depositMath.ts. Numbers are binary64 values (theory \<open>Js_Number\<close>).
\<close>

section \<open>Cents\<close>

definition toCents :: "string option \<Rightarrow> jsnum" where
  "toCents v =
     (case v of
        None \<Rightarrow> Some 0
      | Some s \<Rightarrow> if s = [] then Some 0 else math_round (js_mul (js_Number s) (Some 100)))"

definition fromCents :: "jsnum \<Rightarrow> string" where
  "fromCents cents = js_toFixed 2 (js_div cents (Some 100))"

definition roundHalfUp :: "jsnum \<Rightarrow> jsnum" where
  "roundHalfUp n = math_floor (js_add n (Some (1 / 2)))"

definition computeLineTotal :: "string \<Rightarrow> string \<Rightarrow> string" where
  "computeLineTotal quantity unitPrice =
     fromCents (roundHalfUp (js_mul (js_mul (js_Number quantity) (js_Number unitPrice)) (Some 100)))"

text \<open>The shared module takes a text that is no number as nothing.\<close>

definition toCents_shared :: "string option \<Rightarrow> jsnum" where
  "toCents_shared v =
     (case v of
        None \<Rightarrow> Some 0
      | Some s \<Rightarrow>
          if s = [] then Some 0
          else (case js_Number s of None \<Rightarrow> Some 0 | Some n \<Rightarrow> math_round (js_mul (Some n) (Some 100))))"

section \<open>Invoices\<close>

record totals_line =
  tl_lineTotal :: string
  tl_taxable :: bool
  tl_customerVisible :: bool

record invoice_totals =
  iv_subtotal :: string
  iv_taxTotal :: string
  iv_total :: string

fun totals_loop :: "totals_line list \<Rightarrow> jsnum \<Rightarrow> jsnum \<Rightarrow> jsnum \<times> jsnum" where
  "totals_loop [] subtotalCents taxableCents = (subtotalCents, taxableCents)"
| "totals_loop (l # ls) subtotalCents taxableCents =
     (if \<not> tl_customerVisible l then totals_loop ls subtotalCents taxableCents
      else (let c = toCents (Some (tl_lineTotal l))
            in totals_loop ls (js_add subtotalCents c) (if tl_taxable l then js_add taxableCents c else taxableCents)))"

definition computeInvoiceTotals :: "totals_line list \<Rightarrow> string option \<Rightarrow> invoice_totals" where
  "computeInvoiceTotals lines taxRate =
     (let (subtotalCents, taxableCents) = totals_loop lines (Some 0) (Some 0);
          rate = (case str_or_none taxRate of Some r \<Rightarrow> js_Number r | None \<Rightarrow> Some 0);
          taxCents = roundHalfUp (js_mul taxableCents rate);
          totalCents = js_add subtotalCents taxCents
      in \<lparr>iv_subtotal = fromCents subtotalCents, iv_taxTotal = fromCents taxCents, iv_total = fromCents totalCents\<rparr>)"

definition resolveEffectiveTaxRate :: "bool \<Rightarrow> string option \<Rightarrow> string option \<Rightarrow> string" where
  "resolveEffectiveTaxRate taxExempt orgRate partnerRate =
     (if taxExempt then ''0.00000''
      else js_toFixed 5 (js_Number (case nullish orgRate partnerRate of Some r \<Rightarrow> r | None \<Rightarrow> ''0'')))"

datatype invoice_status = InvDraft | InvSent | InvPartiallyPaid | InvPaid | InvOverdue | InvVoid

text \<open>\<open>dueEnd\<close> is the last second of the due date.\<close>

definition deriveInvoiceStatus ::
  "bool \<Rightarrow> bool \<Rightarrow> string \<Rightarrow> string \<Rightarrow> int option \<Rightarrow> int \<Rightarrow> invoice_status" where
  "deriveInvoiceStatus voided issued invoiceTotal amountPaid dueEnd asOf =
     (if voided then InvVoid
      else if \<not> issued then InvDraft
      else if js_le (js_sub (toCents (Some invoiceTotal)) (toCents (Some amountPaid))) (Some 0) then InvPaid
      else if (case dueEnd of None \<Rightarrow> False | Some t \<Rightarrow> t < asOf) then InvOverdue
      else if js_less (Some 0) (toCents (Some amountPaid)) then InvPartiallyPaid
      else InvSent)"

section \<open>Quotes\<close>

datatype deposit_config = NoDeposit | PercentDeposit jsnum | SelectedLines

datatype deposit_type = TypeNone | TypePercent | TypeSelectedLines

text \<open>\<open>s.trim()\<close> of a text is empty.\<close>

definition blank_text :: "string \<Rightarrow> bool" where
  "blank_text s = list_all (\<lambda>c. of_char c \<in> {9, 10, 11, 12, 13, 32, 160 :: nat}) s"

definition toQuoteDepositConfig :: "deposit_type option \<Rightarrow> string option \<Rightarrow> deposit_config" where
  "toQuoteDepositConfig type percent =
     (case type of
        Some TypePercent \<Rightarrow>
          PercentDeposit (case percent of None \<Rightarrow> None | Some s \<Rightarrow> if blank_text s then None else js_Number s)
      | Some TypeSelectedLines \<Rightarrow> SelectedLines
      | _ \<Rightarrow> NoDeposit)"

datatype quote_recurrence = OneTime | Monthly | Annual

datatype item_type = Hardware | Software | Service | Other

record quote_math_line =
  qm_quantity :: string
  qm_unitPrice :: string
  qm_unitCost :: "string option"
  qm_taxable :: bool
  qm_customerVisible :: bool
  qm_recurrence :: quote_recurrence
  qm_depositEligible :: bool
  qm_itemType :: "item_type option"

record cadence_cents =
  cc_oneTime :: jsnum
  cc_monthly :: jsnum
  cc_annual :: jsnum

definition add_cents :: "quote_recurrence \<Rightarrow> jsnum \<Rightarrow> cadence_cents \<Rightarrow> cadence_cents" where
  "add_cents r c b =
     (case r of
        Monthly \<Rightarrow> b\<lparr>cc_monthly := js_add (cc_monthly b) c\<rparr>
      | Annual \<Rightarrow> b\<lparr>cc_annual := js_add (cc_annual b) c\<rparr>
      | OneTime \<Rightarrow> b\<lparr>cc_oneTime := js_add (cc_oneTime b) c\<rparr>)"

definition zero_cadence :: cadence_cents where
  "zero_cadence = \<lparr>cc_oneTime = Some 0, cc_monthly = Some 0, cc_annual = Some 0\<rparr>"

record quote_sums =
  qs_cadence :: cadence_cents
  qs_taxableBasis :: jsnum
  qs_oneTimeTaxableBasis :: jsnum
  qs_eligibleCents :: jsnum
  qs_eligibleTaxableCents :: jsnum
  qs_cat :: "item_type \<Rightarrow> cadence_cents option"

definition quote_line_cents :: "quote_math_line \<Rightarrow> jsnum" where
  "quote_line_cents l = toCents_shared (Some (computeLineTotal (qm_quantity l) (qm_unitPrice l)))"

definition add_quote_line :: "quote_sums \<Rightarrow> quote_math_line \<Rightarrow> quote_sums" where
  "add_quote_line s l =
     (if \<not> qm_customerVisible l then s
      else (let lineCents = quote_line_cents l;
                oneTime = (qm_recurrence l = OneTime);
                key = (case qm_itemType l of Some k \<Rightarrow> k | None \<Rightarrow> Other);
                bucket = (case qs_cat s key of Some b \<Rightarrow> b | None \<Rightarrow> zero_cadence)
            in \<lparr>qs_cadence = add_cents (qm_recurrence l) lineCents (qs_cadence s),
                qs_taxableBasis = (if qm_taxable l then js_add (qs_taxableBasis s) lineCents else qs_taxableBasis s),
                qs_oneTimeTaxableBasis =
                  (if qm_taxable l \<and> oneTime then js_add (qs_oneTimeTaxableBasis s) lineCents else qs_oneTimeTaxableBasis s),
                qs_eligibleCents =
                  (if qm_depositEligible l \<and> oneTime then js_add (qs_eligibleCents s) lineCents else qs_eligibleCents s),
                qs_eligibleTaxableCents =
                  (if qm_depositEligible l \<and> oneTime \<and> qm_taxable l then js_add (qs_eligibleTaxableCents s) lineCents
                   else qs_eligibleTaxableCents s),
                qs_cat = (qs_cat s)(key \<mapsto> add_cents (qm_recurrence l) lineCents bucket)\<rparr>))"

definition zero_sums :: quote_sums where
  "zero_sums = \<lparr>qs_cadence = zero_cadence, qs_taxableBasis = Some 0, qs_oneTimeTaxableBasis = Some 0,
                qs_eligibleCents = Some 0, qs_eligibleTaxableCents = Some 0, qs_cat = Map.empty\<rparr>"

record category_subtotal =
  cs_category :: item_type
  cs_oneTimeTotal :: string
  cs_monthlyTotal :: string
  cs_annualTotal :: string

record quote_totals =
  qt_subtotal :: string
  qt_taxTotal :: string
  qt_total :: string
  qt_oneTimeTotal :: string
  qt_monthlyRecurringTotal :: string
  qt_annualRecurringTotal :: string
  qt_dueOnAcceptanceTotal :: string
  qt_depositDueTotal :: "string option"
  qt_categoryBreakdown :: "category_subtotal list"

definition category_row :: "quote_sums \<Rightarrow> item_type \<Rightarrow> category_subtotal list" where
  "category_row s k =
     (case qs_cat s k of
        None \<Rightarrow> []
      | Some b \<Rightarrow> [\<lparr>cs_category = k, cs_oneTimeTotal = fromCents (cc_oneTime b), cs_monthlyTotal = fromCents (cc_monthly b),
                   cs_annualTotal = fromCents (cc_annual b)\<rparr>])"

definition deposit_cents :: "quote_sums \<Rightarrow> jsnum \<Rightarrow> jsnum \<Rightarrow> deposit_config option \<Rightarrow> jsnum option" where
  "deposit_cents s rate dueOnAcceptanceCents deposit =
     (let d = (case deposit of
                 Some (PercentDeposit p) \<Rightarrow>
                   if js_less (Some 0) p then Some (roundHalfUp (js_mul dueOnAcceptanceCents (js_div p (Some 100)))) else None
               | Some SelectedLines \<Rightarrow> Some (js_add (qs_eligibleCents s) (roundHalfUp (js_mul (qs_eligibleTaxableCents s) rate)))
               | _ \<Rightarrow> None)
      in case d of Some c \<Rightarrow> if js_le c (Some 0) then None else Some c | None \<Rightarrow> None)"

definition computeQuoteTotals :: "quote_math_line list \<Rightarrow> jsnum option \<Rightarrow> deposit_config option \<Rightarrow> quote_totals" where
  "computeQuoteTotals lines taxRate deposit =
     (let s = foldl add_quote_line zero_sums lines;
          c = qs_cadence s;
          subtotal = js_add (js_add (cc_oneTime c) (cc_monthly c)) (cc_annual c);
          rate = (case taxRate of Some r \<Rightarrow> r | None \<Rightarrow> Some 0);
          taxCents = roundHalfUp (js_mul (qs_taxableBasis s) rate);
          oneTimeTaxCents = roundHalfUp (js_mul (qs_oneTimeTaxableBasis s) rate);
          dueOnAcceptanceCents = js_add (cc_oneTime c) oneTimeTaxCents
      in \<lparr>qt_subtotal = fromCents subtotal, qt_taxTotal = fromCents taxCents, qt_total = fromCents (js_add subtotal taxCents),
          qt_oneTimeTotal = fromCents (cc_oneTime c), qt_monthlyRecurringTotal = fromCents (cc_monthly c),
          qt_annualRecurringTotal = fromCents (cc_annual c), qt_dueOnAcceptanceTotal = fromCents dueOnAcceptanceCents,
          qt_depositDueTotal = map_option fromCents (deposit_cents s rate dueOnAcceptanceCents deposit),
          qt_categoryBreakdown = concat (map (category_row s) [Hardware, Software, Service, Other])\<rparr>)"

datatype deposit_error =
  DEPOSIT_REQUIRES_ONE_TIME_LINES | DEPOSIT_PERCENT_INVALID | DEPOSIT_NO_ELIGIBLE_LINES | DEPOSIT_NOT_BELOW_TOTAL

definition validateQuoteDeposit ::
  "quote_math_line list \<Rightarrow> jsnum option \<Rightarrow> deposit_config \<Rightarrow> deposit_error + string option" where
  "validateQuoteDeposit lines taxRate deposit =
     (if deposit = NoDeposit then Inr None
      else (let totals = computeQuoteTotals lines taxRate (Some deposit);
                due = toCents_shared (Some (qt_dueOnAcceptanceTotal totals));
                depositCents = (case qt_depositDueTotal totals of Some t \<Rightarrow> toCents_shared (Some t) | None \<Rightarrow> Some 0)
            in if js_le due (Some 0) then Inl DEPOSIT_REQUIRES_ONE_TIME_LINES
               else if (case deposit of PercentDeposit p \<Rightarrow> p = None \<or> js_le p (Some 0) \<or> js_le (Some 100) p | _ \<Rightarrow> False)
               then Inl DEPOSIT_PERCENT_INVALID
               else if deposit = SelectedLines \<and> js_le depositCents (Some 0) then Inl DEPOSIT_NO_ELIGIBLE_LINES
               else if deposit \<noteq> SelectedLines \<and> js_le depositCents (Some 0) then Inl DEPOSIT_PERCENT_INVALID
               else if js_le due depositCents then Inl DEPOSIT_NOT_BELOW_TOTAL
               else Inr (qt_depositDueTotal totals)))"

section \<open>Acceptance\<close>

text \<open>
  The invoice that accepting a quote issues: \<open>acceptQuote\<close> bills the visible one-time lines and totals them with
  the invoice module; the quote itself was totalled with the rate as a number.
\<close>

definition accept_totals_lines :: "quote_math_line list \<Rightarrow> totals_line list" where
  "accept_totals_lines lines =
     map (\<lambda>l. \<lparr>tl_lineTotal = computeLineTotal (qm_quantity l) (qm_unitPrice l), tl_taxable = qm_taxable l, tl_customerVisible = True\<rparr>)
       (filter (\<lambda>l. qm_recurrence l = OneTime \<and> qm_customerVisible l) lines)"

definition accept_totals :: "quote_math_line list \<Rightarrow> string option \<Rightarrow> invoice_totals" where
  "accept_totals lines taxRate = computeInvoiceTotals (accept_totals_lines lines) taxRate"

definition quote_tax_rate :: "string option \<Rightarrow> jsnum option" where
  "quote_tax_rate taxRate = map_option js_Number (str_or_none taxRate)"

section \<open>Margins\<close>

definition markupPct :: "string \<Rightarrow> string option \<Rightarrow> jsnum option" where
  "markupPct price cost =
     (case str_or_none cost of
        None \<Rightarrow> None
      | Some cs \<Rightarrow>
          (let c = js_Number cs; p = js_Number price
           in if c = None \<or> js_le c (Some 0) \<or> p = None then None
              else Some (js_mul (js_div (js_sub p c) c) (Some 100))))"

definition priceFromMarkup :: "string \<Rightarrow> jsnum \<Rightarrow> string" where
  "priceFromMarkup cost markupPctValue =
     (let c = js_Number cost
      in if c = None \<or> markupPctValue = None then ''0.00''
         else fromCents (roundHalfUp (js_mul (js_mul c (js_add (Some 1) (js_div markupPctValue (Some 100)))) (Some 100))))"

record quote_profit_sums =
  pr_net :: cadence_cents
  pr_totalCost :: jsnum
  pr_revenue :: cadence_cents
  pr_missing :: nat

definition add_profit_line :: "quote_profit_sums \<Rightarrow> quote_math_line \<Rightarrow> quote_profit_sums" where
  "add_profit_line s l =
     (if \<not> qm_customerVisible l then s
      else (case str_or_none (qm_unitCost l) of
              None \<Rightarrow> s\<lparr>pr_missing := Suc (pr_missing s)\<rparr>
            | Some cost \<Rightarrow>
                (let revenueCents = quote_line_cents l;
                     costCents = toCents_shared (Some (computeLineTotal (qm_quantity l) cost));
                     netCents = js_sub revenueCents costCents
                 in s\<lparr>pr_totalCost := js_add (pr_totalCost s) costCents,
                      pr_net := add_cents (qm_recurrence l) netCents (pr_net s),
                      pr_revenue := add_cents (qm_recurrence l) revenueCents (pr_revenue s)\<rparr>)))"

record quote_profit =
  qp_oneTimeNet :: string
  qp_monthlyRecurringNet :: string
  qp_annualRecurringNet :: string
  qp_totalCost :: string
  qp_oneTimeRevenue :: string
  qp_monthlyRecurringRevenue :: string
  qp_annualRecurringRevenue :: string
  qp_linesMissingCost :: nat

definition computeQuoteProfit :: "quote_math_line list \<Rightarrow> quote_profit" where
  "computeQuoteProfit lines =
     (let s = foldl add_profit_line
                \<lparr>pr_net = zero_cadence, pr_totalCost = Some 0, pr_revenue = zero_cadence, pr_missing = 0\<rparr> lines
      in \<lparr>qp_oneTimeNet = fromCents (cc_oneTime (pr_net s)), qp_monthlyRecurringNet = fromCents (cc_monthly (pr_net s)),
          qp_annualRecurringNet = fromCents (cc_annual (pr_net s)), qp_totalCost = fromCents (pr_totalCost s),
          qp_oneTimeRevenue = fromCents (cc_oneTime (pr_revenue s)),
          qp_monthlyRecurringRevenue = fromCents (cc_monthly (pr_revenue s)),
          qp_annualRecurringRevenue = fromCents (cc_annual (pr_revenue s)), qp_linesMissingCost = pr_missing s\<rparr>)"

definition marginPct :: "string \<Rightarrow> string \<Rightarrow> jsnum option" where
  "marginPct net revenue =
     (let n = js_Number net; r = js_Number revenue
      in if n = None \<or> r = None \<or> js_le r (Some 0) then None else Some (js_mul (js_div n r) (Some 100)))"

section \<open>Deposits\<close>

definition computeChargeNow :: "string option \<Rightarrow> string \<Rightarrow> string \<Rightarrow> string \<times> bool" where
  "computeChargeNow depositDue amountPaid balance =
     (let balanceCents = toCents_shared (Some balance);
          depositCents = (case depositDue of Some d \<Rightarrow> toCents_shared (Some d) | None \<Rightarrow> Some 0);
          paidCents = toCents_shared (Some amountPaid)
      in if js_less (Some 0) depositCents \<and> js_less paidCents depositCents
         then (fromCents (js_min (js_sub depositCents paidCents) balanceCents), True)
         else (balance, False))"

section \<open>Catalog\<close>

definition deriveUnitPrice :: "jsnum option \<Rightarrow> string option \<Rightarrow> string option \<Rightarrow> string" where
  "deriveUnitPrice explicitPrice costBasis markupPercent =
     (case explicitPrice of
        Some p \<Rightarrow> js_toFixed 2 p
      | None \<Rightarrow>
          (case (costBasis, markupPercent) of
             (Some c, Some m) \<Rightarrow>
               fromCents (math_round (js_mul (toCents (Some c)) (js_add (Some 1) (js_div (js_Number m) (Some 100)))))
           | _ \<Rightarrow> ''0.00''))"

record catalog_price =
  cp_unitPrice :: string
  cp_costBasis :: "string option"
  cp_taxable :: bool
  cp_taxCategory :: "string option"

definition resolvePriceFrom :: "catalog_price \<Rightarrow> string option \<Rightarrow> catalog_price \<times> bool" where
  "resolvePriceFrom item override =
     (case override of Some p \<Rightarrow> (item\<lparr>cp_unitPrice := p\<rparr>, True) | None \<Rightarrow> (item, False))"

datatype bundle_problem = SELF_REFERENCE | NESTED_BUNDLE | CROSS_PARTNER | COMPONENT_NOT_FOUND | DUPLICATE_COMPONENT

text \<open>The problems are a set in the order of insertion.\<close>

fun bundle_loop ::
  "id \<Rightarrow> id \<Rightarrow> (id \<Rightarrow> (bool \<times> id) option) \<Rightarrow> id list \<Rightarrow> id list \<Rightarrow> bundle_problem list \<Rightarrow> bundle_problem list" where
  "bundle_loop bundleId bundlePartnerId meta [] seen problems = problems"
| "bundle_loop bundleId bundlePartnerId meta (c # cs) seen problems =
     bundle_loop bundleId bundlePartnerId meta cs (c # seen)
       (problems @ (if c \<in> set seen then [DUPLICATE_COMPONENT] else [])
          @ (if c = bundleId then [SELF_REFERENCE] else [])
          @ (case meta c of
               None \<Rightarrow> [COMPONENT_NOT_FOUND]
             | Some (isBundle, partnerId) \<Rightarrow>
                 (if isBundle then [NESTED_BUNDLE] else []) @ (if partnerId \<noteq> bundlePartnerId then [CROSS_PARTNER] else [])))"

definition detectBundleProblems ::
  "id \<Rightarrow> id \<Rightarrow> id list \<Rightarrow> (id \<Rightarrow> (bool \<times> id) option) \<Rightarrow> bundle_problem list" where
  "detectBundleProblems bundleId bundlePartnerId components componentMeta =
     js_dedup (bundle_loop bundleId bundlePartnerId componentMeta components [] [])"

record bundle_component =
  bc_quantity :: string
  bc_costBasis :: "string option"
  bc_revenueAllocation :: "string option"

record bundle_economics =
  be_headlinePrice :: string
  be_totalCost :: string
  be_margin :: string
  be_marginPct :: jsnum
  be_allocationTotal :: string
  be_allocationMatchesHeadline :: bool

fun economics_loop :: "bundle_component list \<Rightarrow> jsnum \<Rightarrow> jsnum \<Rightarrow> bool \<Rightarrow> jsnum \<times> jsnum \<times> bool" where
  "economics_loop [] costCents allocCents anyAllocation = (costCents, allocCents, anyAllocation)"
| "economics_loop (c # cs) costCents allocCents anyAllocation =
     economics_loop cs
       (js_add costCents (math_round (js_mul (toCents (bc_costBasis c)) (js_Number (if bc_quantity c = [] then ''0'' else bc_quantity c)))))
       (case bc_revenueAllocation c of Some a \<Rightarrow> js_add allocCents (toCents (Some a)) | None \<Rightarrow> allocCents)
       (anyAllocation \<or> bc_revenueAllocation c \<noteq> None)"

definition computeBundleEconomicsFrom :: "string \<Rightarrow> bundle_component list \<Rightarrow> bundle_economics" where
  "computeBundleEconomicsFrom headlinePrice components =
     (let (costCents, allocCents, anyAllocation) = economics_loop components (Some 0) (Some 0) False;
          headlineCents = toCents (Some headlinePrice);
          marginCents = js_sub headlineCents costCents
      in \<lparr>be_headlinePrice = fromCents headlineCents, be_totalCost = fromCents costCents, be_margin = fromCents marginCents,
          be_marginPct = (if headlineCents = Some 0 then Some 0
                          else js_div (math_round (js_mul (js_div marginCents headlineCents) (Some 10000))) (Some 100)),
          be_allocationTotal = fromCents allocCents,
          be_allocationMatchesHeadline = (if anyAllocation then allocCents \<noteq> None \<and> allocCents = headlineCents else True)\<rparr>)"

end
