(* ===== verification/Invoices.thy ===== *)
theory Invoices
  imports Money Contract_Math
begin

text \<open>
  apps/api/src/services/invoiceService.ts with invoiceAssembly.ts, invoiceNumbers.ts and what they use of
  catalogService.ts, and the edits of timeEntryService.ts that change what can be billed: invoices with their lines and
  payments, and the time entries and parts they bill. An operation takes the tables and returns an error or the new
  tables; a request that fails is rolled back. Ids of new rows, the clock and the text of a number (\<open>String(n)\<close>) are
  arguments. Reads are of the rows the caller may see; events and PDF jobs are left out.
\<close>

section \<open>Results\<close>

definition and_then :: "'e + 'a \<Rightarrow> ('a \<Rightarrow> 'e + 'b) \<Rightarrow> 'e + 'b" where
  "and_then m f = (case m of Inl e \<Rightarrow> Inl e | Inr x \<Rightarrow> f x)"

definition ensure :: "bool \<Rightarrow> 'e \<Rightarrow> 'e + unit" where
  "ensure b e = (if b then Inr () else Inl e)"

lemma and_then_simps [simp]: "and_then (Inl e) f = Inl e" "and_then (Inr x) f = f x"
  by (simp_all add: and_then_def)

lemma and_then_Inr: "and_then m f = Inr y \<longleftrightarrow> (\<exists>x. m = Inr x \<and> f x = Inr y)"
  by (simp add: and_then_def split: sum.split)

lemma ensure_Inr [simp]: "ensure b e = Inr u \<longleftrightarrow> b"
  by (simp add: ensure_def)

section \<open>Tables\<close>

datatype line_source = SrcTimeEntry | SrcPart | SrcCatalog | SrcBundle | SrcManual | SrcContract

datatype source_billing = SbNotBilled | SbBilled | SbNoCharge | SbContract

record invoice_row =
  inv_partnerId :: id
  inv_orgId :: id
  inv_siteId :: "id option"
  inv_number :: "string option"
  inv_status :: invoice_status
  inv_currencyCode :: string
  inv_issueDate :: "string option"
  inv_dueDate :: "string option"
  inv_subtotal :: string
  inv_taxRate :: "string option"
  inv_taxTotal :: string
  inv_total :: string
  inv_amountPaid :: string
  inv_balance :: string
  inv_depositDue :: "string option"
  inv_billToName :: "string option"
  inv_billToTaxId :: "string option"
  inv_billToTaxExempt :: bool
  inv_notes :: "string option"
  inv_terms :: "string option"
  inv_termsAndConditions :: "string option"
  inv_firstViewedAt :: "int option"
  inv_viewedAt :: "int option"
  inv_paidAt :: "int option"
  inv_markedOverdueAt :: "int option"
  inv_voidedAt :: "int option"
  inv_voidReason :: "string option"
  inv_replacesInvoiceId :: "id option"
  inv_replacedByInvoiceId :: "id option"
  inv_createdBy :: "id option"

record invoice_line =
  il_invoiceId :: id
  il_orgId :: id
  il_sourceType :: line_source
  il_sourceId :: "id option"
  il_catalogItemId :: "id option"
  il_parentLineId :: "id option"
  il_ticketId :: "id option"
  il_name :: "string option"
  il_description :: "string option"
  il_quantity :: string
  il_unitPrice :: string
  il_costBasis :: "string option"
  il_revenueAllocation :: "string option"
  il_taxable :: bool
  il_customerVisible :: bool
  il_lineTotal :: string
  il_isUnapprovedTime :: bool
  il_sortOrder :: int

record invoice_payment =
  ip_invoiceId :: id
  ip_orgId :: id
  ip_amount :: string
  ip_method :: string
  ip_reference :: "string option"
  ip_receivedAt :: string
  ip_recordedBy :: "id option"
  ip_note :: "string option"

record time_entry =
  te_orgId :: "id option"
  te_ticketId :: "id option"
  te_userId :: id
  te_description :: "string option"
  te_durationMinutes :: "int option"
  te_hourlyRate :: "string option"
  te_isApproved :: bool
  te_isBillable :: bool
  te_billingStatus :: source_billing
  te_endedAt :: "int option"

record ticket_part =
  tp_orgId :: id
  tp_ticketId :: id
  tp_catalogItemId :: "id option"
  tp_description :: string
  tp_quantity :: string
  tp_unitPrice :: string
  tp_costBasis :: "string option"
  tp_isBillable :: bool
  tp_billingStatus :: source_billing
  tp_createdAt :: int

record billing_org =
  bo_partnerId :: id
  bo_name :: string
  bo_taxId :: "string option"
  bo_taxExempt :: bool
  bo_taxRate :: "string option"

record billing_partner =
  bp_currencyCode :: string
  bp_defaultTaxRate :: "string option"
  bp_invoiceNumberPrefix :: string
  bp_invoiceTermsDays :: int
  bp_invoiceFooter :: "string option"
  bp_billingTermsAndConditions :: "string option"

record catalog_item =
  ci_partnerId :: id
  ci_name :: string
  ci_description :: "string option"
  ci_isBundle :: bool
  ci_price :: catalog_price

record bundle_part =
  bu_bundleItemId :: id
  bu_componentItemId :: id
  bu_quantity :: string
  bu_showOnInvoice :: bool
  bu_revenueAllocation :: "string option"

record invoice_db =
  vd_invoices :: "id \<Rightarrow> invoice_row option"
  vd_lines :: "(id \<times> invoice_line) list"
  vd_payments :: "(id \<times> invoice_payment) list"
  vd_times :: "(id \<times> time_entry) list"
  vd_parts :: "(id \<times> ticket_part) list"
  vd_sequences :: "id \<times> int \<Rightarrow> nat option"
  vd_orgs :: "id \<Rightarrow> billing_org option"
  vd_partners :: "id \<Rightarrow> billing_partner option"
  vd_ticketOrgs :: "id \<Rightarrow> id option"
  vd_items :: "id \<Rightarrow> catalog_item option"
  vd_orgPrices :: "id \<times> id \<Rightarrow> string option"
  vd_components :: "bundle_part list"

datatype invoice_error =
    PARTNER_UNRESOLVABLE | ORG_DENIED | SITE_DENIED | INVOICE_NOT_FOUND | NOT_A_DRAFT | NOTHING_TO_INVOICE
  | NO_VISIBLE_LINES | SOURCE_ALREADY_BILLED "id list" | OVERPAYMENT | INVALID_STATE | INVALID_AMOUNT | LINE_NOT_FOUND
  | PAYMENT_NOT_FOUND | ITEM_NOT_FOUND | NOT_A_BUNDLE | ENTRY_NOT_FOUND | NOT_OWN_ENTRY | APPROVED_IMMUTABLE
  | NUMERIC_OVERFLOW | FOREIGN_KEY | UNIQUE_KEY

text \<open>
  A column \<open>numeric(12,2)\<close>: a decimal text is rounded to two decimals, half away from zero, and refused at ten
  digits before the point.
\<close>

definition numeric_column :: "string \<Rightarrow> invoice_error + string" where
  "numeric_column s =
     (if s = ''NaN'' then Inr s
      else case decimal_value s of
        None \<Rightarrow> Inl NUMERIC_OVERFLOW
      | Some v \<Rightarrow>
          (let c = (if v < 0 then - \<lfloor>- v * 100 + 1 / 2\<rfloor> else \<lfloor>v * 100 + 1 / 2\<rfloor>)
           in if \<bar>c\<bar> < 10 ^ 12 then Inr (fixed_text 2 c) else Inl NUMERIC_OVERFLOW))"

definition numeric_column_opt :: "string option \<Rightarrow> invoice_error + string option" where
  "numeric_column_opt s = (case s of None \<Rightarrow> Inr None | Some t \<Rightarrow> and_then (numeric_column t) (\<lambda>c. Inr (Some c)))"

definition set_invoice :: "id \<Rightarrow> invoice_row \<Rightarrow> invoice_db \<Rightarrow> invoice_db" where
  "set_invoice i v db = db\<lparr>vd_invoices := (vd_invoices db)(i \<mapsto> v)\<rparr>"

text \<open>\<open>UPDATE ... WHERE id = i\<close>.\<close>

definition update_invoice :: "id \<Rightarrow> (invoice_row \<Rightarrow> invoice_row) \<Rightarrow> invoice_db \<Rightarrow> invoice_db" where
  "update_invoice i f db = (case vd_invoices db i of None \<Rightarrow> db | Some v \<Rightarrow> set_invoice i (f v) db)"

definition lines_of :: "invoice_db \<Rightarrow> id \<Rightarrow> (id \<times> invoice_line) list" where
  "lines_of db i = filter (\<lambda>(k, l). il_invoiceId l = i) (vd_lines db)"

definition totals_line_of :: "invoice_line \<Rightarrow> totals_line" where
  "totals_line_of l = \<lparr>tl_lineTotal = il_lineTotal l, tl_taxable = il_taxable l, tl_customerVisible = il_customerVisible l\<rparr>"

definition invoice_totals_lines :: "invoice_db \<Rightarrow> id \<Rightarrow> totals_line list" where
  "invoice_totals_lines db i = map (totals_line_of \<circ> snd) (lines_of db i)"

section \<open>Access\<close>

record invoice_actor =
  ia_userId :: "id option"
  ia_partnerId :: "id option"
  ia_accessibleOrgIds :: "id list option"
  ia_allowedSiteIds :: "id list option"

definition requirePartner :: "invoice_actor \<Rightarrow> invoice_error + id" where
  "requirePartner actor = (case str_or_none (ia_partnerId actor) of None \<Rightarrow> Inl PARTNER_UNRESOLVABLE | Some p \<Rightarrow> Inr p)"

definition requireInvoiceOrgAccess :: "invoice_actor \<Rightarrow> id \<Rightarrow> invoice_error + unit" where
  "requireInvoiceOrgAccess actor orgId =
     ensure (case ia_accessibleOrgIds actor of None \<Rightarrow> True | Some ids \<Rightarrow> orgId \<in> set ids) ORG_DENIED"

definition requireSiteAccess :: "invoice_actor \<Rightarrow> id option \<Rightarrow> invoice_error + unit" where
  "requireSiteAccess actor siteId =
     ensure (case ia_allowedSiteIds actor of
               None \<Rightarrow> True
             | Some ids \<Rightarrow> (case str_or_none siteId of None \<Rightarrow> False | Some s \<Rightarrow> s \<in> set ids)) SITE_DENIED"

definition requireInvoiceAccess :: "invoice_actor \<Rightarrow> invoice_row \<Rightarrow> invoice_error + unit" where
  "requireInvoiceAccess actor v =
     and_then (requireInvoiceOrgAccess actor (inv_orgId v)) (\<lambda>_. requireSiteAccess actor (inv_siteId v))"

definition getOwnedInvoiceOr404 :: "invoice_db \<Rightarrow> id \<Rightarrow> invoice_error + invoice_row" where
  "getOwnedInvoiceOr404 db i = (case vd_invoices db i of None \<Rightarrow> Inl INVOICE_NOT_FOUND | Some v \<Rightarrow> Inr v)"

definition assertDraft :: "invoice_row \<Rightarrow> invoice_error + unit" where
  "assertDraft v = ensure (inv_status v = InvDraft) NOT_A_DRAFT"

text \<open>How every edit of a draft begins.\<close>

definition editable_draft :: "invoice_db \<Rightarrow> id \<Rightarrow> invoice_actor \<Rightarrow> invoice_error + invoice_row" where
  "editable_draft db i actor =
     and_then (getOwnedInvoiceOr404 db i) (\<lambda>v.
     and_then (assertDraft v) (\<lambda>_.
     and_then (requireInvoiceAccess actor v) (\<lambda>_. Inr v)))"

section \<open>Drafts\<close>

definition blank_invoice :: "id \<Rightarrow> id \<Rightarrow> id option \<Rightarrow> id option \<Rightarrow> invoice_row" where
  "blank_invoice partnerId orgId siteId createdBy =
     \<lparr>inv_partnerId = partnerId, inv_orgId = orgId, inv_siteId = siteId, inv_number = None, inv_status = InvDraft,
      inv_currencyCode = ''USD'', inv_issueDate = None, inv_dueDate = None, inv_subtotal = ''0.00'', inv_taxRate = None,
      inv_taxTotal = ''0.00'', inv_total = ''0.00'', inv_amountPaid = ''0.00'', inv_balance = ''0.00'', inv_depositDue = None,
      inv_billToName = None, inv_billToTaxId = None, inv_billToTaxExempt = False, inv_notes = None, inv_terms = None,
      inv_termsAndConditions = None, inv_firstViewedAt = None, inv_viewedAt = None, inv_paidAt = None,
      inv_markedOverdueAt = None, inv_voidedAt = None, inv_voidReason = None, inv_replacesInvoiceId = None,
      inv_replacedByInvoiceId = None, inv_createdBy = createdBy\<rparr>"

text \<open>The organization of an invoice belongs to its partner: a foreign key over both columns. Ids are primary keys.\<close>

definition insert_invoice :: "id \<Rightarrow> invoice_row \<Rightarrow> invoice_db \<Rightarrow> invoice_error + invoice_db" where
  "insert_invoice i v db =
     and_then (ensure (vd_invoices db i = None) UNIQUE_KEY) (\<lambda>_.
     and_then (ensure (map_option bo_partnerId (vd_orgs db (inv_orgId v)) = Some (inv_partnerId v)) FOREIGN_KEY)
       (\<lambda>_. Inr (set_invoice i v db)))"

definition createManualInvoice ::
  "id \<Rightarrow> id \<Rightarrow> id option \<Rightarrow> string option \<Rightarrow> string option \<Rightarrow> invoice_actor \<Rightarrow> invoice_db \<Rightarrow> invoice_error + invoice_db" where
  "createManualInvoice newId orgId siteId notes termsAndConditions actor db =
     and_then (requirePartner actor) (\<lambda>partnerId.
     and_then (requireInvoiceOrgAccess actor orgId) (\<lambda>_.
     and_then (requireSiteAccess actor siteId) (\<lambda>_.
     insert_invoice newId
       ((blank_invoice partnerId orgId siteId (ia_userId actor))\<lparr>inv_notes := notes, inv_termsAndConditions := termsAndConditions\<rparr>) db)))"

definition effectiveRateForOrg :: "invoice_db \<Rightarrow> id \<Rightarrow> string" where
  "effectiveRateForOrg db orgId =
     (case vd_orgs db orgId of
        None \<Rightarrow> resolveEffectiveTaxRate False None None
      | Some org \<Rightarrow> resolveEffectiveTaxRate (bo_taxExempt org) (bo_taxRate org) None)"

definition recomputeInvoiceTotals :: "id \<Rightarrow> string option option \<Rightarrow> invoice_db \<Rightarrow> invoice_error + invoice_db" where
  "recomputeInvoiceTotals i taxRateOverride db =
     and_then (getOwnedInvoiceOr404 db i) (\<lambda>v.
     and_then (assertDraft v) (\<lambda>_.
     let taxRate = (case taxRateOverride of Some r \<Rightarrow> r | None \<Rightarrow> Some (effectiveRateForOrg db (inv_orgId v)));
         totals = computeInvoiceTotals (invoice_totals_lines db i) taxRate;
         balance = fromCents (js_sub (toCents (Some (iv_total totals))) (toCents (Some (inv_amountPaid v))))
     in and_then (numeric_column (iv_subtotal totals)) (\<lambda>subtotal.
        and_then (numeric_column (iv_taxTotal totals)) (\<lambda>taxTotal.
        and_then (numeric_column (iv_total totals)) (\<lambda>tot.
        and_then (numeric_column balance) (\<lambda>bal.
        Inr (set_invoice i (v\<lparr>inv_subtotal := subtotal, inv_taxRate := taxRate, inv_taxTotal := taxTotal, inv_total := tot,
                              inv_balance := bal\<rparr>) db)))))))"

section \<open>Lines\<close>

definition store_line :: "invoice_line \<Rightarrow> invoice_error + invoice_line" where
  "store_line l =
     and_then (numeric_column (il_quantity l)) (\<lambda>q.
     and_then (numeric_column (il_unitPrice l)) (\<lambda>p.
     and_then (numeric_column_opt (il_costBasis l)) (\<lambda>c.
     and_then (numeric_column_opt (il_revenueAllocation l)) (\<lambda>r.
     and_then (numeric_column (il_lineTotal l)) (\<lambda>t.
     Inr (l\<lparr>il_quantity := q, il_unitPrice := p, il_costBasis := c, il_revenueAllocation := r, il_lineTotal := t\<rparr>))))))"

definition add_line :: "id \<Rightarrow> invoice_line \<Rightarrow> invoice_db \<Rightarrow> invoice_error + invoice_db" where
  "add_line lineId l db =
     and_then (ensure (lineId \<notin> fst ` set (vd_lines db)) UNIQUE_KEY) (\<lambda>_.
     and_then (store_line l) (\<lambda>l'. Inr (db\<lparr>vd_lines := vd_lines db @ [(lineId, l')]\<rparr>)))"

definition next_sort :: "invoice_db \<Rightarrow> id \<Rightarrow> int" where
  "next_sort db i = (case lines_of db i of [] \<Rightarrow> 1 | ls \<Rightarrow> Max (set (map (il_sortOrder \<circ> snd) ls)) + 1)"

definition insertLineAndRecompute :: "id \<Rightarrow> id \<Rightarrow> id \<Rightarrow> invoice_line \<Rightarrow> invoice_db \<Rightarrow> invoice_error + invoice_db" where
  "insertLineAndRecompute i orgId lineId spec db =
     and_then (add_line lineId (spec\<lparr>il_invoiceId := i, il_orgId := orgId, il_sortOrder := next_sort db i\<rparr>) db)
       (recomputeInvoiceTotals i None)"

text \<open>A line without links; the callers fill in the rest, \<open>insertLineAndRecompute\<close> the invoice.\<close>

definition line_spec :: "line_source \<Rightarrow> string \<Rightarrow> string \<Rightarrow> bool \<Rightarrow> invoice_line" where
  "line_spec source quantity unitPrice taxable =
     \<lparr>il_invoiceId = [], il_orgId = [], il_sourceType = source, il_sourceId = None, il_catalogItemId = None, il_parentLineId = None,
      il_ticketId = None, il_name = None, il_description = None, il_quantity = quantity, il_unitPrice = unitPrice,
      il_costBasis = None, il_revenueAllocation = None, il_taxable = taxable, il_customerVisible = True,
      il_lineTotal = computeLineTotal quantity unitPrice, il_isUnapprovedTime = False, il_sortOrder = 0\<rparr>"

record manual_line_input =
  ml_name :: "string option"
  ml_description :: "string option"
  ml_quantity :: string
  ml_unitPrice :: string
  ml_costBasis :: "string option"
  ml_taxable :: bool

definition money_text :: "string \<Rightarrow> string" where
  "money_text s = js_toFixed 2 (js_Number s)"

definition addManualLine ::
  "id \<Rightarrow> id \<Rightarrow> manual_line_input \<Rightarrow> invoice_actor \<Rightarrow> invoice_db \<Rightarrow> invoice_error + invoice_db" where
  "addManualLine i lineId input actor db =
     and_then (editable_draft db i actor) (\<lambda>v.
     insertLineAndRecompute i (inv_orgId v) lineId
       ((line_spec SrcManual (ml_quantity input) (ml_unitPrice input) (ml_taxable input))
          \<lparr>il_name := ml_name input, il_description := ml_description input, il_unitPrice := money_text (ml_unitPrice input),
           il_costBasis := map_option money_text (ml_costBasis input)\<rparr>) db)"

definition getOwnedItemOr404 :: "invoice_db \<Rightarrow> id \<Rightarrow> id \<Rightarrow> invoice_error + catalog_item" where
  "getOwnedItemOr404 db itemId partnerId =
     (case vd_items db itemId of
        None \<Rightarrow> Inl ITEM_NOT_FOUND
      | Some item \<Rightarrow> if ci_partnerId item = partnerId then Inr item else Inl ITEM_NOT_FOUND)"

text \<open>\<open>resolvePrice\<close> and \<open>computeBundleEconomics\<close> are called with the organization of an invoice, which is there.\<close>

definition resolvePrice :: "id \<Rightarrow> id \<Rightarrow> invoice_actor \<Rightarrow> invoice_db \<Rightarrow> invoice_error + catalog_price" where
  "resolvePrice itemId orgId actor db =
     and_then (requirePartner actor) (\<lambda>partnerId.
     and_then (requireInvoiceOrgAccess actor orgId) (\<lambda>_.
     and_then (getOwnedItemOr404 db itemId partnerId) (\<lambda>item.
     Inr (fst (resolvePriceFrom (ci_price item) (vd_orgPrices db (itemId, orgId)))))))"

definition bundle_rows :: "invoice_db \<Rightarrow> id \<Rightarrow> (bundle_part \<times> catalog_item) list" where
  "bundle_rows db bundleId =
     concat (map (\<lambda>b. case vd_items db (bu_componentItemId b) of None \<Rightarrow> [] | Some item \<Rightarrow> [(b, item)])
       (filter (\<lambda>b. bu_bundleItemId b = bundleId) (vd_components db)))"

definition computeBundleEconomics :: "id \<Rightarrow> id \<Rightarrow> invoice_actor \<Rightarrow> invoice_db \<Rightarrow> invoice_error + bundle_economics" where
  "computeBundleEconomics bundleId orgId actor db =
     and_then (requirePartner actor) (\<lambda>partnerId.
     and_then (requireInvoiceOrgAccess actor orgId) (\<lambda>_.
     and_then (getOwnedItemOr404 db bundleId partnerId) (\<lambda>bundle.
     and_then (ensure (ci_isBundle bundle) NOT_A_BUNDLE) (\<lambda>_.
     and_then (resolvePrice bundleId orgId actor db) (\<lambda>headline.
     Inr (computeBundleEconomicsFrom (cp_unitPrice headline)
       (map (\<lambda>(b, item). \<lparr>bc_quantity = bu_quantity b, bc_costBasis = cp_costBasis (ci_price item),
                           bc_revenueAllocation = bu_revenueAllocation b\<rparr>) (bundle_rows db bundleId))))))))"

definition addCatalogLine :: "id \<Rightarrow> id \<Rightarrow> id \<Rightarrow> string \<Rightarrow> invoice_actor \<Rightarrow> invoice_db \<Rightarrow> invoice_error + invoice_db" where
  "addCatalogLine i lineId itemId quantity actor db =
     and_then (editable_draft db i actor) (\<lambda>v.
     and_then (resolvePrice itemId (inv_orgId v) actor db) (\<lambda>resolved.
     let item = vd_items db itemId
     in and_then (ensure (\<not> (case item of None \<Rightarrow> False | Some it \<Rightarrow> ci_isBundle it)) INVALID_STATE) (\<lambda>_.
        insertLineAndRecompute i (inv_orgId v) lineId
          ((line_spec SrcCatalog quantity (cp_unitPrice resolved) (cp_taxable resolved))
             \<lparr>il_catalogItemId := Some itemId,
              il_name := Some (case item of Some it \<Rightarrow> ci_name it | None \<Rightarrow> ''Catalog item''),
              il_description := (case item of Some it \<Rightarrow> ci_description it | None \<Rightarrow> None),
              il_costBasis := cp_costBasis resolved\<rparr>) db)))"

fun add_bundle_children ::
  "id \<Rightarrow> id \<Rightarrow> id \<Rightarrow> int \<Rightarrow> (bundle_part \<times> catalog_item) list \<Rightarrow> id list \<Rightarrow> invoice_db \<Rightarrow> invoice_error + invoice_db" where
  "add_bundle_children i orgId parentId sortAt ((b, item) # rows) (k # ks) db =
     and_then (add_line k ((line_spec SrcBundle (bu_quantity b) ''0.00'' False)
         \<lparr>il_invoiceId := i, il_orgId := orgId, il_sortOrder := sortAt, il_catalogItemId := Some (bu_componentItemId b),
          il_parentLineId := Some parentId, il_name := Some (ci_name item), il_description := ci_description item,
          il_costBasis := cp_costBasis (ci_price item), il_revenueAllocation := bu_revenueAllocation b,
          il_customerVisible := bu_showOnInvoice b, il_lineTotal := ''0.00''\<rparr>) db)
       (add_bundle_children i orgId parentId sortAt rows ks)"
| "add_bundle_children i orgId parentId sortAt rows ks db = Inr db"

text \<open>One new id for each component of the bundle.\<close>

definition addBundleLine ::
  "id \<Rightarrow> id \<Rightarrow> id list \<Rightarrow> id \<Rightarrow> string \<Rightarrow> invoice_actor \<Rightarrow> invoice_db \<Rightarrow> invoice_error + invoice_db" where
  "addBundleLine i lineId childIds bundleId quantity actor db =
     and_then (editable_draft db i actor) (\<lambda>v.
     and_then (computeBundleEconomics bundleId (inv_orgId v) actor db) (\<lambda>econ.
     let bundle = vd_items db bundleId; sortAt = next_sort db i
     in and_then (insertLineAndRecompute i (inv_orgId v) lineId
          ((line_spec SrcBundle quantity (be_headlinePrice econ) True)
             \<lparr>il_catalogItemId := Some bundleId,
              il_name := Some (case bundle of Some b \<Rightarrow> ci_name b | None \<Rightarrow> ''Bundle''),
              il_description := (case bundle of Some b \<Rightarrow> ci_description b | None \<Rightarrow> None),
              il_costBasis := Some (be_totalCost econ)\<rparr>) db) (\<lambda>db1.
        and_then (add_bundle_children i (inv_orgId v) lineId sortAt (bundle_rows db bundleId) childIds db1)
          (recomputeInvoiceTotals i None))))"

record contract_line_input =
  cl_description :: string
  cl_quantity :: string
  cl_unitPrice :: string
  cl_taxable :: bool
  cl_catalogItemId :: "id option"
  cl_sourceId :: "id option"

definition addContractLine ::
  "id \<Rightarrow> id \<Rightarrow> contract_line_input \<Rightarrow> invoice_actor \<Rightarrow> invoice_db \<Rightarrow> invoice_error + invoice_db" where
  "addContractLine i lineId input actor db =
     and_then (editable_draft db i actor) (\<lambda>v.
     and_then (case str_or_none (cl_catalogItemId input) of
                 Some itemId \<Rightarrow>
                   and_then (resolvePrice itemId (inv_orgId v) actor db)
                     (\<lambda>r. Inr (cp_unitPrice r, cp_taxable r, cp_costBasis r))
               | None \<Rightarrow>
                   (let unitPrice = money_text (cl_unitPrice input)
                    in and_then (ensure (\<not> (js_less (js_Number (cl_quantity input)) (Some 0) \<or> js_less (js_Number unitPrice) (Some 0)))
                                  INVALID_AMOUNT)
                         (\<lambda>_. Inr (unitPrice, cl_taxable input, None)))) (\<lambda>(unitPrice, taxable, costBasis).
     insertLineAndRecompute i (inv_orgId v) lineId
       ((line_spec SrcContract (cl_quantity input) unitPrice taxable)
          \<lparr>il_sourceId := cl_sourceId input, il_catalogItemId := cl_catalogItemId input,
           il_description := Some (cl_description input), il_costBasis := costBasis\<rparr>) db))"

record line_patch =
  lp_name :: "string option option"
  lp_description :: "string option option"
  lp_quantity :: "string option"
  lp_unitPrice :: "string option"
  lp_taxable :: "bool option"
  lp_customerVisible :: "bool option"

definition updateLine :: "id \<Rightarrow> id \<Rightarrow> line_patch \<Rightarrow> invoice_actor \<Rightarrow> invoice_db \<Rightarrow> invoice_error + invoice_db" where
  "updateLine i lineId patch actor db =
     and_then (editable_draft db i actor) (\<lambda>_.
     case map_of (lines_of db i) lineId of
       None \<Rightarrow> Inl LINE_NOT_FOUND
     | Some old \<Rightarrow>
         (let quantity = (case lp_quantity patch of Some q \<Rightarrow> q | None \<Rightarrow> il_quantity old);
              unitPrice = (case lp_unitPrice patch of Some p \<Rightarrow> money_text p | None \<Rightarrow> il_unitPrice old)
          in and_then (store_line (old
                \<lparr>il_name := (case lp_name patch of Some n \<Rightarrow> n | None \<Rightarrow> il_name old),
                 il_description := (case lp_description patch of Some d \<Rightarrow> d | None \<Rightarrow> il_description old),
                 il_quantity := quantity, il_unitPrice := unitPrice,
                 il_taxable := (case lp_taxable patch of Some t \<Rightarrow> t | None \<Rightarrow> il_taxable old),
                 il_customerVisible := (case lp_customerVisible patch of Some c \<Rightarrow> c | None \<Rightarrow> il_customerVisible old),
                 il_lineTotal := computeLineTotal quantity unitPrice\<rparr>)) (\<lambda>new.
             recomputeInvoiceTotals i None
               (db\<lparr>vd_lines := map (\<lambda>(k, l). if k = lineId then (k, new) else (k, l)) (vd_lines db)\<rparr>))))"

text \<open>Children of a bundle line go with it.\<close>

definition removeLine :: "id \<Rightarrow> id \<Rightarrow> invoice_actor \<Rightarrow> invoice_db \<Rightarrow> invoice_error + invoice_db" where
  "removeLine i lineId actor db =
     and_then (editable_draft db i actor) (\<lambda>_.
     let gone = (lineId \<in> fst ` set (lines_of db i))
     in recomputeInvoiceTotals i None
          (db\<lparr>vd_lines := filter (\<lambda>(k, l). \<not> (gone \<and> (k = lineId \<or> il_parentLineId l = Some lineId))) (vd_lines db)\<rparr>))"

text \<open>Lines and payments go with the invoice, and the links of other invoices to it are cleared.\<close>

definition unlink :: "id \<Rightarrow> invoice_row \<Rightarrow> invoice_row" where
  "unlink i v = v\<lparr>inv_replacesInvoiceId := (if inv_replacesInvoiceId v = Some i then None else inv_replacesInvoiceId v),
                  inv_replacedByInvoiceId := (if inv_replacedByInvoiceId v = Some i then None else inv_replacedByInvoiceId v)\<rparr>"

definition deleteDraftInvoice :: "id \<Rightarrow> invoice_actor \<Rightarrow> invoice_db \<Rightarrow> invoice_error + invoice_db" where
  "deleteDraftInvoice i actor db =
     and_then (editable_draft db i actor) (\<lambda>_.
     Inr (db\<lparr>vd_invoices := (\<lambda>j. if j = i then None else map_option (unlink i) (vd_invoices db j)),
             vd_lines := filter (\<lambda>(k, l). il_invoiceId l \<noteq> i) (vd_lines db),
             vd_payments := filter (\<lambda>(k, p). ip_invoiceId p \<noteq> i) (vd_payments db)\<rparr>))"

record invoice_patch =
  xp_notes :: "string option"
  xp_siteId :: "id option option"
  xp_dueDate :: "string option"
  xp_termsAndConditions :: "string option option"

definition updateInvoice :: "id \<Rightarrow> invoice_patch \<Rightarrow> invoice_actor \<Rightarrow> invoice_db \<Rightarrow> invoice_error + invoice_db" where
  "updateInvoice i patch actor db =
     and_then (editable_draft db i actor) (\<lambda>v.
     and_then (case xp_siteId patch of None \<Rightarrow> Inr () | Some s \<Rightarrow> requireSiteAccess actor s) (\<lambda>_.
     Inr (set_invoice i (v
       \<lparr>inv_notes := (case xp_notes patch of Some n \<Rightarrow> Some n | None \<Rightarrow> inv_notes v),
        inv_siteId := (case xp_siteId patch of Some s \<Rightarrow> s | None \<Rightarrow> inv_siteId v),
        inv_dueDate := (case xp_dueDate patch of Some d \<Rightarrow> Some d | None \<Rightarrow> inv_dueDate v),
        inv_termsAndConditions := (case xp_termsAndConditions patch of Some t \<Rightarrow> t | None \<Rightarrow> inv_termsAndConditions v)\<rparr>) db)))"

section \<open>Assembly\<close>

definition timeEntryToLineSpec :: "id \<times> time_entry \<Rightarrow> invoice_line" where
  "timeEntryToLineSpec r =
     (case r of (entryId, t) \<Rightarrow>
        let hours = js_toFixed 2 (js_div (Some (of_int (case te_durationMinutes t of Some m \<Rightarrow> m | None \<Rightarrow> 0))) (Some 60));
            unitPrice = (case te_hourlyRate t of Some h \<Rightarrow> money_text h | None \<Rightarrow> ''0.00'')
        in (line_spec SrcTimeEntry hours unitPrice False)
             \<lparr>il_sourceId := Some entryId, il_ticketId := te_ticketId t,
              il_description := Some (case str_or_none (map_option trim (te_description t)) of Some d \<Rightarrow> d | None \<Rightarrow> ''Labor''),
              il_isUnapprovedTime := \<not> te_isApproved t\<rparr>)"

definition ticketPartToLineSpec :: "id \<times> ticket_part \<Rightarrow> invoice_line" where
  "ticketPartToLineSpec r =
     (case r of (partId, p) \<Rightarrow>
        (line_spec SrcPart (tp_quantity p) (tp_unitPrice p) True)
          \<lparr>il_sourceId := Some partId, il_catalogItemId := tp_catalogItemId p, il_ticketId := Some (tp_ticketId p),
           il_description := Some (tp_description p), il_costBasis := tp_costBasis p\<rparr>)"

definition gatherOrgTimeEntries :: "invoice_db \<Rightarrow> id \<Rightarrow> int \<Rightarrow> int \<Rightarrow> invoice_line list" where
  "gatherOrgTimeEntries db orgId fromTime toTime =
     map timeEntryToLineSpec (filter (\<lambda>(k, t). te_orgId t = Some orgId \<and> te_isBillable t \<and> te_billingStatus t = SbNotBilled
       \<and> (case te_endedAt t of None \<Rightarrow> False | Some e \<Rightarrow> fromTime \<le> e \<and> e \<le> toTime)) (vd_times db))"

definition gatherOrgParts :: "invoice_db \<Rightarrow> id \<Rightarrow> int \<Rightarrow> int \<Rightarrow> invoice_line list" where
  "gatherOrgParts db orgId fromTime toTime =
     map ticketPartToLineSpec (filter (\<lambda>(k, p). tp_orgId p = orgId \<and> tp_isBillable p \<and> tp_billingStatus p = SbNotBilled
       \<and> fromTime \<le> tp_createdAt p \<and> tp_createdAt p \<le> toTime) (vd_parts db))"

definition gatherTicketBillables :: "invoice_db \<Rightarrow> id \<Rightarrow> invoice_line list" where
  "gatherTicketBillables db ticketId =
     map timeEntryToLineSpec (filter (\<lambda>(k, t). te_ticketId t = Some ticketId \<and> te_isBillable t \<and> te_billingStatus t = SbNotBilled
       \<and> te_endedAt t \<noteq> None) (vd_times db))
     @ map ticketPartToLineSpec (filter (\<lambda>(k, p). tp_ticketId p = ticketId \<and> tp_isBillable p \<and> tp_billingStatus p = SbNotBilled) (vd_parts db))"

fun materializeLines :: "id \<Rightarrow> id \<Rightarrow> int \<Rightarrow> invoice_line list \<Rightarrow> id list \<Rightarrow> invoice_db \<Rightarrow> invoice_error + invoice_db" where
  "materializeLines i orgId pos (s # specs) (k # ks) db =
     and_then (add_line k (s\<lparr>il_invoiceId := i, il_orgId := orgId, il_sortOrder := pos\<rparr>) db) (materializeLines i orgId (pos + 1) specs ks)"
| "materializeLines i orgId pos specs ks db = Inr db"

text \<open>The days of the range as instants; both ends are included, the last second of the last day too.\<close>

definition day_start :: "string \<Rightarrow> int" where
  "day_start text =
     (case parts text of
        (Some y, Some m, Some d) \<Rightarrow> (day_number y m d - day_number 1970 1 1) * 86400000
      | _ \<Rightarrow> 0)"

definition day_end :: "string \<Rightarrow> int" where
  "day_end text = day_start text + 86399000"

definition assemble :: "id \<Rightarrow> id \<Rightarrow> id \<Rightarrow> id option \<Rightarrow> invoice_line list \<Rightarrow> id list \<Rightarrow> invoice_actor \<Rightarrow> invoice_db \<Rightarrow> invoice_error + invoice_db" where
  "assemble newId partnerId orgId siteId specs lineIds actor db =
     and_then (ensure (specs \<noteq> []) NOTHING_TO_INVOICE) (\<lambda>_.
     and_then (insert_invoice newId (blank_invoice partnerId orgId siteId (ia_userId actor)) db) (\<lambda>db1.
     and_then (materializeLines newId orgId 0 specs lineIds db1)
       (recomputeInvoiceTotals newId None)))"

definition assembleDraftFromOrg ::
  "id \<Rightarrow> id list \<Rightarrow> id \<Rightarrow> id option \<Rightarrow> string \<Rightarrow> string \<Rightarrow> invoice_actor \<Rightarrow> invoice_db \<Rightarrow> invoice_error + invoice_db" where
  "assembleDraftFromOrg newId lineIds orgId siteId fromDay toDay actor db =
     and_then (requirePartner actor) (\<lambda>partnerId.
     and_then (requireInvoiceOrgAccess actor orgId) (\<lambda>_.
     and_then (requireSiteAccess actor siteId) (\<lambda>_.
     assemble newId partnerId orgId siteId
       (gatherOrgTimeEntries db orgId (day_start fromDay) (day_end toDay) @ gatherOrgParts db orgId (day_start fromDay) (day_end toDay))
       lineIds actor db)))"

definition assembleDraftFromTicket :: "id \<Rightarrow> id list \<Rightarrow> id \<Rightarrow> invoice_actor \<Rightarrow> invoice_db \<Rightarrow> invoice_error + invoice_db" where
  "assembleDraftFromTicket newId lineIds ticketId actor db =
     and_then (requirePartner actor) (\<lambda>partnerId.
     case vd_ticketOrgs db ticketId of
       None \<Rightarrow> Inl INVOICE_NOT_FOUND
     | Some orgId \<Rightarrow>
         and_then (requireInvoiceOrgAccess actor orgId) (\<lambda>_.
         and_then (requireSiteAccess actor None) (\<lambda>_.
         assemble newId partnerId orgId None (gatherTicketBillables db ticketId) lineIds actor db)))"

section \<open>Issue\<close>

definition formatInvoiceNumber :: "string \<Rightarrow> int \<Rightarrow> nat \<Rightarrow> string" where
  "formatInvoiceNumber pre year counter =
     (let n = dec_string counter in pre @ ''-'' @ number_text year @ ''-'' @ replicate (4 - length n) (CHR ''0'') @ n)"

definition source_ids :: "line_source \<Rightarrow> (id \<times> invoice_line) list \<Rightarrow> id list" where
  "source_ids source ls = List.map_filter (\<lambda>(k, l). if il_sourceType l = source then str_or_none (il_sourceId l) else None) ls"

record issue_plan =
  pl_invoice :: invoice_row
  pl_timeIds :: "id list"
  pl_partIds :: "id list"

text \<open>What is read before the transaction of the issue.\<close>

definition issue_check :: "id \<Rightarrow> invoice_actor \<Rightarrow> invoice_db \<Rightarrow> invoice_error + issue_plan" where
  "issue_check i actor db =
     and_then (editable_draft db i actor) (\<lambda>v.
     let ls = lines_of db i
     in and_then (ensure (list_ex (il_customerVisible \<circ> snd) ls) NO_VISIBLE_LINES) (\<lambda>_.
        Inr \<lparr>pl_invoice = v, pl_timeIds = source_ids SrcTimeEntry ls, pl_partIds = source_ids SrcPart ls\<rparr>))"

definition already_billed :: "id list \<Rightarrow> (id \<times> source_billing) list \<Rightarrow> id list" where
  "already_billed ids rows = map fst (filter (\<lambda>(k, b). k \<in> set ids \<and> b \<noteq> SbNotBilled) rows)"

definition set_times :: "id list \<Rightarrow> source_billing \<Rightarrow> invoice_db \<Rightarrow> invoice_db" where
  "set_times ids b db = db\<lparr>vd_times := map (\<lambda>(k, t). (k, if k \<in> set ids then t\<lparr>te_billingStatus := b\<rparr> else t)) (vd_times db)\<rparr>"

definition set_parts :: "id list \<Rightarrow> source_billing \<Rightarrow> invoice_db \<Rightarrow> invoice_db" where
  "set_parts ids b db = db\<lparr>vd_parts := map (\<lambda>(k, p). (k, if k \<in> set ids then p\<lparr>tp_billingStatus := b\<rparr> else p)) (vd_parts db)\<rparr>"

definition allocate_number :: "id \<Rightarrow> int \<Rightarrow> invoice_db \<Rightarrow> nat \<times> invoice_db" where
  "allocate_number partnerId year db =
     (let counter = (case vd_sequences db (partnerId, year) of None \<Rightarrow> 0 | Some n \<Rightarrow> n) + 1
      in (counter, db\<lparr>vd_sequences := (vd_sequences db)((partnerId, year) \<mapsto> counter)\<rparr>))"

definition year_of :: "string \<Rightarrow> int" where
  "year_of today = (case parts today of (Some y, _, _) \<Rightarrow> y | _ \<Rightarrow> 0)"

text \<open>What the issue writes; \<open>v\<close> is the row as it was read before.\<close>

record issue_values =
  iw_number :: string
  iw_today :: string
  iw_taxRate :: string
  iw_subtotal :: string
  iw_taxTotal :: string
  iw_total :: string

definition issued_row :: "billing_org option \<Rightarrow> billing_partner option \<Rightarrow> invoice_row \<Rightarrow> issue_values \<Rightarrow> invoice_row \<Rightarrow> invoice_row" where
  "issued_row org partner v x w = w
     \<lparr>inv_status := InvSent, inv_number := Some (iw_number x),
      inv_currencyCode := (case partner of Some p \<Rightarrow> bp_currencyCode p | None \<Rightarrow> ''USD''),
      inv_issueDate := Some (iw_today x),
      inv_dueDate := Some (addDaysISO (iw_today x) (case partner of Some p \<Rightarrow> bp_invoiceTermsDays p | None \<Rightarrow> 30)),
      inv_taxRate := Some (iw_taxRate x), inv_subtotal := iw_subtotal x, inv_taxTotal := iw_taxTotal x,
      inv_total := iw_total x, inv_balance := iw_total x,
      inv_billToName := map_option bo_name org, inv_billToTaxId := Option.bind org bo_taxId,
      inv_billToTaxExempt := (case org of Some p \<Rightarrow> bo_taxExempt p | None \<Rightarrow> False),
      inv_terms := Option.bind partner bp_invoiceFooter,
      inv_termsAndConditions := nullish (inv_termsAndConditions v) (Option.bind partner bp_billingTermsAndConditions)\<rparr>"

text \<open>
  The transaction: \<open>today\<close> is the date of its clock, and the due date lies whole days after it. The guard locks the rows it
  finds, which are those that were billed; the rows that are not billed are read without a lock.
\<close>

definition issue_guard :: "issue_plan \<Rightarrow> invoice_db \<Rightarrow> invoice_error + unit" where
  "issue_guard plan db =
     (let billedTimes = already_billed (pl_timeIds plan) (map (apsnd te_billingStatus) (vd_times db));
          billedParts = already_billed (pl_partIds plan) (map (apsnd tp_billingStatus) (vd_parts db))
      in and_then (ensure (billedTimes = []) (SOURCE_ALREADY_BILLED billedTimes)) (\<lambda>_.
         ensure (billedParts = []) (SOURCE_ALREADY_BILLED billedParts)))"

definition issue_write :: "id \<Rightarrow> issue_plan \<Rightarrow> string \<Rightarrow> invoice_db \<Rightarrow> invoice_error + invoice_db" where
  "issue_write i plan today db =
     (let v = pl_invoice plan; org = vd_orgs db (inv_orgId v); partner = vd_partners db (inv_partnerId v);
          taxRate = resolveEffectiveTaxRate (case org of Some x \<Rightarrow> bo_taxExempt x | None \<Rightarrow> False) (Option.bind org bo_taxRate)
                      (Option.bind partner bp_defaultTaxRate);
          (counter, db1) = allocate_number (inv_partnerId v) (year_of today) db;
          number = formatInvoiceNumber (case partner of Some x \<Rightarrow> bp_invoiceNumberPrefix x | None \<Rightarrow> ''INV'') (year_of today) counter;
          totals = computeInvoiceTotals (invoice_totals_lines db i) (Some taxRate)
      in and_then (numeric_column (iv_subtotal totals)) (\<lambda>subtotal.
         and_then (numeric_column (iv_taxTotal totals)) (\<lambda>taxTotal.
         and_then (numeric_column (iv_total totals)) (\<lambda>tot.
         Inr (set_parts (pl_partIds plan) SbBilled (set_times (pl_timeIds plan) SbBilled
           (update_invoice i (issued_row org partner v
              \<lparr>iw_number = number, iw_today = today, iw_taxRate = taxRate, iw_subtotal = subtotal, iw_taxTotal = taxTotal,
               iw_total = tot\<rparr>) db1)))))))"

definition issue_commit :: "id \<Rightarrow> issue_plan \<Rightarrow> string \<Rightarrow> invoice_db \<Rightarrow> invoice_error + invoice_db" where
  "issue_commit i plan today db = and_then (issue_guard plan db) (\<lambda>_. issue_write i plan today db)"

definition issueInvoice :: "id \<Rightarrow> invoice_actor \<Rightarrow> string \<Rightarrow> invoice_db \<Rightarrow> invoice_error + invoice_db" where
  "issueInvoice i actor today db = and_then (issue_check i actor db) (\<lambda>plan. issue_commit i plan today db)"

section \<open>Payments\<close>

definition payments_of :: "invoice_db \<Rightarrow> id \<Rightarrow> string list" where
  "payments_of db i = map (ip_amount \<circ> snd) (filter (\<lambda>(k, p). ip_invoiceId p = i) (vd_payments db))"

definition paid_cents :: "string list \<Rightarrow> jsnum" where
  "paid_cents amounts = foldl (\<lambda>s a. js_add s (toCents (Some a))) (Some 0) amounts"

definition recomputeInvoiceStatus :: "id \<Rightarrow> int \<Rightarrow> invoice_db \<Rightarrow> invoice_error + invoice_db" where
  "recomputeInvoiceStatus i now db =
     and_then (getOwnedInvoiceOr404 db i) (\<lambda>v.
     let amountPaid = fromCents (paid_cents (payments_of db i));
         balance = fromCents (js_sub (toCents (Some (inv_total v))) (toCents (Some amountPaid)));
         status = deriveInvoiceStatus (inv_voidedAt v \<noteq> None) (inv_number v \<noteq> None) (inv_total v) amountPaid
                    (map_option day_end (inv_dueDate v)) now
     in and_then (numeric_column amountPaid) (\<lambda>paid.
        and_then (numeric_column balance) (\<lambda>bal.
        Inr (set_invoice i (v
          \<lparr>inv_amountPaid := paid, inv_balance := bal, inv_status := status,
           inv_paidAt := (if status = InvPaid \<and> inv_paidAt v = None then Some now else inv_paidAt v),
           inv_markedOverdueAt := (if status = InvOverdue \<and> inv_markedOverdueAt v = None then Some now else inv_markedOverdueAt v)\<rparr>) db))))"

definition updateIssuedDueDate :: "id \<Rightarrow> string \<Rightarrow> invoice_actor \<Rightarrow> int \<Rightarrow> invoice_db \<Rightarrow> invoice_error + invoice_db" where
  "updateIssuedDueDate i dueDate actor now db =
     and_then (getOwnedInvoiceOr404 db i) (\<lambda>v.
     and_then (requireInvoiceAccess actor v) (\<lambda>_.
     and_then (ensure (inv_status v \<in> {InvSent, InvPartiallyPaid, InvOverdue}) INVALID_STATE) (\<lambda>_.
     recomputeInvoiceStatus i now (set_invoice i (v\<lparr>inv_dueDate := Some dueDate\<rparr>) db))))"

record payment_input =
  py_amount :: string
  py_method :: string
  py_reference :: "string option"
  py_receivedAt :: string
  py_note :: "string option"

text \<open>What is read before the payment is written, and what is written; the amount is positive by a check of the column.\<close>

definition payment_check :: "id \<Rightarrow> payment_input \<Rightarrow> invoice_actor \<Rightarrow> invoice_db \<Rightarrow> invoice_error + invoice_row" where
  "payment_check i input actor db =
     and_then (getOwnedInvoiceOr404 db i) (\<lambda>v.
     and_then (requireInvoiceAccess actor v) (\<lambda>_.
     and_then (ensure (inv_status v \<noteq> InvDraft) INVALID_STATE) (\<lambda>_.
     and_then (ensure (inv_status v \<noteq> InvVoid) INVALID_STATE) (\<lambda>_.
     and_then (ensure (\<not> js_less (math_round (js_mul (js_Number (inv_balance v)) (Some 100)))
                              (math_round (js_mul (js_Number (py_amount input)) (Some 100)))) OVERPAYMENT) (\<lambda>_.
     Inr v)))))"

definition payment_write ::
  "id \<Rightarrow> id \<Rightarrow> payment_input \<Rightarrow> invoice_actor \<Rightarrow> invoice_row \<Rightarrow> int \<Rightarrow> invoice_db \<Rightarrow> invoice_error + invoice_db" where
  "payment_write i payId input actor v now db =
     and_then (numeric_column (money_text (py_amount input))) (\<lambda>amount.
     and_then (ensure (js_less (Some 0) (js_Number amount)) NUMERIC_OVERFLOW) (\<lambda>_.
     and_then (ensure (payId \<notin> fst ` set (vd_payments db)) UNIQUE_KEY) (\<lambda>_.
     recomputeInvoiceStatus i now
       (db\<lparr>vd_payments := vd_payments db @
          [(payId, \<lparr>ip_invoiceId = i, ip_orgId = inv_orgId v, ip_amount = amount, ip_method = py_method input,
                    ip_reference = py_reference input, ip_receivedAt = py_receivedAt input, ip_recordedBy = ia_userId actor,
                    ip_note = py_note input\<rparr>)]\<rparr>))))"

definition recordPayment ::
  "id \<Rightarrow> id \<Rightarrow> payment_input \<Rightarrow> invoice_actor \<Rightarrow> int \<Rightarrow> invoice_db \<Rightarrow> invoice_error + invoice_db" where
  "recordPayment i payId input actor now db =
     and_then (payment_check i input actor db) (\<lambda>v. payment_write i payId input actor v now db)"

definition voidPayment :: "id \<Rightarrow> invoice_actor \<Rightarrow> int \<Rightarrow> invoice_db \<Rightarrow> invoice_error + invoice_db" where
  "voidPayment payId actor now db =
     (case map_of (vd_payments db) payId of
        None \<Rightarrow> Inl PAYMENT_NOT_FOUND
      | Some pay \<Rightarrow>
          and_then (getOwnedInvoiceOr404 db (ip_invoiceId pay)) (\<lambda>v.
          and_then (requireInvoiceAccess actor v) (\<lambda>_.
          recomputeInvoiceStatus (ip_invoiceId pay) now
            (db\<lparr>vd_payments := filter (\<lambda>(k, p). k \<noteq> payId) (vd_payments db)\<rparr>))))"

section \<open>Void, overdue and viewed\<close>

definition clone_line :: "id \<Rightarrow> id option \<Rightarrow> invoice_line \<Rightarrow> invoice_line" where
  "clone_line draftId parentId l = l\<lparr>il_invoiceId := draftId, il_parentLineId := parentId\<rparr>"

text \<open>The clone of the lines: parents first, children with the id of the cloned parent. \<open>newLine\<close> gives the id of a cloned line.\<close>

definition clone_lines :: "id \<Rightarrow> (id \<Rightarrow> id) \<Rightarrow> (id \<times> invoice_line) list \<Rightarrow> (id \<times> invoice_line) list" where
  "clone_lines draftId newLine ls =
     (let ordered = sort_key (il_sortOrder \<circ> snd) ls;
          parents = filter (\<lambda>(k, l). il_parentLineId l = None) ordered;
          children = filter (\<lambda>(k, l). il_parentLineId l \<noteq> None) ordered
      in map (\<lambda>(k, l). (newLine k, clone_line draftId None l)) parents
         @ map (\<lambda>(k, l). (newLine k, clone_line draftId
               (case il_parentLineId l of Some p \<Rightarrow> if p \<in> fst ` set parents then Some (newLine p) else None | None \<Rightarrow> None) l)) children)"

definition void_transaction ::
  "id \<Rightarrow> string \<Rightarrow> id option \<Rightarrow> (id \<Rightarrow> id) \<Rightarrow> invoice_actor \<Rightarrow> int \<Rightarrow> invoice_db \<Rightarrow> invoice_error + invoice_db" where
  "void_transaction i reason reissue newLine actor now db =
     and_then (getOwnedInvoiceOr404 db i) (\<lambda>v.
     and_then (requireInvoiceAccess actor v) (\<lambda>_.
     and_then (ensure (inv_status v \<noteq> InvDraft) INVALID_STATE) (\<lambda>_.
     and_then (ensure (inv_status v \<noteq> InvVoid) INVALID_STATE) (\<lambda>_.
     let ls = lines_of db i;
         db1 = set_parts (source_ids SrcPart ls) SbNotBilled (set_times (source_ids SrcTimeEntry ls) SbNotBilled
                 (update_invoice i (\<lambda>w. w\<lparr>inv_status := InvVoid, inv_voidedAt := Some now, inv_voidReason := Some reason\<rparr>) db))
     in case reissue of
          None \<Rightarrow> Inr db1
        | Some draftId \<Rightarrow>
            and_then (insert_invoice draftId ((blank_invoice (inv_partnerId v) (inv_orgId v) (inv_siteId v) (ia_userId actor))
                        \<lparr>inv_notes := inv_notes v, inv_replacesInvoiceId := Some i\<rparr>) db1) (\<lambda>db2.
            and_then (ensure (distinct (map fst (vd_lines db @ clone_lines draftId newLine ls))) UNIQUE_KEY) (\<lambda>_.
            Inr ((update_invoice i (\<lambda>w. w\<lparr>inv_replacedByInvoiceId := Some draftId\<rparr>) db2)
                   \<lparr>vd_lines := vd_lines db @ clone_lines draftId newLine ls\<rparr>)))))))"

text \<open>The void commits before the new draft is totalled.\<close>

definition voidInvoice ::
  "id \<Rightarrow> string \<Rightarrow> id option \<Rightarrow> (id \<Rightarrow> id) \<Rightarrow> invoice_actor \<Rightarrow> int \<Rightarrow> invoice_db \<Rightarrow> (invoice_error + id) \<times> invoice_db" where
  "voidInvoice i reason reissue newLine actor now db =
     (case void_transaction i reason reissue newLine actor now db of
        Inl e \<Rightarrow> (Inl e, db)
      | Inr db1 \<Rightarrow>
          (case reissue of
             None \<Rightarrow> (Inr i, db1)
           | Some draftId \<Rightarrow>
               (case recomputeInvoiceTotals draftId None db1 of Inl e \<Rightarrow> (Inl e, db1) | Inr db2 \<Rightarrow> (Inr draftId, db2))))"

definition overdue_due :: "string \<Rightarrow> invoice_row \<Rightarrow> bool" where
  "overdue_due today v =
     (inv_status v \<in> {InvSent, InvPartiallyPaid} \<and> (case inv_dueDate v of None \<Rightarrow> False | Some d \<Rightarrow> str_le d today \<and> d \<noteq> today)
      \<and> (case decimal_value (inv_balance v) of Some b \<Rightarrow> 0 < b | None \<Rightarrow> False))"

text \<open>The ids are those of the table.\<close>

definition runOverdueSweep :: "id list \<Rightarrow> string \<Rightarrow> int \<Rightarrow> invoice_db \<Rightarrow> invoice_db" where
  "runOverdueSweep ids today now db =
     foldl (\<lambda>d i. update_invoice i (\<lambda>v. v\<lparr>inv_status := InvOverdue, inv_markedOverdueAt := Some now\<rparr>) d) db
       (filter (\<lambda>i. case vd_invoices db i of Some v \<Rightarrow> overdue_due today v | None \<Rightarrow> False) ids)"

definition markViewed :: "id \<Rightarrow> id option \<Rightarrow> int \<Rightarrow> invoice_db \<Rightarrow> invoice_error + invoice_db" where
  "markViewed i orgId now db =
     and_then (getOwnedInvoiceOr404 db i) (\<lambda>v.
     and_then (ensure (orgId = None \<or> orgId = Some (inv_orgId v)) INVOICE_NOT_FOUND) (\<lambda>_.
     Inr (set_invoice i (v\<lparr>inv_viewedAt := Some now,
                           inv_firstViewedAt := (if inv_firstViewedAt v = None then Some now else inv_firstViewedAt v)\<rparr>) db)))"

record customer_line =
  cu_description :: string
  cu_quantity :: string
  cu_unitPrice :: string
  cu_taxable :: bool
  cu_lineTotal :: string

definition toCustomerInvoiceLine :: "invoice_line \<Rightarrow> customer_line" where
  "toCustomerInvoiceLine l =
     \<lparr>cu_description = (case nullish (il_description l) (il_name l) of Some d \<Rightarrow> d | None \<Rightarrow> []), cu_quantity = il_quantity l,
      cu_unitPrice = il_unitPrice l, cu_taxable = il_taxable l, cu_lineTotal = il_lineTotal l\<rparr>"

definition getCustomerInvoice :: "id \<Rightarrow> id option \<Rightarrow> invoice_db \<Rightarrow> invoice_error + customer_line list" where
  "getCustomerInvoice i orgId db =
     and_then (getOwnedInvoiceOr404 db i) (\<lambda>v.
     and_then (ensure (orgId = None \<or> orgId = Some (inv_orgId v)) INVOICE_NOT_FOUND) (\<lambda>_.
     Inr (map (toCustomerInvoiceLine \<circ> snd)
       (sort_key (il_sortOrder \<circ> snd) (filter (il_customerVisible \<circ> snd) (lines_of db i))))))"

section \<open>Billing settings\<close>

text \<open>An outer \<open>None\<close> of a field is a field the patch leaves out. The addresses and the contact are left out.\<close>

record partner_billing_patch =
  pb_currencyCode :: string
  pb_defaultTaxRate :: "string option option"
  pb_invoiceNumberPrefix :: string
  pb_invoiceTermsDays :: int
  pb_invoiceFooter :: "string option option"
  pb_billingTermsAndConditions :: "string option option"

definition patched :: "'a option \<Rightarrow> 'a \<Rightarrow> 'a" where
  "patched p old = (case p of Some x \<Rightarrow> x | None \<Rightarrow> old)"

definition rate_text :: "string \<Rightarrow> string" where
  "rate_text s = js_toFixed 5 (js_Number s)"

definition updatePartnerBillingSettings :: "partner_billing_patch \<Rightarrow> invoice_actor \<Rightarrow> invoice_db \<Rightarrow> invoice_error + invoice_db" where
  "updatePartnerBillingSettings patch actor db =
     and_then (requirePartner actor) (\<lambda>partnerId.
     case vd_partners db partnerId of
       None \<Rightarrow> Inl PARTNER_UNRESOLVABLE
     | Some row \<Rightarrow>
         Inr (db\<lparr>vd_partners := (vd_partners db)(partnerId \<mapsto>
           \<lparr>bp_currencyCode = pb_currencyCode patch,
            bp_defaultTaxRate = patched (map_option (map_option rate_text) (pb_defaultTaxRate patch)) (bp_defaultTaxRate row),
            bp_invoiceNumberPrefix = pb_invoiceNumberPrefix patch, bp_invoiceTermsDays = pb_invoiceTermsDays patch,
            bp_invoiceFooter = patched (pb_invoiceFooter patch) (bp_invoiceFooter row),
            bp_billingTermsAndConditions = patched (pb_billingTermsAndConditions patch) (bp_billingTermsAndConditions row)\<rparr>)\<rparr>))"

record org_billing_patch =
  ob_taxId :: "string option option"
  ob_taxExempt :: "bool option"
  ob_taxRate :: "string option option"

definition updateOrgBillingSettings :: "id \<Rightarrow> org_billing_patch \<Rightarrow> invoice_actor \<Rightarrow> invoice_db \<Rightarrow> invoice_error + invoice_db" where
  "updateOrgBillingSettings orgId patch actor db =
     and_then (requireInvoiceOrgAccess actor orgId) (\<lambda>_.
     case vd_orgs db orgId of
       None \<Rightarrow> Inl INVOICE_NOT_FOUND
     | Some row \<Rightarrow>
         Inr (db\<lparr>vd_orgs := (vd_orgs db)(orgId \<mapsto> row
           \<lparr>bo_taxId := patched (ob_taxId patch) (bo_taxId row), bo_taxExempt := patched (ob_taxExempt patch) (bo_taxExempt row),
            bo_taxRate := patched (map_option (map_option rate_text) (ob_taxRate patch)) (bo_taxRate row)\<rparr>)\<rparr>))"

section \<open>Edits of time entries and parts\<close>

text \<open>The billing status is one of the fields a time entry or a part can be edited in; the other fields are left out.\<close>

record entry_actor =
  ea_userId :: id
  ea_manageAll :: bool
  ea_accessibleOrgIds :: "id list option"

definition entryOrgAllowed :: "time_entry \<Rightarrow> id list option \<Rightarrow> bool" where
  "entryOrgAllowed entry accessibleOrgIds =
     (case accessibleOrgIds of None \<Rightarrow> True
      | Some ids \<Rightarrow> (case te_orgId entry of None \<Rightarrow> True | Some org \<Rightarrow> org \<in> set ids))"

definition assertCanMutate :: "time_entry \<Rightarrow> entry_actor \<Rightarrow> invoice_error + unit" where
  "assertCanMutate entry actor =
     and_then (ensure (te_userId entry = ea_userId actor \<or> ea_manageAll actor) NOT_OWN_ENTRY)
       (\<lambda>_. ensure (\<not> te_isApproved entry \<or> ea_manageAll actor) APPROVED_IMMUTABLE)"

definition updateTimeEntry_status :: "id \<Rightarrow> source_billing \<Rightarrow> entry_actor \<Rightarrow> invoice_db \<Rightarrow> invoice_error + invoice_db" where
  "updateTimeEntry_status entryId status actor db =
     (case map_of (vd_times db) entryId of
        None \<Rightarrow> Inl ENTRY_NOT_FOUND
      | Some entry \<Rightarrow>
          and_then (ensure (entryOrgAllowed entry (ea_accessibleOrgIds actor)) ENTRY_NOT_FOUND) (\<lambda>_.
          and_then (assertCanMutate entry actor) (\<lambda>_.
          Inr (db\<lparr>vd_times := map (\<lambda>(k, t). (k, if k = entryId then t\<lparr>te_billingStatus := status, te_isApproved := False\<rparr> else t))
                     (vd_times db)\<rparr>))))"

section \<open>Invoices of accepted quotes\<close>

text \<open>
  quoteAcceptService.ts: the invoice an accepted quote becomes. It is inserted as a draft, filled with the one-time lines,
  and issued in the same transaction when there are any, with the totals and the terms of the quote.
\<close>

record accepted_quote =
  aq_partnerId :: id
  aq_orgId :: id
  aq_siteId :: "id option"
  aq_quoteNumber :: "string option"
  aq_currencyCode :: string
  aq_taxRate :: "string option"
  aq_billToName :: "string option"
  aq_billToTaxId :: "string option"
  aq_terms :: "string option"
  aq_termsAndConditions :: "string option"
  aq_depositType :: deposit_type
  aq_depositAmount :: "string option"

record accepted_line =
  al_catalogItemId :: "id option"
  al_description :: "string option"
  al_quantity :: string
  al_unitPrice :: string
  al_taxable :: bool

definition accepted_spec :: "accepted_line \<Rightarrow> invoice_line" where
  "accepted_spec l =
     (line_spec SrcManual (al_quantity l) (al_unitPrice l) (al_taxable l))
       \<lparr>il_catalogItemId := al_catalogItemId l, il_description := al_description l\<rparr>"

definition accepted_totals :: "accepted_quote \<Rightarrow> accepted_line list \<Rightarrow> invoice_totals" where
  "accepted_totals q oneTime = computeInvoiceTotals (map (totals_line_of \<circ> accepted_spec) oneTime) (aq_taxRate q)"

definition accepted_draft :: "accepted_quote \<Rightarrow> id option \<Rightarrow> invoice_row" where
  "accepted_draft q actorUserId =
     (blank_invoice (aq_partnerId q) (aq_orgId q) (aq_siteId q) actorUserId)
       \<lparr>inv_currencyCode := aq_currencyCode q, inv_taxRate := aq_taxRate q,
        inv_notes := Some (case str_or_none (aq_quoteNumber q) of Some n \<Rightarrow> ''Converted from quote '' @ n | None \<Rightarrow> ''Converted from quote'')\<rparr>"

definition accepted_deposit :: "accepted_quote \<Rightarrow> string option" where
  "accepted_deposit q =
     (if aq_depositType q \<noteq> TypeNone \<and> (case aq_depositAmount q of None \<Rightarrow> False | Some a \<Rightarrow> js_less (Some 0) (js_Number a))
      then aq_depositAmount q else None)"

text \<open>The fields written last; \<open>number\<close> is there when the invoice is issued.\<close>

definition accepted_row :: "accepted_quote \<Rightarrow> (string \<times> int) option \<Rightarrow> string \<Rightarrow> string \<Rightarrow> string \<Rightarrow> string \<Rightarrow> invoice_row \<Rightarrow> invoice_row" where
  "accepted_row q number today subtotal taxTotal tot v =
     (let w = v\<lparr>inv_subtotal := subtotal, inv_taxTotal := taxTotal, inv_total := tot, inv_balance := tot\<rparr>
      in case number of
           None \<Rightarrow> w
         | Some (n, termsDays) \<Rightarrow> w
             \<lparr>inv_status := InvSent, inv_number := Some n, inv_issueDate := Some today, inv_dueDate := Some (addDaysISO today termsDays),
              inv_billToName := aq_billToName q, inv_billToTaxId := aq_billToTaxId q, inv_termsAndConditions := aq_termsAndConditions q,
              inv_terms := aq_terms q, inv_depositDue := accepted_deposit q\<rparr>)"

definition accept_issue :: "id \<Rightarrow> accepted_quote \<Rightarrow> string \<Rightarrow> string \<Rightarrow> string \<Rightarrow> string \<Rightarrow> invoice_db \<Rightarrow> invoice_db" where
  "accept_issue i q today subtotal taxTotal tot db =
     (let partner = vd_partners db (aq_partnerId q);
          (counter, db') = allocate_number (aq_partnerId q) (year_of today) db;
          number = formatInvoiceNumber (case partner of Some x \<Rightarrow> bp_invoiceNumberPrefix x | None \<Rightarrow> ''INV'') (year_of today) counter;
          termsDays = (case partner of Some x \<Rightarrow> bp_invoiceTermsDays x | None \<Rightarrow> 30)
      in update_invoice i (accepted_row q (Some (number, termsDays)) today subtotal taxTotal tot) db')"

definition accept_invoice ::
  "id \<Rightarrow> id list \<Rightarrow> accepted_quote \<Rightarrow> accepted_line list \<Rightarrow> id option \<Rightarrow> string \<Rightarrow> invoice_db \<Rightarrow> invoice_error + invoice_db" where
  "accept_invoice i lineIds q oneTime actorUserId today db =
     and_then (insert_invoice i (accepted_draft q actorUserId) db) (\<lambda>db1.
     and_then (materializeLines i (aq_orgId q) 0 (map accepted_spec oneTime) lineIds db1) (\<lambda>db2.
     and_then (numeric_column (iv_subtotal (accepted_totals q oneTime))) (\<lambda>subtotal.
     and_then (numeric_column (iv_taxTotal (accepted_totals q oneTime))) (\<lambda>taxTotal.
     and_then (numeric_column (iv_total (accepted_totals q oneTime))) (\<lambda>tot.
     Inr (if oneTime = [] then update_invoice i (accepted_row q None today subtotal taxTotal tot) db2
          else accept_issue i q today subtotal taxTotal tot db2))))))"

end
