(* ===== verification/Quotes.thy ===== *)
theory Quotes
  imports Invoices Quote_To_Contract
begin

text \<open>
  apps/api/src/services/quoteService.ts, quoteLifecycle.ts, quoteAcceptService.ts, quoteNumbers.ts and quoteExpiry.ts with
  jobs/quoteExpiryReaper.ts, jobs/quoteSendQueue.ts and the decline and accept handlers of routes/quotesPublic.ts and
  routes/portal/quotes.ts: quotes with their blocks and lines, and the invoice and the contracts an accepted quote becomes.
  Ids of new rows, the clock and what the templates of contract blocks leave unresolved are arguments. Images, cover pages,
  addresses, e-mails, the hash of the accepted content and the orders staged for a distributor are left out.
\<close>

section \<open>Tables\<close>

datatype quote_status = QDraft | QSent | QViewed | QAccepted | QDeclined | QExpired | QConverted

datatype block_type = BHeading | BRichText | BImage | BLineItems | BContract

record quote_row =
  qr_partnerId :: id
  qr_orgId :: id
  qr_siteId :: "id option"
  qr_quoteNumber :: "string option"
  qr_title :: "string option"
  qr_status :: quote_status
  qr_currencyCode :: string
  qr_issueDate :: "string option"
  qr_expiryDate :: "string option"
  qr_subtotal :: string
  qr_taxRate :: "string option"
  qr_taxTotal :: string
  qr_total :: string
  qr_oneTimeTotal :: string
  qr_monthlyRecurringTotal :: string
  qr_annualRecurringTotal :: string
  qr_depositType :: deposit_type
  qr_depositPercent :: "string option"
  qr_depositAmount :: "string option"
  qr_billToName :: "string option"
  qr_billToTaxId :: "string option"
  qr_terms :: "string option"
  qr_termsAndConditions :: "string option"
  qr_declineReason :: "string option"
  qr_convertedInvoiceId :: "id option"
  qr_sendJobId :: "string option"
  qr_sendEmailReason :: "string option"
  qr_firstViewedAt :: "int option"
  qr_publicTokenVersion :: int
  qr_publicResponseJti :: "string option"
  qr_publicResponseConsumedAt :: "int option"
  qr_createdBy :: "id option"

record quote_item =
  qi_quoteId :: id
  qi_blockId :: "id option"
  qi_orgId :: id
  qi_catalogItemId :: "id option"
  qi_parentLineId :: "id option"
  qi_name :: "string option"
  qi_description :: "string option"
  qi_quantity :: string
  qi_unitPrice :: string
  qi_taxable :: bool
  qi_customerVisible :: bool
  qi_lineTotal :: string
  qi_recurrence :: quote_recurrence
  qi_termMonths :: "int option"
  qi_unitCost :: "string option"
  qi_depositEligible :: bool
  qi_itemType :: "item_type option"
  qi_sortOrder :: int

record quote_block =
  qb_quoteId :: id
  qb_orgId :: id
  qb_blockType :: block_type
  qb_template :: "(id \<times> id) option"
  qb_sortOrder :: int

record contract_template =
  tm_archived :: bool
  tm_orgId :: "id option"
  tm_partnerId :: "id option"

record quote_catalog_item =
  qc_partnerId :: id
  qc_name :: string
  qc_description :: "string option"
  qc_unitPrice :: string
  qc_taxable :: bool
  qc_recurring :: bool
  qc_annual :: bool
  qc_commitmentTermMonths :: "int option"
  qc_costBasis :: "string option"
  qc_itemType :: item_type

record quote_acceptance =
  qa_quoteId :: id
  qa_orgId :: id
  qa_signerName :: string
  qa_acceptanceTokenJti :: "string option"

record quote_db =
  qd_quotes :: "id \<Rightarrow> quote_row option"
  qd_lines :: "(id \<times> quote_item) list"
  qd_blocks :: "(id \<times> quote_block) list"
  qd_acceptances :: "(id \<times> quote_acceptance) list"
  qd_recipients :: "(id \<times> string) list"
  qd_sequences :: "id \<times> int \<Rightarrow> nat option"
  qd_versions :: "id \<Rightarrow> (id \<times> bool) option"
  qd_templates :: "id \<Rightarrow> contract_template option"
  qd_catalog :: "id \<Rightarrow> quote_catalog_item option"
  qd_billing :: invoice_db
  qd_contracts :: billing_db

datatype quote_error =
    Q_PARTNER_UNRESOLVABLE | Q_ORG_DENIED | ORG_NOT_FOUND | Q_SITE_DENIED | QUOTE_NOT_FOUND | Q_NOT_A_DRAFT | Q_LINE_NOT_FOUND
  | BLOCK_NOT_FOUND | BLOCK_TYPE_MISMATCH | CATALOG_ITEM_NOT_FOUND | INVALID_CONTRACT_TEMPLATE | Q_INVALID_STATE
  | RESPONSE_CONSUMED | QUOTE_EXPIRED | NOT_CONVERTED | REORDER_IDS_MISMATCH | LINE_IS_BUNDLE_CHILD | BLOCK_NOT_LINE_ITEMS
  | DEPOSIT_REFUSED deposit_error | DEPOSIT_INVALID | CONTRACT_VARIABLES_UNRESOLVED | CONTRACT_RENDER_DATA_MISSING
  | QUOTE_EMPTY | NOT_A_RECIPIENT | Q_UNIQUE_KEY | Q_FOREIGN_KEY | Q_DATABASE invoice_error | Q_TERM string

definition on_database :: "invoice_error + 'a \<Rightarrow> quote_error + 'a" where
  "on_database m = map_sum Q_DATABASE (\<lambda>x. x) m"

definition set_quote :: "id \<Rightarrow> quote_row \<Rightarrow> quote_db \<Rightarrow> quote_db" where
  "set_quote i q db = db\<lparr>qd_quotes := (qd_quotes db)(i \<mapsto> q)\<rparr>"

text \<open>\<open>UPDATE quotes ... WHERE id = i AND ...\<close>, with the number of rows changed.\<close>

definition update_quote :: "id \<Rightarrow> (quote_row \<Rightarrow> bool) \<Rightarrow> (quote_row \<Rightarrow> quote_row) \<Rightarrow> quote_db \<Rightarrow> nat \<times> quote_db" where
  "update_quote i P f db =
     (case qd_quotes db i of
        None \<Rightarrow> (0, db)
      | Some q \<Rightarrow> if P q then (1, set_quote i (f q) db) else (0, db))"

definition items_of :: "quote_db \<Rightarrow> id \<Rightarrow> (id \<times> quote_item) list" where
  "items_of db i = filter (\<lambda>(k, l). qi_quoteId l = i) (qd_lines db)"

definition blocks_of :: "quote_db \<Rightarrow> id \<Rightarrow> (id \<times> quote_block) list" where
  "blocks_of db i = filter (\<lambda>(k, b). qb_quoteId b = i) (qd_blocks db)"

definition math_line :: "quote_item \<Rightarrow> quote_math_line" where
  "math_line l =
     \<lparr>qm_quantity = qi_quantity l, qm_unitPrice = qi_unitPrice l, qm_unitCost = qi_unitCost l, qm_taxable = qi_taxable l,
      qm_customerVisible = qi_customerVisible l, qm_recurrence = qi_recurrence l, qm_depositEligible = qi_depositEligible l,
      qm_itemType = qi_itemType l\<rparr>"

definition math_lines :: "quote_db \<Rightarrow> id \<Rightarrow> quote_math_line list" where
  "math_lines db i = map (math_line \<circ> snd) (items_of db i)"

section \<open>Access\<close>

text \<open>A quote actor has the fields of an invoice actor.\<close>

definition resolvePartner :: "invoice_actor \<Rightarrow> quote_error + id" where
  "resolvePartner actor = (case str_or_none (ia_partnerId actor) of None \<Rightarrow> Inl Q_PARTNER_UNRESOLVABLE | Some p \<Rightarrow> Inr p)"

definition assertOrg :: "invoice_actor \<Rightarrow> id \<Rightarrow> quote_error + unit" where
  "assertOrg actor orgId = ensure (case ia_accessibleOrgIds actor of None \<Rightarrow> True | Some ids \<Rightarrow> orgId \<in> set ids) Q_ORG_DENIED"

definition assertSite :: "invoice_actor \<Rightarrow> id option \<Rightarrow> quote_error + unit" where
  "assertSite actor siteId =
     ensure (case ia_allowedSiteIds actor of
               None \<Rightarrow> True
             | Some ids \<Rightarrow> (case str_or_none siteId of None \<Rightarrow> False | Some s \<Rightarrow> s \<in> set ids)) Q_SITE_DENIED"

definition assertQuoteAccess :: "invoice_actor \<Rightarrow> quote_row \<Rightarrow> quote_error + unit" where
  "assertQuoteAccess actor q = and_then (assertOrg actor (qr_orgId q)) (\<lambda>_. assertSite actor (qr_siteId q))"

definition getQuote :: "id \<Rightarrow> invoice_actor \<Rightarrow> quote_db \<Rightarrow> quote_error + quote_row" where
  "getQuote i actor db =
     (case qd_quotes db i of
        None \<Rightarrow> Inl QUOTE_NOT_FOUND
      | Some q \<Rightarrow> and_then (assertQuoteAccess actor q) (\<lambda>_. Inr q))"

definition loadDraft :: "id \<Rightarrow> invoice_actor \<Rightarrow> quote_db \<Rightarrow> quote_error + quote_row" where
  "loadDraft i actor db = and_then (getQuote i actor db) (\<lambda>q. and_then (ensure (qr_status q = QDraft) Q_NOT_A_DRAFT) (\<lambda>_. Inr q))"

section \<open>Totals\<close>

definition quote_totals_of :: "quote_row \<Rightarrow> quote_math_line list \<Rightarrow> quote_totals" where
  "quote_totals_of q ls =
     computeQuoteTotals ls (quote_tax_rate (qr_taxRate q)) (Some (toQuoteDepositConfig (Some (qr_depositType q)) (qr_depositPercent q)))"

text \<open>The totals as the columns store them.\<close>

definition store_totals :: "quote_totals \<Rightarrow> quote_row \<Rightarrow> quote_error + quote_row" where
  "store_totals t q =
     and_then (on_database (numeric_column (qt_subtotal t))) (\<lambda>subtotal.
     and_then (on_database (numeric_column (qt_taxTotal t))) (\<lambda>taxTotal.
     and_then (on_database (numeric_column (qt_total t))) (\<lambda>tot.
     and_then (on_database (numeric_column (qt_oneTimeTotal t))) (\<lambda>oneTime.
     and_then (on_database (numeric_column (qt_monthlyRecurringTotal t))) (\<lambda>monthly.
     and_then (on_database (numeric_column (qt_annualRecurringTotal t))) (\<lambda>annual.
     and_then (on_database (numeric_column_opt (qt_depositDueTotal t))) (\<lambda>deposit.
     Inr (q\<lparr>qr_subtotal := subtotal, qr_taxTotal := taxTotal, qr_total := tot, qr_oneTimeTotal := oneTime,
            qr_monthlyRecurringTotal := monthly, qr_annualRecurringTotal := annual, qr_depositAmount := deposit\<rparr>))))))))"

definition recomputeAndPersist :: "id \<Rightarrow> quote_db \<Rightarrow> quote_error + quote_db" where
  "recomputeAndPersist i db =
     (case qd_quotes db i of
        None \<Rightarrow> Inr db
      | Some q \<Rightarrow> and_then (store_totals (quote_totals_of q (math_lines db i)) q) (\<lambda>q'. Inr (set_quote i q' db)))"

section \<open>Drafts\<close>

definition resolveQuoteTaxRate :: "quote_db \<Rightarrow> id \<Rightarrow> id \<Rightarrow> string option" where
  "resolveQuoteTaxRate db orgId partnerId =
     (let org = vd_orgs (qd_billing db) orgId;
          rate = resolveEffectiveTaxRate (case org of Some x \<Rightarrow> bo_taxExempt x | None \<Rightarrow> False) (Option.bind org bo_taxRate)
                   (Option.bind (vd_partners (qd_billing db) partnerId) Invoices.bp_defaultTaxRate)
      in if js_less (Some 0) (js_Number rate) then Some rate else None)"

definition formatQuoteNumber :: "string \<Rightarrow> int \<Rightarrow> nat \<Rightarrow> string" where
  "formatQuoteNumber = formatInvoiceNumber"

text \<open>The counter is taken in a transaction of its own: it stays when the request fails.\<close>

definition allocateQuoteCounter :: "id \<Rightarrow> int \<Rightarrow> quote_db \<Rightarrow> nat \<times> quote_db" where
  "allocateQuoteCounter partnerId year db =
     (let counter = (case qd_sequences db (partnerId, year) of None \<Rightarrow> 0 | Some n \<Rightarrow> n) + 1
      in (counter, db\<lparr>qd_sequences := (qd_sequences db)((partnerId, year) \<mapsto> counter)\<rparr>))"

record create_quote_input =
  cq_orgId :: id
  cq_siteId :: "id option"
  cq_title :: "string option"
  cq_currencyCode :: string
  cq_expiryDate :: "string option"
  cq_terms :: "string option"
  cq_termsAndConditions :: "string option"

definition blank_quote :: "id \<Rightarrow> id \<Rightarrow> string \<Rightarrow> id option \<Rightarrow> quote_row" where
  "blank_quote partnerId orgId number createdBy =
     \<lparr>qr_partnerId = partnerId, qr_orgId = orgId, qr_siteId = None, qr_quoteNumber = Some number, qr_title = None, qr_status = QDraft,
      qr_currencyCode = ''USD'', qr_issueDate = None, qr_expiryDate = None, qr_subtotal = ''0.00'', qr_taxRate = None,
      qr_taxTotal = ''0.00'', qr_total = ''0.00'', qr_oneTimeTotal = ''0.00'', qr_monthlyRecurringTotal = ''0.00'',
      qr_annualRecurringTotal = ''0.00'', qr_depositType = TypeNone, qr_depositPercent = None, qr_depositAmount = None,
      qr_billToName = None, qr_billToTaxId = None, qr_terms = None, qr_termsAndConditions = None, qr_declineReason = None,
      qr_convertedInvoiceId = None, qr_sendJobId = None, qr_sendEmailReason = None, qr_firstViewedAt = None,
      qr_publicTokenVersion = 0, qr_publicResponseJti = None, qr_publicResponseConsumedAt = None, qr_createdBy = createdBy\<rparr>"

definition insert_quote :: "id \<Rightarrow> quote_row \<Rightarrow> quote_db \<Rightarrow> quote_error + quote_db" where
  "insert_quote i q db =
     and_then (ensure (qd_quotes db i = None) Q_UNIQUE_KEY) (\<lambda>_.
     and_then (ensure (map_option bo_partnerId (vd_orgs (qd_billing db) (qr_orgId q)) = Some (qr_partnerId q)) Q_FOREIGN_KEY)
       (\<lambda>_. Inr (set_quote i q db)))"

definition trimmed_title :: "string option \<Rightarrow> string option" where
  "trimmed_title t = str_or_none (map_option trim t)"

definition createQuote :: "id \<Rightarrow> create_quote_input \<Rightarrow> invoice_actor \<Rightarrow> string \<Rightarrow> quote_db \<Rightarrow> quote_error + quote_db" where
  "createQuote newId input actor today db =
     and_then (resolvePartner actor) (\<lambda>partnerId.
     and_then (assertOrg actor (cq_orgId input)) (\<lambda>_.
     and_then (assertSite actor (cq_siteId input)) (\<lambda>_.
     let taxRate = resolveQuoteTaxRate db (cq_orgId input) partnerId;
         (counter, db1) = allocateQuoteCounter partnerId (year_of today) db
     in insert_quote newId ((blank_quote partnerId (cq_orgId input) (formatQuoteNumber ''Q'' (year_of today) counter) (ia_userId actor))
          \<lparr>qr_siteId := cq_siteId input, qr_title := trimmed_title (cq_title input), qr_currencyCode := cq_currencyCode input,
           qr_taxRate := taxRate, qr_expiryDate := cq_expiryDate input, qr_terms := cq_terms input,
           qr_termsAndConditions := cq_termsAndConditions input\<rparr>) db1)))"

section \<open>Contract blocks\<close>

definition assertContractBlockValid :: "quote_db \<Rightarrow> id \<times> id \<Rightarrow> id \<Rightarrow> id \<Rightarrow> quote_error + unit" where
  "assertContractBlockValid db ref orgId partnerId =
     (case ref of (templateId, versionId) \<Rightarrow>
        and_then (ensure (qd_versions db versionId = Some (templateId, True)) INVALID_CONTRACT_TEMPLATE) (\<lambda>_.
        case qd_templates db templateId of
          None \<Rightarrow> Inl INVALID_CONTRACT_TEMPLATE
        | Some t \<Rightarrow>
            and_then (ensure (\<not> tm_archived t) INVALID_CONTRACT_TEMPLATE) (\<lambda>_.
            ensure (case tm_orgId t of Some org \<Rightarrow> org = orgId | None \<Rightarrow> tm_partnerId t = Some partnerId) INVALID_CONTRACT_TEMPLATE)))"

text \<open>A block whose content is no reference is skipped.\<close>

fun assertContractBlocksValidForOrg :: "quote_db \<Rightarrow> quote_block list \<Rightarrow> id \<Rightarrow> id \<Rightarrow> quote_error + unit" where
  "assertContractBlocksValidForOrg db [] orgId partnerId = Inr ()"
| "assertContractBlocksValidForOrg db (b # bs) orgId partnerId =
     and_then (case (qb_blockType b, qb_template b) of
                 (BContract, Some ref) \<Rightarrow> assertContractBlockValid db ref orgId partnerId
               | _ \<Rightarrow> Inr ())
       (\<lambda>_. assertContractBlocksValidForOrg db bs orgId partnerId)"

definition next_block_order :: "quote_db \<Rightarrow> id \<Rightarrow> int" where
  "next_block_order db i = (case blocks_of db i of [] \<Rightarrow> 0 | bs \<Rightarrow> Max (set (map (qb_sortOrder \<circ> snd) bs)) + 1)"

definition next_line_order :: "(id \<times> quote_item) list \<Rightarrow> int" where
  "next_line_order ls = (case ls of [] \<Rightarrow> 0 | _ \<Rightarrow> Max (set (map (qi_sortOrder \<circ> snd) ls)) + 1)"

definition add_block_row :: "id \<Rightarrow> quote_block \<Rightarrow> quote_db \<Rightarrow> quote_error + quote_db" where
  "add_block_row k b db =
     and_then (ensure (k \<notin> fst ` set (qd_blocks db)) Q_UNIQUE_KEY) (\<lambda>_. Inr (db\<lparr>qd_blocks := qd_blocks db @ [(k, b)]\<rparr>))"

definition checked_template :: "quote_db \<Rightarrow> block_type \<Rightarrow> (id \<times> id) option \<Rightarrow> quote_row \<Rightarrow> quote_error + unit" where
  "checked_template db type template q =
     (case (type, template) of
        (BContract, Some ref) \<Rightarrow> assertContractBlockValid db ref (qr_orgId q) (qr_partnerId q)
      | _ \<Rightarrow> Inr ())"

text \<open>The input of a contract block has a reference, as its schema says.\<close>

definition addBlock :: "id \<Rightarrow> id \<Rightarrow> block_type \<Rightarrow> (id \<times> id) option \<Rightarrow> invoice_actor \<Rightarrow> quote_db \<Rightarrow> quote_error + quote_db" where
  "addBlock i blockId type template actor db =
     and_then (loadDraft i actor db) (\<lambda>q.
     and_then (checked_template db type template q) (\<lambda>_.
     add_block_row blockId \<lparr>qb_quoteId = i, qb_orgId = qr_orgId q, qb_blockType = type, qb_template = template,
       qb_sortOrder = next_block_order db i\<rparr> db))"

definition updateBlock :: "id \<Rightarrow> id \<Rightarrow> block_type \<Rightarrow> (id \<times> id) option \<Rightarrow> invoice_actor \<Rightarrow> quote_db \<Rightarrow> quote_error + quote_db" where
  "updateBlock i blockId type template actor db =
     and_then (loadDraft i actor db) (\<lambda>q.
     case map_of (blocks_of db i) blockId of
       None \<Rightarrow> Inl BLOCK_NOT_FOUND
     | Some b \<Rightarrow>
         and_then (ensure (qb_blockType b = type) BLOCK_TYPE_MISMATCH) (\<lambda>_.
         and_then (checked_template db type template q) (\<lambda>_.
         Inr (db\<lparr>qd_blocks := map (\<lambda>(k, x). (k, if k = blockId then x\<lparr>qb_template := template\<rparr> else x)) (qd_blocks db)\<rparr>))))"

section \<open>Lines\<close>

text \<open>Lines whose parent is removed go with it; lines of a removed block stay without one.\<close>

definition drop_lines :: "(id \<Rightarrow> quote_item \<Rightarrow> bool) \<Rightarrow> quote_db \<Rightarrow> quote_db" where
  "drop_lines P db =
     (let gone = fst ` set (filter (\<lambda>(k, l). P k l) (qd_lines db))
      in db\<lparr>qd_lines := filter (\<lambda>(k, l). \<not> (k \<in> gone \<or> (case qi_parentLineId l of Some p \<Rightarrow> p \<in> gone | None \<Rightarrow> False))) (qd_lines db)\<rparr>)"

definition deleteBlock :: "id \<Rightarrow> id \<Rightarrow> invoice_actor \<Rightarrow> quote_db \<Rightarrow> quote_error + quote_db" where
  "deleteBlock i blockId actor db =
     and_then (loadDraft i actor db) (\<lambda>_.
     let db1 = drop_lines (\<lambda>k l. qi_quoteId l = i \<and> qi_blockId l = Some blockId) db;
         gone = (blockId \<in> fst ` set (blocks_of db i));
         db2 = (if gone then db1
                  \<lparr>qd_blocks := filter (\<lambda>(k, b). k \<noteq> blockId) (qd_blocks db1),
                   qd_lines := map (\<lambda>(k, l). (k, if qi_blockId l = Some blockId then l\<lparr>qi_blockId := None\<rparr> else l)) (qd_lines db1)\<rparr>
                else db1)
     in recomputeAndPersist i db2)"

definition store_item :: "quote_item \<Rightarrow> quote_error + quote_item" where
  "store_item l =
     and_then (on_database (numeric_column (qi_quantity l))) (\<lambda>q.
     and_then (on_database (numeric_column (qi_unitPrice l))) (\<lambda>p.
     and_then (on_database (numeric_column_opt (qi_unitCost l))) (\<lambda>c.
     and_then (on_database (numeric_column (qi_lineTotal l))) (\<lambda>t.
     Inr (l\<lparr>qi_quantity := q, qi_unitPrice := p, qi_unitCost := c, qi_lineTotal := t\<rparr>)))))"

definition add_item :: "id \<Rightarrow> quote_item \<Rightarrow> quote_db \<Rightarrow> quote_error + quote_db" where
  "add_item k l db =
     and_then (ensure (k \<notin> fst ` set (qd_lines db)) Q_UNIQUE_KEY) (\<lambda>_.
     and_then (store_item l) (\<lambda>l'. Inr (db\<lparr>qd_lines := qd_lines db @ [(k, l')]\<rparr>)))"

text \<open>The block a line without one goes to: the first pricing section, or a new one.\<close>

definition resolveLineBlockId :: "id \<Rightarrow> id \<Rightarrow> id option \<Rightarrow> id \<Rightarrow> quote_db \<Rightarrow> quote_error + (id \<times> quote_db)" where
  "resolveLineBlockId i orgId blockId newBlock db =
     (case str_or_none blockId of
        Some b \<Rightarrow> and_then (ensure (b \<in> fst ` set (qd_blocks db)) Q_FOREIGN_KEY) (\<lambda>_. Inr (b, db))
      | None \<Rightarrow>
          (case sort_key (qb_sortOrder \<circ> snd) (filter (\<lambda>(k, b). qb_blockType b = BLineItems) (blocks_of db i)) of
             (k, _) # _ \<Rightarrow> Inr (k, db)
           | [] \<Rightarrow>
               and_then (add_block_row newBlock \<lparr>qb_quoteId = i, qb_orgId = orgId, qb_blockType = BLineItems, qb_template = None,
                           qb_sortOrder = next_block_order db i\<rparr> db) (\<lambda>db'. Inr (newBlock, db'))))"

record quote_line_input =
  qn_catalogItemId :: "id option"
  qn_blockId :: "id option"
  qn_name :: "string option"
  qn_description :: "string option"
  qn_quantity :: string
  qn_unitPrice :: string
  qn_taxable :: bool
  qn_customerVisible :: bool
  qn_recurrence :: quote_recurrence
  qn_termMonths :: "int option"
  qn_unitCost :: "string option"
  qn_depositEligible :: bool

definition addManualQuoteLine ::
  "id \<Rightarrow> id \<Rightarrow> id \<Rightarrow> quote_line_input \<Rightarrow> invoice_actor \<Rightarrow> quote_db \<Rightarrow> quote_error + quote_db" where
  "addManualQuoteLine i lineId newBlock input actor db =
     and_then (loadDraft i actor db) (\<lambda>q.
     let unitPrice = money_text (qn_unitPrice input)
     in and_then (resolveLineBlockId i (qr_orgId q) (qn_blockId input) newBlock db) (\<lambda>(blockId, db1).
        and_then (add_item lineId
          \<lparr>qi_quoteId = i, qi_blockId = Some blockId, qi_orgId = qr_orgId q, qi_catalogItemId = qn_catalogItemId input,
           qi_parentLineId = None, qi_name = qn_name input, qi_description = qn_description input, qi_quantity = qn_quantity input,
           qi_unitPrice = unitPrice, qi_taxable = qn_taxable input, qi_customerVisible = qn_customerVisible input,
           qi_lineTotal = computeLineTotal (qn_quantity input) unitPrice, qi_recurrence = qn_recurrence input,
           qi_termMonths = qn_termMonths input, qi_unitCost = map_option money_text (qn_unitCost input),
           qi_depositEligible = qn_depositEligible input, qi_itemType = None, qi_sortOrder = next_line_order (items_of db1 i)\<rparr> db1)
          (recomputeAndPersist i)))"

definition addCatalogQuoteLine ::
  "id \<Rightarrow> id \<Rightarrow> id \<Rightarrow> id \<Rightarrow> string \<Rightarrow> id option \<Rightarrow> invoice_actor \<Rightarrow> quote_db \<Rightarrow> quote_error + quote_db" where
  "addCatalogQuoteLine i lineId newBlock catalogItemId quantity block actor db =
     and_then (loadDraft i actor db) (\<lambda>q.
     case qd_catalog db catalogItemId of
       None \<Rightarrow> Inl CATALOG_ITEM_NOT_FOUND
     | Some item \<Rightarrow>
         and_then (ensure (qc_partnerId item = qr_partnerId q) CATALOG_ITEM_NOT_FOUND) (\<lambda>_.
         and_then (resolveLineBlockId i (qr_orgId q) block newBlock db) (\<lambda>(blockId, db1).
         and_then (add_item lineId
           \<lparr>qi_quoteId = i, qi_blockId = Some blockId, qi_orgId = qr_orgId q, qi_catalogItemId = Some catalogItemId,
            qi_parentLineId = None, qi_name = Some (qc_name item), qi_description = qc_description item, qi_quantity = quantity,
            qi_unitPrice = qc_unitPrice item, qi_taxable = qc_taxable item, qi_customerVisible = True,
            qi_lineTotal = computeLineTotal quantity (qc_unitPrice item),
            qi_recurrence = (if qc_recurring item then if qc_annual item then Money.Annual else Money.Monthly else Money.OneTime),
            qi_termMonths = qc_commitmentTermMonths item, qi_unitCost = qc_costBasis item,
            qi_depositEligible = (qc_itemType item = Hardware), qi_itemType = Some (qc_itemType item),
            qi_sortOrder = next_line_order (items_of db1 i)\<rparr> db1)
           (recomputeAndPersist i))))"

record quote_line_patch =
  qp_name :: "string option option"
  qp_description :: "string option option"
  qp_quantity :: "string option"
  qp_unitPrice :: "string option"
  qp_taxable :: "bool option"
  qp_customerVisible :: "bool option"
  qp_recurrence :: "quote_recurrence option"
  qp_termMonths :: "int option option"
  qp_sortOrder :: "int option"
  qp_unitCost :: "string option option"
  qp_depositEligible :: "bool option"

definition patched_line :: "quote_line_patch \<Rightarrow> quote_item \<Rightarrow> quote_item" where
  "patched_line patch old =
     (let quantity = patched (qp_quantity patch) (qi_quantity old);
          unitPrice = patched (map_option money_text (qp_unitPrice patch)) (qi_unitPrice old)
      in old
        \<lparr>qi_name := patched (qp_name patch) (qi_name old), qi_description := patched (qp_description patch) (qi_description old),
         qi_quantity := quantity, qi_unitPrice := unitPrice, qi_taxable := patched (qp_taxable patch) (qi_taxable old),
         qi_customerVisible := patched (qp_customerVisible patch) (qi_customerVisible old),
         qi_recurrence := patched (qp_recurrence patch) (qi_recurrence old),
         qi_lineTotal := computeLineTotal quantity unitPrice,
         qi_termMonths := patched (qp_termMonths patch) (qi_termMonths old),
         qi_sortOrder := patched (qp_sortOrder patch) (qi_sortOrder old),
         qi_unitCost := patched (map_option (map_option money_text) (qp_unitCost patch)) (qi_unitCost old),
         qi_depositEligible := patched (qp_depositEligible patch) (qi_depositEligible old)\<rparr>)"

definition updateQuoteLine :: "id \<Rightarrow> id \<Rightarrow> quote_line_patch \<Rightarrow> invoice_actor \<Rightarrow> quote_db \<Rightarrow> quote_error + quote_db" where
  "updateQuoteLine i lineId patch actor db =
     and_then (loadDraft i actor db) (\<lambda>_.
     case map_of (items_of db i) lineId of
       None \<Rightarrow> Inl Q_LINE_NOT_FOUND
     | Some old \<Rightarrow>
         and_then (store_item (patched_line patch old)) (\<lambda>new.
         recomputeAndPersist i (db\<lparr>qd_lines := map (\<lambda>(k, l). (k, if k = lineId then new else l)) (qd_lines db)\<rparr>)))"

definition removeQuoteLine :: "id \<Rightarrow> id \<Rightarrow> invoice_actor \<Rightarrow> quote_db \<Rightarrow> quote_error + quote_db" where
  "removeQuoteLine i lineId actor db =
     and_then (loadDraft i actor db) (\<lambda>_.
     recomputeAndPersist i (drop_lines (\<lambda>k l. k = lineId \<and> qi_quoteId l = i) db))"


section \<open>Edits of the header\<close>

record quote_patch =
  uq_orgId :: "id option"
  uq_siteId :: "id option option"
  uq_title :: "string option option"
  uq_expiryDate :: "string option option"
  uq_terms :: "string option option"
  uq_termsAndConditions :: "string option option"
  uq_billToName :: "string option option"
  uq_taxRate :: "string option option"
  uq_depositType :: "deposit_type option"
  uq_depositPercent :: "string option option"

definition same_partner_org :: "quote_db \<Rightarrow> id \<Rightarrow> id \<Rightarrow> bool" where
  "same_partner_org db orgId partnerId \<longleftrightarrow> map_option bo_partnerId (vd_orgs (qd_billing db) orgId) = Some partnerId"

text \<open>The checks of a move to another organization.\<close>

definition retarget_checks :: "invoice_actor \<Rightarrow> id \<Rightarrow> id \<Rightarrow> quote_db \<Rightarrow> quote_error + unit" where
  "retarget_checks actor orgId partnerId db =
     and_then (assertOrg actor orgId) (\<lambda>_.
     and_then (assertSite actor None) (\<lambda>_.
     ensure (same_partner_org db orgId partnerId) ORG_NOT_FOUND))"

definition checked_deposit ::
  "quote_math_line list \<Rightarrow> jsnum option \<Rightarrow> quote_patch \<Rightarrow> quote_row \<Rightarrow> quote_error + (deposit_type \<times> string option)" where
  "checked_deposit ls taxRate patch q =
     (if uq_depositType patch = None \<and> uq_depositPercent patch = None then Inr (qr_depositType q, qr_depositPercent q)
      else (let nextType = patched (uq_depositType patch) (qr_depositType q);
                nextPercent = patched (uq_depositPercent patch) (qr_depositPercent q)
            in case validateQuoteDeposit ls taxRate (toQuoteDepositConfig (Some nextType) nextPercent) of
                 Inl e \<Rightarrow> Inl (DEPOSIT_REFUSED e)
               | Inr _ \<Rightarrow> Inr (nextType, if nextType = TypePercent then map_option money_text nextPercent else None)))"

definition move_rows :: "id \<Rightarrow> id \<Rightarrow> quote_db \<Rightarrow> quote_db" where
  "move_rows i orgId db = db
     \<lparr>qd_blocks := map (\<lambda>(k, b). (k, if qb_quoteId b = i then b\<lparr>qb_orgId := orgId\<rparr> else b)) (qd_blocks db),
      qd_lines := map (\<lambda>(k, l). (k, if qi_quoteId l = i then l\<lparr>qi_orgId := orgId\<rparr> else l)) (qd_lines db)\<rparr>"

text \<open>The fields written; \<open>keptRate\<close> is the rate when the input has none.\<close>

definition header_row :: "quote_patch \<Rightarrow> id \<Rightarrow> string option \<Rightarrow> deposit_type \<times> string option \<Rightarrow> quote_row \<Rightarrow> quote_row" where
  "header_row patch target keptRate deposit q =
     (let orgChanged = (target \<noteq> qr_orgId q)
      in q\<lparr>qr_orgId := target, qr_siteId := (if orgChanged then None else patched (uq_siteId patch) (qr_siteId q)),
           qr_title := (case uq_title patch of Some t \<Rightarrow> trimmed_title t | None \<Rightarrow> qr_title q),
           qr_expiryDate := patched (uq_expiryDate patch) (qr_expiryDate q), qr_terms := patched (uq_terms patch) (qr_terms q),
           qr_termsAndConditions := patched (uq_termsAndConditions patch) (qr_termsAndConditions q),
           qr_billToName := patched (uq_billToName patch) (if orgChanged then None else qr_billToName q),
           qr_taxRate := (case uq_taxRate patch of Some r \<Rightarrow> map_option rate_text r | None \<Rightarrow> keptRate),
           qr_depositType := fst deposit, qr_depositPercent := snd deposit\<rparr>)"

definition updateQuote :: "id \<Rightarrow> quote_patch \<Rightarrow> invoice_actor \<Rightarrow> quote_db \<Rightarrow> quote_error + quote_db" where
  "updateQuote i patch actor db =
     and_then (loadDraft i actor db) (\<lambda>q.
     and_then (case uq_siteId patch of None \<Rightarrow> Inr () | Some s \<Rightarrow> assertSite actor s) (\<lambda>_.
     let target = patched (uq_orgId patch) (qr_orgId q); orgChanged = (target \<noteq> qr_orgId q)
     in and_then (if orgChanged then retarget_checks actor target (qr_partnerId q) db else Inr ()) (\<lambda>_.
     let keptRate = (if orgChanged then resolveQuoteTaxRate db target (qr_partnerId q) else qr_taxRate q);
         numericRate = (case uq_taxRate patch of Some r \<Rightarrow> map_option js_Number r | None \<Rightarrow> quote_tax_rate keptRate)
     in and_then (checked_deposit (math_lines db i) numericRate patch q) (\<lambda>deposit.
     and_then (if orgChanged then assertContractBlocksValidForOrg db (map snd (blocks_of db i)) target (qr_partnerId q) else Inr ()) (\<lambda>_.
     let db1 = set_quote i (header_row patch target keptRate deposit q) db
     in recomputeAndPersist i (if orgChanged then move_rows i target db1 else db1))))))"

text \<open>The blocks, lines, acceptances and recipients go with the quote; lines of other quotes lose a block that goes.\<close>

definition deleteDraftQuote :: "id \<Rightarrow> invoice_actor \<Rightarrow> quote_db \<Rightarrow> quote_error + quote_db" where
  "deleteDraftQuote i actor db =
     and_then (loadDraft i actor db) (\<lambda>_.
     Inr (db\<lparr>qd_quotes := (qd_quotes db)(i := None),
             qd_lines := map (\<lambda>(k, l). (k, if qi_blockId l \<in> Some ` fst ` set (blocks_of db i) then l\<lparr>qi_blockId := None\<rparr> else l))
                (filter (\<lambda>(k, l). qi_quoteId l \<noteq> i) (qd_lines db)),
             qd_blocks := filter (\<lambda>(k, b). qb_quoteId b \<noteq> i) (qd_blocks db),
             qd_acceptances := filter (\<lambda>(k, a). qa_quoteId a \<noteq> i) (qd_acceptances db),
             qd_recipients := filter (\<lambda>(j, e). j \<noteq> i) (qd_recipients db)\<rparr>))"

section \<open>Copies\<close>

definition sorted_items :: "quote_db \<Rightarrow> id \<Rightarrow> (id \<times> quote_item) list" where
  "sorted_items db i = sort_key (qi_sortOrder \<circ> snd) (items_of db i)"

definition sorted_blocks :: "quote_db \<Rightarrow> id \<Rightarrow> (id \<times> quote_block) list" where
  "sorted_blocks db i = sort_key (qb_sortOrder \<circ> snd) (blocks_of db i)"

text \<open>\<open>newBlock\<close> and \<open>newLine\<close> give the ids of the copies.\<close>

definition clone_items ::
  "id \<Rightarrow> id \<Rightarrow> (id \<Rightarrow> id) \<Rightarrow> (id \<Rightarrow> id) \<Rightarrow> id \<Rightarrow> id set \<Rightarrow> (id \<times> quote_item) list \<Rightarrow> (id \<times> quote_item) list" where
  "clone_items quoteId orgId newBlock newLine fallback blockIds ls =
     map (\<lambda>(k, l). (newLine k, l
       \<lparr>qi_quoteId := quoteId, qi_orgId := orgId,
        qi_blockId := Some (case qi_blockId l of Some b \<Rightarrow> if b \<in> blockIds then newBlock b else fallback | None \<Rightarrow> fallback),
        qi_parentLineId := (case qi_parentLineId l of Some p \<Rightarrow> if p \<in> fst ` set ls then Some (newLine p) else None | None \<Rightarrow> None)\<rparr>)) ls"

definition clone_blocks :: "id \<Rightarrow> id \<Rightarrow> (id \<Rightarrow> id) \<Rightarrow> (id \<times> quote_block) list \<Rightarrow> (id \<times> quote_block) list" where
  "clone_blocks quoteId orgId newBlock bs = map (\<lambda>(k, b). (newBlock k, b\<lparr>qb_quoteId := quoteId, qb_orgId := orgId\<rparr>)) bs"

definition orphaned :: "id set \<Rightarrow> id \<times> quote_item \<Rightarrow> bool" where
  "orphaned blockIds kl = (case str_or_none (qi_blockId (snd kl)) of None \<Rightarrow> True | Some b \<Rightarrow> b \<notin> blockIds)"

definition insert_copies :: "(id \<times> quote_block) list \<Rightarrow> (id \<times> quote_item) list \<Rightarrow> quote_db \<Rightarrow> quote_error + quote_db" where
  "insert_copies bs ls db =
     and_then (ensure (distinct (map fst (qd_blocks db @ bs)) \<and> distinct (map fst (qd_lines db @ ls))) Q_UNIQUE_KEY) (\<lambda>_.
     Inr (db\<lparr>qd_blocks := qd_blocks db @ bs, qd_lines := qd_lines db @ ls\<rparr>))"

text \<open>The pricing section for lines without a block, when the copied quote has no such section.\<close>

definition clone_section :: "id \<Rightarrow> id \<Rightarrow> id \<Rightarrow> (id \<times> quote_block) list \<Rightarrow> (id \<times> quote_item) list \<Rightarrow> (id \<times> quote_block) list" where
  "clone_section newId target freshBlock bs ls =
     (if filter (\<lambda>(k, b). qb_blockType b = BLineItems) bs = [] \<and> list_ex (orphaned (fst ` set bs)) ls
      then [(freshBlock, \<lparr>qb_quoteId = newId, qb_orgId = target, qb_blockType = BLineItems, qb_template = None,
              qb_sortOrder = (case bs of [] \<Rightarrow> 0 | _ \<Rightarrow> Max (set (map (qb_sortOrder \<circ> snd) bs)) + 1)\<rparr>)]
      else [])"

definition clone_row :: "quote_row \<Rightarrow> id \<Rightarrow> string option \<Rightarrow> string option \<Rightarrow> string \<Rightarrow> id option \<Rightarrow> quote_row" where
  "clone_row source target taxRate title number createdBy =
     (let orgChanged = (target \<noteq> qr_orgId source)
      in (blank_quote (qr_partnerId source) target number createdBy)
           \<lparr>qr_siteId := (if orgChanged then None else qr_siteId source),
            qr_title := (case title of Some t \<Rightarrow> trimmed_title (Some t) | None \<Rightarrow> qr_title source),
            qr_currencyCode := qr_currencyCode source, qr_taxRate := taxRate, qr_depositType := qr_depositType source,
            qr_depositPercent := qr_depositPercent source, qr_billToName := (if orgChanged then None else qr_billToName source),
            qr_terms := qr_terms source, qr_termsAndConditions := qr_termsAndConditions source\<rparr>)"

definition cloneQuote ::
  "id \<Rightarrow> id \<Rightarrow> (id \<Rightarrow> id) \<Rightarrow> (id \<Rightarrow> id) \<Rightarrow> id \<Rightarrow> id option \<Rightarrow> string option \<Rightarrow> invoice_actor \<Rightarrow> string \<Rightarrow> quote_db
    \<Rightarrow> quote_error + quote_db" where
  "cloneQuote i newId newBlock newLine freshBlock orgId title actor today db =
     and_then (getQuote i actor db) (\<lambda>source.
     let target = patched orgId (qr_orgId source); orgChanged = (target \<noteq> qr_orgId source);
         bs = sorted_blocks db i; ls = sorted_items db i
     in and_then (if orgChanged
                  then and_then (retarget_checks actor target (qr_partnerId source) db)
                         (\<lambda>_. assertContractBlocksValidForOrg db (map snd bs) target (qr_partnerId source))
                  else Inr ()) (\<lambda>_.
     let taxRate = (if orgChanged then resolveQuoteTaxRate db target (qr_partnerId source) else qr_taxRate source);
         (counter, db1) = allocateQuoteCounter (qr_partnerId source) (year_of today) db;
         fallback = (case filter (\<lambda>(k, b). qb_blockType b = BLineItems) bs of (k, _) # _ \<Rightarrow> newBlock k | [] \<Rightarrow> freshBlock);
         q = clone_row source target taxRate title (formatQuoteNumber ''Q'' (year_of today) counter) (ia_userId actor)
     in and_then (store_totals (quote_totals_of q (map (math_line \<circ> snd) ls)) q) (\<lambda>q'.
        and_then (insert_quote newId q' db1)
          (insert_copies (clone_blocks newId target newBlock bs @ clone_section newId target freshBlock bs ls)
            (clone_items newId target newBlock newLine fallback (fst ` set bs) ls)))))"

section \<open>Order\<close>

definition position :: "id list \<Rightarrow> id \<Rightarrow> int" where
  "position ids k = int (length (takeWhile (\<lambda>x. x \<noteq> k) ids))"

definition is_reordering :: "id list \<Rightarrow> id list \<Rightarrow> bool" where
  "is_reordering ids existing \<longleftrightarrow> card (set ids) = length existing \<and> set ids \<subseteq> set existing"

text \<open>The lists of ids have no duplicates, as their schema says.\<close>

definition reorderBlocks :: "id \<Rightarrow> id list \<Rightarrow> invoice_actor \<Rightarrow> quote_db \<Rightarrow> quote_error + quote_db" where
  "reorderBlocks i blockIds actor db =
     and_then (loadDraft i actor db) (\<lambda>_.
     and_then (ensure (is_reordering blockIds (map fst (blocks_of db i))) REORDER_IDS_MISMATCH) (\<lambda>_.
     Inr (db\<lparr>qd_blocks := map (\<lambda>(k, b). (k, if qb_quoteId b = i \<and> k \<in> set blockIds then b\<lparr>qb_sortOrder := position blockIds k\<rparr> else b))
                (qd_blocks db)\<rparr>)))"

definition reorderLines :: "id \<Rightarrow> id \<Rightarrow> id list \<Rightarrow> invoice_actor \<Rightarrow> quote_db \<Rightarrow> quote_error + quote_db" where
  "reorderLines i blockId lineIds actor db =
     and_then (loadDraft i actor db) (\<lambda>_.
     and_then (ensure (blockId \<in> fst ` set (blocks_of db i)) BLOCK_NOT_FOUND) (\<lambda>_.
     and_then (ensure (is_reordering lineIds (map fst (filter (\<lambda>(k, l). qi_blockId l = Some blockId) (items_of db i)))) REORDER_IDS_MISMATCH) (\<lambda>_.
     Inr (db\<lparr>qd_lines := map (\<lambda>(k, l). (k, if qi_quoteId l = i \<and> qi_blockId l = Some blockId \<and> k \<in> set lineIds
                                           then l\<lparr>qi_sortOrder := position lineIds k\<rparr> else l)) (qd_lines db)\<rparr>))))"

definition moveLineToBlock :: "id \<Rightarrow> id \<Rightarrow> id \<Rightarrow> invoice_actor \<Rightarrow> quote_db \<Rightarrow> quote_error + quote_db" where
  "moveLineToBlock i lineId targetBlockId actor db =
     and_then (loadDraft i actor db) (\<lambda>_.
     case map_of (items_of db i) lineId of
       None \<Rightarrow> Inl Q_LINE_NOT_FOUND
     | Some line \<Rightarrow>
         and_then (ensure (str_or_none (qi_parentLineId line) = None) LINE_IS_BUNDLE_CHILD) (\<lambda>_.
         case map_of (blocks_of db i) targetBlockId of
           None \<Rightarrow> Inl BLOCK_NOT_FOUND
         | Some block \<Rightarrow>
             and_then (ensure (qb_blockType block = BLineItems) BLOCK_NOT_LINE_ITEMS) (\<lambda>_.
             if qi_blockId line = Some targetBlockId then Inr db
             else (let base = next_line_order (filter (\<lambda>(k, l). qi_blockId l = Some targetBlockId) (items_of db i));
                       children = map fst (filter (\<lambda>(k, l). qi_parentLineId l = Some lineId) (sorted_items db i))
                   in Inr (db\<lparr>qd_lines := map (\<lambda>(k, l). (k,
                        if k = lineId then l\<lparr>qi_blockId := Some targetBlockId, qi_sortOrder := base\<rparr>
                        else if k \<in> set children
                        then l\<lparr>qi_blockId := Some targetBlockId, qi_sortOrder := base + 1 + position children k\<rparr>
                        else l)) (qd_lines db)\<rparr>)))))"


section \<open>Sending\<close>

definition isQuoteExpired :: "string option \<Rightarrow> string \<Rightarrow> bool" where
  "isQuoteExpired expiryDate today = (case str_or_none expiryDate of None \<Rightarrow> False | Some d \<Rightarrow> str_le d today \<and> d \<noteq> today)"

definition normalizeEmail :: "string \<Rightarrow> string" where
  "normalizeEmail email = toLowerCase (trim email)"

text \<open>
  \<open>unresolved\<close> is whether a variable of a contract block has no value; \<open>addressed\<close> are the recipients of the composer and
  \<open>billingRecipient\<close> the contact of the organization. The quote that is written is the one that is still a draft.
\<close>

record send_options =
  so_unresolved :: bool
  so_addressed :: "string list"
  so_billingRecipient :: "string option"

definition recipient_emails :: "send_options \<Rightarrow> string list" where
  "recipient_emails opts =
     remdups (filter (\<lambda>e. e \<noteq> []) (map normalizeEmail
       (if so_addressed opts \<noteq> [] then so_addressed opts else case so_billingRecipient opts of Some e \<Rightarrow> [e] | None \<Rightarrow> [])))"

definition add_recipients :: "id \<Rightarrow> string list \<Rightarrow> quote_db \<Rightarrow> quote_db" where
  "add_recipients i emails db =
     db\<lparr>qd_recipients := qd_recipients db @ map (Pair i) (filter (\<lambda>e. (i, e) \<notin> set (qd_recipients db)) emails)\<rparr>"

definition sent_row :: "quote_db \<Rightarrow> string \<Rightarrow> string \<Rightarrow> quote_row \<Rightarrow> quote_row \<Rightarrow> quote_row" where
  "sent_row db number today read q =
     (let org = vd_orgs (qd_billing db) (qr_orgId read); partner = vd_partners (qd_billing db) (qr_partnerId read)
      in q\<lparr>qr_status := QSent, qr_quoteNumber := Some number, qr_issueDate := nullish (qr_issueDate read) (Some today),
           qr_sendJobId := None, qr_sendEmailReason := None,
           qr_billToName := (case qr_billToName read of
                               Some n \<Rightarrow> if trim n \<noteq> [] then Some n else map_option bo_name org
                             | None \<Rightarrow> map_option bo_name org),
           qr_billToTaxId := nullish (qr_billToTaxId read) (Option.bind org bo_taxId),
           qr_termsAndConditions := nullish (qr_termsAndConditions read) (Option.bind partner Invoices.bp_billingTermsAndConditions),
           qr_terms := nullish (qr_terms read) (Option.bind partner Invoices.bp_invoiceFooter)\<rparr>)"

definition send_number :: "quote_row \<Rightarrow> string \<Rightarrow> quote_db \<Rightarrow> string \<times> quote_db" where
  "send_number q today db =
     (case str_or_none (qr_quoteNumber q) of
        Some n \<Rightarrow> (n, db)
      | None \<Rightarrow>
          (let year = year_of (case qr_issueDate q of Some d \<Rightarrow> d | None \<Rightarrow> today);
               (counter, db') = allocateQuoteCounter (qr_partnerId q) year db
           in (formatQuoteNumber ''Q'' year counter, db')))"

definition sendQuote :: "id \<Rightarrow> send_options \<Rightarrow> invoice_actor \<Rightarrow> string \<Rightarrow> quote_db \<Rightarrow> quote_error + quote_db" where
  "sendQuote i opts actor today db =
     and_then (getQuote i actor db) (\<lambda>q.
     and_then (ensure (qr_status q = QDraft) Q_INVALID_STATE) (\<lambda>_.
     and_then (ensure (\<not> so_unresolved opts) CONTRACT_VARIABLES_UNRESOLVED) (\<lambda>_.
     and_then (if qr_depositType q = TypeNone then Inr ()
               else (case validateQuoteDeposit (map (math_line \<circ> snd) (sorted_items db i)) (quote_tax_rate (qr_taxRate q))
                            (toQuoteDepositConfig (Some (qr_depositType q)) (qr_depositPercent q)) of
                       Inl _ \<Rightarrow> Inl DEPOSIT_INVALID
                     | Inr _ \<Rightarrow> Inr ())) (\<lambda>_.
     let (number, db1) = send_number q today db;
         (claimed, db2) = update_quote i (\<lambda>x. qr_status x = QDraft) (sent_row db1 number today q) db1
     in if claimed = 0 then Inl Q_INVALID_STATE else Inr (add_recipients i (recipient_emails opts) db2)))))"

section \<open>The delayed send\<close>

text \<open>
  A schedule is the id of its job on the row. \<open>enqueued\<close> is whether the queue took the job, which is also the answer; when it
  did not, the schedule is taken back and the mark of an earlier failure restored.
\<close>

definition scheduleQuoteSend :: "id \<Rightarrow> string \<Rightarrow> bool \<Rightarrow> quote_db \<Rightarrow> quote_error + (bool \<times> quote_db)" where
  "scheduleQuoteSend i jobId enqueued db =
     (let prior = qd_quotes db i;
          (stamped, db1) = update_quote i (\<lambda>x. qr_status x = QDraft) (\<lambda>x. x\<lparr>qr_sendJobId := Some jobId, qr_sendEmailReason := None\<rparr>) db
      in if stamped = 0 then Inl Q_INVALID_STATE
         else if enqueued then Inr (True, db1)
         else Inr (False, snd (update_quote i (\<lambda>x. qr_sendJobId x = Some jobId)
                            (\<lambda>x. x\<lparr>qr_sendJobId := None, qr_sendEmailReason := Option.bind prior qr_sendEmailReason\<rparr>) db1)))"

text \<open>The handler that schedules a send, of routes/quotes/lifecycle.ts.\<close>

definition schedule_send :: "id \<Rightarrow> string \<Rightarrow> bool \<Rightarrow> invoice_actor \<Rightarrow> quote_db \<Rightarrow> quote_error + (bool \<times> quote_db)" where
  "schedule_send i jobId enqueued actor db =
     and_then (getQuote i actor db) (\<lambda>q.
     and_then (ensure (qr_status q = QDraft) Q_INVALID_STATE) (\<lambda>_.
     and_then (ensure (list_ex (qi_customerVisible \<circ> snd) (items_of db i)) QUOTE_EMPTY) (\<lambda>_.
     scheduleQuoteSend i jobId enqueued db)))"

definition cancelQuoteSend :: "id \<Rightarrow> quote_db \<Rightarrow> bool \<times> quote_db" where
  "cancelQuoteSend i db =
     (case qd_quotes db i of
        None \<Rightarrow> (False, db)
      | Some q \<Rightarrow>
          (case str_or_none (qr_sendJobId q) of
             None \<Rightarrow> (False, db)
           | Some jobId \<Rightarrow>
               if qr_status q \<noteq> QDraft then (False, db)
               else (let (claimed, db') = update_quote i (\<lambda>x. qr_status x = QDraft \<and> qr_sendJobId x = Some jobId)
                                            (\<lambda>x. x\<lparr>qr_sendJobId := None\<rparr>) db
                     in (claimed \<noteq> 0, db'))))"

text \<open>The job of a schedule. A refused send is rolled back with the claim, and the failure is marked on the row.\<close>

definition processQuoteSendJob :: "id \<Rightarrow> string \<Rightarrow> send_options \<Rightarrow> string option \<Rightarrow> invoice_actor \<Rightarrow> string \<Rightarrow> quote_db \<Rightarrow> quote_db" where
  "processQuoteSendJob i jobId opts emailReason actor today db =
     (let (claimed, db1) = update_quote i (\<lambda>x. qr_status x = QDraft \<and> qr_sendJobId x = Some jobId) (\<lambda>x. x\<lparr>qr_sendJobId := None\<rparr>) db
      in if claimed = 0 then db
         else (case sendQuote i opts actor today db1 of
                 Inr db2 \<Rightarrow>
                   (case emailReason of None \<Rightarrow> db2
                    | Some r \<Rightarrow> snd (update_quote i (\<lambda>_. True) (\<lambda>x. x\<lparr>qr_sendEmailReason := Some r\<rparr>) db2))
               | Inl _ \<Rightarrow>
                   snd (update_quote i (\<lambda>x. qr_status x = QDraft \<and> qr_sendJobId x = Some jobId)
                     (\<lambda>x. x\<lparr>qr_sendJobId := None, qr_sendEmailReason := Some ''schedule_failed''\<rparr>) db)))"

section \<open>The answer of the customer\<close>

text \<open>What a view reads, and what it writes from what it read; the write has no condition on the status.\<close>

definition view_read :: "id \<Rightarrow> id \<Rightarrow> quote_db \<Rightarrow> quote_row option" where
  "view_read i orgId db = (case qd_quotes db i of Some q \<Rightarrow> if qr_orgId q = orgId then Some q else None | None \<Rightarrow> None)"

definition view_write :: "id \<Rightarrow> quote_row \<Rightarrow> int \<Rightarrow> quote_db \<Rightarrow> quote_db" where
  "view_write i q now db =
     snd (update_quote i (\<lambda>_. True) (\<lambda>x. x
       \<lparr>qr_firstViewedAt := (if qr_firstViewedAt q = None then Some now else qr_firstViewedAt x),
        qr_status := (if qr_status q = QSent then QViewed else qr_status x)\<rparr>) db)"

definition markQuoteViewed :: "id \<Rightarrow> id \<Rightarrow> int \<Rightarrow> quote_db \<Rightarrow> quote_db" where
  "markQuoteViewed i orgId now db = (case view_read i orgId db of None \<Rightarrow> db | Some q \<Rightarrow> view_write i q now db)"

definition open_for_answer :: "quote_row \<Rightarrow> bool" where
  "open_for_answer q \<longleftrightarrow> qr_status q \<in> {QSent, QViewed}"

text \<open>The decline of the portal and of technicians: again a check, and a write without a condition.\<close>

definition decline_check :: "id \<Rightarrow> invoice_actor \<Rightarrow> string \<Rightarrow> quote_db \<Rightarrow> quote_error + unit" where
  "decline_check i actor today db =
     and_then (getQuote i actor db) (\<lambda>q.
     and_then (ensure (open_for_answer q) Q_INVALID_STATE) (\<lambda>_.
     ensure (\<not> isQuoteExpired (qr_expiryDate q) today) QUOTE_EXPIRED))"

definition decline_write :: "id \<Rightarrow> string option \<Rightarrow> quote_db \<Rightarrow> quote_db" where
  "decline_write i reason db =
     snd (update_quote i (\<lambda>_. True) (\<lambda>x. x\<lparr>qr_status := QDeclined, qr_declineReason := reason\<rparr>) db)"

definition declineQuoteByActor :: "id \<Rightarrow> string option \<Rightarrow> invoice_actor \<Rightarrow> string \<Rightarrow> quote_db \<Rightarrow> quote_error + quote_db" where
  "declineQuoteByActor i reason actor today db =
     and_then (decline_check i actor today db) (\<lambda>_. Inr (decline_write i reason db))"

definition response_consumed :: "string \<Rightarrow> quote_row \<Rightarrow> bool" where
  "response_consumed jti q \<longleftrightarrow>
     qr_publicResponseConsumedAt q \<noteq> None \<and> qr_publicResponseJti q = Some jti
     \<or> qr_publicTokenVersion q \<noteq> 0 \<and> qr_publicResponseJti q \<noteq> Some jti"

definition declinePublic :: "id \<Rightarrow> id \<Rightarrow> string \<Rightarrow> string option \<Rightarrow> string \<Rightarrow> int \<Rightarrow> quote_db \<Rightarrow> quote_error + quote_db" where
  "declinePublic i orgId jti reason today now db =
     (case view_read i orgId db of
        None \<Rightarrow> Inl Q_INVALID_STATE
      | Some q \<Rightarrow>
          and_then (ensure (\<not> response_consumed jti q) RESPONSE_CONSUMED) (\<lambda>_.
          and_then (ensure (open_for_answer q) Q_INVALID_STATE) (\<lambda>_.
          and_then (ensure (\<not> isQuoteExpired (qr_expiryDate q) today) QUOTE_EXPIRED) (\<lambda>_.
          let (updated, db') = update_quote i (\<lambda>x. open_for_answer x \<and> qr_publicResponseConsumedAt x = None)
                (\<lambda>x. x\<lparr>qr_status := QDeclined, qr_declineReason := reason, qr_publicResponseJti := Some jti,
                       qr_publicResponseConsumedAt := Some now\<rparr>) db
          in if updated = 0 then Inl Q_INVALID_STATE else Inr db'))))"

definition MAX_QUOTE_REAP_PER_RUN :: nat where
  "MAX_QUOTE_REAP_PER_RUN = 500"

text \<open>The ids are those of the table in the order of the expiry dates.\<close>

definition expireQuotes :: "id list \<Rightarrow> string \<Rightarrow> quote_db \<Rightarrow> quote_db" where
  "expireQuotes ids today db =
     foldl (\<lambda>d i. snd (update_quote i open_for_answer (\<lambda>x. x\<lparr>qr_status := QExpired\<rparr>) d)) db
       (take MAX_QUOTE_REAP_PER_RUN (filter (\<lambda>i. case qd_quotes db i of
           Some q \<Rightarrow> open_for_answer q \<and> qr_expiryDate q \<noteq> None \<and> isQuoteExpired (qr_expiryDate q) today | None \<Rightarrow> False) ids))"

section \<open>Acceptance\<close>

definition accepted_of :: "quote_row \<Rightarrow> accepted_quote" where
  "accepted_of q =
     \<lparr>aq_partnerId = qr_partnerId q, aq_orgId = qr_orgId q, aq_siteId = qr_siteId q, aq_quoteNumber = qr_quoteNumber q,
      aq_currencyCode = qr_currencyCode q, aq_taxRate = qr_taxRate q, aq_billToName = qr_billToName q,
      aq_billToTaxId = qr_billToTaxId q, aq_terms = qr_terms q, aq_termsAndConditions = qr_termsAndConditions q,
      aq_depositType = qr_depositType q, aq_depositAmount = qr_depositAmount q\<rparr>"

definition accepted_lines :: "(id \<times> quote_item) list \<Rightarrow> accepted_line list" where
  "accepted_lines ls =
     map (\<lambda>(k, l). \<lparr>al_catalogItemId = qi_catalogItemId l, al_description = qi_description l, al_quantity = qi_quantity l,
                    al_unitPrice = qi_unitPrice l, al_taxable = qi_taxable l\<rparr>)
       (filter (\<lambda>(k, l). qi_recurrence l = Money.OneTime \<and> qi_customerVisible l) ls)"

definition contract_recurrence :: "quote_recurrence \<Rightarrow> recurrence" where
  "contract_recurrence r =
     (case r of Money.OneTime \<Rightarrow> Quote_To_Contract.OneTime | Money.Monthly \<Rightarrow> Quote_To_Contract.Monthly | Money.Annual \<Rightarrow> Quote_To_Contract.Annual)"

definition contract_line_of :: "id \<times> quote_item \<Rightarrow> quote_line" where
  "contract_line_of kl =
     (case kl of (k, l) \<Rightarrow>
        \<lparr>ql_id = k, ql_recurrence = contract_recurrence (qi_recurrence l), ql_customerVisible = qi_customerVisible l,
         ql_quantity = qi_quantity l, ql_termMonths = qi_termMonths l\<rparr>)"

text \<open>One new contract, with the ids of its lines, for each specification.\<close>

fun create_contracts :: "contract_spec list \<Rightarrow> (id \<times> (nat \<Rightarrow> id)) list \<Rightarrow> billing_db \<Rightarrow> quote_error + billing_db" where
  "create_contracts (spec # specs) ((i, newLine) # ids) db =
     and_then (ensure (bd_contracts db i = None) Q_UNIQUE_KEY)
       (\<lambda>_. create_contracts specs ids (snd (createContractWithLinesDetailed i newLine spec db)))"
| "create_contracts specs ids db = Inr db"

record accept_params =
  ap_signerName :: string
  ap_jti :: "string option"
  ap_actorUserId :: "id option"
  ap_renderedBlocks :: "id list"

definition accept_checks :: "accept_params \<Rightarrow> string \<Rightarrow> (id \<times> quote_block) list \<Rightarrow> quote_row \<Rightarrow> quote_error + unit" where
  "accept_checks params today bs q =
     and_then (ensure (case str_or_none (ap_jti params) of Some jti \<Rightarrow> \<not> response_consumed jti q | None \<Rightarrow> True) RESPONSE_CONSUMED) (\<lambda>_.
     and_then (ensure (open_for_answer q) Q_INVALID_STATE) (\<lambda>_.
     and_then (ensure (\<not> isQuoteExpired (qr_expiryDate q) today) QUOTE_EXPIRED) (\<lambda>_.
     ensure (list_all (\<lambda>(k, b). qb_blockType b = BContract \<longrightarrow> k \<in> set (ap_renderedBlocks params)) bs) CONTRACT_RENDER_DATA_MISSING)))"

record accept_ids =
  ai_acceptance :: id
  ai_invoice :: id
  ai_lines :: "id list"
  ai_contracts :: "(id \<times> (nat \<Rightarrow> id)) list"

definition converted_row :: "id \<Rightarrow> accept_params \<Rightarrow> int \<Rightarrow> quote_row \<Rightarrow> quote_row" where
  "converted_row invoiceId params now q =
     (let w = q\<lparr>qr_status := QConverted, qr_convertedInvoiceId := Some invoiceId\<rparr>
      in case str_or_none (ap_jti params) of
           None \<Rightarrow> w
         | Some jti \<Rightarrow> w\<lparr>qr_publicResponseJti := Some jti, qr_publicResponseConsumedAt := Some now\<rparr>)"

text \<open>The row of the quote is locked from the first read on.\<close>

definition acceptQuote :: "id \<Rightarrow> accept_ids \<Rightarrow> accept_params \<Rightarrow> string \<Rightarrow> int \<Rightarrow> quote_db \<Rightarrow> quote_error + quote_db" where
  "acceptQuote i ids params today now db =
     (case qd_quotes db i of
        None \<Rightarrow> Inl QUOTE_NOT_FOUND
      | Some q \<Rightarrow>
          (let ls = sorted_items db i
           in and_then (accept_checks params today (sorted_blocks db i) q) (\<lambda>_.
              and_then (ensure (ai_acceptance ids \<notin> fst ` set (qd_acceptances db)) Q_UNIQUE_KEY) (\<lambda>_.
              and_then (on_database (accept_invoice (ai_invoice ids) (ai_lines ids) (accepted_of q) (accepted_lines ls)
                          (ap_actorUserId params) today (qd_billing db))) (\<lambda>billing.
              case buildContractSpecsFromQuote (qr_orgId q) (qr_partnerId q) (map contract_line_of ls) today of
                Inl e \<Rightarrow> Inl (Q_TERM e)
              | Inr specs \<Rightarrow>
                  and_then (create_contracts specs (ai_contracts ids) (qd_contracts db)) (\<lambda>contracts.
                  Inr ((set_quote i (converted_row (ai_invoice ids) params now q) db)
                    \<lparr>qd_acceptances := qd_acceptances db @
                       [(ai_acceptance ids, \<lparr>qa_quoteId = i, qa_orgId = qr_orgId q, qa_signerName = ap_signerName params,
                           qa_acceptanceTokenJti = ap_jti params\<rparr>)],
                     qd_billing := billing, qd_contracts := contracts\<rparr>)))))))"

text \<open>A user of the portal accepts without a token, when the quote was sent to the user.\<close>

definition accept_portal :: "id \<Rightarrow> id \<Rightarrow> string \<Rightarrow> accept_ids \<Rightarrow> accept_params \<Rightarrow> string \<Rightarrow> int \<Rightarrow> quote_db \<Rightarrow> quote_error + quote_db" where
  "accept_portal i orgId email ids params today now db =
     (case view_read i orgId db of
        None \<Rightarrow> Inl QUOTE_NOT_FOUND
      | Some q \<Rightarrow>
          and_then (ensure (qr_status q \<noteq> QDraft) QUOTE_NOT_FOUND) (\<lambda>_.
          and_then (ensure ((i, normalizeEmail email) \<in> set (qd_recipients db)) NOT_A_RECIPIENT) (\<lambda>_.
          acceptQuote i ids (params\<lparr>ap_jti := None\<rparr>) today now db)))"

end
