(* ===== verification/Money_Rounding.thy ===== *)
theory Money_Rounding
  imports Money
begin

text \<open>
  What the binary64 arithmetic on money computes: amounts in cents survive the way through text, sums are exact,
  and products are rounded half up to the cent except that a product exactly between two cents may go either way.
\<close>

section \<open>Cents\<close>

lemma near_small:
  assumes "near k a (of_int c)" and "of_nat k * \<bar>c\<bar> < 4500000000000000"
  shows "\<bar>a - of_int c\<bar> < 1 / 2"
proof -
  have "of_int (int k * \<bar>c\<bar>) < (of_int 4500000000000000 :: rat)" using assms(2) unfolding of_int_less_iff .
  then have "of_nat k / 9000000000000000 * \<bar>of_int c :: rat\<bar> < 1 / 2" by (simp add: field_simps)
  with assms(1) show ?thesis unfolding near_def by linarith
qed

lemma fl_cents_sign: "fl (of_int c / 100) < 0 \<longleftrightarrow> c < 0"
  using fl_pos_iff [of "of_int c / 100"] fl_uminus_sign [of "of_int c / 100"] by (cases c "0 :: int" rule: linorder_cases) simp_all

lemma near_cents: "near 2 (fl (of_int c / 100) * 100) (of_int c)"
  using near_mult [OF near_fl [of "of_int c / 100"] near_refl [of 0 100]] by (simp add: numeral_2_eq_2)

lemma fromCents_int:
  assumes "\<bar>c\<bar> \<le> 10 ^ 14"
  shows "fromCents (Some (of_int c)) = fixed_text 2 c"
proof -
  have "\<bar>fl (of_int c / 100) * 100 - of_int c\<bar> < 1 / 2" using assms by (intro near_small [OF near_cents]) simp
  then have "to_fixed 2 (fl (of_int c / 100)) = fixed_text 2 c" by (intro to_fixed_near) (simp_all add: fl_cents_sign)
  then show ?thesis by (simp add: fromCents_def js_toFixed_def js_div_def)
qed

lemma fixed_text_ne [simp]: "fixed_text f c \<noteq> []"
  using fixed_digits_head [of f "nat c"] by (auto simp: fixed_text_def)

lemma round_cents:
  assumes "\<bar>c\<bar> \<le> 10 ^ 14"
  shows "\<lfloor>fl (fl (of_int c / 100) * 100) + 1 / 2\<rfloor> = c"
proof -
  have "near 4 (fl (fl (of_int c / 100) * 100)) (of_int c)" using near_round [OF near_cents] by simp
  then have "\<bar>fl (fl (of_int c / 100) * 100) - of_int c\<bar> < 1 / 2" by (rule near_small) (use assms in simp)
  then show ?thesis by (rule floor_half_near)
qed

lemma toCents_text:
  assumes "\<bar>c\<bar> \<le> 10 ^ 14"
  shows "toCents (Some (fixed_text 2 c)) = Some (of_int c)" and "toCents_shared (Some (fixed_text 2 c)) = Some (of_int c)"
  using round_cents [OF assms]
  by (simp_all add: toCents_def toCents_shared_def Number_fixed_text js_mul_def math_round_def)

section \<open>Half a cent\<close>

lemma floor_grid:
  fixes s :: rat
  assumes "0 < M" and "\<bar>s - of_int N / of_int M\<bar> < 1 / of_int M"
  shows "N mod M \<noteq> 0 \<Longrightarrow> \<lfloor>s\<rfloor> = N div M" and "\<lfloor>s\<rfloor> \<in> {N div M - 1, N div M}"
proof -
  have M: "(0 :: rat) < of_int M" using assms(1) by simp
  have N: "(of_int N :: rat) / of_int M = of_int (N div M) + of_int (N mod M) / of_int M"
  proof -
    have "(of_int N :: rat) = of_int (M * (N div M) + N mod M)" by simp
    also have "\<dots> = of_int M * of_int (N div M) + of_int (N mod M)" by (simp only: of_int_add of_int_mult)
    finally show ?thesis using M by (simp add: add_divide_distrib)
  qed
  have r: "0 \<le> N mod M" "N mod M \<le> M - 1" using assms(1) by (simp_all add: pos_mod_bound)
  have hi: "(of_int (N mod M) :: rat) / of_int M + 1 / of_int M \<le> 1"
  proof -
    have "(of_int (N mod M + 1) :: rat) \<le> of_int M" using r(2) unfolding of_int_le_iff by simp
    then have "(of_int (N mod M + 1) :: rat) / of_int M \<le> 1" using M by simp
    then show ?thesis by (simp add: add_divide_distrib)
  qed
  have one: "(1 :: rat) / of_int M \<le> 1" using assms(1) by simp
  have nn: "(0 :: rat) \<le> of_int (N mod M) / of_int M" using r(1) M by simp
  have bounds: "of_int (N div M) - 1 < s" "s < of_int (N div M) + 1"
    using assms(2) N hi one nn by linarith+
  have "of_int (N div M - 1) \<le> s" "s < of_int (N div M - 1) + 2" using bounds by simp_all
  then show "\<lfloor>s\<rfloor> \<in> {N div M - 1, N div M}"
    using floor_unique [of "N div M" s] floor_unique [of "N div M - 1" s] bounds by (cases "of_int (N div M) \<le> s") simp_all
  show "\<lfloor>s\<rfloor> = N div M" if "N mod M \<noteq> 0"
  proof (rule floor_unique)
    have "1 \<le> N mod M" using that r(1) by linarith
    then have "(1 :: rat) / of_int M \<le> of_int (N mod M) / of_int M" using M by (simp add: divide_right_mono)
    then show "of_int (N div M) \<le> s" using assms(2) N by linarith
  qed (rule bounds(2))
qed

text \<open>Adding a half and taking the floor, on a number close to \<open>n / m\<close>.\<close>

lemma half_up_near:
  assumes v: "near k v (of_int n / of_int (2 * h))" and "0 < h" and "k \<le> 9000000000000000"
    and b: "int (k + 2) * (\<bar>n\<bar> + 2 * h) < 9000000000000000"
  shows "(n + h) mod (2 * h) \<noteq> 0 \<Longrightarrow> \<lfloor>fl (v + 1 / 2)\<rfloor> = (n + h) div (2 * h)"
    and "\<lfloor>fl (v + 1 / 2)\<rfloor> \<in> {(n + h) div (2 * h) - 1, (n + h) div (2 * h)}"
proof -
  let ?E = "1 / 9000000000000000 :: rat"
  define V where "V = (of_int n :: rat) / of_int (2 * h)"
  have h: "(0 :: rat) < of_int (2 * h)" using assms(2) by simp
  have V: "0 \<le> \<bar>V\<bar>" by simp
  have e: "\<bar>v - V\<bar> \<le> of_nat k * ?E * \<bar>V\<bar>" using v [folded V_def] by (simp add: near_def)
  have "of_nat k \<le> (of_nat 9000000000000000 :: rat)" using assms(3) unfolding of_nat_le_iff .
  then have "of_nat k * ?E * \<bar>V\<bar> \<le> 1 * \<bar>V\<bar>" using V by (intro mult_right_mono) simp_all
  with e have "\<bar>v\<bar> \<le> 2 * \<bar>V\<bar>" using V by linarith
  then have "\<bar>v + 1 / 2\<bar> \<le> 2 * \<bar>V\<bar> + 1 / 2" by linarith
  then have "?E * \<bar>v + 1 / 2\<bar> \<le> ?E * (2 * \<bar>V\<bar> + 1 / 2)" by (intro mult_left_mono) simp_all
  moreover have "\<bar>fl (v + 1 / 2) - (v + 1 / 2)\<bar> \<le> ?E * \<bar>v + 1 / 2\<bar>" using near_fl [of "v + 1 / 2"] by (simp add: near_def)
  ultimately have "\<bar>fl (v + 1 / 2) - (V + 1 / 2)\<bar> \<le> of_nat k * ?E * \<bar>V\<bar> + ?E * (2 * \<bar>V\<bar> + 1 / 2)" using e by linarith
  also have "\<dots> = ?E * (of_nat k * \<bar>V\<bar> + (2 * \<bar>V\<bar> + 1 / 2))" by (simp add: algebra_simps)
  also have "\<dots> \<le> ?E * (of_nat (k + 2) * (\<bar>V\<bar> + 1))" by (intro mult_left_mono) (simp_all add: algebra_simps)
  also have "\<dots> < 1 / of_int (2 * h)"
  proof -
    have "of_int (int (k + 2) * (\<bar>n\<bar> + 2 * h)) < (of_int 9000000000000000 :: rat)" using b unfolding of_int_less_iff .
    then have "of_nat (k + 2) * of_int (\<bar>n\<bar> + 2 * h) < (9000000000000000 :: rat)"
      by (simp only: of_int_mult of_int_of_nat_eq of_int_numeral)
    moreover have "(of_int (\<bar>n\<bar> + 2 * h) :: rat) = (\<bar>V\<bar> + 1) * of_int (2 * h)"
      using h assms(2) by (simp add: V_def field_simps abs_mult)
    ultimately have "(?E * (of_nat (k + 2) * (\<bar>V\<bar> + 1))) * of_int (2 * h) < 1" by simp
    with h show ?thesis by (simp only: pos_less_divide_eq)
  qed
  finally have "\<bar>fl (v + 1 / 2) - (V + 1 / 2)\<bar> < 1 / of_int (2 * h)" .
  moreover have "V + 1 / 2 = of_int (n + h) / of_int (2 * h)" using h by (simp add: V_def field_simps)
  ultimately have "\<bar>fl (v + 1 / 2) - of_int (n + h) / of_int (2 * h)\<bar> < 1 / of_int (2 * h)" by simp
  from floor_grid [OF _ this] assms(2)
  show "(n + h) mod (2 * h) \<noteq> 0 \<Longrightarrow> \<lfloor>fl (v + 1 / 2)\<rfloor> = (n + h) div (2 * h)"
    and "\<lfloor>fl (v + 1 / 2)\<rfloor> \<in> {(n + h) div (2 * h) - 1, (n + h) div (2 * h)}" by simp_all
qed

text \<open>
  The cents a rounding half up may give for the exact amount \<open>n / m\<close>: the nearest cent, and for an amount exactly
  between two cents either of them.
\<close>

definition half_up_cents :: "int \<Rightarrow> int \<Rightarrow> int set" where
  "half_up_cents n m =
     (if (2 * n + m) mod (2 * m) = 0 then {(2 * n + m) div (2 * m) - 1, (2 * n + m) div (2 * m)}
      else {(2 * n + m) div (2 * m)})"

lemma half_up_cents_even: "0 < h \<Longrightarrow> half_up_cents n (2 * h) =
     (if (n + h) mod (2 * h) = 0 then {(n + h) div (2 * h) - 1, (n + h) div (2 * h)} else {(n + h) div (2 * h)})"
proof -
  assume "0 < h"
  have "2 * n + 2 * h = 2 * (n + h)" by simp
  then have "(2 * n + 2 * h) div (2 * (2 * h)) = (n + h) div (2 * h)" "(2 * n + 2 * h) mod (2 * (2 * h)) = 2 * ((n + h) mod (2 * h))"
    by (simp_all only: div_mult_mult1 mult_mod_right [symmetric])
  then show ?thesis by (simp add: half_up_cents_def)
qed

lemma half_up_cents_no_tie: "0 < h \<Longrightarrow> (n + h) mod (2 * h) \<noteq> 0 \<Longrightarrow> c \<in> half_up_cents n (2 * h) \<Longrightarrow> c = (n + h) div (2 * h)"
  unfolding half_up_cents_even by (simp only: if_False singleton_iff)

lemma roundHalfUp_near:
  assumes "near k v (of_int n / of_int (2 * h))" and "0 < h" and "k \<le> 9000000000000000"
    and "int (k + 2) * (\<bar>n\<bar> + 2 * h) < 9000000000000000"
  shows "\<exists>c \<in> half_up_cents n (2 * h). roundHalfUp (Some v) = Some (of_int c)"
  using half_up_near [OF assms] by (auto simp: half_up_cents_even [OF assms(2)] roundHalfUp_def js_add_def math_floor_def)

lemma half_up_cents_bound:
  assumes "0 < m" and "c \<in> half_up_cents n m"
  shows "2 * \<bar>m * c - n\<bar> \<le> m"
proof -
  define N where "N = 2 * n + m"
  have N: "2 * m * (N div (2 * m)) + N mod (2 * m) = 2 * n + m" unfolding mult_div_mod_eq by (rule N_def)
  have r: "0 \<le> N mod (2 * m)" "N mod (2 * m) < 2 * m" using assms(1) by simp_all
  consider "c = N div (2 * m)" | "N mod (2 * m) = 0" "c = N div (2 * m) - 1"
    using assms(2) by (auto simp: half_up_cents_def N_def [symmetric] split: if_splits)
  then show ?thesis
  proof cases
    case 1
    define z where "z = N mod (2 * m)"
    have "2 * (m * c - n) = m - z" using N [folded 1 z_def] by (simp add: algebra_simps)
    moreover have "0 \<le> z" "z < 2 * m" using r by (simp_all add: z_def)
    ultimately show ?thesis by (simp add: abs_if)
  next
    case 2
    then have "N div (2 * m) = c + 1" by simp
    with N 2(1) have "2 * m * (c + 1) = 2 * n + m" by simp
    then have "2 * (m * c - n) = - m" by (simp add: algebra_simps)
    with assms(1) show ?thesis by (simp add: abs_if)
  qed
qed

section \<open>Lines\<close>

lemma line_product_near:
  "near 8 (fl (fl (fl (of_int q / 100) * fl (of_int p / 100)) * 100)) (of_int (q * p) / of_int (2 * 50))"
proof -
  have "near 3 (fl (of_int q / 100) * fl (of_int p / 100)) (of_int q / 100 * (of_int p / 100))"
    using near_mult [OF near_fl near_fl, of "of_int q / 100" "of_int p / 100"] by (simp add: numeral_3_eq_3 del: near_refl)
  from near_round [OF this] have "near 5 (fl (fl (of_int q / 100) * fl (of_int p / 100))) (of_int q / 100 * (of_int p / 100))" by simp
  from near_mult [OF this near_refl [of 0 100]]
  have "near 6 (fl (fl (of_int q / 100) * fl (of_int p / 100)) * 100) (of_int (q * p) / of_int (2 * 50))" by (simp add: mult.commute [of "of_int p"])
  from near_round [OF this] show ?thesis by simp
qed

lemma line_total_cents:
  assumes "\<bar>q * p\<bar> \<le> 5 * 10 ^ 14"
  shows "\<exists>c \<in> half_up_cents (q * p) 100. computeLineTotal (fixed_text 2 q) (fixed_text 2 p) = fixed_text 2 c"
proof -
  obtain c where c: "c \<in> half_up_cents (q * p) 100"
    and r: "roundHalfUp (Some (fl (fl (fl (of_int q / 100) * fl (of_int p / 100)) * 100))) = Some (of_int c)"
    using roundHalfUp_near [OF line_product_near [of q p]] assms by auto
  have "\<bar>c\<bar> \<le> 10 ^ 14" using half_up_cents_bound [OF _ c] assms by simp
  with r c show ?thesis by (auto simp: computeLineTotal_def Number_fixed_text js_mul_def fromCents_int)
qed

text \<open>C23: amounts in cents survive the way through text: for every whole number of cents up to a million million dollars,
  \<open>toCents(fromCents(c))\<close> is \<open>c\<close>, in both modules that define \<open>toCents\<close>.
\<close>

theorem money_round_trip:
  assumes "\<bar>c\<bar> \<le> 10 ^ 14"
  shows "toCents (Some (fromCents (Some (of_int c)))) = Some (of_int c)
       \<and> toCents_shared (Some (fromCents (Some (of_int c)))) = Some (of_int c)"
  using toCents_text [OF assms] by (simp add: fromCents_int [OF assms])

theorem money_round_trip_witness:
  "fromCents (Some (of_int (- 1999))) = ''-19.99'' \<and> toCents (Some (fromCents (Some (of_int (- 1999))))) = Some (of_int (- 1999))"
proof
  show "fromCents (Some (of_int (- 1999))) = ''-19.99''" by code_simp
qed (use money_round_trip [of "- 1999"] in simp)

text \<open>C22: a line total of a quantity and a price with two decimals each is the exact product rounded to the nearest cent:
  the binary64 products on the way never move it, except that a product that is exactly half a cent can fall on either side.
\<close>

theorem line_total_rounding:
  assumes "\<bar>q * p\<bar> \<le> 5 * 10 ^ 14"
  shows "\<exists>c. computeLineTotal (fixed_text 2 q) (fixed_text 2 p) = fixed_text 2 c \<and> 2 * \<bar>100 * c - q * p\<bar> \<le> 100
           \<and> ((q * p + 50) mod 100 \<noteq> 0 \<longrightarrow> c = (q * p + 50) div 100)"
proof -
  obtain c where c: "c \<in> half_up_cents (q * p) (2 * 50)" and t: "computeLineTotal (fixed_text 2 q) (fixed_text 2 p) = fixed_text 2 c"
    using line_total_cents [OF assms] by auto
  have "2 * \<bar>100 * c - q * p\<bar> \<le> 100" using half_up_cents_bound [OF _ c] by simp
  moreover have "(q * p + 50) mod 100 \<noteq> 0 \<longrightarrow> c = (q * p + 50) div 100" using half_up_cents_no_tie [OF _ _ c] by simp
  ultimately show ?thesis using t by (intro exI [of _ c] conjI)
qed

theorem line_total_rounding_witness:
  "\<exists>c. computeLineTotal (fixed_text 2 250) (fixed_text 2 1999) = fixed_text 2 c \<and> 2 * \<bar>100 * c - 499750\<bar> \<le> (100 :: int)"
  using line_total_rounding [of 250 1999] by auto

text \<open>Half a cent is not always rounded up. Half a unit at 2.01 is 1.005 exactly and is invoiced as 1.00, while half a unit
  at 1.01 (0.505) is invoiced as 0.51: the product is taken in binary64 before it is rounded.
\<close>

theorem half_cent_lost:
  "computeLineTotal ''0.50'' ''2.01'' = ''1.00'' \<and> computeLineTotal ''0.50'' ''1.01'' = ''0.51''"
  by code_simp

section \<open>Invoice totals\<close>

definition cents_line :: "int \<times> bool \<times> bool \<Rightarrow> totals_line" where
  "cents_line l = (case l of (c, t, v) \<Rightarrow> \<lparr>tl_lineTotal = fixed_text 2 c, tl_taxable = t, tl_customerVisible = v\<rparr>)"

definition visible_cents :: "(int \<times> bool \<times> bool) list \<Rightarrow> int" where
  "visible_cents ls = sum_list (map fst (filter (snd \<circ> snd) ls))"

definition taxable_cents :: "(int \<times> bool \<times> bool) list \<Rightarrow> int" where
  "taxable_cents ls = sum_list (map fst (filter (\<lambda>(c, t, v). t \<and> v) ls))"

definition gross_cents :: "(int \<times> bool \<times> bool) list \<Rightarrow> int" where
  "gross_cents ls = sum_list (map (abs \<circ> fst) ls)"

lemma js_add_int: "\<bar>a + b\<bar> \<le> 10 ^ 14 \<Longrightarrow> js_add (Some (of_int a)) (Some (of_int b)) = Some (of_int (a + b))"
  using fl_of_int [of "a + b"] by (simp add: js_add_def)

lemma js_sub_int: "\<bar>a - b\<bar> \<le> 10 ^ 14 \<Longrightarrow> js_sub (Some (of_int a)) (Some (of_int b)) = Some (of_int (a - b))"
  using fl_of_int [of "a - b"] by (simp add: js_sub_def)

lemma gross_nonneg: "0 \<le> gross_cents ls"
  by (auto simp: gross_cents_def intro!: sum_list_nonneg)

lemma totals_loop_exact:
  assumes "\<bar>s\<bar> + gross_cents ls \<le> 10 ^ 14" and "\<bar>t\<bar> + gross_cents ls \<le> 10 ^ 14"
  shows "totals_loop (map cents_line ls) (Some (of_int s)) (Some (of_int t))
       = (Some (of_int (s + visible_cents ls)), Some (of_int (t + taxable_cents ls)))"
  using assms
proof (induction ls arbitrary: s t)
  case Nil
  then show ?case by (simp add: visible_cents_def taxable_cents_def)
next
  case (Cons l ls)
  obtain c x v where l: "l = (c, x, v)" by (cases l)
  have g: "gross_cents (l # ls) = \<bar>c\<bar> + gross_cents ls" by (simp add: gross_cents_def l)
  have c: "\<bar>c\<bar> \<le> 10 ^ 14" and sc: "\<bar>s + c\<bar> + gross_cents ls \<le> 10 ^ 14" and tc: "\<bar>t + c\<bar> + gross_cents ls \<le> 10 ^ 14"
    and s: "\<bar>s\<bar> + gross_cents ls \<le> 10 ^ 14" and t: "\<bar>t\<bar> + gross_cents ls \<le> 10 ^ 14"
    using Cons.prems gross_nonneg [of ls] unfolding g by linarith+
  have sa: "js_add (Some (of_int s)) (Some (of_int c)) = Some (of_int (s + c))"
    and ta: "js_add (Some (of_int t)) (Some (of_int c)) = Some (of_int (t + c))"
    using sc tc gross_nonneg [of ls] by (intro js_add_int; linarith)+
  have "totals_loop (map cents_line (l # ls)) (Some (of_int s)) (Some (of_int t))
      = (if v then totals_loop (map cents_line ls) (Some (of_int (s + c))) (Some (of_int (if x then t + c else t)))
         else totals_loop (map cents_line ls) (Some (of_int s)) (Some (of_int t)))"
    using sa ta toCents_text(1) [OF c] by (simp add: l cents_line_def Let_def del: of_int_add)
  also have "\<dots> = (Some (of_int (s + visible_cents (l # ls))), Some (of_int (t + taxable_cents (l # ls))))"
    using Cons.IH [OF sc tc] Cons.IH [OF sc t] Cons.IH [OF s t] by (simp add: l visible_cents_def taxable_cents_def add.assoc)
  finally show ?case .
qed

lemma tax_near: "near 4 (fl (of_int t * fl (of_int r / 100000))) (of_int (t * r) / of_int (2 * 50000))"
proof -
  from near_mult [OF near_refl [of 0 "of_int t"] near_fl [of "of_int r / 100000"]]
  have "near 2 (of_int t * fl (of_int r / 100000)) (of_int (t * r) / of_int (2 * 50000))" by (simp add: numeral_2_eq_2)
  from near_round [OF this] show ?thesis by simp
qed

lemma visible_le_gross: "\<bar>visible_cents ls\<bar> \<le> gross_cents ls" "\<bar>taxable_cents ls\<bar> \<le> gross_cents ls"
  by (induction ls) (auto simp: visible_cents_def taxable_cents_def gross_cents_def)

lemma invoice_tax_cents:
  assumes "gross_cents ls \<le> 10 ^ 13" and "\<bar>taxable_cents ls * r\<bar> \<le> 10 ^ 15"
  obtains tax where "tax \<in> half_up_cents (taxable_cents ls * r) (2 * 50000)"
    and "computeInvoiceTotals (map cents_line ls) (Some (fixed_text 5 r))
       = \<lparr>iv_subtotal = fixed_text 2 (visible_cents ls), iv_taxTotal = fixed_text 2 tax, iv_total = fixed_text 2 (visible_cents ls + tax)\<rparr>"
proof -
  have loop: "totals_loop (map cents_line ls) (Some 0) (Some 0) = (Some (of_int (visible_cents ls)), Some (of_int (taxable_cents ls)))"
    using totals_loop_exact [of 0 ls 0] assms(1) by simp
  obtain tax where tax: "tax \<in> half_up_cents (taxable_cents ls * r) (2 * 50000)"
    and rh: "roundHalfUp (Some (fl (of_int (taxable_cents ls) * fl (of_int r / 100000)))) = Some (of_int tax)"
    using roundHalfUp_near [OF tax_near [of "taxable_cents ls" r]] assms(2) by auto
  have b: "\<bar>tax\<bar> \<le> 10 ^ 13" using half_up_cents_bound [OF _ tax] assms(2) by simp
  have s: "\<bar>visible_cents ls\<bar> \<le> 10 ^ 13" using visible_le_gross(1) [of ls] assms(1) by linarith
  have st: "\<bar>visible_cents ls + tax\<bar> \<le> 10 ^ 14" using b s by simp
  have "computeInvoiceTotals (map cents_line ls) (Some (fixed_text 5 r))
      = \<lparr>iv_subtotal = fixed_text 2 (visible_cents ls), iv_taxTotal = fixed_text 2 tax, iv_total = fixed_text 2 (visible_cents ls + tax)\<rparr>"
    using rh s b js_add_int [OF st] fromCents_int [OF st]
    by (simp add: computeInvoiceTotals_def loop Number_fixed_text js_mul_def fromCents_int str_or_none_def del: of_int_add)
  with tax show thesis by (rule that)
qed

text \<open>C21: the totals of an invoice are exact on line totals in cents: the subtotal is the sum of the visible lines, the tax is the
  rate of the sum of the visible taxable lines rounded to the nearest cent (up at half a cent, or down when binary64 puts it
  there), and the total is the sum of the two, with no drift from the sums in binary64.
\<close>

theorem invoice_totals_exact:
  assumes "gross_cents ls \<le> 10 ^ 13" and "\<bar>taxable_cents ls * r\<bar> \<le> 10 ^ 15"
  shows "\<exists>tax \<in> half_up_cents (taxable_cents ls * r) 100000.
           computeInvoiceTotals (map cents_line ls) (Some (fixed_text 5 r))
             = \<lparr>iv_subtotal = fixed_text 2 (visible_cents ls), iv_taxTotal = fixed_text 2 tax,
                iv_total = fixed_text 2 (visible_cents ls + tax)\<rparr>"
  using invoice_tax_cents [OF assms] by (metis mult_2 numeral_Bit0)

theorem invoice_totals_exact_witness:
  "gross_cents [(1999, True, True), (500, False, True), (250, True, False)] = 2749
 \<and> (\<exists>tax \<in> half_up_cents (1999 * 8250) 100000.
       iv_total (computeInvoiceTotals (map cents_line [(1999, True, True), (500, False, True), (250, True, False)]) (Some (fixed_text 5 8250)))
         = fixed_text 2 (2499 + tax))"
  using invoice_totals_exact [of "[(1999, True, True), (500, False, True), (250, True, False)]" 8250]
  by (auto simp: gross_cents_def taxable_cents_def visible_cents_def)

end
