(* ===== verification/Invoice_Ledger.thy ===== *)
theory Invoice_Ledger
  imports Money_Rounding Invoices
begin

text \<open>
  Every operation on the invoice tables as one step relation, and the invariant of the tables: what was paid is the sum
  of the payments and never more than the total, numbers are unique and without gaps, and no time entry or part is billed
  by two invoices.
\<close>

section \<open>Amounts\<close>

definition cents :: "string \<Rightarrow> int" where
  "cents s = (case toCents (Some s) of Some x \<Rightarrow> \<lfloor>x\<rfloor> | None \<Rightarrow> 0)"

text \<open>The amounts a column holds: whole cents below the limit of the column.\<close>

definition cents_text :: "string \<Rightarrow> bool" where
  "cents_text s \<longleftrightarrow> \<bar>cents s\<bar> < 10 ^ 12 \<and> s = fixed_text 2 (cents s)"

lemma cents_fixed [simp]: "\<bar>c\<bar> \<le> 10 ^ 14 \<Longrightarrow> cents (fixed_text 2 c) = c"
  by (simp add: cents_def toCents_text)

lemma cents_text_fixed: "\<bar>c\<bar> < 10 ^ 12 \<Longrightarrow> cents_text (fixed_text 2 c)"
  by (simp add: cents_text_def)

lemma toCents_cents: "cents_text s \<Longrightarrow> toCents (Some s) = Some (of_int (cents s))"
  using toCents_text(1) [of "cents s"] by (simp add: cents_text_def)

lemma numeric_column_cases:
  assumes "numeric_column s = Inr t"
  shows "t = ''NaN'' \<or> cents_text t"
  using assms by (auto simp: numeric_column_def Let_def cents_text_fixed split: if_splits option.splits)

lemma numeric_fixed: "\<bar>c\<bar> < 10 ^ 12 \<Longrightarrow> numeric_column (fixed_text 2 c) = Inr (fixed_text 2 c)"
proof -
  assume c: "\<bar>c\<bar> < 10 ^ 12"
  have f: "\<lfloor>(of_int k :: rat) + 1 / 2\<rfloor> = k" for k by (rule floor_unique) simp_all
  have "fixed_text 2 c \<noteq> ''NaN''"
  proof
    assume "fixed_text 2 c = ''NaN''"
    then have "decimal_value ''NaN'' = Some (of_int c / 10 ^ 2)" using decimal_fixed_text [of 2 c] by simp
    moreover have "decimal_value ''NaN'' = None" by code_simp
    ultimately show False by simp
  qed
  then show ?thesis
    using decimal_fixed_text [of 2 c] c f [of c] f [of "- c"] by (cases "c < 0") (simp_all add: numeric_column_def Let_def)
qed

lemma toCents_NaN: "toCents (Some ''NaN'') = None"
  by code_simp

section \<open>Payments\<close>

definition paid_sum :: "string list \<Rightarrow> int" where
  "paid_sum ps = sum_list (map cents ps)"

definition payment_text :: "string \<Rightarrow> bool" where
  "payment_text a \<longleftrightarrow> cents_text a \<and> 0 < cents a"

lemma paid_sum_nonneg: "list_all payment_text ps \<Longrightarrow> 0 \<le> paid_sum ps"
  by (induction ps) (simp_all add: paid_sum_def payment_text_def)

lemma paid_cents_from:
  assumes "list_all payment_text ps" and "0 \<le> s" and "s + paid_sum ps \<le> 10 ^ 14"
  shows "foldl (\<lambda>s a. js_add s (toCents (Some a))) (Some (of_int s)) ps = Some (of_int (s + paid_sum ps))"
  using assms
proof (induction ps arbitrary: s)
  case Nil
  then show ?case by (simp add: paid_sum_def)
next
  case (Cons a ps)
  have a: "cents_text a" "0 < cents a" using Cons.prems(1) by (simp_all add: payment_text_def)
  have ps: "list_all payment_text ps" using Cons.prems(1) by simp
  have sum: "paid_sum (a # ps) = cents a + paid_sum ps" by (simp add: paid_sum_def)
  have "js_add (Some (of_int s)) (Some (of_int (cents a))) = Some (of_int (s + cents a))"
    using Cons.prems a paid_sum_nonneg [OF ps] by (intro js_add_int) (simp add: sum)
  with Cons.IH [OF ps, of "s + cents a"] Cons.prems(2,3) a sum show ?case
    by (simp add: toCents_cents add.assoc del: of_int_add)
qed

lemma paid_cents_sum: "list_all payment_text ps \<Longrightarrow> paid_sum ps \<le> 10 ^ 14 \<Longrightarrow> paid_cents ps = Some (of_int (paid_sum ps))"
  using paid_cents_from [of ps 0] by (simp add: paid_cents_def)

text \<open>What an issued invoice says about money, given its payments.\<close>

definition money_ok :: "string list \<Rightarrow> invoice_row \<Rightarrow> bool" where
  "money_ok ps v \<longleftrightarrow> list_all payment_text ps \<and>
     (inv_total v = ''NaN'' \<or>
      cents_text (inv_total v) \<and> inv_amountPaid v = fixed_text 2 (paid_sum ps)
      \<and> inv_balance v = fixed_text 2 (cents (inv_total v) - paid_sum ps) \<and> paid_sum ps \<le> max 0 (cents (inv_total v)))"

definition status_row :: "string list \<Rightarrow> int \<Rightarrow> string \<Rightarrow> string \<Rightarrow> invoice_row \<Rightarrow> invoice_row" where
  "status_row ps now paid bal v =
     (let status = deriveInvoiceStatus (inv_voidedAt v \<noteq> None) (inv_number v \<noteq> None) (inv_total v) (fromCents (paid_cents ps))
                     (map_option day_end (inv_dueDate v)) now
      in v\<lparr>inv_amountPaid := paid, inv_balance := bal, inv_status := status,
           inv_paidAt := (if status = InvPaid \<and> inv_paidAt v = None then Some now else inv_paidAt v),
           inv_markedOverdueAt := (if status = InvOverdue \<and> inv_markedOverdueAt v = None then Some now else inv_markedOverdueAt v)\<rparr>)"

lemma recompute_status_row:
  assumes "recomputeInvoiceStatus i now db = Inr db'" and "vd_invoices db i = Some v"
  obtains paid bal where "db' = set_invoice i (status_row (payments_of db i) now paid bal v) db"
    and "numeric_column (fromCents (paid_cents (payments_of db i))) = Inr paid"
    and "numeric_column (fromCents (js_sub (toCents (Some (inv_total v))) (toCents (Some (fromCents (paid_cents (payments_of db i))))))) = Inr bal"
  using assms by (auto simp: recomputeInvoiceStatus_def getOwnedInvoiceOr404_def and_then_Inr Let_def status_row_def simp del: not_None_eq)

lemma recompute_money:
  assumes "list_all payment_text (payments_of db i)" and "vd_invoices db i = Some v"
    and "inv_total v = ''NaN'' \<or> cents_text (inv_total v) \<and> paid_sum (payments_of db i) \<le> max 0 (cents (inv_total v))"
    and "recomputeInvoiceStatus i now db = Inr db'"
  obtains w where "db' = set_invoice i w db" and "money_ok (payments_of db i) w" and "inv_total w = inv_total v" and "inv_number w = inv_number v"
    and "inv_voidedAt w = inv_voidedAt v" and "inv_partnerId w = inv_partnerId v" and "inv_orgId w = inv_orgId v"
    and "inv_subtotal w = inv_subtotal v" and "inv_taxTotal w = inv_taxTotal v" and "inv_taxRate w = inv_taxRate v"
    and "(inv_status w = InvVoid) = (inv_voidedAt v \<noteq> None)" and "(inv_status w = InvDraft) = (inv_voidedAt v = None \<and> inv_number v = None)"
proof -
  let ?ps = "payments_of db i"
  obtain paid bal where row: "db' = set_invoice i (status_row ?ps now paid bal v) db"
    and paid: "numeric_column (fromCents (paid_cents ?ps)) = Inr paid"
    and bal: "numeric_column (fromCents (js_sub (toCents (Some (inv_total v))) (toCents (Some (fromCents (paid_cents ?ps)))))) = Inr bal"
    using recompute_status_row [OF assms(4,2)] .
  define w where "w = status_row ?ps now paid bal v"
  have w: "inv_amountPaid w = paid" "inv_balance w = bal" "inv_total w = inv_total v" by (simp_all add: w_def status_row_def Let_def)
  have "money_ok ?ps w"
  proof (cases "inv_total v = ''NaN''")
    case True
    with assms(1) w(3) show ?thesis by (simp add: money_ok_def)
  next
    case False
    define T P where "T = cents (inv_total v)" and "P = paid_sum ?ps"
    have t: "cents_text (inv_total v)" and P: "0 \<le> P" "P \<le> max 0 T"
      using assms(3) False paid_sum_nonneg [OF assms(1)] by (auto simp: T_def P_def)
    have T: "\<bar>T\<bar> < 10 ^ 12" using t by (simp add: cents_text_def T_def)
    have "paid_cents ?ps = Some (of_int P)" using paid_cents_sum [OF assms(1)] P T by (simp add: P_def)
    then have pt: "fromCents (paid_cents ?ps) = fixed_text 2 P" using P T by (simp add: fromCents_int)
    have "toCents (Some (inv_total v)) = Some (of_int T)" using toCents_cents [OF t] by (simp add: T_def)
    moreover have "toCents (Some (fixed_text 2 P)) = Some (of_int P)" using P T by (intro toCents_text) simp
    moreover have "js_sub (Some (of_int T)) (Some (of_int P)) = Some (of_int (T - P))" using P T by (intro js_sub_int) simp
    moreover have "fromCents (Some (of_int (T - P))) = fixed_text 2 (T - P)" using P T by (intro fromCents_int) simp
    ultimately have bt: "fromCents (js_sub (toCents (Some (inv_total v))) (toCents (Some (fromCents (paid_cents ?ps))))) = fixed_text 2 (T - P)"
      using pt by simp
    have "paid = fixed_text 2 P" using paid P T by (simp add: pt numeric_fixed)
    moreover have "bal = fixed_text 2 (T - P)" using bal P T unfolding bt by (simp add: numeric_fixed)
    ultimately show ?thesis using assms(1) t P(2) w by (simp add: money_ok_def T_def P_def)
  qed
  then show thesis by (intro that [OF row [folded w_def]]) (simp_all add: w_def status_row_def Let_def deriveInvoiceStatus_def)
qed

section \<open>The invariant\<close>

definition issued_at :: "invoice_db \<Rightarrow> id \<Rightarrow> bool" where
  "issued_at db i = (case vd_invoices db i of Some v \<Rightarrow> inv_number v \<noteq> None | None \<Rightarrow> False)"

definition draft_at :: "invoice_db \<Rightarrow> id \<Rightarrow> bool" where
  "draft_at db i = (case vd_invoices db i of Some v \<Rightarrow> inv_number v = None | None \<Rightarrow> False)"

text \<open>Invoices that bill: issued and not void.\<close>

definition live_at :: "invoice_db \<Rightarrow> id \<Rightarrow> bool" where
  "live_at db i = (case vd_invoices db i of Some v \<Rightarrow> inv_number v \<noteq> None \<and> inv_voidedAt v = None | None \<Rightarrow> False)"

definition draft_row :: "invoice_row \<Rightarrow> bool" where
  "draft_row v \<longleftrightarrow> inv_number v = None \<and> inv_status v = InvDraft \<and> inv_voidedAt v = None \<and> inv_amountPaid v = ''0.00''"

definition row_ok :: "string list \<Rightarrow> invoice_row \<Rightarrow> bool" where
  "row_ok ps v \<longleftrightarrow>
     (if inv_number v = None then draft_row v \<and> ps = []
      else inv_status v \<noteq> InvDraft \<and> (inv_status v = InvVoid) = (inv_voidedAt v \<noteq> None) \<and> money_ok ps v)"

definition source_rows :: "line_source \<Rightarrow> invoice_db \<Rightarrow> (id \<times> source_billing) list" where
  "source_rows src db =
     (case src of
        SrcTimeEntry \<Rightarrow> map (apsnd te_billingStatus) (vd_times db)
      | SrcPart \<Rightarrow> map (apsnd tp_billingStatus) (vd_parts db)
      | _ \<Rightarrow> [])"

definition source_keys :: "line_source \<Rightarrow> invoice_db \<Rightarrow> id set" where
  "source_keys src db = fst ` set (source_rows src db)"

definition source_status :: "line_source \<Rightarrow> invoice_db \<Rightarrow> id \<Rightarrow> source_billing option" where
  "source_status src db = map_of (source_rows src db)"

definition billed_sources :: "line_source \<Rightarrow> invoice_db \<Rightarrow> id \<Rightarrow> id list" where
  "billed_sources src db i = source_ids src (lines_of db i)"

definition sources_ok :: "line_source \<Rightarrow> invoice_db \<Rightarrow> bool" where
  "sources_ok src db \<longleftrightarrow>
     distinct (map fst (source_rows src db)) \<and> [] \<notin> source_keys src db
     \<and> (\<forall>(k, l) \<in> set (vd_lines db). il_sourceType l = src \<longrightarrow> (\<exists>t \<in> source_keys src db. il_sourceId l = Some t))
     \<and> (\<forall>i. distinct (billed_sources src db i))
     \<and> (\<forall>i. live_at db i \<longrightarrow> (\<forall>t \<in> set (billed_sources src db i). source_status src db t \<noteq> Some SbNotBilled))
     \<and> (\<forall>i j. i \<noteq> j \<and> live_at db i \<and> live_at db j \<longrightarrow> set (billed_sources src db i) \<inter> set (billed_sources src db j) = {})"

definition numbered :: "invoice_row \<Rightarrow> int \<Rightarrow> nat \<Rightarrow> bool" where
  "numbered v y k \<longleftrightarrow> (\<exists>pre. inv_number v = Some (formatInvoiceNumber pre y k))"

definition last_number :: "invoice_db \<Rightarrow> id \<Rightarrow> int \<Rightarrow> nat" where
  "last_number db p y = (case vd_sequences db (p, y) of Some n \<Rightarrow> n | None \<Rightarrow> 0)"

definition numbers_ok :: "invoice_db \<Rightarrow> bool" where
  "numbers_ok db \<longleftrightarrow>
     (\<forall>i v. vd_invoices db i = Some v \<and> inv_number v \<noteq> None \<longrightarrow>
        (\<exists>y k. 0 \<le> y \<and> numbered v y k \<and> 1 \<le> k \<and> k \<le> last_number db (inv_partnerId v) y))
     \<and> (\<forall>i j v w y k. vd_invoices db i = Some v \<and> vd_invoices db j = Some w \<and> inv_partnerId v = inv_partnerId w
          \<and> 0 \<le> y \<and> numbered v y k \<and> numbered w y k \<longrightarrow> i = j)
     \<and> (\<forall>p y k. 0 \<le> y \<and> 1 \<le> k \<and> k \<le> last_number db p y \<longrightarrow> (\<exists>i v. vd_invoices db i = Some v \<and> inv_partnerId v = p \<and> numbered v y k))"

text \<open>A child of a bundle line lies on the invoice of its parent, which is no child itself.\<close>

definition parent_line :: "(id \<times> invoice_line) list \<Rightarrow> invoice_line \<Rightarrow> bool" where
  "parent_line ls l \<longleftrightarrow>
     (case il_parentLineId l of
        None \<Rightarrow> True
      | Some p \<Rightarrow> (\<exists>l'. (p, l') \<in> set ls \<and> il_invoiceId l' = il_invoiceId l \<and> il_parentLineId l' = None))"

lemma parent_line_cong: "il_invoiceId a = il_invoiceId b \<Longrightarrow> il_parentLineId a = il_parentLineId b \<Longrightarrow> parent_line ls a = parent_line ls b"
  by (simp add: parent_line_def cong: option.case_cong)

definition parents_ok :: "(id \<times> invoice_line) list \<Rightarrow> bool" where
  "parents_ok ls \<longleftrightarrow> (\<forall>(k, l) \<in> set ls. parent_line ls l)"

definition invoice_inv :: "invoice_db \<Rightarrow> bool" where
  "invoice_inv db \<longleftrightarrow>
     (\<forall>i v. vd_invoices db i = Some v \<longrightarrow> row_ok (payments_of db i) v)
     \<and> (\<forall>(k, l) \<in> set (vd_lines db). vd_invoices db (il_invoiceId l) \<noteq> None)
     \<and> (\<forall>(k, p) \<in> set (vd_payments db). vd_invoices db (ip_invoiceId p) \<noteq> None)
     \<and> parents_ok (vd_lines db) \<and> distinct (map fst (vd_lines db)) \<and> distinct (map fst (vd_payments db))
     \<and> sources_ok SrcTimeEntry db \<and> sources_ok SrcPart db \<and> numbers_ok db"

lemma numbered_None [simp]: "inv_number v = None \<Longrightarrow> \<not> numbered v y k"
  by (simp add: numbered_def)

lemma lines_of_set_invoice [simp]:
  "lines_of (set_invoice i v db) j = lines_of db j" "billed_sources src (set_invoice i v db) j = billed_sources src db j"
  "payments_of (set_invoice i v db) j = payments_of db j" "source_rows src (set_invoice i v db) = source_rows src db"
  "source_keys src (set_invoice i v db) = source_keys src db" "source_status src (set_invoice i v db) = source_status src db"
  by (simp_all add: set_invoice_def lines_of_def billed_sources_def payments_of_def source_rows_def source_keys_def source_status_def cong: line_source.case_cong)

lemma set_invoice_simps [simp]:
  "vd_invoices (set_invoice i v db) = (vd_invoices db)(i \<mapsto> v)" "vd_lines (set_invoice i v db) = vd_lines db"
  "vd_payments (set_invoice i v db) = vd_payments db" "vd_times (set_invoice i v db) = vd_times db"
  "vd_parts (set_invoice i v db) = vd_parts db" "vd_sequences (set_invoice i v db) = vd_sequences db" "vd_orgs (set_invoice i v db) = vd_orgs db"
  by (simp_all add: set_invoice_def)

lemma live_set_invoice: "live_at (set_invoice i v db) j = (if j = i then inv_number v \<noteq> None \<and> inv_voidedAt v = None else live_at db j)"
  by (simp add: live_at_def)

lemma draft_not_live: "draft_at db i \<Longrightarrow> \<not> live_at db i"
  by (auto simp: draft_at_def live_at_def split: option.splits)

lemma no_lines: "invoice_inv db \<Longrightarrow> vd_invoices db i = None \<Longrightarrow> lines_of db i = []"
  by (auto simp: invoice_inv_def lines_of_def filter_empty_conv)

lemma no_payments: "invoice_inv db \<Longrightarrow> vd_invoices db i = None \<Longrightarrow> payments_of db i = []"
  by (fastforce simp: invoice_inv_def payments_of_def filter_empty_conv)

section \<open>Drafts\<close>

lemma numbers_same:
  "vd_invoices db' = vd_invoices db \<Longrightarrow> vd_sequences db' = vd_sequences db \<Longrightarrow> numbers_ok db' = numbers_ok db"
  by (simp add: numbers_ok_def last_number_def)

lemma sources_same_live:
  assumes "sources_ok src db" and "live_at db' = live_at db" and "vd_lines db' = vd_lines db" and "source_rows src db' = source_rows src db"
  shows "sources_ok src db'"
proof -
  have "billed_sources src db' = billed_sources src db" "source_keys src db' = source_keys src db" "source_status src db' = source_status src db"
    using assms(3,4) by (auto simp: billed_sources_def lines_of_def source_keys_def source_status_def)
  with assms show ?thesis by (simp add: sources_ok_def)
qed

text \<open>A draft is replaced by a draft, or a new one inserted.\<close>

lemma inv_set_draft:
  assumes inv: "invoice_inv db" and "draft_at db i \<or> vd_invoices db i = None" and v: "draft_row v"
  shows "invoice_inv (set_invoice i v db)"
proof -
  have n: "inv_number v = None" using v by (simp add: draft_row_def)
  have ps: "payments_of db i = []"
    using assms(2) no_payments [OF inv, of i] inv by (auto simp: invoice_inv_def row_ok_def draft_at_def split: option.splits)
  have old: "\<not> live_at db i" using assms(2) by (auto simp: live_at_def draft_at_def split: option.splits)
  have live: "live_at (set_invoice i v db) = live_at db" using n old by (simp add: live_set_invoice fun_eq_iff)
  have other: "vd_invoices db i = Some w \<Longrightarrow> \<not> numbered w y k" for w y k using assms(2) by (auto simp: draft_at_def)
  have "numbers_ok (set_invoice i v db)"
    using inv n other unfolding invoice_inv_def numbers_ok_def last_number_def
    by (auto split: if_splits) (metis option.distinct(1))+
  moreover have "sources_ok src (set_invoice i v db)" if "sources_ok src db" for src
    using sources_same_live [OF that live] by simp
  ultimately show ?thesis using inv v n ps unfolding invoice_inv_def by (auto simp: row_ok_def)
qed

text \<open>The lines of drafts change.\<close>

lemma inv_draft_lines:
  assumes inv: "invoice_inv db" and same: "\<And>j. \<not> draft_at db j \<Longrightarrow> filter (\<lambda>(k, l). il_invoiceId l = j) ls = lines_of db j"
    and src: "\<And>src. src \<in> {SrcTimeEntry, SrcPart} \<Longrightarrow>
        (\<forall>(k, l) \<in> set ls. il_sourceType l = src \<longrightarrow> (\<exists>t \<in> source_keys src db. il_sourceId l = Some t))
        \<and> (\<forall>i. draft_at db i \<longrightarrow> distinct (source_ids src (filter (\<lambda>(k, l). il_invoiceId l = i) ls)))"
    and keys: "distinct (map fst ls)" "parents_ok ls"
  shows "invoice_inv (db\<lparr>vd_lines := ls\<rparr>)"
proof -
  let ?db = "db\<lparr>vd_lines := ls\<rparr>"
  have live: "live_at ?db = live_at db" by (simp add: live_at_def fun_eq_iff)
  have b: "\<not> draft_at db j \<Longrightarrow> billed_sources src ?db j = billed_sources src db j" for src j
    using same [of j] by (simp add: billed_sources_def lines_of_def)
  have rows: "source_rows src ?db = source_rows src db" "source_keys src ?db = source_keys src db" "source_status src ?db = source_status src db" for src
    by (simp_all add: source_rows_def source_keys_def source_status_def cong: line_source.case_cong)
  have "vd_invoices db (il_invoiceId l) \<noteq> None" if "(k, l) \<in> set ls" for k l
  proof
    assume none: "vd_invoices db (il_invoiceId l) = None"
    then have "\<not> draft_at db (il_invoiceId l)" by (simp add: draft_at_def)
    from same [OF this] no_lines [OF inv none] that show False by (auto simp: filter_empty_conv)
  qed
  moreover have "sources_ok src ?db" if "src \<in> {SrcTimeEntry, SrcPart}" "sources_ok src db" for src
  proof -
    have d: "distinct (billed_sources src ?db i)" for i
      using src [OF that(1)] b [of i src] that(2) by (cases "draft_at db i") (auto simp: billed_sources_def lines_of_def sources_ok_def)
    have l: "live_at db i \<Longrightarrow> billed_sources src ?db i = billed_sources src db i" for i using b draft_not_live by blast
    show ?thesis using that(2) src [OF that(1)] d l unfolding sources_ok_def rows live by simp
  qed
  moreover have "payments_of ?db j = payments_of db j" for j by (simp add: payments_of_def)
  moreover have "numbers_ok ?db" using inv numbers_same [of ?db db] by (simp add: invoice_inv_def)
  ultimately show ?thesis using inv keys unfolding invoice_inv_def by auto
qed

section \<open>Issued invoices\<close>

text \<open>What an issued invoice keeps through every operation: its number, its owners, its amounts and its lines.\<close>

definition frozen_row :: "invoice_row \<Rightarrow> invoice_row \<Rightarrow> bool" where
  "frozen_row v w \<longleftrightarrow> inv_number w = inv_number v \<and> inv_partnerId w = inv_partnerId v \<and> inv_orgId w = inv_orgId v
     \<and> inv_subtotal w = inv_subtotal v \<and> inv_taxRate w = inv_taxRate v \<and> inv_taxTotal w = inv_taxTotal v \<and> inv_total w = inv_total v"

definition keeps_issued :: "invoice_db \<Rightarrow> invoice_db \<Rightarrow> bool" where
  "keeps_issued db db' \<longleftrightarrow>
     (\<forall>i v. vd_invoices db i = Some v \<and> inv_number v \<noteq> None \<longrightarrow>
        (\<exists>w. vd_invoices db' i = Some w \<and> frozen_row v w) \<and> lines_of db' i = lines_of db i)"

definition sound :: "invoice_db \<Rightarrow> invoice_db \<Rightarrow> bool" where
  "sound db db' \<longleftrightarrow> invoice_inv db' \<and> keeps_issued db db'"

lemma keeps_issued_refl [simp]: "keeps_issued db db"
  by (simp add: keeps_issued_def frozen_row_def)

lemma keeps_issued_trans:
  assumes "keeps_issued a b" and "keeps_issued b c"
  shows "keeps_issued a c"
  unfolding keeps_issued_def
proof (intro allI impI)
  fix i v assume v: "vd_invoices a i = Some v \<and> inv_number v \<noteq> None"
  then obtain w where w: "vd_invoices b i = Some w" "frozen_row v w" "lines_of b i = lines_of a i"
    using assms(1) unfolding keeps_issued_def by blast
  with v have "inv_number w \<noteq> None" by (simp add: frozen_row_def)
  with w(1) obtain x where x: "vd_invoices c i = Some x" "frozen_row w x" "lines_of c i = lines_of b i"
    using assms(2) unfolding keeps_issued_def by blast
  have "frozen_row v x" using w(2) x(2) by (simp add: frozen_row_def)
  with x w(3) show "(\<exists>w. vd_invoices c i = Some w \<and> frozen_row v w) \<and> lines_of c i = lines_of a i" by simp
qed

lemma sound_trans: "sound a b \<Longrightarrow> sound b c \<Longrightarrow> sound a c"
  using keeps_issued_trans by (auto simp: sound_def)

lemma soundD: "sound db db' \<Longrightarrow> invoice_inv db'"
  by (simp add: sound_def)

lemma sound_set_draft:
  assumes "invoice_inv db" and "draft_at db i \<or> vd_invoices db i = None" and "draft_row v"
  shows "sound db (set_invoice i v db)"
  using inv_set_draft [OF assms] assms(2) by (auto simp: sound_def keeps_issued_def frozen_row_def draft_at_def)

lemma inv_row: "invoice_inv db \<Longrightarrow> vd_invoices db i = Some v \<Longrightarrow> row_ok (payments_of db i) v"
  by (simp add: invoice_inv_def)

lemma draft_status:
  assumes "invoice_inv db" and "vd_invoices db i = Some v" and "inv_status v = InvDraft"
  shows "draft_at db i" and "draft_row v"
  using inv_row [OF assms(1,2)] assms(2,3) by (auto simp: row_ok_def draft_at_def split: if_splits)

lemma editable_cases: "editable_draft db i actor = Inr v \<Longrightarrow> vd_invoices db i = Some v \<and> inv_status v = InvDraft"
  by (auto simp: editable_draft_def getOwnedInvoiceOr404_def assertDraft_def and_then_Inr split: option.splits)

lemma source_ids_append [simp]: "source_ids src (xs @ ys) = source_ids src xs @ source_ids src ys"
  by (simp add: source_ids_def map_filter_def)

lemma source_ids_Nil [simp]: "source_ids src [] = []"
  by (simp add: source_ids_def)

lemma source_ids_one:
  "source_ids src [(k, l)] = (if il_sourceType l = src then (case str_or_none (il_sourceId l) of Some t \<Rightarrow> [t] | None \<Rightarrow> []) else [])"
  by (simp add: source_ids_def map_filter_def split: option.split)

lemma store_line_keeps:
  assumes "store_line l = Inr l'"
  shows "il_invoiceId l' = il_invoiceId l" "il_sourceType l' = il_sourceType l" "il_sourceId l' = il_sourceId l" "il_parentLineId l' = il_parentLineId l"
  using assms by (auto simp: store_line_def and_then_Inr)

definition fresh_source :: "invoice_db \<Rightarrow> id \<Rightarrow> invoice_line \<Rightarrow> bool" where
  "fresh_source db i l \<longleftrightarrow>
     (\<forall>src \<in> {SrcTimeEntry, SrcPart}. il_sourceType l = src \<longrightarrow>
        (\<exists>t \<in> source_keys src db. il_sourceId l = Some t \<and> t \<notin> set (billed_sources src db i)))"

lemma add_line_fields:
  assumes "add_line k l db = Inr db'"
  shows "vd_invoices db' = vd_invoices db" and "source_rows src db' = source_rows src db" and "vd_orgs db' = vd_orgs db"
    and "billed_sources src db' i = billed_sources src db i @ (if il_invoiceId l = i then source_ids src [(k, l)] else [])"
    and "\<exists>l'. vd_lines db' = vd_lines db @ [(k, l')] \<and> il_invoiceId l' = il_invoiceId l \<and> il_parentLineId l' = il_parentLineId l"
proof -
  obtain l' where "store_line l = Inr l'" and db': "db' = db\<lparr>vd_lines := vd_lines db @ [(k, l')]\<rparr>"
    using assms by (auto simp: add_line_def and_then_Inr)
  note keeps = store_line_keeps [OF this(1)]
  show "vd_invoices db' = vd_invoices db" "vd_orgs db' = vd_orgs db" by (simp_all add: db')
  show "\<exists>l'. vd_lines db' = vd_lines db @ [(k, l')] \<and> il_invoiceId l' = il_invoiceId l \<and> il_parentLineId l' = il_parentLineId l"
    using keeps by (simp add: db')
  show "source_rows src db' = source_rows src db" by (simp add: db' source_rows_def cong: line_source.case_cong)
  show "billed_sources src db' i = billed_sources src db i @ (if il_invoiceId l = i then source_ids src [(k, l)] else [])"
    using keeps by (simp add: db' billed_sources_def lines_of_def source_ids_one)
qed

lemma sound_add_line:
  assumes inv: "invoice_inv db" and d: "draft_at db (il_invoiceId l)" and f: "fresh_source db (il_invoiceId l) l"
    and par: "parent_line (vd_lines db) l" and add: "add_line k l db = Inr db'"
  shows "sound db db'"
proof -
  obtain l' where l': "store_line l = Inr l'" and k: "k \<notin> fst ` set (vd_lines db)" and db': "db' = db\<lparr>vd_lines := vd_lines db @ [(k, l')]\<rparr>"
    using add by (auto simp: add_line_def and_then_Inr)
  note keeps = store_line_keeps [OF l']
  have "invoice_inv (db\<lparr>vd_lines := vd_lines db @ [(k, l')]\<rparr>)"
  proof (rule inv_draft_lines [OF inv])
    fix j assume "\<not> draft_at db j"
    with d keeps(1) show "filter (\<lambda>(k, l). il_invoiceId l = j) (vd_lines db @ [(k, l')]) = lines_of db j" by (auto simp: lines_of_def)
  next
    fix src assume src: "src \<in> {SrcTimeEntry, SrcPart}"
    then have ok: "sources_ok src db" using inv by (auto simp: invoice_inv_def)
    have new: "il_sourceType l = src \<Longrightarrow> \<exists>t \<in> source_keys src db. il_sourceId l = Some t \<and> t \<notin> set (billed_sources src db (il_invoiceId l))"
      using f src unfolding fresh_source_def by blast
    have dist: "distinct (source_ids src (filter (\<lambda>(k, l). il_invoiceId l = i) (vd_lines db)))" for i
      using ok by (simp add: sources_ok_def billed_sources_def lines_of_def)
    show "(\<forall>(k, l) \<in> set (vd_lines db @ [(k, l')]). il_sourceType l = src \<longrightarrow> (\<exists>t \<in> source_keys src db. il_sourceId l = Some t))
        \<and> (\<forall>i. draft_at db i \<longrightarrow> distinct (source_ids src (filter (\<lambda>(k, l). il_invoiceId l = i) (vd_lines db @ [(k, l')]))))"
    proof
      show "\<forall>(k, l) \<in> set (vd_lines db @ [(k, l')]). il_sourceType l = src \<longrightarrow> (\<exists>t \<in> source_keys src db. il_sourceId l = Some t)"
        using ok new keeps(2,3) unfolding sources_ok_def by auto
      have "distinct (source_ids src (filter (\<lambda>(k, l). il_invoiceId l = i) (vd_lines db @ [(k, l')])))" for i
      proof (cases "il_invoiceId l = i \<and> il_sourceType l = src")
        case True
        then obtain t where "il_sourceId l = Some t" "t \<notin> set (billed_sources src db i)" using new by blast
        with True dist [of i] keeps show ?thesis
          by (simp add: source_ids_one str_or_none_def billed_sources_def lines_of_def)
      next
        case False
        with dist [of i] keeps show ?thesis by (simp add: source_ids_one)
      qed
      then show "\<forall>i. draft_at db i \<longrightarrow> distinct (source_ids src (filter (\<lambda>(k, l). il_invoiceId l = i) (vd_lines db @ [(k, l')])))" by blast
    qed
  next
    show "distinct (map fst (vd_lines db @ [(k, l')]))" using inv k by (simp add: invoice_inv_def)
    have mono: "parent_line (vd_lines db) x \<Longrightarrow> parent_line (vd_lines db @ [(k, l')]) x" for x
      by (auto simp: parent_line_def split: option.splits)
    have "parent_line (vd_lines db @ [(k, l')]) l'" using mono [OF par] parent_line_cong [OF keeps(1,4)] by simp
    then show "parents_ok (vd_lines db @ [(k, l')])" using inv mono by (auto simp: invoice_inv_def parents_ok_def)
  qed
  moreover have "keeps_issued db (db\<lparr>vd_lines := vd_lines db @ [(k, l')]\<rparr>)"
    using d keeps(1) by (auto simp: keeps_issued_def frozen_row_def lines_of_def draft_at_def)
  ultimately show "sound db db'" by (simp add: sound_def db')
qed

lemma sound_recompute_totals:
  assumes inv: "invoice_inv db" and r: "recomputeInvoiceTotals i rate db = Inr db'"
  shows "sound db db'"
proof -
  obtain v subtotal taxRate taxTotal tot bal where v: "vd_invoices db i = Some v" "inv_status v = InvDraft"
    and db': "db' = set_invoice i (v\<lparr>inv_subtotal := subtotal, inv_taxRate := taxRate, inv_taxTotal := taxTotal, inv_total := tot, inv_balance := bal\<rparr>) db"
    using r by (auto simp: recomputeInvoiceTotals_def getOwnedInvoiceOr404_def assertDraft_def and_then_Inr Let_def split: option.splits)
  show ?thesis unfolding db' using draft_status [OF inv v] by (intro sound_set_draft [OF inv]) (auto simp: draft_row_def)
qed

end
