(* ===== verification/Invoice_Drafts.thy ===== *)
theory Invoice_Drafts
  imports Invoice_Ledger
begin

text \<open>Every operation of the invoice service keeps the invariant of the tables and what is issued.\<close>

section \<open>Edits of drafts\<close>

definition plain_line :: "invoice_line \<Rightarrow> bool" where
  "plain_line l \<longleftrightarrow> il_sourceType l \<notin> {SrcTimeEntry, SrcPart}"

lemma plain_fresh: "plain_line l \<Longrightarrow> fresh_source db i l"
  by (auto simp: plain_line_def fresh_source_def)

lemma draft_at_same: "vd_invoices db' = vd_invoices db \<Longrightarrow> draft_at db' i = draft_at db i"
  by (simp add: draft_at_def)

lemma sound_insertLine:
  assumes "invoice_inv db" and "draft_at db i" and "plain_line spec" and "il_parentLineId spec = None"
    and "insertLineAndRecompute i org k spec db = Inr db'"
  shows "sound db db'" and "draft_at db' i" and "\<exists>l'. (k, l') \<in> set (vd_lines db') \<and> il_invoiceId l' = i \<and> il_parentLineId l' = None"
proof -
  obtain db1 where add: "add_line k (spec\<lparr>il_invoiceId := i, il_orgId := org, il_sortOrder := next_sort db i\<rparr>) db = Inr db1"
    and r: "recomputeInvoiceTotals i None db1 = Inr db'"
    using assms(5) by (auto simp: insertLineAndRecompute_def and_then_Inr)
  have s: "sound db db1" using assms(1-4) by (intro sound_add_line [OF _ _ _ _ add] plain_fresh) (simp_all add: plain_line_def parent_line_def)
  then show "sound db db'" using sound_recompute_totals [OF soundD r] sound_trans by blast
  have "draft_at db1 i" using assms(2) add_line_fields(1) [OF add] by (simp add: draft_at_def)
  with r show "draft_at db' i"
    by (auto simp: recomputeInvoiceTotals_def getOwnedInvoiceOr404_def and_then_Inr Let_def draft_at_def split: option.splits)
  have "vd_lines db' = vd_lines db1"
    using r by (auto simp: recomputeInvoiceTotals_def and_then_Inr Let_def)
  with add_line_fields(5) [OF add] assms(4) show "\<exists>l'. (k, l') \<in> set (vd_lines db') \<and> il_invoiceId l' = i \<and> il_parentLineId l' = None"
    by auto
qed

lemma line_spec_source [simp]: "il_sourceType (line_spec src q p t) = src" "il_parentLineId (line_spec src q p t) = None"
  by (simp_all add: line_spec_def)

lemma sound_line_handlers:
  assumes inv: "invoice_inv db"
  shows "addManualLine i k input actor db = Inr db' \<Longrightarrow> sound db db'"
    and "addCatalogLine i k item q actor db = Inr db' \<Longrightarrow> sound db db'"
    and "addContractLine i k cinput actor db = Inr db' \<Longrightarrow> sound db db'"
  using draft_status(1) [OF inv] editable_cases [of db i actor]
  by (auto simp: addManualLine_def addCatalogLine_def addContractLine_def and_then_Inr Let_def plain_line_def
      intro!: sound_insertLine(1) [OF inv])

lemma sound_bundle_children:
  assumes "invoice_inv db" and "draft_at db i" and "\<exists>l'. (parent, l') \<in> set (vd_lines db) \<and> il_invoiceId l' = i \<and> il_parentLineId l' = None"
    and "add_bundle_children i org parent pos rows ks db = Inr db'"
  shows "sound db db' \<and> draft_at db' i"
  using assms
proof (induction i org parent pos rows ks db rule: add_bundle_children.induct)
  case (1 i org parent pos b item rows k ks db)
  define l where "l = (line_spec SrcBundle (bu_quantity b) ''0.00'' False)
         \<lparr>il_invoiceId := i, il_orgId := org, il_sortOrder := pos, il_catalogItemId := Some (bu_componentItemId b),
          il_parentLineId := Some parent, il_name := Some (ci_name item), il_description := ci_description item,
          il_costBasis := cp_costBasis (ci_price item), il_revenueAllocation := bu_revenueAllocation b,
          il_customerVisible := bu_showOnInvoice b, il_lineTotal := ''0.00''\<rparr>"
  obtain db1 where add: "add_line k l db = Inr db1" and rest: "add_bundle_children i org parent pos rows ks db1 = Inr db'"
    using "1.prems"(4) by (auto simp: and_then_Inr l_def)
  have l: "plain_line l" "il_invoiceId l = i" by (simp_all add: l_def plain_line_def line_spec_def)
  have "parent_line (vd_lines db) l" using "1.prems"(3) by (simp add: parent_line_def l_def)
  then have s: "sound db db1" using "1.prems" l by (intro sound_add_line [OF _ _ _ _ add] plain_fresh) simp_all
  moreover have "\<exists>l'. (parent, l') \<in> set (vd_lines db1) \<and> il_invoiceId l' = i \<and> il_parentLineId l' = None"
    using "1.prems"(3) add_line_fields(5) [OF add] by auto
  moreover have "draft_at db1 i" using "1.prems"(2) add_line_fields(1) [OF add] by (simp add: draft_at_def)
  ultimately have "sound db1 db' \<and> draft_at db' i" using "1.IH" [of db1] soundD [OF s] rest by blast
  then show ?case using sound_trans [OF s] by blast
qed (auto simp: sound_def)

lemma sound_addBundleLine:
  assumes inv: "invoice_inv db" and op: "addBundleLine i k ks b q actor db = Inr db'"
  shows "sound db db'"
proof -
  obtain v db1 db2 spec where v: "editable_draft db i actor = Inr v"
    and 1: "insertLineAndRecompute i (inv_orgId v) k spec db = Inr db1" and spec: "plain_line spec" "il_parentLineId spec = None"
    and 2: "add_bundle_children i (inv_orgId v) k (next_sort db i) (bundle_rows db b) ks db1 = Inr db2"
    and 3: "recomputeInvoiceTotals i None db2 = Inr db'"
    using op by (auto simp: addBundleLine_def and_then_Inr Let_def plain_line_def)
  have d: "draft_at db i" using draft_status(1) [OF inv] editable_cases [OF v] by blast
  note s1 = sound_insertLine [OF inv d spec 1]
  have s2: "sound db1 db2" using sound_bundle_children [OF soundD [OF s1(1)] s1(2,3) 2] by blast
  have "sound db2 db'" by (rule sound_recompute_totals [OF soundD [OF s2] 3])
  then show ?thesis using s1(1) s2 sound_trans by blast
qed

text \<open>Lines are replaced or removed, those of issued invoices excepted.\<close>

definition source_of :: "line_source \<Rightarrow> invoice_line \<Rightarrow> id option" where
  "source_of src l = (if il_sourceType l = src then str_or_none (il_sourceId l) else None)"

lemma source_ids_Cons: "source_ids src (x # xs) = (case source_of src (snd x) of Some t \<Rightarrow> t # source_ids src xs | None \<Rightarrow> source_ids src xs)"
  by (cases x) (simp add: source_ids_def source_of_def map_filter_simps split: option.split)

lemma set_source_ids: "t \<in> set (source_ids src ls) \<longleftrightarrow> (\<exists>x \<in> set ls. source_of src (snd x) = Some t)"
  by (induction ls) (auto simp: source_ids_Cons split: option.splits)

lemma source_ids_filter: "distinct (source_ids src ls) \<Longrightarrow> distinct (source_ids src (filter P ls))"
  by (induction ls) (auto simp: source_ids_Cons set_source_ids split: option.splits)

lemma source_ids_cong: "(\<And>x. x \<in> set ls \<Longrightarrow> source_of src (snd (f x)) = source_of src (snd x)) \<Longrightarrow> source_ids src (map f ls) = source_ids src ls"
  by (induction ls) (auto simp: source_ids_Cons split: option.splits)

lemma sources_of_inv:
  assumes "invoice_inv db" and "src \<in> {SrcTimeEntry, SrcPart}"
  shows "(k, l) \<in> set (vd_lines db) \<Longrightarrow> il_sourceType l = src \<Longrightarrow> \<exists>t \<in> source_keys src db. il_sourceId l = Some t"
    and "distinct (source_ids src (filter (\<lambda>(k, l). il_invoiceId l = j) (vd_lines db)))"
proof -
  have ok: "sources_ok src db" using assms by (auto simp: invoice_inv_def)
  then show "(k, l) \<in> set (vd_lines db) \<Longrightarrow> il_sourceType l = src \<Longrightarrow> \<exists>t \<in> source_keys src db. il_sourceId l = Some t"
    unfolding sources_ok_def by blast
  show "distinct (source_ids src (filter (\<lambda>(k, l). il_invoiceId l = j) (vd_lines db)))"
    using ok by (simp add: sources_ok_def billed_sources_def lines_of_def)
qed

lemma sound_lines:
  assumes "invoice_inv (db\<lparr>vd_lines := ls\<rparr>)" and "\<And>j. \<not> draft_at db j \<Longrightarrow> filter (\<lambda>(k, l). il_invoiceId l = j) ls = lines_of db j"
  shows "sound db (db\<lparr>vd_lines := ls\<rparr>)"
  using assms by (auto simp: sound_def keeps_issued_def frozen_row_def lines_of_def draft_at_def)

lemma sound_filter_lines:
  assumes inv: "invoice_inv db" and keep: "\<And>k l. (k, l) \<in> set (vd_lines db) \<Longrightarrow> \<not> draft_at db (il_invoiceId l) \<Longrightarrow> P (k, l)"
    and par: "parents_ok (filter P (vd_lines db))"
  shows "sound db (db\<lparr>vd_lines := filter P (vd_lines db)\<rparr>)"
proof (rule sound_lines)
  show same: "filter (\<lambda>(k, l). il_invoiceId l = j) (filter P (vd_lines db)) = lines_of db j" if "\<not> draft_at db j" for j
    using keep that by (auto simp: lines_of_def intro!: filter_cong)
  show "invoice_inv (db\<lparr>vd_lines := filter P (vd_lines db)\<rparr>)"
  proof (rule inv_draft_lines [OF inv same])
    fix src :: line_source assume src: "src \<in> {SrcTimeEntry, SrcPart}"
    have "distinct (source_ids src (filter (\<lambda>(k, l). il_invoiceId l = j) (filter P (vd_lines db))))" for j
      using source_ids_filter [OF sources_of_inv(2) [OF inv src, of j], of P] by (simp add: conj_commute)
    then show "(\<forall>(k, l) \<in> set (filter P (vd_lines db)). il_sourceType l = src \<longrightarrow> (\<exists>t \<in> source_keys src db. il_sourceId l = Some t))
        \<and> (\<forall>i. draft_at db i \<longrightarrow> distinct (source_ids src (filter (\<lambda>(k, l). il_invoiceId l = i) (filter P (vd_lines db)))))"
      using sources_of_inv(1) [OF inv src] by auto
  next
    show "distinct (map fst (filter P (vd_lines db)))" using inv by (simp add: invoice_inv_def distinct_map_filter)
  qed (simp_all add: par)
qed

lemma line_key_unique: "invoice_inv db \<Longrightarrow> (k, l) \<in> set (vd_lines db) \<Longrightarrow> (k, l') \<in> set (vd_lines db) \<Longrightarrow> l = l'"
  by (auto simp: invoice_inv_def dest: eq_key_imp_eq_value)

lemma sound_replace_line:
  assumes inv: "invoice_inv db" and old: "(k, old) \<in> set (vd_lines db)" and d: "draft_at db (il_invoiceId old)"
    and new: "il_invoiceId new = il_invoiceId old" "il_sourceType new = il_sourceType old" "il_sourceId new = il_sourceId old"
      "il_parentLineId new = il_parentLineId old"
  shows "sound db (db\<lparr>vd_lines := map (\<lambda>(j, l). if j = k then (j, new) else (j, l)) (vd_lines db)\<rparr>)"
proof -
  define f where "f = (\<lambda>(j, l). if j = k then (j, new) else (j, l))"
  have f: "il_invoiceId (snd (f (j, l))) = il_invoiceId l" "il_sourceType (snd (f (j, l))) = il_sourceType l" "il_sourceId (snd (f (j, l))) = il_sourceId l"
    "il_parentLineId (snd (f (j, l))) = il_parentLineId l" "fst (f (j, l)) = j"
    if "(j, l) \<in> set (vd_lines db)" for j l
    using line_key_unique [OF inv _ old] that new by (auto simp: f_def)
  have flt: "filter (\<lambda>(j, l). il_invoiceId l = i) (map f (vd_lines db)) = map f (lines_of db i)" for i
    using f(1) by (auto simp: filter_map lines_of_def o_def split_beta intro!: arg_cong [of _ _ "map f"] filter_cong)
  have same: "filter (\<lambda>(j, l). il_invoiceId l = i) (map f (vd_lines db)) = lines_of db i" if "\<not> draft_at db i" for i
  proof -
    have "f (j, l) = (j, l)" if "(j, l) \<in> set (lines_of db i)" for j l
      using that d \<open>\<not> draft_at db i\<close> line_key_unique [OF inv _ old] by (auto simp: f_def lines_of_def)
    then have "map f (lines_of db i) = lines_of db i" by (intro map_idI) auto
    with flt show ?thesis by simp
  qed
  have "sound db (db\<lparr>vd_lines := map f (vd_lines db)\<rparr>)"
  proof (rule sound_lines [OF inv_draft_lines [OF inv same] same])
    fix src :: line_source assume src: "src \<in> {SrcTimeEntry, SrcPart}"
    have "source_ids src (map f (lines_of db i)) = source_ids src (lines_of db i)" for i
      using f by (intro source_ids_cong) (auto simp: lines_of_def source_of_def)
    then have "distinct (source_ids src (filter (\<lambda>(k, l). il_invoiceId l = i) (map f (vd_lines db))))" for i
      using sources_of_inv(2) [OF inv src, of i] flt by (simp add: lines_of_def)
    moreover have "\<exists>t \<in> source_keys src db. il_sourceId l = Some t" if "(j, l) \<in> set (map f (vd_lines db))" "il_sourceType l = src" for j l
    proof -
      from that(1) obtain j0 l0 where 0: "(j0, l0) \<in> set (vd_lines db)" "f (j0, l0) = (j, l)" by auto
      with f [OF 0(1)] that(2) have "il_sourceType l0 = src" "il_sourceId l = il_sourceId l0" by simp_all
      with sources_of_inv(1) [OF inv src 0(1)] show ?thesis by simp
    qed
    ultimately show "(\<forall>(k, l) \<in> set (map f (vd_lines db)). il_sourceType l = src \<longrightarrow> (\<exists>t \<in> source_keys src db. il_sourceId l = Some t))
        \<and> (\<forall>i. draft_at db i \<longrightarrow> distinct (source_ids src (filter (\<lambda>(k, l). il_invoiceId l = i) (map f (vd_lines db)))))" by blast
  next
    have "map fst (map f (vd_lines db)) = map fst (vd_lines db)" by (auto simp: f_def)
    then show "distinct (map fst (map f (vd_lines db)))" using inv unfolding invoice_inv_def by (simp only:)
    show "parents_ok (map f (vd_lines db))"
      unfolding parents_ok_def
    proof (clarify)
      fix j l assume "(j, l) \<in> set (map f (vd_lines db))"
      then obtain l0 where 0: "(j, l0) \<in> set (vd_lines db)" "f (j, l0) = (j, l)" by (auto simp: f_def split: if_splits)
      from f [OF 0(1)] 0(2) have l: "il_invoiceId l = il_invoiceId l0" "il_parentLineId l = il_parentLineId l0" by simp_all
      have "parent_line (vd_lines db) l0" using inv 0(1) by (auto simp: invoice_inv_def parents_ok_def)
      moreover have "\<exists>l''. (p, l'') \<in> set (map f (vd_lines db)) \<and> il_invoiceId l'' = i \<and> il_parentLineId l'' = None"
        if "(p, l') \<in> set (vd_lines db)" "il_invoiceId l' = i" "il_parentLineId l' = None" for p l' i
      proof -
        have "(p, snd (f (p, l'))) = f (p, l')" using f(5) [OF that(1)] by (metis prod.collapse)
        then have "(p, snd (f (p, l'))) \<in> set (map f (vd_lines db))" using that(1) by (auto intro: rev_image_eqI)
        with f [OF that(1)] that show ?thesis by metis
      qed
      ultimately have "parent_line (map f (vd_lines db)) l0" unfolding parent_line_def by (auto split: option.splits)
      then show "parent_line (map f (vd_lines db)) l" using parent_line_cong [OF l] by simp
    qed
  qed
  then show ?thesis by (simp add: f_def)
qed

lemma sound_updateLine:
  assumes inv: "invoice_inv db" and op: "updateLine i k patch actor db = Inr db'"
  shows "sound db db'"
proof -
  obtain v old where v: "editable_draft db i actor = Inr v" and look: "map_of (lines_of db i) k = Some old"
    using op by (auto simp: updateLine_def and_then_Inr split: option.splits)
  obtain spec new where st: "store_line spec = Inr new"
    and keep: "il_invoiceId spec = il_invoiceId old" "il_sourceType spec = il_sourceType old" "il_sourceId spec = il_sourceId old"
      "il_parentLineId spec = il_parentLineId old"
    and r: "recomputeInvoiceTotals i None (db\<lparr>vd_lines := map (\<lambda>(j, l). if j = k then (j, new) else (j, l)) (vd_lines db)\<rparr>) = Inr db'"
    using op look by (auto simp: updateLine_def and_then_Inr Let_def)
  have old: "(k, old) \<in> set (vd_lines db)" "il_invoiceId old = i" using map_of_SomeD [OF look] by (auto simp: lines_of_def)
  have d: "draft_at db i" using draft_status(1) [OF inv] editable_cases [OF v] by blast
  have s: "sound db (db\<lparr>vd_lines := map (\<lambda>(j, l). if j = k then (j, new) else (j, l)) (vd_lines db)\<rparr>)"
    using d old store_line_keeps [OF st] keep by (intro sound_replace_line [OF inv old(1)]) simp_all
  show ?thesis using sound_trans [OF s sound_recompute_totals [OF soundD [OF s] r]] .
qed

lemma parent_unique:
  assumes inv: "invoice_inv db" and l: "(j, l) \<in> set (vd_lines db)" and p: "il_parentLineId l = Some k" and old: "(k, old) \<in> set (vd_lines db)"
  shows "il_invoiceId l = il_invoiceId old" and "il_parentLineId old = None"
proof -
  have "parent_line (vd_lines db) l" using inv l by (auto simp: invoice_inv_def parents_ok_def)
  then obtain l' where l': "(k, l') \<in> set (vd_lines db)" "il_invoiceId l' = il_invoiceId l" "il_parentLineId l' = None"
    using p by (auto simp: parent_line_def)
  with line_key_unique [OF inv l'(1) old] show "il_invoiceId l = il_invoiceId old" and "il_parentLineId old = None" by simp_all
qed

text \<open>A filter that takes the children of what it takes.\<close>

lemma parents_filter:
  assumes inv: "invoice_inv db"
    and down: "\<And>j l k old. (j, l) \<in> set (vd_lines db) \<Longrightarrow> P (j, l) \<Longrightarrow> il_parentLineId l = Some k \<Longrightarrow> (k, old) \<in> set (vd_lines db) \<Longrightarrow> P (k, old)"
  shows "parents_ok (filter P (vd_lines db))"
  unfolding parents_ok_def
proof clarify
  fix j l assume l: "(j, l) \<in> set (filter P (vd_lines db))"
  then have "parent_line (vd_lines db) l" using inv by (auto simp: invoice_inv_def parents_ok_def)
  then show "parent_line (filter P (vd_lines db)) l"
    using down [of j l] l by (auto simp: parent_line_def split: option.splits)
qed

lemma sound_removeLine:
  assumes inv: "invoice_inv db" and op: "removeLine i k actor db = Inr db'"
  shows "sound db db'"
proof -
  define gone where "gone \<longleftrightarrow> k \<in> fst ` set (lines_of db i)"
  define P where "P = (\<lambda>(j, l :: invoice_line). \<not> (gone \<and> (j = k \<or> il_parentLineId l = Some k)))"
  obtain v where v: "editable_draft db i actor = Inr v"
    and r: "recomputeInvoiceTotals i None (db\<lparr>vd_lines := filter P (vd_lines db)\<rparr>) = Inr db'"
    using op by (auto simp: removeLine_def and_then_Inr Let_def P_def gone_def)
  have d: "draft_at db i" using draft_status(1) [OF inv] editable_cases [OF v] by blast
  have line: "gone \<Longrightarrow> \<exists>old. (k, old) \<in> set (vd_lines db) \<and> il_invoiceId old = i" by (auto simp: gone_def lines_of_def)
  have "sound db (db\<lparr>vd_lines := filter P (vd_lines db)\<rparr>)"
  proof (rule sound_filter_lines [OF inv])
    fix j l assume l: "(j, l) \<in> set (vd_lines db)" "\<not> draft_at db (il_invoiceId l)"
    show "P (j, l)"
    proof (rule ccontr)
      assume "\<not> P (j, l)"
      then have g: "gone" "j = k \<or> il_parentLineId l = Some k" by (simp_all add: P_def)
      obtain old where "(k, old) \<in> set (vd_lines db)" "il_invoiceId old = i" using line [OF g(1)] by blast
      then have "il_invoiceId l = i" using g(2) line_key_unique [OF inv l(1), of old] parent_unique(1) [OF inv l(1), of k old] by auto
      with l(2) d show False by simp
    qed
  next
    show "parents_ok (filter P (vd_lines db))"
    proof (rule parents_filter [OF inv])
      fix j l p old assume l: "(j, l) \<in> set (vd_lines db)" "P (j, l)" "il_parentLineId l = Some p" "(p, old) \<in> set (vd_lines db)"
      from parent_unique(2) [OF inv l(1,3,4)] l(2,3) show "P (p, old)" by (auto simp: P_def)
    qed
  qed
  from sound_trans [OF this sound_recompute_totals [OF soundD [OF this] r]] show ?thesis .
qed

text \<open>A draft and the rows that go with it.\<close>

lemma unlink_fields [simp]:
  "inv_number (unlink i v) = inv_number v" "inv_partnerId (unlink i v) = inv_partnerId v" "inv_voidedAt (unlink i v) = inv_voidedAt v"
  "frozen_row v (unlink i v)" "row_ok ps (unlink i v) = row_ok ps v" "numbered (unlink i v) y k = numbered v y k"
  by (simp_all add: unlink_def frozen_row_def row_ok_def draft_row_def money_ok_def numbered_def)

lemma sound_deleteDraftInvoice:
  assumes inv: "invoice_inv db" and op: "deleteDraftInvoice i actor db = Inr db'"
  shows "sound db db'"
proof -
  define db1 where "db1 = db\<lparr>vd_lines := filter (\<lambda>(k, l). il_invoiceId l \<noteq> i) (vd_lines db)\<rparr>"
  obtain v where v: "editable_draft db i actor = Inr v"
    and db': "db' = db1\<lparr>vd_invoices := (\<lambda>j. if j = i then None else map_option (unlink i) (vd_invoices db j)),
                        vd_payments := filter (\<lambda>(k, p). ip_invoiceId p \<noteq> i) (vd_payments db)\<rparr>"
    using op by (auto simp: deleteDraftInvoice_def and_then_Inr db1_def)
  have same: "vd_invoices db1 = vd_invoices db" "vd_payments db1 = vd_payments db" by (simp_all add: db1_def)
  have d: "draft_at db i" using draft_status(1) [OF inv] editable_cases [OF v] by blast
  have "parents_ok (filter (\<lambda>(k, l). il_invoiceId l \<noteq> i) (vd_lines db))"
    using parent_unique(1) [OF inv] by (intro parents_filter [OF inv]) fastforce
  then have s1: "sound db db1" unfolding db1_def using d by (intro sound_filter_lines [OF inv]) auto
  note inv1 = soundD [OF s1]
  have d1: "draft_at db1 i" using d by (simp add: draft_at_def db1_def)
  have nolines: "il_invoiceId l \<noteq> i" if "(k, l) \<in> set (vd_lines db1)" for k l using that by (auto simp: db1_def)
  have live: "live_at db' = live_at db1"
    using d1 by (auto simp: fun_eq_iff live_at_def draft_at_def db' same split: option.splits)
  have pay: "payments_of db' j = payments_of db1 j" if "j \<noteq> i" for j
    using that by (auto simp: db' same payments_of_def intro!: arg_cong [of _ _ "map _"] filter_cong)
  have look: "vd_invoices db' j = Some w \<longleftrightarrow> j \<noteq> i \<and> (\<exists>u. vd_invoices db1 j = Some u \<and> w = unlink i u)" for j w
    by (auto simp: db' same)
  have num: "\<not> numbered u y k" if "vd_invoices db1 i = Some u" for u y k using d1 that by (simp add: draft_at_def)
  have "numbers_ok db1" using inv1 by (simp add: invoice_inv_def)
  moreover have "last_number db' = last_number db1" by (simp add: last_number_def fun_eq_iff db')
  ultimately have n: "numbers_ok db'" unfolding numbers_ok_def using num
    by (auto simp: look) (metis unlink_fields(2,6))+
  have src: "sources_ok src db'" if "sources_ok src db1" for src
    by (rule sources_same_live [OF that live]) (simp_all add: db' source_rows_def cong: line_source.case_cong)
  have rows: "row_ok (payments_of db' j) w" if "vd_invoices db' j = Some w" for j w
    using that inv1 pay by (auto simp: look invoice_inv_def)
  have "invoice_inv db'"
    using inv1 n src rows nolines unfolding invoice_inv_def by (fastforce simp: db' same distinct_map_filter)
  moreover have "keeps_issued db1 db'"
    using d1 unfolding keeps_issued_def by (auto simp: look draft_at_def) (simp_all add: db' lines_of_def)
  ultimately show ?thesis using sound_trans [OF s1] by (simp add: sound_def)
qed

section \<open>New drafts\<close>

lemma insert_invoice_cases: "insert_invoice i v db = Inr db' \<Longrightarrow> vd_invoices db i = None \<and> db' = set_invoice i v db"
  by (auto simp: insert_invoice_def and_then_Inr)

lemma blank_draft [simp]: "draft_row (blank_invoice p org site user)"
  by (simp add: draft_row_def blank_invoice_def)

lemma sound_insert_draft:
  assumes "invoice_inv db" and "insert_invoice i v db = Inr db'" and "draft_row v"
  shows "sound db db'" and "draft_at db' i"
proof -
  have v: "vd_invoices db i = None" "db' = set_invoice i v db" using insert_invoice_cases [OF assms(2)] by simp_all
  show "sound db db'" unfolding v(2) using v(1) assms(1,3) by (intro sound_set_draft) simp_all
  show "draft_at db' i" using assms(3) by (simp add: draft_at_def v(2) draft_row_def)
qed

lemma sound_createManualInvoice:
  assumes "invoice_inv db" and "createManualInvoice i org site notes terms actor db = Inr db'"
  shows "sound db db'"
proof -
  obtain p where "insert_invoice i ((blank_invoice p org site (ia_userId actor))\<lparr>inv_notes := notes, inv_termsAndConditions := terms\<rparr>) db = Inr db'"
    using assms(2) by (auto simp: createManualInvoice_def and_then_Inr)
  then show ?thesis by (rule sound_insert_draft(1) [OF assms(1)]) (simp add: draft_row_def blank_invoice_def)
qed

lemma sound_updateInvoice:
  assumes inv: "invoice_inv db" and op: "updateInvoice i patch actor db = Inr db'"
  shows "sound db db'"
proof -
  obtain v nt site due terms where v: "editable_draft db i actor = Inr v"
    and db': "db' = set_invoice i (v\<lparr>inv_notes := nt, inv_siteId := site, inv_dueDate := due, inv_termsAndConditions := terms\<rparr>) db"
    using op by (auto simp: updateInvoice_def and_then_Inr)
  have "draft_at db i" "draft_row v" using draft_status [OF inv] editable_cases [OF v] by blast+
  then show ?thesis unfolding db' by (intro sound_set_draft [OF inv]) (simp_all add: draft_row_def)
qed

definition spec_sources :: "line_source \<Rightarrow> invoice_line list \<Rightarrow> id list" where
  "spec_sources src specs = source_ids src (map (Pair []) specs)"

text \<open>Specifications that bill every source once, and sources there are.\<close>

definition specs_ok :: "invoice_db \<Rightarrow> id \<Rightarrow> invoice_line list \<Rightarrow> bool" where
  "specs_ok db i specs \<longleftrightarrow>
     (\<forall>src \<in> {SrcTimeEntry, SrcPart}. distinct (billed_sources src db i @ spec_sources src specs)
        \<and> (\<forall>l \<in> set specs. il_sourceType l = src \<longrightarrow> (\<exists>t \<in> source_keys src db. il_sourceId l = Some t)))
     \<and> (\<forall>l \<in> set specs. il_parentLineId l = None)"

lemma spec_sources_Cons: "spec_sources src (l # specs) = (case source_of src l of Some t \<Rightarrow> t # spec_sources src specs | None \<Rightarrow> spec_sources src specs)"
  by (simp add: spec_sources_def source_ids_Cons split: option.split)

lemma spec_sources_Nil [simp]: "spec_sources src [] = []"
  by (simp add: spec_sources_def)

lemma source_keys_ne: "invoice_inv db \<Longrightarrow> src \<in> {SrcTimeEntry, SrcPart} \<Longrightarrow> t \<in> source_keys src db \<Longrightarrow> t \<noteq> []"
  by (auto simp: invoice_inv_def sources_ok_def)

lemma sound_materialize:
  assumes "invoice_inv db" and "draft_at db i" and "specs_ok db i specs" and "materializeLines i org pos specs ks db = Inr db'"
  shows "sound db db' \<and> draft_at db' i"
  using assms
proof (induction i org pos specs ks db rule: materializeLines.induct)
  case (1 i org pos s specs k ks db)
  define l where "l = s\<lparr>il_invoiceId := i, il_orgId := org, il_sortOrder := pos\<rparr>"
  obtain db1 where add: "add_line k l db = Inr db1" and rest: "materializeLines i org (pos + 1) specs ks db1 = Inr db'"
    using "1.prems"(4) by (auto simp: and_then_Inr l_def)
  have l: "il_invoiceId l = i" "il_sourceType l = il_sourceType s" "il_sourceId l = il_sourceId s" "il_parentLineId l = il_parentLineId s"
    by (simp_all add: l_def)
  have "fresh_source db i l"
    unfolding fresh_source_def
  proof (intro ballI impI)
    fix src assume src: "src \<in> {SrcTimeEntry, SrcPart}" "il_sourceType l = src"
    then obtain t where t: "t \<in> source_keys src db" "il_sourceId s = Some t" using "1.prems"(3) l by (auto simp: specs_ok_def)
    then have "source_of src s = Some t" using src l source_keys_ne [OF "1.prems"(1) src(1) t(1)]
      by (simp add: source_of_def str_or_none_def truthy_str_def)
    then have "t \<notin> set (billed_sources src db i)" using "1.prems"(3) src(1) by (auto simp: specs_ok_def spec_sources_Cons)
    with t l show "\<exists>t \<in> source_keys src db. il_sourceId l = Some t \<and> t \<notin> set (billed_sources src db i)" by auto
  qed
  moreover have "parent_line (vd_lines db) l" using "1.prems"(3) l by (simp add: specs_ok_def parent_line_def)
  ultimately have s: "sound db db1" using "1.prems"(1,2) l by (intro sound_add_line [OF _ _ _ _ add]) simp_all
  have keys: "source_keys src db1 = source_keys src db" for src by (simp add: source_keys_def add_line_fields(2) [OF add])
  have "billed_sources src db1 i @ spec_sources src specs = billed_sources src db i @ spec_sources src (s # specs)" for src
    using l by (simp add: add_line_fields(4) [OF add] spec_sources_Cons source_ids_Cons source_of_def split: option.split)
  then have "specs_ok db1 i specs" using "1.prems"(3) by (auto simp: specs_ok_def keys)
  moreover have "draft_at db1 i" using "1.prems"(2) add_line_fields(1) [OF add] by (simp add: draft_at_def)
  ultimately have "sound db1 db' \<and> draft_at db' i" using "1.IH" [of db1] soundD [OF s] rest by blast
  then show ?case using sound_trans [OF s] by blast
qed (auto simp: sound_def)

lemma sound_assemble:
  assumes inv: "invoice_inv db" and ok: "specs_ok db i specs" and op: "assemble i p org site specs ks actor db = Inr db'"
  shows "sound db db'"
proof -
  obtain db1 db2 where 1: "insert_invoice i (blank_invoice p org site (ia_userId actor)) db = Inr db1"
    and 2: "materializeLines i org 0 specs ks db1 = Inr db2" and 3: "recomputeInvoiceTotals i None db2 = Inr db'"
    using op by (auto simp: assemble_def and_then_Inr)
  note s1 = sound_insert_draft [OF inv 1 blank_draft]
  have "specs_ok db1 i specs" using ok insert_invoice_cases [OF 1] by (simp add: specs_ok_def)
  then have s2: "sound db1 db2" using sound_materialize [OF soundD [OF s1(1)] s1(2) _ 2] by blast
  show ?thesis using sound_trans [OF sound_trans [OF s1(1) s2] sound_recompute_totals [OF soundD [OF s2] 3]] .
qed

lemma time_spec [simp]: "il_sourceType (timeEntryToLineSpec x) = SrcTimeEntry" "il_sourceId (timeEntryToLineSpec x) = Some (fst x)"
    "il_parentLineId (timeEntryToLineSpec x) = None"
  by (simp_all add: timeEntryToLineSpec_def split_beta Let_def)

lemma part_spec [simp]: "il_sourceType (ticketPartToLineSpec x) = SrcPart" "il_sourceId (ticketPartToLineSpec x) = Some (fst x)"
    "il_parentLineId (ticketPartToLineSpec x) = None"
  by (simp_all add: ticketPartToLineSpec_def split_beta)

lemma gathered_ok:
  assumes inv: "invoice_inv db" and new: "vd_invoices db i = None"
  shows "specs_ok db i (map timeEntryToLineSpec (filter P (vd_times db)) @ map ticketPartToLineSpec (filter Q (vd_parts db)))"
proof -
  have b: "billed_sources src db i = []" for src using no_lines [OF inv new] by (simp add: billed_sources_def)
  have keys: "source_keys SrcTimeEntry db = fst ` set (vd_times db)" "source_keys SrcPart db = fst ` set (vd_parts db)"
    by (simp_all add: source_keys_def source_rows_def image_image)
  have ne: "x \<in> set (vd_times db) \<Longrightarrow> fst x \<noteq> []" "y \<in> set (vd_parts db) \<Longrightarrow> fst y \<noteq> []" for x y
    using source_keys_ne [OF inv, of SrcTimeEntry "fst x"] source_keys_ne [OF inv, of SrcPart "fst y"] keys by auto
  have app: "spec_sources src (xs @ ys) = spec_sources src xs @ spec_sources src ys" for src xs ys by (simp add: spec_sources_def)
  have t: "spec_sources SrcTimeEntry (map timeEntryToLineSpec xs) = map fst xs" if "set xs \<subseteq> set (vd_times db)" for xs
    using that ne(1) by (induction xs) (auto simp: spec_sources_Cons source_of_def str_or_none_def truthy_str_def)
  have p: "spec_sources SrcPart (map ticketPartToLineSpec xs) = map fst xs" if "set xs \<subseteq> set (vd_parts db)" for xs
    using that ne(2) by (induction xs) (auto simp: spec_sources_Cons source_of_def str_or_none_def truthy_str_def)
  have e1: "spec_sources SrcPart (map timeEntryToLineSpec xs) = []" for xs by (induction xs) (simp_all add: spec_sources_Cons source_of_def)
  have e2: "spec_sources SrcTimeEntry (map ticketPartToLineSpec xs) = []" for xs by (induction xs) (simp_all add: spec_sources_Cons source_of_def)
  have "distinct (map fst (vd_times db))" "distinct (map fst (vd_parts db))"
    using inv by (simp_all add: invoice_inv_def sources_ok_def source_rows_def o_def)
  then show ?thesis using t [of "filter P (vd_times db)"] p [of "filter Q (vd_parts db)"]
    by (auto simp: specs_ok_def b app e1 e2 keys distinct_map_filter) force+
qed

lemma sound_assembly:
  assumes inv: "invoice_inv db"
  shows "assembleDraftFromOrg i ks org site fromDay toDay actor db = Inr db' \<Longrightarrow> sound db db'"
    and "assembleDraftFromTicket i ks ticket actor db = Inr db' \<Longrightarrow> sound db db'"
proof -
  have go: "sound db db'"
    if "assemble i p o' site' (map timeEntryToLineSpec (filter P (vd_times db)) @ map ticketPartToLineSpec (filter Q (vd_parts db))) ks actor db = Inr db'"
    for p o' site' P Q
  proof -
    have "vd_invoices db i = None" using that insert_invoice_cases by (fastforce simp: assemble_def and_then_Inr)
    then show ?thesis using sound_assemble [OF inv gathered_ok [OF inv] that] by blast
  qed
  show "sound db db'" if "assembleDraftFromOrg i ks org site fromDay toDay actor db = Inr db'"
    using that unfolding assembleDraftFromOrg_def gatherOrgTimeEntries_def gatherOrgParts_def and_then_Inr by (elim exE conjE) (rule go)
  show "sound db db'" if "assembleDraftFromTicket i ks ticket actor db = Inr db'"
    using that go unfolding assembleDraftFromTicket_def gatherTicketBillables_def and_then_Inr
    by (auto split: option.splits simp: and_then_Inr)
qed

end
