(* ===== verification/Invoice_Issue.thy ===== *)
theory Invoice_Issue
  imports Invoice_Drafts "HOL-Library.Multiset"
begin

text \<open>
  The operations on issued invoices keep the invariant of the tables: issue with its number and the marks on what it bills,
  payments, due dates, the overdue sweep, views and voids with their reissue.
\<close>

section \<open>Numbers\<close>

lemma last_dash:
  assumes "xs @ CHR ''-'' # a = ys @ CHR ''-'' # b" and "CHR ''-'' \<notin> set a" and "CHR ''-'' \<notin> set b"
  shows "a = b \<and> xs = ys"
proof -
  have "rev a @ CHR ''-'' # rev xs = rev b @ CHR ''-'' # rev ys" using arg_cong [OF assms(1), of rev] by simp
  moreover have "takeWhile (\<lambda>c. c \<noteq> CHR ''-'') (rev l @ CHR ''-'' # r) = rev l" if "CHR ''-'' \<notin> set l" for l r :: string
    using that by (subst takeWhile_append2) auto
  ultimately have "rev a = rev b" using assms(2,3) by metis
  with assms(1) show ?thesis by simp
qed

lemma number_inj:
  assumes "formatInvoiceNumber p y k = formatInvoiceNumber p' y' k'" and "0 \<le> y" and "0 \<le> y'"
  shows "y = y' \<and> k = k'"
proof -
  let ?pad = "\<lambda>k. replicate (4 - length (dec_string k)) (CHR ''0'') @ dec_string k"
  have eq: "(p @ ''-'' @ number_text y) @ CHR ''-'' # ?pad k = (p' @ ''-'' @ number_text y') @ CHR ''-'' # ?pad k'"
    using assms(1) by (simp add: formatInvoiceNumber_def Let_def)
  have no: "CHR ''-'' \<notin> set (?pad j)" for j using dec_string_no_point(2) [of j] by auto
  note last_dash [OF eq no no]
  then have pad: "?pad k = ?pad k'" and head: "p @ CHR ''-'' # number_text y = p' @ CHR ''-'' # number_text y'" by simp_all
  have "number_text y = number_text y'"
    using last_dash [OF head] dec_string_no_point(2) [of "nat y"] dec_string_no_point(2) [of "nat y'"] assms(2,3) by (simp add: number_text_def)
  then have "dec_string (nat y) = dec_string (nat y')" using assms(2,3) by (simp add: number_text_def)
  then have "nat y = nat y'" using parse_dec_zeros [of 0 "nat y"] parse_dec_zeros [of 0 "nat y'"] by simp
  moreover have "k = k'" using pad parse_dec_zeros by (metis option.inject)
  ultimately show ?thesis using assms(2,3) by simp
qed

lemma numbered_unique: "numbered v y k \<Longrightarrow> numbered v y' k' \<Longrightarrow> 0 \<le> y \<Longrightarrow> 0 \<le> y' \<Longrightarrow> y' = y \<and> k' = k"
  by (auto simp: numbered_def dest: number_inj)

lemma numbers_range:
  assumes "numbers_ok db" and "vd_invoices db i = Some v" and "inv_number v \<noteq> None"
  obtains y k where "0 \<le> y" and "numbered v y k" and "1 \<le> k" and "k \<le> last_number db (inv_partnerId v) y"
proof -
  have "\<forall>i v. vd_invoices db i = Some v \<and> inv_number v \<noteq> None \<longrightarrow>
        (\<exists>y k. 0 \<le> y \<and> numbered v y k \<and> 1 \<le> k \<and> k \<le> last_number db (inv_partnerId v) y)"
    using assms(1) unfolding numbers_ok_def by (rule conjunct1)
  with assms(2,3) that show thesis by blast
qed

lemma numbers_unique:
  assumes "numbers_ok db" and "vd_invoices db i = Some v" and "vd_invoices db j = Some w" and "inv_partnerId v = inv_partnerId w"
    and "0 \<le> y" and "numbered v y k" and "numbered w y k"
  shows "i = j"
proof -
  have "\<forall>i j v w y k. vd_invoices db i = Some v \<and> vd_invoices db j = Some w \<and> inv_partnerId v = inv_partnerId w
          \<and> 0 \<le> y \<and> numbered v y k \<and> numbered w y k \<longrightarrow> i = j"
    using assms(1) unfolding numbers_ok_def by (elim conjE)
  with assms(2-) show ?thesis by blast
qed

lemma numbers_gapless:
  assumes "numbers_ok db" and "0 \<le> y" and "1 \<le> k" and "k \<le> last_number db p y"
  obtains i v where "vd_invoices db i = Some v" and "inv_partnerId v = p" and "numbered v y k"
proof -
  have "\<forall>p y k. 0 \<le> y \<and> 1 \<le> k \<and> k \<le> last_number db p y \<longrightarrow> (\<exists>i v. vd_invoices db i = Some v \<and> inv_partnerId v = p \<and> numbered v y k)"
    using assms(1) unfolding numbers_ok_def by (elim conjE)
  with assms(2-) that show thesis by blast
qed

lemma live_status: "sources_ok src db \<Longrightarrow> live_at db i \<Longrightarrow> t \<in> set (billed_sources src db i) \<Longrightarrow> source_status src db t \<noteq> Some SbNotBilled"
  unfolding sources_ok_def by (elim conjE) blast

lemma live_disjoint:
  "sources_ok src db \<Longrightarrow> i \<noteq> j \<Longrightarrow> live_at db i \<Longrightarrow> live_at db j \<Longrightarrow> set (billed_sources src db i) \<inter> set (billed_sources src db j) = {}"
  unfolding sources_ok_def by (elim conjE) blast

lemma source_in_keys:
  assumes ok: "sources_ok src db" and "t \<in> set (billed_sources src db j)"
  shows "t \<in> source_keys src db"
proof -
  from assms(2) obtain k l where x: "(k, l) \<in> set (vd_lines db)" "source_of src l = Some t" by (force simp: billed_sources_def lines_of_def set_source_ids)
  then have t: "il_sourceType l = src" "il_sourceId l = Some t" by (auto simp: source_of_def str_or_none_def split: if_splits)
  have "\<forall>(k, l) \<in> set (vd_lines db). il_sourceType l = src \<longrightarrow> (\<exists>t \<in> source_keys src db. il_sourceId l = Some t)"
    using ok unfolding sources_ok_def by (elim conjE)
  with x(1) t show ?thesis by auto
qed

text \<open>The parts of the invariant that the lines and the keys of the sources give.\<close>

lemma sources_change:
  assumes ok: "sources_ok src db" and lines: "vd_lines db' = vd_lines db" and keys: "map fst (source_rows src db') = map fst (source_rows src db)"
    and 4: "\<And>j t. live_at db' j \<Longrightarrow> t \<in> set (billed_sources src db j) \<Longrightarrow> source_status src db' t \<noteq> Some SbNotBilled"
    and 5: "\<And>j j'. j \<noteq> j' \<Longrightarrow> live_at db' j \<Longrightarrow> live_at db' j' \<Longrightarrow> set (billed_sources src db j) \<inter> set (billed_sources src db j') = {}"
  shows "sources_ok src db'"
proof -
  have b: "billed_sources src db' = billed_sources src db" using lines by (simp add: fun_eq_iff billed_sources_def lines_of_def)
  have k: "source_keys src db' = source_keys src db" using arg_cong [OF keys, of set] by (simp add: source_keys_def)
  have 1: "distinct (map fst (source_rows src db)) \<and> [] \<notin> source_keys src db
      \<and> (\<forall>(k, l) \<in> set (vd_lines db). il_sourceType l = src \<longrightarrow> (\<exists>t \<in> source_keys src db. il_sourceId l = Some t))
      \<and> (\<forall>i. distinct (billed_sources src db i))"
    using ok unfolding sources_ok_def by (elim conjE) (intro conjI; assumption)
  show ?thesis
    unfolding sources_ok_def b k lines keys using 1 4 5 by (elim conjE) (intro conjI allI impI ballI; (assumption | blast))
qed

section \<open>Issue\<close>

definition flip_rows :: "id list \<Rightarrow> source_billing \<Rightarrow> (id \<times> source_billing) list \<Rightarrow> (id \<times> source_billing) list" where
  "flip_rows ids b rows = map (\<lambda>(k, c). (k, if k \<in> set ids then b else c)) rows"

lemma map_of_flip: "map_of (flip_rows ids b rows) t = (if t \<in> set ids \<and> t \<in> fst ` set rows then Some b else map_of rows t)"
  by (induction rows) (auto simp: flip_rows_def)

lemma keys_flip: "map fst (flip_rows ids b rows) = map fst rows" "fst ` set (flip_rows ids b rows) = fst ` set rows"
  by (auto simp: flip_rows_def image_image split_beta)

lemma rows_set_times [simp]:
  "source_rows SrcTimeEntry (set_times ids b db) = flip_rows ids b (source_rows SrcTimeEntry db)"
  "source_rows SrcPart (set_times ids b db) = source_rows SrcPart db"
  "source_rows SrcTimeEntry (set_parts ids b db) = source_rows SrcTimeEntry db"
  "source_rows SrcPart (set_parts ids b db) = flip_rows ids b (source_rows SrcPart db)"
  by (auto simp: source_rows_def set_times_def set_parts_def flip_rows_def split_beta)

lemma set_sources_fields [simp]:
  "vd_invoices (set_times ids b db) = vd_invoices db" "vd_lines (set_times ids b db) = vd_lines db" "vd_payments (set_times ids b db) = vd_payments db"
  "vd_sequences (set_times ids b db) = vd_sequences db" "vd_orgs (set_times ids b db) = vd_orgs db"
  "vd_invoices (set_parts ids b db) = vd_invoices db" "vd_lines (set_parts ids b db) = vd_lines db" "vd_payments (set_parts ids b db) = vd_payments db"
  "vd_sequences (set_parts ids b db) = vd_sequences db" "vd_orgs (set_parts ids b db) = vd_orgs db"
  by (simp_all add: set_times_def set_parts_def)

text \<open>An invoice begins to bill its sources.\<close>

lemma sources_issue:
  assumes ok: "sources_ok src db" and lines: "vd_lines db' = vd_lines db" and rows: "source_rows src db' = flip_rows (billed_sources src db i) SbBilled (source_rows src db)"
    and live: "\<And>j. live_at db' j \<longleftrightarrow> j = i \<or> live_at db j" and was: "\<not> live_at db i"
    and free: "\<And>t. t \<in> set (billed_sources src db i) \<Longrightarrow> source_status src db t \<in> {None, Some SbNotBilled}"
  shows "sources_ok src db'"
proof -
  have b: "billed_sources src db' = billed_sources src db" using lines by (simp add: fun_eq_iff billed_sources_def lines_of_def)
  have k: "source_keys src db' = source_keys src db" by (simp add: source_keys_def rows keys_flip)
  have st: "source_status src db' t = (if t \<in> set (billed_sources src db i) \<and> t \<in> source_keys src db then Some SbBilled else source_status src db t)" for t
    by (simp add: source_status_def rows map_of_flip source_keys_def)
  note in_keys = source_in_keys [OF ok]
  have apart: "t \<notin> set (billed_sources src db i)" if "live_at db j" "t \<in> set (billed_sources src db j)" for j t
  proof
    assume t: "t \<in> set (billed_sources src db i)"
    have "source_status src db t \<noteq> Some SbNotBilled" by (rule live_status [OF ok that])
    moreover have "source_status src db t \<noteq> None" using in_keys [OF t] by (simp add: source_status_def source_keys_def map_of_eq_None_iff)
    ultimately show False using free [OF t] by simp
  qed
  have 4: "source_status src db' t \<noteq> Some SbNotBilled" if "live_at db' j" "t \<in> set (billed_sources src db j)" for j t
  proof (cases "t \<in> set (billed_sources src db i)")
    case True
    then show ?thesis using in_keys [OF that(2)] by (simp add: st)
  next
    case False
    then have "live_at db j" using that live by auto
    from live_status [OF ok this that(2)] False show ?thesis by (simp add: st)
  qed
  have 5: "set (billed_sources src db j) \<inter> set (billed_sources src db j') = {}" if "j \<noteq> j'" "live_at db' j" "live_at db' j'" for j j'
  proof (cases "j = i \<or> j' = i")
    case True
    with that live [of j] live [of j'] have "j = i \<and> live_at db j' \<or> j' = i \<and> live_at db j" by auto
    with apart show ?thesis by auto
  next
    case False
    with that live show ?thesis by (intro live_disjoint [OF ok]) auto
  qed
  show ?thesis by (rule sources_change [OF ok lines]) (simp_all add: rows keys_flip b 4 5)
qed

lemma numbers_issue:
  assumes ok: "numbers_ok db" and v: "vd_invoices db i = Some v" "inv_number v = None" and y: "0 \<le> y"
    and w: "inv_partnerId w = inv_partnerId v" "numbered w y (last_number db (inv_partnerId v) y + 1)"
    and inv': "vd_invoices db' = (vd_invoices db)(i \<mapsto> w)" and seq: "vd_sequences db' = (vd_sequences db)((inv_partnerId v, y) \<mapsto> last_number db (inv_partnerId v) y + 1)"
  shows "numbers_ok db'"
proof -
  define n where "n = last_number db (inv_partnerId v) y"
  have last: "last_number db' p z = (if p = inv_partnerId v \<and> z = y then n + 1 else last_number db p z)" for p z
    by (simp add: last_number_def seq n_def)
  have wn: "numbered w z k \<longleftrightarrow> z = y \<and> k = n + 1" if "0 \<le> z" for z k
    using numbered_unique [OF w(2) [folded n_def] _ y that] w(2) [folded n_def] by blast
  have vn: "\<not> numbered v z k" for z k using v(2) by simp
  have old: "k \<le> last_number db (inv_partnerId u) z" if "vd_invoices db j = Some u" "numbered u z k" "0 \<le> z" for j u z k
  proof -
    have "inv_number u \<noteq> None" using that(2) by (auto simp: numbered_def)
    from numbers_range [OF ok that(1) this] obtain z' k' where "0 \<le> z'" "numbered u z' k'" "k' \<le> last_number db (inv_partnerId u) z'" by blast
    with numbered_unique [OF that(2) _ that(3)] show ?thesis by blast
  qed
  have range: "\<exists>z k. 0 \<le> z \<and> numbered u z k \<and> 1 \<le> k \<and> k \<le> last_number db' (inv_partnerId u) z"
    if u: "vd_invoices db' j = Some u" "inv_number u \<noteq> None" for j u
  proof (cases "j = i")
    case True
    then have "u = w" using u(1) inv' by simp
    then show ?thesis using w y by (intro exI [of _ y] exI [of _ "n + 1"]) (simp add: last n_def)
  next
    case False
    then have "vd_invoices db j = Some u" using u(1) inv' by simp
    from numbers_range [OF ok this u(2)] obtain z k where "0 \<le> z" "numbered u z k" "1 \<le> k" "k \<le> last_number db (inv_partnerId u) z" by blast
    then show ?thesis by (intro exI [of _ z] exI [of _ k]) (auto simp: last n_def)
  qed
  have unique: "j = j'" if u: "vd_invoices db' j = Some a" "vd_invoices db' j' = Some b" "inv_partnerId a = inv_partnerId b" "0 \<le> z" "numbered a z k" "numbered b z k"
    for j j' a b z k
  proof -
    have new: "False" if "vd_invoices db q = Some x" "numbered x z k" "inv_partnerId x = inv_partnerId w" "numbered w z k" for q x
      using old [OF that(1,2) u(4)] that wn [OF u(4)] w(1) by (simp add: n_def)
    show ?thesis
    proof (cases "j = i \<or> j' = i")
      case True
      then show ?thesis using u new inv' by (auto split: if_splits)
    next
      case False
      then have "vd_invoices db j = Some a" "vd_invoices db j' = Some b" using u(1,2) inv' by simp_all
      from numbers_unique [OF ok this u(3-)] show ?thesis .
    qed
  qed
  have gap: "\<exists>j u. vd_invoices db' j = Some u \<and> inv_partnerId u = p \<and> numbered u z k" if z: "0 \<le> z" "1 \<le> k" "k \<le> last_number db' p z" for p z k
  proof (cases "p = inv_partnerId v \<and> z = y \<and> k = n + 1")
    case True
    then show ?thesis using w inv' by (intro exI [of _ i] exI [of _ w]) (simp add: n_def)
  next
    case False
    then have "k \<le> last_number db p z" using z(3) by (auto simp: last n_def split: if_splits)
    from numbers_gapless [OF ok z(1,2) this] obtain j u where u: "vd_invoices db j = Some u" "inv_partnerId u = p" "numbered u z k" .
    then have "j \<noteq> i" using v vn by auto
    then show ?thesis using u inv' by (intro exI [of _ j] exI [of _ u]) simp
  qed
  show ?thesis unfolding numbers_ok_def using range unique gap by blast
qed

lemma update_invoice_Some: "vd_invoices db i = Some v \<Longrightarrow> update_invoice i f db = set_invoice i (f v) db"
  by (simp add: update_invoice_def)

lemma already_billed_none:
  assumes "already_billed ids rows = []" and "t \<in> set ids"
  shows "map_of rows t \<in> {None, Some SbNotBilled}"
proof (cases "map_of rows t")
  case (Some b)
  with assms map_of_SomeD [OF Some] show ?thesis by (auto simp: already_billed_def filter_empty_conv)
qed simp

lemma zero_text: "''0.00'' = fixed_text 2 0"
  by code_simp

text \<open>A draft becomes an issued invoice under the next number of its partner.\<close>

lemma sound_becomes_issued:
  assumes inv: "invoice_inv db" and v: "vd_invoices db i = Some v" "draft_row v" and year: "0 \<le> y"
    and n: "n = last_number db (inv_partnerId v) y + 1"
    and w: "inv_partnerId w = inv_partnerId v" "inv_number w = Some (formatInvoiceNumber pre y n)" "inv_status w = InvSent" "inv_voidedAt w = None"
      "inv_amountPaid w = fixed_text 2 0" "inv_balance w = inv_total w" "numeric_column totals = Inr (inv_total w)"
    and fields: "vd_invoices db' = (vd_invoices db)(i \<mapsto> w)" "vd_lines db' = vd_lines db" "vd_payments db' = vd_payments db"
      "vd_sequences db' = (vd_sequences db)((inv_partnerId v, y) \<mapsto> n)"
    and src: "sources_ok SrcTimeEntry db'" "sources_ok SrcPart db'"
  shows "sound db db'"
proof -
  have draft: "draft_at db i" using v by (simp add: draft_at_def draft_row_def)
  have ok: "numbers_ok db" using inv by (simp add: invoice_inv_def)
  have "numbers_ok db'"
    using w v(2) by (intro numbers_issue [OF ok v(1) _ year _ _ fields(1)]) (auto simp: draft_row_def numbered_def n fields)
  moreover have rows: "row_ok (payments_of db' j) u" if "vd_invoices db' j = Some u" for j u
  proof (cases "j = i")
    case True
    have "payments_of db i = []" using inv_row [OF inv v(1)] v(2) by (simp add: row_ok_def draft_row_def)
    moreover have "inv_total w = ''NaN'' \<or> cents_text (inv_total w)" by (rule numeric_column_cases [OF w(7)])
    ultimately show ?thesis using True that w fields
      by (auto simp: row_ok_def money_ok_def payments_of_def paid_sum_def cents_text_def)
  next
    case False
    with that inv_row [OF inv, of j u] show ?thesis by (simp add: fields payments_of_def)
  qed
  ultimately have "invoice_inv db'" using inv src unfolding invoice_inv_def fields by auto
  moreover have "keeps_issued db db'"
    using draft v(1) by (auto simp: keeps_issued_def fields lines_of_def frozen_row_def draft_at_def)
  ultimately show ?thesis by (simp add: sound_def)
qed

lemma sound_issue:
  assumes inv: "invoice_inv db" and op: "issueInvoice i actor today db = Inr db'" and year: "0 \<le> year_of today"
  shows "sound db db'"
proof -
  obtain plan where check: "issue_check i actor db = Inr plan" and commit: "issue_commit i plan today db = Inr db'"
    using op by (auto simp: issueInvoice_def and_then_Inr)
  obtain v where v: "editable_draft db i actor = Inr v"
    and plan: "pl_invoice plan = v" "pl_timeIds plan = billed_sources SrcTimeEntry db i" "pl_partIds plan = billed_sources SrcPart db i"
    using check by (auto simp: issue_check_def and_then_Inr Let_def billed_sources_def)
  have v0: "vd_invoices db i = Some v" and draft: "draft_at db i" "draft_row v"
    using editable_cases [OF v] draft_status [OF inv] by blast+
  define n where "n = last_number db (inv_partnerId v) (year_of today) + 1"
  obtain rate pre totals subtotal taxTotal tot
    where free: "already_billed (billed_sources SrcTimeEntry db i) (source_rows SrcTimeEntry db) = []"
      "already_billed (billed_sources SrcPart db i) (source_rows SrcPart db) = []"
    and tot: "numeric_column totals = Inr tot"
    and db0: "db' = set_parts (billed_sources SrcPart db i) SbBilled (set_times (billed_sources SrcTimeEntry db i) SbBilled
        (update_invoice i (issued_row (vd_orgs db (inv_orgId v)) (vd_partners db (inv_partnerId v)) v
            \<lparr>iw_number = formatInvoiceNumber pre (year_of today) n, iw_today = today, iw_taxRate = rate, iw_subtotal = subtotal,
             iw_taxTotal = taxTotal, iw_total = tot\<rparr>) (db\<lparr>vd_sequences := (vd_sequences db)((inv_partnerId v, year_of today) \<mapsto> n)\<rparr>)))"
    using commit unfolding issue_commit_def issue_guard_def issue_write_def Let_def allocate_number_def plan split_conv and_then_Inr
    by (auto simp: source_rows_def n_def last_number_def)
  define w where "w = issued_row (vd_orgs db (inv_orgId v)) (vd_partners db (inv_partnerId v)) v
            \<lparr>iw_number = formatInvoiceNumber pre (year_of today) n, iw_today = today, iw_taxRate = rate, iw_subtotal = subtotal,
             iw_taxTotal = taxTotal, iw_total = tot\<rparr> v"
  have row: "inv_partnerId w = inv_partnerId v" "inv_number w = Some (formatInvoiceNumber pre (year_of today) n)" "inv_status w = InvSent"
      "inv_voidedAt w = None" "inv_amountPaid w = fixed_text 2 0" "inv_balance w = tot" "inv_total w = tot"
    using draft(2) by (simp_all add: w_def issued_row_def draft_row_def zero_text)
  define db1 where "db1 = set_invoice i w (db\<lparr>vd_sequences := (vd_sequences db)((inv_partnerId v, year_of today) \<mapsto> n)\<rparr>)"
  have db': "db' = set_parts (billed_sources SrcPart db i) SbBilled (set_times (billed_sources SrcTimeEntry db i) SbBilled db1)"
    unfolding db0 db1_def w_def using v0 by (simp add: update_invoice_def)
  have fields: "vd_invoices db' = (vd_invoices db)(i \<mapsto> w)" "vd_lines db' = vd_lines db" "vd_payments db' = vd_payments db"
      "vd_sequences db' = (vd_sequences db)((inv_partnerId v, year_of today) \<mapsto> n)"
      "source_rows SrcTimeEntry db' = flip_rows (billed_sources SrcTimeEntry db i) SbBilled (source_rows SrcTimeEntry db)"
      "source_rows SrcPart db' = flip_rows (billed_sources SrcPart db i) SbBilled (source_rows SrcPart db)"
    by (simp_all add: db' db1_def) (simp_all add: source_rows_def)
  have live: "live_at db' j \<longleftrightarrow> j = i \<or> live_at db j" for j using row by (simp add: live_at_def fields)
  have was: "\<not> live_at db i" by (rule draft_not_live [OF draft(1)])
  have ok: "sources_ok SrcTimeEntry db" "sources_ok SrcPart db" using inv by (simp_all add: invoice_inv_def)
  have src: "sources_ok SrcTimeEntry db'"
    by (rule sources_issue [OF ok(1) fields(2,5) live was]) (unfold source_status_def, rule already_billed_none [OF free(1)])
  have src': "sources_ok SrcPart db'"
    by (rule sources_issue [OF ok(2) fields(2,6) live was]) (unfold source_status_def, rule already_billed_none [OF free(2)])
  show ?thesis
    using row tot by (intro sound_becomes_issued [OF inv v0 draft(2) year n_def _ _ _ _ _ _ _ fields(1-4) src src']) simp_all
qed

text \<open>Numbers depend on the partner and the number of the rows only.\<close>

lemma numbers_cong:
  assumes ok: "numbers_ok db" and seq: "vd_sequences db' = vd_sequences db"
    and rows: "\<And>j. map_option (\<lambda>u. (inv_partnerId u, inv_number u)) (vd_invoices db' j) = map_option (\<lambda>u. (inv_partnerId u, inv_number u)) (vd_invoices db j)"
  shows "numbers_ok db'"
proof -
  have last: "last_number db' = last_number db" by (simp add: fun_eq_iff last_number_def seq)
  have prev: "\<exists>u'. vd_invoices db j = Some u' \<and> inv_partnerId u' = inv_partnerId u \<and> inv_number u' = inv_number u \<and> (\<forall>y k. numbered u' y k = numbered u y k)"
    if "vd_invoices db' j = Some u" for j u
    using rows [of j] that by (cases "vd_invoices db j") (auto simp: numbered_def)
  show ?thesis
    unfolding numbers_ok_def last
  proof (intro conjI allI impI; (elim conjE)?)
    fix j u assume u: "vd_invoices db' j = Some u" "inv_number u \<noteq> None"
    with prev obtain u' where u': "vd_invoices db j = Some u'" "inv_partnerId u' = inv_partnerId u" "inv_number u' = inv_number u" "\<forall>y k. numbered u' y k = numbered u y k"
      by blast
    with numbers_range [OF ok u'(1)] u(2) show "\<exists>y k. 0 \<le> y \<and> numbered u y k \<and> 1 \<le> k \<and> k \<le> last_number db (inv_partnerId u) y" by metis
  next
    fix j j' a b y k assume u: "vd_invoices db' j = Some a" "vd_invoices db' j' = Some b" "inv_partnerId a = inv_partnerId b" "(0 :: int) \<le> y" "numbered a y k" "numbered b y k"
    from prev [OF u(1)] prev [OF u(2)] u(3-) numbers_unique [OF ok, of j _ j' _ y k] show "j = j'" by metis
  next
    fix p and y :: int and k :: nat assume "0 \<le> y" "1 \<le> k" "k \<le> last_number db p y"
    from numbers_gapless [OF ok this] obtain j u where u: "vd_invoices db j = Some u" "inv_partnerId u = p" "numbered u y k" .
    then obtain a where "vd_invoices db' j = Some a" "inv_partnerId a = p" "numbered a y k"
      using rows [of j] by (cases "vd_invoices db' j") (auto simp: numbered_def)
    then show "\<exists>i v. vd_invoices db' i = Some v \<and> inv_partnerId v = p \<and> numbered v y k" by blast
  qed
qed

section \<open>Payments, void and the rest\<close>

text \<open>An issued invoice is rewritten: the row changes within the rules and bills as before, or no longer.\<close>

lemma sound_set_issued:
  assumes inv: "invoice_inv db" and v: "vd_invoices db i = Some v" "inv_number v \<noteq> None" and w: "frozen_row v w" "inv_voidedAt w = inv_voidedAt v"
    and row: "row_ok ps w" and pay: "payments_of db' i = ps" "\<And>j. j \<noteq> i \<Longrightarrow> payments_of db' j = payments_of db j"
    and db': "vd_invoices db' = (vd_invoices db)(i \<mapsto> w)" "vd_lines db' = vd_lines db" "vd_sequences db' = vd_sequences db"
      "\<And>src. source_rows src db' = source_rows src db"
    and ref: "distinct (map fst (vd_payments db'))" "\<And>k p. (k, p) \<in> set (vd_payments db') \<Longrightarrow> vd_invoices db' (ip_invoiceId p) \<noteq> None"
  shows "sound db db'"
proof -
  have n: "inv_number w = inv_number v" "inv_partnerId w = inv_partnerId v" using w(1) by (simp_all add: frozen_row_def)
  have live: "live_at db' = live_at db" using v n w(2) by (auto simp: fun_eq_iff live_at_def db')
  have ok: "sources_ok SrcTimeEntry db" "sources_ok SrcPart db" "numbers_ok db" using inv by (simp_all add: invoice_inv_def)
  have "numbers_ok db'" using v n by (intro numbers_cong [OF ok(3) db'(3)]) (simp add: db')
  moreover have "sources_ok SrcTimeEntry db'" "sources_ok SrcPart db'"
    using sources_same_live [OF ok(1) live db'(2,4)] sources_same_live [OF ok(2) live db'(2,4)] by simp_all
  moreover have "row_ok (payments_of db' j) u" if "vd_invoices db' j = Some u" for j u
    using that row pay inv_row [OF inv, of j u] by (cases "j = i") (auto simp: db')
  moreover have "vd_invoices db' (il_invoiceId l) \<noteq> None" if "(k, l) \<in> set (vd_lines db')" for k l
    using that inv v by (auto simp: invoice_inv_def db')
  moreover have "parents_ok (vd_lines db')" "distinct (map fst (vd_lines db'))" using inv by (simp_all add: invoice_inv_def db')
  ultimately have "invoice_inv db'" using ref unfolding invoice_inv_def by blast
  moreover have "keeps_issued db db'"
    using v w(1) unfolding keeps_issued_def by (auto simp: db' lines_of_def) (simp add: frozen_row_def)
  ultimately show ?thesis by (simp add: sound_def)
qed

lemma issued_row_ok: "inv_number v \<noteq> None \<Longrightarrow> row_ok ps v \<longleftrightarrow> inv_status v \<noteq> InvDraft \<and> (inv_status v = InvVoid) = (inv_voidedAt v \<noteq> None) \<and> money_ok ps v"
  by (auto simp: row_ok_def)

text \<open>The status and the amounts of an issued invoice are recomputed after its payments changed.\<close>

lemma sound_recompute_status:
  assumes inv: "invoice_inv db" and v: "vd_invoices db i = Some v0" "inv_number v0 \<noteq> None" "frozen_row v0 v" "inv_voidedAt v = inv_voidedAt v0"
    and db1: "vd_invoices db1 = (vd_invoices db)(i \<mapsto> v)" "vd_lines db1 = vd_lines db" "vd_sequences db1 = vd_sequences db"
      "\<And>src. source_rows src db1 = source_rows src db" "\<And>j. j \<noteq> i \<Longrightarrow> payments_of db1 j = payments_of db j"
    and ref: "distinct (map fst (vd_payments db1))" "\<And>k p. (k, p) \<in> set (vd_payments db1) \<Longrightarrow> vd_invoices db1 (ip_invoiceId p) \<noteq> None"
    and pay: "list_all payment_text (payments_of db1 i)"
      "inv_total v = ''NaN'' \<or> cents_text (inv_total v) \<and> paid_sum (payments_of db1 i) \<le> max 0 (cents (inv_total v))"
    and r: "recomputeInvoiceStatus i now db1 = Inr db'"
  shows "sound db db'"
proof -
  have look: "vd_invoices db1 i = Some v" by (simp add: db1)
  obtain w where w: "db' = set_invoice i w db1" "money_ok (payments_of db1 i) w" "inv_total w = inv_total v" "inv_number w = inv_number v"
    "inv_voidedAt w = inv_voidedAt v" "inv_partnerId w = inv_partnerId v" "inv_orgId w = inv_orgId v" "inv_subtotal w = inv_subtotal v"
    "inv_taxTotal w = inv_taxTotal v" "inv_taxRate w = inv_taxRate v" "(inv_status w = InvVoid) = (inv_voidedAt v \<noteq> None)"
    "(inv_status w = InvDraft) = (inv_voidedAt v = None \<and> inv_number v = None)"
    using recompute_money [OF pay(1) look pay(2) r] by metis
  have n: "inv_number v \<noteq> None" using v by (simp add: frozen_row_def)
  have "frozen_row v0 w" using v(3) w by (simp add: frozen_row_def)
  moreover have "row_ok (payments_of db1 i) w" using w n by (simp add: issued_row_ok)
  moreover have "vd_invoices db' (ip_invoiceId q) \<noteq> None" if "(k, q) \<in> set (vd_payments db')" for k q
    using that ref(2) [of k q] by (cases "ip_invoiceId q = i") (simp_all add: w(1))
  ultimately show ?thesis
    using v(4) w(5) db1 ref(1) by (intro sound_set_issued [OF inv v(1,2), of w "payments_of db1 i"]) (simp_all add: w(1))
qed

lemma money_text_cents:
  assumes "js_Number s = Some (fl (of_int a / 100))" and "\<bar>a\<bar> \<le> 10 ^ 14"
  shows "money_text s = fixed_text 2 a" and "math_round (js_mul (js_Number s) (Some 100)) = Some (of_int a)"
  using fromCents_int [OF assms(2)] round_cents [OF assms(2)] assms(1)
  by (simp_all add: money_text_def fromCents_def js_div_def js_mul_def math_round_def)

lemma sound_recordPayment:
  assumes inv: "invoice_inv db" and op: "recordPayment i k input actor now db = Inr db'"
    and amount: "js_Number (py_amount input) = Some (fl (of_int a / 100))" "0 < a" "a < 10 ^ 12"
  shows "sound db db'"
proof -
  obtain v where check: "payment_check i input actor db = Inr v" and wr: "payment_write i k input actor v now db = Inr db'"
    using op by (auto simp: recordPayment_def and_then_Inr)
  have v: "vd_invoices db i = Some v" "inv_status v \<noteq> InvDraft"
    and less: "\<not> js_less (math_round (js_mul (js_Number (inv_balance v)) (Some 100))) (Some (of_int a))"
    using check money_text_cents(2) [OF amount(1)] amount(2,3)
    by (auto simp: payment_check_def and_then_Inr getOwnedInvoiceOr404_def split: option.splits)
  have n: "inv_number v \<noteq> None" using inv_row [OF inv v(1)] v(2) by (auto simp: row_ok_def draft_row_def split: if_splits)
  define p where "p = \<lparr>ip_invoiceId = i, ip_orgId = inv_orgId v, ip_amount = fixed_text 2 a, ip_method = py_method input,
                    ip_reference = py_reference input, ip_receivedAt = py_receivedAt input, ip_recordedBy = ia_userId actor,
                    ip_note = py_note input\<rparr>"
  define db1 where "db1 = db\<lparr>vd_payments := vd_payments db @ [(k, p)]\<rparr>"
  have r: "recomputeInvoiceStatus i now db1 = Inr db'" and k: "k \<notin> fst ` set (vd_payments db)"
    using wr money_text_cents(1) [OF amount(1)] amount(2,3) numeric_fixed [of a]
    by (auto simp: payment_write_def and_then_Inr db1_def p_def)
  have pay: "payments_of db1 i = payments_of db i @ [fixed_text 2 a]" "\<And>j. j \<noteq> i \<Longrightarrow> payments_of db1 j = payments_of db j"
    by (simp_all add: payments_of_def db1_def p_def)
  have m: "money_ok (payments_of db i) v" using inv_row [OF inv v(1)] n by (simp add: row_ok_def)
  have a: "payment_text (fixed_text 2 a)" "cents (fixed_text 2 a) = a" using amount by (simp_all add: payment_text_def cents_text_fixed)
  have sum: "paid_sum (payments_of db1 i) = paid_sum (payments_of db i) + a" by (simp add: pay paid_sum_def a)
  have "paid_sum (payments_of db1 i) \<le> max 0 (cents (inv_total v))" if "inv_total v \<noteq> ''NaN''"
  proof -
    have t: "cents_text (inv_total v)" "inv_balance v = fixed_text 2 (cents (inv_total v) - paid_sum (payments_of db i))"
      "paid_sum (payments_of db i) \<le> max 0 (cents (inv_total v))" "list_all payment_text (payments_of db i)"
      using m that by (simp_all add: money_ok_def)
    define B where "B = cents (inv_total v) - paid_sum (payments_of db i)"
    have "\<bar>cents (inv_total v)\<bar> < 10 ^ 12" using t(1) unfolding cents_text_def by (rule conjunct1)
    then have "\<bar>B\<bar> \<le> 10 ^ 14" using t(3) paid_sum_nonneg [OF t(4)] by (simp add: B_def)
    then have "math_round (js_mul (js_Number (inv_balance v)) (Some 100)) = Some (of_int B)"
      using round_cents [of B] t(2) by (simp add: B_def Number_fixed_text js_mul_def math_round_def)
    then have "a \<le> B" using less by (simp add: js_less_def)
    then show ?thesis using sum by (simp add: B_def)
  qed
  then have total: "inv_total v = ''NaN'' \<or> cents_text (inv_total v) \<and> paid_sum (payments_of db1 i) \<le> max 0 (cents (inv_total v))"
    using m by (auto simp: money_ok_def)
  show ?thesis
  proof (rule sound_recompute_status [OF inv v(1) n _ _ _ _ _ _ pay(2) _ _ _ total r])
    show "frozen_row v v" by (simp add: frozen_row_def)
    show "distinct (map fst (vd_payments db1))" using inv k by (simp add: db1_def invoice_inv_def)
    show "vd_invoices db1 (ip_invoiceId q) \<noteq> None" if "(j, q) \<in> set (vd_payments db1)" for j q
      using that inv v(1) by (auto simp: db1_def p_def invoice_inv_def)
    show "list_all payment_text (payments_of db1 i)" using m a by (simp add: pay money_ok_def)
  qed (use v(1) in \<open>auto simp: db1_def source_rows_def fun_upd_idem cong: line_source.case_cong\<close>)
qed

lemma paid_sum_filter: "list_all payment_text (map f xs) \<Longrightarrow> paid_sum (map f (filter P xs)) \<le> paid_sum (map f xs)"
  by (induction xs) (auto simp: paid_sum_def payment_text_def)

lemma sound_voidPayment:
  assumes inv: "invoice_inv db" and op: "voidPayment k actor now db = Inr db'"
  shows "sound db db'"
proof -
  obtain pay where look: "map_of (vd_payments db) k = Some pay" using op by (auto simp: voidPayment_def split: option.splits)
  define i where "i = ip_invoiceId pay"
  define db1 where "db1 = db\<lparr>vd_payments := filter (\<lambda>(j, p). j \<noteq> k) (vd_payments db)\<rparr>"
  obtain v where v: "vd_invoices db i = Some v" and r: "recomputeInvoiceStatus i now db1 = Inr db'"
    using op look by (auto simp: voidPayment_def and_then_Inr getOwnedInvoiceOr404_def i_def db1_def split: option.splits)
  have pay: "(k, pay) \<in> set (vd_payments db)" by (rule map_of_SomeD [OF look])
  then have "payments_of db i \<noteq> []" by (auto simp: payments_of_def filter_empty_conv i_def)
  with inv_row [OF inv v] have n: "inv_number v \<noteq> None" and m: "money_ok (payments_of db i) v" by (auto simp: row_ok_def split: if_splits)
  have "p = pay" if "(k, p) \<in> set (vd_payments db)" for p
    using that pay inv by (auto simp: invoice_inv_def dest: eq_key_imp_eq_value)
  then have other: "payments_of db1 j = payments_of db j" if "j \<noteq> i" for j
    using that by (auto simp: payments_of_def db1_def i_def intro!: arg_cong [of _ _ "map _"] filter_cong)
  have mine: "payments_of db1 i = map (ip_amount \<circ> snd) (filter (\<lambda>(j, p). j \<noteq> k) (filter (\<lambda>(j, p). ip_invoiceId p = i) (vd_payments db)))"
    by (auto simp: payments_of_def db1_def intro!: arg_cong [of _ _ "map _"] filter_cong)
  have ps: "list_all payment_text (payments_of db i)" using m by (simp add: money_ok_def)
  have le: "paid_sum (payments_of db1 i) \<le> paid_sum (payments_of db i)"
    unfolding mine unfolding payments_of_def by (rule paid_sum_filter [OF ps [unfolded payments_of_def]])
  have "list_all payment_text (payments_of db1 i)" using ps unfolding mine by (auto simp: payments_of_def list_all_iff)
  moreover have "inv_total v = ''NaN'' \<or> cents_text (inv_total v) \<and> paid_sum (payments_of db1 i) \<le> max 0 (cents (inv_total v))"
    using m le unfolding money_ok_def by linarith
  moreover have "vd_invoices db1 (ip_invoiceId q) \<noteq> None" if "(j, q) \<in> set (vd_payments db1)" for j q
    using that inv by (auto simp: db1_def invoice_inv_def)
  moreover have "distinct (map fst (vd_payments db1))" using inv by (simp add: db1_def invoice_inv_def distinct_map_filter)
  ultimately show ?thesis
    using v by (intro sound_recompute_status [OF inv v n _ _ _ _ _ _ other _ _ _ _ r])
      (auto simp: frozen_row_def db1_def source_rows_def fun_upd_idem cong: line_source.case_cong)
qed

lemma sound_updateIssuedDueDate:
  assumes inv: "invoice_inv db" and op: "updateIssuedDueDate i due actor now db = Inr db'"
  shows "sound db db'"
proof -
  obtain v where v: "vd_invoices db i = Some v" "inv_status v \<in> {InvSent, InvPartiallyPaid, InvOverdue}"
    and r: "recomputeInvoiceStatus i now (set_invoice i (v\<lparr>inv_dueDate := Some due\<rparr>) db) = Inr db'"
    using op by (auto simp: updateIssuedDueDate_def and_then_Inr getOwnedInvoiceOr404_def split: option.splits)
  have n: "inv_number v \<noteq> None" and m: "money_ok (payments_of db i) v"
    using inv_row [OF inv v(1)] v(2) by (auto simp: row_ok_def draft_row_def split: if_splits)
  show ?thesis
    using inv m v(1) by (intro sound_recompute_status [OF inv v(1) n _ _ _ _ _ _ _ _ _ _ _ r])
      (auto simp: frozen_row_def invoice_inv_def money_ok_def)
qed

text \<open>Changes of a row that touch neither its owners, its amounts nor what it bills.\<close>

lemma sound_touch:
  assumes inv: "invoice_inv db" and v: "vd_invoices db i = Some v"
    and w: "frozen_row v w" "inv_voidedAt w = inv_voidedAt v" "inv_amountPaid w = inv_amountPaid v" "inv_balance w = inv_balance v"
    and status: "inv_status w = inv_status v \<or> inv_status v \<in> {InvSent, InvPartiallyPaid} \<and> inv_status w = InvOverdue"
  shows "sound db (set_invoice i w db)"
proof (cases "inv_number v = None")
  case True
  with inv_row [OF inv v] have d: "draft_row v" by (simp add: row_ok_def)
  have "draft_row w" using d w status by (auto simp: draft_row_def frozen_row_def)
  with True v show ?thesis by (intro sound_set_draft [OF inv]) (auto simp: draft_at_def)
next
  case False
  have "row_ok (payments_of db i) w"
    using inv_row [OF inv v] False w status by (auto simp: row_ok_def frozen_row_def money_ok_def)
  with False v w inv show ?thesis
    by (intro sound_set_issued [OF inv v False]) (auto simp: invoice_inv_def)
qed

lemma sound_markViewed: "invoice_inv db \<Longrightarrow> markViewed i org now db = Inr db' \<Longrightarrow> sound db db'"
  by (auto simp: markViewed_def and_then_Inr getOwnedInvoiceOr404_def frozen_row_def split: option.splits intro!: sound_touch)

lemma sound_sweep_from:
  assumes "invoice_inv db" and "\<And>i. i \<in> set ids \<Longrightarrow> \<exists>v. vd_invoices db i = Some v \<and> inv_status v \<in> {InvSent, InvPartiallyPaid, InvOverdue}"
  shows "sound db (foldl (\<lambda>d i. update_invoice i (\<lambda>v. v\<lparr>inv_status := InvOverdue, inv_markedOverdueAt := Some now\<rparr>) d) db ids)"
  using assms
proof (induction ids arbitrary: db)
  case Nil
  then show ?case by (simp add: sound_def)
next
  case (Cons i ids)
  obtain v where v: "vd_invoices db i = Some v" "inv_status v \<in> {InvSent, InvPartiallyPaid, InvOverdue}" using Cons.prems(2) [of i] by auto
  define w where "w = v\<lparr>inv_status := InvOverdue, inv_markedOverdueAt := Some now\<rparr>"
  have w: "inv_status w = InvOverdue" by (simp add: w_def)
  have s: "sound db (set_invoice i w db)" using v by (intro sound_touch [OF Cons.prems(1) v(1)]) (auto simp: frozen_row_def w_def)
  have "sound (set_invoice i w db) (foldl (\<lambda>d i. update_invoice i (\<lambda>v. v\<lparr>inv_status := InvOverdue, inv_markedOverdueAt := Some now\<rparr>) d) (set_invoice i w db) ids)"
    using Cons.prems(2) w by (intro Cons.IH soundD [OF s]) (auto simp: set_invoice_simps)
  with sound_trans [OF s] show ?case by (simp add: update_invoice_Some [OF v(1)] w_def)
qed

lemma sound_sweep: "invoice_inv db \<Longrightarrow> sound db (runOverdueSweep ids today now db)"
  unfolding runOverdueSweep_def by (rule sound_sweep_from) (auto simp: overdue_due_def split: option.splits)

section \<open>Void\<close>

lemma sources_void:
  assumes ok: "sources_ok src db" and lines: "vd_lines db' = vd_lines db" and rows: "source_rows src db' = flip_rows (billed_sources src db i) SbNotBilled (source_rows src db)"
    and live: "\<And>j. live_at db' j \<longleftrightarrow> j \<noteq> i \<and> live_at db j" and was: "live_at db i"
  shows "sources_ok src db'"
proof -
  have "source_status src db' t \<noteq> Some SbNotBilled" if j: "live_at db' j" "t \<in> set (billed_sources src db j)" for j t
  proof -
    have "live_at db j" "j \<noteq> i" using j(1) live by auto
    then have "t \<notin> set (billed_sources src db i)" using live_disjoint [OF ok] was j(2) by blast
    with live_status [OF ok \<open>live_at db j\<close> j(2)] show ?thesis by (simp add: source_status_def rows map_of_flip)
  qed
  moreover have "set (billed_sources src db j) \<inter> set (billed_sources src db j') = {}" if "j \<noteq> j'" "live_at db' j" "live_at db' j'" for j j'
    using that live by (intro live_disjoint [OF ok]) auto
  ultimately show ?thesis by (intro sources_change [OF ok lines]) (simp_all add: rows keys_flip)
qed

lemma void_part:
  assumes inv: "invoice_inv db" and v: "vd_invoices db i = Some v" "inv_status v \<noteq> InvDraft" "inv_status v \<noteq> InvVoid"
  shows "sound db (set_parts (billed_sources SrcPart db i) SbNotBilled (set_times (billed_sources SrcTimeEntry db i) SbNotBilled
           (set_invoice i (v\<lparr>inv_status := InvVoid, inv_voidedAt := Some now, inv_voidReason := Some reason\<rparr>) db)))"
proof -
  define w where "w = v\<lparr>inv_status := InvVoid, inv_voidedAt := Some now, inv_voidReason := Some reason\<rparr>"
  define db' where "db' = set_parts (billed_sources SrcPart db i) SbNotBilled (set_times (billed_sources SrcTimeEntry db i) SbNotBilled (set_invoice i w db))"
  have n: "inv_number v \<noteq> None" and vo: "inv_voidedAt v = None" and m: "money_ok (payments_of db i) v"
    using inv_row [OF inv v(1)] v(2,3) by (auto simp: row_ok_def draft_row_def split: if_splits)
  have fields: "vd_invoices db' = (vd_invoices db)(i \<mapsto> w)" "vd_lines db' = vd_lines db" "vd_payments db' = vd_payments db" "vd_sequences db' = vd_sequences db"
      "source_rows SrcTimeEntry db' = flip_rows (billed_sources SrcTimeEntry db i) SbNotBilled (source_rows SrcTimeEntry db)"
      "source_rows SrcPart db' = flip_rows (billed_sources SrcPart db i) SbNotBilled (source_rows SrcPart db)"
    by (simp_all add: db'_def)
  have live: "live_at db' j \<longleftrightarrow> j \<noteq> i \<and> live_at db j" for j by (simp add: live_at_def fields w_def)
  have was: "live_at db i" using v(1) n vo by (simp add: live_at_def)
  have ok: "sources_ok SrcTimeEntry db" "sources_ok SrcPart db" "numbers_ok db" using inv by (simp_all add: invoice_inv_def)
  have "sources_ok SrcTimeEntry db'" "sources_ok SrcPart db'"
    using sources_void [OF ok(1) fields(2,5) live was] sources_void [OF ok(2) fields(2,6) live was] by simp_all
  moreover have "numbers_ok db'" using v(1) by (intro numbers_cong [OF ok(3) fields(4)]) (simp add: fields w_def)
  moreover have "row_ok (payments_of db' j) u" if "vd_invoices db' j = Some u" for j u
    using that inv_row [OF inv, of j u] n m by (cases "j = i") (auto simp: fields payments_of_def row_ok_def w_def money_ok_def)
  ultimately have "invoice_inv db'" using inv v(1) unfolding invoice_inv_def fields by auto
  moreover have "keeps_issued db db'" using v(1) by (auto simp: keeps_issued_def fields lines_of_def frozen_row_def w_def)
  ultimately show ?thesis by (simp add: sound_def db'_def w_def)
qed

lemma mset_source_ids: "mset (source_ids src ls) = image_mset the (filter_mset (\<lambda>x. x \<noteq> None) (image_mset (source_of src \<circ> snd) (mset ls)))"
  by (induction ls) (auto simp: source_ids_Cons split: option.splits)

lemma clone_sources: "mset (source_ids src (clone_lines d f ls)) = mset (source_ids src ls)"
proof -
  define ordered where "ordered = sort_key (il_sortOrder \<circ> snd) ls"
  have keep: "source_ids src (map (\<lambda>(k, l). (f k, clone_line d (g l) l)) xs) = source_ids src xs" for g xs
    using source_ids_cong [of xs src "\<lambda>(k, l). (f k, clone_line d (g l) l)"] by (simp add: split_beta source_of_def clone_line_def)
  have "source_ids src (clone_lines d f ls) =
      source_ids src (filter (\<lambda>(k, l). il_parentLineId l = None) ordered) @ source_ids src (filter (\<lambda>(k, l). il_parentLineId l \<noteq> None) ordered)"
    unfolding clone_lines_def Let_def ordered_def [symmetric] source_ids_append using keep by simp
  then have "mset (source_ids src (clone_lines d f ls)) = mset (source_ids src (filter (\<lambda>(k, l). il_parentLineId l = None) ordered @ filter (\<lambda>(k, l). il_parentLineId l \<noteq> None) ordered))"
    by simp
  also have "mset (filter (\<lambda>(k, l). il_parentLineId l = None) ordered @ filter (\<lambda>(k, l). il_parentLineId l \<noteq> None) ordered) = mset ls"
    using multiset_partition [of "mset ls" "\<lambda>(k, l). il_parentLineId l = None"] by (simp add: ordered_def split_beta)
  then have "mset (source_ids src (filter (\<lambda>(k, l). il_parentLineId l = None) ordered @ filter (\<lambda>(k, l). il_parentLineId l \<noteq> None) ordered)) = mset (source_ids src ls)"
    by (simp only: mset_source_ids)
  finally show ?thesis .
qed

lemma clone_line_of:
  assumes "(k, c) \<in> set (clone_lines d f ls)"
  shows "il_invoiceId c = d" and "\<exists>k0 l. (k0, l) \<in> set ls \<and> il_sourceType c = il_sourceType l \<and> il_sourceId c = il_sourceId l"
    and "parent_line (clone_lines d f ls) c"
  using assms by (auto simp: clone_lines_def Let_def clone_line_def parent_line_def split: option.splits if_splits) force+

lemma sound_append_clones:
  assumes inv: "invoice_inv db" and d: "draft_at db d" and ls: "ls = lines_of db i" and none: "lines_of db d = []"
    and keys: "distinct (map fst (vd_lines db @ clone_lines d f ls))"
  shows "sound db (db\<lparr>vd_lines := vd_lines db @ clone_lines d f ls\<rparr>)"
proof -
  let ?cs = "clone_lines d f ls"
  have c: "x \<in> set ?cs \<Longrightarrow> il_invoiceId (snd x) = d" for x using clone_line_of(1) [of "fst x" "snd x"] by simp
  have flt: "filter (\<lambda>(k, l). il_invoiceId l = j) ?cs = (if j = d then ?cs else [])" for j
    using c by (auto simp: filter_id_conv filter_empty_conv split_beta)
  have same: "filter (\<lambda>(k, l). il_invoiceId l = j) (vd_lines db @ ?cs) = lines_of db j" if "\<not> draft_at db j" for j
    using that d flt by (auto simp: lines_of_def)
  show ?thesis
  proof (rule sound_lines [OF inv_draft_lines [OF inv same] same])
    fix src :: line_source assume src: "src \<in> {SrcTimeEntry, SrcPart}"
    have "distinct (source_ids src ls)" using sources_of_inv(2) [OF inv src, of i] by (simp add: ls lines_of_def)
    then have "distinct (source_ids src ?cs)" using mset_eq_imp_distinct_iff [OF clone_sources [of src d f ls]] by simp
    then have "distinct (source_ids src (filter (\<lambda>(k, l). il_invoiceId l = j) (vd_lines db @ ?cs)))" for j
      using sources_of_inv(2) [OF inv src, of j] none flt by (simp add: lines_of_def)
    moreover have "\<exists>t \<in> source_keys src db. il_sourceId l = Some t" if "(k, l) \<in> set (vd_lines db @ ?cs)" "il_sourceType l = src" for k l
    proof (cases "(k, l) \<in> set ?cs")
      case True
      from clone_line_of(2) [OF this] that(2) obtain k0 l0 where "(k0, l0) \<in> set (vd_lines db)" "il_sourceType l0 = src" "il_sourceId l = il_sourceId l0"
        by (auto simp: ls lines_of_def)
      with sources_of_inv(1) [OF inv src] show ?thesis by simp
    next
      case False
      with that sources_of_inv(1) [OF inv src, of k l] show ?thesis by simp
    qed
    ultimately show "(\<forall>(k, l) \<in> set (vd_lines db @ ?cs). il_sourceType l = src \<longrightarrow> (\<exists>t \<in> source_keys src db. il_sourceId l = Some t))
        \<and> (\<forall>i. draft_at db i \<longrightarrow> distinct (source_ids src (filter (\<lambda>(k, l). il_invoiceId l = i) (vd_lines db @ ?cs))))" by blast
  next
    show "distinct (map fst (vd_lines db @ ?cs))" by (rule keys)
    have mono: "parent_line xs l \<Longrightarrow> set xs \<subseteq> set ys \<Longrightarrow> parent_line ys l" for xs ys l by (auto simp: parent_line_def split: option.splits)
    have "parent_line (vd_lines db @ ?cs) l" if "(k, l) \<in> set (vd_lines db @ ?cs)" for k l
      using that clone_line_of(3) [of k l d f ls] inv mono [of "vd_lines db" l "vd_lines db @ ?cs"] mono [of ?cs l "vd_lines db @ ?cs"]
      by (auto simp: invoice_inv_def parents_ok_def)
    then show "parents_ok (vd_lines db @ ?cs)" by (auto simp: parents_ok_def)
  qed
qed

lemma sound_void:
  assumes inv: "invoice_inv db" and op: "void_transaction i reason reissue f actor now db = Inr db'"
  shows "sound db db'"
proof -
  define db1 where "db1 v = set_parts (billed_sources SrcPart db i) SbNotBilled (set_times (billed_sources SrcTimeEntry db i) SbNotBilled
           (set_invoice i (v\<lparr>inv_status := InvVoid, inv_voidedAt := Some now, inv_voidReason := Some reason\<rparr>) db))" for v
  obtain v where v: "vd_invoices db i = Some v" "inv_status v \<noteq> InvDraft" "inv_status v \<noteq> InvVoid"
    and rest: "(case reissue of None \<Rightarrow> Inr (db1 v)
        | Some d \<Rightarrow> and_then (insert_invoice d ((blank_invoice (inv_partnerId v) (inv_orgId v) (inv_siteId v) (ia_userId actor))
                        \<lparr>inv_notes := inv_notes v, inv_replacesInvoiceId := Some i\<rparr>) (db1 v)) (\<lambda>db2.
            and_then (ensure (distinct (map fst (vd_lines db @ clone_lines d f (lines_of db i)))) UNIQUE_KEY) (\<lambda>_.
            Inr ((update_invoice i (\<lambda>w. w\<lparr>inv_replacedByInvoiceId := Some d\<rparr>) db2)
                   \<lparr>vd_lines := vd_lines db @ clone_lines d f (lines_of db i)\<rparr>)))) = Inr db'"
    using op by (auto simp: void_transaction_def and_then_Inr getOwnedInvoiceOr404_def Let_def update_invoice_Some billed_sources_def db1_def
        split: option.splits)
  have s1: "sound db (db1 v)" unfolding db1_def by (rule void_part [OF inv v])
  show ?thesis
  proof (cases reissue)
    case None
    with rest s1 show ?thesis by simp
  next
    case (Some d)
    define draft where "draft = (blank_invoice (inv_partnerId v) (inv_orgId v) (inv_siteId v) (ia_userId actor))
                        \<lparr>inv_notes := inv_notes v, inv_replacesInvoiceId := Some i\<rparr>"
    obtain db2 where ins: "insert_invoice d draft (db1 v) = Inr db2" and keys: "distinct (map fst (vd_lines db @ clone_lines d f (lines_of db i)))"
      and db': "db' = (update_invoice i (\<lambda>w. w\<lparr>inv_replacedByInvoiceId := Some d\<rparr>) db2)\<lparr>vd_lines := vd_lines db @ clone_lines d f (lines_of db i)\<rparr>"
      using rest Some by (auto simp: and_then_Inr draft_def)
    have "draft_row draft" by (simp add: draft_def draft_row_def blank_invoice_def)
    note s2 = sound_insert_draft [OF soundD [OF s1] ins this]
    have new: "vd_invoices (db1 v) d = None" "db2 = set_invoice d draft (db1 v)" using insert_invoice_cases [OF ins] by simp_all
    then have "d \<noteq> i" by (auto simp: db1_def)
    then obtain u where u: "vd_invoices db2 i = Some u" by (simp add: new(2) db1_def)
    define db3 where "db3 = set_invoice i (u\<lparr>inv_replacedByInvoiceId := Some d\<rparr>) db2"
    have s3: "sound db2 db3" unfolding db3_def by (rule sound_touch [OF soundD [OF s2(1)] u]) (simp_all add: frozen_row_def)
    have lines: "vd_lines db3 = vd_lines db" by (simp add: db3_def new(2) db1_def)
    have "lines_of db3 d = []" using no_lines [OF soundD [OF s1] new(1)] by (simp add: lines_of_def db3_def new(2))
    moreover have "draft_at db3 d" using s2(2) \<open>d \<noteq> i\<close> by (simp add: draft_at_def db3_def)
    ultimately have "sound db3 (db3\<lparr>vd_lines := vd_lines db3 @ clone_lines d f (lines_of db i)\<rparr>)"
      using keys lines by (intro sound_append_clones [OF soundD [OF s3]]) (auto simp: lines_of_def)
    moreover have "db' = db3\<lparr>vd_lines := vd_lines db3 @ clone_lines d f (lines_of db i)\<rparr>"
      by (simp add: db' update_invoice_Some [OF u] db3_def [symmetric] lines)
    ultimately show ?thesis using sound_trans [OF sound_trans [OF s1 s2(1)]] sound_trans [OF s3] by simp
  qed
qed

section \<open>Invoices of accepted quotes\<close>

lemma materialize_plain:
  assumes "materializeLines i org pos specs ks db = Inr db'" and "list_all (\<lambda>l. il_sourceType l = SrcManual) specs"
  shows "vd_invoices db' = vd_invoices db \<and> vd_sequences db' = vd_sequences db \<and> vd_partners db' = vd_partners db
    \<and> (src \<in> {SrcTimeEntry, SrcPart} \<longrightarrow> billed_sources src db' j = billed_sources src db j)"
  using assms
proof (induction i org pos specs ks db rule: materializeLines.induct)
  case (1 i org pos s specs k ks db)
  define l where "l = s\<lparr>il_invoiceId := i, il_orgId := org, il_sortOrder := pos\<rparr>"
  obtain db1 where add: "add_line k l db = Inr db1" and rest: "materializeLines i org (pos + 1) specs ks db1 = Inr db'"
    using "1.prems"(1) by (auto simp: and_then_Inr l_def)
  have "il_sourceType l = SrcManual" using "1.prems"(2) by (simp add: l_def)
  then have "src \<in> {SrcTimeEntry, SrcPart} \<longrightarrow> billed_sources src db1 j = billed_sources src db j"
    using add_line_fields(4) [OF add, of src j] by (auto simp: source_ids_one)
  moreover have "vd_sequences db1 = vd_sequences db" "vd_invoices db1 = vd_invoices db" "vd_partners db1 = vd_partners db"
    using add by (auto simp: add_line_def and_then_Inr)
  ultimately show ?case using "1.IH" [of db1] rest "1.prems"(2) by simp
qed simp_all

lemma accepted_specs: "list_all (\<lambda>l. il_sourceType l = SrcManual) (map accepted_spec ls)" "list_all (\<lambda>l. il_parentLineId l = None) (map accepted_spec ls)"
  by (simp_all add: list_all_iff accepted_spec_def line_spec_def)


lemma accepted_specs_ok:
  assumes "billed_sources SrcTimeEntry db i = []" "billed_sources SrcPart db i = []"
  shows "specs_ok db i (map accepted_spec ls)"
proof -
  have "spec_sources src (map accepted_spec ls) = []" if "src \<in> {SrcTimeEntry, SrcPart}" for src
    using that by (induction ls) (auto simp: spec_sources_Cons source_of_def accepted_spec_def line_spec_def)
  then show ?thesis using assms accepted_specs by (auto simp: specs_ok_def list_all_iff)
qed

lemma sound_accept_invoice:
  assumes inv: "invoice_inv db" and op: "accept_invoice i ks q ls u today db = Inr db'" and year: "0 \<le> year_of today"
  shows "sound db db'"
proof -
  obtain db1 db2 subtotal taxTotal tot where ins: "insert_invoice i (accepted_draft q u) db = Inr db1"
    and mat: "materializeLines i (aq_orgId q) 0 (map accepted_spec ls) ks db1 = Inr db2"
    and tot: "numeric_column (iv_total (accepted_totals q ls)) = Inr tot"
    and fin: "db' = (if ls = [] then update_invoice i (accepted_row q None today subtotal taxTotal tot) db2
        else accept_issue i q today subtotal taxTotal tot db2)"
    using op by (auto simp: accept_invoice_def and_then_Inr)
  define v where "v = accepted_draft q u"
  have v: "draft_row v" "inv_partnerId v = aq_partnerId q" by (simp_all add: v_def draft_row_def accepted_draft_def blank_invoice_def)
  note cases = insert_invoice_cases [OF ins]
  note s1 = sound_insert_draft [OF inv ins v(1) [unfolded v_def]]
  have none: "billed_sources src db1 i = []" for src
    using no_lines [OF inv] cases by (simp add: billed_sources_def lines_of_def)
  have s2: "sound db1 db2" "draft_at db2 i"
    using sound_materialize [OF soundD [OF s1(1)] s1(2) accepted_specs_ok [OF none none] mat] by blast+
  note keep = materialize_plain [OF mat accepted_specs(1)]
  have row: "vd_invoices db2 i = Some v" using keep cases by (simp add: v_def)
  have bare: "src \<in> {SrcTimeEntry, SrcPart} \<Longrightarrow> billed_sources src db2 i = []" for src using keep [of src i] none [of src] by metis
  have "sound db2 db'"
  proof (cases "ls = []")
    case True
    then have "db' = set_invoice i (accepted_row q None today subtotal taxTotal tot v) db2" using fin row by (simp add: update_invoice_def)
    then show ?thesis using s2 v by (auto intro!: sound_set_draft [OF soundD [OF s2(1)]] simp: draft_row_def accepted_row_def)
  next
    case False
    define n where "n = last_number db2 (inv_partnerId v) (year_of today) + 1"
    obtain pre days where db': "db' = set_invoice i (accepted_row q (Some (formatInvoiceNumber pre (year_of today) n, days)) today subtotal taxTotal tot v)
        (db2\<lparr>vd_sequences := (vd_sequences db2)((inv_partnerId v, year_of today) \<mapsto> n)\<rparr>)"
      using fin False row v(2) by (auto simp: accept_issue_def allocate_number_def Let_def update_invoice_def n_def last_number_def)
    define w where "w = accepted_row q (Some (formatInvoiceNumber pre (year_of today) n, days)) today subtotal taxTotal tot v"
    have w: "inv_partnerId w = inv_partnerId v" "inv_number w = Some (formatInvoiceNumber pre (year_of today) n)" "inv_status w = InvSent"
      "inv_voidedAt w = None" "inv_amountPaid w = fixed_text 2 0" "inv_balance w = inv_total w" "inv_total w = tot"
      using v(1) by (simp_all add: w_def accepted_row_def draft_row_def zero_text)
    have live: "live_at db' j \<longleftrightarrow> j = i \<or> live_at db2 j" for j using w by (simp add: db' w_def [symmetric] live_at_def)
    have src: "sources_ok src db'" if src: "src \<in> {SrcTimeEntry, SrcPart}" for src
    proof (rule sources_issue [OF _ _ _ live draft_not_live [OF s2(2)]])
      show "sources_ok src db2" using soundD [OF s2(1)] src by (auto simp: invoice_inv_def)
      show "source_rows src db' = flip_rows (billed_sources src db2 i) SbBilled (source_rows src db2)"
        using src bare [OF src] by (auto simp: db' flip_rows_def source_rows_def)
    qed (simp_all add: db' bare [OF src])
    show ?thesis
      using w tot by (intro sound_becomes_issued [OF soundD [OF s2(1)] row v(1) year n_def _ _ _ _ _ _ _ _ _ _ _ src src]) (simp_all add: db' w_def)
  qed
  with s1(1) s2(1) show ?thesis using sound_trans by blast
qed

end
