(* ===== verification/Invoice_Samples.thy ===== *)
theory Invoice_Samples
  imports Invoice_Ledger
begin

text \<open>One hour of work that two drafts bill: the tables on which the properties of the invoice service are tried.\<close>

section \<open>A sample run\<close>

definition sample_actor :: invoice_actor where
  "sample_actor = \<lparr>ia_userId = Some ''u'', ia_partnerId = Some ''p'', ia_accessibleOrgIds = None, ia_allowedSiteIds = None\<rparr>"

definition sample_tables :: invoice_db where
  "sample_tables =
     \<lparr>vd_invoices = (\<lambda>_. None), vd_lines = [], vd_payments = [], vd_times = [], vd_parts = [], vd_sequences = (\<lambda>_. None),
      vd_orgs = [''o'' \<mapsto> \<lparr>bo_partnerId = ''p'', bo_name = ''Org'', bo_taxId = None, bo_taxExempt = True, bo_taxRate = None\<rparr>],
      vd_partners = [''p'' \<mapsto> \<lparr>bp_currencyCode = ''USD'', bp_defaultTaxRate = None, bp_invoiceNumberPrefix = ''INV'', bp_invoiceTermsDays = 30,
        bp_invoiceFooter = None, bp_billingTermsAndConditions = None\<rparr>],
      vd_ticketOrgs = (\<lambda>_. None), vd_items = (\<lambda>_. None), vd_orgPrices = (\<lambda>_. None), vd_components = []\<rparr>"

text \<open>An hour at 1.00, on 15 January 2026.\<close>

definition sample_entry :: time_entry where
  "sample_entry = \<lparr>te_orgId = Some ''o'', te_ticketId = None, te_userId = ''u'', te_description = None, te_durationMinutes = Some 60,
     te_hourlyRate = Some ''1.00'', te_isApproved = False, te_isBillable = True, te_billingStatus = SbNotBilled,
     te_endedAt = Some 1768478400000\<rparr>"

definition sample_worked :: invoice_db where
  "sample_worked = sample_tables\<lparr>vd_times := vd_times sample_tables @ [(''t'', sample_entry)]\<rparr>"

definition sample_payment :: payment_input where
  "sample_payment = \<lparr>py_amount = ''1.00'', py_method = ''check'', py_reference = None, py_receivedAt = ''2026-01-20'', py_note = None\<rparr>"

definition assemble_sample :: "id \<Rightarrow> id \<Rightarrow> invoice_db \<Rightarrow> invoice_error + invoice_db" where
  "assemble_sample i k = assembleDraftFromOrg i [k] ''o'' None ''2026-01-01'' ''2026-01-31'' sample_actor"

lemma sample_numbers:
  "money_text ''1.00'' = ''1.00''" "computeLineTotal ''1.00'' ''1.00'' = ''1.00''" "numeric_column ''1.00'' = Inr ''1.00''" "numeric_column ''0.00'' = Inr ''0.00''"
  "js_toFixed 2 (js_div (Some 60) (Some 60)) = ''1.00''" "day_start ''2026-01-01'' = 1767225600000" "day_end ''2026-01-31'' = 1769903999000"
  "computeInvoiceTotals [\<lparr>tl_lineTotal = ''1.00'', tl_taxable = False, tl_customerVisible = True\<rparr>] (Some ''0.00000'')
     = \<lparr>iv_subtotal = ''1.00'', iv_taxTotal = ''0.00'', iv_total = ''1.00''\<rparr>"
  "fromCents (js_sub (toCents (Some ''1.00'')) (toCents (Some ''0.00''))) = ''1.00''" "year_of ''2026-01-31'' = 2026" "js_Number ''1.00'' = Some 1"
  "addDaysISO ''2026-01-31'' 30 = ''2026-03-02''"
  by code_simp+

lemma sample_payments:
  "fromCents (paid_cents [''1.00'']) = ''1.00''" "fromCents (paid_cents [''1.00'', ''1.00'']) = ''2.00''" "numeric_column ''2.00'' = Inr ''2.00''"
  "fromCents (js_sub (toCents (Some ''1.00'')) (toCents (Some ''1.00''))) = ''0.00''" "numeric_column ''-1.00'' = Inr ''-1.00''"
  "fromCents (js_sub (toCents (Some ''1.00'')) (toCents (Some ''2.00''))) = ''-1.00''" "js_less (Some 0) (Some 1)"
  "\<not> js_less (math_round (js_mul (Some 1) (Some 100))) (math_round (js_mul (Some 1) (Some 100)))"
  by code_simp+

definition sample_line :: "id \<Rightarrow> invoice_line" where
  "sample_line i = (line_spec SrcTimeEntry ''1.00'' ''1.00'' False)
     \<lparr>il_invoiceId := i, il_orgId := ''o'', il_sourceId := Some ''t'', il_description := Some ''Labor'', il_isUnapprovedTime := True\<rparr>"

definition sample_draft :: invoice_row where
  "sample_draft = (blank_invoice ''p'' ''o'' None (Some ''u''))
     \<lparr>inv_subtotal := ''1.00'', inv_taxRate := Some ''0.00000'', inv_total := ''1.00'', inv_balance := ''1.00''\<rparr>"

definition sample_drafted :: invoice_db where
  "sample_drafted = set_invoice ''j'' sample_draft (set_invoice ''i'' sample_draft
     (sample_worked\<lparr>vd_lines := [(''k'', sample_line ''i''), (''l'', sample_line ''j'')]\<rparr>))"

lemmas sample_defs = sample_actor_def sample_tables_def sample_entry_def sample_worked_def sample_payment_def sample_line_def sample_draft_def
  line_spec_def blank_invoice_def sample_numbers

lemmas access_defs = requirePartner_def requireInvoiceOrgAccess_def requireSiteAccess_def requireInvoiceAccess_def getOwnedInvoiceOr404_def assertDraft_def
  editable_draft_def ensure_def str_or_none_def

lemma sample_assembled:
  assumes "vd_times db = [(''t'', sample_entry)]" "vd_parts db = []" "vd_orgs db = vd_orgs sample_tables" "vd_invoices db i = None"
    "lines_of db i = []" "k \<notin> fst ` set (vd_lines db)"
  shows "assemble_sample i k db = Inr (set_invoice i sample_draft (db\<lparr>vd_lines := vd_lines db @ [(k, sample_line i)]\<rparr>))"
  using assms
  by (simp add: sample_defs access_defs assemble_sample_def assembleDraftFromOrg_def gatherOrgTimeEntries_def gatherOrgParts_def
     timeEntryToLineSpec_def assemble_def insert_invoice_def add_line_def store_line_def numeric_column_opt_def recomputeInvoiceTotals_def
     effectiveRateForOrg_def invoice_totals_lines_def totals_line_of_def lines_of_def set_invoice_def resolveEffectiveTaxRate_def Let_def)

definition sample_plan :: issue_plan where
  "sample_plan = \<lparr>pl_invoice = sample_draft, pl_timeIds = [''t''], pl_partIds = []\<rparr>"

definition sample_sent :: "nat \<Rightarrow> invoice_row" where
  "sample_sent n = sample_draft
     \<lparr>inv_status := InvSent, inv_number := Some (formatInvoiceNumber ''INV'' 2026 n), inv_issueDate := Some ''2026-01-31'',
      inv_dueDate := Some ''2026-03-02'', inv_billToName := Some ''Org'', inv_billToTaxExempt := True\<rparr>"

definition sample_sold :: "nat \<Rightarrow> invoice_db \<Rightarrow> invoice_db" where
  "sample_sold n db = db\<lparr>vd_times := [(''t'', sample_entry\<lparr>te_billingStatus := SbBilled\<rparr>)],
     vd_sequences := (vd_sequences db)((''p'', 2026) \<mapsto> n)\<rparr>"

lemma sample_check:
  assumes "vd_invoices db i = Some sample_draft" and "lines_of db i = [(k, sample_line i)]"
  shows "issue_check i sample_actor db = Inr sample_plan"
  using assms by (simp add: issue_check_def access_defs sample_plan_def source_ids_def map_filter_simps sample_defs)

lemma sample_write:
  assumes "vd_invoices db i = Some sample_draft" and "lines_of db i = [(k, sample_line i)]" and "vd_orgs db = vd_orgs sample_tables"
    and "vd_partners db = vd_partners sample_tables" and "vd_times db = [(''t'', e)]" and "e\<lparr>te_billingStatus := SbBilled\<rparr> = sample_entry\<lparr>te_billingStatus := SbBilled\<rparr>"
    and "vd_parts db = []" and "last_number db ''p'' 2026 = n"
  shows "issue_write i sample_plan ''2026-01-31'' db = Inr (sample_sold (Suc n) (set_invoice i (sample_sent (Suc n)) db))"
  using assms
  by (simp add: issue_write_def sample_plan_def sample_sold_def sample_sent_def sample_defs allocate_number_def last_number_def resolveEffectiveTaxRate_def
    invoice_totals_lines_def totals_line_of_def set_parts_def set_times_def update_invoice_def issued_row_def set_invoice_def nullish_def Let_def)

end
