(* ===== verification/Invoice_Runs.thy ===== *)
theory Invoice_Runs
  imports Invoice_Issue Invoice_Samples
begin

text \<open>
  Every operation of the invoice service as a step relation, and what holds in every state the steps reach.
\<close>

section \<open>Steps\<close>

inductive invoice_step :: "invoice_db \<Rightarrow> invoice_db \<Rightarrow> bool" where
  create: "createManualInvoice i org site notes terms actor db = Inr db' \<Longrightarrow> invoice_step db db'"
| assemble_org: "assembleDraftFromOrg i ks org site fromDay toDay actor db = Inr db' \<Longrightarrow> invoice_step db db'"
| assemble_ticket: "assembleDraftFromTicket i ks ticket actor db = Inr db' \<Longrightarrow> invoice_step db db'"
| manual_line: "addManualLine i k mline actor db = Inr db' \<Longrightarrow> invoice_step db db'"
| catalog_line: "addCatalogLine i k item qty actor db = Inr db' \<Longrightarrow> invoice_step db db'"
| bundle_line: "addBundleLine i k ks item qty actor db = Inr db' \<Longrightarrow> invoice_step db db'"
| contract_line: "addContractLine i k cline actor db = Inr db' \<Longrightarrow> invoice_step db db'"
| change_line: "updateLine i k lpatch actor db = Inr db' \<Longrightarrow> invoice_step db db'"
| remove_line: "removeLine i k actor db = Inr db' \<Longrightarrow> invoice_step db db'"
| change: "updateInvoice i ipatch actor db = Inr db' \<Longrightarrow> invoice_step db db'"
| delete: "deleteDraftInvoice i actor db = Inr db' \<Longrightarrow> invoice_step db db'"
| issue: "issueInvoice i actor today db = Inr db' \<Longrightarrow> 0 \<le> year_of today \<Longrightarrow> invoice_step db db'"
| pay: "recordPayment i k input actor now db = Inr db' \<Longrightarrow> js_Number (py_amount input) = Some (fl (of_int a / 100)) \<Longrightarrow>
    0 < a \<Longrightarrow> a < 10 ^ 12 \<Longrightarrow> invoice_step db db'"
| unpay: "voidPayment k actor now db = Inr db' \<Longrightarrow> invoice_step db db'"
| due_date: "updateIssuedDueDate i due actor now db = Inr db' \<Longrightarrow> invoice_step db db'"
| void: "void_transaction i reason reissue newLine actor now db = Inr db' \<Longrightarrow> invoice_step db db'"
| retotal: "recomputeInvoiceTotals i None db = Inr db' \<Longrightarrow> invoice_step db db'"
| sweep: "invoice_step db (runOverdueSweep ids today now db)"
| viewed: "markViewed i orgOpt now db = Inr db' \<Longrightarrow> invoice_step db db'"
| new_time: "t \<noteq> [] \<Longrightarrow> t \<notin> fst ` set (vd_times db) \<Longrightarrow> invoice_step db (db\<lparr>vd_times := vd_times db @ [(t, entry)]\<rparr>)"
| new_part: "t \<noteq> [] \<Longrightarrow> t \<notin> fst ` set (vd_parts db) \<Longrightarrow> invoice_step db (db\<lparr>vd_parts := vd_parts db @ [(t, part)]\<rparr>)"
| edit_time: "map (apsnd te_billingStatus) timeRows = map (apsnd te_billingStatus) (vd_times db) \<Longrightarrow> invoice_step db (db\<lparr>vd_times := timeRows\<rparr>)"
| edit_part: "map (apsnd tp_billingStatus) partRows = map (apsnd tp_billingStatus) (vd_parts db) \<Longrightarrow> invoice_step db (db\<lparr>vd_parts := partRows\<rparr>)"
| settings: "invoice_step db (db\<lparr>vd_orgs := orgs, vd_partners := partners, vd_ticketOrgs := tickets, vd_items := items, vd_orgPrices := prices,
    vd_components := comps\<rparr>)"
| accept: "accept_invoice i ks quote ls u today db = Inr db' \<Longrightarrow> 0 \<le> year_of today \<Longrightarrow> invoice_step db db'"
| partner_settings: "updatePartnerBillingSettings ppatch actor db = Inr db' \<Longrightarrow> invoice_step db db'"
| org_settings: "updateOrgBillingSettings org opatch actor db = Inr db' \<Longrightarrow> invoice_step db db'"

lemma same_tables:
  assumes inv: "invoice_inv db" and db': "vd_invoices db' = vd_invoices db" "vd_lines db' = vd_lines db" "vd_payments db' = vd_payments db"
    "vd_sequences db' = vd_sequences db" and src: "sources_ok SrcTimeEntry db'" "sources_ok SrcPart db'"
  shows "sound db db'"
proof -
  have "numbers_ok db'" using inv numbers_same [OF db'(1,4)] by (simp add: invoice_inv_def)
  moreover have "payments_of db' j = payments_of db j" for j by (simp add: payments_of_def db')
  ultimately show ?thesis using inv src unfolding sound_def invoice_inv_def by (simp add: db' keeps_issued_def frozen_row_def lines_of_def)
qed

lemma sources_grow:
  assumes ok: "sources_ok src db" and lines: "vd_lines db' = vd_lines db" and live: "live_at db' = live_at db"
    and rows: "source_rows src db' = source_rows src db @ [(t, b)]" and t: "t \<noteq> []" "t \<notin> source_keys src db"
  shows "sources_ok src db'"
proof -
  have b: "billed_sources src db' = billed_sources src db" using lines by (simp add: fun_eq_iff billed_sources_def lines_of_def)
  have k: "source_keys src db' = insert t (source_keys src db)" by (simp add: source_keys_def rows)
  have "source_status src db' s = source_status src db s" if "s \<in> set (billed_sources src db j)" for s j
    using source_in_keys [OF ok that] t(2) by (auto simp: source_status_def rows map_add_def source_keys_def split: option.splits)
  then show ?thesis using ok t unfolding sources_ok_def b k lines live rows by (auto simp: source_keys_def)
qed

lemma settings_sound:
  assumes inv: "invoice_inv db" and db': "vd_invoices db' = vd_invoices db" "vd_lines db' = vd_lines db" "vd_payments db' = vd_payments db"
    "vd_sequences db' = vd_sequences db" and src: "vd_times db' = vd_times db" "vd_parts db' = vd_parts db"
  shows "sound db db'"
proof -
  have ok: "sources_ok SrcTimeEntry db" "sources_ok SrcPart db" using inv by (simp_all add: invoice_inv_def)
  have live: "live_at db' = live_at db" by (simp add: db' fun_eq_iff live_at_def)
  show ?thesis
    by (intro same_tables [OF inv db'] sources_same_live [OF ok(1) live] sources_same_live [OF ok(2) live]) (simp_all add: db' src source_rows_def)
qed

lemma step_sound:
  assumes "invoice_step db db'" and inv: "invoice_inv db"
  shows "sound db db'"
  using assms(1)
proof cases
  case (new_time t entry)
  have ok: "sources_ok SrcTimeEntry db" "sources_ok SrcPart db" using inv by (simp_all add: invoice_inv_def)
  have live: "live_at db' = live_at db" by (simp add: new_time fun_eq_iff live_at_def)
  have "sources_ok SrcTimeEntry db'"
    by (rule sources_grow [OF ok(1) _ live]) (use new_time in \<open>simp_all add: source_rows_def source_keys_def image_image\<close>)
  moreover have "sources_ok SrcPart db'"
    by (rule sources_same_live [OF ok(2) live]) (simp_all add: new_time source_rows_def)
  ultimately show ?thesis by (intro same_tables [OF inv]) (simp_all add: new_time)
next
  case (new_part t part)
  have ok: "sources_ok SrcTimeEntry db" "sources_ok SrcPart db" using inv by (simp_all add: invoice_inv_def)
  have live: "live_at db' = live_at db" by (simp add: new_part fun_eq_iff live_at_def)
  have "sources_ok SrcPart db'"
    by (rule sources_grow [OF ok(2) _ live]) (use new_part in \<open>simp_all add: source_rows_def source_keys_def image_image\<close>)
  moreover have "sources_ok SrcTimeEntry db'"
    by (rule sources_same_live [OF ok(1) live]) (simp_all add: new_part source_rows_def)
  ultimately show ?thesis by (intro same_tables [OF inv]) (simp_all add: new_part)
next
  case (edit_time timeRows)
  have ok: "sources_ok SrcTimeEntry db" "sources_ok SrcPart db" using inv by (simp_all add: invoice_inv_def)
  have live: "live_at db' = live_at db" by (simp add: edit_time fun_eq_iff live_at_def)
  show ?thesis
    by (intro same_tables [OF inv] sources_same_live [OF ok(1) live] sources_same_live [OF ok(2) live]) (simp_all add: edit_time source_rows_def)
next
  case (edit_part partRows)
  have ok: "sources_ok SrcTimeEntry db" "sources_ok SrcPart db" using inv by (simp_all add: invoice_inv_def)
  have live: "live_at db' = live_at db" by (simp add: edit_part fun_eq_iff live_at_def)
  show ?thesis
    by (intro same_tables [OF inv] sources_same_live [OF ok(1) live] sources_same_live [OF ok(2) live]) (simp_all add: edit_part source_rows_def)
next
  case (settings orgs partners tickets items prices comps)
  then show ?thesis by (intro settings_sound [OF inv]) simp_all
next
  case (partner_settings ppatch actor)
  then show ?thesis
    by (intro settings_sound [OF inv]) (auto simp: updatePartnerBillingSettings_def and_then_Inr split: option.splits)
next
  case (org_settings org opatch actor)
  then show ?thesis
    by (intro settings_sound [OF inv]) (auto simp: updateOrgBillingSettings_def and_then_Inr split: option.splits)
qed (auto intro: sound_createManualInvoice sound_assembly sound_line_handlers sound_addBundleLine sound_updateLine sound_removeLine
    sound_updateInvoice sound_deleteDraftInvoice sound_issue sound_accept_invoice sound_recordPayment sound_voidPayment sound_updateIssuedDueDate sound_void
    sound_recompute_totals sound_sweep sound_markViewed inv)

interpretation invoices: step_invariant invoice_step invoice_inv
  using step_sound by unfold_locales (auto simp: sound_def)

text \<open>Tables without invoices.\<close>

definition no_invoices :: "invoice_db \<Rightarrow> bool" where
  "no_invoices db \<longleftrightarrow> vd_invoices db = (\<lambda>_. None) \<and> vd_lines db = [] \<and> vd_payments db = [] \<and> vd_times db = [] \<and> vd_parts db = []
     \<and> vd_sequences db = (\<lambda>_. None)"

lemma no_invoices_inv: "no_invoices db \<Longrightarrow> invoice_inv db"
  by (auto simp: no_invoices_def invoice_inv_def sources_ok_def source_rows_def source_keys_def billed_sources_def lines_of_def numbers_ok_def
      last_number_def parents_ok_def live_at_def)

lemma runs_keep_issued:
  assumes "invoice_step\<^sup>*\<^sup>* db db'" and "invoice_inv db"
  shows "sound db db'"
  using assms
proof (induction rule: rtranclp_induct)
  case base
  then show ?case by (simp add: sound_def)
next
  case (step b c)
  from step.IH [OF step.prems] have s: "sound db b" .
  show ?case using sound_trans [OF s step_sound [OF step.hyps(2) soundD [OF s]]] .
qed

section \<open>A sample run\<close>

definition sample_issued :: invoice_db where
  "sample_issued = sample_sold 1 (set_invoice ''i'' (sample_sent 1) sample_drafted)"

lemma sample_drafted_fields:
  "vd_invoices sample_drafted ''i'' = Some sample_draft" "vd_invoices sample_drafted ''j'' = Some sample_draft"
  "lines_of sample_drafted ''i'' = [(''k'', sample_line ''i'')]" "lines_of sample_drafted ''j'' = [(''l'', sample_line ''j'')]"
  "vd_orgs sample_drafted = vd_orgs sample_tables" "vd_partners sample_drafted = vd_partners sample_tables"
  "vd_times sample_drafted = [(''t'', sample_entry)]" "vd_parts sample_drafted = []" "last_number sample_drafted ''p'' 2026 = 0"
  by (simp_all add: sample_drafted_def sample_worked_def sample_tables_def set_invoice_def lines_of_def sample_line_def line_spec_def last_number_def)

lemma sample_issued_fields:
  "vd_invoices sample_issued ''i'' = Some (sample_sent 1)" "vd_invoices sample_issued ''j'' = Some sample_draft"
  "lines_of sample_issued ''i'' = [(''k'', sample_line ''i'')]" "lines_of sample_issued ''j'' = [(''l'', sample_line ''j'')]"
  "vd_orgs sample_issued = vd_orgs sample_tables" "vd_partners sample_issued = vd_partners sample_tables"
  "vd_times sample_issued = [(''t'', sample_entry\<lparr>te_billingStatus := SbBilled\<rparr>)]" "vd_parts sample_issued = []" "vd_payments sample_issued = []"
  "last_number sample_issued ''p'' 2026 = 1"
  using sample_drafted_fields
  by (simp_all add: sample_issued_def sample_sold_def set_invoice_def lines_of_def last_number_def sample_drafted_def sample_worked_def sample_tables_def)

lemma sample_guard: "issue_guard sample_plan sample_drafted = Inr ()" "issue_guard sample_plan sample_issued = Inl (SOURCE_ALREADY_BILLED [''t''])"
  by (simp_all add: issue_guard_def sample_plan_def already_billed_def ensure_def sample_drafted_fields sample_issued_fields sample_entry_def)

lemma sample_issue: "issueInvoice ''i'' sample_actor ''2026-01-31'' sample_drafted = Inr sample_issued"
  using sample_check [OF sample_drafted_fields(1,3)] sample_guard(1) sample_drafted_fields
  by (simp add: issueInvoice_def issue_commit_def sample_write sample_issued_def)

lemma sample_drafted_reached: "invoice_step\<^sup>*\<^sup>* sample_tables sample_drafted"
proof -
  have "invoice_step sample_tables sample_worked"
    unfolding sample_worked_def by (rule invoice_step.new_time) (simp_all add: sample_tables_def)
  moreover define one where "one = set_invoice ''i'' sample_draft (sample_worked\<lparr>vd_lines := [(''k'', sample_line ''i'')]\<rparr>)"
  have "assemble_sample ''i'' ''k'' sample_worked = Inr one"
    using sample_assembled [of sample_worked "''i''" "''k''"] by (simp add: one_def sample_worked_def sample_tables_def lines_of_def)
  then have "invoice_step sample_worked one" unfolding assemble_sample_def by (rule invoice_step.assemble_org)
  moreover have "assemble_sample ''j'' ''l'' one = Inr sample_drafted"
    using sample_assembled [of one "''j''" "''l''"]
    by (simp add: one_def sample_worked_def sample_tables_def lines_of_def sample_drafted_def set_invoice_def sample_line_def line_spec_def)
  then have "invoice_step one sample_drafted" unfolding assemble_sample_def by (rule invoice_step.assemble_org)
  ultimately show ?thesis by (meson converse_rtranclp_into_rtranclp rtranclp.rtrancl_refl)
qed

lemma invoice_run: "invoice_step\<^sup>*\<^sup>* sample_tables sample_issued" "no_invoices sample_tables"
proof -
  have "invoice_step sample_drafted sample_issued"
    by (rule invoice_step.issue [OF sample_issue]) (simp add: sample_numbers)
  with sample_drafted_reached show "invoice_step\<^sup>*\<^sup>* sample_tables sample_issued" by (rule rtranclp.rtrancl_into_rtrancl)
  show "no_invoices sample_tables" by (simp add: no_invoices_def sample_tables_def)
qed

section \<open>What holds of every reachable state\<close>

lemma reached_inv: "no_invoices db0 \<Longrightarrow> invoice_step\<^sup>*\<^sup>* db0 db \<Longrightarrow> invoice_inv db"
  using runs_keep_issued no_invoices_inv soundD by blast

lemma line_source_id:
  assumes "sources_ok src db" and "(k, l) \<in> set (vd_lines db)" and "il_sourceType l = src"
  obtains t where "il_sourceId l = Some t" and "t \<noteq> []" and "source_of src l = Some t"
proof -
  have "\<forall>(k, l) \<in> set (vd_lines db). il_sourceType l = src \<longrightarrow> (\<exists>t \<in> source_keys src db. il_sourceId l = Some t)"
    using assms(1) unfolding sources_ok_def by (elim conjE)
  with assms(2,3) obtain t where t: "il_sourceId l = Some t" "t \<in> source_keys src db" by blast
  have "[] \<notin> source_keys src db" using assms(1) unfolding sources_ok_def by (elim conjE)
  with t have "t \<noteq> []" by metis
  with t(1) assms(3) show thesis by (intro that) (simp_all add: source_of_def str_or_none_def)
qed

text \<open>Entries of a list that a partial function maps to one value are one entry when its values are distinct.\<close>

lemma map_filter_unique:
  assumes "distinct (List.map_filter f xs)" and "distinct xs" and "x \<in> set xs" and "y \<in> set xs" and "f x = Some t" and "f y = Some t"
  shows "x = y"
  using assms
proof (induction xs)
  case Nil
  then show ?case by simp
next
  case (Cons a xs)
  have mem: "z \<in> set xs \<Longrightarrow> f z = Some t \<Longrightarrow> t \<in> set (List.map_filter f xs)" for z by (force simp: map_filter_def)
  have d: "distinct (List.map_filter f xs)" using Cons.prems(1) by (simp add: map_filter_simps split: option.splits)
  have no: "f a = Some t \<Longrightarrow> t \<notin> set (List.map_filter f xs)" using Cons.prems(1) by (simp add: map_filter_simps)
  show ?case using Cons.IH [OF d] Cons.prems mem no by (simp) (metis)
qed

lemma one_line_per_source:
  assumes inv: "invoice_inv db" and src: "src \<in> {SrcTimeEntry, SrcPart}"
    and l: "(k, l) \<in> set (vd_lines db)" "il_sourceType l = src" and l': "(k', l') \<in> set (vd_lines db)" "il_sourceType l' = src"
    and same: "il_sourceId l' = il_sourceId l" and live: "live_at db (il_invoiceId l)" "live_at db (il_invoiceId l')"
  shows "(k', l') = (k, l)" and "\<exists>t. il_sourceId l = Some t \<and> source_status src db t \<noteq> Some SbNotBilled"
proof -
  have ok: "sources_ok src db" using inv src by (auto simp: invoice_inv_def)
  obtain t where t: "il_sourceId l = Some t" "source_of src l = Some t" using line_source_id [OF ok l] .
  obtain t' where "il_sourceId l' = Some t'" "source_of src l' = Some t'" using line_source_id [OF ok l'] .
  with same t have t': "source_of src l' = Some t" by simp
  have on: "t \<in> set (billed_sources src db (il_invoiceId l))" "t \<in> set (billed_sources src db (il_invoiceId l'))"
    using l(1) l'(1) t(2) t' by (force simp: billed_sources_def lines_of_def set_source_ids)+
  then have same_inv: "il_invoiceId l' = il_invoiceId l" using live_disjoint [OF ok _ live] by (metis disjoint_iff)
  have "\<forall>i. distinct (billed_sources src db i)" using ok unfolding sources_ok_def by (elim conjE)
  then have d: "distinct (source_ids src (lines_of db (il_invoiceId l)))" by (simp add: billed_sources_def)
  have dl: "distinct (lines_of db (il_invoiceId l))" using inv by (simp add: invoice_inv_def lines_of_def distinct_map)
  show "(k', l') = (k, l)"
    by (rule map_filter_unique [OF d [unfolded source_ids_def] dl])
      (use l(1) l'(1) same_inv t t' in \<open>simp_all add: lines_of_def source_of_def\<close>)
  show "\<exists>t. il_sourceId l = Some t \<and> source_status src db t \<noteq> Some SbNotBilled" using t(1) live_status [OF ok live(1) on(1)] by blast
qed

text \<open>C5: nothing is billed twice. In every state the operations of the invoice service reach from tables without invoices, two
  lines of issued invoices that are not void and that bill one time entry or one part are the same line of the same invoice,
  and what such a line bills is not marked as free to bill. New time entries and parts may come in at any time, and be edited
  in everything but their billing status.
\<close>

theorem no_double_billing:
  assumes "no_invoices db0" and "invoice_step\<^sup>*\<^sup>* db0 db" and "src \<in> {SrcTimeEntry, SrcPart}"
    and "(k, l) \<in> set (vd_lines db)" and "il_sourceType l = src" and "live_at db (il_invoiceId l)"
    and "(k', l') \<in> set (vd_lines db)" and "il_sourceType l' = src" and "live_at db (il_invoiceId l')"
    and "il_sourceId l' = il_sourceId l"
  shows "k' = k \<and> l' = l \<and> (\<exists>t. il_sourceId l = Some t \<and> source_status src db t \<noteq> Some SbNotBilled)"
  using one_line_per_source [OF reached_inv [OF assms(1,2)] assms(3-5,7,8,10,6,9)] by blast

theorem no_double_billing_witness:
  "live_at sample_issued ''i'' \<and> source_status SrcTimeEntry sample_issued ''t'' \<noteq> Some SbNotBilled"
proof
  show live: "live_at sample_issued ''i''"
    by (simp add: live_at_def sample_issued_fields sample_sent_def sample_draft_def blank_invoice_def)
  have "(''k'', sample_line ''i'') \<in> set (lines_of sample_issued ''i'')" by (simp add: sample_issued_fields)
  then have line: "(''k'', sample_line ''i'') \<in> set (vd_lines sample_issued)" by (simp add: lines_of_def)
  show "source_status SrcTimeEntry sample_issued ''t'' \<noteq> Some SbNotBilled"
    using no_double_billing [OF invoice_run(2,1) _ line _ _ line, of SrcTimeEntry] live by (simp add: sample_line_def line_spec_def)
qed

text \<open>C7: invoice numbers have no gaps and no duplicates. In every reachable state, for every partner and year, exactly one
  invoice of the partner carries each number from 1 to the last number given out, and none carries a later one; void invoices
  keep theirs.
\<close>

theorem invoice_numbers_gapless:
  assumes "no_invoices db0" and "invoice_step\<^sup>*\<^sup>* db0 db" and "0 \<le> y"
  shows "\<exists>i. {j. \<exists>v. vd_invoices db j = Some v \<and> inv_partnerId v = p \<and> numbered v y n}
           = (if 1 \<le> n \<and> n \<le> last_number db p y then {i} else {})"
proof (cases "1 \<le> n \<and> n \<le> last_number db p y")
  have ok: "numbers_ok db" using reached_inv [OF assms(1,2)] by (simp add: invoice_inv_def)
  {
    case True
    then obtain i v where v: "vd_invoices db i = Some v" "inv_partnerId v = p" "numbered v y n"
      using numbers_gapless [OF ok assms(3)] by metis
    have "j = i" if "vd_invoices db j = Some w" "inv_partnerId w = p" "numbered w y n" for j w
      by (rule numbers_unique [OF ok that(1) v(1) _ assms(3) that(3) v(3)]) (simp add: that(2) v(2))
    with v True show ?thesis by auto
  next
    case False
    have "1 \<le> n \<and> n \<le> last_number db p y" if v: "vd_invoices db j = Some v" "inv_partnerId v = p" "numbered v y n" for j v
    proof -
      have "inv_number v \<noteq> None" using v(3) by (auto simp: numbered_def)
      with numbers_range [OF ok v(1)] obtain y' k
        where "0 \<le> y'" "numbered v y' k" "1 \<le> k" "k \<le> last_number db (inv_partnerId v) y'" by metis
      with numbered_unique [OF v(3) _ assms(3)] v(2) show ?thesis by blast
    qed
    with False show ?thesis by auto
  }
qed

theorem invoice_numbers_gapless_witness:
  "\<exists>i. {j. \<exists>v. vd_invoices sample_issued j = Some v \<and> inv_partnerId v = ''p'' \<and> numbered v 2026 1} = {i}"
  using invoice_numbers_gapless [OF invoice_run(2,1), of 2026 "''p''" 1] by (simp add: sample_issued_fields)

text \<open>C8: an issued invoice is not rewritten. Whatever sequence of operations follows, void and reissue included, the invoice
  stays, with its number, its partner and organization, its tax rate, subtotal, tax and total, and with exactly its lines.
\<close>

theorem issued_invoice_frozen:
  assumes "no_invoices db0" and "invoice_step\<^sup>*\<^sup>* db0 db" and "invoice_step\<^sup>*\<^sup>* db db'"
    and "vd_invoices db i = Some v" and "inv_number v \<noteq> None"
  shows "\<exists>w. vd_invoices db' i = Some w \<and> lines_of db' i = lines_of db i \<and> inv_number w = inv_number v
           \<and> inv_partnerId w = inv_partnerId v \<and> inv_orgId w = inv_orgId v \<and> inv_taxRate w = inv_taxRate v
           \<and> inv_subtotal w = inv_subtotal v \<and> inv_taxTotal w = inv_taxTotal v \<and> inv_total w = inv_total v"
proof -
  have "keeps_issued db db'" using runs_keep_issued [OF assms(3) reached_inv [OF assms(1,2)]] by (simp add: sound_def)
  with assms(4,5) show ?thesis unfolding keeps_issued_def frozen_row_def by blast
qed

definition sample_void :: invoice_db where
  "sample_void = projr (void_transaction ''i'' ''typo'' None id sample_actor 5 sample_issued)"

theorem issued_invoice_frozen_witness:
  "map_option inv_status (vd_invoices sample_void ''i'') = Some InvVoid \<and> lines_of sample_void ''i'' = [(''k'', sample_line ''i'')]
 \<and> map_option inv_total (vd_invoices sample_void ''i'') = Some ''1.00''"
proof -
  have v: "\<exists>d. void_transaction ''i'' ''typo'' None id sample_actor 5 sample_issued = Inr d \<and> map_option inv_status (vd_invoices d ''i'') = Some InvVoid"
    by (simp add: void_transaction_def access_defs sample_issued_fields sample_sent_def sample_draft_def blank_invoice_def sample_actor_def update_invoice_def
        set_parts_def set_times_def)
  then have "invoice_step sample_issued sample_void" unfolding sample_void_def by (auto intro: invoice_step.void)
  then have "invoice_step\<^sup>*\<^sup>* sample_issued sample_void" by (rule r_into_rtranclp)
  from issued_invoice_frozen [OF invoice_run(2,1) this sample_issued_fields(1)] v show ?thesis
    by (auto simp: sample_void_def sample_issued_fields sample_sent_def sample_draft_def blank_invoice_def)
qed

text \<open>Numbers of a payment of the sample invoice.\<close>

lemma sample_paid_numbers:
  "js_Number ''0.00'' = Some 0" "js_less (math_round (js_mul (Some 0) (Some 100))) (math_round (js_mul (Some 1) (Some 100)))"
  "js_le (js_sub (toCents (Some ''1.00'')) (toCents (Some ''1.00''))) (Some 0)"
  by code_simp+

end
