(* ===== verification/Quote_Ledger.thy ===== *)
theory Quote_Ledger
  imports Quotes Invoice_Runs Contract_Ledger
begin

text \<open>The invariant of the quote tables, what a quote keeps once it is sent, and the operations that change the status of a quote.\<close>

section \<open>The invariant\<close>

text \<open>What a line says to the customer: all of it but the block it is shown in.\<close>

definition content :: "quote_db \<Rightarrow> id \<Rightarrow> (id \<times> quote_item) list" where
  "content db i = map (apsnd (\<lambda>l. l\<lparr>qi_blockId := None\<rparr>)) (items_of db i)"

definition totals_at :: "quote_db \<Rightarrow> id \<Rightarrow> quote_row \<Rightarrow> bool" where
  "totals_at db i q \<longleftrightarrow> store_totals (quote_totals_of q (math_lines db i)) q = Inr q"

definition acceptances_of :: "quote_db \<Rightarrow> id \<Rightarrow> (id \<times> quote_acceptance) list" where
  "acceptances_of db i = filter (\<lambda>(k, a). qa_quoteId a = i) (qd_acceptances db)"

definition rows_ok :: "quote_db \<Rightarrow> bool" where
  "rows_ok db \<longleftrightarrow> distinct (map fst (qd_lines db)) \<and> distinct (map fst (qd_blocks db))
     \<and> list_all (\<lambda>(k, l). qi_parentLineId l = None \<and> qd_quotes db (qi_quoteId l) \<noteq> None) (qd_lines db)"

definition answer_ok :: "quote_db \<Rightarrow> id \<Rightarrow> quote_row \<Rightarrow> bool" where
  "answer_ok db i q \<longleftrightarrow>
     length (acceptances_of db i) = (if qr_status q = QConverted then 1 else 0)
     \<and> (case qr_convertedInvoiceId q of None \<Rightarrow> True | Some v \<Rightarrow> qr_status q = QConverted \<and> vd_invoices (qd_billing db) v \<noteq> None)"

definition links_unique :: "(id \<Rightarrow> quote_row option) \<Rightarrow> bool" where
  "links_unique qs \<longleftrightarrow> (\<forall>i j q r. qs i = Some q \<and> qs j = Some r \<and> qr_convertedInvoiceId q \<noteq> None
     \<and> qr_convertedInvoiceId q = qr_convertedInvoiceId r \<longrightarrow> i = j)"

definition quote_inv :: "quote_db \<Rightarrow> bool" where
  "quote_inv db \<longleftrightarrow>
     (\<forall>i q. qd_quotes db i = Some q \<longrightarrow> totals_at db i q \<and> answer_ok db i q)
     \<and> (\<forall>i. qd_quotes db i = None \<longrightarrow> acceptances_of db i = [])
     \<and> rows_ok db \<and> links_unique (qd_quotes db) \<and> invoice_inv (qd_billing db) \<and> billing_inv (qd_contracts db)"

text \<open>What a quote keeps once it is sent.\<close>

definition same_terms :: "quote_row \<Rightarrow> quote_row \<Rightarrow> bool" where
  "same_terms q r \<longleftrightarrow> qr_partnerId r = qr_partnerId q \<and> qr_orgId r = qr_orgId q \<and> qr_siteId r = qr_siteId q \<and> qr_quoteNumber r = qr_quoteNumber q
     \<and> qr_currencyCode r = qr_currencyCode q \<and> qr_issueDate r = qr_issueDate q \<and> qr_expiryDate r = qr_expiryDate q
     \<and> qr_taxRate r = qr_taxRate q \<and> qr_subtotal r = qr_subtotal q \<and> qr_taxTotal r = qr_taxTotal q \<and> qr_total r = qr_total q
     \<and> qr_oneTimeTotal r = qr_oneTimeTotal q \<and> qr_monthlyRecurringTotal r = qr_monthlyRecurringTotal q
     \<and> qr_annualRecurringTotal r = qr_annualRecurringTotal q \<and> qr_depositType r = qr_depositType q
     \<and> qr_depositPercent r = qr_depositPercent q \<and> qr_depositAmount r = qr_depositAmount q
     \<and> qr_billToName r = qr_billToName q \<and> qr_billToTaxId r = qr_billToTaxId q \<and> qr_terms r = qr_terms q
     \<and> qr_termsAndConditions r = qr_termsAndConditions q"

definition keeps_sent :: "quote_db \<Rightarrow> quote_db \<Rightarrow> bool" where
  "keeps_sent db db' \<longleftrightarrow>
     (\<forall>i q. qd_quotes db i = Some q \<and> qr_status q \<noteq> QDraft \<longrightarrow>
        (\<exists>r. qd_quotes db' i = Some r \<and> qr_status r \<noteq> QDraft \<and> same_terms q r \<and> content db' i = content db i \<and> blocks_of db' i = blocks_of db i
           \<and> (qr_status q = QConverted \<longrightarrow> qr_status r = QConverted)))"

definition quote_sound :: "quote_db \<Rightarrow> quote_db \<Rightarrow> bool" where
  "quote_sound db db' \<longleftrightarrow> quote_inv db' \<and> keeps_sent db db'"

lemma same_terms_refl [simp]: "same_terms q q"
  by (simp add: same_terms_def)

lemma same_terms_trans: "same_terms a b \<Longrightarrow> same_terms b c \<Longrightarrow> same_terms a c"
  by (simp add: same_terms_def)

lemma keeps_sent_refl [simp]: "keeps_sent db db"
  by (simp add: keeps_sent_def)

lemma keeps_sentD:
  assumes "keeps_sent db db'" and "qd_quotes db i = Some q" and "qr_status q \<noteq> QDraft"
  obtains r where "qd_quotes db' i = Some r" and "qr_status r \<noteq> QDraft" and "same_terms q r" and "content db' i = content db i"
    and "blocks_of db' i = blocks_of db i" and "qr_status q = QConverted \<longrightarrow> qr_status r = QConverted"
  using assms unfolding keeps_sent_def by blast

lemma keeps_sent_trans:
  assumes "keeps_sent a b" and "keeps_sent b c"
  shows "keeps_sent a c"
  unfolding keeps_sent_def
proof (intro allI impI, elim conjE)
  fix i q assume "qd_quotes a i = Some q" "qr_status q \<noteq> QDraft"
  from keeps_sentD [OF assms(1) this] obtain r where r: "qd_quotes b i = Some r" "qr_status r \<noteq> QDraft" "same_terms q r"
    "content b i = content a i" "blocks_of b i = blocks_of a i" "qr_status q = QConverted \<longrightarrow> qr_status r = QConverted" .
  from keeps_sentD [OF assms(2) r(1,2)] obtain s where s: "qd_quotes c i = Some s" "qr_status s \<noteq> QDraft" "same_terms r s"
    "content c i = content b i" "blocks_of c i = blocks_of b i" "qr_status r = QConverted \<longrightarrow> qr_status s = QConverted" .
  show "\<exists>r. qd_quotes c i = Some r \<and> qr_status r \<noteq> QDraft \<and> same_terms q r \<and> content c i = content a i \<and> blocks_of c i = blocks_of a i
      \<and> (qr_status q = QConverted \<longrightarrow> qr_status r = QConverted)"
    using r s same_terms_trans [OF r(3) s(3)] by (intro exI [of _ s]) simp
qed

lemma quote_sound_refl: "quote_inv db \<Longrightarrow> quote_sound db db"
  by (simp add: quote_sound_def)

lemma quote_sound_trans: "quote_sound a b \<Longrightarrow> quote_sound b c \<Longrightarrow> quote_sound a c"
  using keeps_sent_trans by (auto simp: quote_sound_def)

lemma quote_soundD: "quote_sound db db' \<Longrightarrow> quote_inv db'"
  by (simp add: quote_sound_def)

lemma math_content: "math_lines db i = map (math_line \<circ> snd) (content db i)"
  by (simp add: math_lines_def content_def math_line_def)

section \<open>Totals\<close>

lemma store_totals_cases:
  assumes "store_totals t q = Inr q'"
  shows "qr_taxRate q' = qr_taxRate q" "qr_depositType q' = qr_depositType q" "qr_depositPercent q' = qr_depositPercent q" "qr_status q' = qr_status q"
    "qr_convertedInvoiceId q' = qr_convertedInvoiceId q" "qr_partnerId q' = qr_partnerId q" "qr_orgId q' = qr_orgId q" "store_totals t q' = Inr q'"
  using assms by (auto simp: store_totals_def and_then_Inr)

lemma totals_of_cong: "qr_taxRate q' = qr_taxRate q \<Longrightarrow> qr_depositType q' = qr_depositType q \<Longrightarrow> qr_depositPercent q' = qr_depositPercent q \<Longrightarrow>
    quote_totals_of q' ls = quote_totals_of q ls"
  by (simp add: quote_totals_of_def)

lemma stored_totals_at:
  assumes "store_totals (quote_totals_of q (math_lines db i)) q = Inr q'" and "math_lines db' i = math_lines db i"
  shows "totals_at db' i q'"
  using store_totals_cases [OF assms(1)] assms(2) totals_of_cong [of q' q] by (simp add: totals_at_def)

text \<open>Totals depend on the rate, the deposit and the lines.\<close>

lemma store_totals_self:
  "store_totals t q = Inr q \<longleftrightarrow>
     on_database (numeric_column (qt_subtotal t)) = Inr (qr_subtotal q) \<and> on_database (numeric_column (qt_taxTotal t)) = Inr (qr_taxTotal q)
     \<and> on_database (numeric_column (qt_total t)) = Inr (qr_total q) \<and> on_database (numeric_column (qt_oneTimeTotal t)) = Inr (qr_oneTimeTotal q)
     \<and> on_database (numeric_column (qt_monthlyRecurringTotal t)) = Inr (qr_monthlyRecurringTotal q)
     \<and> on_database (numeric_column (qt_annualRecurringTotal t)) = Inr (qr_annualRecurringTotal q)
     \<and> on_database (numeric_column_opt (qt_depositDueTotal t)) = Inr (qr_depositAmount q)"
proof
  assume "store_totals t q = Inr q"
  then obtain a b c d e f g where eqs: "on_database (numeric_column (qt_subtotal t)) = Inr a" "on_database (numeric_column (qt_taxTotal t)) = Inr b"
      "on_database (numeric_column (qt_total t)) = Inr c" "on_database (numeric_column (qt_oneTimeTotal t)) = Inr d"
      "on_database (numeric_column (qt_monthlyRecurringTotal t)) = Inr e" "on_database (numeric_column (qt_annualRecurringTotal t)) = Inr f"
      "on_database (numeric_column_opt (qt_depositDueTotal t)) = Inr g"
    and q: "q\<lparr>qr_subtotal := a, qr_taxTotal := b, qr_total := c, qr_oneTimeTotal := d, qr_monthlyRecurringTotal := e, qr_annualRecurringTotal := f,
      qr_depositAmount := g\<rparr> = q"
    unfolding store_totals_def and_then_Inr by blast
  have "a = qr_subtotal q" "b = qr_taxTotal q" "c = qr_total q" "d = qr_oneTimeTotal q" "e = qr_monthlyRecurringTotal q" "f = qr_annualRecurringTotal q"
    "g = qr_depositAmount q"
    using arg_cong [OF q, of qr_subtotal] arg_cong [OF q, of qr_taxTotal] arg_cong [OF q, of qr_total] arg_cong [OF q, of qr_oneTimeTotal]
      arg_cong [OF q, of qr_monthlyRecurringTotal] arg_cong [OF q, of qr_annualRecurringTotal] arg_cong [OF q, of qr_depositAmount]
    by simp_all
  with eqs show "on_database (numeric_column (qt_subtotal t)) = Inr (qr_subtotal q) \<and> on_database (numeric_column (qt_taxTotal t)) = Inr (qr_taxTotal q)
     \<and> on_database (numeric_column (qt_total t)) = Inr (qr_total q) \<and> on_database (numeric_column (qt_oneTimeTotal t)) = Inr (qr_oneTimeTotal q)
     \<and> on_database (numeric_column (qt_monthlyRecurringTotal t)) = Inr (qr_monthlyRecurringTotal q)
     \<and> on_database (numeric_column (qt_annualRecurringTotal t)) = Inr (qr_annualRecurringTotal q)
     \<and> on_database (numeric_column_opt (qt_depositDueTotal t)) = Inr (qr_depositAmount q)" by simp
qed (simp add: store_totals_def)

definition same_figures :: "quote_row \<Rightarrow> quote_row \<Rightarrow> bool" where
  "same_figures q r \<longleftrightarrow> qr_taxRate r = qr_taxRate q \<and> qr_subtotal r = qr_subtotal q \<and> qr_taxTotal r = qr_taxTotal q \<and> qr_total r = qr_total q
     \<and> qr_oneTimeTotal r = qr_oneTimeTotal q \<and> qr_monthlyRecurringTotal r = qr_monthlyRecurringTotal q
     \<and> qr_annualRecurringTotal r = qr_annualRecurringTotal q \<and> qr_depositType r = qr_depositType q
     \<and> qr_depositPercent r = qr_depositPercent q \<and> qr_depositAmount r = qr_depositAmount q"

lemma totals_same:
  assumes "totals_at db i q" and "same_figures q r" and "math_lines db' i = math_lines db i"
  shows "totals_at db' i r"
  using assms totals_of_cong [of r q] by (simp add: totals_at_def same_figures_def store_totals_self)

section \<open>Frames\<close>

text \<open>A change of the row of one quote, which stays a draft or stays sent, and of the rows of that quote only.\<close>

definition row_change :: "id \<Rightarrow> quote_db \<Rightarrow> quote_db \<Rightarrow> bool" where
  "row_change i db db' \<longleftrightarrow> (\<exists>q r. qd_quotes db i = Some q \<and> qd_quotes db' = (qd_quotes db)(i \<mapsto> r)
     \<and> totals_at db' i r \<and> qr_convertedInvoiceId r = qr_convertedInvoiceId q \<and> (qr_status r = QConverted) = (qr_status q = QConverted)
     \<and> (qr_status q \<noteq> QDraft \<longrightarrow> qr_status r \<noteq> QDraft \<and> same_terms q r \<and> content db' i = content db i \<and> blocks_of db' i = blocks_of db i))
     \<and> (\<forall>j. j \<noteq> i \<longrightarrow> content db' j = content db j \<and> blocks_of db' j = blocks_of db j)
     \<and> qd_acceptances db' = qd_acceptances db \<and> qd_billing db' = qd_billing db \<and> qd_contracts db' = qd_contracts db \<and> rows_ok db'"

lemma inv_totals: "quote_inv db \<Longrightarrow> qd_quotes db i = Some q \<Longrightarrow> totals_at db i q"
  by (simp add: quote_inv_def)

lemma inv_answer: "quote_inv db \<Longrightarrow> qd_quotes db i = Some q \<Longrightarrow> answer_ok db i q"
  by (simp add: quote_inv_def)

lemma inv_rows: "quote_inv db \<Longrightarrow> rows_ok db"
  by (simp add: quote_inv_def)

lemma same_links:
  assumes "links_unique qs" and "\<And>j. map_option qr_convertedInvoiceId (ps j) = map_option qr_convertedInvoiceId (qs j)"
  shows "links_unique ps"
  unfolding links_unique_def
proof (intro allI impI, elim conjE)
  fix i j q r assume a: "ps i = Some q" "ps j = Some r" "qr_convertedInvoiceId q \<noteq> None" "qr_convertedInvoiceId q = qr_convertedInvoiceId r"
  obtain q' r' where b: "qs i = Some q'" "qs j = Some r'" "qr_convertedInvoiceId q' = qr_convertedInvoiceId q" "qr_convertedInvoiceId r' = qr_convertedInvoiceId r"
    using assms(2) [of i] assms(2) [of j] a(1,2) by (cases "qs i"; cases "qs j") auto
  with a assms(1) show "i = j" unfolding links_unique_def by metis
qed

lemma sound_row_change:
  assumes inv: "quote_inv db" and ch: "row_change i db db'"
  shows "quote_sound db db'"
proof -
  obtain q r where q: "qd_quotes db i = Some q" and qs: "qd_quotes db' = (qd_quotes db)(i \<mapsto> r)" and t: "totals_at db' i r"
    and conv: "qr_convertedInvoiceId r = qr_convertedInvoiceId q" "(qr_status r = QConverted) = (qr_status q = QConverted)"
    and sent: "qr_status q \<noteq> QDraft \<longrightarrow> qr_status r \<noteq> QDraft \<and> same_terms q r \<and> content db' i = content db i \<and> blocks_of db' i = blocks_of db i"
    using ch unfolding row_change_def by blast
  have other: "\<And>j. j \<noteq> i \<Longrightarrow> content db' j = content db j" "\<And>j. j \<noteq> i \<Longrightarrow> blocks_of db' j = blocks_of db j"
    and same: "qd_acceptances db' = qd_acceptances db" "qd_billing db' = qd_billing db" "qd_contracts db' = qd_contracts db" "rows_ok db'"
    using ch unfolding row_change_def by blast+
  have acc: "acceptances_of db' j = acceptances_of db j" for j by (simp add: acceptances_of_def same)
  have tot: "totals_at db' j p" if "qd_quotes db' j = Some p" for j p
    using that t inv_totals [OF inv, of j p] other(1) [of j] by (cases "j = i") (auto simp: qs totals_at_def math_content)
  have ans: "answer_ok db' j p" if "qd_quotes db' j = Some p" for j p
    using that inv_answer [OF inv, of j] q conv by (cases "j = i") (auto simp: qs answer_ok_def acc same split: option.splits)
  have "links_unique (qd_quotes db')"
    by (rule same_links [of "qd_quotes db"]) (use inv q conv in \<open>simp_all add: quote_inv_def qs\<close>)
  then have "quote_inv db'" using inv tot ans same unfolding quote_inv_def by (simp add: qs acc split: if_splits)
  moreover have "keeps_sent db db'"
    unfolding keeps_sent_def
  proof (intro allI impI, elim conjE)
    fix j p assume "qd_quotes db j = Some p" "qr_status p \<noteq> QDraft"
    then show "\<exists>r. qd_quotes db' j = Some r \<and> qr_status r \<noteq> QDraft \<and> same_terms p r \<and> content db' j = content db j
        \<and> blocks_of db' j = blocks_of db j \<and> (qr_status p = QConverted \<longrightarrow> qr_status r = QConverted)"
      using sent q conv other [of j] by (cases "j = i") (auto simp: qs)
  qed
  ultimately show ?thesis by (simp add: quote_sound_def)
qed

section \<open>Changes of the status\<close>

definition status_ok :: "quote_row \<Rightarrow> quote_row \<Rightarrow> bool" where
  "status_ok q r \<longleftrightarrow> same_figures q r \<and> qr_convertedInvoiceId r = qr_convertedInvoiceId q
     \<and> (qr_status r = QConverted) = (qr_status q = QConverted) \<and> (qr_status q \<noteq> QDraft \<longrightarrow> qr_status r \<noteq> QDraft \<and> same_terms q r)"

text \<open>The tables but those of the quotes, the recipients and the counters.\<close>

definition same_rows :: "quote_db \<Rightarrow> quote_db \<Rightarrow> bool" where
  "same_rows db db' \<longleftrightarrow> qd_lines db' = qd_lines db \<and> qd_blocks db' = qd_blocks db \<and> qd_acceptances db' = qd_acceptances db
     \<and> qd_billing db' = qd_billing db \<and> qd_contracts db' = qd_contracts db"

lemma same_rows_views:
  assumes "same_rows db db'"
  shows "content db' j = content db j" "blocks_of db' j = blocks_of db j" "math_lines db' j = math_lines db j" "items_of db' j = items_of db j"
  using assms by (simp_all add: same_rows_def content_def blocks_of_def math_lines_def items_of_def)

lemma rows_ok_upd:
  assumes "rows_ok db" and "qd_lines db' = qd_lines db" "qd_blocks db' = qd_blocks db" and "qd_quotes db' = (qd_quotes db)(i \<mapsto> r)"
  shows "rows_ok db'"
  using assms by (auto simp: rows_ok_def list_all_iff)

lemma sound_status:
  assumes inv: "quote_inv db" and q: "qd_quotes db i = Some q" and r: "status_ok q r" and same: "same_rows db db'"
    and db': "qd_quotes db' = (qd_quotes db)(i \<mapsto> r)"
  shows "quote_sound db db'"
proof (rule sound_row_change [OF inv, of i])
  have "totals_at db' i r"
    using totals_same [OF inv_totals [OF inv q]] r same_rows_views [OF same] by (simp add: status_ok_def)
  moreover have "rows_ok db'" using rows_ok_upd [OF inv_rows [OF inv] _ _ db'] same by (simp add: same_rows_def)
  ultimately show "row_change i db db'"
    using q r same same_rows_views [OF same] unfolding row_change_def status_ok_def same_rows_def by (intro conjI exI [of _ q] exI [of _ r]) (simp_all add: db')
qed

lemma sound_same_rows:
  assumes inv: "quote_inv db" and same: "same_rows db db'" and db': "qd_quotes db' = qd_quotes db"
  shows "quote_sound db db'"
proof -
  have "rows_ok db'" using inv_rows [OF inv] same by (simp add: rows_ok_def same_rows_def db')
  moreover have "acceptances_of db' = acceptances_of db" using same by (simp add: fun_eq_iff acceptances_of_def same_rows_def)
  ultimately show ?thesis
    using inv same same_rows_views [OF same]
    unfolding quote_sound_def quote_inv_def keeps_sent_def by (simp add: db' totals_at_def answer_ok_def same_rows_def cong: option.case_cong)
qed

lemma status_okI:
  assumes "same_figures q r" and "qr_convertedInvoiceId r = qr_convertedInvoiceId q" and "(qr_status r = QConverted) = (qr_status q = QConverted)"
    and "qr_status q \<noteq> QDraft \<Longrightarrow> qr_status r \<noteq> QDraft \<and> same_terms q r"
  shows "status_ok q r"
  using assms by (simp add: status_ok_def)

lemma update_quote_same: "same_rows db (snd (update_quote i P f db))"
  by (simp add: update_quote_def same_rows_def set_quote_def split: option.split)

lemma sound_update:
  assumes inv: "quote_inv db" and ok: "\<And>q. qd_quotes db i = Some q \<Longrightarrow> P q \<Longrightarrow> status_ok q (f q)"
  shows "quote_sound db (snd (update_quote i P f db))"
proof (cases "\<exists>q. qd_quotes db i = Some q \<and> P q")
  case True
  then obtain q where q: "qd_quotes db i = Some q" "P q" by blast
  then show ?thesis
    by (intro sound_status [OF inv q(1) ok [OF q] update_quote_same]) (simp add: update_quote_def set_quote_def)
next
  case False
  then have "snd (update_quote i P f db) = db" by (auto simp: update_quote_def split: option.splits)
  then show ?thesis using quote_sound_refl [OF inv] by simp
qed

lemmas row_defs = same_figures_def same_terms_def open_for_answer_def

lemma getQuote_row: "getQuote i actor db = Inr q \<Longrightarrow> qd_quotes db i = Some q"
  by (auto simp: getQuote_def and_then_Inr split: option.splits)

lemma loadDraft_row: "loadDraft i actor db = Inr q \<Longrightarrow> qd_quotes db i = Some q \<and> qr_status q = QDraft"
  by (auto simp: loadDraft_def and_then_Inr ensure_Inr dest: getQuote_row)

lemma sound_markQuoteViewed:
  assumes "quote_inv db"
  shows "quote_sound db (markQuoteViewed i orgId now db)"
proof (cases "view_read i orgId db")
  case (Some q)
  then have "qd_quotes db i = Some q" by (auto simp: view_read_def split: option.splits if_splits)
  then show ?thesis
    using assms Some by (auto simp: markQuoteViewed_def view_write_def intro!: sound_update status_okI) (auto simp: row_defs split: if_splits)
qed (use assms in \<open>simp add: markQuoteViewed_def quote_sound_refl\<close>)

lemma sound_declineQuoteByActor:
  assumes inv: "quote_inv db" and op: "declineQuoteByActor i reason actor today db = Inr db'"
  shows "quote_sound db db'"
proof -
  obtain q where "getQuote i actor db = Inr q" "open_for_answer q" and db': "db' = decline_write i reason db"
    using op by (auto simp: declineQuoteByActor_def decline_check_def and_then_Inr ensure_Inr)
  then have "qd_quotes db i = Some q" "open_for_answer q" using getQuote_row by blast+
  then show ?thesis unfolding db' decline_write_def by (intro sound_update [OF inv] status_okI) (auto simp: row_defs)
qed

lemma sound_declinePublic:
  assumes inv: "quote_inv db" and op: "declinePublic i orgId jti reason today now db = Inr db'"
  shows "quote_sound db db'"
proof -
  have db': "db' = snd (update_quote i (\<lambda>x. open_for_answer x \<and> qr_publicResponseConsumedAt x = None)
      (\<lambda>x. x\<lparr>qr_status := QDeclined, qr_declineReason := reason, qr_publicResponseJti := Some jti, qr_publicResponseConsumedAt := Some now\<rparr>) db)"
    using op by (auto simp: declinePublic_def and_then_Inr Let_def split: option.splits if_splits prod.splits)
  show ?thesis unfolding db' by (intro sound_update [OF inv] status_okI) (auto simp: row_defs)
qed

lemma sound_expireQuotes:
  assumes "quote_inv db"
  shows "quote_sound db (expireQuotes ids today db)"
proof -
  define expire where "expire = (\<lambda>d i. snd (update_quote i open_for_answer (\<lambda>x. x\<lparr>qr_status := QExpired\<rparr>) d))"
  have one: "quote_sound d (expire d i)" if "quote_inv d" for d i
    unfolding expire_def by (intro sound_update [OF that] status_okI) (auto simp: row_defs)
  have "quote_sound d (foldl expire d js)" if "quote_inv d" for d js
    using that
  proof (induction js arbitrary: d)
    case (Cons j js)
    have s: "quote_sound d (expire d j)" using one [OF Cons.prems] .
    show ?case using quote_sound_trans [OF s Cons.IH [OF quote_soundD [OF s]]] by simp
  qed (simp add: quote_sound_refl)
  then show ?thesis using assms by (simp add: expireQuotes_def expire_def)
qed

lemma sound_schedule_send:
  assumes inv: "quote_inv db" and op: "schedule_send i jobId enq actor db = Inr (ok, db')"
  shows "quote_sound db db'"
proof -
  define stamp where "stamp = update_quote i (\<lambda>x. qr_status x = QDraft) (\<lambda>x. x\<lparr>qr_sendJobId := Some jobId, qr_sendEmailReason := None\<rparr>) db"
  define undo where "undo = snd (update_quote i (\<lambda>x. qr_sendJobId x = Some jobId)
      (\<lambda>x. x\<lparr>qr_sendJobId := None, qr_sendEmailReason := Option.bind (qd_quotes db i) qr_sendEmailReason\<rparr>) (snd stamp))"
  have "db' = snd stamp \<or> db' = undo"
    using op by (auto simp: schedule_send_def scheduleQuoteSend_def and_then_Inr Let_def stamp_def undo_def case_prod_beta split: if_splits)
  moreover have s: "quote_sound db (snd stamp)" unfolding stamp_def by (intro sound_update [OF inv] status_okI) (auto simp: row_defs)
  moreover have "quote_sound (snd stamp) undo"
    unfolding undo_def by (intro sound_update [OF quote_soundD [OF s]] status_okI) (auto simp: row_defs)
  ultimately show ?thesis using quote_sound_trans by blast
qed

lemma sound_cancelQuoteSend:
  assumes "quote_inv db"
  shows "quote_sound db (snd (cancelQuoteSend i db))"
proof -
  have "\<exists>P. snd (cancelQuoteSend i db) = db \<or> snd (cancelQuoteSend i db) = snd (update_quote i P (\<lambda>x. x\<lparr>qr_sendJobId := None\<rparr>) db)"
    by (auto simp: cancelQuoteSend_def Let_def split: option.splits prod.splits) (metis snd_conv)+
  then obtain P where "snd (cancelQuoteSend i db) = db \<or> snd (cancelQuoteSend i db) = snd (update_quote i P (\<lambda>x. x\<lparr>qr_sendJobId := None\<rparr>) db)" by blast
  moreover have "quote_sound db (snd (update_quote i P (\<lambda>x. x\<lparr>qr_sendJobId := None\<rparr>) db))"
    by (intro sound_update [OF assms] status_okI) (auto simp: row_defs)
  ultimately show ?thesis using quote_sound_refl [OF assms] by metis
qed

lemma send_number_same: "same_rows db (snd (send_number q today db)) \<and> qd_quotes (snd (send_number q today db)) = qd_quotes db"
  by (simp add: send_number_def allocateQuoteCounter_def Let_def same_rows_def split: option.split)

lemma sound_sendQuote:
  assumes inv: "quote_inv db" and op: "sendQuote i opts actor today db = Inr db'"
  shows "quote_sound db db'"
proof -
  obtain q where q: "getQuote i actor db = Inr q"
    and db': "db' = add_recipients i (recipient_emails opts) (snd (update_quote i (\<lambda>x. qr_status x = QDraft)
        (sent_row (snd (send_number q today db)) (fst (send_number q today db)) today q) (snd (send_number q today db))))"
    using op by (auto simp: sendQuote_def and_then_Inr Let_def split: if_splits prod.splits)
  define d1 where "d1 = snd (send_number q today db)"
  define d2 where "d2 = snd (update_quote i (\<lambda>x. qr_status x = QDraft) (sent_row d1 (fst (send_number q today db)) today q) d1)"
  have s1: "quote_sound db d1" using sound_same_rows [OF inv] send_number_same by (simp add: d1_def)
  have "quote_sound d1 d2"
    unfolding d2_def by (intro sound_update [OF quote_soundD [OF s1]] status_okI) (simp_all add: row_defs sent_row_def Let_def)
  then have s2: "quote_sound db d2" by (rule quote_sound_trans [OF s1])
  have "quote_sound d2 db'"
    using sound_same_rows [OF quote_soundD [OF s2]] db' by (simp add: d1_def d2_def add_recipients_def same_rows_def)
  then show ?thesis by (rule quote_sound_trans [OF s2])
qed

lemma sound_processQuoteSendJob:
  assumes inv: "quote_inv db"
  shows "quote_sound db (processQuoteSendJob i jobId opts reason actor today db)"
proof -
  define claim where "claim = update_quote i (\<lambda>x. qr_status x = QDraft \<and> qr_sendJobId x = Some jobId) (\<lambda>x. x\<lparr>qr_sendJobId := None\<rparr>) db"
  have s1: "quote_sound db (snd claim)" unfolding claim_def by (intro sound_update [OF inv] status_okI) (auto simp: row_defs)
  have mark: "quote_sound d (snd (update_quote i P (\<lambda>x. x\<lparr>qr_sendEmailReason := Some t\<rparr>) d))" if "quote_inv d" for d t P
    by (intro sound_update [OF that] status_okI) (auto simp: row_defs)
  have fail: "quote_sound db (snd (update_quote i (\<lambda>x. qr_status x = QDraft \<and> qr_sendJobId x = Some jobId)
      (\<lambda>x. x\<lparr>qr_sendJobId := None, qr_sendEmailReason := Some ''schedule_failed''\<rparr>) db))"
    by (intro sound_update [OF inv] status_okI) (auto simp: row_defs)
  show ?thesis
  proof (cases "fst claim = 0")
    case True
    then show ?thesis using quote_sound_refl [OF inv] by (simp add: processQuoteSendJob_def claim_def case_prod_beta)
  next
    case False
    show ?thesis
    proof (cases "sendQuote i opts actor today (snd claim)")
      case (Inl e)
      then show ?thesis using False fail by (simp add: processQuoteSendJob_def claim_def case_prod_beta)
    next
      case (Inr d)
      have s: "quote_sound db d" by (rule quote_sound_trans [OF s1 sound_sendQuote [OF quote_soundD [OF s1] Inr]])
      have "processQuoteSendJob i jobId opts reason actor today db
          = (case reason of None \<Rightarrow> d | Some r \<Rightarrow> snd (update_quote i (\<lambda>_. True) (\<lambda>x. x\<lparr>qr_sendEmailReason := Some r\<rparr>) d))"
        using False Inr by (simp add: processQuoteSendJob_def claim_def case_prod_beta)
      then show ?thesis using s quote_sound_trans [OF s mark [OF quote_soundD [OF s]]] by (simp split: option.split)
    qed
  qed
qed

end
