(* ===== verification/Quote_Drafts.thy ===== *)
theory Quote_Drafts
  imports Quote_Ledger
begin

text \<open>The operations on drafts: each changes one draft and the rows of that draft only, and leaves totals that match its lines.\<close>

section \<open>Edits of one draft\<close>

definition other_lines :: "id \<Rightarrow> (id \<times> quote_item) list \<Rightarrow> (id \<times> quote_item) list" where
  "other_lines i ls = map (apsnd (\<lambda>l. l\<lparr>qi_blockId := None\<rparr>)) (filter (\<lambda>(k, l). qi_quoteId l \<noteq> i) ls)"

definition other_blocks :: "id \<Rightarrow> (id \<times> quote_block) list \<Rightarrow> (id \<times> quote_block) list" where
  "other_blocks i bs = filter (\<lambda>(k, b). qb_quoteId b \<noteq> i) bs"

definition confined :: "id \<Rightarrow> quote_db \<Rightarrow> quote_db \<Rightarrow> bool" where
  "confined i db db' \<longleftrightarrow>
     other_lines i (qd_lines db') = other_lines i (qd_lines db) \<and> other_blocks i (qd_blocks db') = other_blocks i (qd_blocks db)
     \<and> distinct (map fst (qd_lines db')) \<and> distinct (map fst (qd_blocks db'))
     \<and> list_all (\<lambda>(k, l). qi_quoteId l = i \<longrightarrow> qi_parentLineId l = None) (qd_lines db')
     \<and> qd_acceptances db' = qd_acceptances db \<and> qd_billing db' = qd_billing db \<and> qd_contracts db' = qd_contracts db"

lemma content_other: "j \<noteq> i \<Longrightarrow> content db j = filter (\<lambda>(k, l). qi_quoteId l = j) (other_lines i (qd_lines db))"
  unfolding content_def items_of_def other_lines_def filter_map filter_filter
  by (intro arg_cong [of _ _ "map _"] filter_cong) auto

lemma blocks_other: "j \<noteq> i \<Longrightarrow> blocks_of db j = filter (\<lambda>(k, b). qb_quoteId b = j) (other_blocks i (qd_blocks db))"
  unfolding blocks_of_def other_blocks_def filter_filter by (intro filter_cong) auto

lemma confined_others:
  assumes "confined i db db'" and "j \<noteq> i"
  shows "content db' j = content db j" "blocks_of db' j = blocks_of db j"
  using assms by (simp_all add: content_other blocks_other confined_def)

lemma other_line_in: "(k, l) \<in> set ls \<Longrightarrow> qi_quoteId l \<noteq> i \<Longrightarrow> (k, l\<lparr>qi_blockId := None\<rparr>) \<in> set (other_lines i ls)"
  by (force simp: other_lines_def)

lemma in_other_lines: "(k, m) \<in> set (other_lines i ls) \<Longrightarrow> \<exists>l. (k, l) \<in> set ls \<and> m = l\<lparr>qi_blockId := None\<rparr>"
  by (auto simp: other_lines_def)

lemma confined_rows:
  assumes ok: "rows_ok db" and c: "confined i db db'" and qs: "qd_quotes db' = (qd_quotes db)(i \<mapsto> r)"
  shows "rows_ok db'"
proof -
  have "qi_parentLineId l = None \<and> qd_quotes db' (qi_quoteId l) \<noteq> None" if l: "(k, l) \<in> set (qd_lines db')" for k l
  proof (cases "qi_quoteId l = i")
    case True
    with c l show ?thesis by (auto simp: confined_def list_all_iff qs)
  next
    case False
    from other_line_in [OF l this] have "(k, l\<lparr>qi_blockId := None\<rparr>) \<in> set (other_lines i (qd_lines db))" using c by (simp add: confined_def)
    then obtain m where m: "(k, m) \<in> set (qd_lines db)" "l\<lparr>qi_blockId := None\<rparr> = m\<lparr>qi_blockId := None\<rparr>" using in_other_lines by blast
    have "qi_parentLineId l = qi_parentLineId m" "qi_quoteId l = qi_quoteId m"
      using arg_cong [OF m(2), of qi_parentLineId] arg_cong [OF m(2), of qi_quoteId] by simp_all
    with ok m(1) show ?thesis by (auto simp: rows_ok_def list_all_iff qs)
  qed
  with c show ?thesis by (auto simp: rows_ok_def confined_def list_all_iff)
qed

lemma sound_confined:
  assumes inv: "quote_inv db" and q: "qd_quotes db i = Some q" "qr_status q = QDraft" and c: "confined i db db'"
    and db': "qd_quotes db' = (qd_quotes db)(i \<mapsto> r)" and r: "qr_status r = QDraft" "qr_convertedInvoiceId r = qr_convertedInvoiceId q"
    and t: "totals_at db' i r"
  shows "quote_sound db db'"
proof (rule sound_row_change [OF inv, of i])
  have "qd_acceptances db' = qd_acceptances db" "qd_billing db' = qd_billing db" "qd_contracts db' = qd_contracts db"
    using c by (simp_all add: confined_def)
  then show "row_change i db db'"
    using q r t confined_others [OF c] confined_rows [OF inv_rows [OF inv] c db'] unfolding row_change_def
    by (intro conjI exI [of _ q] exI [of _ r]) (simp_all add: db')
qed

lemma sound_recompute:
  assumes inv: "quote_inv db" and q: "qd_quotes db i = Some q" "qr_status q = QDraft" and c: "confined i db d"
    and d: "qd_quotes d = (qd_quotes db)(i \<mapsto> r)" and r: "qr_status r = QDraft" "qr_convertedInvoiceId r = qr_convertedInvoiceId q"
    and op: "recomputeAndPersist i d = Inr db'"
  shows "quote_sound db db'"
proof -
  obtain r' where r': "store_totals (quote_totals_of r (math_lines d i)) r = Inr r'" and db': "db' = set_quote i r' d"
    using op by (auto simp: recomputeAndPersist_def d and_then_Inr)
  note f = store_totals_cases [OF r']
  have "confined i db db'" using c by (simp add: confined_def db' set_quote_def)
  moreover have "math_lines db' i = math_lines d i" by (simp add: db' set_quote_def math_lines_def items_of_def)
  with r' have "totals_at db' i r'" by (rule stored_totals_at)
  ultimately show ?thesis using f r by (intro sound_confined [OF inv q, of _ r']) (simp_all add: db' set_quote_def d)
qed

lemma sound_edit:
  assumes "quote_inv db" and "qd_quotes db i = Some q" "qr_status q = QDraft" and "confined i db d" and "qd_quotes d = qd_quotes db"
    and "recomputeAndPersist i d = Inr db'"
  shows "quote_sound db db'"
  using assms by (intro sound_recompute [of db i q d q]) (simp_all add: fun_upd_idem)

lemma sound_layout:
  assumes "quote_inv db" and "qd_quotes db i = Some q" "qr_status q = QDraft" and "confined i db d" and "qd_quotes d = qd_quotes db"
    and "math_lines d i = math_lines db i"
  shows "quote_sound db d"
  using assms inv_totals [OF assms(1,2)] by (intro sound_confined [of db i q d q]) (simp_all add: fun_upd_idem totals_at_def)

subsection \<open>The parts of an edit\<close>

lemma other_lines_map:
  assumes "\<And>k l. (k, l) \<in> set ls \<Longrightarrow> qi_quoteId (f k l) = qi_quoteId l"
    and "\<And>k l. (k, l) \<in> set ls \<Longrightarrow> qi_quoteId l \<noteq> i \<Longrightarrow> (f k l)\<lparr>qi_blockId := None\<rparr> = l\<lparr>qi_blockId := None\<rparr>"
  shows "other_lines i (map (\<lambda>(k, l). (k, f k l)) ls) = other_lines i ls"
  using assms by (induction ls) (auto simp: other_lines_def)

lemma other_lines_filter:
  assumes "\<And>k l. (k, l) \<in> set ls \<Longrightarrow> qi_quoteId l \<noteq> i \<Longrightarrow> P k l"
  shows "other_lines i (filter (\<lambda>(k, l). P k l) ls) = other_lines i ls"
  using assms by (induction ls) (auto simp: other_lines_def)

lemma other_lines_append [simp]: "other_lines i (ls @ ms) = other_lines i ls @ other_lines i ms"
  by (simp add: other_lines_def)

lemma other_lines_own [simp]: "qi_quoteId l = i \<Longrightarrow> other_lines i [(k, l)] = []"
  by (simp add: other_lines_def)

lemma other_blocks_map:
  assumes "\<And>k b. (k, b) \<in> set bs \<Longrightarrow> qb_quoteId (f k b) = qb_quoteId b" and "\<And>k b. (k, b) \<in> set bs \<Longrightarrow> qb_quoteId b \<noteq> i \<Longrightarrow> f k b = b"
  shows "other_blocks i (map (\<lambda>(k, b). (k, f k b)) bs) = other_blocks i bs"
  using assms by (induction bs) (auto simp: other_blocks_def)

lemma other_blocks_append [simp]: "other_blocks i (bs @ cs) = other_blocks i bs @ other_blocks i cs"
  by (simp add: other_blocks_def)

lemma other_blocks_own [simp]: "qb_quoteId b = i \<Longrightarrow> other_blocks i [(k, b)] = []"
  by (simp add: other_blocks_def)

lemma map_fst_keep [simp]: "map (fst \<circ> (\<lambda>(k, l). (k, f k l))) ls = map fst ls"
  by (induction ls) auto

lemma confined_refl: "rows_ok db \<Longrightarrow> confined i db db"
  by (auto simp: confined_def rows_ok_def list_all_iff)

lemma confined_trans: "confined i a b \<Longrightarrow> confined i b c \<Longrightarrow> confined i a c"
  by (simp add: confined_def)

lemma confined_line_map:
  assumes ok: "rows_ok db"
    and f: "\<And>k l. (k, l) \<in> set (qd_lines db) \<Longrightarrow> qi_quoteId (f k l) = qi_quoteId l"
      "\<And>k l. (k, l) \<in> set (qd_lines db) \<Longrightarrow> qi_quoteId l = i \<Longrightarrow> qi_parentLineId (f k l) = qi_parentLineId l"
      "\<And>k l. (k, l) \<in> set (qd_lines db) \<Longrightarrow> qi_quoteId l \<noteq> i \<Longrightarrow> (f k l)\<lparr>qi_blockId := None\<rparr> = l\<lparr>qi_blockId := None\<rparr>"
  shows "confined i db (db\<lparr>qd_lines := map (\<lambda>(k, l). (k, f k l)) (qd_lines db)\<rparr>)"
  using ok f by (auto simp: confined_def rows_ok_def list_all_iff intro!: other_lines_map)

lemma confined_block_map:
  assumes ok: "rows_ok db" and "\<And>k b. (k, b) \<in> set (qd_blocks db) \<Longrightarrow> qb_quoteId (f k b) = qb_quoteId b"
    and "\<And>k b. (k, b) \<in> set (qd_blocks db) \<Longrightarrow> qb_quoteId b \<noteq> i \<Longrightarrow> f k b = b"
  shows "confined i db (db\<lparr>qd_blocks := map (\<lambda>(k, b). (k, f k b)) (qd_blocks db)\<rparr>)"
  using assms by (auto simp: confined_def rows_ok_def list_all_iff intro!: other_blocks_map)

lemma confined_add_block:
  assumes "rows_ok db" and "add_block_row k b db = Inr d" and "qb_quoteId b = i"
  shows "confined i db d" "qd_quotes d = qd_quotes db" "qd_lines d = qd_lines db" "rows_ok d"
  using assms by (auto simp: add_block_row_def and_then_Inr confined_def rows_ok_def list_all_iff)

lemma confined_add_item:
  assumes "rows_ok db" and "add_item k l db = Inr d" and "qi_quoteId l = i" and "qi_parentLineId l = None"
  shows "confined i db d" "qd_quotes d = qd_quotes db"
  using assms by (auto simp: add_item_def store_item_def and_then_Inr confined_def rows_ok_def list_all_iff)

lemma confined_resolve_block:
  assumes "rows_ok db" and "resolveLineBlockId i org block new db = Inr (b, d)"
  shows "confined i db d" "qd_quotes d = qd_quotes db" "rows_ok d"
  using assms confined_refl [OF assms(1)] confined_add_block [OF assms(1)]
  by (auto simp: resolveLineBlockId_def and_then_Inr split: option.splits list.splits)

lemma drop_lines_plain:
  assumes "rows_ok db"
  shows "drop_lines P db = db\<lparr>qd_lines := filter (\<lambda>(k, l). \<not> P k l) (qd_lines db)\<rparr>"
proof -
  define gone where "gone = fst ` set (filter (\<lambda>(k, l). P k l) (qd_lines db))"
  have "k \<in> gone \<longleftrightarrow> P k l" if kl: "(k, l) \<in> set (qd_lines db)" for k l
  proof -
    have d: "distinct (map fst (qd_lines db))" using assms by (simp add: rows_ok_def)
    have "l' = l" if "(k, l') \<in> set (qd_lines db)" for l' using eq_key_imp_eq_value [OF d that kl] .
    with kl show ?thesis unfolding gone_def image_iff set_filter
      by (metis (mono_tags, lifting) case_prod_conv fst_conv mem_Collect_eq prod.collapse)
  qed
  moreover have "qi_parentLineId l = None" if "(k, l) \<in> set (qd_lines db)" for k l using assms that by (auto simp: rows_ok_def list_all_iff)
  ultimately have "filter (\<lambda>(k, l). \<not> (k \<in> gone \<or> (case qi_parentLineId l of Some p \<Rightarrow> p \<in> gone | None \<Rightarrow> False))) (qd_lines db)
      = filter (\<lambda>(k, l). \<not> P k l) (qd_lines db)"
    by (intro filter_cong) auto
  then show ?thesis by (simp only: drop_lines_def Let_def gone_def)
qed

lemma confined_drop_lines:
  assumes "rows_ok db" and "\<And>k l. P k l \<Longrightarrow> qi_quoteId l = i"
  shows "confined i db (drop_lines P db)" "rows_ok (drop_lines P db)" "qd_quotes (drop_lines P db) = qd_quotes db"
    "qd_blocks (drop_lines P db) = qd_blocks db"
  unfolding drop_lines_plain [OF assms(1)]
  using assms other_lines_filter [of "qd_lines db" i "\<lambda>k l. \<not> P k l"]
  by (auto simp: confined_def rows_ok_def list_all_iff distinct_map_filter)

lemma confined_drop_block:
  assumes "rows_ok db" and "\<And>b. (k, b) \<in> set (qd_blocks db) \<Longrightarrow> qb_quoteId b = i"
  shows "confined i db (db\<lparr>qd_blocks := filter (\<lambda>(j, b). j \<noteq> k) (qd_blocks db),
    qd_lines := map (\<lambda>(j, l). (j, if qi_blockId l = Some k then l\<lparr>qi_blockId := None\<rparr> else l)) (qd_lines db)\<rparr>)"
proof -
  have "other_blocks i (filter (\<lambda>(j, b). j \<noteq> k) (qd_blocks db)) = other_blocks i (qd_blocks db)"
    unfolding other_blocks_def filter_filter using assms(2) by (intro filter_cong) auto
  moreover have "other_lines i (map (\<lambda>(j, l). (j, if qi_blockId l = Some k then l\<lparr>qi_blockId := None\<rparr> else l)) (qd_lines db)) = other_lines i (qd_lines db)"
    by (rule other_lines_map) simp_all
  ultimately show ?thesis using assms(1) by (auto simp: confined_def rows_ok_def list_all_iff distinct_map_filter)
qed

lemma own_key:
  assumes "rows_ok db"
  shows "map_of (items_of db i) k = Some m \<Longrightarrow> (k, l) \<in> set (qd_lines db) \<Longrightarrow> l = m \<and> qi_quoteId m = i"
    "map_of (blocks_of db i) k = Some b \<Longrightarrow> (k, c) \<in> set (qd_blocks db) \<Longrightarrow> c = b \<and> qb_quoteId b = i"
proof -
  have d: "distinct (map fst (qd_lines db))" "distinct (map fst (qd_blocks db))" using assms by (simp_all add: rows_ok_def)
  { assume "map_of (items_of db i) k = Some m" "(k, l) \<in> set (qd_lines db)"
    then show "l = m \<and> qi_quoteId m = i" using eq_key_imp_eq_value [OF d(1)] by (auto simp: items_of_def dest!: map_of_SomeD) }
  { assume "map_of (blocks_of db i) k = Some b" "(k, c) \<in> set (qd_blocks db)"
    then show "c = b \<and> qb_quoteId b = i" using eq_key_imp_eq_value [OF d(2)] by (auto simp: blocks_of_def dest!: map_of_SomeD) }
qed

lemma same_lines_math: "qd_lines d = qd_lines db \<Longrightarrow> math_lines d i = math_lines db i"
  by (simp add: math_lines_def items_of_def)

lemma map_lines_math:
  assumes "\<And>k l. (k, l) \<in> set (qd_lines db) \<Longrightarrow> qi_quoteId (f k l) = qi_quoteId l \<and> math_line (f k l) = math_line l"
  shows "math_lines (db\<lparr>qd_lines := map (\<lambda>(k, l). (k, f k l)) (qd_lines db)\<rparr>) i = math_lines db i"
proof -
  have "map (math_line \<circ> snd) (filter (\<lambda>(k, l). qi_quoteId l = i) (map (\<lambda>(k, l). (k, f k l)) ls)) = map (math_line \<circ> snd) (filter (\<lambda>(k, l). qi_quoteId l = i) ls)"
    if "set ls \<subseteq> set (qd_lines db)" for ls
    using that
  proof (induction ls)
    case (Cons x ls)
    obtain k l where x: "x = (k, l)" by (cases x)
    from Cons.prems assms [of k l] have "qi_quoteId (f k l) = qi_quoteId l" "math_line (f k l) = math_line l" by (simp_all add: x)
    with Cons show ?case by (simp add: x)
  qed simp
  then show ?thesis by (simp add: math_lines_def items_of_def)
qed

lemma sound_addBlock:
  assumes inv: "quote_inv db" and op: "addBlock i k type tpl actor db = Inr db'"
  shows "quote_sound db db'"
proof -
  obtain q b where q: "loadDraft i actor db = Inr q" and add: "add_block_row k b db = Inr db'" and b: "qb_quoteId b = i"
    using op by (auto simp: addBlock_def and_then_Inr)
  note c = confined_add_block [OF inv_rows [OF inv] add b]
  show ?thesis using loadDraft_row [OF q] c by (intro sound_layout [OF inv, of i q] same_lines_math) simp_all
qed

lemma sound_updateBlock:
  assumes inv: "quote_inv db" and op: "updateBlock i k type tpl actor db = Inr db'"
  shows "quote_sound db db'"
proof -
  obtain q b where q: "loadDraft i actor db = Inr q" and b: "map_of (blocks_of db i) k = Some b"
    and db': "db' = db\<lparr>qd_blocks := map (\<lambda>(j, x). (j, if j = k then x\<lparr>qb_template := tpl\<rparr> else x)) (qd_blocks db)\<rparr>"
    using op by (auto simp: updateBlock_def and_then_Inr split: option.splits)
  have "confined i db db'"
    unfolding db' by (rule confined_block_map [OF inv_rows [OF inv]]) (use own_key(2) [OF inv_rows [OF inv] b] in auto)
  then show ?thesis using loadDraft_row [OF q] by (intro sound_layout [OF inv, of i q] same_lines_math) (simp_all add: db')
qed

lemma sound_deleteBlock:
  assumes inv: "quote_inv db" and op: "deleteBlock i k actor db = Inr db'"
  shows "quote_sound db db'"
proof -
  define d1 where "d1 = drop_lines (\<lambda>j l. qi_quoteId l = i \<and> qi_blockId l = Some k) db"
  define d2 where "d2 = (if k \<in> fst ` set (blocks_of db i) then d1
      \<lparr>qd_blocks := filter (\<lambda>(j, b). j \<noteq> k) (qd_blocks d1),
       qd_lines := map (\<lambda>(j, l). (j, if qi_blockId l = Some k then l\<lparr>qi_blockId := None\<rparr> else l)) (qd_lines d1)\<rparr> else d1)"
  obtain q where q: "loadDraft i actor db = Inr q" and rec: "recomputeAndPersist i d2 = Inr db'"
    using op unfolding deleteBlock_def and_then_Inr Let_def d1_def d2_def by blast
  have c1: "confined i db d1" "rows_ok d1" "qd_quotes d1 = qd_quotes db" "qd_blocks d1 = qd_blocks db"
    using confined_drop_lines [OF inv_rows [OF inv], of "\<lambda>j l. qi_quoteId l = i \<and> qi_blockId l = Some k" i] by (simp_all add: d1_def)
  have own: "qb_quoteId b = i" if k: "k \<in> fst ` set (blocks_of db i)" and b: "(k, b) \<in> set (qd_blocks d1)" for b
  proof -
    have "map_of (blocks_of db i) k \<noteq> None" using k by (simp add: map_of_eq_None_iff)
    then show ?thesis using own_key(2) [OF inv_rows [OF inv], of i k] b c1(4) by auto
  qed
  have "confined i d1 d2" using confined_drop_block [OF c1(2) own] confined_refl [OF c1(2)] by (simp add: d2_def)
  then have "confined i db d2" by (rule confined_trans [OF c1(1)])
  then show ?thesis using loadDraft_row [OF q] rec c1(3) by (intro sound_edit [OF inv, of i q d2]) (simp_all add: d2_def)
qed

lemma sound_add_quote_line:
  assumes inv: "quote_inv db" and q: "loadDraft i actor db = Inr q" and blk: "resolveLineBlockId i org block new db = Inr (b, d1)"
    and add: "add_item k l d1 = Inr d2" and l: "qi_quoteId l = i" "qi_parentLineId l = None" and rec: "recomputeAndPersist i d2 = Inr db'"
  shows "quote_sound db db'"
proof -
  note c1 = confined_resolve_block [OF inv_rows [OF inv] blk]
  note c2 = confined_add_item [OF c1(3) add l]
  show ?thesis
    using loadDraft_row [OF q] rec c1(2) c2(2) by (intro sound_edit [OF inv, of i q d2] confined_trans [OF c1(1) c2(1)]) simp_all
qed

lemma sound_line_additions:
  assumes inv: "quote_inv db"
  shows "addManualQuoteLine i k new input actor db = Inr db' \<Longrightarrow> quote_sound db db'"
    and "addCatalogQuoteLine i k new item qty block actor db = Inr db' \<Longrightarrow> quote_sound db db'"
  by (auto simp: addManualQuoteLine_def addCatalogQuoteLine_def and_then_Inr Let_def split: option.splits elim!: sound_add_quote_line [OF inv])

lemma sound_updateQuoteLine:
  assumes inv: "quote_inv db" and op: "updateQuoteLine i k patch actor db = Inr db'"
  shows "quote_sound db db'"
proof -
  obtain q old new where q: "loadDraft i actor db = Inr q" and old: "map_of (items_of db i) k = Some old"
    and st: "store_item (patched_line patch old) = Inr new"
    and rec: "recomputeAndPersist i (db\<lparr>qd_lines := map (\<lambda>(j, l). (j, if j = k then new else l)) (qd_lines db)\<rparr>) = Inr db'"
    using op by (auto simp: updateQuoteLine_def and_then_Inr split: option.splits)
  have new: "qi_quoteId new = qi_quoteId old" "qi_parentLineId new = qi_parentLineId old"
    using st by (auto simp: store_item_def and_then_Inr patched_line_def Let_def)
  have "confined i db (db\<lparr>qd_lines := map (\<lambda>(j, l). (j, if j = k then new else l)) (qd_lines db)\<rparr>)"
    by (rule confined_line_map [OF inv_rows [OF inv]]) (use own_key(1) [OF inv_rows [OF inv] old] new in \<open>auto split: if_splits\<close>)
  then show ?thesis using loadDraft_row [OF q] rec by (intro sound_edit [OF inv, of i q]) simp_all
qed

lemma sound_removeQuoteLine:
  assumes inv: "quote_inv db" and op: "removeQuoteLine i k actor db = Inr db'"
  shows "quote_sound db db'"
proof -
  obtain q where q: "loadDraft i actor db = Inr q" and rec: "recomputeAndPersist i (drop_lines (\<lambda>j l. j = k \<and> qi_quoteId l = i) db) = Inr db'"
    using op by (auto simp: removeQuoteLine_def and_then_Inr)
  have "confined i db (drop_lines (\<lambda>j l. j = k \<and> qi_quoteId l = i) db)" "qd_quotes (drop_lines (\<lambda>j l. j = k \<and> qi_quoteId l = i) db) = qd_quotes db"
    using confined_drop_lines [OF inv_rows [OF inv], of "\<lambda>j l. j = k \<and> qi_quoteId l = i" i] by simp_all
  then show ?thesis using loadDraft_row [OF q] rec by (intro sound_edit [OF inv, of i q]) simp_all
qed

lemma sound_reorder:
  assumes inv: "quote_inv db"
  shows "reorderBlocks i ids actor db = Inr db' \<Longrightarrow> quote_sound db db'" and "reorderLines i b ids actor db = Inr db' \<Longrightarrow> quote_sound db db'"
proof -
  assume "reorderBlocks i ids actor db = Inr db'"
  then obtain q where q: "loadDraft i actor db = Inr q"
    and db': "db' = db\<lparr>qd_blocks := map (\<lambda>(k, b). (k, if qb_quoteId b = i \<and> k \<in> set ids then b\<lparr>qb_sortOrder := position ids k\<rparr> else b)) (qd_blocks db)\<rparr>"
    by (auto simp: reorderBlocks_def and_then_Inr)
  have "confined i db db'" unfolding db' by (rule confined_block_map [OF inv_rows [OF inv]]) simp_all
  then show "quote_sound db db'" using loadDraft_row [OF q] by (intro sound_layout [OF inv, of i q] same_lines_math) (simp_all add: db')
next
  assume "reorderLines i b ids actor db = Inr db'"
  then obtain q where q: "loadDraft i actor db = Inr q"
    and db': "db' = db\<lparr>qd_lines := map (\<lambda>(k, l). (k, if qi_quoteId l = i \<and> qi_blockId l = Some b \<and> k \<in> set ids
      then l\<lparr>qi_sortOrder := position ids k\<rparr> else l)) (qd_lines db)\<rparr>"
    by (auto simp: reorderLines_def and_then_Inr)
  have "confined i db db'" unfolding db' by (rule confined_line_map [OF inv_rows [OF inv]]) simp_all
  moreover have "math_lines db' i = math_lines db i" unfolding db' by (rule map_lines_math) (simp add: math_line_def)
  ultimately show "quote_sound db db'" using loadDraft_row [OF q] by (intro sound_layout [OF inv, of i q]) (simp_all add: db')
qed

lemma sound_moveLineToBlock:
  assumes inv: "quote_inv db" and op: "moveLineToBlock i k target actor db = Inr db'"
  shows "quote_sound db db'"
proof (cases "db' = db")
  case False
  define f where "f base children j l = (if j = k then l\<lparr>qi_blockId := Some target, qi_sortOrder := base\<rparr> else if j \<in> set children
      then l\<lparr>qi_blockId := Some target, qi_sortOrder := base + 1 + position children j\<rparr> else l)" for base children j and l :: quote_item
  define children where "children = map fst (filter (\<lambda>(j, l). qi_parentLineId l = Some k) (sorted_items db i))"
  obtain q m base where q: "loadDraft i actor db = Inr q" and m: "map_of (items_of db i) k = Some m"
    and db': "db' = db\<lparr>qd_lines := map (\<lambda>(j, l). (j, f base children j l)) (qd_lines db)\<rparr>"
    using op False by (auto simp: moveLineToBlock_def and_then_Inr Let_def f_def children_def split: option.splits if_splits)
  have "set (sorted_items db i) \<subseteq> set (qd_lines db)" by (auto simp: sorted_items_def items_of_def)
  then have "children = []" using inv_rows [OF inv] by (fastforce simp: children_def filter_empty_conv rows_ok_def list_all_iff)
  then have f: "f base children j l = (if j = k then l\<lparr>qi_blockId := Some target, qi_sortOrder := base\<rparr> else l)" for j l by (simp add: f_def)
  have "confined i db db'"
    unfolding db' by (rule confined_line_map [OF inv_rows [OF inv]]) (use own_key(1) [OF inv_rows [OF inv] m] in \<open>auto simp: f\<close>)
  moreover have "math_lines db' i = math_lines db i" unfolding db' by (rule map_lines_math) (simp add: math_line_def f)
  ultimately show ?thesis using loadDraft_row [OF q] by (intro sound_layout [OF inv, of i q]) (simp_all add: db')
qed (use quote_sound_refl [OF inv] in simp)

lemma sound_updateQuote:
  assumes inv: "quote_inv db" and op: "updateQuote i patch actor db = Inr db'"
  shows "quote_sound db db'"
proof -
  obtain q where q: "loadDraft i actor db = Inr q" using op by (auto simp: updateQuote_def and_then_Inr)
  define target where "target = patched (uq_orgId patch) (qr_orgId q)"
  define keptRate where "keptRate = (if target \<noteq> qr_orgId q then resolveQuoteTaxRate db target (qr_partnerId q) else qr_taxRate q)"
  obtain deposit where rec: "recomputeAndPersist i (if target \<noteq> qr_orgId q
      then move_rows i target (set_quote i (header_row patch target keptRate deposit q) db) else set_quote i (header_row patch target keptRate deposit q) db) = Inr db'"
    using op unfolding updateQuote_def and_then_Inr q Let_def target_def keptRate_def by blast
  define r where "r = header_row patch target keptRate deposit q"
  define d where "d = (if target \<noteq> qr_orgId q then move_rows i target (set_quote i r db) else set_quote i r db)"
  have d: "d = set_quote i r db \<or> d = move_rows i target (set_quote i r db)" by (simp add: d_def)
  note rec = rec [folded r_def, folded d_def]
  have r: "qr_status r = qr_status q" "qr_convertedInvoiceId r = qr_convertedInvoiceId q" by (simp_all add: r_def header_row_def Let_def)
  have ok: "rows_ok (set_quote i r db)" by (rule rows_ok_upd [OF inv_rows [OF inv]]) (simp_all add: set_quote_def)
  have "confined i (set_quote i r db) (move_rows i target (set_quote i r db))" for target
  proof -
    have "other_blocks i (map (\<lambda>(k, b). (k, if qb_quoteId b = i then b\<lparr>qb_orgId := target\<rparr> else b)) (qd_blocks db)) = other_blocks i (qd_blocks db)"
      by (rule other_blocks_map) simp_all
    moreover have "other_lines i (map (\<lambda>(k, l). (k, if qi_quoteId l = i then l\<lparr>qi_orgId := target\<rparr> else l)) (qd_lines db)) = other_lines i (qd_lines db)"
      by (rule other_lines_map) simp_all
    ultimately show ?thesis using ok by (auto simp: confined_def move_rows_def rows_ok_def list_all_iff set_quote_def)
  qed
  moreover have "confined i db (set_quote i r db)" using confined_refl [OF inv_rows [OF inv], of i] by (simp add: confined_def set_quote_def)
  ultimately have c: "confined i db d" using d confined_refl [OF ok] confined_trans by metis
  have "qd_quotes d = (qd_quotes db)(i \<mapsto> r)" using d by (auto simp: set_quote_def move_rows_def)
  with c r rec loadDraft_row [OF q] show ?thesis by (intro sound_recompute [OF inv, of i q d r]) simp_all
qed

end
