(* ===== verification/Quote_Acceptance.thy ===== *)
theory Quote_Acceptance
  imports Quote_Drafts
begin

text \<open>New, copied, removed and accepted quotes.\<close>

section \<open>New, removed and accepted quotes\<close>

lemma no_items:
  assumes "rows_ok db" and "qd_quotes db i = None"
  shows "items_of db i = []"
  using assms by (auto simp: rows_ok_def list_all_iff items_of_def filter_empty_conv)

lemma sound_new_quote:
  assumes inv: "quote_inv db" and new: "qd_quotes db i = None" and c: "confined i db db'" and db': "qd_quotes db' = (qd_quotes db)(i \<mapsto> q)"
    and q: "qr_status q = QDraft" "qr_convertedInvoiceId q = None" and t: "totals_at db' i q"
  shows "quote_sound db db'"
proof -
  have same: "qd_acceptances db' = qd_acceptances db" "qd_billing db' = qd_billing db" "qd_contracts db' = qd_contracts db"
    using c by (simp_all add: confined_def)
  have acc: "acceptances_of db' j = acceptances_of db j" for j by (simp add: acceptances_of_def same)
  have none: "acceptances_of db i = []" using inv new by (simp add: quote_inv_def)
  have tot: "totals_at db' j p" if "qd_quotes db' j = Some p" for j p
    using that t inv_totals [OF inv, of j p] confined_others(1) [OF c, of j] by (cases "j = i") (auto simp: db' totals_at_def math_content)
  have ans: "answer_ok db' j p" if "qd_quotes db' j = Some p" for j p
    using that inv_answer [OF inv, of j p] q none by (cases "j = i") (auto simp: db' answer_ok_def acc same split: option.splits)
  have links: "links_unique (qd_quotes db)" using inv by (simp add: quote_inv_def)
  have "links_unique (qd_quotes db')"
    unfolding links_unique_def
  proof (intro allI impI, elim conjE)
    fix j k p r assume a: "qd_quotes db' j = Some p" "qd_quotes db' k = Some r" "qr_convertedInvoiceId p \<noteq> None" "qr_convertedInvoiceId p = qr_convertedInvoiceId r"
    then have "j \<noteq> i" "k \<noteq> i" using q(2) by (auto simp: db' split: if_splits)
    with a links show "j = k" unfolding links_unique_def by (simp add: db' del: not_None_eq)
  qed
  then have "quote_inv db'"
    using inv tot ans same confined_rows [OF inv_rows [OF inv] c db'] unfolding quote_inv_def by (simp add: db' acc split: if_splits)
  moreover have "keeps_sent db db'"
    unfolding keeps_sent_def
  proof (intro allI impI, elim conjE)
    fix j p assume p: "qd_quotes db j = Some p" "qr_status p \<noteq> QDraft"
    then have "j \<noteq> i" using new by auto
    with p show "\<exists>r. qd_quotes db' j = Some r \<and> qr_status r \<noteq> QDraft \<and> same_terms p r \<and> content db' j = content db j
        \<and> blocks_of db' j = blocks_of db j \<and> (qr_status p = QConverted \<longrightarrow> qr_status r = QConverted)"
      using confined_others [OF c, of j] by (intro exI [of _ p]) (simp add: db')
  qed
  ultimately show ?thesis by (simp add: quote_sound_def)
qed

lemma zero_cents: "fromCents (Some 0) = ''0.00''" "numeric_column ''0.00'' = Inr ''0.00''"
  by code_simp+

lemma zero_product: "roundHalfUp (js_mul (Some 0) (Some r)) = Some 0"
proof -
  have "roundHalfUp (Some 0) = Some 0" by code_simp
  then show ?thesis by (simp add: js_mul_def)
qed

lemma no_line_totals:
  assumes "quote_tax_rate (qr_taxRate q) \<noteq> Some None" and "qr_depositType q = TypeNone" and "qr_depositAmount q = None"
    and "qr_subtotal q = ''0.00''" "qr_taxTotal q = ''0.00''" "qr_total q = ''0.00''" "qr_oneTimeTotal q = ''0.00''"
      "qr_monthlyRecurringTotal q = ''0.00''" "qr_annualRecurringTotal q = ''0.00''"
  shows "store_totals (quote_totals_of q []) q = Inr q"
proof -
  have "js_add (Some 0) (Some 0) = Some 0" by (simp add: js_add_def)
  then show ?thesis using assms
    by (auto simp: store_totals_self quote_totals_of_def computeQuoteTotals_def zero_sums_def zero_cadence_def Let_def zero_cents zero_product on_database_def
        deposit_cents_def toQuoteDepositConfig_def numeric_column_opt_def split: option.splits)
qed

lemma resolved_rate: "quote_tax_rate (resolveQuoteTaxRate db org p) \<noteq> Some None"
  by (auto simp: resolveQuoteTaxRate_def quote_tax_rate_def Let_def js_less_def str_or_none_def split: option.splits)

lemma sound_createQuote:
  assumes inv: "quote_inv db" and op: "createQuote i input actor today db = Inr db'"
  shows "quote_sound db db'"
proof -
  obtain partner q where q: "q = (blank_quote partner (cq_orgId input) (formatQuoteNumber ''Q'' (year_of today) (fst (allocateQuoteCounter partner (year_of today) db))) (ia_userId actor))
          \<lparr>qr_siteId := cq_siteId input, qr_title := trimmed_title (cq_title input), qr_currencyCode := cq_currencyCode input,
           qr_taxRate := resolveQuoteTaxRate db (cq_orgId input) partner, qr_expiryDate := cq_expiryDate input, qr_terms := cq_terms input,
           qr_termsAndConditions := cq_termsAndConditions input\<rparr>"
    and ins: "insert_quote i q (snd (allocateQuoteCounter partner (year_of today) db)) = Inr db'"
    using op by (auto simp: createQuote_def and_then_Inr Let_def case_prod_beta)
  have new: "qd_quotes db i = None" and db': "db' = set_quote i q (snd (allocateQuoteCounter partner (year_of today) db))"
    using ins by (auto simp: insert_quote_def and_then_Inr allocateQuoteCounter_def Let_def)
  have "confined i db db'"
    using confined_refl [OF inv_rows [OF inv], of i] by (simp add: confined_def db' set_quote_def allocateQuoteCounter_def Let_def)
  moreover have "math_lines db' i = []"
    using no_items [OF inv_rows [OF inv] new] by (simp add: math_lines_def items_of_def db' set_quote_def allocateQuoteCounter_def Let_def)
  then have "totals_at db' i q" unfolding totals_at_def using resolved_rate by (simp add: q blank_quote_def no_line_totals)
  ultimately show ?thesis
    by (intro sound_new_quote [OF inv new, of _ q]) (simp_all add: q blank_quote_def, simp add: db' set_quote_def allocateQuoteCounter_def Let_def q blank_quote_def)
qed

lemma sound_cloneQuote:
  assumes inv: "quote_inv db" and op: "cloneQuote i new newBlock newLine fresh org title actor today db = Inr db'"
  shows "quote_sound db db'"
proof -
  define bs ls where "bs = sorted_blocks db i" and "ls = sorted_items db i"
  obtain source target rate number fallback q q' where q: "q = clone_row source target rate title number (ia_userId actor)"
    and st: "store_totals (quote_totals_of q (map (math_line \<circ> snd) ls)) q = Inr q'"
    and ins: "and_then (insert_quote new q' (snd (allocateQuoteCounter (qr_partnerId source) (year_of today) db)))
        (insert_copies (clone_blocks new target newBlock bs @ clone_section new target fresh bs ls)
          (clone_items new target newBlock newLine fallback (fst ` set bs) ls)) = Inr db'"
    using op by (auto simp: cloneQuote_def and_then_Inr Let_def case_prod_beta bs_def ls_def)
  define copies where "copies = clone_items new target newBlock newLine fallback (fst ` set bs) ls"
  define sections where "sections = clone_blocks new target newBlock bs @ clone_section new target fresh bs ls"
  have free: "qd_quotes db new = None" and db': "qd_quotes db' = (qd_quotes db)(new \<mapsto> q')" "qd_lines db' = qd_lines db @ copies"
      "qd_blocks db' = qd_blocks db @ sections" "qd_acceptances db' = qd_acceptances db" "qd_billing db' = qd_billing db" "qd_contracts db' = qd_contracts db"
    and dist: "distinct (map fst (qd_lines db'))" "distinct (map fst (qd_blocks db'))"
    using ins by (auto simp: and_then_Inr insert_quote_def insert_copies_def set_quote_def allocateQuoteCounter_def Let_def copies_def sections_def)
  have own: "\<forall>(k, b) \<in> set sections. qb_quoteId b = new" "\<forall>(k, l) \<in> set copies. qi_quoteId l = new"
    by (auto simp: sections_def copies_def clone_blocks_def clone_section_def clone_items_def)
  have "set ls \<subseteq> set (qd_lines db)" by (auto simp: ls_def sorted_items_def items_of_def)
  then have parents: "\<forall>(k, l) \<in> set copies. qi_parentLineId l = None"
    using inv_rows [OF inv] by (fastforce simp: copies_def clone_items_def rows_ok_def list_all_iff)
  have "other_lines new copies = []" "other_blocks new sections = []"
    using own by (auto simp: other_lines_def other_blocks_def filter_empty_conv)
  moreover have "list_all (\<lambda>(k, l). qi_quoteId l = new \<longrightarrow> qi_parentLineId l = None) (qd_lines db')"
    using parents inv_rows [OF inv] by (auto simp: db' list_all_iff rows_ok_def)
  ultimately have c: "confined new db db'" using dist by (simp add: confined_def db')
  have "filter (\<lambda>(k, l). qi_quoteId l = new) copies = copies" using own by (auto simp: filter_id_conv)
  then have "items_of db' new = copies" using no_items [OF inv_rows [OF inv] free] by (simp add: items_of_def db')
  then have "math_lines db' new = map (math_line \<circ> snd) ls"
    by (simp add: math_lines_def copies_def clone_items_def math_line_def split_beta comp_def)
  then have t: "totals_at db' new q'" using store_totals_cases [OF st] totals_of_cong [of q' q] by (simp add: totals_at_def)
  show ?thesis
    using store_totals_cases [OF st]
    by (intro sound_new_quote [OF inv free c db'(1) _ _ t]) (simp_all add: q clone_row_def blank_quote_def Let_def)
qed

lemma sound_deleteDraftQuote:
  assumes inv: "quote_inv db" and op: "deleteDraftQuote i actor db = Inr db'"
  shows "quote_sound db db'"
proof -
  define f where "f l = (if qi_blockId l \<in> Some ` fst ` set (blocks_of db i) then l\<lparr>qi_blockId := None\<rparr> else l)" for l :: quote_item
  obtain q where "loadDraft i actor db = Inr q" and db': "qd_quotes db' = (qd_quotes db)(i := None)"
      "qd_lines db' = map (\<lambda>(k, l). (k, f l)) (filter (\<lambda>(k, l). qi_quoteId l \<noteq> i) (qd_lines db))"
      "qd_blocks db' = filter (\<lambda>(k, b). qb_quoteId b \<noteq> i) (qd_blocks db)"
      "qd_acceptances db' = filter (\<lambda>(k, a). qa_quoteId a \<noteq> i) (qd_acceptances db)" "qd_billing db' = qd_billing db" "qd_contracts db' = qd_contracts db"
    using op unfolding f_def by (auto simp: deleteDraftQuote_def and_then_Inr)
  then have q: "qd_quotes db i = Some q" "qr_status q = QDraft" using loadDraft_row by blast+
  have f: "qi_quoteId (f l) = qi_quoteId l" "qi_parentLineId (f l) = qi_parentLineId l" "(f l)\<lparr>qi_blockId := None\<rparr> = l\<lparr>qi_blockId := None\<rparr>" for l
    by (simp_all add: f_def)
  have "other_lines i (qd_lines db') = other_lines i (qd_lines db)" unfolding db' by (simp add: other_lines_map f other_lines_filter)
  then have lines: "content db' j = content db j" if "j \<noteq> i" for j using content_other [OF that] by simp
  have items: "content db' j = content db j" "blocks_of db' j = blocks_of db j" "acceptances_of db' j = acceptances_of db j" if "j \<noteq> i" for j
    using that lines [OF that] unfolding blocks_of_def acceptances_of_def db'(3,4) filter_filter by (auto intro!: filter_cong)
  have "acceptances_of db' i = []" by (auto simp: acceptances_of_def db' filter_empty_conv)
  moreover have "rows_ok db'" using inv_rows [OF inv] by (auto simp: rows_ok_def db' list_all_iff distinct_map_filter f)
  moreover have "links_unique (qd_quotes db')" using inv unfolding quote_inv_def links_unique_def by (auto simp: db' split: if_splits)
  moreover have "totals_at db' j p \<and> answer_ok db' j p" if "qd_quotes db' j = Some p" for j p
    using that inv_totals [OF inv, of j p] inv_answer [OF inv, of j p] items [of j]
    by (cases "j = i") (auto simp: db' totals_at_def math_content answer_ok_def cong: option.case_cong)
  ultimately have "quote_inv db'" using inv items unfolding quote_inv_def by (auto simp: db' split: if_splits)
  moreover have "keeps_sent db db'"
    unfolding keeps_sent_def using q items by (auto simp: db')
  ultimately show ?thesis by (simp add: quote_sound_def)
qed

lemma accept_invoice_rows:
  assumes "accept_invoice v ks q ls u today b = Inr b'"
  shows "vd_invoices b v = None" and "vd_invoices b' w \<noteq> None \<longleftrightarrow> w = v \<or> vd_invoices b w \<noteq> None"
proof -
  obtain b1 b2 x y z where ins: "insert_invoice v (accepted_draft q u) b = Inr b1"
    and mat: "materializeLines v (aq_orgId q) 0 (map accepted_spec ls) ks b1 = Inr b2"
    and fin: "b' = (if ls = [] then update_invoice v (accepted_row q None today x y z) b2 else accept_issue v q today x y z b2)"
    using assms by (auto simp: accept_invoice_def and_then_Inr)
  note i = insert_invoice_cases [OF ins]
  show "vd_invoices b v = None" using i by blast
  have "vd_invoices b2 = (vd_invoices b)(v \<mapsto> accepted_draft q u)" using materialize_plain [OF mat accepted_specs(1)] i by (simp add: set_invoice_def)
  then show "vd_invoices b' w \<noteq> None \<longleftrightarrow> w = v \<or> vd_invoices b w \<noteq> None"
    using fin by (simp add: update_invoice_def accept_issue_def allocate_number_def Let_def set_invoice_def split: if_splits)
qed

lemma create_contracts_inv: "create_contracts specs ids b = Inr b' \<Longrightarrow> billing_inv b \<Longrightarrow> billing_inv b'"
proof (induction specs ids b rule: create_contracts.induct)
  case (1 spec specs i newLine ids b)
  then show ?case using inv_create(2) by (auto simp: and_then_Inr)
qed simp_all

lemma on_database_Inr: "on_database m = Inr x \<longleftrightarrow> m = Inr x"
  by (cases m) (simp_all add: on_database_def)

text \<open>What an acceptance writes.\<close>

lemma acceptQuote_cases:
  assumes "acceptQuote i ids params today now db = Inr db'"
  obtains q b c specs where "qd_quotes db i = Some q" and "accept_checks params today (sorted_blocks db i) q = Inr ()"
    and "accept_invoice (ai_invoice ids) (ai_lines ids) (accepted_of q) (accepted_lines (sorted_items db i)) (ap_actorUserId params) today (qd_billing db) = Inr b"
    and "buildContractSpecsFromQuote (qr_orgId q) (qr_partnerId q) (map contract_line_of (sorted_items db i)) today = Inr specs"
    and "create_contracts specs (ai_contracts ids) (qd_contracts db) = Inr c"
    and "qd_quotes db' = (qd_quotes db)(i \<mapsto> converted_row (ai_invoice ids) params now q)" and "qd_lines db' = qd_lines db" and "qd_blocks db' = qd_blocks db"
    and "acceptances_of db' i = acceptances_of db i @ [(ai_acceptance ids, \<lparr>qa_quoteId = i, qa_orgId = qr_orgId q, qa_signerName = ap_signerName params,
                           qa_acceptanceTokenJti = ap_jti params\<rparr>)]"
    and "\<And>j. j \<noteq> i \<Longrightarrow> acceptances_of db' j = acceptances_of db j" and "qd_billing db' = b" and "qd_contracts db' = c"
proof -
  define w where "w q b c = (set_quote i (converted_row (ai_invoice ids) params now q) db)
     \<lparr>qd_acceptances := qd_acceptances db @
        [(ai_acceptance ids, \<lparr>qa_quoteId = i, qa_orgId = qr_orgId q, qa_signerName = ap_signerName params, qa_acceptanceTokenJti = ap_jti params\<rparr>)],
      qd_billing := b, qd_contracts := c\<rparr>" for q b c
  obtain q where row: "qd_quotes db i = Some q" using assms by (cases "qd_quotes db i") (simp_all add: acceptQuote_def)
  obtain b where q: "accept_checks params today (sorted_blocks db i) q = Inr ()"
      "accept_invoice (ai_invoice ids) (ai_lines ids) (accepted_of q) (accepted_lines (sorted_items db i)) (ap_actorUserId params) today (qd_billing db) = Inr b"
    and rest: "(case buildContractSpecsFromQuote (qr_orgId q) (qr_partnerId q) (map contract_line_of (sorted_items db i)) today of
        Inl e \<Rightarrow> Inl (Q_TERM e) | Inr specs \<Rightarrow> and_then (create_contracts specs (ai_contracts ids) (qd_contracts db)) (\<lambda>c. Inr (w q b c))) = Inr db'"
    using assms unfolding acceptQuote_def row option.case Let_def w_def [symmetric] and_then_Inr on_database_Inr by auto
  from rest obtain specs c where s: "buildContractSpecsFromQuote (qr_orgId q) (qr_partnerId q) (map contract_line_of (sorted_items db i)) today = Inr specs"
      "create_contracts specs (ai_contracts ids) (qd_contracts db) = Inr c" and db': "db' = w q b c"
    by (cases "buildContractSpecsFromQuote (qr_orgId q) (qr_partnerId q) (map contract_line_of (sorted_items db i)) today") (auto simp: and_then_Inr)
  show thesis by (rule that [OF row q s]) (simp_all add: db' w_def set_quote_def acceptances_of_def)
qed

lemma converted_row_fields:
  "qr_status (converted_row v params now q) = QConverted" "qr_convertedInvoiceId (converted_row v params now q) = Some v"
  "same_terms q (converted_row v params now q)" "same_figures q (converted_row v params now q)"
  by (simp_all add: converted_row_def Let_def row_defs split: option.split)

lemma accepted_was_open: "accept_checks params today bs q = Inr () \<Longrightarrow> open_for_answer q \<and> \<not> isQuoteExpired (qr_expiryDate q) today"
  by (auto simp: accept_checks_def and_then_Inr)

lemma sound_acceptQuote:
  assumes inv: "quote_inv db" and op: "acceptQuote i ids params today now db = Inr db'" and year: "0 \<le> year_of today"
  shows "quote_sound db db'"
  using op
proof (rule acceptQuote_cases)
  fix q b c specs
  define r where "r = converted_row (ai_invoice ids) params now q"
  assume q: "qd_quotes db i = Some q" and chk: "accept_checks params today (sorted_blocks db i) q = Inr ()"
    and invoice: "accept_invoice (ai_invoice ids) (ai_lines ids) (accepted_of q) (accepted_lines (sorted_items db i)) (ap_actorUserId params) today (qd_billing db) = Inr b"
    and cs: "create_contracts specs (ai_contracts ids) (qd_contracts db) = Inr c"
    and qs: "qd_quotes db' = (qd_quotes db)(i \<mapsto> converted_row (ai_invoice ids) params now q)" and rows: "qd_lines db' = qd_lines db" "qd_blocks db' = qd_blocks db"
    and acc: "acceptances_of db' i = acceptances_of db i @ [(ai_acceptance ids, \<lparr>qa_quoteId = i, qa_orgId = qr_orgId q, qa_signerName = ap_signerName params,
                           qa_acceptanceTokenJti = ap_jti params\<rparr>)]"
    and others: "\<And>j. j \<noteq> i \<Longrightarrow> acceptances_of db' j = acceptances_of db j" and tables: "qd_billing db' = b" "qd_contracts db' = c"
  note qs = qs [folded r_def]
  note r = converted_row_fields [where v = "ai_invoice ids" and params = params and now = now and q = q, folded r_def]
  have opened: "qr_status q \<noteq> QConverted" "qr_status q \<noteq> QDraft" using accepted_was_open [OF chk] by (auto simp: open_for_answer_def)
  note new = accept_invoice_rows [OF invoice]
  have view: "content db' j = content db j" "blocks_of db' j = blocks_of db j" "math_lines db' j = math_lines db j" for j
    by (simp_all add: content_def items_of_def blocks_of_def math_lines_def rows)
  have tot: "totals_at db' j p" if "qd_quotes db' j = Some p" for j p
    using that totals_same [OF inv_totals [OF inv q] r(4) view(3)] inv_totals [OF inv, of j p] by (cases "j = i") (auto simp: qs totals_at_def view)
  have "answer_ok db' i r" using inv_answer [OF inv q] opened r acc new(2) by (auto simp: answer_ok_def tables split: option.splits)
  moreover have "answer_ok db' j p" if "j \<noteq> i" "qd_quotes db j = Some p" for j p
    using inv_answer [OF inv that(2)] others [OF that(1)] new(2) by (auto simp: answer_ok_def tables split: option.splits)
  ultimately have ans: "answer_ok db' j p" if "qd_quotes db' j = Some p" for j p using that by (auto simp: qs split: if_splits)
  have fresh: "qr_convertedInvoiceId p \<noteq> Some (ai_invoice ids)" if "qd_quotes db j = Some p" for j p
    using inv_answer [OF inv that] new(1) by (auto simp: answer_ok_def)
  have "links_unique (qd_quotes db)" using inv by (simp add: quote_inv_def)
  then have "links_unique (qd_quotes db')"
    unfolding links_unique_def qs using fresh r(2) by (auto split: if_splits) metis+
  moreover have "invoice_inv b" using sound_accept_invoice [OF _ invoice year] inv by (simp add: quote_inv_def sound_def)
  moreover have "billing_inv c" using create_contracts_inv [OF cs] inv by (simp add: quote_inv_def)
  moreover have "rows_ok db'" by (rule rows_ok_upd [OF inv_rows [OF inv] rows qs])
  ultimately have "quote_inv db'" using inv tot ans others unfolding quote_inv_def tables by (auto simp: qs split: if_splits)
  moreover have "keeps_sent db db'" unfolding keeps_sent_def using q r opened view by (auto simp: qs)
  ultimately show ?thesis by (simp add: quote_sound_def)
qed

end
