(* ===== verification/Quote_Samples.thy ===== *)
theory Quote_Samples
  imports Quote_Acceptance Invoice_Samples
begin

text \<open>A quote of one item that is created, sent and accepted: the tables on which the properties of quotes are tried.\<close>

section \<open>A sample run\<close>

text \<open>A quote of one item at 1.00, sent to one recipient.\<close>

definition sample_quotes :: quote_db where
  "sample_quotes =
     \<lparr>qd_quotes = (\<lambda>_. None), qd_lines = [], qd_blocks = [], qd_acceptances = [], qd_recipients = [], qd_sequences = (\<lambda>_. None),
      qd_versions = (\<lambda>_. None), qd_templates = (\<lambda>_. None), qd_catalog = (\<lambda>_. None), qd_billing = sample_tables,
      qd_contracts = empty_tables [''o'' \<mapsto> ''p'']\<rparr>"

definition sample_input :: create_quote_input where
  "sample_input = \<lparr>cq_orgId = ''o'', cq_siteId = None, cq_title = None, cq_currencyCode = ''USD'', cq_expiryDate = None, cq_terms = None,
     cq_termsAndConditions = None\<rparr>"

definition sample_item_input :: quote_line_input where
  "sample_item_input = \<lparr>qn_catalogItemId = None, qn_blockId = None, qn_name = None, qn_description = None, qn_quantity = ''1.00'', qn_unitPrice = ''1.00'',
     qn_taxable = False, qn_customerVisible = True, qn_recurrence = Money.OneTime, qn_termMonths = None, qn_unitCost = None, qn_depositEligible = False\<rparr>"

definition sample_item :: quote_item where
  "sample_item = \<lparr>qi_quoteId = ''q'', qi_blockId = Some ''b'', qi_orgId = ''o'', qi_catalogItemId = None, qi_parentLineId = None, qi_name = None,
     qi_description = None, qi_quantity = ''1.00'', qi_unitPrice = ''1.00'', qi_taxable = False, qi_customerVisible = True, qi_lineTotal = ''1.00'',
     qi_recurrence = Money.OneTime, qi_termMonths = None, qi_unitCost = None, qi_depositEligible = False, qi_itemType = None, qi_sortOrder = 0\<rparr>"

definition sample_section :: quote_block where
  "sample_section = \<lparr>qb_quoteId = ''q'', qb_orgId = ''o'', qb_blockType = BLineItems, qb_template = None, qb_sortOrder = 0\<rparr>"

definition sample_blank :: quote_row where
  "sample_blank = blank_quote ''p'' ''o'' ''Q-2026-0001'' (Some ''u'')"

definition sample_offer :: quote_row where
  "sample_offer = sample_blank\<lparr>qr_subtotal := ''1.00'', qr_total := ''1.00'', qr_oneTimeTotal := ''1.00''\<rparr>"

definition sample_created :: quote_db where
  "sample_created = sample_quotes\<lparr>qd_quotes := [''q'' \<mapsto> sample_blank], qd_sequences := [(''p'', 2026) \<mapsto> 1]\<rparr>"

definition sample_priced :: quote_db where
  "sample_priced = sample_created\<lparr>qd_quotes := [''q'' \<mapsto> sample_offer], qd_lines := [(''k'', sample_item)], qd_blocks := [(''b'', sample_section)]\<rparr>"

definition sample_out :: quote_row where
  "sample_out = sample_offer\<lparr>qr_status := QSent, qr_issueDate := Some ''2026-01-31'', qr_billToName := Some ''Org''\<rparr>"

definition sample_offered :: quote_db where
  "sample_offered = sample_priced\<lparr>qd_quotes := [''q'' \<mapsto> sample_out], qd_recipients := [(''q'', ''a@b'')]\<rparr>"

definition sample_sending :: send_options where
  "sample_sending = \<lparr>so_unresolved = False, so_addressed = [''A@b''], so_billingRecipient = None\<rparr>"

lemmas sample_quote_defs = sample_quotes_def sample_input_def sample_item_input_def sample_item_def sample_section_def sample_blank_def sample_offer_def
  sample_created_def sample_priced_def sample_out_def sample_offered_def sample_sending_def blank_quote_def

lemma sample_figures: "store_totals (quote_totals_of sample_blank [math_line sample_item]) sample_blank = Inr sample_offer"
  by code_simp

lemma sample_texts:
  "formatQuoteNumber ''Q'' 2026 (Suc 0) = ''Q-2026-0001''" "normalizeEmail ''A@b'' = ''a@b''" "\<not> js_less (Some 0) (js_Number ''0.00000'')"
  "resolveEffectiveTaxRate True None None = ''0.00000''"
  by code_simp+

lemmas quote_access_defs = getQuote_def loadDraft_def assertQuoteAccess_def assertOrg_def assertSite_def resolvePartner_def ensure_def str_or_none_def
  sample_actor_def

lemma sample_create: "createQuote ''q'' sample_input sample_actor ''2026-01-31'' sample_quotes = Inr sample_created"
  by (simp add: createQuote_def quote_access_defs sample_quote_defs allocateQuoteCounter_def insert_quote_def resolveQuoteTaxRate_def sample_tables_def
      sample_texts sample_numbers trimmed_title_def set_quote_def Let_def)

lemma sample_price: "addManualQuoteLine ''q'' ''k'' ''b'' sample_item_input sample_actor sample_created = Inr sample_priced"
proof -
  define d where "d = sample_created\<lparr>qd_lines := [(''k'', sample_item)], qd_blocks := [(''b'', sample_section)]\<rparr>"
  have blk: "resolveLineBlockId ''q'' ''o'' None ''b'' sample_created = Inr (''b'', sample_created\<lparr>qd_blocks := [(''b'', sample_section)]\<rparr>)"
    by (simp add: resolveLineBlockId_def add_block_row_def ensure_def blocks_of_def next_block_order_def str_or_none_def sample_created_def sample_quotes_def sample_section_def)
  have draft: "loadDraft ''q'' sample_actor sample_created = Inr sample_blank" by (simp add: quote_access_defs sample_created_def sample_blank_def blank_quote_def)
  have item: "store_item sample_item = Inr sample_item"
    by (simp add: store_item_def on_database_def numeric_column_opt_def sample_item_def sample_numbers)
  have "add_item ''k'' sample_item (sample_created\<lparr>qd_blocks := [(''b'', sample_section)]\<rparr>) = Inr d"
    by (simp add: add_item_def item ensure_def d_def sample_created_def sample_quotes_def)
  moreover have "recomputeAndPersist ''q'' d = Inr sample_priced"
  proof -
    have "math_lines d ''q'' = [math_line sample_item]" by (simp add: math_lines_def items_of_def d_def) (simp add: sample_item_def)
    then show ?thesis
      by (simp add: recomputeAndPersist_def d_def sample_created_def sample_priced_def set_quote_def sample_figures)
  qed
  moreover have "qr_orgId sample_blank = ''o''" by (simp add: sample_blank_def blank_quote_def)
  moreover have "items_of (sample_created\<lparr>qd_blocks := [(''b'', sample_section)]\<rparr>) ''q'' = []" by (simp add: items_of_def sample_created_def sample_quotes_def)
  ultimately show ?thesis
    by (simp add: addManualQuoteLine_def draft blk sample_item_input_def sample_numbers next_line_order_def sample_item_def [symmetric] Let_def)
qed

lemma sample_send: "sendQuote ''q'' sample_sending sample_actor ''2026-01-31'' sample_priced = Inr sample_offered"
  by (simp add: sendQuote_def quote_access_defs send_number_def update_quote_def sent_row_def recipient_emails_def add_recipients_def sample_quote_defs
      sample_texts nullish_def set_quote_def sample_tables_def Let_def)


text \<open>Two sets of ids for the rows of an acceptance.\<close>

definition sample_ids :: "bool \<Rightarrow> accept_ids" where
  "sample_ids again = (if \<not> again then \<lparr>ai_acceptance = ''a'', ai_invoice = ''i'', ai_lines = [''m''], ai_contracts = []\<rparr>
     else \<lparr>ai_acceptance = ''c'', ai_invoice = ''j'', ai_lines = [''n''], ai_contracts = []\<rparr>)"

definition sample_signing :: accept_params where
  "sample_signing = \<lparr>ap_signerName = ''S'', ap_jti = None, ap_actorUserId = None, ap_renderedBlocks = []\<rparr>"

definition sample_bill :: "nat \<Rightarrow> invoice_row" where
  "sample_bill n = (blank_invoice ''p'' ''o'' None None)
     \<lparr>inv_notes := Some ''Converted from quote Q-2026-0001'', inv_subtotal := ''1.00'', inv_total := ''1.00'', inv_balance := ''1.00'', inv_status := InvSent,
      inv_number := Some (formatInvoiceNumber ''INV'' 2026 n), inv_issueDate := Some ''2026-01-31'', inv_dueDate := Some ''2026-03-02'',
      inv_billToName := Some ''Org''\<rparr>"

definition sample_billed :: "id \<Rightarrow> id \<Rightarrow> invoice_db \<Rightarrow> invoice_db" where
  "sample_billed i k b = (let n = last_number b ''p'' 2026 + 1 in
     set_invoice i (sample_bill n) (b\<lparr>vd_lines := vd_lines b @ [(k, (line_spec SrcManual ''1.00'' ''1.00'' False)\<lparr>il_invoiceId := i, il_orgId := ''o''\<rparr>)],
       vd_sequences := (vd_sequences b)((''p'', 2026) \<mapsto> n)\<rparr>))"

lemma sample_invoiced:
  assumes "vd_invoices b i = None" and "k \<notin> fst ` set (vd_lines b)" and "vd_orgs b = vd_orgs sample_tables" and "vd_partners b = vd_partners sample_tables"
    and q: "accepted_of q = accepted_of sample_out"
  shows "accept_invoice i [k] (accepted_of q) (accepted_lines [(''k'', sample_item)]) None ''2026-01-31'' b = Inr (sample_billed i k b)"
proof -
  define Q where "Q = accepted_of sample_out"
  define a where "a = \<lparr>al_catalogItemId = None, al_description = None, al_quantity = ''1.00'', al_unitPrice = ''1.00'', al_taxable = False\<rparr>"
  have Q: "aq_partnerId Q = ''p''" "aq_orgId Q = ''o''" "aq_siteId Q = None" "aq_quoteNumber Q = Some ''Q-2026-0001''" "aq_currencyCode Q = ''USD''"
      "aq_taxRate Q = None" "aq_billToName Q = Some ''Org''" "aq_billToTaxId Q = None" "aq_terms Q = None" "aq_termsAndConditions Q = None"
      "aq_depositType Q = TypeNone"
    by (simp_all add: Q_def accepted_of_def sample_quote_defs)
  have ls: "accepted_lines [(''k'', sample_item)] = [a]" by (simp add: accepted_lines_def sample_item_def a_def)
  have "accepted_totals (accepted_of sample_out) (accepted_lines [(''k'', sample_item)]) = \<lparr>iv_subtotal = ''1.00'', iv_taxTotal = ''0.00'', iv_total = ''1.00''\<rparr>"
    by code_simp
  then have t: "accepted_totals Q [a] = \<lparr>iv_subtotal = ''1.00'', iv_taxTotal = ''0.00'', iv_total = ''1.00''\<rparr>" by (simp add: ls Q_def)
  have spec: "accepted_spec a = line_spec SrcManual ''1.00'' ''1.00'' False" by (simp add: accepted_spec_def a_def line_spec_def)
  have store: "store_line ((line_spec SrcManual ''1.00'' ''1.00'' False)\<lparr>il_invoiceId := i, il_orgId := ''o'', il_sortOrder := 0\<rparr>)
      = Inr ((line_spec SrcManual ''1.00'' ''1.00'' False)\<lparr>il_invoiceId := i, il_orgId := ''o''\<rparr>)"
    by (simp add: store_line_def line_spec_def sample_numbers numeric_column_opt_def)
  have ins: "insert_invoice i (accepted_draft Q None) b = Inr (set_invoice i (accepted_draft Q None) b)"
    using assms(1,3) by (simp add: insert_invoice_def accepted_draft_def blank_invoice_def Q sample_tables_def ensure_def)
  show ?thesis
    using assms(1-4) unfolding q Q_def [symmetric] ls
    by (simp add: accept_invoice_def ins t Q spec add_line_def ensure_def store sample_numbers)
      (simp add: accept_issue_def allocate_number_def last_number_def sample_tables_def update_invoice_def accepted_row_def accepted_deposit_def accepted_draft_def
        sample_billed_def sample_bill_def set_invoice_def sample_numbers blank_invoice_def str_or_none_def Q Let_def)
qed

end
