(* ===== verification/Quote_Money.thy ===== *)
theory Quote_Money
  imports Money_Rounding
begin

text \<open>Quotes and the invoices they become: the amount due on acceptance, the deposit and the first charge.\<close>

section \<open>What acceptance invoices\<close>

definition numeric_line :: "quote_math_line \<Rightarrow> bool" where
  "numeric_line l \<longleftrightarrow> js_Number (qm_quantity l) \<noteq> None \<and> js_Number (qm_unitPrice l) \<noteq> None"

lemma fixed_digits_number: "0 < f \<Longrightarrow> decimal_value (fixed_digits f n) = Some (of_nat n / 10 ^ f)"
  using decimal_fixed_text [of f "int n"] by (simp add: fixed_text_def)

lemma to_fixed_number: "0 < f \<Longrightarrow> js_Number (to_fixed f x) \<noteq> None"
  by (simp add: js_Number_def to_fixed_def fixed_digits_number) (simp add: decimal_value_def unsigned_fixed_digits)

lemma to_fixed_ne: "to_fixed f x \<noteq> []"
  using fixed_digits_head [of f "nat \<lfloor>x * 10 ^ f + 1 / 2\<rfloor>"] by (auto simp: to_fixed_def)

lemma line_total_number:
  assumes "numeric_line l"
  shows "js_Number (computeLineTotal (qm_quantity l) (qm_unitPrice l)) \<noteq> None" and "computeLineTotal (qm_quantity l) (qm_unitPrice l) \<noteq> []"
  using assms to_fixed_number [of 2] to_fixed_ne [of 2]
  by (auto simp del: not_None_eq simp: numeric_line_def computeLineTotal_def fromCents_def js_toFixed_def js_div_def roundHalfUp_def math_floor_def
      js_add_def js_mul_def split: option.splits)

lemma line_cents_agree:
  assumes "numeric_line l"
  shows "toCents (Some (computeLineTotal (qm_quantity l) (qm_unitPrice l))) = quote_line_cents l"
  using line_total_number [OF assms] by (auto simp: quote_line_cents_def toCents_def toCents_shared_def)

definition due_line :: "quote_math_line \<Rightarrow> bool" where
  "due_line l \<longleftrightarrow> qm_recurrence l = OneTime \<and> qm_customerVisible l"

definition modules_agree :: "quote_math_line \<Rightarrow> bool" where
  "modules_agree l \<longleftrightarrow> toCents (Some (computeLineTotal (qm_quantity l) (qm_unitPrice l))) = quote_line_cents l"

lemma numeric_lines_agree: "list_all numeric_line ls \<Longrightarrow> list_all modules_agree ls"
  by (auto simp: list_all_iff modules_agree_def line_cents_agree)

lemma accept_loop:
  assumes "list_all modules_agree (filter due_line lines)"
  shows "totals_loop (accept_totals_lines lines) (cc_oneTime (qs_cadence s)) (qs_oneTimeTaxableBasis s)
       = (let s' = foldl add_quote_line s lines in (cc_oneTime (qs_cadence s'), qs_oneTimeTaxableBasis s'))"
  using assms
proof (induction lines arbitrary: s)
  case Nil
  then show ?case by (simp add: accept_totals_lines_def)
next
  case (Cons l ls)
  note IH = Cons.IH [of "add_quote_line s l"]
  show ?case
  proof (cases "due_line l")
    case True
    with Cons.prems IH show ?thesis
      by (simp add: accept_totals_lines_def due_line_def modules_agree_def add_quote_line_def add_cents_def Let_def)
  next
    case False
    with IH Cons.prems show ?thesis
      by (auto simp: accept_totals_lines_def due_line_def add_quote_line_def add_cents_def Let_def split: quote_recurrence.splits)
  qed
qed

lemma accept_due:
  assumes "list_all numeric_line (filter due_line lines)"
  shows "iv_total (accept_totals lines taxRate) = qt_dueOnAcceptanceTotal (computeQuoteTotals lines (quote_tax_rate taxRate) deposit)"
  using accept_loop [OF numeric_lines_agree [OF assms], of zero_sums]
  by (simp add: accept_totals_def computeInvoiceTotals_def computeQuoteTotals_def quote_tax_rate_def zero_sums_def zero_cadence_def Let_def
      split: option.splits prod.splits)

section \<open>Deposits\<close>

definition line_cents :: "quote_math_line \<Rightarrow> int" where
  "line_cents l = (case quote_line_cents l of Some x \<Rightarrow> \<lfloor>x\<rfloor> | None \<Rightarrow> 0)"

text \<open>Lines whose total is a text of whole cents; quantities and prices with two decimals give them.\<close>

definition cents_priced :: "quote_math_line \<Rightarrow> bool" where
  "cents_priced l \<longleftrightarrow> computeLineTotal (qm_quantity l) (qm_unitPrice l) = fixed_text 2 (line_cents l)"

definition due_lines :: "quote_math_line list \<Rightarrow> (int \<times> bool \<times> bool) list" where
  "due_lines lines =
     map (\<lambda>l. (line_cents l, qm_taxable l, True)) (filter due_line lines)"

lemma two_decimals_priced:
  assumes "qm_quantity l = fixed_text 2 q" and "qm_unitPrice l = fixed_text 2 p" and "\<bar>q * p\<bar> \<le> 5 * 10 ^ 14"
  shows "cents_priced l" and "line_cents l \<in> half_up_cents (q * p) 100"
proof -
  obtain c where c: "c \<in> half_up_cents (q * p) 100" and t: "computeLineTotal (fixed_text 2 q) (fixed_text 2 p) = fixed_text 2 c"
    using line_total_cents [OF assms(3)] by blast
  have "\<bar>c\<bar> \<le> 10 ^ 14" using half_up_cents_bound [OF _ c] assms(3) by simp
  with t have "line_cents l = c" by (simp add: line_cents_def quote_line_cents_def assms(1,2) toCents_text)
  with c t show "cents_priced l" and "line_cents l \<in> half_up_cents (q * p) 100" by (simp_all add: cents_priced_def assms(1,2))
qed

lemma accept_lines_cents:
  assumes "list_all cents_priced (filter due_line lines)"
  shows "accept_totals_lines lines = map cents_line (due_lines lines)"
  using assms by (auto simp: accept_totals_lines_def due_lines_def due_line_def [abs_def] cents_line_def cents_priced_def list_all_iff)

lemma percent_near: "near 7 (fl (of_int d * fl (fl (of_int p / 100) / 100))) (of_int (d * p) / of_int (2 * 5000))"
proof -
  from near_mult [OF near_fl [of "of_int p / 100"] near_refl [of 0 "1 / 100"]]
  have "near 2 (fl (of_int p / 100) / 100) (of_int p / 100 * (1 / 100))" by (simp add: numeral_2_eq_2)
  from near_round [OF this] have "near 4 (fl (fl (of_int p / 100) / 100)) (of_int p / 100 * (1 / 100))" by simp
  from near_mult [OF near_refl [of 0 "of_int d"] this]
  have "near 5 (of_int d * fl (fl (of_int p / 100) / 100)) (of_int (d * p) / of_int (2 * 5000))" by simp
  from near_round [OF this] show ?thesis by simp
qed

lemma cents_priced_agree: "list_all cents_priced ls \<Longrightarrow> list_all modules_agree ls"
  by (auto simp: list_all_iff modules_agree_def cents_priced_def quote_line_cents_def toCents_def toCents_shared_def Number_fixed_text)

lemma quote_due_sums:
  assumes "list_all cents_priced (filter due_line lines)" and "gross_cents (due_lines lines) \<le> 10 ^ 13"
  shows "cc_oneTime (qs_cadence (foldl add_quote_line zero_sums lines)) = Some (of_int (visible_cents (due_lines lines)))"
    and "qs_oneTimeTaxableBasis (foldl add_quote_line zero_sums lines) = Some (of_int (taxable_cents (due_lines lines)))"
proof -
  have "totals_loop (map cents_line (due_lines lines)) (Some 0) (Some 0)
      = (Some (of_int (visible_cents (due_lines lines))), Some (of_int (taxable_cents (due_lines lines))))"
    using totals_loop_exact [of 0 "due_lines lines" 0] assms(2) by simp
  with accept_loop [OF cents_priced_agree [OF assms(1)], of zero_sums] accept_lines_cents [OF assms(1)]
  show "cc_oneTime (qs_cadence (foldl add_quote_line zero_sums lines)) = Some (of_int (visible_cents (due_lines lines)))"
    and "qs_oneTimeTaxableBasis (foldl add_quote_line zero_sums lines) = Some (of_int (taxable_cents (due_lines lines)))"
    by (simp_all add: zero_sums_def zero_cadence_def Let_def)
qed

text \<open>The cents due on acceptance, as the totals of the quote carry them.\<close>

definition due_cents :: "quote_math_line list \<Rightarrow> jsnum \<Rightarrow> jsnum" where
  "due_cents lines rate =
     (let s = foldl add_quote_line zero_sums lines
      in js_add (cc_oneTime (qs_cadence s)) (roundHalfUp (js_mul (qs_oneTimeTaxableBasis s) rate)))"

lemma due_cents_exact:
  assumes "list_all cents_priced (filter due_line lines)" and "gross_cents (due_lines lines) \<le> 10 ^ 13"
    and "\<bar>taxable_cents (due_lines lines) * r\<bar> \<le> 10 ^ 15"
  obtains tax where "tax \<in> half_up_cents (taxable_cents (due_lines lines) * r) (2 * 50000)"
    and "due_cents lines (js_Number (fixed_text 5 r)) = Some (of_int (visible_cents (due_lines lines) + tax))"
    and "\<bar>visible_cents (due_lines lines) + tax\<bar> \<le> gross_cents (due_lines lines) + 10 ^ 10 + 1"
proof -
  let ?ls = "due_lines lines"
  obtain tax where tax: "tax \<in> half_up_cents (taxable_cents ?ls * r) (2 * 50000)"
    and rh: "roundHalfUp (Some (fl (of_int (taxable_cents ?ls) * fl (of_int r / 100000)))) = Some (of_int tax)"
    using roundHalfUp_near [OF tax_near [of "taxable_cents ?ls" r]] assms(3) by auto
  have b: "\<bar>visible_cents ?ls + tax\<bar> \<le> gross_cents ?ls + 10 ^ 10 + 1"
    using half_up_cents_bound [OF _ tax] visible_le_gross(1) [of ?ls] assms(3) by simp
  then have "\<bar>visible_cents ?ls + tax\<bar> \<le> 10 ^ 14" using assms(2) by simp
  from js_add_int [OF this] rh have "due_cents lines (js_Number (fixed_text 5 r)) = Some (of_int (visible_cents ?ls + tax))"
    by (simp add: due_cents_def quote_due_sums [OF assms(1,2)] Number_fixed_text js_mul_def)
  with tax b show thesis by (intro that)
qed

lemma percent_deposit_cents:
  assumes "0 < p" and "roundHalfUp (Some (fl (of_int d * fl (fl (of_int p / 100) / 100)))) = Some (of_int c)"
  shows "deposit_cents s rate (Some (of_int d)) (Some (PercentDeposit (js_Number (fixed_text 2 p)))) = (if c \<le> 0 then None else Some (Some (of_int c)))"
proof -
  have "0 < fl (of_int p / 100)" using assms(1) by (intro fl_pos_iff) simp
  with assms(2) show ?thesis
    by (simp add: deposit_cents_def Number_fixed_text js_less_def js_le_def js_mul_def js_div_def)
qed

lemma validate_percent:
  assumes "due_cents lines (js_Number (fixed_text 5 r)) = Some (of_int d)" and "\<bar>d\<bar> \<le> 10 ^ 13" and "0 < p" and "p < 10000"
    and "\<bar>c\<bar> \<le> 10 ^ 14"
    and "\<And>s rate. deposit_cents s rate (Some (of_int d)) (Some (PercentDeposit (js_Number (fixed_text 2 p)))) = (if c \<le> 0 then None else Some (Some (of_int c)))"
  shows "validateQuoteDeposit lines (quote_tax_rate (Some (fixed_text 5 r))) (PercentDeposit (js_Number (fixed_text 2 p))) =
         (if d \<le> 0 then Inl DEPOSIT_REQUIRES_ONE_TIME_LINES else if c \<le> 0 then Inl DEPOSIT_PERCENT_INVALID
          else if d \<le> c then Inl DEPOSIT_NOT_BELOW_TOTAL else Inr (Some (fixed_text 2 c)))"
proof -
  have d: "\<bar>d\<bar> \<le> 10 ^ 14" using assms(2) by simp
  have p: "0 < fl (of_int p / 100)" using assms(3) by (intro fl_pos_iff) simp
  have "near 1 (fl (of_int p / 100)) (of_int p / 100)" by (rule near_fl)
  then have "\<bar>fl (of_int p / 100) - of_int p / 100\<bar> \<le> 1 / 9000000000000000 * (of_int p / 100)" using assms(3) by (simp add: near_def)
  moreover have "(of_int p :: rat) \<le> 9999" using assms(4) of_int_le_iff [of p 9999, where 'a = rat] by simp
  ultimately have p100: "fl (of_int p / 100) < 100" by linarith
  have N: "js_Number (fixed_text 2 p) = Some (fl (of_int p / 100))" by (simp add: Number_fixed_text)
  define totals where "totals = computeQuoteTotals lines (quote_tax_rate (Some (fixed_text 5 r))) (Some (PercentDeposit (Some (fl (of_int p / 100)))))"
  have "qt_dueOnAcceptanceTotal totals = fixed_text 2 d" "qt_depositDueTotal totals = (if c \<le> 0 then None else Some (fixed_text 2 c))"
    using assms(1,6) fromCents_int [OF d] fromCents_int [OF assms(5)]
    by (simp_all add: N totals_def computeQuoteTotals_def quote_tax_rate_def str_or_none_def due_cents_def Let_def)
  with p p100 toCents_text(2) [OF d] toCents_text(2) [OF assms(5)] show ?thesis
    by (simp add: validateQuoteDeposit_def N totals_def [symmetric] Let_def js_le_def not_le)
qed

text \<open>The check of a percent deposit decides on exact amounts. With \<open>d\<close> the cents due on acceptance (the visible one-time lines
  and their tax) the deposit is the percentage of \<open>d\<close> rounded to the nearest cent, and the check refuses a quote with nothing due,
  a deposit that rounds to nothing and a deposit that reaches the amount due, and otherwise returns that deposit.
\<close>

theorem percent_deposit_exact:
  assumes "list_all cents_priced (filter due_line lines)" and "gross_cents (due_lines lines) \<le> 7 * 10 ^ 10"
    and "\<bar>taxable_cents (due_lines lines) * r\<bar> \<le> 10 ^ 15" and "0 < p" and "p < 10000"
  shows "\<exists>tax \<in> half_up_cents (taxable_cents (due_lines lines) * r) 100000.
         \<exists>c \<in> half_up_cents ((visible_cents (due_lines lines) + tax) * p) 10000.
           let d = visible_cents (due_lines lines) + tax
           in validateQuoteDeposit lines (quote_tax_rate (Some (fixed_text 5 r))) (PercentDeposit (js_Number (fixed_text 2 p))) =
              (if d \<le> 0 then Inl DEPOSIT_REQUIRES_ONE_TIME_LINES else if c \<le> 0 then Inl DEPOSIT_PERCENT_INVALID
               else if d \<le> c then Inl DEPOSIT_NOT_BELOW_TOTAL else Inr (Some (fixed_text 2 c)))"
proof -
  let ?ls = "due_lines lines"
  have g: "gross_cents ?ls \<le> 10 ^ 13" using assms(2) by simp
  obtain tax where tax: "tax \<in> half_up_cents (taxable_cents ?ls * r) (2 * 50000)"
    and due: "due_cents lines (js_Number (fixed_text 5 r)) = Some (of_int (visible_cents ?ls + tax))"
    and b: "\<bar>visible_cents ?ls + tax\<bar> \<le> gross_cents ?ls + 10 ^ 10 + 1"
    using due_cents_exact [OF assms(1) g assms(3)] .
  define d where "d = visible_cents ?ls + tax"
  have d: "\<bar>d\<bar> \<le> 8 * 10 ^ 10 + 1" using b assms(2) by (simp add: d_def)
  have "\<bar>d\<bar> * p \<le> (8 * 10 ^ 10 + 1) * 10000" using d assms(4,5) by (intro mult_mono) simp_all
  then have dp: "\<bar>d * p\<bar> \<le> 9 * 10 ^ 14" using assms(4) by (simp add: abs_mult)
  obtain c where c: "c \<in> half_up_cents (d * p) (2 * 5000)"
    and dep: "roundHalfUp (Some (fl (of_int d * fl (fl (of_int p / 100) / 100)))) = Some (of_int c)"
    using roundHalfUp_near [OF percent_near [of d p]] dp by auto
  have cb: "\<bar>c\<bar> \<le> 10 ^ 14" using half_up_cents_bound [OF _ c] dp by simp
  from validate_percent [OF due [folded d_def] _ assms(4,5) cb percent_deposit_cents [OF assms(4) dep]] d tax c
  show ?thesis unfolding d_def by (intro bexI [of _ tax] bexI [of _ c]) simp_all
qed

definition sample_line :: "int \<Rightarrow> int \<Rightarrow> bool \<Rightarrow> quote_recurrence \<Rightarrow> quote_math_line" where
  "sample_line q p vis r = \<lparr>qm_quantity = fixed_text 2 q, qm_unitPrice = fixed_text 2 p, qm_unitCost = None, qm_taxable = True,
     qm_customerVisible = vis, qm_recurrence = r, qm_depositEligible = False, qm_itemType = None\<rparr>"

definition sample_quote :: "quote_math_line list" where
  "sample_quote = [sample_line 200 9999 True OneTime, sample_line 100 5000 True Monthly, sample_line 100 1000 False OneTime]"

lemma sample_due: "filter due_line sample_quote = [sample_line 200 9999 True OneTime]"
  by (simp add: sample_quote_def sample_line_def due_line_def)

lemma sample_cents: "line_cents (sample_line 200 9999 True OneTime) = 19998" "cents_priced (sample_line 200 9999 True OneTime)"
  using two_decimals_priced [of "sample_line 200 9999 True OneTime" 200 9999] by (simp_all add: sample_line_def half_up_cents_def)

lemma sample_due_lines: "due_lines sample_quote = [(19998, True, True)]"
  using sample_due sample_cents(1) by (simp add: due_lines_def due_line_def [abs_def]) (simp add: sample_line_def)

theorem percent_deposit_exact_witness:
  "validateQuoteDeposit sample_quote (quote_tax_rate (Some (fixed_text 5 8250))) (PercentDeposit (js_Number (fixed_text 2 3000))) = Inr (Some (fixed_text 2 6494))"
  using percent_deposit_exact [of sample_quote 8250 3000]
  by (simp add: sample_due sample_cents sample_due_lines gross_cents_def taxable_cents_def visible_cents_def half_up_cents_def)

section \<open>Charges\<close>

text \<open>An invoice with a deposit is charged in two parts that add up. With the total, the deposit and what was paid in cents, the
  next charge is what is missing of the deposit as long as the deposit is not paid, and the whole balance after that; paying it
  brings what was paid exactly to the deposit, or to the total.
\<close>

theorem charge_now_exact:
  assumes "0 \<le> paid" and "paid \<le> amount" and "0 < deposit" and "deposit \<le> amount" and "amount \<le> 10 ^ 14"
  shows "computeChargeNow (Some (fixed_text 2 deposit)) (fixed_text 2 paid) (fixed_text 2 (amount - paid)) =
         (if paid < deposit then (fixed_text 2 (deposit - paid), True) else (fixed_text 2 (amount - paid), False))"
proof -
  have b: "\<bar>amount - paid\<bar> \<le> 10 ^ 14" "\<bar>deposit\<bar> \<le> 10 ^ 14" "\<bar>paid\<bar> \<le> 10 ^ 14" "\<bar>deposit - paid\<bar> \<le> 10 ^ 14"
    using assms by linarith+
  have m: "min (of_int (deposit - paid)) (of_int (amount - paid)) = (of_int (deposit - paid) :: rat)" using assms(4) by simp
  show ?thesis
    using assms(3) js_sub_int [OF b(4)] fromCents_int [OF b(4)] m
    by (simp add: computeChargeNow_def toCents_text(2) [OF b(1)] toCents_text(2) [OF b(2)] toCents_text(2) [OF b(3)] js_less_def js_min_def del: of_int_diff)
qed

theorem charge_now_exact_witness:
  "computeChargeNow (Some (fixed_text 2 6494)) (fixed_text 2 0) (fixed_text 2 (21648 - 0)) = (fixed_text 2 (6494 - 0), True)
 \<and> computeChargeNow (Some (fixed_text 2 6494)) (fixed_text 2 6494) (fixed_text 2 (21648 - 6494)) = (fixed_text 2 (21648 - 6494), False)"
  using charge_now_exact [of 0 21648 6494] charge_now_exact [of 6494 21648 6494] by simp

end
