(* ===== verification/Quote_Runs.thy ===== *)
theory Quote_Runs
  imports Quote_Samples Quote_Money
begin

text \<open>Every operation on quotes as a step relation, together with the steps of the invoice and contract services that share the tables,
  what holds in every state the steps reach, and what requests that overlap can do.\<close>

section \<open>Steps\<close>

text \<open>New invoice tables; a quote whose invoice is gone loses the reference, as its foreign key says.\<close>

definition unlinked :: "invoice_db \<Rightarrow> quote_row \<Rightarrow> quote_row" where
  "unlinked b q =
     (case qr_convertedInvoiceId q of
        Some v \<Rightarrow> if vd_invoices b v = None then q\<lparr>qr_convertedInvoiceId := None\<rparr> else q
      | None \<Rightarrow> q)"

definition with_billing :: "invoice_db \<Rightarrow> quote_db \<Rightarrow> quote_db" where
  "with_billing b db = db\<lparr>qd_billing := b, qd_quotes := (\<lambda>i. map_option (unlinked b) (qd_quotes db i))\<rparr>"

inductive quote_step :: "quote_db \<Rightarrow> quote_db \<Rightarrow> bool" where
  create: "createQuote i input actor today db = Inr db' \<Longrightarrow> quote_step db db'"
| clone: "cloneQuote i new newBlock newLine fresh org ttl actor today db = Inr db' \<Longrightarrow> quote_step db db'"
| update: "updateQuote i patch actor db = Inr db' \<Longrightarrow> quote_step db db'"
| delete: "deleteDraftQuote i actor db = Inr db' \<Longrightarrow> quote_step db db'"
| add_block: "addBlock i k type template actor db = Inr db' \<Longrightarrow> quote_step db db'"
| update_block: "updateBlock i k type template actor db = Inr db' \<Longrightarrow> quote_step db db'"
| delete_block: "deleteBlock i k actor db = Inr db' \<Longrightarrow> quote_step db db'"
| manual_line: "addManualQuoteLine i k newBlk lineInput actor db = Inr db' \<Longrightarrow> quote_step db db'"
| catalog_line: "addCatalogQuoteLine i k newBlk item qty block actor db = Inr db' \<Longrightarrow> quote_step db db'"
| update_line: "updateQuoteLine i k linePatch actor db = Inr db' \<Longrightarrow> quote_step db db'"
| remove_line: "removeQuoteLine i k actor db = Inr db' \<Longrightarrow> quote_step db db'"
| reorder_blocks: "reorderBlocks i ids actor db = Inr db' \<Longrightarrow> quote_step db db'"
| reorder_lines: "reorderLines i k ids actor db = Inr db' \<Longrightarrow> quote_step db db'"
| move_line: "moveLineToBlock i k target actor db = Inr db' \<Longrightarrow> quote_step db db'"
| send: "sendQuote i opts actor today db = Inr db' \<Longrightarrow> quote_step db db'"
| schedule: "schedule_send i job enq actor db = Inr (ok, db') \<Longrightarrow> quote_step db db'"
| cancel: "quote_step db (snd (cancelQuoteSend i db))"
| send_job: "quote_step db (processQuoteSendJob i job opts reason actor today db)"
| view: "quote_step db (markQuoteViewed i org now db)"
| decline: "declineQuoteByActor i reason actor today db = Inr db' \<Longrightarrow> quote_step db db'"
| decline_public: "declinePublic i org jti reason today now db = Inr db' \<Longrightarrow> quote_step db db'"
| expire: "quote_step db (expireQuotes ids today db)"
| accept: "acceptQuote i newIds params today now db = Inr db' \<Longrightarrow> 0 \<le> year_of today \<Longrightarrow> quote_step db db'"
| accept_portal: "accept_portal i org email newIds params today now db = Inr db' \<Longrightarrow> 0 \<le> year_of today \<Longrightarrow> quote_step db db'"
| counter: "quote_step db (snd (allocateQuoteCounter partner year db))"
| invoicing: "invoice_step (qd_billing db) b \<Longrightarrow> quote_step db (with_billing b db)"
| contracting: "billing_step (qd_contracts db) c \<Longrightarrow> quote_step db (db\<lparr>qd_contracts := c\<rparr>)"
| settings: "quote_step db (db\<lparr>qd_versions := versions, qd_templates := templates, qd_catalog := catalog\<rparr>)"

lemma sound_with_billing:
  assumes inv: "quote_inv db" and b: "invoice_inv b"
  shows "quote_sound db (with_billing b db)"
proof -
  define db' where "db' = with_billing b db"
  define clear where "clear = unlinked b"
  have qs: "qd_quotes db' i = map_option clear (qd_quotes db i)" for i by (simp add: db'_def with_billing_def clear_def)
  have rows: "qd_lines db' = qd_lines db" "qd_blocks db' = qd_blocks db" "qd_acceptances db' = qd_acceptances db" "qd_contracts db' = qd_contracts db"
      "qd_billing db' = b"
    by (simp_all add: db'_def with_billing_def)
  have clear: "qr_status (clear q) = qr_status q" "same_terms q (clear q)" "same_figures q (clear q)"
      "qr_convertedInvoiceId (clear q) = Some v \<longleftrightarrow> qr_convertedInvoiceId q = Some v \<and> vd_invoices b v \<noteq> None" for q v
    by (auto simp: clear_def unlinked_def row_defs split: option.split)
  have view: "content db' j = content db j" "blocks_of db' j = blocks_of db j" "math_lines db' j = math_lines db j" "acceptances_of db' j = acceptances_of db j" for j
    by (simp_all add: content_def items_of_def blocks_of_def math_lines_def acceptances_of_def rows)
  have "totals_at db' i (clear q) \<and> answer_ok db' i (clear q)" if q: "qd_quotes db i = Some q" for i q
    using totals_same [OF inv_totals [OF inv q] clear(3) view(3)] inv_answer [OF inv q] clear(1,4)
    by (auto simp: answer_ok_def view rows split: option.splits)
  moreover have "links_unique (qd_quotes db')"
    unfolding links_unique_def
  proof (intro allI impI, elim conjE)
    fix i j q r assume a: "qd_quotes db' i = Some q" "qd_quotes db' j = Some r" "qr_convertedInvoiceId q \<noteq> None" "qr_convertedInvoiceId q = qr_convertedInvoiceId r"
    then obtain q' r' v where "qd_quotes db i = Some q'" "qd_quotes db j = Some r'" "q = clear q'" "r = clear r'" "qr_convertedInvoiceId q = Some v" by (auto simp: qs)
    moreover from this a(4) have "qr_convertedInvoiceId q' = Some v" "qr_convertedInvoiceId r' = Some v" using clear(4) by metis+
    ultimately show "i = j" using inv unfolding quote_inv_def links_unique_def by (metis option.distinct(1))
  qed
  moreover have "rows_ok db'" using inv_rows [OF inv] by (auto simp: rows_ok_def rows qs list_all_iff)
  ultimately have "quote_inv db'" using inv b unfolding quote_inv_def by (auto simp: qs rows view)
  moreover have "keeps_sent db db'" unfolding keeps_sent_def using clear(1,2) by (auto simp: qs view)
  ultimately show ?thesis by (simp add: quote_sound_def db'_def)
qed

lemma quote_step_sound:
  assumes "quote_step db db'" and inv: "quote_inv db"
  shows "quote_sound db db'"
  using assms(1)
proof cases
  case (accept_portal i org email newIds params today now)
  then have "acceptQuote i newIds (params\<lparr>ap_jti := None\<rparr>) today now db = Inr db'"
    by (auto simp: accept_portal_def and_then_Inr split: option.splits)
  with accept_portal(2) show ?thesis by (intro sound_acceptQuote [OF inv])
next
  case (counter partner year)
  then show ?thesis by (intro sound_same_rows [OF inv]) (simp_all add: same_rows_def allocateQuoteCounter_def Let_def)
next
  case (invoicing b)
  have "invoice_inv (qd_billing db)" using inv by (simp add: quote_inv_def)
  with invoices.keeps [OF invoicing(2)] show ?thesis unfolding invoicing(1) by (intro sound_with_billing [OF inv])
next
  case (contracting c)
  have "billing_inv (qd_contracts db)" using inv by (simp add: quote_inv_def)
  with contract_tables.keeps [OF contracting(2)] have c: "billing_inv c" .
  have "rows_ok db'" using inv_rows [OF inv] by (simp add: contracting rows_ok_def)
  moreover have "content db' = content db" "blocks_of db' = blocks_of db" "math_lines db' = math_lines db" "acceptances_of db' = acceptances_of db"
    by (simp_all add: contracting fun_eq_iff content_def items_of_def blocks_of_def math_lines_def acceptances_of_def)
  ultimately show ?thesis
    using inv c unfolding quote_sound_def quote_inv_def keeps_sent_def by (simp add: contracting(1) totals_at_def answer_ok_def cong: option.case_cong)
next
  case (settings versions templates catalog)
  then show ?thesis by (intro sound_same_rows [OF inv]) (simp_all add: same_rows_def)
qed (auto intro: inv sound_createQuote sound_cloneQuote sound_updateQuote sound_deleteDraftQuote sound_addBlock sound_updateBlock sound_deleteBlock
    sound_line_additions sound_updateQuoteLine sound_removeQuoteLine sound_reorder sound_moveLineToBlock sound_sendQuote sound_schedule_send
    sound_cancelQuoteSend sound_processQuoteSendJob sound_markQuoteViewed sound_declineQuoteByActor sound_declinePublic sound_expireQuotes sound_acceptQuote)

interpretation quotes: step_invariant quote_step quote_inv
  using quote_step_sound quote_soundD by unfold_locales blast

text \<open>Tables without quotes, invoices and contracts.\<close>

definition no_quotes :: "quote_db \<Rightarrow> bool" where
  "no_quotes db \<longleftrightarrow> qd_quotes db = (\<lambda>_. None) \<and> qd_lines db = [] \<and> qd_blocks db = [] \<and> qd_acceptances db = [] \<and> no_invoices (qd_billing db)
     \<and> (\<exists>orgs. qd_contracts db = empty_tables orgs)"

lemma no_quotes_inv: "no_quotes db \<Longrightarrow> quote_inv db"
  using no_invoices_inv empty_tables_inv by (auto simp: no_quotes_def quote_inv_def rows_ok_def links_unique_def acceptances_of_def)

lemma quote_runs_keep:
  assumes "quote_step\<^sup>*\<^sup>* db db'" and "quote_inv db"
  shows "quote_sound db db'"
  using assms
proof (induction rule: rtranclp_induct)
  case base
  then show ?case by (rule quote_sound_refl)
next
  case (step b c)
  from step.IH [OF step.prems] have s: "quote_sound db b" .
  show ?case using quote_sound_trans [OF s quote_step_sound [OF step.hyps(2) quote_soundD [OF s]]] .
qed

lemma quotes_reached: "no_quotes db0 \<Longrightarrow> quote_step\<^sup>*\<^sup>* db0 db \<Longrightarrow> quote_inv db"
  using quotes.reachable_keeps no_quotes_inv by blast

definition sample_signed :: "bool \<Rightarrow> quote_row \<Rightarrow> quote_db \<Rightarrow> quote_db" where
  "sample_signed n q db = (set_quote ''q'' (converted_row (ai_invoice (sample_ids n)) sample_signing 0 q) db)
     \<lparr>qd_acceptances := qd_acceptances db @ [(ai_acceptance (sample_ids n), \<lparr>qa_quoteId = ''q'', qa_orgId = ''o'', qa_signerName = ''S'', qa_acceptanceTokenJti = None\<rparr>)],
      qd_billing := sample_billed (ai_invoice (sample_ids n)) (hd (ai_lines (sample_ids n))) (qd_billing db)\<rparr>"

lemma sample_accept:
  assumes q: "qd_quotes db ''q'' = Some q" "accepted_of q = accepted_of sample_out" "qr_status q \<in> {QSent, QViewed}" "qr_expiryDate q = None"
    and rows: "qd_lines db = [(''k'', sample_item)]" "qd_blocks db = [(''b'', sample_section)]" "ai_acceptance (sample_ids n) \<notin> fst ` set (qd_acceptances db)"
    and b: "vd_invoices (qd_billing db) (ai_invoice (sample_ids n)) = None" "hd (ai_lines (sample_ids n)) \<notin> fst ` set (vd_lines (qd_billing db))"
      "vd_orgs (qd_billing db) = vd_orgs sample_tables" "vd_partners (qd_billing db) = vd_partners sample_tables"
  shows "acceptQuote ''q'' (sample_ids n) sample_signing ''2026-01-31'' 0 db = Inr (sample_signed n q db)"
proof -
  have ls: "sorted_items db ''q'' = [(''k'', sample_item)]" by (simp add: sorted_items_def items_of_def rows) (simp add: sample_item_def)
  have bs: "sorted_blocks db ''q'' = [(''b'', sample_section)]" by (simp add: sorted_blocks_def blocks_of_def rows) (simp add: sample_section_def)
  have ids: "ai_lines (sample_ids n) = [hd (ai_lines (sample_ids n))]" "ai_contracts (sample_ids n) = []" by (simp_all add: sample_ids_def)
  have chk: "accept_checks sample_signing ''2026-01-31'' [(''b'', sample_section)] q = Inr ()"
    using q by (auto simp: accept_checks_def sample_signing_def sample_section_def open_for_answer_def isQuoteExpired_def str_or_none_def ensure_def)
  have specs: "buildContractSpecsFromQuote org p [contract_line_of (''k'', sample_item)] ''2026-01-31'' = Inr []" for org p
    by (simp add: buildContractSpecsFromQuote_def contract_line_of_def contract_recurrence_def sample_item_def)
  have org: "qr_orgId q = ''o''" using q(2) by (simp add: accepted_of_def sample_quote_defs)
  have inv: "accept_invoice (ai_invoice (sample_ids n)) (ai_lines (sample_ids n)) (accepted_of q) (accepted_lines [(''k'', sample_item)]) None ''2026-01-31''
      (qd_billing db) = Inr (sample_billed (ai_invoice (sample_ids n)) (hd (ai_lines (sample_ids n))) (qd_billing db))"
    by (subst ids(1)) (rule sample_invoiced [OF b q(2)])
  have "ap_actorUserId sample_signing = None" "ap_signerName sample_signing = ''S''" "ap_jti sample_signing = None" by (simp_all add: sample_signing_def)
  with inv rows(3) show ?thesis
    by (simp add: acceptQuote_def q(1) ls bs chk specs ids(2) on_database_def ensure_def sample_signed_def set_quote_def org Let_def)
qed

lemma sample_offered_fields:
  "qd_quotes sample_offered ''q'' = Some sample_out" "qd_lines sample_offered = [(''k'', sample_item)]" "qd_blocks sample_offered = [(''b'', sample_section)]"
  "qd_acceptances sample_offered = []" "qd_billing sample_offered = sample_tables" "qr_status sample_out = QSent" "qr_expiryDate sample_out = None"
  "qr_orgId sample_out = ''o''" "qr_siteId sample_out = None" "qd_recipients sample_offered = [(''q'', ''a@b'')]"
  by (simp_all add: sample_quote_defs)

lemma sample_first:
  "acceptQuote ''q'' (sample_ids False) sample_signing ''2026-01-31'' 0 sample_offered = Inr (sample_signed False sample_out sample_offered)"
  by (intro sample_accept) (simp_all add: sample_offered_fields sample_tables_def sample_ids_def)

lemma sample_runs: "no_quotes sample_quotes" "quote_step\<^sup>*\<^sup>* sample_quotes sample_offered"
  "quote_step\<^sup>*\<^sup>* sample_quotes (sample_signed False sample_out sample_offered)" "quote_step sample_offered (sample_signed False sample_out sample_offered)"
proof -
  show "no_quotes sample_quotes" using invoice_run(2) by (auto simp: no_quotes_def sample_quotes_def)
  have s: "quote_step sample_quotes sample_created" "quote_step sample_created sample_priced" "quote_step sample_priced sample_offered"
    using quote_step.create [OF sample_create] quote_step.manual_line [OF sample_price] quote_step.send [OF sample_send] .
  then show run: "quote_step\<^sup>*\<^sup>* sample_quotes sample_offered" by (meson converse_rtranclp_into_rtranclp rtranclp.rtrancl_refl)
  show a: "quote_step sample_offered (sample_signed False sample_out sample_offered)" by (rule quote_step.accept [OF sample_first]) (simp add: sample_numbers)
  show "quote_step\<^sup>*\<^sup>* sample_quotes (sample_signed False sample_out sample_offered)" by (rule rtranclp.rtrancl_into_rtrancl [OF run a])
qed

section \<open>What holds of every reachable state\<close>

text \<open>C9: a quote is accepted at most once. In every state that the operations on quotes, invoices and contracts reach from empty tables, a
  quote has one acceptance when it is converted and none otherwise; the invoice it refers to exists and no other quote refers to
  it; and accepting a converted quote again is refused, whoever asks.
\<close>

theorem quote_accepted_once:
  assumes "no_quotes db0" and "quote_step\<^sup>*\<^sup>* db0 db" and "qd_quotes db i = Some q"
  shows "length (acceptances_of db i) = (if qr_status q = QConverted then 1 else 0)
       \<and> (\<forall>v. qr_convertedInvoiceId q = Some v \<longrightarrow> qr_status q = QConverted \<and> vd_invoices (qd_billing db) v \<noteq> None
            \<and> (\<forall>j r. qd_quotes db j = Some r \<and> qr_convertedInvoiceId r = Some v \<longrightarrow> j = i))
       \<and> (qr_status q = QConverted \<longrightarrow> acceptQuote i newIds params today now db \<in> {Inl Q_INVALID_STATE, Inl RESPONSE_CONSUMED})"
proof (intro conjI allI impI)
  note inv = quotes_reached [OF assms(1,2)]
  note ans = inv_answer [OF inv assms(3)]
  show "length (acceptances_of db i) = (if qr_status q = QConverted then 1 else 0)" using ans by (simp add: answer_ok_def)
  fix v assume v: "qr_convertedInvoiceId q = Some v"
  show "qr_status q = QConverted" "vd_invoices (qd_billing db) v \<noteq> None" using ans v by (simp_all add: answer_ok_def)
  fix j r assume "qd_quotes db j = Some r \<and> qr_convertedInvoiceId r = Some v"
  with v assms(3) inv show "j = i" unfolding quote_inv_def links_unique_def by (metis option.distinct(1))
next
  assume "qr_status q = QConverted"
  then show "acceptQuote i newIds params today now db \<in> {Inl Q_INVALID_STATE, Inl RESPONSE_CONSUMED}"
    by (auto simp: acceptQuote_def assms(3) accept_checks_def ensure_def open_for_answer_def Let_def)
qed

theorem quote_accepted_once_witness:
  "length (acceptances_of (sample_signed False sample_out sample_offered) ''q'') = 1
 \<and> acceptQuote ''q'' (sample_ids True) sample_signing ''2026-01-31'' 0 (sample_signed False sample_out sample_offered)
     \<in> {Inl Q_INVALID_STATE, Inl RESPONSE_CONSUMED}"
proof -
  have "qd_quotes (sample_signed False sample_out sample_offered) ''q'' = Some (converted_row ''i'' sample_signing 0 sample_out)"
    by (simp add: sample_signed_def set_quote_def sample_ids_def)
  from quote_accepted_once [OF sample_runs(1,3) this] show ?thesis by (simp add: converted_row_fields)
qed

text \<open>C10: a quote that was sent is not rewritten. Whatever sequence of operations follows, the quote stays, never becomes a draft again, and
  keeps its number, parties, dates, tax rate, totals, deposit and terms, its blocks, and its lines in everything but the block
  they are shown in; once converted it stays converted.
\<close>

theorem sent_quote_frozen:
  assumes "no_quotes db0" and "quote_step\<^sup>*\<^sup>* db0 db" and "quote_step\<^sup>*\<^sup>* db db'" and "qd_quotes db i = Some q" and "qr_status q \<noteq> QDraft"
  shows "\<exists>r. qd_quotes db' i = Some r \<and> qr_status r \<noteq> QDraft \<and> (qr_status q = QConverted \<longrightarrow> qr_status r = QConverted)
     \<and> qr_partnerId r = qr_partnerId q \<and> qr_orgId r = qr_orgId q \<and> qr_quoteNumber r = qr_quoteNumber q \<and> qr_currencyCode r = qr_currencyCode q
     \<and> qr_expiryDate r = qr_expiryDate q \<and> qr_taxRate r = qr_taxRate q \<and> qr_subtotal r = qr_subtotal q \<and> qr_taxTotal r = qr_taxTotal q
     \<and> qr_total r = qr_total q \<and> qr_depositAmount r = qr_depositAmount q \<and> qr_termsAndConditions r = qr_termsAndConditions q
     \<and> map (apsnd (\<lambda>l. l\<lparr>qi_blockId := None\<rparr>)) (items_of db' i) = map (apsnd (\<lambda>l. l\<lparr>qi_blockId := None\<rparr>)) (items_of db i)
     \<and> blocks_of db' i = blocks_of db i"
proof -
  have "keeps_sent db db'" using quote_runs_keep [OF assms(3) quotes_reached [OF assms(1,2)]] by (simp add: quote_sound_def)
  from keeps_sentD [OF this assms(4,5)] obtain r where "qd_quotes db' i = Some r" "qr_status r \<noteq> QDraft" "same_terms q r" "content db' i = content db i"
    "blocks_of db' i = blocks_of db i" "qr_status q = QConverted \<longrightarrow> qr_status r = QConverted" .
  then show ?thesis unfolding content_def same_terms_def by (intro exI [of _ r]) simp
qed

theorem sent_quote_frozen_witness:
  "\<exists>r. qd_quotes (sample_signed False sample_out sample_offered) ''q'' = Some r \<and> qr_total r = ''1.00''"
proof -
  have "qr_total sample_out = ''1.00''" by (simp add: sample_quote_defs)
  moreover have "qr_status sample_out \<noteq> QDraft" by (simp add: sample_offered_fields)
  ultimately show ?thesis
    using sent_quote_frozen [OF sample_runs(1,2) r_into_rtranclp [where r = quote_step, OF sample_runs(4)] sample_offered_fields(1)] by metis
qed

text \<open>C12: the totals of a quote are always those of its lines. In every reachable state each amount stored on a quote is the amount that the
  shared calculation gives for the lines the quote has now, at its tax rate and with its deposit rule, as the column rounds it.
\<close>

theorem quote_totals_current:
  assumes "no_quotes db0" and "quote_step\<^sup>*\<^sup>* db0 db" and "qd_quotes db i = Some q"
    and "t = computeQuoteTotals (math_lines db i) (quote_tax_rate (qr_taxRate q)) (Some (toQuoteDepositConfig (Some (qr_depositType q)) (qr_depositPercent q)))"
  shows "numeric_column (qt_subtotal t) = Inr (qr_subtotal q) \<and> numeric_column (qt_taxTotal t) = Inr (qr_taxTotal q)
       \<and> numeric_column (qt_total t) = Inr (qr_total q) \<and> numeric_column (qt_oneTimeTotal t) = Inr (qr_oneTimeTotal q)
       \<and> numeric_column (qt_monthlyRecurringTotal t) = Inr (qr_monthlyRecurringTotal q)
       \<and> numeric_column (qt_annualRecurringTotal t) = Inr (qr_annualRecurringTotal q)
       \<and> numeric_column_opt (qt_depositDueTotal t) = Inr (qr_depositAmount q)"
  using inv_totals [OF quotes_reached [OF assms(1,2)] assms(3)] assms(4)
  by (simp add: totals_at_def store_totals_self on_database_Inr quote_totals_of_def)

theorem quote_totals_current_witness:
  "numeric_column (qt_total (computeQuoteTotals (math_lines sample_offered ''q'') None (Some NoDeposit))) = Inr ''1.00''"
  using quote_totals_current [OF sample_runs(1,2) sample_offered_fields(1) refl]
  by (simp add: sample_quote_defs quote_tax_rate_def str_or_none_def toQuoteDepositConfig_def)

section \<open>What an acceptance bills\<close>

lemma accepted_lines_due:
  "map (totals_line_of \<circ> accepted_spec) (accepted_lines ls) = accept_totals_lines (map (math_line \<circ> snd) ls)"
  by (induction ls) (auto simp: accepted_lines_def accept_totals_lines_def math_line_def accepted_spec_def totals_line_of_def line_spec_def)

lemma accepted_none: "accepted_lines ls = [] \<longleftrightarrow> filter due_line (map (math_line \<circ> snd) ls) = []"
  by (auto simp: accepted_lines_def filter_empty_conv due_line_def math_line_def)

lemma accept_invoice_row:
  assumes "accept_invoice v ks q ls u today b = Inr b'"
  shows "\<exists>w. vd_invoices b' v = Some w \<and> numeric_column (iv_total (accepted_totals q ls)) = Inr (inv_total w) \<and> inv_balance w = inv_total w
     \<and> inv_partnerId w = aq_partnerId q \<and> inv_orgId w = aq_orgId q \<and> inv_currencyCode w = aq_currencyCode q \<and> inv_taxRate w = aq_taxRate q
     \<and> (inv_number w \<noteq> None) = (ls \<noteq> []) \<and> (ls \<noteq> [] \<longrightarrow> inv_depositDue w = accepted_deposit q)"
proof -
  obtain b1 b2 x y z where ins: "insert_invoice v (accepted_draft q u) b = Inr b1"
    and mat: "materializeLines v (aq_orgId q) 0 (map accepted_spec ls) ks b1 = Inr b2" and z: "numeric_column (iv_total (accepted_totals q ls)) = Inr z"
    and fin: "b' = (if ls = [] then update_invoice v (accepted_row q None today x y z) b2 else accept_issue v q today x y z b2)"
    using assms by (auto simp: accept_invoice_def and_then_Inr)
  have "vd_invoices b2 v = Some (accepted_draft q u)"
    using materialize_plain [OF mat accepted_specs(1)] insert_invoice_cases [OF ins] by (simp add: set_invoice_def)
  then show ?thesis
    using fin z by (auto simp: update_invoice_def accept_issue_def allocate_number_def set_invoice_def accepted_row_def accepted_draft_def blank_invoice_def Let_def
        split: if_splits)
qed

text \<open>C11: accepting a quote bills what the quote shows as due on acceptance. The invoice an acceptance creates is for the parties, in the
  currency and at the tax rate of the quote; its total and its balance are the due-on-acceptance amount computed for the lines of
  the quote, as the column rounds it; it is issued with a number exactly when there is something due once, and then asks for the
  deposit of the quote.
\<close>

theorem acceptance_bills_due:
  assumes "acceptQuote i newIds params today now db = Inr db'" and "qd_quotes db i = Some q"
    and "ls = map (math_line \<circ> snd) (sorted_items db i)" and "list_all numeric_line (filter due_line ls)"
  shows "\<exists>v. vd_invoices (qd_billing db') (ai_invoice newIds) = Some v
     \<and> numeric_column (qt_dueOnAcceptanceTotal (computeQuoteTotals ls (quote_tax_rate (qr_taxRate q)) deposit)) = Inr (inv_total v)
     \<and> inv_balance v = inv_total v \<and> inv_partnerId v = qr_partnerId q \<and> inv_orgId v = qr_orgId q \<and> inv_currencyCode v = qr_currencyCode q
     \<and> inv_taxRate v = qr_taxRate q \<and> (inv_number v \<noteq> None) = list_ex due_line ls
     \<and> (list_ex due_line ls \<longrightarrow> inv_depositDue v = accepted_deposit (accepted_of q))"
  using assms(1)
proof (rule acceptQuote_cases)
  fix p b c specs
  assume p: "qd_quotes db i = Some p" and tables: "qd_billing db' = b"
    and invoice: "accept_invoice (ai_invoice newIds) (ai_lines newIds) (accepted_of p) (accepted_lines (sorted_items db i)) (ap_actorUserId params) today
      (qd_billing db) = Inr b"
  have "p = q" using p assms(2) by simp
  have "accepted_totals (accepted_of q) (accepted_lines (sorted_items db i)) = accept_totals ls (qr_taxRate q)"
    by (simp add: accepted_totals_def accepted_lines_due accept_totals_def accepted_of_def assms(3))
  then have due: "iv_total (accepted_totals (accepted_of q) (accepted_lines (sorted_items db i)))
      = qt_dueOnAcceptanceTotal (computeQuoteTotals ls (quote_tax_rate (qr_taxRate q)) deposit)"
    using accept_due [OF assms(4)] by simp
  have none: "accepted_lines (sorted_items db i) \<noteq> [] \<longleftrightarrow> list_ex due_line ls"
    unfolding accepted_none assms(3) by (auto simp: filter_empty_conv list_ex_iff)
  from accept_invoice_row [OF invoice [unfolded \<open>p = q\<close>]] show ?thesis
    unfolding due none tables by (auto simp: accepted_of_def)
qed

theorem acceptance_bills_due_witness:
  "\<exists>v. vd_invoices (qd_billing (sample_signed False sample_out sample_offered)) ''i'' = Some v
     \<and> numeric_column (qt_dueOnAcceptanceTotal (computeQuoteTotals [math_line sample_item] None None)) = Inr (inv_total v) \<and> inv_number v \<noteq> None"
proof -
  have ls: "sorted_items sample_offered ''q'' = [(''k'', sample_item)]" by (simp add: sorted_items_def items_of_def sample_offered_fields) (simp add: sample_item_def)
  have n: "numeric_line (math_line sample_item)" "due_line (math_line sample_item)"
    by (simp_all add: numeric_line_def due_line_def math_line_def sample_item_def sample_numbers)
  have "ai_invoice (sample_ids False) = ''i''" "quote_tax_rate (qr_taxRate sample_out) = None"
    by (simp_all add: sample_ids_def sample_quote_defs quote_tax_rate_def str_or_none_def)
  with acceptance_bills_due [OF sample_first sample_offered_fields(1) refl, of None] ls n show ?thesis by auto
qed

section \<open>Requests at the same time\<close>

lemma sample_signed_fields:
  "qd_quotes (sample_signed False sample_out sample_offered) ''q'' = Some (converted_row ''i'' sample_signing 0 sample_out)"
  "live_at (qd_billing (sample_signed False sample_out sample_offered)) ''i''"
  by (simp_all add: sample_signed_def set_quote_def sample_ids_def sample_offered_fields live_at_def sample_billed_def sample_bill_def blank_invoice_def
      set_invoice_def Let_def)

lemma sample_refused:
  "acceptQuote ''q'' (sample_ids True) sample_signing ''2026-01-31'' 0 (sample_signed False sample_out sample_offered) = Inl Q_INVALID_STATE"
  by (simp add: acceptQuote_def sample_signed_fields accept_checks_def converted_row_fields open_for_answer_def sample_signing_def str_or_none_def ensure_def Let_def)

lemma view_reopens_accepted_quote:
  "\<exists>q d1 d2. view_read ''q'' ''o'' sample_offered = Some q
     \<and> acceptQuote ''q'' (sample_ids False) sample_signing ''2026-01-31'' 0 sample_offered = Inr d1
     \<and> acceptQuote ''q'' (sample_ids True) sample_signing ''2026-01-31'' 0 d1 = Inl Q_INVALID_STATE
     \<and> accept_portal ''q'' ''o'' ''a@b'' (sample_ids True) sample_signing ''2026-01-31'' 0 (view_write ''q'' q 0 d1) = Inr d2
     \<and> length (acceptances_of d2 ''q'') = 2 \<and> live_at (qd_billing d2) ''i'' \<and> live_at (qd_billing d2) ''j''"
proof -
  define d1 where "d1 = sample_signed False sample_out sample_offered"
  define r where "r = (converted_row ''i'' sample_signing 0 sample_out)\<lparr>qr_firstViewedAt := Some 0, qr_status := QViewed\<rparr>"
  define d where "d = view_write ''q'' sample_out 0 d1"
  have read: "view_read ''q'' ''o'' sample_offered = Some sample_out" by (simp add: view_read_def sample_offered_fields)
  have viewed: "qr_firstViewedAt sample_out = None" by (simp add: sample_quote_defs)
  have d: "d = set_quote ''q'' r d1"
    by (simp add: d_def view_write_def update_quote_def d1_def sample_signed_fields r_def viewed sample_offered_fields)
  have r: "qr_status r = QViewed" "qr_orgId r = ''o''" "qr_expiryDate r = None" "accepted_of r = accepted_of sample_out"
    by (simp_all add: r_def converted_row_def sample_signing_def str_or_none_def sample_offered_fields accepted_of_def Let_def)
  have db: "qd_quotes d ''q'' = Some r" "qd_lines d = [(''k'', sample_item)]" "qd_blocks d = [(''b'', sample_section)]" "qd_recipients d = [(''q'', ''a@b'')]"
      "qd_acceptances d = [(''a'', \<lparr>qa_quoteId = ''q'', qa_orgId = ''o'', qa_signerName = ''S'', qa_acceptanceTokenJti = None\<rparr>)]"
      "qd_billing d = sample_billed ''i'' ''m'' sample_tables"
    by (simp_all add: d d1_def set_quote_def sample_signed_def sample_offered_fields sample_ids_def)
  have second: "acceptQuote ''q'' (sample_ids True) sample_signing ''2026-01-31'' 0 d = Inr (sample_signed True r d)"
    by (rule sample_accept [OF db(1) r(4) _ r(3) db(2,3)])
      (simp_all add: r db sample_ids_def sample_billed_def set_invoice_def sample_tables_def Let_def)
  have "normalizeEmail ''a@b'' = ''a@b''" by code_simp
  moreover have "sample_signing\<lparr>ap_jti := None\<rparr> = sample_signing" by (simp add: sample_signing_def)
  ultimately have "accept_portal ''q'' ''o'' ''a@b'' (sample_ids True) sample_signing ''2026-01-31'' 0 d = Inr (sample_signed True r d)"
    using second by (simp add: accept_portal_def view_read_def db r ensure_def)
  moreover have "length (acceptances_of (sample_signed True r d) ''q'') = 2" by (simp add: acceptances_of_def sample_signed_def set_quote_def db)
  moreover have "live_at (qd_billing (sample_signed True r d)) ''i''" "live_at (qd_billing (sample_signed True r d)) ''j''"
    by (simp_all add: sample_signed_def sample_ids_def db live_at_def sample_billed_def sample_bill_def blank_invoice_def set_invoice_def Let_def)
  ultimately show ?thesis using read sample_first sample_refused unfolding d_def d1_def by blast
qed

lemma decline_overwrites_acceptance:
  "\<exists>d r. decline_check ''q'' sample_actor ''2026-01-31'' sample_offered = Inr ()
     \<and> acceptQuote ''q'' (sample_ids False) sample_signing ''2026-01-31'' 0 sample_offered = Inr d
     \<and> declineQuoteByActor ''q'' None sample_actor ''2026-01-31'' d = Inl Q_INVALID_STATE
     \<and> qd_quotes (decline_write ''q'' None d) ''q'' = Some r \<and> qr_status r = QDeclined \<and> qr_convertedInvoiceId r = Some ''i''
     \<and> live_at (qd_billing (decline_write ''q'' None d)) ''i''"
proof -
  define d where "d = sample_signed False sample_out sample_offered"
  note f = sample_signed_fields [folded d_def]
  have "decline_check ''q'' sample_actor ''2026-01-31'' sample_offered = Inr ()"
    by (simp add: decline_check_def quote_access_defs sample_offered_fields open_for_answer_def isQuoteExpired_def)
  moreover have "declineQuoteByActor ''q'' None sample_actor ''2026-01-31'' d = Inl Q_INVALID_STATE"
    by (simp add: declineQuoteByActor_def decline_check_def quote_access_defs f converted_row_fields open_for_answer_def converted_row_def sample_signing_def
        sample_offered_fields Let_def)
  ultimately show ?thesis
    using sample_first f by (simp add: d_def [symmetric] decline_write_def update_quote_def set_quote_def converted_row_fields)
qed

text \<open>A view or a decline that overlaps an acceptance undoes it. Both read the quote first and then write without a condition;
  whenever an acceptance commits in between, by whatever signer, the first view of a sent quote sets the converted quote back to
  viewed, so that it is open for an answer again, and the decline sets it to declined, while the acceptance and its invoice
  stay. After the acceptance, the same view leaves the quote converted and the same decline is refused.
\<close>

theorem overlapping_writes_undo_acceptance:
  assumes "acceptQuote i ids params today now db = Inr d" and "view_read i org db = Some q" and "qr_status q = QSent"
    and "decline_check i actor today db = Inr ()"
  shows "(\<exists>r. qd_quotes (markQuoteViewed i org now' d) i = Some r \<and> qr_status r = QConverted)
       \<and> declineQuoteByActor i reason actor today d = Inl Q_INVALID_STATE
       \<and> (\<exists>r. qd_quotes (view_write i q now' d) i = Some r \<and> open_for_answer r \<and> qr_convertedInvoiceId r = Some (ai_invoice ids))
       \<and> (\<exists>r. qd_quotes (decline_write i reason d) i = Some r \<and> qr_status r = QDeclined \<and> qr_convertedInvoiceId r = Some (ai_invoice ids))
       \<and> acceptances_of (view_write i q now' d) i \<noteq> [] \<and> acceptances_of (decline_write i reason d) i \<noteq> []
       \<and> qd_billing (view_write i q now' d) = qd_billing d \<and> qd_billing (decline_write i reason d) = qd_billing d"
proof (rule acceptQuote_cases [OF assms(1)])
  fix p
  assume p: "qd_quotes db i = Some p" "qd_quotes d = (qd_quotes db)(i \<mapsto> converted_row (ai_invoice ids) params now p)"
    and acc: "acceptances_of d i = acceptances_of db i @ [(ai_acceptance ids, \<lparr>qa_quoteId = i, qa_orgId = qr_orgId p, qa_signerName = ap_signerName params,
                           qa_acceptanceTokenJti = ap_jti params\<rparr>)]"
  let ?c = "converted_row (ai_invoice ids) params now p"
  have q: "q = p" "qr_orgId p = org" using assms(2) p(1) by (auto simp: view_read_def split: if_splits)
  have c: "qr_orgId ?c = qr_orgId p" "qr_siteId ?c = qr_siteId p" "qr_status ?c = QConverted" "qr_convertedInvoiceId ?c = Some (ai_invoice ids)"
    by (simp_all add: converted_row_def Let_def split: option.split)
  have "assertQuoteAccess actor ?c = assertQuoteAccess actor p" unfolding assertQuoteAccess_def c ..
  moreover have "assertQuoteAccess actor p = Inr ()" using assms(4) p(1) by (auto simp: decline_check_def getQuote_def and_then_Inr)
  ultimately have "declineQuoteByActor i reason actor today d = Inl Q_INVALID_STATE"
    using p(2) c(3) by (simp add: declineQuoteByActor_def decline_check_def getQuote_def open_for_answer_def and_then_def ensure_def)
  then show ?thesis
    using p(2) c q assms(3) acc
    by (simp add: markQuoteViewed_def view_read_def view_write_def decline_write_def update_quote_def set_quote_def open_for_answer_def acceptances_of_def)
qed

theorem overlapping_writes_undo_acceptance_witness:
  "\<exists>r. qd_quotes (view_write ''q'' sample_out 0 (sample_signed False sample_out sample_offered)) ''q'' = Some r \<and> open_for_answer r
     \<and> qr_convertedInvoiceId r = Some ''i''"
proof -
  have "view_read ''q'' ''o'' sample_offered = Some sample_out" by (simp add: view_read_def sample_offered_fields)
  moreover have "decline_check ''q'' sample_actor ''2026-01-31'' sample_offered = Inr ()"
    by (simp add: decline_check_def quote_access_defs sample_offered_fields open_for_answer_def isQuoteExpired_def)
  moreover have "ai_invoice (sample_ids False) = ''i''" by (simp add: sample_ids_def)
  ultimately show ?thesis
    using overlapping_writes_undo_acceptance [OF sample_first, of "''o''" sample_out sample_actor 0 None] by (simp add: sample_offered_fields)
qed

text \<open>On the sample, after such a view a second acceptance from the portal succeeds, and the customer has two invoices for one quote.\<close>

theorem late_writes_undo_acceptance:
  "\<exists>q d d2 r. view_read ''q'' ''o'' sample_offered = Some q \<and> decline_check ''q'' sample_actor ''2026-01-31'' sample_offered = Inr ()
     \<and> acceptQuote ''q'' (sample_ids False) sample_signing ''2026-01-31'' 0 sample_offered = Inr d
     \<and> acceptQuote ''q'' (sample_ids True) sample_signing ''2026-01-31'' 0 d = Inl Q_INVALID_STATE
     \<and> declineQuoteByActor ''q'' None sample_actor ''2026-01-31'' d = Inl Q_INVALID_STATE
     \<and> accept_portal ''q'' ''o'' ''a@b'' (sample_ids True) sample_signing ''2026-01-31'' 0 (view_write ''q'' q 0 d) = Inr d2
     \<and> length (acceptances_of d2 ''q'') = 2 \<and> live_at (qd_billing d2) ''i'' \<and> live_at (qd_billing d2) ''j''
     \<and> qd_quotes (decline_write ''q'' None d) ''q'' = Some r \<and> qr_status r = QDeclined \<and> qr_convertedInvoiceId r = Some ''i''
     \<and> live_at (qd_billing (decline_write ''q'' None d)) ''i''"
  using view_reopens_accepted_quote decline_overwrites_acceptance by (metis Inr_inject)

end
