(* ===== verification/Stripe_Payments.thy ===== *)
theory Stripe_Payments
  imports Invoice_Runs
begin

text \<open>
  apps/api/src/services/stripeReconcile.ts with services/stripeMoney.ts, services/stripeSettle.ts and the capture, failure and
  refund events of services/stripeWebhook.ts: charges that Stripe took and refunds it made, written to the payments of the
  invoices. A row of \<open>invoice_stripe_payments\<close> maps a checkout session to the payment it became. The state is the invoice tables
  and those rows, with the foreign keys and the check constraint that the migrations give them; every operation runs in one
  transaction, so an error leaves the state as it was. Events and audit entries are left out, and what Stripe says of a session
  or a charge is an argument.
\<close>

section \<open>Minor units\<close>

text \<open>\<open>toUpperCase\<close> on the letters that currency codes have.\<close>

definition toUpperCase :: "string \<Rightarrow> string" where
  "toUpperCase s = map (\<lambda>c. let n = of_char c :: nat in if 97 \<le> n \<and> n \<le> 122 then char_of (n - 32) else c) s"

definition ZERO_DECIMAL :: "string list" where
  "ZERO_DECIMAL =
     [''BIF'', ''CLP'', ''DJF'', ''GNF'', ''JPY'', ''KMF'', ''KRW'', ''MGA'', ''PYG'', ''RWF'', ''UGX'', ''VND'', ''VUV'', ''XAF'', ''XOF'', ''XPF'']"

definition isZeroDecimal :: "string \<Rightarrow> bool" where
  "isZeroDecimal currency = (toUpperCase currency \<in> set ZERO_DECIMAL)"

text \<open>\<open>None\<close> is the error thrown for an amount that is no number.\<close>

definition toMinorUnits :: "string \<Rightarrow> string \<Rightarrow> jsnum" where
  "toMinorUnits amountMajor currency =
     (let n = js_Number amountMajor
      in if isZeroDecimal currency then math_round n else math_round (js_mul n (Some 100)))"

definition fromMinorUnits :: "int \<Rightarrow> string \<Rightarrow> string" where
  "fromMinorUnits minor currency =
     (let n = Some (of_int minor) in if isZeroDecimal currency then js_toFixed 2 n else js_toFixed 2 (js_div n (Some 100)))"

text \<open>The cents of an amount in minor units.\<close>

definition minor_cents :: "int \<Rightarrow> string \<Rightarrow> int" where
  "minor_cents minor currency = (if isZeroDecimal currency then minor * 100 else minor)"

section \<open>Tables\<close>

datatype stripe_status = SpPending | SpSucceeded | SpFailed | SpRefunded | SpPartiallyRefunded

record stripe_mapping =
  sm_orgId :: id
  sm_invoiceId :: id
  sm_invoicePaymentId :: "id option"
  sm_stripeAccountId :: string
  sm_stripeObjectId :: string
  sm_stripePaymentIntentId :: "string option"
  sm_amount :: string
  sm_currency :: string
  sm_status :: stripe_status

record payment_db =
  pd_tables :: invoice_db
  pd_mappings :: "(id \<times> stripe_mapping) list"

datatype stripe_error = NO_MAPPING | NO_INVOICE | CHECK_VIOLATION | STORE invoice_error

text \<open>
  What the invoice tables do to the mappings when rows go: a mapping goes with its invoice, and its payment is set to null when
  the payment goes. A succeeded mapping has a payment, by a check that such an update violates.
\<close>

definition unlink_gone :: "invoice_db \<Rightarrow> (id \<times> stripe_mapping) list \<Rightarrow> (id \<times> stripe_mapping) list" where
  "unlink_gone db ms =
     map (apsnd (\<lambda>m. case sm_invoicePaymentId m of
              Some p \<Rightarrow> if p \<in> fst ` set (vd_payments db) then m else m\<lparr>sm_invoicePaymentId := None\<rparr>
            | None \<Rightarrow> m))
       (filter (\<lambda>(k, m). vd_invoices db (sm_invoiceId m) \<noteq> None) ms)"

definition succeeded_has_payment :: "id \<times> stripe_mapping \<Rightarrow> bool" where
  "succeeded_has_payment row = (sm_status (snd row) = SpSucceeded \<longrightarrow> sm_invoicePaymentId (snd row) \<noteq> None)"

definition put_tables :: "invoice_db \<Rightarrow> (id \<times> stripe_mapping) list \<Rightarrow> stripe_error + payment_db" where
  "put_tables db ms =
     (let ms' = unlink_gone db ms
      in and_then (ensure (list_all succeeded_has_payment ms') CHECK_VIOLATION) (\<lambda>_. Inr \<lparr>pd_tables = db, pd_mappings = ms'\<rparr>))"

definition update_mapping :: "id \<Rightarrow> (stripe_mapping \<Rightarrow> stripe_mapping) \<Rightarrow> (id \<times> stripe_mapping) list \<Rightarrow> (id \<times> stripe_mapping) list" where
  "update_mapping k f ms = map (\<lambda>(j, m). (j, if j = k then f m else m)) ms"


definition store :: "(invoice_error + 'a) \<Rightarrow> stripe_error + 'a" where
  "store r = (case r of Inl e \<Rightarrow> Inl (STORE e) | Inr x \<Rightarrow> Inr x)"

section \<open>Captures\<close>








section \<open>Refunds\<close>

record refund_input =
  rf_stripePaymentIntentId :: string
  rf_amountRefundedCents :: int
  rf_chargeAmountCents :: int
  rf_currency :: string
  rf_stripeAccountId :: string

text \<open>A full refund deletes the payment, a partial one lowers it to what remains; either way the status is recomputed.\<close>

definition delete_payment :: "id \<Rightarrow> payment_db \<Rightarrow> stripe_error + payment_db" where
  "delete_payment p pd =
     put_tables ((pd_tables pd)\<lparr>vd_payments := filter (\<lambda>(k, q). k \<noteq> p) (vd_payments (pd_tables pd))\<rparr>) (pd_mappings pd)"

definition lower_payment :: "id \<Rightarrow> string \<Rightarrow> invoice_db \<Rightarrow> invoice_error + invoice_db" where
  "lower_payment p amount db =
     and_then (numeric_column amount) (\<lambda>a.
     and_then (ensure (js_less (Some 0) (js_Number a)) NUMERIC_OVERFLOW) (\<lambda>_.
     Inr (db\<lparr>vd_payments := map (\<lambda>(k, q). (k, if k = p then q\<lparr>ip_amount := a\<rparr> else q)) (vd_payments db)\<rparr>)))"

definition reflectStripeRefund :: "refund_input \<Rightarrow> int \<Rightarrow> payment_db \<Rightarrow> stripe_error + payment_db" where
  "reflectStripeRefund input now pd =
     (case find (\<lambda>(k, m). sm_stripePaymentIntentId m = Some (rf_stripePaymentIntentId input)) (pd_mappings pd) of
        None \<Rightarrow> Inr pd
      | Some (k, m) \<Rightarrow>
          (case sm_invoicePaymentId m of
             None \<Rightarrow> Inr pd
           | Some p \<Rightarrow>
               if rf_stripeAccountId input = [] \<or> rf_stripeAccountId input \<noteq> sm_stripeAccountId m then Inr pd
               else and_then
                 (if rf_amountRefundedCents input \<ge> rf_chargeAmountCents input
                  then and_then (delete_payment p pd) (\<lambda>pd1.
                       Inr (pd1\<lparr>pd_mappings := update_mapping k (\<lambda>m. m\<lparr>sm_status := SpRefunded, sm_invoicePaymentId := None\<rparr>)
                                  (pd_mappings pd1)\<rparr>))
                  else and_then (store (lower_payment p
                         (fromMinorUnits (rf_chargeAmountCents input - rf_amountRefundedCents input) (rf_currency input)) (pd_tables pd))) (\<lambda>db1.
                       Inr \<lparr>pd_tables = db1, pd_mappings = update_mapping k (\<lambda>m. m\<lparr>sm_status := SpPartiallyRefunded\<rparr>) (pd_mappings pd)\<rparr>))
                 (\<lambda>pd1. and_then (store (recomputeInvoiceStatus (sm_invoiceId m) now (pd_tables pd1))) (\<lambda>db2.
                        Inr (pd1\<lparr>pd_tables := db2\<rparr>)))))"

section \<open>Payments of the invoice service\<close>




lemma tables_payments [simp]:
  "vd_payments (update_invoice i f db) = vd_payments db" "vd_payments (set_times ids b db) = vd_payments db"
  "vd_payments (set_parts ids b db) = vd_payments db" "vd_payments (snd (allocate_number p y db)) = vd_payments db"
  by (simp_all add: update_invoice_def set_times_def set_parts_def allocate_number_def Let_def split: option.split)

lemma parts_payments:
  "insert_invoice i v db = Inr db' \<Longrightarrow> vd_payments db' = vd_payments db"
  "recomputeInvoiceTotals i r db = Inr db' \<Longrightarrow> vd_payments db' = vd_payments db"
  "recomputeInvoiceStatus i now db = Inr db' \<Longrightarrow> vd_payments db' = vd_payments db"
  "add_line k l db = Inr db' \<Longrightarrow> vd_payments db' = vd_payments db"
  by (auto simp: insert_invoice_def recomputeInvoiceTotals_def recomputeInvoiceStatus_def add_line_def and_then_Inr Let_def)




section \<open>Steps\<close>






lemma update_mapping_keys [simp]: "map fst (update_mapping k f ms) = map fst ms"
  by (simp add: update_mapping_def o_def case_prod_beta)






section \<open>Amounts\<close>

lemma fromMinorUnits_text:
  assumes "\<bar>minor_cents n currency\<bar> \<le> 10 ^ 14"
  shows "fromMinorUnits n currency = fixed_text 2 (minor_cents n currency)"
proof (cases "isZeroDecimal currency")
  case True
  have "to_fixed 2 (of_int n) = fixed_text 2 (n * 100)" by (rule to_fixed_near) simp_all
  with True show ?thesis by (simp add: fromMinorUnits_def minor_cents_def js_toFixed_def)
next
  case False
  with assms fromCents_int [of n] show ?thesis by (simp add: fromMinorUnits_def minor_cents_def fromCents_def)
qed

lemma fromMinorUnits_Number:
  "\<bar>minor_cents n currency\<bar> \<le> 10 ^ 14 \<Longrightarrow> js_Number (fromMinorUnits n currency) = Some (fl (of_int (minor_cents n currency) / 100))"
  by (simp add: fromMinorUnits_text Number_fixed_text)

section \<open>Captures keep the invariant\<close>

text \<open>To the invoice tables a capture is a payment by an actor that may do everything.\<close>

definition stripe_actor :: invoice_actor where
  "stripe_actor = \<lparr>ia_userId = None, ia_partnerId = None, ia_accessibleOrgIds = None, ia_allowedSiteIds = None\<rparr>"


lemma stripe_actor_access [simp]: "requireInvoiceAccess stripe_actor v = Inr ()" "ia_userId stripe_actor = None"
  by (simp_all add: access_defs stripe_actor_def)

lemma store_Inr [simp]: "store r = Inr x \<longleftrightarrow> r = Inr x"
  by (simp add: store_def split: sum.split)





section \<open>Refunds keep the invariant\<close>







section \<open>Runs\<close>





text \<open>A run: the invoice of the sample is issued, a checkout is opened for it and paid.\<close>

definition sample_mapping :: stripe_mapping where
  "sample_mapping = \<lparr>sm_orgId = ''o'', sm_invoiceId = ''i'', sm_invoicePaymentId = None, sm_stripeAccountId = ''acct'',
     sm_stripeObjectId = ''cs'', sm_stripePaymentIntentId = None, sm_amount = ''1.00'', sm_currency = ''USD'', sm_status = SpPending\<rparr>"


definition sample_refund :: "int \<Rightarrow> refund_input" where
  "sample_refund n = \<lparr>rf_stripePaymentIntentId = ''pi'', rf_amountRefundedCents = n, rf_chargeAmountCents = 100, rf_currency = ''usd'',
     rf_stripeAccountId = ''acct''\<rparr>"




definition sample_recorded :: invoice_payment where
  "sample_recorded = \<lparr>ip_invoiceId = ''i'', ip_orgId = ''o'', ip_amount = ''1.00'', ip_method = ''card'', ip_reference = Some ''pi'',
     ip_receivedAt = ''2026-02-01'', ip_recordedBy = None, ip_note = None\<rparr>"

definition sample_succeeded :: stripe_mapping where
  "sample_succeeded = sample_mapping\<lparr>sm_invoicePaymentId := Some ''y'', sm_status := SpSucceeded, sm_stripePaymentIntentId := Some ''pi''\<rparr>"

definition sample_paid :: invoice_row where
  "sample_paid = sample_sent 1\<lparr>inv_amountPaid := ''1.00'', inv_balance := ''0.00'', inv_status := InvPaid, inv_paidAt := Some 0\<rparr>"

definition sample_charged :: payment_db where
  "sample_charged = \<lparr>pd_tables = set_invoice ''i'' sample_paid
       (sample_issued\<lparr>vd_payments := [(''y'', sample_recorded)]\<rparr>),
     pd_mappings = [(''m'', sample_succeeded)]\<rparr>"




section \<open>Properties\<close>





text \<open>The amounts sent to Stripe and read back are the same: a whole number of minor units, written as a decimal amount
  and converted again, is that number, in currencies with two decimals and with none.\<close>

theorem minor_units_round_trip:
  assumes "\<bar>n\<bar> \<le> 10 ^ 12"
  shows "toMinorUnits (fromMinorUnits n currency) currency = Some (of_int n)"
proof -
  have a: "\<bar>minor_cents n currency\<bar> \<le> 10 ^ 14" using assms by (auto simp: minor_cents_def abs_mult)
  show ?thesis
  proof (cases "isZeroDecimal currency")
    case True
    have "fl (of_int (n * 100) / 100) = of_int n" using fl_of_int [of n] assms by simp
    with True fromMinorUnits_Number [OF a] floor_half_near [of "of_int n" n] show ?thesis
      by (simp add: toMinorUnits_def minor_cents_def math_round_def)
  next
    case False
    with money_text_cents(2) [OF fromMinorUnits_Number [OF a] a] show ?thesis by (simp add: toMinorUnits_def minor_cents_def)
  qed
qed

theorem minor_units_round_trip_witness: "toMinorUnits (fromMinorUnits 1999 ''usd'') ''usd'' = Some 1999"
  using minor_units_round_trip [of 1999 "''usd''"] by simp

text \<open>C27: a full refund of a recorded charge is never reflected. The payment is deleted while the mapping still counts as
  succeeded, the foreign key clears its payment, and the check that a succeeded mapping has a payment refuses that: the event
  fails, and fails again at every delivery, while the invoice stays paid.\<close>

theorem full_refund_refused:
  assumes "find (\<lambda>(k, m). sm_stripePaymentIntentId m = Some (rf_stripePaymentIntentId input)) (pd_mappings pd) = Some (k, m)"
    and "sm_status m = SpSucceeded" and "sm_invoicePaymentId m = Some p" and "vd_invoices (pd_tables pd) (sm_invoiceId m) \<noteq> None"
    and "rf_stripeAccountId input = sm_stripeAccountId m" and "sm_stripeAccountId m \<noteq> []"
    and "rf_chargeAmountCents input \<le> rf_amountRefundedCents input"
  shows "reflectStripeRefund input now pd = Inl CHECK_VIOLATION"
proof -
  let ?db1 = "(pd_tables pd)\<lparr>vd_payments := filter (\<lambda>(k, q). k \<noteq> p) (vd_payments (pd_tables pd))\<rparr>"
  have "(k, m) \<in> set (pd_mappings pd)" using assms(1) by (auto simp: find_Some_iff in_set_conv_nth)
  moreover have "p \<notin> fst ` set (vd_payments ?db1)" by auto
  ultimately have "(k, m\<lparr>sm_invoicePaymentId := None\<rparr>) \<in> set (unlink_gone ?db1 (pd_mappings pd))"
    using assms(3,4) unfolding unlink_gone_def set_map by (intro image_eqI [of _ _ "(k, m)"]) simp_all
  moreover have "\<not> succeeded_has_payment (k, m\<lparr>sm_invoicePaymentId := None\<rparr>)" using assms(2) by (simp add: succeeded_has_payment_def)
  ultimately have "\<not> list_all succeeded_has_payment (unlink_gone ?db1 (pd_mappings pd))" by (auto simp: list_all_iff)
  then have "delete_payment p pd = Inl CHECK_VIOLATION" by (simp add: delete_payment_def put_tables_def and_then_def ensure_def)
  with assms show ?thesis by (simp add: reflectStripeRefund_def and_then_def)
qed

theorem full_refund_refused_witness: "reflectStripeRefund (sample_refund 100) 0 sample_charged = Inl CHECK_VIOLATION"
  by (rule full_refund_refused [where k = "''m''" and m = sample_succeeded and p = "''y''"])
     (simp_all add: sample_charged_def sample_refund_def sample_succeeded_def sample_mapping_def)

text \<open>A partial refund sets the payment to what remains of the charge, and nothing bounds that by the balance: an event that
  arrives after a later one raises the payment again.\<close>

theorem partial_refund_sets_amount:
  assumes "find (\<lambda>(k, m). sm_stripePaymentIntentId m = Some (rf_stripePaymentIntentId input)) (pd_mappings pd) = Some (k, m)"
    and "sm_invoicePaymentId m = Some p" and "rf_stripeAccountId input = sm_stripeAccountId m" and "sm_stripeAccountId m \<noteq> []"
    and "rf_amountRefundedCents input < rf_chargeAmountCents input"
    and "minor_cents (rf_chargeAmountCents input - rf_amountRefundedCents input) (rf_currency input) < 10 ^ 12"
    and "reflectStripeRefund input now pd = Inr pd'" and "(p, q) \<in> set (vd_payments (pd_tables pd'))"
  shows "cents (ip_amount q) = minor_cents (rf_chargeAmountCents input - rf_amountRefundedCents input) (rf_currency input)"
proof -
  let ?n = "rf_chargeAmountCents input - rf_amountRefundedCents input"
  let ?c = "minor_cents ?n (rf_currency input)"
  obtain db1 db2 where low: "lower_payment p (fromMinorUnits ?n (rf_currency input)) (pd_tables pd) = Inr db1"
    and r: "recomputeInvoiceStatus (sm_invoiceId m) now db1 = Inr db2" and pd': "pd_tables pd' = db2"
    using assms(7) assms(1-5) by (auto simp: reflectStripeRefund_def and_then_Inr)
  have c: "0 < ?c" "\<bar>?c\<bar> \<le> 10 ^ 14" using assms(5,6) by (auto simp: minor_cents_def)
  have "(p, q) \<in> set (vd_payments db1)" using assms(8) parts_payments(3) [OF r] by (simp add: pd')
  then have "ip_amount q = fixed_text 2 ?c"
    using low c assms(6) numeric_fixed [of ?c] unfolding lower_payment_def fromMinorUnits_text [OF c(2)] by (auto simp: and_then_Inr)
  then show ?thesis using c(2) by simp
qed

end
