(* ===== verification/Invoice_Races.thy ===== *)
theory Invoice_Races
  imports Invoice_Runs
begin

text \<open>
  Requests of the invoice service that overlap, and edits of the entries behind an invoice. A handler that reads before it
  writes is split at that point, so another request can commit in between; what follows holds of every state the operations
  reach and of every pair of requests.
\<close>

section \<open>Lemmas\<close>




lemma issue_write_row:
  assumes "issue_write i plan today db = Inr db'" and "vd_invoices db i = Some v"
  obtains w where "vd_invoices db' = (vd_invoices db)(i \<mapsto> w)" and "inv_number w \<noteq> None" and "inv_voidedAt w = inv_voidedAt v"
    and "vd_lines db' = vd_lines db"
    and "vd_times db' = map (\<lambda>(k, t). (k, if k \<in> set (pl_timeIds plan) then t\<lparr>te_billingStatus := SbBilled\<rparr> else t)) (vd_times db)"
  using assms
  by (auto simp: issue_write_def allocate_number_def update_invoice_def set_times_def set_parts_def issued_row_def Let_def and_then_Inr)

lemma issue_check_plan:
  assumes "issue_check i actor db = Inr plan"
  shows "vd_invoices db i = Some (pl_invoice plan)" and "inv_status (pl_invoice plan) = InvDraft"
    and "pl_timeIds plan = billed_sources SrcTimeEntry db i"
  using assms
  by (auto simp: issue_check_def editable_draft_def getOwnedInvoiceOr404_def assertDraft_def and_then_Inr billed_sources_def Let_def split: option.splits)

lemma map_of_entries: "map_of (map (apsnd g) (map (\<lambda>(k, e). (k, if k = t then f e else e)) xs)) t = map_option (g \<circ> f) (map_of xs t)"
  by (induction xs) auto

section \<open>Properties\<close>



text \<open>C24: issues that overlap bill twice. Whenever two drafts that bill one time entry are both checked before either is written,
  both writes go through, by whatever actors, and the entry is billed by two live invoices; the second of the same issues in
  sequence is refused.\<close>

theorem overlapping_issues_bill_twice:
  assumes "no_invoices db0" and "invoice_step\<^sup>*\<^sup>* db0 db" and "i \<noteq> j"
    and "issue_check i actor db = Inr plan" and "issue_guard plan db = Inr ()"
    and "issue_check j actor' db = Inr plan'" and "issue_guard plan' db = Inr ()"
    and "t \<in> set (pl_timeIds plan)" and "t \<in> set (pl_timeIds plan')"
    and "issue_write i plan today db = Inr d1" and "issue_write j plan' today' d1 = Inr d2"
  shows "issue_commit j plan' today' d1 = Inl (SOURCE_ALREADY_BILLED (already_billed (pl_timeIds plan') (source_rows SrcTimeEntry d1)))
       \<and> live_at d2 i \<and> live_at d2 j \<and> t \<in> set (billed_sources SrcTimeEntry d2 i) \<and> t \<in> set (billed_sources SrcTimeEntry d2 j)"
proof -
  have inv: "invoice_inv db" by (rule reached_inv [OF assms(1,2)])
  note p = issue_check_plan [OF assms(4)] and p' = issue_check_plan [OF assms(6)]
  have open_rows: "inv_voidedAt (pl_invoice plan) = None" "inv_voidedAt (pl_invoice plan') = None"
    using draft_status(2) [OF inv p(1,2)] draft_status(2) [OF inv p'(1,2)] by (simp_all add: draft_row_def)
  obtain w where d1: "vd_invoices d1 = (vd_invoices db)(i \<mapsto> w)" "inv_number w \<noteq> None" "inv_voidedAt w = inv_voidedAt (pl_invoice plan)"
    "vd_lines d1 = vd_lines db"
    "vd_times d1 = map (\<lambda>(k, t). (k, if k \<in> set (pl_timeIds plan) then t\<lparr>te_billingStatus := SbBilled\<rparr> else t)) (vd_times db)"
    by (rule issue_write_row [OF assms(10) p(1)])
  have j: "vd_invoices d1 j = Some (pl_invoice plan')" using p'(1) assms(3) by (simp add: d1(1))
  obtain w' where d2: "vd_invoices d2 = (vd_invoices d1)(j \<mapsto> w')" "inv_number w' \<noteq> None" "inv_voidedAt w' = inv_voidedAt (pl_invoice plan')"
    "vd_lines d2 = vd_lines d1"
    by (rule issue_write_row [OF assms(11) j])
  have "live_at d2 i" "live_at d2 j" using d1 d2 open_rows assms(3) by (simp_all add: live_at_def del: not_None_eq)
  moreover have "billed_sources SrcTimeEntry d2 k = billed_sources SrcTimeEntry db k" for k
    by (simp add: billed_sources_def lines_of_def d1(4) d2(4))
  moreover have "t \<in> fst ` set (vd_times db)"
    using source_in_keys [of SrcTimeEntry db t i] inv assms(8) unfolding p(3) by (simp add: invoice_inv_def source_keys_def source_rows_def image_image)
  then have "(t, SbBilled) \<in> set (source_rows SrcTimeEntry d1)" using assms(8) by (force simp: source_rows_def d1(5))
  then have "t \<in> set (already_billed (pl_timeIds plan') (source_rows SrcTimeEntry d1))" using assms(9) by (force simp: already_billed_def)
  then have "issue_commit j plan' today' d1 = Inl (SOURCE_ALREADY_BILLED (already_billed (pl_timeIds plan') (source_rows SrcTimeEntry d1)))"
    by (auto simp: issue_commit_def issue_guard_def source_rows_def Let_def and_then_def ensure_def)
  ultimately show ?thesis using assms(8,9) p(3) p'(3) by simp
qed

theorem overlapping_issues_bill_twice_witness:
  "\<exists>d1 d2. issue_write ''i'' sample_plan ''2026-01-31'' sample_drafted = Inr d1 \<and> issue_write ''j'' sample_plan ''2026-01-31'' d1 = Inr d2
     \<and> live_at d2 ''i'' \<and> live_at d2 ''j'' \<and> ''t'' \<in> set (billed_sources SrcTimeEntry d2 ''i'')
     \<and> ''t'' \<in> set (billed_sources SrcTimeEntry d2 ''j'')"
proof -
  obtain d2 where w: "issue_write ''i'' sample_plan ''2026-01-31'' sample_drafted = Inr sample_issued"
    "issue_write ''j'' sample_plan ''2026-01-31'' sample_issued = Inr d2"
    using sample_drafted_fields sample_issued_fields by (simp add: sample_write sample_issued_def)
  have t: "''t'' \<in> set (pl_timeIds sample_plan)" by (simp add: sample_plan_def)
  from overlapping_issues_bill_twice [OF invoice_run(2) sample_drafted_reached _ sample_check [OF sample_drafted_fields(1,3)] sample_guard(1)
      sample_check [OF sample_drafted_fields(2,4)] sample_guard(1) t t w] w
  show ?thesis by auto
qed

text \<open>A technician can free time that was billed. Whenever the edit of a time entry that a live invoice bills is accepted, which
  it is for the author of an entry that is not approved and for whoever manages all entries, the invoice still bills the entry
  while the entry, which counted as billed before, counts as not billed; so a draft whose only source is that entry passes the guard of the issue.\<close>

theorem edited_entry_is_free:
  assumes "no_invoices db0" and "invoice_step\<^sup>*\<^sup>* db0 db" and "live_at db i" and "t \<in> set (billed_sources SrcTimeEntry db i)"
    and "map_of (vd_times db) t = Some entry" and "entryOrgAllowed entry (ea_accessibleOrgIds actor)"
    and "ea_manageAll actor \<or> te_userId entry = ea_userId actor \<and> \<not> te_isApproved entry"
  shows "source_status SrcTimeEntry db t \<noteq> Some SbNotBilled
       \<and> (\<exists>db'. updateTimeEntry_status t SbNotBilled actor db = Inr db' \<and> live_at db' i \<and> t \<in> set (billed_sources SrcTimeEntry db' i)
       \<and> source_status SrcTimeEntry db' t = Some SbNotBilled
       \<and> (\<forall>plan. set (pl_timeIds plan) \<subseteq> {t} \<and> pl_partIds plan = [] \<longrightarrow> issue_guard plan db' = Inr ()))"
proof -
  have "sources_ok SrcTimeEntry db" using reached_inv [OF assms(1,2)] by (simp add: invoice_inv_def)
  then have "source_status SrcTimeEntry db t \<noteq> Some SbNotBilled" using assms(3,4) unfolding sources_ok_def by blast
  moreover define db' where "db' = db\<lparr>vd_times := map (\<lambda>(k, e). (k, if k = t then e\<lparr>te_billingStatus := SbNotBilled, te_isApproved := False\<rparr> else e)) (vd_times db)\<rparr>"
  then have "updateTimeEntry_status t SbNotBilled actor db = Inr db'"
    using assms(5-7) by (auto simp: updateTimeEntry_status_def assertCanMutate_def ensure_def db'_def)
  moreover have "live_at db' i" "t \<in> set (billed_sources SrcTimeEntry db' i)"
    using assms(3,4) by (simp_all add: db'_def live_at_def billed_sources_def lines_of_def)
  moreover have "source_status SrcTimeEntry db' t = Some SbNotBilled"
  proof -
    have "vd_times db' = map (\<lambda>(k, e). (k, if k = t then e\<lparr>te_billingStatus := SbNotBilled, te_isApproved := False\<rparr> else e)) (vd_times db)"
      by (simp add: db'_def)
    then have "map_of (map (apsnd te_billingStatus) (vd_times db')) t = Some SbNotBilled"
      using assms(5) by (simp only: map_of_entries) simp
    then show ?thesis by (simp add: source_status_def source_rows_def)
  qed
  moreover have "issue_guard plan db' = Inr ()" if "set (pl_timeIds plan) \<subseteq> {t}" "pl_partIds plan = []" for plan
    using that by (auto simp: issue_guard_def already_billed_def db'_def Let_def and_then_def ensure_def filter_empty_conv)
  ultimately show ?thesis by blast
qed

theorem edited_entry_is_free_witness:
  "\<exists>db'. updateTimeEntry_status ''t'' SbNotBilled \<lparr>ea_userId = ''u'', ea_manageAll = False, ea_accessibleOrgIds = Some [''o'']\<rparr> sample_issued = Inr db'
     \<and> live_at db' ''i'' \<and> issue_guard sample_plan db' = Inr ()"
proof -
  let ?actor = "\<lparr>ea_userId = ''u'', ea_manageAll = False, ea_accessibleOrgIds = Some [''o'']\<rparr>" and ?e = "sample_entry\<lparr>te_billingStatus := SbBilled\<rparr>"
  have "live_at sample_issued ''i''"
    by (simp add: live_at_def sample_issued_fields sample_sent_def sample_draft_def blank_invoice_def)
  moreover have "''t'' \<in> set (billed_sources SrcTimeEntry sample_issued ''i'')"
    by (simp add: billed_sources_def sample_issued_fields source_ids_def map_filter_simps sample_line_def line_spec_def str_or_none_def)
  moreover have "map_of (vd_times sample_issued) ''t'' = Some ?e" by (simp add: sample_issued_fields)
  moreover have "entryOrgAllowed ?e (ea_accessibleOrgIds ?actor)" "ea_manageAll ?actor \<or> te_userId ?e = ea_userId ?actor \<and> \<not> te_isApproved ?e"
    by (simp_all add: entryOrgAllowed_def sample_entry_def)
  ultimately show ?thesis
    using edited_entry_is_free [OF invoice_run(2,1), of "''i''" "''t''" ?e ?actor] by (auto simp: sample_plan_def)
qed

end
